(* ===== verification/Prelude.thy ===== *)
theory Prelude
  imports Complex_Main "HOL-Library.AList" "HOL-Library.Sublist" "HOL-Library.Product_Lexorder"
begin

text \<open>
  Shared vocabulary of the development: the parts of the JavaScript standard library that the
  TypeScript sources use (strings, insertion-ordered \<open>Map\<close> and \<open>Set\<close>, stable \<open>Array.sort\<close>),
  and the lemmas about them that several components need.

  A JavaScript string is a list of characters. The model covers the one-byte code units; the case
  conversions are the ASCII ones. A \<open>Map\<close> is an association list whose order is the insertion
  order (\<open>AList.update\<close> keeps the place of a present key and appends a new one, as \<open>Map.set\<close>
  does); a \<open>Set\<close> is a distinct list in insertion order. \<open>undefined\<close> and \<open>null\<close> are \<open>None\<close>; an
  index of -1 ("not found") is \<open>None\<close>.
\<close>

named_theorems js_map \<open>lookups and domains of insertion-ordered maps\<close>
named_theorems js_str \<open>facts about string helpers\<close>

section \<open>Insertion-ordered maps\<close>

type_synonym ('k, 'v) jmap = "('k \<times> 'v) list"

abbreviation map_set :: "'k \<Rightarrow> 'v \<Rightarrow> ('k, 'v) jmap \<Rightarrow> ('k, 'v) jmap" where
  "map_set k v m \<equiv> AList.update k v m"

abbreviation map_get :: "('k, 'v) jmap \<Rightarrow> 'k \<Rightarrow> 'v option" where
  "map_get m k \<equiv> map_of m k"

abbreviation map_delete :: "'k \<Rightarrow> ('k, 'v) jmap \<Rightarrow> ('k, 'v) jmap" where
  "map_delete k m \<equiv> AList.delete k m"

definition map_has :: "('k, 'v) jmap \<Rightarrow> 'k \<Rightarrow> bool" where
  "map_has m k = (map_of m k \<noteq> None)"

abbreviation map_keys :: "('k, 'v) jmap \<Rightarrow> 'k list" where
  "map_keys m \<equiv> map fst m"

abbreviation map_values :: "('k, 'v) jmap \<Rightarrow> 'v list" where
  "map_values m \<equiv> map snd m"

lemma map_has_iff [js_map]: "map_has m k \<longleftrightarrow> k \<in> fst ` set m"
  by (auto simp: map_has_def map_of_eq_None_iff)

lemma map_get_set [js_map, simp]: "map_get (map_set k v m) k' = (if k' = k then Some v else map_get m k')"
  by (simp add: update_conv')

lemma map_get_delete [js_map, simp]: "map_get (map_delete k m) k' = (if k' = k then None else map_get m k')"
  by (simp add: delete_conv')

lemma map_keys_delete: "map_keys (map_delete k m) = filter (\<lambda>k'. k' \<noteq> k) (map_keys m)"
  by (induction m) (auto simp: AList.delete_eq)

lemma distinct_keys_delete [js_map]: "distinct (map_keys m) \<Longrightarrow> distinct (map_keys (map_delete k m))"
  by (simp add: map_keys_delete)

lemma distinct_keys_set [js_map]: "distinct (map_keys m) \<Longrightarrow> distinct (map_keys (map_set k v m))"
  by (rule distinct_update)

lemma map_set_fresh: "k \<notin> fst ` set m \<Longrightarrow> map_set k v m = m @ [(k, v)]"
  by (induction m) auto

lemma set_delete [js_map]: "set (map_delete k m) = {p \<in> set m. fst p \<noteq> k}"
  by (auto simp: AList.delete_eq)

lemma length_delete_le [js_map]: "length (map_delete k m) \<le> length m"
  by (simp add: AList.delete_eq)

lemma length_delete_mem [js_map]:
  assumes "k \<in> fst ` set m"
  shows "length (map_delete k m) < length m"
proof -
  from assms obtain p where "p \<in> set m" "fst p = k"
    by auto
  then have "length (filter (\<lambda>p. k \<noteq> fst p) m) < length m"
    by (intro length_filter_less [of p]) auto
  then show ?thesis
    by (simp add: AList.delete_eq case_prod_unfold)
qed

lemma length_map_set [js_map]:
  "length (map_set k v m) = (if k \<in> fst ` set m then length m else Suc (length m))"
  by (induction m) auto

lemma length_delete_distinct [js_map]:
  assumes "distinct (map_keys m)" and "k \<in> fst ` set m"
  shows "Suc (length (map_delete k m)) = length m"
proof -
  have "length (map_delete k m) = length (filter (\<lambda>k'. k' \<noteq> k) (map_keys m))"
    by (metis length_map map_keys_delete)
  also have "\<dots> = card ({k' \<in> set (map_keys m). k' \<noteq> k})"
    using assms(1) by (metis distinct_card distinct_filter set_filter)
  also have "{k' \<in> set (map_keys m). k' \<noteq> k} = set (map_keys m) - {k}"
    by auto
  also have "card \<dots> = length m - 1"
    using assms distinct_card [OF assms(1)] by simp
  finally show ?thesis
    using assms(2) by (cases m) auto
qed

text \<open>Deleting a key and storing it again moves it to the end of the iteration order.\<close>

lemma touch_eq: "map_set k v (map_delete k m) = map_delete k m @ [(k, v)]"
  by (rule map_set_fresh) (auto simp: set_delete)

section \<open>Insertion-ordered sets\<close>

definition set_add :: "'a \<Rightarrow> 'a list \<Rightarrow> 'a list" where
  "set_add x xs = (if x \<in> set xs then xs else xs @ [x])"

definition set_of_list :: "'a list \<Rightarrow> 'a list" where
  "set_of_list xs = fold set_add xs []"

lemma set_set_add [simp]: "set (set_add x xs) = insert x (set xs)"
  by (auto simp: set_add_def)

lemma distinct_set_add [simp]: "distinct (set_add x xs) = distinct xs"
  by (auto simp: set_add_def)

lemma set_fold_set_add [simp]: "set (fold set_add xs acc) = set acc \<union> set xs"
  by (induction xs arbitrary: acc) auto

lemma distinct_fold_set_add [simp]: "distinct (fold set_add xs acc) = distinct acc"
  by (induction xs arbitrary: acc) auto

lemma set_set_of_list [simp]: "set (set_of_list xs) = set xs"
  by (simp add: set_of_list_def)

lemma distinct_set_of_list [simp]: "distinct (set_of_list xs)"
  by (simp add: set_of_list_def)

section \<open>Strings\<close>

abbreviation starts_with :: "'a list \<Rightarrow> 'a list \<Rightarrow> bool" where
  "starts_with s p \<equiv> prefix p s"

abbreviation ends_with :: "'a list \<Rightarrow> 'a list \<Rightarrow> bool" where
  "ends_with s p \<equiv> suffix p s"

abbreviation str_includes :: "'a list \<Rightarrow> 'a list \<Rightarrow> bool" where
  "str_includes s t \<equiv> sublist t s"

text \<open>\<open>s.slice(a, b)\<close> for \<open>0 \<le> a\<close> and \<open>0 \<le> b\<close>, also \<open>substring\<close> for \<open>a \<le> b\<close>.\<close>

definition slice :: "nat \<Rightarrow> nat \<Rightarrow> 'a list \<Rightarrow> 'a list" where
  "slice a b s = take (b - a) (drop a s)"

text \<open>\<open>s.indexOf(t, i)\<close>; \<open>None\<close> stands for -1.\<close>

fun index_of_from :: "'a list \<Rightarrow> 'a list \<Rightarrow> nat \<Rightarrow> nat option" where
  "index_of_from t [] i = (if t = [] then Some i else None)"
| "index_of_from t (c # s) i = (if prefix t (c # s) then Some i else index_of_from t s (Suc i))"

definition index_of_at :: "'a list \<Rightarrow> 'a list \<Rightarrow> nat \<Rightarrow> nat option" where
  "index_of_at s t i = index_of_from t (drop i s) i"

definition index_of :: "'a list \<Rightarrow> 'a list \<Rightarrow> nat option" where
  "index_of s t = index_of_from t s 0"

text \<open>\<open>s.lastIndexOf(t)\<close> for a non-empty \<open>t\<close>.\<close>

definition last_index_of :: "'a list \<Rightarrow> 'a list \<Rightarrow> nat option" where
  "last_index_of s t =
     (case index_of (rev s) (rev t) of None \<Rightarrow> None | Some k \<Rightarrow> Some (length s - k - length t))"

text \<open>\<open>s.split(c)\<close> for a one-character separator, or a class of characters.\<close>

fun split_by :: "('a \<Rightarrow> bool) \<Rightarrow> 'a list \<Rightarrow> 'a list list" where
  "split_by P [] = [[]]"
| "split_by P (c # s) =
     (if P c then [] # split_by P s
      else (case split_by P s of [] \<Rightarrow> [[c]] | w # ws \<Rightarrow> (c # w) # ws))"

text \<open>\<open>parts.join(sep)\<close>.\<close>

fun join_with :: "'a list \<Rightarrow> 'a list list \<Rightarrow> 'a list" where
  "join_with sep [] = []"
| "join_with sep [w] = w"
| "join_with sep (w # ws) = w @ sep @ join_with sep ws"

definition char_code :: "char \<Rightarrow> nat" where
  "char_code c = of_char c"

definition is_upper :: "char \<Rightarrow> bool" where
  "is_upper c = (65 \<le> char_code c \<and> char_code c \<le> 90)"

definition is_lower :: "char \<Rightarrow> bool" where
  "is_lower c = (97 \<le> char_code c \<and> char_code c \<le> 122)"

definition is_digit :: "char \<Rightarrow> bool" where
  "is_digit c = (48 \<le> char_code c \<and> char_code c \<le> 57)"

definition is_alnum :: "char \<Rightarrow> bool" where
  "is_alnum c = (is_upper c \<or> is_lower c \<or> is_digit c)"

text \<open>The regular-expression classes \<open>\\w\<close> and \<open>\\s\<close> on one-byte code units.\<close>

definition is_word :: "char \<Rightarrow> bool" where
  "is_word c = (is_alnum c \<or> c = CHR ''_'')"

definition is_space :: "char \<Rightarrow> bool" where
  "is_space c = (char_code c \<in> {9, 10, 11, 12, 13, 32, 160})"

definition lower_char :: "char \<Rightarrow> char" where
  "lower_char c = (if is_upper c then char_of (char_code c + 32) else c)"

definition upper_char :: "char \<Rightarrow> char" where
  "upper_char c = (if is_lower c then char_of (char_code c - 32) else c)"

definition to_lower :: "string \<Rightarrow> string" where
  "to_lower s = map lower_char s"

definition trim_start :: "string \<Rightarrow> string" where
  "trim_start s = dropWhile is_space s"

definition trim_end :: "string \<Rightarrow> string" where
  "trim_end s = rev (dropWhile is_space (rev s))"

definition trim :: "string \<Rightarrow> string" where
  "trim s = trim_end (trim_start s)"

abbreviation newline :: char where
  "newline \<equiv> CHR 0x0A"

lemma split_by_not_Nil [simp]: "split_by P s \<noteq> []"
  by (induction s) (auto split: list.splits)

lemma length_to_lower [js_str, simp]: "length (to_lower s) = length s"
  by (simp add: to_lower_def)

lemma char_code_char_of [js_str]: "n < 256 \<Longrightarrow> char_code (char_of n) = n"
  by (simp add: char_code_def)

lemma lower_char_idem [js_str, simp]: "lower_char (lower_char c) = lower_char c"
  by (auto simp: lower_char_def is_upper_def char_code_char_of)

lemma to_lower_idem [js_str, simp]: "to_lower (to_lower s) = to_lower s"
  by (simp add: to_lower_def)

lemma to_lower_append [js_str, simp]: "to_lower (s @ t) = to_lower s @ to_lower t"
  by (simp add: to_lower_def)

lemma to_lower_Nil [js_str, simp]: "to_lower [] = []"
  by (simp add: to_lower_def)

lemma join_split_by: "join_with [c] (split_by (\<lambda>x. x = c) s) = s"
proof (induction s)
  case (Cons a s)
  then show ?case
    by (cases "split_by (\<lambda>x. x = c) s" rule: list.exhaust; cases "tl (split_by (\<lambda>x. x = c) s)")
       auto
qed simp

lemma split_by_no_sep: "w \<in> set (split_by P s) \<Longrightarrow> x \<in> set w \<Longrightarrow> \<not> P x"
proof (induction s arbitrary: w x)
  case (Cons a s)
  then show ?case
    by (fastforce split: if_splits list.splits)
qed simp

lemma index_of_from_Some:
  "index_of_from t s i = Some k \<Longrightarrow> i \<le> k \<and> prefix t (drop (k - i) s)"
proof (induction s arbitrary: i)
  case (Cons c s)
  show ?case
  proof (cases "prefix t (c # s)")
    case False
    with Cons.prems have "index_of_from t s (Suc i) = Some k"
      by simp
    from Cons.IH [OF this] show ?thesis
      by (simp add: drop_Cons')
  qed (use Cons.prems in auto)
qed (auto split: if_splits)

lemma index_of_from_None: "index_of_from t s i = None \<longleftrightarrow> \<not> sublist t s"
  by (induction s arbitrary: i) (auto simp: sublist_Cons_right)

lemma index_of_from_first:
  "index_of_from t s i = Some k \<Longrightarrow> i \<le> j \<Longrightarrow> j < k \<Longrightarrow> \<not> prefix t (drop (j - i) s)"
proof (induction s arbitrary: i)
  case (Cons c s)
  then show ?case
    by (cases "j = i") (auto split: if_splits simp: drop_Cons' Suc_le_eq)
qed (auto split: if_splits)

lemma index_of_Some: "index_of s t = Some k \<Longrightarrow> prefix t (drop k s)"
  unfolding index_of_def by (drule index_of_from_Some) simp

lemma index_of_None: "index_of s t = None \<longleftrightarrow> \<not> str_includes s t"
  by (simp add: index_of_def index_of_from_None)

lemma index_of_at_None: "index_of_at s t i = None \<longleftrightarrow> \<not> str_includes (drop i s) t"
  by (simp add: index_of_at_def index_of_from_None)

section \<open>Stable sorting\<close>

text \<open>
  \<open>Array.prototype.sort\<close> is stable. A comparator that subtracts two keys is \<open>sort_key\<close> of the
  library, which is the stable insertion sort on the key.
\<close>

lemma sort_key_filter_stable:
  "filter (\<lambda>y. f y = k) (sort_key f xs) = filter (\<lambda>y. f y = k) xs"
  by (rule sort_key_stable)

end
