(* ===== verification/Types.thy ===== *)
theory Types
  imports Prelude
begin

text \<open>
  The data model of \<open>codegraph/src/types.ts\<close>: node kinds, edge kinds, languages, nodes, edges, file
  records, unresolved references, subgraphs and traversal options. Optional properties are
  \<open>option\<close>-valued fields. Each union of string literals is a datatype with the function to its
  literal; \<open>NODE_KINDS\<close> and \<open>LANGUAGES\<close> are the runtime arrays that back the two parsed unions.
\<close>

section \<open>Union types\<close>

datatype node_kind =
    NK_file | NK_module | NK_class | NK_struct | NK_interface | NK_trait | NK_protocol
  | NK_function | NK_method | NK_property | NK_field | NK_variable | NK_constant | NK_enum
  | NK_enum_member | NK_type_alias | NK_namespace | NK_parameter | NK_import | NK_export
  | NK_route | NK_component

definition NODE_KINDS :: "node_kind list" where
  "NODE_KINDS =
     [NK_file, NK_module, NK_class, NK_struct, NK_interface, NK_trait, NK_protocol,
      NK_function, NK_method, NK_property, NK_field, NK_variable, NK_constant, NK_enum,
      NK_enum_member, NK_type_alias, NK_namespace, NK_parameter, NK_import, NK_export,
      NK_route, NK_component]"

fun kind_str :: "node_kind \<Rightarrow> string" where
  "kind_str NK_file = ''file''"
| "kind_str NK_module = ''module''"
| "kind_str NK_class = ''class''"
| "kind_str NK_struct = ''struct''"
| "kind_str NK_interface = ''interface''"
| "kind_str NK_trait = ''trait''"
| "kind_str NK_protocol = ''protocol''"
| "kind_str NK_function = ''function''"
| "kind_str NK_method = ''method''"
| "kind_str NK_property = ''property''"
| "kind_str NK_field = ''field''"
| "kind_str NK_variable = ''variable''"
| "kind_str NK_constant = ''constant''"
| "kind_str NK_enum = ''enum''"
| "kind_str NK_enum_member = ''enum_member''"
| "kind_str NK_type_alias = ''type_alias''"
| "kind_str NK_namespace = ''namespace''"
| "kind_str NK_parameter = ''parameter''"
| "kind_str NK_import = ''import''"
| "kind_str NK_export = ''export''"
| "kind_str NK_route = ''route''"
| "kind_str NK_component = ''component''"

datatype edge_kind =
    EK_contains | EK_calls | EK_imports | EK_exports | EK_extends | EK_implements
  | EK_references | EK_type_of | EK_returns | EK_instantiates | EK_overrides | EK_decorates

datatype language =
    L_typescript | L_javascript | L_tsx | L_jsx | L_python | L_go | L_rust | L_java | L_c | L_cpp
  | L_csharp | L_razor | L_php | L_ruby | L_swift | L_kotlin | L_dart | L_svelte | L_vue | L_liquid
  | L_pascal | L_scala | L_lua | L_luau | L_objc | L_yaml | L_twig | L_xml | L_properties
  | L_unknown

definition LANGUAGES :: "language list" where
  "LANGUAGES =
     [L_typescript, L_javascript, L_tsx, L_jsx, L_python, L_go, L_rust, L_java, L_c, L_cpp,
      L_csharp, L_razor, L_php, L_ruby, L_swift, L_kotlin, L_dart, L_svelte, L_vue, L_liquid,
      L_pascal, L_scala, L_lua, L_luau, L_objc, L_yaml, L_twig, L_xml, L_properties,
      L_unknown]"

fun language_str :: "language \<Rightarrow> string" where
  "language_str L_typescript = ''typescript''"
| "language_str L_javascript = ''javascript''"
| "language_str L_tsx = ''tsx''"
| "language_str L_jsx = ''jsx''"
| "language_str L_python = ''python''"
| "language_str L_go = ''go''"
| "language_str L_rust = ''rust''"
| "language_str L_java = ''java''"
| "language_str L_c = ''c''"
| "language_str L_cpp = ''cpp''"
| "language_str L_csharp = ''csharp''"
| "language_str L_razor = ''razor''"
| "language_str L_php = ''php''"
| "language_str L_ruby = ''ruby''"
| "language_str L_swift = ''swift''"
| "language_str L_kotlin = ''kotlin''"
| "language_str L_dart = ''dart''"
| "language_str L_svelte = ''svelte''"
| "language_str L_vue = ''vue''"
| "language_str L_liquid = ''liquid''"
| "language_str L_pascal = ''pascal''"
| "language_str L_scala = ''scala''"
| "language_str L_lua = ''lua''"
| "language_str L_luau = ''luau''"
| "language_str L_objc = ''objc''"
| "language_str L_yaml = ''yaml''"
| "language_str L_twig = ''twig''"
| "language_str L_xml = ''xml''"
| "language_str L_properties = ''properties''"
| "language_str L_unknown = ''unknown''"

datatype visibility = V_public | V_private | V_protected | V_internal

datatype provenance = P_tree_sitter | P_scip | P_heuristic

section \<open>JSON values\<close>

text \<open>
  Values the sources pass through \<open>JSON.stringify\<close> and \<open>JSON.parse\<close>. A TEXT column that holds
  JSON is modelled by what \<open>JSON.parse\<close> makes of it: \<open>JsonOf v\<close> for a text that parses to \<open>v\<close>,
  \<open>Malformed\<close> for one that does not parse (the empty text included).
\<close>

datatype json =
    JNull | JBool bool | JNum rat | JStr string | JArr "json list" | JObj "(string \<times> json) list"

datatype json_text = JsonOf json | Malformed

fun json_parse :: "json_text \<Rightarrow> json option" where
  "json_parse (JsonOf v) = Some v"
| "json_parse Malformed = None"

section \<open>Core graph types\<close>

record node =
  n_id :: string
  n_kind :: node_kind
  n_name :: string
  n_qualifiedName :: string
  n_filePath :: string
  n_language :: language
  n_startLine :: nat
  n_endLine :: nat
  n_startColumn :: nat
  n_endColumn :: nat
  n_docstring :: "string option"
  n_signature :: "string option"
  n_visibility :: "visibility option"
  n_isExported :: "bool option"
  n_isAsync :: "bool option"
  n_isStatic :: "bool option"
  n_isAbstract :: "bool option"
  n_decorators :: "json option"
  n_typeParameters :: "json option"
  n_returnType :: "string option"
  n_updatedAt :: nat

record edge =
  e_source :: string
  e_target :: string
  e_kind :: edge_kind
  e_metadata :: "json option"
  e_line :: "nat option"
  e_column :: "nat option"
  e_provenance :: "provenance option"

record file_record =
  f_path :: string
  f_contentHash :: string
  f_language :: language
  f_size :: nat
  f_modifiedAt :: nat
  f_indexedAt :: nat
  f_nodeCount :: nat
  f_errors :: "json option"

record unresolved_reference =
  u_fromNodeId :: string
  u_referenceName :: string
  u_referenceKind :: edge_kind
  u_line :: nat
  u_column :: nat
  u_filePath :: "string option"
  u_language :: "language option"
  u_candidates :: "json option"

section \<open>Query types\<close>

record subgraph =
  g_nodes :: "(string, node) jmap"
  g_edges :: "edge list"
  g_roots :: "string list"

datatype direction = Outgoing | Incoming | Both

text \<open>
  Traversal options after the defaults have been filled in. \<open>maxDepth\<close> is \<open>None\<close> for \<open>Infinity\<close>.
\<close>

record traversal_options =
  o_maxDepth :: "nat option"
  o_edgeKinds :: "edge_kind list"
  o_nodeKinds :: "node_kind list"
  o_direction :: direction
  o_limit :: nat
  o_includeStart :: bool

record node_context =
  c_focal :: node
  c_ancestors :: "node list"
  c_children :: "node list"
  c_incomingRefs :: "(node \<times> edge) list"
  c_outgoingRefs :: "(node \<times> edge) list"
  c_types :: "node list"
  c_imports :: "node list"

section \<open>The literal arrays list their unions\<close>

lemma NODE_KINDS_complete: "k \<in> set NODE_KINDS"
  by (cases k) (simp_all add: NODE_KINDS_def)

lemma LANGUAGES_complete: "l \<in> set LANGUAGES"
  by (cases l) (simp_all add: LANGUAGES_def)

lemma kind_str_inj: "inj kind_str"
proof -
  have "distinct (map kind_str NODE_KINDS)"
    by (simp add: NODE_KINDS_def)
  then have "inj_on kind_str (set NODE_KINDS)"
    by (simp add: distinct_map)
  moreover have "set NODE_KINDS = UNIV"
    using NODE_KINDS_complete by auto
  ultimately show ?thesis
    by simp
qed

lemma language_str_inj: "inj language_str"
proof -
  have "distinct (map language_str LANGUAGES)"
    by (simp add: LANGUAGES_def)
  then have "inj_on language_str (set LANGUAGES)"
    by (simp add: distinct_map)
  moreover have "set LANGUAGES = UNIV"
    using LANGUAGES_complete by auto
  ultimately show ?thesis
    by simp
qed

text \<open>Node kinds and languages are finite types, so decision over them is by enumeration.\<close>

instantiation node_kind :: finite
begin

instance
proof
  have "(UNIV :: node_kind set) = set NODE_KINDS"
    using NODE_KINDS_complete by auto
  then show "finite (UNIV :: node_kind set)"
    by (metis List.finite_set)
qed

end

instantiation language :: finite
begin

instance
proof
  have "(UNIV :: language set) = set LANGUAGES"
    using LANGUAGES_complete by auto
  then show "finite (UNIV :: language set)"
    by (metis List.finite_set)
qed

end

text \<open>A value of type \<open>string | null\<close> in a condition: the empty string counts as none.\<close>

definition truthy :: "string option \<Rightarrow> string option" where
  "truthy s = (case s of Some t \<Rightarrow> if t = '''' then None else Some t | None \<Rightarrow> None)"

text \<open>
  The kind of a JSON value decides whether JavaScript takes it as true: \<open>null\<close>, \<open>false\<close>, 0 and the
  empty string are not.
\<close>

fun json_truthy :: "json \<Rightarrow> bool" where
  "json_truthy JNull = False"
| "json_truthy (JBool b) = b"
| "json_truthy (JNum r) = (r \<noteq> 0)"
| "json_truthy (JStr s) = (s \<noteq> [])"
| "json_truthy (JArr _) = True"
| "json_truthy (JObj _) = True"

end
