(* ===== verification/CacheContract.thy ===== *)
theory CacheContract
  imports Prelude
begin

text \<open>
  The contract of a bounded cache, as its clients use it: the resolver's \<open>LRUCache\<close>
  (theory \<open>LruCache\<close>) and the query builder's node cache (theory \<open>NodeStore\<close>) both provide it.
\<close>

text \<open>
  \<open>get\<close> looks a key up and may reorder, \<open>put\<close> stores and may evict. \<open>look\<close> is the abstraction to a
  partial function, \<open>ok\<close> the provider's own invariant (its size limit) and \<open>key_ok\<close> the keys that
  respect it. The laws say that a hit is the stored value, that \<open>get\<close> changes no binding, and that \<open>put\<close> changes none but its own, except
  by forgetting.
\<close>

locale bounded_cache =
  fixes get :: "'k \<Rightarrow> 'c \<Rightarrow> 'v option \<times> 'c"
    and put :: "'k \<Rightarrow> 'v \<Rightarrow> 'c \<Rightarrow> 'c"
    and look :: "'c \<Rightarrow> 'k \<Rightarrow> 'v option"
    and ok :: "'c \<Rightarrow> bool"
    and key_ok :: "'k \<Rightarrow> bool"
  assumes get_value: "fst (get k c) = look c k"
    and get_look: "look (snd (get k c)) = look c"
    and get_ok: "ok c \<Longrightarrow> ok (snd (get k c))"
    and put_same: "look (put k v c) k = Some v"
    and put_other: "k' \<noteq> k \<Longrightarrow> look (put k v c) k' = Some w \<Longrightarrow> look c k' = Some w"
    and put_ok: "ok c \<Longrightarrow> key_ok k \<Longrightarrow> ok (put k v c)"
begin

text \<open>A cache is coherent with a partial function when each binding it holds is the function's.\<close>

definition coherent :: "('k \<Rightarrow> 'v option) \<Rightarrow> 'c \<Rightarrow> bool" where
  "coherent m c \<longleftrightarrow> ok c \<and> (\<forall>k v. look c k = Some v \<longrightarrow> m k = Some v)"

lemma coherent_get: "coherent m c \<Longrightarrow> coherent m (snd (get k c))"
  by (simp add: coherent_def get_look get_ok)

lemma coherent_put: "coherent m c \<Longrightarrow> key_ok k \<Longrightarrow> m k = Some v \<Longrightarrow> coherent m (put k v c)"
  unfolding coherent_def by (metis put_ok put_other put_same option.inject)

lemma coherent_hit: "coherent m c \<Longrightarrow> fst (get k c) = Some v \<Longrightarrow> m k = Some v"
  by (simp add: coherent_def get_value)

lemma coherent_look: "coherent m c \<Longrightarrow> look c k = Some v \<Longrightarrow> m k = Some v"
  by (simp add: coherent_def)

lemma coherent_ok: "coherent m c \<Longrightarrow> ok c"
  by (simp add: coherent_def)

text \<open>The cached function may change wherever the cache holds nothing.\<close>

lemma coherent_change:
  assumes "coherent m c" "ok c'" "\<And>k v. look c' k = Some v \<Longrightarrow> look c k = Some v \<and> m' k = m k"
  shows "coherent m' c'"
  using assms unfolding coherent_def by metis

text \<open>Storing many bindings of the function keeps coherence.\<close>

lemma coherent_puts:
  assumes "coherent m c" "\<forall>(k, v) \<in> set kvs. key_ok k \<and> m k = Some v"
  shows "coherent m (fold (\<lambda>(k, v). put k v) kvs c)"
  using assms by (induction kvs arbitrary: c) (auto simp: coherent_put)

end

end
