(* ===== verification/LruCache.thy ===== *)
theory LruCache
  imports CacheContract
begin

text \<open>
  \<open>codegraph/src/resolution/lru-cache.ts\<close>: the bounded cache of the reference resolver, an
  insertion-ordered \<open>Map\<close> whose first key is the least recently used one. The cache contract of theory
  \<open>CacheContract\<close> is interpreted on it, and memoisation through it is shown transparent.
\<close>

section \<open>The class\<close>

record ('k, 'v) lru =
  lru_max :: nat
  lru_store :: "('k, 'v) jmap"

text \<open>
  The constructor's argument is a JavaScript number: \<open>None\<close> is a non-finite one (\<open>NaN\<close>,
  \<open>Infinity\<close>). The error is the constructor's exception.
\<close>

datatype lru_error = Max_not_positive

definition lru_new :: "rat option \<Rightarrow> lru_error + ('k, 'v) lru" where
  "lru_new limit =
     (case limit of
        None \<Rightarrow> Inl Max_not_positive
      | Some m \<Rightarrow>
          if m \<le> 0 then Inl Max_not_positive
          else Inr \<lparr>lru_max = nat \<lfloor>m\<rfloor>, lru_store = []\<rparr>)"

definition lru_size :: "('k, 'v) lru \<Rightarrow> nat" where
  "lru_size c = length (lru_store c)"

text \<open>
  \<open>get\<close>: a hit re-inserts the entry at the most recently used end. Values are never \<open>undefined\<close>,
  so the inner \<open>has\<close> test of the source returns \<open>undefined\<close> on both branches.
\<close>

definition lru_get :: "'k \<Rightarrow> ('k, 'v) lru \<Rightarrow> 'v option \<times> ('k, 'v) lru" where
  "lru_get key c =
     (case map_get (lru_store c) key of
        None \<Rightarrow> (None, c)
      | Some v \<Rightarrow> (Some v, c\<lparr>lru_store := map_set key v (map_delete key (lru_store c))\<rparr>))"

definition lru_has :: "'k \<Rightarrow> ('k, 'v) lru \<Rightarrow> bool" where
  "lru_has key c = map_has (lru_store c) key"

definition lru_set :: "'k \<Rightarrow> 'v \<Rightarrow> ('k, 'v) lru \<Rightarrow> ('k, 'v) lru" where
  "lru_set key v c =
     (let store =
        (if map_has (lru_store c) key then map_delete key (lru_store c)
         else if lru_max c \<le> length (lru_store c) then
           (case map_keys (lru_store c) of
              [] \<Rightarrow> lru_store c
            | oldest # _ \<Rightarrow> map_delete oldest (lru_store c))
         else lru_store c)
      in c\<lparr>lru_store := map_set key v store\<rparr>)"

definition lru_clear :: "('k, 'v) lru \<Rightarrow> ('k, 'v) lru" where
  "lru_clear c = c\<lparr>lru_store := []\<rparr>"

section \<open>Invariant\<close>

text \<open>
  Every cache built by the constructor with \<open>1 \<le> max\<close> keeps distinct keys and at most \<open>lru_max\<close>
  entries, whatever is done to it.
\<close>

definition lru_inv :: "('k, 'v) lru \<Rightarrow> bool" where
  "lru_inv c \<longleftrightarrow>
     0 < lru_max c \<and> distinct (map_keys (lru_store c)) \<and> length (lru_store c) \<le> lru_max c"

datatype ('k, 'v) lru_op = Lru_get 'k | Lru_set 'k 'v | Lru_clear

fun lru_step :: "('k, 'v) lru \<Rightarrow> ('k, 'v) lru_op \<Rightarrow> ('k, 'v) lru" where
  "lru_step c (Lru_get k) = snd (lru_get k c)"
| "lru_step c (Lru_set k v) = lru_set k v c"
| "lru_step c Lru_clear = lru_clear c"

lemma lru_new_inv: "lru_new (Some m) = Inr c \<Longrightarrow> 1 \<le> m \<Longrightarrow> lru_inv c"
  by (auto simp: lru_new_def lru_inv_def split: if_splits)

lemma touch_inv:
  assumes "distinct (map_keys m)" "k \<in> fst ` set m"
  shows "distinct (map_keys (map_set k v (map_delete k m)))"
    and "length (map_set k v (map_delete k m)) = length m"
  using assms by (auto simp: touch_eq set_delete distinct_keys_delete length_delete_distinct)

lemma lru_get_inv: "lru_inv c \<Longrightarrow> lru_inv (snd (lru_get k c))"
proof (cases "map_get (lru_store c) k")
  case (Some v)
  assume inv: "lru_inv c"
  from Some have "k \<in> fst ` set (lru_store c)"
    by (force dest: map_of_SomeD)
  with inv Some show ?thesis
    by (simp add: lru_get_def lru_inv_def touch_inv)
qed (simp add: lru_get_def)

lemma evict_room:
  assumes "lru_inv c" "lru_max c \<le> length (lru_store c)"
  obtains p m where "lru_store c = p # m" "length (map_delete (fst p) (lru_store c)) < lru_max c"
proof -
  from assms obtain p m where st: "lru_store c = p # m"
    by (cases "lru_store c") (auto simp: lru_inv_def)
  with assms length_delete_distinct [of "lru_store c" "fst p"] have
    "length (map_delete (fst p) (lru_store c)) < lru_max c"
    by (simp add: lru_inv_def)
  with st show ?thesis
    by (rule that)
qed

text \<open>The three ways a store can go: a present key, a new key in a full cache, a new key with room.\<close>

lemma lru_set_store:
  "k \<in> fst ` set (lru_store c) \<Longrightarrow> lru_store (lru_set k v c) = map_set k v (map_delete k (lru_store c))"
  "k \<notin> fst ` set (lru_store c) \<Longrightarrow> lru_max c \<le> length (lru_store c) \<Longrightarrow> lru_store c = p # m \<Longrightarrow>
     lru_store (lru_set k v c) = map_set k v (map_delete (fst p) (lru_store c))"
  "k \<notin> fst ` set (lru_store c) \<Longrightarrow> length (lru_store c) < lru_max c \<Longrightarrow>
     lru_store (lru_set k v c) = map_set k v (lru_store c)"
  by (simp_all add: lru_set_def map_has_iff Let_def)

lemma lru_set_inv:
  assumes "lru_inv c"
  shows "lru_inv (lru_set k v c)"
proof -
  consider (hit) "k \<in> fst ` set (lru_store c)"
    | (full) "k \<notin> fst ` set (lru_store c)" "lru_max c \<le> length (lru_store c)"
    | (room) "k \<notin> fst ` set (lru_store c)" "length (lru_store c) < lru_max c"
    by force
  then show ?thesis
  proof cases
    case hit
    with assms show ?thesis
      by (simp add: lru_set_def lru_inv_def touch_inv map_has_iff)
  next
    case full
    from assms full(2) obtain p m where st: "lru_store c = p # m"
      and room: "length (map_delete (fst p) (lru_store c)) < lru_max c"
      by (rule evict_room)
    have "distinct (map_keys (map_delete (fst p) (lru_store c)))"
      using assms by (simp add: lru_inv_def distinct_keys_delete)
    with assms full room show ?thesis
      by (simp add: lru_set_def lru_inv_def map_has_iff st length_map_set distinct_keys_set
          Let_def)
  next
    case room
    with assms show ?thesis
      by (simp add: lru_set_def lru_inv_def map_has_iff length_map_set distinct_keys_set)
  qed
qed

lemma lru_step_inv: "lru_inv c \<Longrightarrow> lru_inv (lru_step c op)"
  by (cases op) (simp_all add: lru_get_inv lru_set_inv, simp add: lru_inv_def lru_clear_def)

lemma lru_step_max: "lru_max (lru_step c op) = lru_max c"
  by (cases op) (auto simp: lru_get_def lru_set_def lru_clear_def Let_def split: option.splits)

section \<open>The cache contract\<close>

definition lru_look :: "('k, 'v) lru \<Rightarrow> 'k \<Rightarrow> 'v option" where
  "lru_look c k = map_get (lru_store c) k"

lemma lru_set_look:
  "lru_look (lru_set k v c) k' =
     (if k' = k then Some v
      else if \<not> map_has (lru_store c) k \<and> lru_max c \<le> length (lru_store c) \<and>
              lru_store c \<noteq> [] \<and> fst (hd (lru_store c)) = k' then None
      else lru_look c k')"
  by (cases "lru_store c") (auto simp: lru_set_def lru_look_def Let_def)

interpretation lruc: bounded_cache lru_get lru_set lru_look lru_inv "\<lambda>_. True"
proof unfold_locales
  fix k k' :: 'a and v w :: 'b and c :: "('a, 'b) lru"
  show "fst (lru_get k c) = lru_look c k"
    by (simp add: lru_get_def lru_look_def split: option.splits)
  show "lru_look (snd (lru_get k c)) = lru_look c"
    by (auto simp: lru_get_def lru_look_def fun_eq_iff split: option.splits)
  show "lru_look (lru_set k v c) k = Some v"
    by (simp add: lru_set_look)
  show "k' \<noteq> k \<Longrightarrow> lru_look (lru_set k v c) k' = Some w \<Longrightarrow> lru_look c k' = Some w"
    by (simp add: lru_set_look split: if_splits)
  show "lru_inv c \<Longrightarrow> lru_inv (snd (lru_get k c))" "lru_inv c \<Longrightarrow> lru_inv (lru_set k v c)"
    by (simp_all add: lru_get_inv lru_set_inv)
qed

text \<open>
  The memoised lookups of \<open>ReferenceResolver.createContext\<close> (\<open>getNodesByName\<close>,
  \<open>getNodesByQualifiedName\<close>, \<open>getNodesByLowerName\<close>): a hit is returned, a miss runs the query and
  stores its result.
\<close>

definition lru_memo :: "('k \<Rightarrow> 'v) \<Rightarrow> 'k \<Rightarrow> ('k, 'v) lru \<Rightarrow> 'v \<times> ('k, 'v) lru" where
  "lru_memo query key c =
     (case lru_get key c of
        (Some cached, c') \<Rightarrow> (cached, c')
      | (None, c') \<Rightarrow> (let result = query key in (result, lru_set key result c')))"

fun lru_memo_all :: "('k \<Rightarrow> 'v) \<Rightarrow> 'k list \<Rightarrow> ('k, 'v) lru \<Rightarrow> 'v list \<times> ('k, 'v) lru" where
  "lru_memo_all query [] c = ([], c)"
| "lru_memo_all query (k # ks) c =
     (let (v, c') = lru_memo query k c; (vs, c'') = lru_memo_all query ks c' in (v # vs, c''))"

lemma lru_memo_correct:
  assumes "lruc.coherent (\<lambda>k. Some (f k)) c"
  shows "fst (lru_memo f k c) = f k \<and> lruc.coherent (\<lambda>k. Some (f k)) (snd (lru_memo f k c))"
proof (cases "lru_get k c")
  case (Pair r c')
  then have "lruc.coherent (\<lambda>k. Some (f k)) c'"
    using lruc.coherent_get [OF assms(1), of k] by simp
  then show ?thesis
    using lruc.coherent_hit [OF assms(1), of k] Pair
    by (cases r) (auto simp: lru_memo_def Let_def lruc.coherent_put)
qed

lemma lru_memo_all_correct:
  assumes "lruc.coherent (\<lambda>k. Some (f k)) c"
  shows "fst (lru_memo_all f ks c) = map f ks"
  using assms
proof (induction ks arbitrary: c)
  case (Cons k ks)
  obtain v c' where m: "lru_memo f k c = (v, c')"
    by fastforce
  with lru_memo_correct [OF Cons.prems, of k] Cons.IH [of c'] show ?case
    by (cases "lru_memo_all f ks c'") (simp add: Let_def)
qed simp

section \<open>Recency\<close>

text \<open>The keys after \<open>k\<close> in iteration order: those used more recently than \<open>k\<close>.\<close>

definition younger :: "'k \<Rightarrow> 'k list \<Rightarrow> 'k set" where
  "younger k ks = set (tl (dropWhile (\<lambda>x. x \<noteq> k) ks))"

fun lru_key :: "('k, 'v) lru_op \<Rightarrow> 'k option" where
  "lru_key (Lru_get k) = Some k"
| "lru_key (Lru_set k v) = Some k"
| "lru_key Lru_clear = None"

lemma younger_snoc:
  "k \<in> set ks \<Longrightarrow> younger k (ks @ [x]) = insert x (younger k ks)"
  by (auto simp: younger_def dropWhile_append1 tl_append split: list.splits)

lemma younger_last: "k \<notin> set ks \<Longrightarrow> younger k (ks @ [k]) = {}"
proof -
  assume "k \<notin> set ks"
  then have "dropWhile (\<lambda>x. x \<noteq> k) (ks @ [k]) = [k]"
    by (subst dropWhile_append2) auto
  then show ?thesis
    by (simp add: younger_def)
qed

lemma younger_filter: "x \<noteq> k \<Longrightarrow> younger k (filter (\<lambda>y. y \<noteq> x) ks) \<subseteq> younger k ks"
proof (induction ks)
  case (Cons a ks)
  then show ?case
    by (auto simp: younger_def split: if_splits)
qed (simp add: younger_def)

lemma younger_first:
  assumes "distinct (k # ks)"
  shows "younger k (k # ks) = set ks"
  using assms by (simp add: younger_def)

text \<open>
  One operation on another key. Unless \<open>k\<close> is the oldest of a full cache and a new key is stored,
  \<open>k\<close> stays, and only the key of the operation can become younger than \<open>k\<close>.
\<close>

lemma lru_step_keeps:
  assumes inv: "lru_inv c" and k: "k \<in> fst ` set (lru_store c)" and key: "lru_key op = Some x"
    and x: "x \<noteq> k"
    and room: "card (insert x (younger k (map_keys (lru_store c)))) < lru_max c"
  shows "k \<in> fst ` set (lru_store (lru_step c op)) \<and>
    younger k (map_keys (lru_store (lru_step c op))) \<subseteq> insert x (younger k (map_keys (lru_store c)))"
proof -
  let ?m = "lru_store c"
  have touch: "k \<in> fst ` set (map_set x v (map_delete y ?m)) \<and>
      younger k (map_keys (map_set x v (map_delete y ?m))) \<subseteq> insert x (younger k (map_keys ?m))"
    if "x \<notin> fst ` set (map_delete y ?m)" "y \<noteq> k" for y v
    using that k younger_filter [of y k "map_keys ?m"]
    by (auto simp: map_set_fresh map_keys_delete set_delete younger_snoc image_iff)
  have plain: "k \<in> fst ` set (map_set x v ?m) \<and>
      younger k (map_keys (map_set x v ?m)) \<subseteq> insert x (younger k (map_keys ?m))"
    if "x \<notin> fst ` set ?m" for v
    using that k by (auto simp: map_set_fresh younger_snoc)
  have first: "y \<noteq> k" if "?m = (y, w) # m" "x \<notin> fst ` set ?m" "lru_max c \<le> length ?m" for y w m
  proof
    assume "y = k"
    with that inv have "younger k (map_keys ?m) = fst ` set m" "k \<notin> fst ` set m" "distinct (map_keys m)"
      by (simp_all add: lru_inv_def younger_def)
    moreover have "card (fst ` set m) = length m"
      using calculation(3) distinct_card [of "map_keys m"] by simp
    ultimately show False
      using room that by auto
  qed
  show ?thesis
  proof (cases op)
    case (Lru_get x')
    with key have "x' = x" by simp
    with Lru_get k show ?thesis
      using touch [of x] x by (auto simp: lru_get_def set_delete split: option.splits)
  next
    case (Lru_set x' v)
    with key have op: "op = Lru_set x v" by simp
    consider (hit) "x \<in> fst ` set ?m" | (full) "x \<notin> fst ` set ?m" "lru_max c \<le> length ?m"
      | (room) "x \<notin> fst ` set ?m" "length ?m < lru_max c"
      by force
    then show ?thesis
    proof cases
      case hit
      have "x \<notin> fst ` set (map_delete x ?m)"
        by (simp add: set_delete image_iff)
      then show ?thesis
        using touch [of x v] x by (simp add: op lru_set_store(1) [OF hit])
    next
      case full
      from k obtain y w m where m: "?m = (y, w) # m"
        by (cases ?m) auto
      have "x \<notin> fst ` set (map_delete y ?m)"
        using full(1) by (auto simp: set_delete)
      then show ?thesis
        using touch [of y v] first [OF m full] by (simp add: op lru_set_store(2) [OF full m])
    next
      case room
      then show ?thesis
        using plain [of v] by (simp add: op lru_set_store(3))
    qed
  qed (use key in simp)
qed

lemma lru_step_refresh:
  assumes "lru_inv c" "lru_key op = Some k" "\<And>w. op \<noteq> Lru_set k w" "lru_look c k = Some v"
  shows "lru_look (lru_step c op) k = Some v \<and> younger k (map_keys (lru_store (lru_step c op))) = {}"
proof -
  from assms(2,3) have op: "op = Lru_get k"
    by (cases op) auto
  have "k \<notin> set (map_keys (map_delete k (lru_store c)))"
    by (auto simp: set_delete)
  moreover have "map_get (map_set k v (map_delete k (lru_store c))) k = Some v"
    by simp
  ultimately show ?thesis
    using assms(4) by (simp add: op lru_get_def lru_look_def touch_eq younger_last del: map_of_append)
qed

lemma lru_step_other_look:
  assumes "lru_key op = Some x" "x \<noteq> k" "lru_look (lru_step c op) k = Some w"
  shows "lru_look c k = Some w"
proof (cases op)
  case (Lru_get y)
  with assms(3) show ?thesis
    by (simp add: lruc.get_look)
next
  case (Lru_set y u)
  with assms show ?thesis
    by (auto intro: lruc.put_other [of k x u])
qed (use assms in simp)

lemma lru_run_keeps:
  fixes c :: "('k, 'v) lru"
  assumes "lru_inv c" "lru_look c k = Some v" "younger k (map_keys (lru_store c)) \<subseteq> S" "finite S"
    and "\<forall>op \<in> set ops. op \<noteq> Lru_clear \<and> (\<forall>w. op \<noteq> Lru_set k w)"
    and "card (S \<union> ({x. \<exists>op \<in> set ops. lru_key op = Some x} - {k})) < lru_max c"
  shows "lru_look (foldl lru_step c ops) k = Some v"
  using assms
proof (induction ops arbitrary: c S)
  case (Cons op ops)
  let ?K = "\<lambda>ops :: ('k, 'v) lru_op list. {x. \<exists>op \<in> set ops. lru_key op = Some x} - {k}"
  have fin: "finite (?K os)" for os
    by (rule finite_subset [of _ "(\<lambda>op. the (lru_key op)) ` set os"]) force+
  from Cons.prems(5) obtain x where key: "lru_key op = Some x"
    by (cases op) auto
  have inv: "lru_inv (lru_step c op)"
    using Cons.prems(1) by (rule lru_step_inv)
  show ?case
  proof (cases "x = k")
    case True
    with Cons.prems key have step: "lru_look (lru_step c op) k = Some v"
      "younger k (map_keys (lru_store (lru_step c op))) = {}"
      using lru_step_refresh [of c op k v] by auto
    have "card (S \<union> ?K ops) \<le> card (S \<union> ?K (op # ops))"
      using fin [of "op # ops"] Cons.prems(4) by (intro card_mono) auto
    with Cons.prems inv step show ?thesis
      by (auto simp: lru_step_max intro!: Cons.IH [of _ S])
  next
    case False
    have S': "insert x S \<subseteq> S \<union> ?K (op # ops)"
      using key False by auto
    have k: "k \<in> fst ` set (lru_store c)"
      using Cons.prems(2) by (force simp: lru_look_def dest: map_of_SomeD)
    have "card (insert x (younger k (map_keys (lru_store c)))) \<le> card (S \<union> ?K (op # ops))"
      using S' Cons.prems(3,4) fin [of "op # ops"] by (intro card_mono) auto
    with Cons.prems(6) have "card (insert x (younger k (map_keys (lru_store c)))) < lru_max c"
      by simp
    from lru_step_keeps [OF Cons.prems(1) k key False this]
    have kept: "k \<in> fst ` set (lru_store (lru_step c op))"
      and yng: "younger k (map_keys (lru_store (lru_step c op))) \<subseteq> insert x S"
      using Cons.prems(3) by auto
    from kept obtain w where "lru_look (lru_step c op) k = Some w"
      by (auto simp: lru_look_def dest: weak_map_of_SomeI)
    with lru_step_other_look [OF key False this] Cons.prems(2)
    have look: "lru_look (lru_step c op) k = Some v"
      by simp
    have "card (insert x S \<union> ?K ops) \<le> card (S \<union> ?K (op # ops))"
      using S' fin [of "op # ops"] Cons.prems(4) by (intro card_mono) auto
    with Cons.prems inv look yng show ?thesis
      by (auto simp: lru_step_max intro!: Cons.IH [of _ "insert x S"])
  qed
qed simp

section \<open>Properties\<close>

text \<open>
  A cache the constructor accepts with a limit of at least one never holds more than the floor
  of that limit, and never holds two entries under one key, whatever sequence of \<open>get\<close>, \<open>set\<close> and
  \<open>clear\<close> calls follows.
\<close>

theorem lru_bounded:
  fixes c :: "('k, 'v) lru"
  assumes "lru_new (Some m) = Inr c" "1 \<le> m"
  shows "lru_size (foldl lru_step c ops) \<le> nat \<lfloor>m\<rfloor> \<and>
    distinct (map_keys (lru_store (foldl lru_step c ops)))"
proof -
  have "lru_inv (foldl lru_step c ops) \<and> lru_max (foldl lru_step c ops) = nat \<lfloor>m\<rfloor>"
    using lru_new_inv [OF assms] assms
    by (induction ops rule: rev_induct)
       (auto simp: lru_step_inv lru_step_max lru_new_def split: if_splits)
  then show ?thesis
    by (simp add: lru_inv_def lru_size_def)
qed

theorem lru_bounded_witness:
  "lru_size (foldl lru_step \<lparr>lru_max = 1, lru_store = []\<rparr>
     [Lru_set ''a'' (1::nat), Lru_set ''b'' 2, Lru_get ''b'']) \<le> nat \<lfloor>3 / 2 :: rat\<rfloor>"
proof -
  have "\<lfloor>3 / 2 :: rat\<rfloor> = 1"
    by (simp add: floor_eq_iff)
  then have "lru_new (Some (3 / 2)) = Inr (\<lparr>lru_max = 1, lru_store = []\<rparr> :: (string, nat) lru)"
    by (simp add: lru_new_def)
  from lru_bounded [OF this, of "[Lru_set ''a'' 1, Lru_set ''b'' 2, Lru_get ''b'']"]
  show ?thesis by simp
qed

text \<open>
  The eviction order is least recently used. A key that was just stored is still found with
  its value after any operations on fewer than \<open>max\<close> other keys (as long as it is not overwritten
  and the cache is not cleared): no eviction reaches it before \<open>max\<close> distinct other keys have been
  used.
\<close>

theorem lru_recent_survives:
  fixes c :: "('k, 'v) lru"
  assumes "lru_inv c"
    and "\<forall>op \<in> set ops. op \<noteq> Lru_clear \<and> (\<forall>w. op \<noteq> Lru_set k w)"
    and "card ({x. \<exists>op \<in> set ops. lru_key op = Some x} - {k}) < lru_max c"
  shows "lru_look (foldl lru_step (lru_set k v c) ops) k = Some v"
proof -
  have "younger k (map_keys (lru_store (lru_set k v c))) = {}"
  proof -
    obtain m where m: "lru_store (lru_set k v c) = map_set k v m" "k \<notin> fst ` set m"
    proof (cases "k \<in> fst ` set (lru_store c)")
      case True
      then show ?thesis
        by (intro that [of "map_delete k (lru_store c)"]) (auto simp: lru_set_store set_delete)
    next
      case False
      show ?thesis
      proof (cases "lru_max c \<le> length (lru_store c)")
        case True
        with assms(1) obtain p m' where "lru_store c = p # m'"
          by (rule evict_room)
        with True False show ?thesis
          by (intro that [of "map_delete (fst p) (lru_store c)"])
             (auto simp: lru_set_store(2) set_delete)
      qed (use False that [of "lru_store c"] in \<open>simp add: lru_set_store(3)\<close>)
    qed
    then show ?thesis
      by (simp add: map_set_fresh younger_last)
  qed
  then show ?thesis
    using assms lru_set_inv [OF assms(1), of k v] lru_step_max [of c "Lru_set k v"]
    by (intro lru_run_keeps [of _ _ _ "{}"]) (auto simp: lru_set_look)
qed

theorem lru_recent_survives_witness:
  "lru_look (foldl lru_step (lru_set ''k'' (7::nat) \<lparr>lru_max = 2, lru_store = []\<rparr>)
     [Lru_set ''a'' 1, Lru_get ''k'', Lru_set ''a'' 3]) ''k'' = Some 7"
proof (rule lru_recent_survives)
  have "{x. \<exists>op \<in> set [Lru_set ''a'' (1::nat), Lru_get ''k'', Lru_set ''a'' 3]. lru_key op = Some x} - {''k''}
      = {''a''}"
    by auto
  then show "card ({x. \<exists>op \<in> set [Lru_set ''a'' (1::nat), Lru_get ''k'', Lru_set ''a'' 3].
      lru_key op = Some x} - {''k''}) < lru_max (\<lparr>lru_max = 2, lru_store = []\<rparr> :: (string, nat) lru)"
    by simp
qed (auto simp: lru_inv_def)

text \<open>
  Memoisation through the bounded cache is transparent. However small the cache and whatever
  the sequence of lookups, each answer is what the query itself would have returned.
\<close>

theorem lru_memo_transparent:
  fixes c :: "('k, 'v) lru"
  assumes "lru_new (Some m) = Inr c" "1 \<le> m"
  shows "fst (lru_memo_all query ks c) = map query ks"
proof -
  have "lruc.coherent (\<lambda>k. Some (query k)) c"
    using assms(1) lru_new_inv [OF assms]
    by (auto simp: lruc.coherent_def lru_look_def lru_new_def split: if_splits)
  then show ?thesis
    by (simp add: lru_memo_all_correct)
qed

theorem lru_memo_transparent_witness:
  "fst (lru_memo_all length [''a'', ''bc'', ''a'', ''def'', ''bc''] \<lparr>lru_max = 2, lru_store = []\<rparr>)
     = [1, 2, 1, 3, 2]"
proof -
  have "lru_new (Some 2) = Inr (\<lparr>lru_max = 2, lru_store = []\<rparr> :: (string, nat) lru)"
    by (simp add: lru_new_def)
  from lru_memo_transparent [OF this, of length "[''a'', ''bc'', ''a'', ''def'', ''bc'']"]
  show ?thesis by simp
qed

end
