(* ===== verification/QueryParser.thy ===== *)
theory QueryParser
  imports Types
begin

text \<open>
  \<open>codegraph/src/search/query-parser.ts\<close>: the field-qualified query parser (\<open>parseQuery\<close>) and the
  bounded edit distance of the fuzzy search fallback (\<open>boundedEditDistance\<close>). The tokeniser keeps
  the source's index arithmetic; the dynamic program keeps its row-by-row shape and its early
  exits. The edit distance is specified by the cost of the cheapest edit script (\<open>align\<close>).
\<close>

section \<open>Parsed queries\<close>

record parsed_query =
  q_text :: string
  q_kinds :: "node_kind list"
  q_languages :: "language list"
  q_pathFilters :: "string list"
  q_nameFilters :: "string list"

abbreviation quote :: char where
  "quote \<equiv> CHR 0x22"

abbreviation colon :: char where
  "colon \<equiv> CHR 0x3A"

definition KIND_VALUES :: "string \<Rightarrow> node_kind option" where
  "KIND_VALUES s = find (\<lambda>k. kind_str k = s) NODE_KINDS"

definition LANGUAGE_VALUES :: "string \<Rightarrow> language option" where
  "LANGUAGE_VALUES s = find (\<lambda>l. language_str l = s) LANGUAGES"

definition unquote :: "string \<Rightarrow> string" where
  "unquote s =
     (if 2 \<le> length s \<and> starts_with s [quote] \<and> ends_with s [quote]
      then slice 1 (length s - 1) s else s)"

section \<open>Tokenising\<close>

lemma index_of_at_ge: "index_of_at s t i = Some k \<Longrightarrow> i \<le> k"
  unfolding index_of_at_def by (drule index_of_from_Some) simp

text \<open>
  The inner loop from a token's first character: it stops at white space outside quotes; a quote
  jumps past its partner, or to the end of the input when there is none.
\<close>

function token_end :: "string \<Rightarrow> nat \<Rightarrow> nat" where
  "token_end raw i =
     (if i < length raw \<and> \<not> is_space (raw ! i) then
        (if raw ! i = quote then
           (case index_of_at raw [quote] (i + 1) of
              None \<Rightarrow> length raw
            | Some close \<Rightarrow> token_end raw (close + 1))
         else token_end raw (i + 1))
      else i)"
  by pat_completeness auto

termination
  by (relation "measure (\<lambda>(raw, i). length raw - i)")
     (auto dest: index_of_at_ge)

declare token_end.simps [simp del]

text \<open>The loop \<open>while (i < raw.length && /\\s/.test(raw[i])) i++\<close>.\<close>

function skip_space :: "string \<Rightarrow> nat \<Rightarrow> nat" where
  "skip_space raw i = (if i < length raw \<and> is_space (raw ! i) then skip_space raw (i + 1) else i)"
  by pat_completeness auto
termination
  by (relation "measure (\<lambda>(raw, i). length raw - i)") auto

declare skip_space.simps [simp del]

lemma skip_space_ge: "i \<le> skip_space raw i"
  by (induction raw i rule: skip_space.induct) (subst skip_space.simps, auto)

lemma skip_space_stop: "skip_space raw i < length raw \<Longrightarrow> \<not> is_space (raw ! skip_space raw i)"
proof (induction raw i rule: skip_space.induct)
  case (1 raw i)
  then show ?case
    using skip_space.simps [of raw i] by (auto split: if_splits)
qed

lemma token_end_ge: "i \<le> token_end raw i"
proof (induction raw i rule: token_end.induct)
  case (1 raw i)
  then show ?case
    using token_end.simps [of raw i]
    by (force split: if_splits option.splits dest: index_of_at_ge)
qed

lemma token_end_gt:
  assumes "i < length raw" "\<not> is_space (raw ! i)"
  shows "i < token_end raw i"
proof (cases "raw ! i = quote")
  case True
  show ?thesis
  proof (cases "index_of_at raw [quote] (i + 1)")
    case (Some k)
    then have "i + 1 \<le> k"
      by (rule index_of_at_ge)
    with Some True assms token_end_ge [of "k + 1" raw] token_end.simps [of raw i] show ?thesis
      by simp
  qed (use True assms token_end.simps [of raw i] in simp)
next
  case False
  with assms token_end_ge [of "i + 1" raw] token_end.simps [of raw i] show ?thesis
    by simp
qed

function tokenise :: "string \<Rightarrow> nat \<Rightarrow> string list \<Rightarrow> string list" where
  "tokenise raw i tokens =
     (if i < length raw then
        (let start = skip_space raw i
         in if length raw \<le> start then tokens
            else (let stop = token_end raw start
                  in tokenise raw stop (tokens @ [slice start stop raw])))
      else tokens)"
  by pat_completeness auto
termination
proof (relation "measure (\<lambda>(raw, i, _). length raw - i)", simp, goal_cases)
  case (1 raw i tokens start stop)
  then have "i \<le> start" "start < length raw" "start < stop"
    using skip_space_ge [of i raw] skip_space_stop [of raw i] token_end_gt [of start raw] by auto
  then show ?case by auto
qed

declare tokenise.simps [simp del]

section \<open>Classifying tokens\<close>

text \<open>
  The loop body over one token. The state is the result under construction and \<open>textParts\<close>.
\<close>

definition classify :: "string \<Rightarrow> parsed_query \<times> string list \<Rightarrow> parsed_query \<times> string list" where
  "classify tok st =
     (case st of (out, textParts) \<Rightarrow>
       let as_text = (out, textParts @ [tok]) in
       (case index_of tok [colon] of
          None \<Rightarrow> as_text
        | Some c \<Rightarrow>
            if c = 0 \<or> c = length tok - 1 then as_text
            else
              (let key = to_lower (slice 0 c tok);
                   valueRaw = unquote (drop (c + 1) tok)
               in if valueRaw = [] then as_text
                  else if key = ''kind'' then
                    (case KIND_VALUES valueRaw of
                       Some k \<Rightarrow> (out\<lparr>q_kinds := q_kinds out @ [k]\<rparr>, textParts)
                     | None \<Rightarrow> as_text)
                  else if key = ''lang'' \<or> key = ''language'' then
                    (case LANGUAGE_VALUES (to_lower valueRaw) of
                       Some l \<Rightarrow> (out\<lparr>q_languages := q_languages out @ [l]\<rparr>, textParts)
                     | None \<Rightarrow> as_text)
                  else if key = ''path'' then
                    (out\<lparr>q_pathFilters := q_pathFilters out @ [valueRaw]\<rparr>, textParts)
                  else if key = ''name'' then
                    (out\<lparr>q_nameFilters := q_nameFilters out @ [valueRaw]\<rparr>, textParts)
                  else as_text)))"

definition empty_query :: parsed_query where
  "empty_query = \<lparr>q_text = [], q_kinds = [], q_languages = [], q_pathFilters = [], q_nameFilters = []\<rparr>"

definition parseQuery :: "string \<Rightarrow> parsed_query" where
  "parseQuery raw =
     (case fold classify (tokenise raw 0 []) (empty_query, []) of
        (out, textParts) \<Rightarrow> out\<lparr>q_text := trim (join_with '' '' textParts)\<rparr>)"

section \<open>Bounded edit distance\<close>

text \<open>
  One row of the dynamic program: \<open>ca\<close> is the character of \<open>a\<close>, the third argument the part of
  \<open>prev\<close> still to read (with \<open>prev[j-1]\<close> first), the last argument \<open>cur[j-1]\<close>.
\<close>

fun edit_row :: "char \<Rightarrow> string \<Rightarrow> nat list \<Rightarrow> nat \<Rightarrow> nat list" where
  "edit_row ca (cb # bs) (diag # up # ps) left =
     (let cost = (if ca = cb then 0 else 1);
          insertion = left + 1;
          deletion = up + 1;
          substitution = diag + cost;
          v = min insertion (min deletion substitution)
      in v # edit_row ca bs (up # ps) v)"
| "edit_row _ _ _ _ = []"

text \<open>The loop over the characters of \<open>a\<close>: \<open>i\<close> is the row number, \<open>prev\<close> the row before.\<close>

fun edit_loop :: "string \<Rightarrow> nat \<Rightarrow> string \<Rightarrow> nat list \<Rightarrow> nat \<Rightarrow> nat" where
  "edit_loop [] i b prev maxDist = last prev"
| "edit_loop (ca # as) i b prev maxDist =
     (let cur = i # edit_row ca b prev i;
          rowMin = Min (set cur)
      in if maxDist < rowMin then maxDist + 1
         else edit_loop as (i + 1) b cur maxDist)"

definition boundedEditDistance :: "string \<Rightarrow> string \<Rightarrow> nat \<Rightarrow> nat" where
  "boundedEditDistance a b maxDist =
     (if a = b then 0
      else if maxDist < nat \<bar>int (length a) - int (length b)\<bar> then maxDist + 1
      else if length a = 0 then length b
      else if length b = 0 then length a
      else edit_loop a 1 b [0..<length b + 1] maxDist)"

section \<open>The edit distance the program computes\<close>

text \<open>
  \<open>align a b n\<close>: some left-to-right edit script of cost \<open>n\<close> turns \<open>a\<close> into \<open>b\<close>, where keeping a
  character is free and substituting, deleting or inserting one costs 1.
\<close>

inductive align :: "'a list \<Rightarrow> 'a list \<Rightarrow> nat \<Rightarrow> bool" where
  stop: "align [] [] 0"
| keep: "align a b n \<Longrightarrow> align (x # a) (x # b) n"
| subst: "align a b n \<Longrightarrow> align (x # a) (y # b) (Suc n)"
| delete: "align a b n \<Longrightarrow> align (x # a) b (Suc n)"
| insert: "align a b n \<Longrightarrow> align a (y # b) (Suc n)"

inductive_cases align_Nil_NilE: "align [] [] n"
inductive_cases align_ConsE: "align (x # a) (y # b) n"
inductive_cases align_Nil_ConsE: "align [] (y # b) n"
inductive_cases align_Cons_NilE: "align (x # a) [] n"

definition edit_distance :: "'a list \<Rightarrow> 'a list \<Rightarrow> nat" where
  "edit_distance a b = (LEAST n. align a b n)"

lemma align_append: "align a b n \<Longrightarrow> align c d m \<Longrightarrow> align (a @ c) (b @ d) (n + m)"
  by (induction rule: align.induct) (auto intro: align.intros)

lemma align_delete_all: "align a [] (length a)"
  by (induction a) (auto intro: align.intros)

lemma align_insert_all: "align [] b (length b)"
  by (induction b) (auto intro: align.intros)

lemma align_exists: "\<exists>n. align a b n"
  using align_append [OF align_delete_all [of a] align_insert_all [of b]] by auto

lemma align_distance: "align a b (edit_distance a b)"
  unfolding edit_distance_def using align_exists by (rule LeastI_ex)

lemma edit_distance_le: "align a b n \<Longrightarrow> edit_distance a b \<le> n"
  unfolding edit_distance_def by (rule Least_le)

lemma edit_distance_eqI: "align a b n \<Longrightarrow> (\<And>m. align a b m \<Longrightarrow> n \<le> m) \<Longrightarrow> edit_distance a b = n"
  by (meson align_distance edit_distance_le order_antisym)

lemma align_length: "align a b n \<Longrightarrow> length a \<le> length b + n \<and> length b \<le> length a + n"
  by (induction rule: align.induct) auto

lemma align_rev: "align a b n \<Longrightarrow> align (rev a) (rev b) n"
proof (induction rule: align.induct)
  case (keep a b n x)
  then show ?case
    using align_append [of "rev a" "rev b" n "[x]" "[x]" 0] by (simp add: align.intros)
next
  case (subst a b n x y)
  then show ?case
    using align_append [of "rev a" "rev b" n "[x]" "[y]" "Suc 0"] by (simp add: align.intros)
next
  case (delete a b n x)
  then show ?case
    using align_append [of "rev a" "rev b" n "[x]" "[]" "Suc 0"] by (simp add: align.intros)
next
  case (insert a b n y)
  then show ?case
    using align_append [of "rev a" "rev b" n "[]" "[y]" "Suc 0"] by (simp add: align.intros)
qed (simp add: align.intros)

lemma align_rev_iff: "align (rev a) (rev b) n \<longleftrightarrow> align a b n"
  using align_rev [of a b n] align_rev [of "rev a" "rev b" n] by auto

lemma align_snocE:
  assumes "align (a @ [x]) (b @ [y]) n"
  shows "(\<exists>m. align a b m \<and> m + (if x = y then 0 else 1) \<le> n) \<or>
    (\<exists>m. align a (b @ [y]) m \<and> m + 1 \<le> n) \<or> (\<exists>m. align (a @ [x]) b m \<and> m + 1 \<le> n)"
proof -
  have "align (x # rev a) (y # rev b) n"
    using align_rev [OF assms] by simp
  then have "(\<exists>m. align (rev a) (rev b) m \<and> m + (if x = y then 0 else 1) \<le> n) \<or>
    (\<exists>m. align (rev a) (rev (b @ [y])) m \<and> m + 1 \<le> n) \<or>
    (\<exists>m. align (rev (a @ [x])) (rev b) m \<and> m + 1 \<le> n)"
    by (elim align_ConsE) auto
  then show ?thesis
    by (simp only: align_rev_iff)
qed

text \<open>The recurrence of the dynamic program, on prefixes.\<close>

lemma edit_distance_snoc:
  "edit_distance (a @ [x]) (b @ [y]) =
     min (edit_distance (a @ [x]) b + 1)
       (min (edit_distance a (b @ [y]) + 1) (edit_distance a b + (if x = y then 0 else 1)))"
    (is "_ = ?r")
proof (rule edit_distance_eqI)
  have "align (a @ [x]) (b @ [y]) (edit_distance (a @ [x]) b + 1)"
    using align_append [OF align_distance [of "a @ [x]" b], of "[]" "[y]" 1] by (simp add: align.intros)
  moreover have "align (a @ [x]) (b @ [y]) (edit_distance a (b @ [y]) + 1)"
    using align_append [OF align_distance [of a "b @ [y]"], of "[x]" "[]" 1] by (simp add: align.intros)
  moreover have "align (a @ [x]) (b @ [y]) (edit_distance a b + (if x = y then 0 else 1))"
    using align_append [OF align_distance [of a b], of "[x]" "[y]" "if x = y then 0 else 1"]
    by (simp add: align.intros)
  ultimately show "align (a @ [x]) (b @ [y]) ?r"
    by (simp add: min_def)
next
  fix m
  assume "align (a @ [x]) (b @ [y]) m"
  from align_snocE [OF this] show "?r \<le> m"
    by (auto simp: min_le_iff_disj dest!: edit_distance_le)
qed

lemma edit_distance_Nil [simp]:
  "edit_distance a [] = length a" "edit_distance [] b = length b"
  using align_delete_all align_insert_all align_length [of a "[]"] align_length [of "[]" b]
  by (auto intro!: edit_distance_eqI)

lemma edit_distance_refl [simp]: "edit_distance a a = 0"
proof -
  have "align a a 0"
    by (induction a) (auto intro: align.intros)
  then show ?thesis
    using edit_distance_le by fastforce
qed

lemma edit_distance_length: "\<bar>int (length a) - int (length b)\<bar> \<le> int (edit_distance a b)"
  using align_length [OF align_distance [of a b]] by linarith

text \<open>Every edit script of \<open>a\<close> passes through each row: some prefix of \<open>b\<close> is reached from \<open>take i a\<close>.\<close>

lemma align_row:
  "align a b n \<Longrightarrow> \<exists>j \<le> length b. \<exists>m \<le> n. align (take i a) (take j b) m"
proof (induction arbitrary: i rule: align.induct)
  case stop
  show ?case by (auto intro: align.intros)
next
  case (keep a b n x)
  show ?case
  proof (cases i)
    case 0
    then show ?thesis by (intro exI [of _ 0]) (auto intro: align.intros)
  next
    case (Suc i')
    from keep.IH [of i'] obtain j m where "j \<le> length b" "m \<le> n" "align (take i' a) (take j b) m"
      by auto
    with Suc show ?thesis by (intro exI [of _ "Suc j"]) (auto intro: align.intros)
  qed
next
  case (subst a b n x y)
  show ?case
  proof (cases i)
    case 0
    then show ?thesis by (intro exI [of _ 0]) (auto intro: align.intros)
  next
    case (Suc i')
    from subst.IH [of i'] obtain j m where "j \<le> length b" "m \<le> n" "align (take i' a) (take j b) m"
      by auto
    with Suc show ?thesis
      by (intro exI [of _ "Suc j"] conjI exI [of _ "Suc m"]) (auto intro: align.intros)
  qed
next
  case (delete a b n x)
  show ?case
  proof (cases i)
    case 0
    then show ?thesis by (intro exI [of _ 0]) (auto intro: align.intros)
  next
    case (Suc i')
    from delete.IH [of i'] obtain j m where "j \<le> length b" "m \<le> n" "align (take i' a) (take j b) m"
      by auto
    with Suc show ?thesis
      by (intro exI [of _ j] conjI exI [of _ "Suc m"]) (auto intro: align.intros)
  qed
next
  case (insert a b n y)
  from insert.IH [of i] obtain j m where "j \<le> length b" "m \<le> n" "align (take i a) (take j b) m"
    by auto
  then show ?case
    by (intro exI [of _ "Suc j"] conjI exI [of _ "Suc m"]) (auto intro: align.intros)
qed

definition dp_row :: "string \<Rightarrow> string \<Rightarrow> nat list" where
  "dp_row p b = map (\<lambda>j. edit_distance p (take j b)) [0..<length b + 1]"

lemma edit_row_correct:
  "edit_row x bs (map (\<lambda>j. edit_distance p (take j (b @ bs))) [length b..<length (b @ bs) + 1])
     (edit_distance (p @ [x]) b) =
   map (\<lambda>j. edit_distance (p @ [x]) (take j (b @ bs))) [length b + 1..<length (b @ bs) + 1]"
proof (induction bs arbitrary: b)
  case (Cons y bs)
  let ?f = "\<lambda>j. edit_distance p (take j (b @ y # bs))"
  have split: "[length b..<length (b @ y # bs) + 1] =
      length b # (length b + 1) # [length b + 2..<length (b @ y # bs) + 1]"
    by (simp add: upt_conv_Cons del: upt_Suc)
  have vals: "?f (length b) = edit_distance p b" "?f (length b + 1) = edit_distance p (b @ [y])"
    by simp_all
  have IH: "edit_row x bs (map ?f [length b + 1..<length (b @ y # bs) + 1])
      (edit_distance (p @ [x]) (b @ [y])) =
    map (\<lambda>j. edit_distance (p @ [x]) (take j (b @ y # bs))) [length b + 2..<length (b @ y # bs) + 1]"
    using Cons.IH [of "b @ [y]"] by simp
  have tail: "map ?f [length b + 1..<length (b @ y # bs) + 1] =
      edit_distance p (b @ [y]) # map ?f [length b + 2..<length (b @ y # bs) + 1]"
    by (simp add: upt_conv_Cons del: upt_Suc)
  have "edit_row x (y # bs) (map ?f [length b..<length (b @ y # bs) + 1]) (edit_distance (p @ [x]) b) =
      edit_distance (p @ [x]) (b @ [y]) #
        edit_row x bs (map ?f [length b + 1..<length (b @ y # bs) + 1]) (edit_distance (p @ [x]) (b @ [y]))"
    unfolding split tail edit_distance_snoc by (simp add: vals Let_def)
  also have "\<dots> = map (\<lambda>j. edit_distance (p @ [x]) (take j (b @ y # bs)))
      [length b + 1..<length (b @ y # bs) + 1]"
    unfolding IH by (simp add: upt_conv_Cons del: upt_Suc)
  finally show ?case .
qed simp

lemma dp_row_next: "(length p + 1) # edit_row x b (dp_row p b) (length p + 1) = dp_row (p @ [x]) b"
proof -
  have "edit_row x b (dp_row p b) (length p + 1) =
      map (\<lambda>j. edit_distance (p @ [x]) (take j b)) [1..<length b + 1]"
    using edit_row_correct [of x b p "[]"] by (simp add: dp_row_def)
  moreover have "[0..<length b + 1] = 0 # [1..<length b + 1]"
    by (simp add: upt_conv_Cons del: upt_Suc)
  moreover have "dp_row (p @ [x]) b = edit_distance (p @ [x]) [] #
      map (\<lambda>j. edit_distance (p @ [x]) (take j b)) [1..<length b + 1]"
    unfolding dp_row_def calculation(2) by simp
  ultimately show ?thesis
    by simp
qed

lemma dp_row_last: "last (dp_row p b) = edit_distance p b"
  by (simp add: dp_row_def)

lemma dp_row_first: "dp_row [] b = [0..<length b + 1]"
  by (rule nth_equalityI) (auto simp: dp_row_def nth_append)

lemma dp_row_min: "Min (set (dp_row (take i a) b)) \<le> edit_distance a b"
proof -
  from align_row [OF align_distance [of a b], of i] obtain j m where
    "j \<le> length b" "m \<le> edit_distance a b" "align (take i a) (take j b) m"
    by auto
  then have "edit_distance (take i a) (take j b) \<le> edit_distance a b"
    using edit_distance_le by fastforce
  moreover have "edit_distance (take i a) (take j b) \<in> set (dp_row (take i a) b)"
    using \<open>j \<le> length b\<close> by (auto simp: dp_row_def simp del: upt_Suc)
  ultimately show ?thesis
    by (meson List.finite_set Min_le order_trans)
qed

text \<open>\<open>agrees r d k\<close>: \<open>r\<close> tells \<open>d\<close> exactly up to the bound \<open>k\<close>, and only that it is larger beyond.\<close>

definition agrees :: "nat \<Rightarrow> nat \<Rightarrow> nat \<Rightarrow> bool" where
  "agrees r d k \<longleftrightarrow> (if d \<le> k then r = d else k < r \<and> r \<le> d)"

lemma edit_loop_correct:
  "agrees (edit_loop as (length p + 1) b (dp_row p b) k) (edit_distance (p @ as) b) k"
proof (induction as arbitrary: p)
  case Nil
  then show ?case
    by (simp add: dp_row_last agrees_def)
next
  case (Cons x as)
  have row: "(length p + 1) # edit_row x b (dp_row p b) (length p + 1) = dp_row (p @ [x]) b"
    by (rule dp_row_next)
  show ?case
  proof (cases "k < Min (set (dp_row (p @ [x]) b))")
    case True
    then have "k < edit_distance (p @ x # as) b"
      using dp_row_min [of "length p + 1" "p @ x # as" b] by simp
    with True row show ?thesis
      by (simp add: agrees_def Let_def)
  next
    case False
    with row Cons.IH [of "p @ [x]"] show ?thesis
      by (simp add: Let_def)
  qed
qed

lemma boundedEditDistance_agrees: "agrees (boundedEditDistance a b k) (edit_distance a b) k"
proof -
  have "agrees (edit_loop a 1 b [0..<length b + 1] k) (edit_distance a b) k"
    using edit_loop_correct [of a "[]" b k] by (simp add: dp_row_first)
  moreover have "k < edit_distance a b" if "k < nat \<bar>int (length a) - int (length b)\<bar>"
    using that edit_distance_length [of a b] by linarith
  ultimately show ?thesis
    by (auto simp: boundedEditDistance_def agrees_def)
qed

section \<open>What the tokeniser does\<close>

text \<open>A word is a token candidate: not empty, without white space and without quotes.\<close>

definition is_word_token :: "string \<Rightarrow> bool" where
  "is_word_token w \<longleftrightarrow> w \<noteq> [] \<and> (\<forall>c \<in> set w. \<not> is_space c \<and> c \<noteq> quote)"

lemma is_space_space [simp]: "is_space CHR 0x20"
  by (simp add: is_space_def char_code_def)

lemma token_end_word:
  assumes "\<forall>c \<in> set w. \<not> is_space c \<and> c \<noteq> quote" "rest = [] \<or> is_space (hd rest)"
  shows "token_end (pre @ w @ rest) (length pre) = length pre + length w"
  using assms(1)
proof (induction w arbitrary: pre)
  case Nil
  then show ?case
    using assms(2) token_end.simps [of "pre @ rest" "length pre"]
    by (cases rest) (auto simp: nth_append)
next
  case (Cons c w)
  have "token_end (pre @ (c # w) @ rest) (length pre) = token_end ((pre @ [c]) @ w @ rest) (length (pre @ [c]))"
    using Cons.prems token_end.simps [of "pre @ (c # w) @ rest" "length pre"]
    by (simp add: nth_append)
  also have "\<dots> = length pre + length (c # w)"
    using Cons.IH [of "pre @ [c]"] Cons.prems by simp
  finally show ?case .
qed

lemma skip_space_none:
  "rest \<noteq> [] \<Longrightarrow> \<not> is_space (hd rest) \<Longrightarrow> skip_space (pre @ rest) (length pre) = length pre"
  by (subst skip_space.simps) (simp add: nth_append hd_conv_nth)

lemma skip_space_one:
  "rest \<noteq> [] \<Longrightarrow> \<not> is_space (hd rest) \<Longrightarrow>
   skip_space (pre @ CHR 0x20 # rest) (length pre) = Suc (length pre)"
  using skip_space.simps [of "pre @ CHR 0x20 # rest" "length pre"]
    skip_space_none [of rest "pre @ [CHR 0x20]"]
  by simp

text \<open>Words joined by single spaces are split into exactly these words.\<close>

lemma tokenise_one:
  assumes w: "is_word_token w" and rest: "rest = [] \<or> is_space (hd rest)"
    and pre: "skip_space (pre @ w @ rest) i = length pre" "i \<le> length pre"
  shows "tokenise (pre @ w @ rest) i acc =
    tokenise (pre @ w @ rest) (length (pre @ w)) (acc @ [w])"
proof -
  have stop: "token_end (pre @ w @ rest) (length pre) = length pre + length w"
    using w rest by (intro token_end_word) (auto simp: is_word_token_def)
  have "slice (length pre) (length pre + length w) (pre @ w @ rest) = w"
    by (simp add: slice_def)
  moreover have w0: "0 < length w"
    using w by (simp add: is_word_token_def)
  moreover have "i < length pre + (length w + length rest)"
    using w0 pre(2) by linarith
  ultimately show ?thesis
    using pre stop by (subst tokenise.simps) (simp add: Let_def)
qed

lemma tokenise_end: "length raw \<le> i \<Longrightarrow> tokenise raw i acc = acc"
  by (subst tokenise.simps) simp

lemma tokenise_words_from:
  "\<forall>w \<in> set ws. is_word_token w \<Longrightarrow>
   tokenise (pre @ concat (map (\<lambda>w. CHR 0x20 # w) ws)) (length pre) acc = acc @ ws"
proof (induction ws arbitrary: pre acc)
  case (Cons w ws)
  let ?rest = "concat (map (\<lambda>w. CHR 0x20 # w) ws)"
  have w: "w \<noteq> []" "\<not> is_space (hd w)"
    using Cons.prems by (auto simp: is_word_token_def)
  have rest: "?rest = [] \<or> is_space (hd ?rest)"
    by (cases ws) auto
  have "skip_space ((pre @ [CHR 0x20]) @ w @ ?rest) (length pre) = length (pre @ [CHR 0x20])"
    using skip_space_one [of "w @ ?rest" pre] w by simp
  from tokenise_one [OF _ rest this, of acc] Cons.prems
  have "tokenise (pre @ concat (map (\<lambda>w. CHR 0x20 # w) (w # ws))) (length pre) acc =
      tokenise ((pre @ CHR 0x20 # w) @ ?rest) (length (pre @ CHR 0x20 # w)) (acc @ [w])"
    by simp
  with Cons.IH [of "pre @ CHR 0x20 # w" "acc @ [w]"] Cons.prems show ?case
    by simp
qed (simp add: tokenise_end)

lemma join_words: "join_with '' '' (w # ws) = w @ concat (map (\<lambda>w. CHR 0x20 # w) ws)"
  by (induction ws arbitrary: w) auto

lemma tokenise_words:
  assumes "\<forall>w \<in> set ws. is_word_token w"
  shows "tokenise (join_with '' '' ws) 0 [] = ws"
proof (cases ws)
  case Nil
  then show ?thesis by (simp add: tokenise_end)
next
  case (Cons w ws')
  let ?rest = "concat (map (\<lambda>w. CHR 0x20 # w) ws')"
  have rest: "?rest = [] \<or> is_space (hd ?rest)"
    by (cases ws') auto
  have "w \<noteq> []" "\<not> is_space (hd w)"
    using assms Cons by (auto simp: is_word_token_def)
  then have "skip_space ([] @ w @ ?rest) 0 = length []"
    using skip_space_none [of "w @ ?rest" "[]"] by simp
  from tokenise_one [OF _ rest this, of "[]"] assms Cons
  have "tokenise (join_with '' '' ws) 0 [] = tokenise (w @ ?rest) (length w) [w]"
    by (simp add: join_words)
  also have "\<dots> = ws"
    using tokenise_words_from [of ws' w "[w]"] assms Cons by simp
  finally show ?thesis .
qed

section \<open>Rendering a structured query and parsing it back\<close>

datatype query_field =
    F_kind node_kind | F_lang language | F_path string | F_name string | F_text string

fun render_field :: "query_field \<Rightarrow> string" where
  "render_field (F_kind k) = ''kind:'' @ kind_str k"
| "render_field (F_lang l) = ''lang:'' @ language_str l"
| "render_field (F_path s) = ''path:'' @ s"
| "render_field (F_name s) = ''name:'' @ s"
| "render_field (F_text s) = s"

fun field_ok :: "query_field \<Rightarrow> bool" where
  "field_ok (F_path s) = is_word_token s"
| "field_ok (F_name s) = is_word_token s"
| "field_ok (F_text s) = (is_word_token s \<and> colon \<notin> set s)"
| "field_ok _ = True"

fun collect_field :: "query_field \<Rightarrow> parsed_query \<times> string list \<Rightarrow> parsed_query \<times> string list" where
  "collect_field (F_kind k) (out, ts) = (out\<lparr>q_kinds := q_kinds out @ [k]\<rparr>, ts)"
| "collect_field (F_lang l) (out, ts) = (out\<lparr>q_languages := q_languages out @ [l]\<rparr>, ts)"
| "collect_field (F_path s) (out, ts) = (out\<lparr>q_pathFilters := q_pathFilters out @ [s]\<rparr>, ts)"
| "collect_field (F_name s) (out, ts) = (out\<lparr>q_nameFilters := q_nameFilters out @ [s]\<rparr>, ts)"
| "collect_field (F_text s) (out, ts) = (out, ts @ [s])"

lemma find_inj:
  assumes "inj f" "x \<in> set xs"
  shows "find (\<lambda>y. f y = f x) xs = Some x"
  using assms(2) by (induction xs) (auto dest: injD [OF assms(1)])

lemma KIND_VALUES_str [simp]: "KIND_VALUES (kind_str k) = Some k"
  by (simp add: KIND_VALUES_def find_inj kind_str_inj NODE_KINDS_complete)

lemma LANGUAGE_VALUES_str [simp]: "LANGUAGE_VALUES (language_str l) = Some l"
  by (simp add: LANGUAGE_VALUES_def find_inj language_str_inj LANGUAGES_complete)

lemma unquote_word: "quote \<notin> set s \<Longrightarrow> unquote s = s"
  by (cases s) (auto simp: unquote_def)

lemma lower_char_ascii:
  "\<not> is_upper c \<Longrightarrow> lower_char c = c"
  by (simp add: lower_char_def)

lemma kind_str_word: "is_word_token (kind_str k)"
  by (cases k) (simp_all add: is_word_token_def is_space_def char_code_def)

lemma language_str_word: "is_word_token (language_str l)"
  by (cases l) (simp_all add: is_word_token_def is_space_def char_code_def)

lemma language_str_lower [simp]: "to_lower (language_str l) = language_str l"
  by (cases l) (simp_all add: to_lower_def lower_char_def is_upper_def char_code_def)

lemma field_key_lower [simp]:
  "to_lower ''kind'' = ''kind''" "to_lower ''lang'' = ''lang''"
  "to_lower ''path'' = ''path''" "to_lower ''name'' = ''name''"
  by (simp_all add: to_lower_def lower_char_def is_upper_def char_code_def)

lemma index_of_absent: "c \<notin> set s \<Longrightarrow> index_of s [c] = None"
  by (auto simp: index_of_None dest: set_mono_sublist)

lemma index_of_key:
  "index_of (''kind:'' @ v) [colon] = Some 4" "index_of (''lang:'' @ v) [colon] = Some 4"
  "index_of (''path:'' @ v) [colon] = Some 4" "index_of (''name:'' @ v) [colon] = Some 4"
  by (simp_all add: index_of_def)

lemma word_no_quote: "is_word_token s \<Longrightarrow> unquote s = s \<and> s \<noteq> []"
  by (auto simp: is_word_token_def intro: unquote_word)

lemma classify_field:
  assumes "field_ok f"
  shows "classify (render_field f) st = collect_field f st"
proof (cases f)
  case (F_kind k)
  with word_no_quote [OF kind_str_word [of k]] index_of_key(1) [of "kind_str k"] show ?thesis
    by (cases st) (simp add: classify_def Let_def slice_def)
next
  case (F_lang l)
  with word_no_quote [OF language_str_word [of l]] index_of_key(2) [of "language_str l"] show ?thesis
    by (cases st) (simp add: classify_def Let_def slice_def)
next
  case (F_path s)
  with assms word_no_quote [of s] index_of_key(3) [of s] show ?thesis
    by (cases st) (simp add: classify_def Let_def slice_def)
next
  case (F_name s)
  with assms word_no_quote [of s] index_of_key(4) [of s] show ?thesis
    by (cases st) (simp add: classify_def Let_def slice_def)
next
  case (F_text s)
  with assms index_of_absent [of colon s] show ?thesis
    by (cases st) (simp add: classify_def Let_def)
qed

lemma render_word: "field_ok f \<Longrightarrow> is_word_token (render_field f)"
  using kind_str_word language_str_word
  by (cases f) (auto simp: is_word_token_def is_space_def char_code_def)

lemma fold_classify_fields:
  "\<forall>f \<in> set fs. field_ok f \<Longrightarrow> fold classify (map render_field fs) st = fold collect_field fs st"
  by (induction fs arbitrary: st) (auto simp: classify_field)

lemma collect_fields:
  "fold collect_field fs (out, ts) =
     (out\<lparr>q_kinds := q_kinds out @ [k. F_kind k \<leftarrow> fs],
          q_languages := q_languages out @ [l. F_lang l \<leftarrow> fs],
          q_pathFilters := q_pathFilters out @ [s. F_path s \<leftarrow> fs],
          q_nameFilters := q_nameFilters out @ [s. F_name s \<leftarrow> fs]\<rparr>,
      ts @ [s. F_text s \<leftarrow> fs])"
proof (induction fs arbitrary: out ts)
  case (Cons f fs)
  then show ?case
    by (cases f) simp_all
qed simp

lemma trim_word_ends:
  "s \<noteq> [] \<Longrightarrow> \<not> is_space (hd s) \<Longrightarrow> \<not> is_space (last s) \<Longrightarrow> trim s = s"
proof -
  assume s: "s \<noteq> []" and ends: "\<not> is_space (hd s)" "\<not> is_space (last s)"
  have "trim_start s = s"
    using s ends(1) by (cases s) (simp_all add: trim_start_def)
  moreover have "rev s = last s # rev (butlast s)"
    using s by (metis append_butlast_last_id rev_eq_Cons_iff rev_rev_ident)
  then have "dropWhile is_space (rev s) = rev s"
    using ends(2) by (metis dropWhile.simps(2))
  then have "trim_end s = s"
    by (simp add: trim_end_def)
  ultimately show ?thesis
    by (simp add: trim_def)
qed

lemma last_join_words:
  "\<forall>w \<in> set ws. is_word_token w \<Longrightarrow> ws \<noteq> [] \<Longrightarrow> last (join_with '' '' ws) = last (last ws)"
proof (induction ws rule: induct_list012)
  case (3 w v vs)
  then show ?case
    by (cases "join_with '' '' (v # vs)") (auto simp: is_word_token_def join_words)
qed simp_all

lemma trim_join_words:
  assumes "\<forall>w \<in> set ws. is_word_token w"
  shows "trim (join_with '' '' ws) = join_with '' '' ws"
proof (cases ws)
  case (Cons w ws')
  have "hd (join_with '' '' ws) = hd w"
    using assms Cons by (simp add: join_words is_word_token_def)
  moreover have "last (join_with '' '' ws) = last (last ws)"
    using assms Cons by (intro last_join_words) simp_all
  moreover have "join_with '' '' ws \<noteq> []"
    using assms Cons by (simp add: join_words is_word_token_def)
  moreover have "w \<in> set ws" "last ws \<in> set ws"
    using Cons by simp_all
  ultimately show ?thesis
    using assms by (intro trim_word_ends) (auto simp: is_word_token_def)
qed (simp add: trim_def trim_start_def trim_end_def)

lemma skip_space_drop:
  "filter (\<lambda>c. \<not> is_space c) (drop (skip_space raw i) raw) = filter (\<lambda>c. \<not> is_space c) (drop i raw)"
proof (induction raw i rule: skip_space.induct)
  case (1 raw i)
  show ?case
  proof (cases "i < length raw \<and> is_space (raw ! i)")
    case True
    then have "drop i raw = raw ! i # drop (i + 1) raw"
      by (simp add: Cons_nth_drop_Suc)
    moreover have "skip_space raw i = skip_space raw (i + 1)"
      by (subst skip_space.simps) (use True in auto)
    ultimately show ?thesis
      using True 1 by simp
  next
    case False
    have "skip_space raw i = i"
      by (subst skip_space.simps) (use False in auto)
    then show ?thesis
      by simp
  qed
qed

lemma tokenise_keeps:
  "filter (\<lambda>c. \<not> is_space c) (concat (tokenise raw i acc)) =
     filter (\<lambda>c. \<not> is_space c) (concat acc) @ filter (\<lambda>c. \<not> is_space c) (drop i raw)"
proof (induction raw i acc rule: tokenise.induct)
  case (1 raw i acc)
  let ?start = "skip_space raw i" and ?stop = "token_end raw (skip_space raw i)"
  consider "length raw \<le> i" | "i < length raw" "length raw \<le> ?start" | "i < length raw" "?start < length raw"
    by linarith
  then show ?case
  proof cases
    case 1
    then show ?thesis
      by (simp add: tokenise_end)
  next
    case 2
    with skip_space_drop [of raw i] tokenise.simps [of raw i acc] show ?thesis
      by (simp add: Let_def)
  next
    case 3
    have "drop ?start raw = slice ?start ?stop raw @ drop ?stop raw"
      using token_end_ge [of ?start raw]
      by (simp add: slice_def) (metis append_take_drop_id drop_drop le_add_diff_inverse2)
    then have "filter (\<lambda>c. \<not> is_space c) (drop i raw) =
        filter (\<lambda>c. \<not> is_space c) (slice ?start ?stop raw) @ filter (\<lambda>c. \<not> is_space c) (drop ?stop raw)"
      using skip_space_drop [of raw i] by (metis filter_append)
    with 3 "1.IH" tokenise.simps [of raw i acc] show ?thesis
      by (simp add: Let_def)
  qed
qed

section \<open>Properties\<close>

text \<open>
  C34: the bounded edit distance is the edit distance (the cost of the cheapest script of single
  character insertions, deletions and substitutions) whenever that is within the bound, and
  otherwise a number above the bound that never overstates the distance. The early exits on the
  length difference and on the row minimum lose nothing.
\<close>

theorem boundedEditDistance_correct:
  "if edit_distance a b \<le> k then boundedEditDistance a b k = edit_distance a b
   else k < boundedEditDistance a b k \<and> boundedEditDistance a b k \<le> edit_distance a b"
  using boundedEditDistance_agrees [of a b k] by (simp add: agrees_def)

text \<open>
  C35: rendering a structured query (kinds, languages, path and name filters and free words, in any
  order) as \<open>kind:\<close>, \<open>lang:\<close>, \<open>path:\<close>, \<open>name:\<close> tokens and parsing the line gives back every filter, in
  order, and the free words as the text.
\<close>

theorem parseQuery_roundtrip:
  assumes "\<forall>f \<in> set fs. field_ok f"
  shows "parseQuery (join_with '' '' (map render_field fs)) =
    \<lparr>q_text = join_with '' '' [s. F_text s \<leftarrow> fs], q_kinds = [k. F_kind k \<leftarrow> fs],
     q_languages = [l. F_lang l \<leftarrow> fs], q_pathFilters = [s. F_path s \<leftarrow> fs],
     q_nameFilters = [s. F_name s \<leftarrow> fs]\<rparr>"
proof -
  have "tokenise (join_with '' '' (map render_field fs)) 0 [] = map render_field fs"
    using assms render_word by (intro tokenise_words) auto
  moreover have "trim (join_with '' '' [s. F_text s \<leftarrow> fs]) = join_with '' '' [s. F_text s \<leftarrow> fs]"
    using assms by (intro trim_join_words) (force split: query_field.splits)
  ultimately show ?thesis
    using assms by (simp add: parseQuery_def fold_classify_fields collect_fields empty_query_def)
qed

theorem parseQuery_roundtrip_witness:
  "parseQuery ''kind:method auth name:log lang:go path:src/api'' =
    \<lparr>q_text = ''auth'', q_kinds = [NK_method], q_languages = [L_go], q_pathFilters = [''src/api''],
     q_nameFilters = [''log'']\<rparr>"
  using parseQuery_roundtrip [of "[F_kind NK_method, F_text ''auth'', F_name ''log'', F_lang L_go,
      F_path ''src/api'']"]
  by (simp add: is_word_token_def is_space_def char_code_def)

text \<open>
  The tokeniser loses no character of the query but white space: the tokens in order hold
  exactly the other characters of the input, whatever quotes it has.
\<close>

theorem tokenise_lossless:
  "filter (\<lambda>c. \<not> is_space c) (concat (tokenise raw 0 [])) = filter (\<lambda>c. \<not> is_space c) raw"
  using tokenise_keeps [of raw 0 "[]"] by simp

end
