(* ===== verification/Rows.thy ===== *)
theory Rows
  imports Types
begin

text \<open>
  The rows of the SQLite tables and their conversions, from \<open>codegraph/src/db/queries.ts\<close>
  (\<open>NodeRow\<close>, \<open>EdgeRow\<close>, \<open>FileRow\<close>, \<open>UnresolvedRefRow\<close>, \<open>rowToNode\<close>, \<open>rowToEdge\<close>,
  \<open>rowToFileRecord\<close> and the parameter objects the write operations bind). A nullable column is an
  \<open>option\<close>; a TEXT column that the code fills with \<open>JSON.stringify\<close> is a \<open>json_text option\<close>; a
  column holding one of the string unions has the union's datatype, since every write goes through
  a typed parameter object. The flag columns are the integers the code compares with 1.
\<close>

section \<open>Row types\<close>

record node_row =
  r_id :: string
  r_kind :: node_kind
  r_name :: string
  r_qualified_name :: string
  r_file_path :: string
  r_language :: language
  r_start_line :: nat
  r_end_line :: nat
  r_start_column :: nat
  r_end_column :: nat
  r_docstring :: "string option"
  r_signature :: "string option"
  r_visibility :: "visibility option"
  r_is_exported :: nat
  r_is_async :: nat
  r_is_static :: nat
  r_is_abstract :: nat
  r_decorators :: "json_text option"
  r_type_parameters :: "json_text option"
  r_return_type :: "string option"
  r_updated_at :: nat

record edge_row =
  er_id :: nat
  er_source :: string
  er_target :: string
  er_kind :: edge_kind
  er_metadata :: "json_text option"
  er_line :: "nat option"
  er_col :: "nat option"
  er_provenance :: "provenance option"

record file_row =
  fr_path :: string
  fr_content_hash :: string
  fr_language :: language
  fr_size :: nat
  fr_modified_at :: nat
  fr_indexed_at :: nat
  fr_node_count :: nat
  fr_errors :: "json_text option"

record unresolved_row =
  ur_id :: nat
  ur_from_node_id :: string
  ur_reference_name :: string
  ur_reference_kind :: edge_kind
  ur_line :: nat
  ur_col :: nat
  ur_candidates :: "json_text option"
  ur_file_path :: string
  ur_language :: language

section \<open>JSON columns\<close>

text \<open>\<open>safeJsonParse\<close> of \<open>codegraph/src/utils.ts\<close>: the fallback on a text that does not parse.\<close>

definition safeJsonParse :: "json_text \<Rightarrow> json option \<Rightarrow> json option" where
  "safeJsonParse txt fallback = (case json_parse txt of Some v \<Rightarrow> Some v | None \<Rightarrow> fallback)"

text \<open>\<open>v ? JSON.stringify(v) : null\<close> and \<open>col ? safeJsonParse(col, undefined) : undefined\<close>.\<close>

definition json_column :: "json option \<Rightarrow> json_text option" where
  "json_column v = (case v of Some j \<Rightarrow> if json_truthy j then Some (JsonOf j) else None | None \<Rightarrow> None)"

definition read_json_column :: "json_text option \<Rightarrow> json option" where
  "read_json_column c = (case c of Some txt \<Rightarrow> safeJsonParse txt None | None \<Rightarrow> None)"

definition flag :: "bool option \<Rightarrow> nat" where
  "flag b = (if b = Some True then 1 else 0)"

section \<open>From rows to objects\<close>

definition rowToNode :: "node_row \<Rightarrow> node" where
  "rowToNode row =
     \<lparr>n_id = r_id row, n_kind = r_kind row, n_name = r_name row,
      n_qualifiedName = r_qualified_name row, n_filePath = r_file_path row,
      n_language = r_language row, n_startLine = r_start_line row, n_endLine = r_end_line row,
      n_startColumn = r_start_column row, n_endColumn = r_end_column row,
      n_docstring = r_docstring row, n_signature = r_signature row,
      n_visibility = r_visibility row,
      n_isExported = Some (r_is_exported row = 1), n_isAsync = Some (r_is_async row = 1),
      n_isStatic = Some (r_is_static row = 1), n_isAbstract = Some (r_is_abstract row = 1),
      n_decorators = read_json_column (r_decorators row),
      n_typeParameters = read_json_column (r_type_parameters row),
      n_returnType = r_return_type row, n_updatedAt = r_updated_at row\<rparr>"

definition rowToEdge :: "edge_row \<Rightarrow> edge" where
  "rowToEdge row =
     \<lparr>e_source = er_source row, e_target = er_target row, e_kind = er_kind row,
      e_metadata = read_json_column (er_metadata row), e_line = er_line row,
      e_column = er_col row, e_provenance = er_provenance row\<rparr>"

definition rowToFileRecord :: "file_row \<Rightarrow> file_record" where
  "rowToFileRecord row =
     \<lparr>f_path = fr_path row, f_contentHash = fr_content_hash row, f_language = fr_language row,
      f_size = fr_size row, f_modifiedAt = fr_modified_at row, f_indexedAt = fr_indexed_at row,
      f_nodeCount = fr_node_count row, f_errors = read_json_column (fr_errors row)\<rparr>"

definition rowToUnresolved :: "unresolved_row \<Rightarrow> unresolved_reference" where
  "rowToUnresolved row =
     \<lparr>u_fromNodeId = ur_from_node_id row, u_referenceName = ur_reference_name row,
      u_referenceKind = ur_reference_kind row, u_line = ur_line row, u_column = ur_col row,
      u_filePath = Some (ur_file_path row), u_language = Some (ur_language row),
      u_candidates = read_json_column (ur_candidates row)\<rparr>"

section \<open>From objects to rows\<close>

text \<open>The parameter objects bound by the write statements.\<close>

definition nodeParams :: "node \<Rightarrow> node_row" where
  "nodeParams node =
     \<lparr>r_id = n_id node, r_kind = n_kind node, r_name = n_name node,
      r_qualified_name = n_qualifiedName node, r_file_path = n_filePath node,
      r_language = n_language node, r_start_line = n_startLine node, r_end_line = n_endLine node,
      r_start_column = n_startColumn node, r_end_column = n_endColumn node,
      r_docstring = n_docstring node, r_signature = n_signature node,
      r_visibility = n_visibility node,
      r_is_exported = flag (n_isExported node), r_is_async = flag (n_isAsync node),
      r_is_static = flag (n_isStatic node), r_is_abstract = flag (n_isAbstract node),
      r_decorators = json_column (n_decorators node),
      r_type_parameters = json_column (n_typeParameters node),
      r_return_type = n_returnType node, r_updated_at = n_updatedAt node\<rparr>"

definition edgeParams :: "nat \<Rightarrow> edge \<Rightarrow> edge_row" where
  "edgeParams rowid edge =
     \<lparr>er_id = rowid, er_source = e_source edge, er_target = e_target edge, er_kind = e_kind edge,
      er_metadata = json_column (e_metadata edge), er_line = e_line edge, er_col = e_column edge,
      er_provenance = e_provenance edge\<rparr>"

definition fileParams :: "file_record \<Rightarrow> file_row" where
  "fileParams file =
     \<lparr>fr_path = f_path file, fr_content_hash = f_contentHash file, fr_language = f_language file,
      fr_size = f_size file, fr_modified_at = f_modifiedAt file, fr_indexed_at = f_indexedAt file,
      fr_node_count = f_nodeCount file, fr_errors = json_column (f_errors file)\<rparr>"

definition unresolvedParams :: "nat \<Rightarrow> unresolved_reference \<Rightarrow> unresolved_row" where
  "unresolvedParams rowid ref =
     \<lparr>ur_id = rowid, ur_from_node_id = u_fromNodeId ref, ur_reference_name = u_referenceName ref,
      ur_reference_kind = u_referenceKind ref, ur_line = u_line ref, ur_col = u_column ref,
      ur_candidates = json_column (u_candidates ref),
      ur_file_path = (case u_filePath ref of Some p \<Rightarrow> p | None \<Rightarrow> ''''),
      ur_language = (case u_language ref of Some l \<Rightarrow> l | None \<Rightarrow> L_unknown)\<rparr>"

section \<open>What a round trip through a row keeps\<close>

text \<open>
  A stored object comes back with its optional flags decided (\<open>undefined\<close> becomes \<open>false\<close>) and with
  JSON fields that JavaScript takes as false dropped.
\<close>

definition stored_json :: "json option \<Rightarrow> json option" where
  "stored_json v = (case v of Some j \<Rightarrow> if json_truthy j then Some j else None | None \<Rightarrow> None)"

definition stored_node :: "node \<Rightarrow> node" where
  "stored_node n =
     n\<lparr>n_isExported := Some (n_isExported n = Some True), n_isAsync := Some (n_isAsync n = Some True),
       n_isStatic := Some (n_isStatic n = Some True),
       n_isAbstract := Some (n_isAbstract n = Some True),
       n_decorators := stored_json (n_decorators n),
       n_typeParameters := stored_json (n_typeParameters n)\<rparr>"

lemma read_json_column_json [simp]: "read_json_column (json_column v) = stored_json v"
  by (auto simp: read_json_column_def json_column_def stored_json_def safeJsonParse_def
      split: option.splits)

lemma stored_json_idem [simp]: "stored_json (stored_json v) = stored_json v"
  by (auto simp: stored_json_def split: option.splits)

lemma flag_eq_1 [simp]: "flag b = 1 \<longleftrightarrow> b = Some True" "flag b = Suc 0 \<longleftrightarrow> b = Some True"
  by (simp_all add: flag_def)

lemma rowToNode_params: "rowToNode (nodeParams n) = stored_node n"
  by (simp add: rowToNode_def nodeParams_def stored_node_def)

lemma stored_node_idem [simp]: "stored_node (stored_node n) = stored_node n"
  by (simp add: stored_node_def)

lemma rowToEdge_params: "rowToEdge (edgeParams i e) = e\<lparr>e_metadata := stored_json (e_metadata e)\<rparr>"
  by (simp add: rowToEdge_def edgeParams_def)

lemma rowToFileRecord_params:
  "rowToFileRecord (fileParams f) = f\<lparr>f_errors := stored_json (f_errors f)\<rparr>"
  by (simp add: rowToFileRecord_def fileParams_def)

lemma row_keys [simp]:
  "r_id (nodeParams n) = n_id n" "n_id (rowToNode r) = r_id r"
  "r_file_path (nodeParams n) = n_filePath n" "n_filePath (rowToNode r) = r_file_path r"
  "n_kind (rowToNode r) = r_kind r" "n_name (rowToNode r) = r_name r"
  "er_id (edgeParams i e) = i"
  "er_source (edgeParams i e) = e_source e" "er_target (edgeParams i e) = e_target e"
  "er_kind (edgeParams i e) = e_kind e"
  "e_source (rowToEdge er) = er_source er" "e_target (rowToEdge er) = er_target er"
  "e_kind (rowToEdge er) = er_kind er" "e_provenance (rowToEdge er) = er_provenance er"
  "fr_path (fileParams f) = f_path f" "f_path (rowToFileRecord fr) = fr_path fr"
  "f_contentHash (rowToFileRecord fr) = fr_content_hash fr"
  "ur_id (unresolvedParams i u) = i"
  "ur_from_node_id (unresolvedParams i u) = u_fromNodeId u"
  "u_fromNodeId (rowToUnresolved ur) = ur_from_node_id ur"
  "u_referenceName (rowToUnresolved ur) = ur_reference_name ur"
  "u_referenceKind (rowToUnresolved ur) = ur_reference_kind ur"
  by (simp_all add: nodeParams_def rowToNode_def edgeParams_def rowToEdge_def fileParams_def
      rowToFileRecord_def unresolvedParams_def rowToUnresolved_def)

end
