(* ===== verification/NodeStore.thy ===== *)
theory NodeStore
  imports Rows CacheContract "HOL-Library.Char_ord" "HOL-Library.List_Lexorder"
begin

text \<open>
  The state of \<open>QueryBuilder\<close> (\<open>codegraph/src/db/queries.ts\<close>) and its node operations. The state is
  the database (\<open>codegraph/src/db/schema.sql\<close>), the transaction flag of the connection and the node
  cache. A table is the list of its rows in rowid order, which is the order a scan returns them; an
  \<open>INSERT OR REPLACE\<close> that meets the primary key removes the old row, with its dependants by
  \<open>ON DELETE CASCADE\<close>, and appends the new one. Prepared statements are not part of the state: they
  are created on demand and change no result.
\<close>

section \<open>State\<close>

record db =
  t_nodes :: "node_row list"
  t_edges :: "edge_row list"
  t_edge_seq :: nat
  t_files :: "file_row list"
  t_unresolved :: "unresolved_row list"
  t_unresolved_seq :: nat
  t_metadata :: "(string, string \<times> nat) jmap"

type_synonym node_cache = "(string, node) jmap"

record query_builder =
  qb_db :: db
  qb_inTransaction :: bool
  qb_nodeCache :: node_cache
  qb_projectNameTokens :: "string list"

definition empty_db :: db where
  "empty_db =
     \<lparr>t_nodes = [], t_edges = [], t_edge_seq = 0, t_files = [], t_unresolved = [],
      t_unresolved_seq = 0, t_metadata = []\<rparr>"

text \<open>\<open>new QueryBuilder(db)\<close>.\<close>

definition new_query_builder :: "db \<Rightarrow> query_builder" where
  "new_query_builder d =
     \<lparr>qb_db = d, qb_inTransaction = False, qb_nodeCache = [], qb_projectNameTokens = []\<rparr>"

definition setProjectNameTokens :: "string list \<Rightarrow> query_builder \<Rightarrow> query_builder" where
  "setProjectNameTokens tokens s = s\<lparr>qb_projectNameTokens := tokens\<rparr>"

definition getProjectNameTokens :: "query_builder \<Rightarrow> string list" where
  "getProjectNameTokens s = qb_projectNameTokens s"

section \<open>Actions and transactions\<close>

text \<open>
  An operation that may throw returns the error or its result together with the state it leaves:
  what it did before throwing is not undone, except by a transaction, and a transaction undoes the
  database only, not the cache.
\<close>

datatype db_error = FK_violation | Nested_transaction

type_synonym 'a act = "query_builder \<Rightarrow> (db_error + 'a) \<times> query_builder"

text \<open>\<open>for (const x of xs) f(x)\<close>, stopped by the first exception.\<close>

fun for_each :: "('a \<Rightarrow> unit act) \<Rightarrow> 'a list \<Rightarrow> unit act" where
  "for_each f [] s = (Inr (), s)"
| "for_each f (x # xs) s =
     (case f x s of
        (Inl err, s') \<Rightarrow> (Inl err, s')
      | (Inr _, s') \<Rightarrow> for_each f xs s')"

text \<open>
  The \<open>transaction\<close> helper of \<open>sqlite-adapter.ts\<close>: \<open>BEGIN\<close> fails inside an open transaction, before
  the \<open>try\<close>; an exception of the body rolls the database back and is thrown again.
\<close>

definition transaction :: "'a act \<Rightarrow> 'a act" where
  "transaction fn s =
     (if qb_inTransaction s then (Inl Nested_transaction, s)
      else (case fn (s\<lparr>qb_inTransaction := True\<rparr>) of
              (Inr result, s') \<Rightarrow> (Inr result, s'\<lparr>qb_inTransaction := False\<rparr>)
            | (Inl err, s') \<Rightarrow> (Inl err, s'\<lparr>qb_inTransaction := False, qb_db := qb_db s\<rparr>)))"

section \<open>Statements on the node table\<close>

definition node_row_of :: "db \<Rightarrow> string \<Rightarrow> node_row option" where
  "node_row_of d nid = find (\<lambda>r. r_id r = nid) (t_nodes d)"

abbreviation node_ids :: "db \<Rightarrow> string set" where
  "node_ids d \<equiv> r_id ` set (t_nodes d)"

text \<open>\<open>DELETE FROM nodes WHERE ...\<close> with the cascades of \<open>edges\<close> and \<open>unresolved_refs\<close>.\<close>

definition sql_delete_nodes :: "(node_row \<Rightarrow> bool) \<Rightarrow> db \<Rightarrow> db" where
  "sql_delete_nodes P d =
     (let gone = r_id ` set (filter P (t_nodes d))
      in d\<lparr>t_nodes := filter (\<lambda>r. \<not> P r) (t_nodes d),
           t_edges := filter (\<lambda>e. er_source e \<notin> gone \<and> er_target e \<notin> gone) (t_edges d),
           t_unresolved := filter (\<lambda>u. ur_from_node_id u \<notin> gone) (t_unresolved d)\<rparr>)"

definition sql_replace_node :: "node_row \<Rightarrow> db \<Rightarrow> db" where
  "sql_replace_node row d =
     (let d' = sql_delete_nodes (\<lambda>r. r_id r = r_id row) d in d'\<lparr>t_nodes := t_nodes d' @ [row]\<rparr>)"

definition sql_update_node :: "node_row \<Rightarrow> db \<Rightarrow> db" where
  "sql_update_node row d =
     d\<lparr>t_nodes := map (\<lambda>r. if r_id r = r_id row then row else r) (t_nodes d)\<rparr>"

section \<open>The node cache\<close>

definition maxCacheSize :: nat where
  "maxCacheSize = 1000"

text \<open>A hit moves the entry to the end of the map.\<close>

definition cache_get :: "string \<Rightarrow> node_cache \<Rightarrow> node option \<times> node_cache" where
  "cache_get nid cache =
     (case map_get cache nid of
        Some cached \<Rightarrow> (Some cached, map_set nid cached (map_delete nid cache))
      | None \<Rightarrow> (None, cache))"

text \<open>
  \<open>cacheNode\<close>: at the limit the first entry goes, also when the node's own entry is already there.
  The guard \<open>if (firstKey)\<close> takes an empty key as absent.
\<close>

definition cache_put :: "string \<Rightarrow> node \<Rightarrow> node_cache \<Rightarrow> node_cache" where
  "cache_put nid n cache =
     map_set nid n
       (if maxCacheSize \<le> length cache then
          (case cache of
             (firstKey, _) # _ \<Rightarrow> if firstKey \<noteq> '''' then map_delete firstKey cache else cache
           | [] \<Rightarrow> cache)
        else cache)"

definition cacheNode :: "node \<Rightarrow> node_cache \<Rightarrow> node_cache" where
  "cacheNode n cache = cache_put (n_id n) n cache"

definition clearCache :: "query_builder \<Rightarrow> query_builder" where
  "clearCache s = s\<lparr>qb_nodeCache := []\<rparr>"

section \<open>Operations\<close>

text \<open>Required fields; the kind and the language are never empty strings.\<close>

definition node_incomplete :: "node \<Rightarrow> bool" where
  "node_incomplete n = (n_id n = '''' \<or> n_name n = '''' \<or> n_filePath n = '''')"

definition insertNode :: "node \<Rightarrow> unit act" where
  "insertNode node s =
     (if node_incomplete node then (Inr (), s)
      else (Inr (), s\<lparr>qb_nodeCache := map_delete (n_id node) (qb_nodeCache s),
                       qb_db := sql_replace_node (nodeParams node) (qb_db s)\<rparr>))"

definition insertNodes :: "node list \<Rightarrow> unit act" where
  "insertNodes nodes = transaction (for_each insertNode nodes)"

text \<open>Here the cache entry goes before the validation.\<close>

definition updateNode :: "node \<Rightarrow> unit act" where
  "updateNode node s =
     (let s' = s\<lparr>qb_nodeCache := map_delete (n_id node) (qb_nodeCache s)\<rparr>
      in if node_incomplete node then (Inr (), s')
         else (Inr (), s'\<lparr>qb_db := sql_update_node (nodeParams node) (qb_db s')\<rparr>))"

definition deleteNode :: "string \<Rightarrow> unit act" where
  "deleteNode nid s =
     (Inr (), s\<lparr>qb_nodeCache := map_delete nid (qb_nodeCache s),
                qb_db := sql_delete_nodes (\<lambda>r. r_id r = nid) (qb_db s)\<rparr>)"

definition deleteNodesByFile :: "string \<Rightarrow> unit act" where
  "deleteNodesByFile filePath s =
     (Inr (), s\<lparr>qb_nodeCache := filter (\<lambda>(nid, node). n_filePath node \<noteq> filePath) (qb_nodeCache s),
                qb_db := sql_delete_nodes (\<lambda>r. r_file_path r = filePath) (qb_db s)\<rparr>)"

definition getNodeById :: "string \<Rightarrow> query_builder \<Rightarrow> node option \<times> query_builder" where
  "getNodeById nid s =
     (case cache_get nid (qb_nodeCache s) of
        (Some cached, cache) \<Rightarrow> (Some cached, s\<lparr>qb_nodeCache := cache\<rparr>)
      | (None, cache) \<Rightarrow>
          (case node_row_of (qb_db s) nid of
             None \<Rightarrow> (None, s)
           | Some row \<Rightarrow>
               (let node = rowToNode row
                in (Some node, s\<lparr>qb_nodeCache := cacheNode node cache\<rparr>))))"

definition SQLITE_PARAM_CHUNK_SIZE :: nat where
  "SQLITE_PARAM_CHUNK_SIZE = 500"

text \<open>\<open>for (let i = 0; i < xs.length; i += n) { const chunk = xs.slice(i, i + n); ... }\<close>.\<close>

function chunks_of :: "nat \<Rightarrow> 'a list \<Rightarrow> 'a list list" where
  "chunks_of n xs = (if n = 0 \<or> xs = [] then [] else take n xs # chunks_of n (drop n xs))"
  by pat_completeness auto
termination
  by (relation "measure (\<lambda>(n, xs). length xs)") auto

declare chunks_of.simps [simp del]

text \<open>The loop that serves cache hits; the state is the cache, the result map and the misses.\<close>

fun serve_hits :: "string list \<Rightarrow> node_cache \<times> (string, node) jmap \<times> string list
    \<Rightarrow> node_cache \<times> (string, node) jmap \<times> string list" where
  "serve_hits [] st = st"
| "serve_hits (nid # ids) (cache, out, misses) =
     (case cache_get nid cache of
        (Some cached, cache') \<Rightarrow> serve_hits ids (cache', map_set nid cached out, misses)
      | (None, cache') \<Rightarrow> serve_hits ids (cache', out, misses @ [nid]))"

fun load_rows :: "node_row list \<Rightarrow> node_cache \<times> (string, node) jmap
    \<Rightarrow> node_cache \<times> (string, node) jmap" where
  "load_rows [] st = st"
| "load_rows (row # rows) (cache, out) =
     (let node = rowToNode row
      in load_rows rows (cacheNode node cache, map_set (n_id node) node out))"

definition getNodesByIds :: "string list \<Rightarrow> query_builder \<Rightarrow> (string, node) jmap \<times> query_builder" where
  "getNodesByIds ids s =
     (if ids = [] then ([], s)
      else (let (cache, out, misses) = serve_hits ids (qb_nodeCache s, [], []);
                rows = (\<lambda>chunk. filter (\<lambda>r. r_id r \<in> set chunk) (t_nodes (qb_db s)));
                (cache', out') = fold (\<lambda>chunk. load_rows (rows chunk))
                                   (chunks_of SQLITE_PARAM_CHUNK_SIZE misses) (cache, out)
            in (out', s\<lparr>qb_nodeCache := cache'\<rparr>)))"

definition getExistingNodeIds :: "string list \<Rightarrow> db \<Rightarrow> string list" where
  "getExistingNodeIds ids d =
     (let uniqueIds = set_of_list ids
      in fold (\<lambda>chunk out. fold set_add (map r_id (filter (\<lambda>r. r_id r \<in> set chunk) (t_nodes d))) out)
           (chunks_of SQLITE_PARAM_CHUNK_SIZE uniqueIds) [])"

text \<open>The SELECT statements on one column; they bypass the cache.\<close>

definition getNodesByFile :: "string \<Rightarrow> db \<Rightarrow> node list" where
  "getNodesByFile filePath d =
     map rowToNode (sort_key r_start_line (filter (\<lambda>r. r_file_path r = filePath) (t_nodes d)))"

definition getNodesByKind :: "node_kind \<Rightarrow> db \<Rightarrow> node list" where
  "getNodesByKind kind d = map rowToNode (filter (\<lambda>r. r_kind r = kind) (t_nodes d))"

text \<open>The generator form; consumed to its end it yields the same nodes in the same order.\<close>

fun iterate_rows :: "node_kind \<Rightarrow> node_row list \<Rightarrow> node list" where
  "iterate_rows kind [] = []"
| "iterate_rows kind (row # rows) =
     (if r_kind row = kind then rowToNode row # iterate_rows kind rows else iterate_rows kind rows)"

definition iterateNodesByKind :: "node_kind \<Rightarrow> db \<Rightarrow> node list" where
  "iterateNodesByKind kind d = iterate_rows kind (t_nodes d)"

definition getAllNodes :: "db \<Rightarrow> node list" where
  "getAllNodes d = map rowToNode (t_nodes d)"

definition getNodesByName :: "string \<Rightarrow> db \<Rightarrow> node list" where
  "getNodesByName name d = map rowToNode (filter (\<lambda>r. r_name r = name) (t_nodes d))"

definition getNodesByQualifiedNameExact :: "string \<Rightarrow> db \<Rightarrow> node list" where
  "getNodesByQualifiedNameExact qualifiedName d =
     map rowToNode (filter (\<lambda>r. r_qualified_name r = qualifiedName) (t_nodes d))"

text \<open>SQLite's \<open>lower()\<close> folds the ASCII letters.\<close>

definition getNodesByLowerName :: "string \<Rightarrow> db \<Rightarrow> node list" where
  "getNodesByLowerName lowerName d =
     map rowToNode (filter (\<lambda>r. to_lower (r_name r) = lowerName) (t_nodes d))"

definition getAllNodeNames :: "db \<Rightarrow> string list" where
  "getAllNodeNames d = set_of_list (map r_name (t_nodes d))"

section \<open>The abstract node table\<close>

text \<open>What the table promises: a finite partial function from ids to nodes.\<close>

definition node_at :: "db \<Rightarrow> string \<Rightarrow> node option" where
  "node_at d nid = map_option rowToNode (node_row_of d nid)"

lemma find_keyed:
  assumes "distinct (map f xs)"
  shows "find (\<lambda>x. f x = k) xs = Some x \<longleftrightarrow> x \<in> set xs \<and> f x = k"
  using assms by (induction xs) (auto simp: rev_image_eqI)

lemma find_keyed_None: "find (\<lambda>x. f x = k) xs = None \<longleftrightarrow> k \<notin> f ` set xs"
  by (auto simp: find_None_iff)

lemma node_row_of_Some:
  "distinct (map r_id (t_nodes d)) \<Longrightarrow> node_row_of d nid = Some r \<longleftrightarrow> r \<in> set (t_nodes d) \<and> r_id r = nid"
  unfolding node_row_of_def by (rule find_keyed)

lemma node_row_of_mem: "node_row_of d nid = Some r \<Longrightarrow> r \<in> set (t_nodes d) \<and> r_id r = nid"
  unfolding node_row_of_def by (auto simp: find_Some_iff)

lemma node_row_of_None: "node_row_of d nid = None \<longleftrightarrow> nid \<notin> node_ids d"
  unfolding node_row_of_def by (rule find_keyed_None)

lemma node_at_None: "node_at d nid = None \<longleftrightarrow> nid \<notin> node_ids d"
  by (simp add: node_at_def node_row_of_None)

lemma node_at_ids: "node_at d nid \<noteq> None \<longleftrightarrow> nid \<in> node_ids d"
  by (simp add: node_at_None)

lemma node_at_id: "node_at d nid = Some n \<Longrightarrow> n_id n = nid"
  by (auto simp: node_at_def dest: node_row_of_mem)

lemma node_at_row:
  "distinct (map r_id (t_nodes d)) \<Longrightarrow> r \<in> set (t_nodes d) \<Longrightarrow> node_at d (r_id r) = Some (rowToNode r)"
  unfolding node_at_def using node_row_of_Some [of d "r_id r" r] by auto

section \<open>Effect of the statements on the abstract table\<close>

lemma sql_delete_nodes_fields [simp]:
  "t_nodes (sql_delete_nodes P d) = filter (\<lambda>r. \<not> P r) (t_nodes d)"
  "t_files (sql_delete_nodes P d) = t_files d"
  "t_metadata (sql_delete_nodes P d) = t_metadata d"
  "t_edge_seq (sql_delete_nodes P d) = t_edge_seq d"
  "t_unresolved_seq (sql_delete_nodes P d) = t_unresolved_seq d"
  by (simp_all add: sql_delete_nodes_def Let_def)

lemma sql_replace_node_fields [simp]:
  "t_nodes (sql_replace_node row d) = filter (\<lambda>r. r_id r \<noteq> r_id row) (t_nodes d) @ [row]"
  "t_edges (sql_replace_node row d) = t_edges (sql_delete_nodes (\<lambda>r. r_id r = r_id row) d)"
  "t_unresolved (sql_replace_node row d) = t_unresolved (sql_delete_nodes (\<lambda>r. r_id r = r_id row) d)"
  "t_files (sql_replace_node row d) = t_files d"
  "t_metadata (sql_replace_node row d) = t_metadata d"
  "t_edge_seq (sql_replace_node row d) = t_edge_seq d"
  "t_unresolved_seq (sql_replace_node row d) = t_unresolved_seq d"
  by (simp_all add: sql_replace_node_def Let_def)

lemma sql_update_node_fields [simp]:
  "t_nodes (sql_update_node row d) = map (\<lambda>r. if r_id r = r_id row then row else r) (t_nodes d)"
  "t_edges (sql_update_node row d) = t_edges d"
  "t_unresolved (sql_update_node row d) = t_unresolved d"
  "t_files (sql_update_node row d) = t_files d"
  "t_metadata (sql_update_node row d) = t_metadata d"
  "t_edge_seq (sql_update_node row d) = t_edge_seq d"
  "t_unresolved_seq (sql_update_node row d) = t_unresolved_seq d"
  by (simp_all add: sql_update_node_def)

lemma distinct_delete_nodes:
  "distinct (map r_id (t_nodes d)) \<Longrightarrow> distinct (map r_id (t_nodes (sql_delete_nodes P d)))"
  by (simp add: distinct_map_filter)

lemma distinct_replace_node:
  "distinct (map r_id (t_nodes d)) \<Longrightarrow> distinct (map r_id (t_nodes (sql_replace_node row d)))"
  by (auto simp: distinct_map_filter)

lemma map_id_update: "map r_id (map (\<lambda>r. if r_id r = r_id row then row else r) rs) = map r_id rs"
  by (induction rs) auto

lemma distinct_update_node:
  "distinct (map r_id (t_nodes d)) \<Longrightarrow> distinct (map r_id (t_nodes (sql_update_node row d)))"
  by (simp only: sql_update_node_fields map_id_update)

lemma find_filter_other: "find (\<lambda>x. f x = k) (filter (\<lambda>x. f x \<noteq> j) xs) = (if k = j then None else find (\<lambda>x. f x = k) xs)"
  by (induction xs) (auto simp: find_None_iff)

lemma find_append: "find P (xs @ ys) = (case find P xs of None \<Rightarrow> find P ys | Some x \<Rightarrow> Some x)"
  by (induction xs) auto

lemma node_at_delete:
  "node_at (sql_delete_nodes (\<lambda>r. r_id r = j) d) nid = (if nid = j then None else node_at d nid)"
  by (simp add: node_at_def node_row_of_def find_filter_other)

lemma node_at_replace:
  "node_at (sql_replace_node row d) nid = (if nid = r_id row then Some (rowToNode row) else node_at d nid)"
  by (auto simp: node_at_def node_row_of_def find_filter_other find_append split: option.splits)

lemma node_at_update:
  "node_at (sql_update_node row d) nid =
     (if nid = r_id row \<and> nid \<in> node_ids d then Some (rowToNode row) else node_at d nid)"
proof -
  have "find (\<lambda>r. r_id r = nid) (map (\<lambda>r. if r_id r = r_id row then row else r) rs) =
      (if nid = r_id row \<and> nid \<in> r_id ` set rs then Some row else find (\<lambda>r. r_id r = nid) rs)" for rs
    by (induction rs) auto
  from this [of "t_nodes d"] show ?thesis
    by (auto simp: node_at_def node_row_of_def)
qed

lemma node_at_delete_where:
  assumes "distinct (map r_id (t_nodes d))"
  shows "node_at (sql_delete_nodes P d) nid =
    (case node_row_of d nid of Some r \<Rightarrow> if P r then None else Some (rowToNode r) | None \<Rightarrow> None)"
proof -
  from assms have "find (\<lambda>r. r_id r = nid) (filter (\<lambda>r. \<not> P r) rs) =
      (case find (\<lambda>r. r_id r = nid) rs of Some r \<Rightarrow> if P r then None else Some r | None \<Rightarrow> None)"
    if "distinct (map r_id rs)" for rs
    using that
  proof (induction rs)
    case (Cons r rs)
    moreover have "find (\<lambda>x. r_id x = r_id r) rs = None"
      using Cons.prems by (auto simp: find_keyed_None)
    moreover have "find (\<lambda>x. r_id x = r_id r) (filter (\<lambda>x. \<not> P x) rs) = None"
      using Cons.prems by (auto simp: find_keyed_None)
    ultimately show ?case
      by auto
  qed simp
  from this [OF assms] show ?thesis
    by (simp add: node_at_def node_row_of_def split: option.splits)
qed

section \<open>The node cache meets the cache contract\<close>

definition cache_ok :: "node_cache \<Rightarrow> bool" where
  "cache_ok c \<longleftrightarrow> distinct (map_keys c) \<and> length c \<le> maxCacheSize \<and> '''' \<notin> set (map_keys c)"

lemma cache_get_ok:
  assumes "cache_ok c"
  shows "cache_ok (snd (cache_get k c))"
proof (cases "map_get c k")
  case (Some n)
  then have mem: "k \<in> set (map_keys c)"
    by (force dest: map_of_SomeD)
  have "Suc (length (map_delete k c)) = length c" "distinct (map_keys (map_delete k c))"
    using assms mem by (auto simp: cache_ok_def length_delete_distinct distinct_keys_delete)
  with Some assms mem show ?thesis
    by (auto simp: cache_get_def cache_ok_def touch_eq map_keys_delete set_delete)
qed (use assms in \<open>simp add: cache_get_def\<close>)

text \<open>What is left of the cache when \<open>cacheNode\<close> has made room.\<close>

definition cache_room :: "node_cache \<Rightarrow> node_cache" where
  "cache_room cache =
     (if maxCacheSize \<le> length cache then
        (case cache of
           (firstKey, _) # _ \<Rightarrow> if firstKey \<noteq> '''' then map_delete firstKey cache else cache
         | [] \<Rightarrow> cache)
      else cache)"

lemma cache_put_room: "cache_put k n c = map_set k n (cache_room c)"
  by (simp add: cache_put_def cache_room_def)

lemma cache_room_look: "map_get (cache_room c) k = Some n \<Longrightarrow> map_get c k = Some n"
  by (auto simp: cache_room_def split: list.splits if_splits)

lemma cache_room_ok:
  assumes "cache_ok c"
  shows "cache_ok (cache_room c)" "length (cache_room c) < maxCacheSize"
proof -
  have "cache_ok (cache_room c) \<and> length (cache_room c) < maxCacheSize"
  proof (cases "maxCacheSize \<le> length c")
    case True
    then obtain k n c' where c: "c = (k, n) # c'"
      by (cases c) (auto simp: maxCacheSize_def)
    then have "Suc (length (map_delete k c)) = length c"
      using assms by (intro length_delete_distinct) (auto simp: cache_ok_def)
    moreover have "distinct (map_keys (map_delete k c))" "set (map_keys (map_delete k c)) \<subseteq> set (map_keys c)"
      using assms by (auto simp: cache_ok_def distinct_keys_delete map_keys_delete)
    moreover have "cache_room c = map_delete k c"
      using assms True unfolding c by (auto simp: cache_room_def cache_ok_def)
    ultimately show ?thesis
      using assms unfolding cache_ok_def by auto
  qed (use assms in \<open>simp add: cache_room_def\<close>)
  then show "cache_ok (cache_room c)" "length (cache_room c) < maxCacheSize"
    by simp_all
qed

lemma cache_ok_set:
  assumes "cache_ok c" "length c < maxCacheSize" "k \<noteq> ''''"
  shows "cache_ok (map_set k n c)"
proof -
  have "length (map_set k n c) \<le> maxCacheSize"
    using assms(2) by (simp add: length_map_set)
  moreover have "set (map_keys (map_set k n c)) = insert k (set (map_keys c))"
    by (simp add: dom_update)
  ultimately show ?thesis
    using assms(1,3) unfolding cache_ok_def by (metis distinct_keys_set insert_iff)
qed

lemma cache_put_ok:
  assumes "cache_ok c" "k \<noteq> ''''"
  shows "cache_ok (cache_put k n c)"
  using cache_ok_set [OF cache_room_ok [OF assms(1)] assms(2)] by (simp only: cache_put_room)

interpretation nc: bounded_cache cache_get cache_put map_get cache_ok "\<lambda>k. k \<noteq> ''''"
proof unfold_locales
  fix k k' :: string and n w :: node and c :: node_cache
  show "fst (cache_get k c) = map_get c k"
    by (simp add: cache_get_def split: option.splits)
  show "map_get (snd (cache_get k c)) = map_get c"
    by (auto simp: cache_get_def fun_eq_iff split: option.splits)
  show "cache_ok c \<Longrightarrow> cache_ok (snd (cache_get k c))"
    by (rule cache_get_ok)
  show "map_get (cache_put k n c) k = Some n"
    by (simp add: cache_put_room)
  show "k' \<noteq> k \<Longrightarrow> map_get (cache_put k n c) k' = Some w \<Longrightarrow> map_get c k' = Some w"
    by (simp add: cache_put_room) (rule cache_room_look)
  show "cache_ok c \<Longrightarrow> k \<noteq> '''' \<Longrightarrow> cache_ok (cache_put k n c)"
    by (rule cache_put_ok)
qed

text \<open>Entries may be dropped at any time, and the table may change where the cache holds nothing.\<close>

lemma coherent_shrink:
  assumes "nc.coherent m c" "distinct (map_keys c')" "set c' \<subseteq> set c"
    and "\<And>k n. (k, n) \<in> set c' \<Longrightarrow> m' k = m k"
  shows "nc.coherent m' c'"
proof (rule nc.coherent_change [OF assms(1)])
  have c: "distinct (map_keys c)" "length c \<le> maxCacheSize" "'''' \<notin> set (map_keys c)"
    using assms(1) by (simp_all add: nc.coherent_def cache_ok_def)
  have "card (set c') \<le> card (set c)" "distinct c'"
    using assms(2,3) by (auto intro: card_mono simp: distinct_map)
  then have "length c' \<le> length c"
    by (metis card_length distinct_card le_trans)
  with c assms(2,3) show "cache_ok c'"
    by (auto simp: cache_ok_def)
  fix k n assume "map_get c' k = Some n"
  then have "(k, n) \<in> set c'"
    by (rule map_of_SomeD)
  with assms(3,4) c(1) show "map_get c k = Some n \<and> m' k = m k"
    by (auto simp: map_of_is_SomeI)
qed

lemma coherent_delete:
  assumes "nc.coherent m c" "\<And>j. j \<noteq> k \<Longrightarrow> m' j = m j"
  shows "nc.coherent m' (map_delete k c)"
  using assms(1)
  by (rule coherent_shrink)
     (use assms in \<open>auto simp: set_delete distinct_keys_delete nc.coherent_def cache_ok_def\<close>)

lemma coherent_filter:
  assumes "nc.coherent m c" "\<And>k n. m k = Some n \<Longrightarrow> P (k, n) \<Longrightarrow> m' k = m k"
  shows "nc.coherent m' (filter P c)"
  using assms(1)
proof (rule coherent_shrink)
  have c: "distinct (map_keys c)"
    using assms(1) by (simp add: nc.coherent_def cache_ok_def)
  then show "distinct (map_keys (filter P c))"
    by (rule distinct_map_filter)
  fix k n assume "(k, n) \<in> set (filter P c)"
  then have "map_get c k = Some n" "P (k, n)"
    using c by (auto simp: map_of_is_SomeI)
  then show "m' k = m k"
    using nc.coherent_look [OF assms(1)] assms(2) by blast
qed auto

end
