(* ===== verification/GraphStore.thy ===== *)
theory GraphStore
  imports NodeStore
begin

text \<open>
  The remaining operations of \<open>QueryBuilder\<close> (\<open>codegraph/src/db/queries.ts\<close>): edges, files, unresolved
  references, statistics, project metadata and \<open>clear\<close>; the invariant of the whole state; and the
  contract of a transaction body (locale \<open>tx_body\<close>), interpreted on every body the code passes to
  \<open>transaction\<close>.
\<close>

section \<open>Edges\<close>

text \<open>
  \<open>INSERT OR IGNORE\<close> ignores no foreign-key violation: a missing endpoint makes the statement fail.
\<close>

definition sql_insert_edge :: "edge \<Rightarrow> db \<Rightarrow> db" where
  "sql_insert_edge edge d =
     d\<lparr>t_edge_seq := t_edge_seq d + 1,
       t_edges := t_edges d @ [edgeParams (t_edge_seq d + 1) edge]\<rparr>"

definition insertEdge :: "edge \<Rightarrow> unit act" where
  "insertEdge edge s =
     (if e_source edge \<in> node_ids (qb_db s) \<and> e_target edge \<in> node_ids (qb_db s)
      then (Inr (), s\<lparr>qb_db := sql_insert_edge edge (qb_db s)\<rparr>)
      else (Inl FK_violation, s))"

fun endpoint_ids :: "edge list \<Rightarrow> string list \<Rightarrow> string list" where
  "endpoint_ids [] endpointIds = endpointIds"
| "endpoint_ids (edge # edges) endpointIds =
     endpoint_ids edges (set_add (e_target edge) (set_add (e_source edge) endpointIds))"

definition insertEdges :: "edge list \<Rightarrow> unit act" where
  "insertEdges edges s =
     (if edges = [] then (Inr (), s)
      else transaction (\<lambda>s.
             let existingNodeIds = getExistingNodeIds (endpoint_ids edges []) (qb_db s)
             in for_each (\<lambda>edge s.
                  if e_source edge \<notin> set existingNodeIds \<or> e_target edge \<notin> set existingNodeIds
                  then (Inr (), s)
                  else insertEdge edge s) edges s) s)"

definition deleteEdgesBySource :: "string \<Rightarrow> unit act" where
  "deleteEdgesBySource sourceId s =
     (Inr (), s\<lparr>qb_db := (qb_db s)\<lparr>t_edges :=
        filter (\<lambda>e. er_source e \<noteq> sourceId) (t_edges (qb_db s))\<rparr>\<rparr>)"

text \<open>An absent and an empty list of kinds both mean no restriction.\<close>

definition getOutgoingEdges :: "string \<Rightarrow> edge_kind list \<Rightarrow> provenance option \<Rightarrow> db \<Rightarrow> edge list" where
  "getOutgoingEdges sourceId kinds prov d =
     map rowToEdge
       (filter (\<lambda>e. er_source e = sourceId \<and> (kinds = [] \<or> er_kind e \<in> set kinds) \<and>
                    (prov = None \<or> er_provenance e = prov)) (t_edges d))"

definition getIncomingEdges :: "string \<Rightarrow> edge_kind list \<Rightarrow> db \<Rightarrow> edge list" where
  "getIncomingEdges targetId kinds d =
     map rowToEdge
       (filter (\<lambda>e. er_target e = targetId \<and> (kinds = [] \<or> er_kind e \<in> set kinds)) (t_edges d))"

definition findEdgesBetweenNodes :: "string list \<Rightarrow> edge_kind list \<Rightarrow> db \<Rightarrow> edge list" where
  "findEdgesBetweenNodes nodeIds kinds d =
     (if nodeIds = [] then []
      else map rowToEdge
        (filter (\<lambda>e. er_source e \<in> set nodeIds \<and> er_target e \<in> set nodeIds \<and>
                     (kinds = [] \<or> er_kind e \<in> set kinds)) (t_edges d)))"

text \<open>The two joins of \<open>edges\<close> with \<open>nodes\<close> on both endpoints.\<close>

definition edge_join :: "db \<Rightarrow> (node_row \<times> edge_row \<times> node_row) list" where
  "edge_join d =
     [(src, e, tgt). e \<leftarrow> t_edges d, tgt \<leftarrow> filter (\<lambda>r. r_id r = er_target e) (t_nodes d),
                     src \<leftarrow> filter (\<lambda>r. r_id r = er_source e) (t_nodes d)]"

definition getDependentFilePaths :: "string \<Rightarrow> db \<Rightarrow> string list" where
  "getDependentFilePaths filePath d =
     set_of_list [r_file_path src. (src, e, tgt) \<leftarrow> edge_join d,
       r_file_path tgt = filePath \<and> er_kind e \<noteq> EK_contains \<and> r_file_path src \<noteq> filePath]"

definition getDependencyFilePaths :: "string \<Rightarrow> db \<Rightarrow> string list" where
  "getDependencyFilePaths filePath d =
     set_of_list [r_file_path tgt. (src, e, tgt) \<leftarrow> edge_join d,
       r_file_path src = filePath \<and> er_kind e \<noteq> EK_contains \<and> r_file_path tgt \<noteq> filePath]"

section \<open>Files\<close>

definition upsertFile :: "file_record \<Rightarrow> unit act" where
  "upsertFile file s =
     (let d = qb_db s; row = fileParams file
      in (Inr (), s\<lparr>qb_db := d\<lparr>t_files :=
            (if f_path file \<in> fr_path ` set (t_files d)
             then map (\<lambda>r. if fr_path r = f_path file then row else r) (t_files d)
             else t_files d @ [row])\<rparr>\<rparr>))"

definition deleteFile :: "string \<Rightarrow> unit act" where
  "deleteFile filePath =
     transaction (\<lambda>s. case deleteNodesByFile filePath s of
         (Inl err, s') \<Rightarrow> (Inl err, s')
       | (Inr _, s') \<Rightarrow>
           (Inr (), s'\<lparr>qb_db := (qb_db s')\<lparr>t_files :=
              filter (\<lambda>r. fr_path r \<noteq> filePath) (t_files (qb_db s'))\<rparr>\<rparr>))"

definition getFileByPath :: "string \<Rightarrow> db \<Rightarrow> file_record option" where
  "getFileByPath filePath d = map_option rowToFileRecord (find (\<lambda>r. fr_path r = filePath) (t_files d))"

definition getAllFiles :: "db \<Rightarrow> file_record list" where
  "getAllFiles d = map rowToFileRecord (sort_key fr_path (t_files d))"

definition getAllFilePaths :: "db \<Rightarrow> string list" where
  "getAllFilePaths d = map fr_path (sort_key fr_path (t_files d))"

definition getLastIndexedAt :: "db \<Rightarrow> nat option" where
  "getLastIndexedAt d =
     (if t_files d = [] then None else Some (Max (set (map fr_indexed_at (t_files d)))))"

text \<open>\<open>currentHash && currentHash !== f.contentHash\<close>: an empty hash is not a current hash.\<close>

definition getStaleFiles :: "(string, string) jmap \<Rightarrow> db \<Rightarrow> file_record list" where
  "getStaleFiles currentHashes d =
     filter (\<lambda>f. case map_get currentHashes (f_path f) of
                  Some currentHash \<Rightarrow> currentHash \<noteq> '''' \<and> currentHash \<noteq> f_contentHash f
                | None \<Rightarrow> False) (getAllFiles d)"

section \<open>Unresolved references\<close>

definition insertUnresolvedRef :: "unresolved_reference \<Rightarrow> unit act" where
  "insertUnresolvedRef ref s =
     (let d = qb_db s in
      if u_fromNodeId ref \<in> node_ids d
      then (Inr (), s\<lparr>qb_db := d\<lparr>t_unresolved_seq := t_unresolved_seq d + 1,
              t_unresolved := t_unresolved d @ [unresolvedParams (t_unresolved_seq d + 1) ref]\<rparr>\<rparr>)
      else (Inl FK_violation, s))"

definition insertUnresolvedRefsBatch :: "unresolved_reference list \<Rightarrow> unit act" where
  "insertUnresolvedRefsBatch refs s =
     (if refs = [] then (Inr (), s) else transaction (for_each insertUnresolvedRef refs) s)"

definition sql_delete_unresolved :: "(unresolved_row \<Rightarrow> bool) \<Rightarrow> unit act" where
  "sql_delete_unresolved P s =
     (Inr (), s\<lparr>qb_db := (qb_db s)\<lparr>t_unresolved := filter (\<lambda>u. \<not> P u) (t_unresolved (qb_db s))\<rparr>\<rparr>)"

definition deleteUnresolvedByNode :: "string \<Rightarrow> unit act" where
  "deleteUnresolvedByNode nodeId = sql_delete_unresolved (\<lambda>u. ur_from_node_id u = nodeId)"

definition getUnresolvedByName :: "string \<Rightarrow> db \<Rightarrow> unresolved_reference list" where
  "getUnresolvedByName name d =
     map rowToUnresolved (filter (\<lambda>u. ur_reference_name u = name) (t_unresolved d))"

definition getUnresolvedReferences :: "db \<Rightarrow> unresolved_reference list" where
  "getUnresolvedReferences d = map rowToUnresolved (t_unresolved d)"

definition getUnresolvedReferencesCount :: "db \<Rightarrow> nat" where
  "getUnresolvedReferencesCount d = length (t_unresolved d)"

text \<open>\<open>LIMIT ? OFFSET ?\<close>.\<close>

definition getUnresolvedReferencesBatch :: "nat \<Rightarrow> nat \<Rightarrow> db \<Rightarrow> unresolved_reference list" where
  "getUnresolvedReferencesBatch offset limit d =
     map rowToUnresolved (take limit (drop offset (t_unresolved d)))"

definition getUnresolvedReferencesByFiles :: "string list \<Rightarrow> db \<Rightarrow> unresolved_reference list" where
  "getUnresolvedReferencesByFiles filePaths d =
     map rowToUnresolved
       (concat (map (\<lambda>chunk. filter (\<lambda>u. ur_file_path u \<in> set chunk) (t_unresolved d))
                  (chunks_of SQLITE_PARAM_CHUNK_SIZE filePaths)))"

definition clearUnresolvedReferences :: "unit act" where
  "clearUnresolvedReferences = sql_delete_unresolved (\<lambda>_. True)"

definition deleteResolvedReferences :: "string list \<Rightarrow> unit act" where
  "deleteResolvedReferences fromNodeIds s =
     (if fromNodeIds = [] then (Inr (), s)
      else sql_delete_unresolved (\<lambda>u. ur_from_node_id u \<in> set fromNodeIds) s)"

type_synonym ref_key = "string \<times> string \<times> edge_kind"

abbreviation row_key :: "unresolved_row \<Rightarrow> ref_key" where
  "row_key u \<equiv> (ur_from_node_id u, ur_reference_name u, ur_reference_kind u)"

definition deleteSpecificResolvedReferences :: "ref_key list \<Rightarrow> unit act" where
  "deleteSpecificResolvedReferences refs s =
     (if refs = [] then (Inr (), s)
      else transaction (for_each (\<lambda>ref. sql_delete_unresolved (\<lambda>u. row_key u = ref)) refs) s)"

section \<open>Statistics, metadata, clear\<close>

record graph_stats =
  st_nodeCount :: nat
  st_edgeCount :: nat
  st_fileCount :: nat
  st_nodesByKind :: "(node_kind, nat) jmap"
  st_edgesByKind :: "(edge_kind, nat) jmap"
  st_filesByLanguage :: "(language, nat) jmap"
  st_dbSizeBytes :: nat
  st_lastUpdated :: nat

definition getNodeAndEdgeCount :: "db \<Rightarrow> nat \<times> nat" where
  "getNodeAndEdgeCount d = (length (t_nodes d), length (t_edges d))"

text \<open>\<open>SELECT k, COUNT(*) ... GROUP BY k\<close>, as an object from keys to counts.\<close>

definition bump :: "'k \<Rightarrow> ('k, nat) jmap \<Rightarrow> ('k, nat) jmap" where
  "bump k m = map_set k ((case map_get m k of Some c \<Rightarrow> c | None \<Rightarrow> 0) + 1) m"

definition group_count :: "('r \<Rightarrow> 'k) \<Rightarrow> 'r list \<Rightarrow> ('k, nat) jmap" where
  "group_count key rows = fold (\<lambda>r. bump (key r)) rows []"

definition getStats :: "nat \<Rightarrow> db \<Rightarrow> graph_stats" where
  "getStats now d =
     \<lparr>st_nodeCount = length (t_nodes d), st_edgeCount = length (t_edges d),
      st_fileCount = length (t_files d),
      st_nodesByKind = group_count r_kind (t_nodes d),
      st_edgesByKind = group_count er_kind (t_edges d),
      st_filesByLanguage = group_count fr_language (t_files d),
      st_dbSizeBytes = 0, st_lastUpdated = now\<rparr>"

definition getMetadata :: "string \<Rightarrow> db \<Rightarrow> string option" where
  "getMetadata key d = map_option fst (map_get (t_metadata d) key)"

definition setMetadata :: "string \<Rightarrow> string \<Rightarrow> nat \<Rightarrow> unit act" where
  "setMetadata key value now s =
     (Inr (), s\<lparr>qb_db := (qb_db s)\<lparr>t_metadata := map_set key (value, now) (t_metadata (qb_db s))\<rparr>\<rparr>)"

definition getAllMetadata :: "db \<Rightarrow> (string, string) jmap" where
  "getAllMetadata d = fold (\<lambda>(key, value, _). map_set key value) (t_metadata d) []"

text \<open>The sequences of the AUTOINCREMENT keys survive the deletes; metadata is kept.\<close>

definition clear_body :: "unit act" where
  "clear_body s =
     (let d1 = (qb_db s)\<lparr>t_unresolved := []\<rparr>;
          d2 = d1\<lparr>t_edges := []\<rparr>;
          d3 = sql_delete_nodes (\<lambda>_. True) d2;
          d4 = d3\<lparr>t_files := []\<rparr>
      in (Inr (), s\<lparr>qb_db := d4\<rparr>))"

definition clear :: "unit act" where
  "clear s = transaction clear_body (s\<lparr>qb_nodeCache := []\<rparr>)"

section \<open>All operations that change the state\<close>

datatype store_op =
    InsertNode node | InsertNodes "node list" | UpdateNode node | DeleteNode string
  | DeleteNodesByFile string | GetNodeById string | GetNodesByIds "string list" | ClearCache
  | InsertEdge edge | InsertEdges "edge list" | DeleteEdgesBySource string
  | UpsertFile file_record | DeleteFile string
  | InsertUnresolvedRef unresolved_reference
  | InsertUnresolvedRefsBatch "unresolved_reference list" | DeleteUnresolvedByNode string
  | ClearUnresolvedReferences | DeleteResolvedReferences "string list"
  | DeleteSpecificResolvedReferences "ref_key list"
  | SetMetadata string string nat | SetProjectNameTokens "string list" | Clear

fun store_step :: "store_op \<Rightarrow> unit act" where
  "store_step (InsertNode n) s = insertNode n s"
| "store_step (InsertNodes ns) s = insertNodes ns s"
| "store_step (UpdateNode n) s = updateNode n s"
| "store_step (DeleteNode i) s = deleteNode i s"
| "store_step (DeleteNodesByFile p) s = deleteNodesByFile p s"
| "store_step (GetNodeById i) s = (Inr (), snd (getNodeById i s))"
| "store_step (GetNodesByIds ids) s = (Inr (), snd (getNodesByIds ids s))"
| "store_step ClearCache s = (Inr (), clearCache s)"
| "store_step (InsertEdge e) s = insertEdge e s"
| "store_step (InsertEdges es) s = insertEdges es s"
| "store_step (DeleteEdgesBySource i) s = deleteEdgesBySource i s"
| "store_step (UpsertFile f) s = upsertFile f s"
| "store_step (DeleteFile p) s = deleteFile p s"
| "store_step (InsertUnresolvedRef r) s = insertUnresolvedRef r s"
| "store_step (InsertUnresolvedRefsBatch rs) s = insertUnresolvedRefsBatch rs s"
| "store_step (DeleteUnresolvedByNode i) s = deleteUnresolvedByNode i s"
| "store_step ClearUnresolvedReferences s = clearUnresolvedReferences s"
| "store_step (DeleteResolvedReferences ids) s = deleteResolvedReferences ids s"
| "store_step (DeleteSpecificResolvedReferences ks) s = deleteSpecificResolvedReferences ks s"
| "store_step (SetMetadata k v t) s = setMetadata k v t s"
| "store_step (SetProjectNameTokens ts) s = (Inr (), setProjectNameTokens ts s)"
| "store_step Clear s = clear s"

definition store_run :: "store_op list \<Rightarrow> query_builder \<Rightarrow> query_builder" where
  "store_run ops s = foldl (\<lambda>s op. snd (store_step op s)) s ops"

section \<open>The invariant\<close>

text \<open>Primary keys, foreign keys and the AUTOINCREMENT sequences.\<close>

definition wf_db :: "db \<Rightarrow> bool" where
  "wf_db d \<longleftrightarrow>
     distinct (map r_id (t_nodes d)) \<and> '''' \<notin> node_ids d \<and>
     (\<forall>e \<in> set (t_edges d). er_source e \<in> node_ids d \<and> er_target e \<in> node_ids d) \<and>
     distinct (map er_id (t_edges d)) \<and> (\<forall>e \<in> set (t_edges d). er_id e \<le> t_edge_seq d) \<and>
     (\<forall>u \<in> set (t_unresolved d). ur_from_node_id u \<in> node_ids d) \<and>
     distinct (map ur_id (t_unresolved d)) \<and>
     (\<forall>u \<in> set (t_unresolved d). ur_id u \<le> t_unresolved_seq d) \<and>
     distinct (map fr_path (t_files d)) \<and> distinct (map_keys (t_metadata d))"

definition qb_inv :: "query_builder \<Rightarrow> bool" where
  "qb_inv s \<longleftrightarrow> wf_db (qb_db s) \<and> nc.coherent (node_at (qb_db s)) (qb_nodeCache s)"

text \<open>
  A step is safe when it keeps the invariant and the transaction flag, and does not cache: what it
  leaves in the cache was there before. The last part is what makes a rollback harmless.
\<close>

definition safe_step :: "query_builder \<Rightarrow> query_builder \<Rightarrow> bool" where
  "safe_step s s' \<longleftrightarrow>
     qb_inv s' \<and> set (qb_nodeCache s') \<subseteq> set (qb_nodeCache s) \<and>
     qb_inTransaction s' = qb_inTransaction s"

lemma safe_step_refl: "qb_inv s \<Longrightarrow> safe_step s s"
  by (simp add: safe_step_def)

lemma safe_step_trans: "safe_step s s' \<Longrightarrow> safe_step s' s'' \<Longrightarrow> safe_step s s''"
  by (auto simp: safe_step_def)

lemma qb_inv_distinct: "qb_inv s \<Longrightarrow> distinct (map_keys (qb_nodeCache s))"
  by (simp add: qb_inv_def nc.coherent_def cache_ok_def)

lemma qb_inv_flag [simp]: "qb_inv (s\<lparr>qb_inTransaction := b\<rparr>) = qb_inv s"
  by (simp add: qb_inv_def)

lemma qb_inv_tokens [simp]: "qb_inv (s\<lparr>qb_projectNameTokens := ts\<rparr>) = qb_inv s"
  by (simp add: qb_inv_def)

text \<open>A transaction around a safe body is safe: committed or rolled back.\<close>

lemma transaction_safe:
  assumes "qb_inv s" "\<And>s0. qb_inv s0 \<Longrightarrow> safe_step s0 (snd (fn s0))"
  shows "safe_step s (snd (transaction fn s))"
proof (cases "qb_inTransaction s")
  case False
  obtain r s' where fn: "fn (s\<lparr>qb_inTransaction := True\<rparr>) = (r, s')"
    by fastforce
  with assms(2) [of "s\<lparr>qb_inTransaction := True\<rparr>"] assms(1) have s':
    "qb_inv s'" "set (qb_nodeCache s') \<subseteq> set (qb_nodeCache s)"
    by (simp_all add: safe_step_def)
  have "nc.coherent (node_at (qb_db s)) (qb_nodeCache s')"
    by (rule coherent_shrink [OF _ qb_inv_distinct [OF s'(1)] s'(2)])
       (use assms(1) in \<open>simp_all add: qb_inv_def\<close>)
  then have "qb_inv (s'\<lparr>qb_inTransaction := False, qb_db := qb_db s\<rparr>)"
    using assms(1) by (simp add: qb_inv_def)
  with s' False fn show ?thesis
    by (cases r) (simp_all add: transaction_def safe_step_def)
qed (use assms(1) in \<open>simp add: transaction_def safe_step_refl\<close>)

lemma transaction_rollback: "fst (transaction fn s) = Inl err \<Longrightarrow> qb_db (snd (transaction fn s)) = qb_db s"
  by (auto simp: transaction_def split: prod.splits sum.splits)

section \<open>The contract of a statement run in a transaction\<close>

text \<open>
  What the code's loops need of the operation they repeat: from a good state it leaves a good state,
  thrown or not, and caches nothing new.
\<close>

locale tx_body =
  fixes body :: "'x \<Rightarrow> unit act"
  assumes safe: "qb_inv s \<Longrightarrow> safe_step s (snd (body x s))"
begin

lemma for_each_safe: "qb_inv s \<Longrightarrow> safe_step s (snd (for_each body xs s))"
proof (induction xs arbitrary: s)
  case (Cons x xs)
  obtain r s' where step: "body x s = (r, s')"
    by fastforce
  with safe [OF Cons.prems, of x] have s': "safe_step s s'" "qb_inv s'"
    by (simp_all add: safe_step_def)
  with Cons.IH [OF s'(2)] step show ?case
    by (cases r) (auto intro: safe_step_trans)
qed (simp add: safe_step_refl)

lemma batch_safe: "qb_inv s \<Longrightarrow> safe_step s (snd (transaction (for_each body xs) s))"
  by (rule transaction_safe) (auto intro: for_each_safe)

text \<open>All or nothing.\<close>

lemma batch_atomic:
  "fst (transaction (for_each body xs) s) = Inl err \<Longrightarrow> qb_db (snd (transaction (for_each body xs) s)) = qb_db s"
  by (rule transaction_rollback)

end

section \<open>Every operation keeps the invariant\<close>

lemma sql_delete_edges:
  "t_edges (sql_delete_nodes P d) =
     filter (\<lambda>e. er_source e \<notin> r_id ` set (filter P (t_nodes d)) \<and>
                  er_target e \<notin> r_id ` set (filter P (t_nodes d))) (t_edges d)"
  "t_unresolved (sql_delete_nodes P d) =
     filter (\<lambda>u. ur_from_node_id u \<notin> r_id ` set (filter P (t_nodes d))) (t_unresolved d)"
  by (simp_all add: sql_delete_nodes_def Let_def)

lemma node_ids_kept:
  "i \<in> node_ids d \<Longrightarrow> i \<notin> r_id ` set (filter P (t_nodes d)) \<Longrightarrow> i \<in> node_ids (sql_delete_nodes P d)"
  by auto

lemma wf_delete_nodes:
  assumes "wf_db d"
  shows "wf_db (sql_delete_nodes P d)"
proof -
  have "\<forall>e \<in> set (t_edges (sql_delete_nodes P d)).
      er_source e \<in> node_ids (sql_delete_nodes P d) \<and> er_target e \<in> node_ids (sql_delete_nodes P d)"
    using assms node_ids_kept unfolding sql_delete_edges wf_db_def by simp
  moreover have "\<forall>u \<in> set (t_unresolved (sql_delete_nodes P d)).
      ur_from_node_id u \<in> node_ids (sql_delete_nodes P d)"
    using assms node_ids_kept unfolding sql_delete_edges wf_db_def by simp
  ultimately show ?thesis
    using assms unfolding wf_db_def
    by (simp add: distinct_map_filter sql_delete_edges) auto
qed

lemma wf_append_node:
  assumes "wf_db d" "r_id row \<notin> node_ids d" "r_id row \<noteq> ''''"
  shows "wf_db (d\<lparr>t_nodes := t_nodes d @ [row]\<rparr>)"
  using assms unfolding wf_db_def by auto

lemma wf_replace_node:
  assumes "wf_db d" "r_id row \<noteq> ''''"
  shows "wf_db (sql_replace_node row d)"
  unfolding sql_replace_node_def Let_def
  by (rule wf_append_node) (use assms in \<open>auto simp: wf_delete_nodes\<close>)

lemma node_ids_update: "node_ids (sql_update_node row d) = node_ids d"
  using map_id_update [of row "t_nodes d"] by (metis list.set_map sql_update_node_fields(1))

lemma wf_update_node:
  assumes "wf_db d"
  shows "wf_db (sql_update_node row d)"
  using assms distinct_update_node [of d row] unfolding wf_db_def
  by (simp del: sql_update_node_fields(1) add: node_ids_update)

lemma wf_insert_edge:
  assumes "wf_db d" "e_source e \<in> node_ids d" "e_target e \<in> node_ids d"
  shows "wf_db (sql_insert_edge e d)"
  using assms unfolding wf_db_def sql_insert_edge_def by (auto simp: le_SucI)

text \<open>Statements that leave the nodes alone keep the cache coherent.\<close>

lemma safe_same_nodes:
  assumes "qb_inv s" "wf_db d'" "t_nodes d' = t_nodes (qb_db s)"
  shows "safe_step s (s\<lparr>qb_db := d'\<rparr>)"
proof -
  have "node_at d' = node_at (qb_db s)"
    by (simp add: fun_eq_iff node_at_def node_row_of_def assms(3))
  then show ?thesis
    using assms by (simp add: safe_step_def qb_inv_def)
qed

lemma safe_delete:
  assumes "qb_inv s"
  shows "safe_step s (snd (deleteNode i s))"
proof -
  have "nc.coherent (node_at (sql_delete_nodes (\<lambda>r. r_id r = i) (qb_db s))) (map_delete i (qb_nodeCache s))"
    using assms unfolding qb_inv_def by (intro coherent_delete) (auto simp: node_at_delete)
  with assms show ?thesis
    by (auto simp: deleteNode_def safe_step_def qb_inv_def wf_delete_nodes set_delete)
qed

lemma safe_insert_node:
  assumes "qb_inv s"
  shows "safe_step s (snd (insertNode n s))"
proof (cases "node_incomplete n")
  case False
  have "nc.coherent (node_at (sql_replace_node (nodeParams n) (qb_db s)))
      (map_delete (n_id n) (qb_nodeCache s))"
    using assms unfolding qb_inv_def by (intro coherent_delete) (auto simp: node_at_replace)
  with assms False show ?thesis
    by (auto simp: insertNode_def safe_step_def qb_inv_def wf_replace_node node_incomplete_def
        set_delete)
qed (use assms in \<open>simp add: insertNode_def safe_step_refl\<close>)

lemma safe_forget:
  assumes "qb_inv s"
  shows "safe_step s (s\<lparr>qb_nodeCache := map_delete i (qb_nodeCache s)\<rparr>)"
  using assms coherent_delete [of "node_at (qb_db s)" "qb_nodeCache s"]
  by (auto simp: safe_step_def qb_inv_def set_delete)

lemma safe_update_node:
  assumes "qb_inv s"
  shows "safe_step s (snd (updateNode n s))"
proof (cases "node_incomplete n")
  case False
  have "nc.coherent (node_at (sql_update_node (nodeParams n) (qb_db s)))
      (map_delete (n_id n) (qb_nodeCache s))"
    using assms unfolding qb_inv_def by (intro coherent_delete) (auto simp: node_at_update)
  with assms False show ?thesis
    by (auto simp: updateNode_def Let_def safe_step_def qb_inv_def wf_update_node set_delete)
qed (use assms in \<open>simp add: updateNode_def Let_def safe_forget\<close>)

lemma safe_delete_by_file:
  assumes "qb_inv s"
  shows "safe_step s (snd (deleteNodesByFile p s))"
proof -
  let ?d = "qb_db s" and ?P = "\<lambda>r. r_file_path r = p"
  have wf: "distinct (map r_id (t_nodes ?d))"
    using assms by (simp add: qb_inv_def wf_db_def)
  have "nc.coherent (node_at (sql_delete_nodes ?P ?d))
      (filter (\<lambda>(i, n). n_filePath n \<noteq> p) (qb_nodeCache s))"
  proof (rule coherent_filter)
    show "nc.coherent (node_at ?d) (qb_nodeCache s)"
      using assms by (simp add: qb_inv_def)
    fix k n
    assume "node_at ?d k = Some n" "case (k, n) of (i, n) \<Rightarrow> n_filePath n \<noteq> p"
    then show "node_at (sql_delete_nodes ?P ?d) k = node_at ?d k"
      unfolding node_at_delete_where [OF wf] by (auto simp: node_at_def)
  qed
  with assms show ?thesis
    by (auto simp: deleteNodesByFile_def safe_step_def qb_inv_def wf_delete_nodes)
qed

lemma safe_insert_edge:
  assumes "qb_inv s"
  shows "safe_step s (snd (insertEdge e s))"
proof (cases "e_source e \<in> node_ids (qb_db s) \<and> e_target e \<in> node_ids (qb_db s)")
  case True
  have "safe_step s (s\<lparr>qb_db := sql_insert_edge e (qb_db s)\<rparr>)"
    using assms True by (intro safe_same_nodes wf_insert_edge) (auto simp: qb_inv_def sql_insert_edge_def)
  with True show ?thesis
    by (simp add: insertEdge_def)
qed (use assms in \<open>auto simp: insertEdge_def safe_step_refl\<close>)

lemma safe_insert_unresolved:
  assumes "qb_inv s"
  shows "safe_step s (snd (insertUnresolvedRef u s))"
proof (cases "u_fromNodeId u \<in> node_ids (qb_db s)")
  case True
  let ?d = "qb_db s"
  have "wf_db (?d\<lparr>t_unresolved_seq := t_unresolved_seq ?d + 1,
      t_unresolved := t_unresolved ?d @ [unresolvedParams (t_unresolved_seq ?d + 1) u]\<rparr>)"
    using assms True unfolding qb_inv_def wf_db_def by (auto simp: le_SucI)
  with assms True show ?thesis
    unfolding insertUnresolvedRef_def Let_def by (simp add: safe_same_nodes)
qed (use assms in \<open>auto simp: insertUnresolvedRef_def Let_def safe_step_refl\<close>)

lemma safe_delete_unresolved:
  assumes "qb_inv s"
  shows "safe_step s (snd (sql_delete_unresolved P s))"
proof -
  have "wf_db ((qb_db s)\<lparr>t_unresolved := filter (\<lambda>u. \<not> P u) (t_unresolved (qb_db s))\<rparr>)"
    using assms unfolding qb_inv_def wf_db_def by (simp add: distinct_map_filter)
  with assms show ?thesis
    unfolding sql_delete_unresolved_def by (simp add: safe_same_nodes)
qed

interpretation node_batch: tx_body insertNode
  by unfold_locales (rule safe_insert_node)

interpretation edge_batch: tx_body
    "\<lambda>edge s. if e_source edge \<notin> set ids \<or> e_target edge \<notin> set ids then (Inr (), s) else insertEdge edge s"
    for ids :: "string list"
  by unfold_locales (simp add: safe_insert_edge safe_step_refl)

interpretation ref_batch: tx_body insertUnresolvedRef
  by unfold_locales (rule safe_insert_unresolved)

interpretation unref_batch: tx_body "\<lambda>ref. sql_delete_unresolved (\<lambda>u. row_key u = ref)"
  by unfold_locales (rule safe_delete_unresolved)

lemma safe_insert_edges:
  assumes "qb_inv s"
  shows "safe_step s (snd (insertEdges es s))"
proof (cases "es = []")
  case False
  then show ?thesis
    unfolding insertEdges_def if_not_P [OF False]
    by (intro transaction_safe assms) (simp only: Let_def edge_batch.for_each_safe)
qed (use assms in \<open>simp add: insertEdges_def safe_step_refl\<close>)

lemma safe_delete_file_body:
  assumes "qb_inv s"
  shows "safe_step s (snd (case deleteNodesByFile p s of
         (Inl err, s') \<Rightarrow> (Inl err, s')
       | (Inr _, s') \<Rightarrow>
           (Inr (), s'\<lparr>qb_db := (qb_db s')\<lparr>t_files :=
              filter (\<lambda>r. fr_path r \<noteq> p) (t_files (qb_db s'))\<rparr>\<rparr>)))"
proof -
  obtain r s' where del: "deleteNodesByFile p s = (r, s')"
    by fastforce
  with safe_delete_by_file [OF assms, of p] have s': "safe_step s s'" "qb_inv s'"
    by (simp_all add: safe_step_def)
  have "wf_db ((qb_db s')\<lparr>t_files := filter (\<lambda>r. fr_path r \<noteq> p) (t_files (qb_db s'))\<rparr>)"
    using s'(2) unfolding qb_inv_def wf_db_def by (simp add: distinct_map_filter)
  with s' have "safe_step s (s'\<lparr>qb_db := (qb_db s')\<lparr>t_files :=
      filter (\<lambda>r. fr_path r \<noteq> p) (t_files (qb_db s'))\<rparr>\<rparr>)"
    by (intro safe_step_trans [OF s'(1)] safe_same_nodes) auto
  with del s'(1) show ?thesis
    by (cases r) simp_all
qed

lemma safe_delete_file: "qb_inv s \<Longrightarrow> safe_step s (snd (deleteFile p s))"
  unfolding deleteFile_def by (rule transaction_safe) (auto intro: safe_delete_file_body)

lemma safe_upsert_file:
  assumes "qb_inv s"
  shows "safe_step s (snd (upsertFile f s))"
proof -
  let ?d = "qb_db s"
  have "map fr_path (map (\<lambda>r. if fr_path r = f_path f then fileParams f else r) rs) = map fr_path rs" for rs
    by (induction rs) auto
  then have "distinct (map fr_path (if f_path f \<in> fr_path ` set (t_files ?d)
      then map (\<lambda>r. if fr_path r = f_path f then fileParams f else r) (t_files ?d)
      else t_files ?d @ [fileParams f]))"
    using assms by (auto simp del: map_map simp: qb_inv_def wf_db_def)
  then have "wf_db (?d\<lparr>t_files := (if f_path f \<in> fr_path ` set (t_files ?d)
      then map (\<lambda>r. if fr_path r = f_path f then fileParams f else r) (t_files ?d)
      else t_files ?d @ [fileParams f])\<rparr>)"
    using assms unfolding qb_inv_def wf_db_def by (simp del: map_map)
  with assms show ?thesis
    unfolding upsertFile_def Let_def by (simp only: snd_conv) (rule safe_same_nodes, simp_all)
qed

lemma safe_delete_edges:
  assumes "qb_inv s"
  shows "safe_step s (snd (deleteEdgesBySource i s))"
proof -
  have "wf_db ((qb_db s)\<lparr>t_edges := filter (\<lambda>e. er_source e \<noteq> i) (t_edges (qb_db s))\<rparr>)"
    using assms unfolding qb_inv_def wf_db_def by (simp add: distinct_map_filter)
  with assms show ?thesis
    unfolding deleteEdgesBySource_def by (simp add: safe_same_nodes)
qed

lemma safe_set_metadata:
  assumes "qb_inv s"
  shows "safe_step s (snd (setMetadata k v t s))"
proof -
  have "wf_db ((qb_db s)\<lparr>t_metadata := map_set k (v, t) (t_metadata (qb_db s))\<rparr>)"
    using assms unfolding qb_inv_def wf_db_def by (simp add: distinct_keys_set)
  with assms show ?thesis
    unfolding setMetadata_def by (simp add: safe_same_nodes)
qed

lemma coherent_empty [simp]: "nc.coherent m []"
  by (simp add: nc.coherent_def cache_ok_def)

lemma safe_clear_cache: "qb_inv s \<Longrightarrow> safe_step s (s\<lparr>qb_nodeCache := []\<rparr>)"
  by (simp add: safe_step_def qb_inv_def)

text \<open>The body of \<open>clear\<close> is safe only on an empty cache, which is why \<open>clear\<close> empties it first.\<close>

lemma clear_body_result:
  "clear_body s = (Inr (), s\<lparr>qb_db := empty_db\<lparr>t_edge_seq := t_edge_seq (qb_db s),
     t_unresolved_seq := t_unresolved_seq (qb_db s), t_metadata := t_metadata (qb_db s)\<rparr>\<rparr>)"
  by (simp add: clear_body_def Let_def sql_delete_nodes_def empty_db_def)

lemma safe_clear:
  assumes "qb_inv s"
  shows "safe_step s (snd (clear s))"
  using assms
  by (auto simp: clear_def transaction_def clear_body_result safe_step_def qb_inv_def wf_db_def
      empty_db_def)

section \<open>Lookups through the cache\<close>

lemma node_at_key:
  assumes "wf_db d" "node_at d i = Some n"
  shows "i \<noteq> [] \<and> n_id n = i"
proof -
  from assms(2) have "i \<in> node_ids d"
    using node_at_ids [of d i] by simp
  with assms(1) have "i \<noteq> []"
    unfolding wf_db_def by metis
  with assms(2) show ?thesis
    by (simp add: node_at_id)
qed

lemma getNodeById_step:
  assumes "qb_inv s" "getNodeById i s = (r, s')"
  shows "r = node_at (qb_db s) i \<and> qb_inv s' \<and> qb_db s' = qb_db s \<and>
    qb_inTransaction s' = qb_inTransaction s"
proof -
  let ?d = "qb_db s" and ?c = "qb_nodeCache s"
  obtain h c' where hit: "cache_get i ?c = (h, c')"
    by fastforce
  have coh: "nc.coherent (node_at ?d) ?c" "nc.coherent (node_at ?d) c'"
    using assms(1) hit nc.coherent_get [of "node_at ?d" ?c i] by (simp_all add: qb_inv_def)
  show ?thesis
  proof (cases h)
    case (Some n)
    with hit coh assms nc.coherent_hit [OF coh(1), of i n] show ?thesis
      by (auto simp: getNodeById_def qb_inv_def)
  next
    case None
    show ?thesis
    proof (cases "node_row_of ?d i")
      case (Some row)
      then have at: "node_at ?d i = Some (rowToNode row)"
        by (simp add: node_at_def)
      with assms(1) have "i \<noteq> ''''" "r_id row = i"
        using node_at_key [of ?d i] by (auto simp: qb_inv_def)
      with coh(2) at have "nc.coherent (node_at ?d) (cacheNode (rowToNode row) c')"
        by (simp add: cacheNode_def nc.coherent_put)
      with Some None hit assms at show ?thesis
        by (auto simp: getNodeById_def qb_inv_def Let_def)
    qed (use None hit assms in \<open>auto simp: getNodeById_def node_at_def\<close>)
  qed
qed

lemma cache_get_cases:
  "cache_get i c = (h, c') \<Longrightarrow> h = map_get c i \<and> map_get c' = map_get c \<and> (cache_ok c \<longrightarrow> cache_ok c')"
  using nc.get_value [of i c] nc.get_look [of i c] nc.get_ok [of c i] by simp

lemma serve_hits_exact:
  assumes "serve_hits ids (cache, out, misses) = (cache', out', misses')"
  shows "map_get cache' = map_get cache \<and> (cache_ok cache \<longrightarrow> cache_ok cache') \<and>
    misses' = misses @ filter (\<lambda>i. map_get cache i = None) ids \<and>
    (\<forall>i. map_get out' i =
       (if i \<in> set ids \<and> map_get cache i \<noteq> None then map_get cache i else map_get out i))"
  using assms
proof (induction ids arbitrary: cache out misses)
  case (Cons x ids)
  obtain h c1 where hit: "cache_get x cache = (h, c1)"
    by fastforce
  note c1 = cache_get_cases [OF hit]
  show ?case
  proof (cases h)
    case None
    with Cons.prems hit have "serve_hits ids (c1, out, misses @ [x]) = (cache', out', misses')"
      by simp
    from Cons.IH [OF this] c1 None show ?thesis
      by auto
  next
    case (Some n)
    with Cons.prems hit have "serve_hits ids (c1, map_set x n out, misses) = (cache', out', misses')"
      by simp
    moreover have "map_get cache x = Some n"
      using c1 Some by simp
    ultimately show ?thesis
      using Cons.IH [of c1 "map_set x n out" misses] c1 by simp
  qed
qed auto

lemma load_rows_correct:
  assumes "load_rows rows (cache, out) = (cache', out')" "nc.coherent m cache"
    and "\<forall>r \<in> set rows. r_id r \<noteq> [] \<and> m (r_id r) = Some (rowToNode r)"
  shows "nc.coherent m cache' \<and>
    (\<forall>i. map_get out' i = (if i \<in> r_id ` set rows then m i else map_get out i))"
  using assms
proof (induction rows arbitrary: cache out)
  case (Cons r rows)
  from Cons.prems(1) have "load_rows rows (cacheNode (rowToNode r) cache, map_set (r_id r) (rowToNode r) out)
      = (cache', out')"
    by (simp add: Let_def)
  moreover have "nc.coherent m (cacheNode (rowToNode r) cache)"
    using Cons.prems(2,3) by (simp add: cacheNode_def nc.coherent_put)
  ultimately show ?case
    using Cons.IH Cons.prems(3) by auto
qed auto

lemma concat_chunks_of: "0 < n \<Longrightarrow> concat (chunks_of n xs) = xs"
  by (induction n xs rule: chunks_of.induct) (subst chunks_of.simps, simp)

lemma load_chunks_correct:
  assumes "fold (\<lambda>chunk. load_rows (filter (\<lambda>r. r_id r \<in> set chunk) (t_nodes d))) chunks (cache, out) = (cache', out')"
    and "nc.coherent (node_at d) cache" "wf_db d"
  shows "nc.coherent (node_at d) cache' \<and>
    (\<forall>i. map_get out' i =
       (if i \<in> set (concat chunks) \<and> i \<in> node_ids d then node_at d i else map_get out i))"
  using assms
proof (induction chunks arbitrary: cache out)
  case (Cons chunk chunks)
  obtain c1 o1 where l: "load_rows (filter (\<lambda>r. r_id r \<in> set chunk) (t_nodes d)) (cache, out) = (c1, o1)"
    by fastforce
  have rows: "\<forall>r \<in> set (filter (\<lambda>r. r_id r \<in> set chunk) (t_nodes d)).
      r_id r \<noteq> [] \<and> node_at d (r_id r) = Some (rowToNode r)"
  proof
    fix r assume r: "r \<in> set (filter (\<lambda>r. r_id r \<in> set chunk) (t_nodes d))"
    with Cons.prems(3) have "node_at d (r_id r) = Some (rowToNode r)"
      by (intro node_at_row) (auto simp: wf_db_def)
    with node_at_key [OF Cons.prems(3) this] show "r_id r \<noteq> [] \<and> node_at d (r_id r) = Some (rowToNode r)"
      by simp
  qed
  note step = load_rows_correct [OF l Cons.prems(2) rows]
  have "fold (\<lambda>chunk. load_rows (filter (\<lambda>r. r_id r \<in> set chunk) (t_nodes d))) chunks (c1, o1) = (cache', out')"
    using Cons.prems(1) l by simp
  from Cons.IH [OF this _ Cons.prems(3)] step show ?case
    by auto
qed auto

lemma getNodesByIds_step:
  assumes "qb_inv s" "getNodesByIds ids s = (out, s')"
  shows "(\<forall>i. map_get out i = (if i \<in> set ids then node_at (qb_db s) i else None)) \<and>
    qb_inv s' \<and> qb_db s' = qb_db s \<and> qb_inTransaction s' = qb_inTransaction s"
proof (cases "ids = []")
  case False
  let ?d = "qb_db s" and ?c = "qb_nodeCache s"
  let ?load = "\<lambda>chunk. load_rows (filter (\<lambda>r. r_id r \<in> set chunk) (t_nodes ?d))"
  obtain c1 o1 misses where hits: "serve_hits ids (?c, [], []) = (c1, o1, misses)"
    by (metis prod_cases3)
  obtain c2 o2 where load: "fold ?load (chunks_of SQLITE_PARAM_CHUNK_SIZE misses) (c1, o1) = (c2, o2)"
    by fastforce
  from assms(2) False hits load have res: "out = o2" "s' = s\<lparr>qb_nodeCache := c2\<rparr>"
    by (simp_all add: getNodesByIds_def)
  have inv: "nc.coherent (node_at ?d) ?c" "wf_db ?d"
    using assms(1) by (simp_all add: qb_inv_def)
  note h = serve_hits_exact [OF hits]
  from inv(1) h have "nc.coherent (node_at ?d) c1"
    unfolding nc.coherent_def by simp
  note l = load_chunks_correct [OF load this inv(2)]
  have chunks: "concat (chunks_of SQLITE_PARAM_CHUNK_SIZE misses) = misses"
    by (rule concat_chunks_of) (simp add: SQLITE_PARAM_CHUNK_SIZE_def)
  have "map_get out i = (if i \<in> set ids then node_at ?d i else None)" for i
  proof -
    have "map_get out i = (if i \<in> set misses \<and> i \<in> node_ids ?d then node_at ?d i else map_get o1 i)"
      using l unfolding res(1) chunks by blast
    moreover have "map_get o1 i = (if i \<in> set ids \<and> map_get ?c i \<noteq> None then map_get ?c i else None)"
      using h by simp
    moreover have "i \<in> set misses \<longleftrightarrow> i \<in> set ids \<and> map_get ?c i = None"
      using h by simp
    ultimately show ?thesis
      using nc.coherent_look [OF inv(1), of i] node_at_None [of ?d i]
      by (cases "map_get ?c i"; cases "i \<in> node_ids ?d") simp_all
  qed
  with l res inv show ?thesis
    by (simp add: qb_inv_def)
qed (use assms in \<open>auto simp: getNodesByIds_def\<close>)

section \<open>Existence checks and inserts\<close>

lemma getExistingNodeIds_set: "set (getExistingNodeIds ids d) = set ids \<inter> node_ids d"
proof -
  have "set (fold (\<lambda>chunk out. fold set_add (map r_id (filter (\<lambda>r. r_id r \<in> set chunk) (t_nodes d))) out)
      chunks out) = set out \<union> (set (concat chunks) \<inter> node_ids d)" for chunks out
    by (induction chunks arbitrary: out) auto
  moreover have "concat (chunks_of SQLITE_PARAM_CHUNK_SIZE (set_of_list ids)) = set_of_list ids"
    by (rule concat_chunks_of) (simp add: SQLITE_PARAM_CHUNK_SIZE_def)
  ultimately show ?thesis
    unfolding getExistingNodeIds_def Let_def by (simp del: set_concat)
qed

lemma endpoint_ids_set: "set (endpoint_ids es acc) = set acc \<union> e_source ` set es \<union> e_target ` set es"
  by (induction es arbitrary: acc) auto

definition edge_insertable :: "db \<Rightarrow> edge \<Rightarrow> bool" where
  "edge_insertable d e \<longleftrightarrow> e_source e \<in> node_ids d \<and> e_target e \<in> node_ids d"

text \<open>Appending edges never changes the nodes, so the prefilter stays right during the loop.\<close>

lemma insertEdge_insertable:
  "insertEdge e s =
     (if edge_insertable (qb_db s) e then (Inr (), s\<lparr>qb_db := sql_insert_edge e (qb_db s)\<rparr>)
      else (Inl FK_violation, s))"
  by (simp add: insertEdge_def edge_insertable_def)

lemma insertable_same [simp]: "edge_insertable (sql_insert_edge e d) = edge_insertable d"
  by (simp add: fun_eq_iff edge_insertable_def sql_insert_edge_def)

lemma insert_loop:
  assumes "\<forall>e \<in> set es. (e_source e \<notin> S \<or> e_target e \<notin> S) = (\<not> edge_insertable (qb_db s) e)"
  shows "for_each (\<lambda>e s. if e_source e \<notin> S \<or> e_target e \<notin> S then (Inr (), s) else insertEdge e s) es s
    = (Inr (), s\<lparr>qb_db := fold sql_insert_edge (filter (edge_insertable (qb_db s)) es) (qb_db s)\<rparr>)"
  using assms
proof (induction es arbitrary: s)
  case (Cons e es)
  show ?case
  proof (cases "edge_insertable (qb_db s) e")
    case True
    with Cons.prems have "\<not> (e_source e \<notin> S \<or> e_target e \<notin> S)"
      by simp
    with True Cons.IH [of "s\<lparr>qb_db := sql_insert_edge e (qb_db s)\<rparr>"] Cons.prems
    show ?thesis
      by (simp del: de_Morgan_disj de_Morgan_conj not_not add: insertEdge_insertable)
  next
    case False
    with Cons.prems have "e_source e \<notin> S \<or> e_target e \<notin> S"
      by simp
    with False Cons.IH [of s] Cons.prems show ?thesis
      by (simp del: de_Morgan_disj de_Morgan_conj)
  qed
qed simp

lemma insertEdges_result:
  assumes "\<not> qb_inTransaction s"
  shows "insertEdges es s =
    (Inr (), s\<lparr>qb_db := fold sql_insert_edge (filter (edge_insertable (qb_db s)) es) (qb_db s)\<rparr>)"
proof (cases "es = []")
  case False
  let ?S = "set (getExistingNodeIds (endpoint_ids es []) (qb_db s))"
  have "\<forall>e \<in> set es. (e_source e \<notin> ?S \<or> e_target e \<notin> ?S) = (\<not> edge_insertable (qb_db s) e)"
    by (auto simp: getExistingNodeIds_set endpoint_ids_set edge_insertable_def)
  from insert_loop [of es ?S "s\<lparr>qb_inTransaction := True\<rparr>"] this False assms show ?thesis
    unfolding insertEdges_def transaction_def Let_def by simp
qed (simp add: insertEdges_def)

lemma fold_insert_edges:
  "map rowToEdge (t_edges (fold sql_insert_edge es d)) =
     map rowToEdge (t_edges d) @ map (\<lambda>e. e\<lparr>e_metadata := stored_json (e_metadata e)\<rparr>) es"
  by (induction es arbitrary: d) (simp_all add: sql_insert_edge_def rowToEdge_params)

section \<open>The whole state machine\<close>

lemma store_step_inv:
  assumes "qb_inv s"
  shows "qb_inv (snd (store_step op s)) \<and>
    qb_inTransaction (snd (store_step op s)) = qb_inTransaction s"
proof -
  have safe: "safe_step s s' \<Longrightarrow> qb_inv s' \<and> qb_inTransaction s' = qb_inTransaction s" for s'
    by (simp add: safe_step_def)
  show ?thesis
  proof (cases op)
    case (GetNodeById i)
    then show ?thesis
      using getNodeById_step [OF assms, of i] by (cases "getNodeById i s") simp
  next
    case (GetNodesByIds ids)
    then show ?thesis
      using getNodesByIds_step [OF assms, of ids] by (cases "getNodesByIds ids s") simp
  next
    case (SetProjectNameTokens ts)
    with assms show ?thesis
      by (simp add: setProjectNameTokens_def)
  next
    case (InsertUnresolvedRefsBatch rs)
    with assms show ?thesis
      by (cases "rs = []") (simp_all add: insertUnresolvedRefsBatch_def safe ref_batch.batch_safe)
  next
    case (DeleteSpecificResolvedReferences ks)
    with assms show ?thesis
      by (cases "ks = []")
         (simp_all add: deleteSpecificResolvedReferences_def safe unref_batch.batch_safe)
  next
    case (DeleteResolvedReferences ids)
    with assms show ?thesis
      by (cases "ids = []") (simp_all add: deleteResolvedReferences_def safe safe_delete_unresolved)
  qed (use assms in \<open>simp_all add: safe safe_insert_node insertNodes_def node_batch.batch_safe
      safe_update_node safe_delete safe_delete_by_file safe_clear_cache clearCache_def safe_insert_edge
      safe_insert_edges safe_delete_edges safe_upsert_file safe_delete_file safe_insert_unresolved
      deleteUnresolvedByNode_def safe_delete_unresolved clearUnresolvedReferences_def
      safe_set_metadata safe_clear\<close>)
qed

lemma store_run_inv:
  assumes "qb_inv s"
  shows "qb_inv (store_run ops s) \<and> qb_inTransaction (store_run ops s) = qb_inTransaction s"
  using assms unfolding store_run_def
  by (induction ops arbitrary: s) (simp_all add: store_step_inv)

lemma new_query_builder_inv: "wf_db d \<Longrightarrow> qb_inv (new_query_builder d)"
  by (simp add: qb_inv_def new_query_builder_def)

lemma wf_empty_db: "wf_db empty_db"
  by (simp add: wf_db_def empty_db_def)

section \<open>Batches of references\<close>

definition stored_ref :: "unresolved_reference \<Rightarrow> unresolved_reference" where
  "stored_ref u =
     u\<lparr>u_filePath := Some (case u_filePath u of Some p \<Rightarrow> p | None \<Rightarrow> ''''),
       u_language := Some (case u_language u of Some l \<Rightarrow> l | None \<Rightarrow> L_unknown),
       u_candidates := stored_json (u_candidates u)\<rparr>"

lemma rowToUnresolved_params: "rowToUnresolved (unresolvedParams i u) = stored_ref u"
  by (simp add: rowToUnresolved_def unresolvedParams_def stored_ref_def)

lemma insert_refs_ok:
  assumes "\<forall>u \<in> set us. u_fromNodeId u \<in> node_ids (qb_db s)"
  shows "\<exists>s'. for_each insertUnresolvedRef us s = (Inr (), s') \<and>
    getUnresolvedReferences (qb_db s') = getUnresolvedReferences (qb_db s) @ map stored_ref us"
  using assms
proof (induction us arbitrary: s)
  case (Cons u us)
  let ?d = "qb_db s"
  let ?s1 = "s\<lparr>qb_db := ?d\<lparr>t_unresolved_seq := t_unresolved_seq ?d + 1,
      t_unresolved := t_unresolved ?d @ [unresolvedParams (t_unresolved_seq ?d + 1) u]\<rparr>\<rparr>"
  from Cons.prems have "insertUnresolvedRef u s = (Inr (), ?s1)"
    by (simp add: insertUnresolvedRef_def Let_def)
  with Cons.IH [of ?s1] Cons.prems show ?case
    by (simp add: getUnresolvedReferences_def rowToUnresolved_params)
qed simp

lemma insert_refs_fail:
  assumes "\<exists>u \<in> set us. u_fromNodeId u \<notin> node_ids (qb_db s)"
  shows "fst (for_each insertUnresolvedRef us s) = Inl FK_violation"
  using assms
proof (induction us arbitrary: s)
  case (Cons u us)
  let ?d = "qb_db s"
  let ?s1 = "s\<lparr>qb_db := ?d\<lparr>t_unresolved_seq := t_unresolved_seq ?d + 1,
      t_unresolved := t_unresolved ?d @ [unresolvedParams (t_unresolved_seq ?d + 1) u]\<rparr>\<rparr>"
  show ?case
  proof (cases "u_fromNodeId u \<in> node_ids ?d")
    case True
    then have "insertUnresolvedRef u s = (Inr (), ?s1)"
      by (simp add: insertUnresolvedRef_def Let_def)
    with Cons.IH [of ?s1] Cons.prems True show ?thesis
      by auto
  next
    case False
    then have "insertUnresolvedRef u s = (Inl FK_violation, s)"
      unfolding insertUnresolvedRef_def Let_def by (rule if_not_P)
    then show ?thesis
      by simp
  qed
qed simp

lemma deleted_edges:
  assumes "wf_db d" "e \<in> set (t_edges (sql_delete_nodes (\<lambda>r. r_id r = i) d))"
  shows "er_source e \<noteq> i \<and> er_target e \<noteq> i"
proof -
  have "er_source e \<in> node_ids (sql_delete_nodes (\<lambda>r. r_id r = i) d) \<and>
      er_target e \<in> node_ids (sql_delete_nodes (\<lambda>r. r_id r = i) d)"
    using wf_delete_nodes [OF assms(1)] assms(2) unfolding wf_db_def by blast
  then show ?thesis
    by auto
qed

lemma deleteFile_result:
  assumes "\<not> qb_inTransaction s"
  shows "fst (deleteFile p s) = Inr () \<and>
    qb_db (snd (deleteFile p s)) = (sql_delete_nodes (\<lambda>r. r_file_path r = p) (qb_db s))
      \<lparr>t_files := filter (\<lambda>r. fr_path r \<noteq> p) (t_files (qb_db s))\<rparr>"
  using assms by (simp add: deleteFile_def transaction_def deleteNodesByFile_def)

section \<open>The file-level dependency relation\<close>

definition file_depends :: "db \<Rightarrow> string \<Rightarrow> string \<Rightarrow> bool" where
  "file_depends d f g \<longleftrightarrow>
     (\<exists>src e tgt. (src, e, tgt) \<in> set (edge_join d) \<and> er_kind e \<noteq> EK_contains \<and>
        r_file_path src = f \<and> r_file_path tgt = g \<and> f \<noteq> g)"

lemma dependents_iff: "f \<in> set (getDependentFilePaths g d) \<longleftrightarrow> file_depends d f g"
  unfolding getDependentFilePaths_def set_set_of_list file_depends_def
  by (force split: if_splits)

lemma dependencies_iff: "g \<in> set (getDependencyFilePaths f d) \<longleftrightarrow> file_depends d f g"
  unfolding getDependencyFilePaths_def set_set_of_list file_depends_def
  by (force split: if_splits)

section \<open>Pages and counts\<close>

lemma pages_cover:
  assumes "0 < n"
  shows "concat (map (\<lambda>k. take n (drop (k * n) xs)) [0..<m]) = take (m * n) xs"
proof (induction m)
  case (Suc m)
  have "take (Suc m * n) xs = take (m * n) xs @ take n (drop (m * n) xs)"
    unfolding mult_Suc add.commute [of n "m * n"] by (rule take_add)
  with Suc show ?case
    by simp
qed simp

lemma map_get_bump:
  "map_get (bump k m) j = (if j = k then Some ((case map_get m k of Some c \<Rightarrow> c | None \<Rightarrow> 0) + 1) else map_get m j)"
  by (simp add: bump_def)

lemma fold_bump:
  "(case map_get (fold (\<lambda>r. bump (key r)) rows m) k of Some c \<Rightarrow> c | None \<Rightarrow> 0) =
     (case map_get m k of Some c \<Rightarrow> c | None \<Rightarrow> 0) + length (filter (\<lambda>r. key r = k) rows)"
  by (induction rows arbitrary: m) (auto simp: map_get_bump split: option.splits)

lemma group_count_keys: "set (map_keys (fold (\<lambda>r. bump (key r)) rows m)) = set (map_keys m) \<union> key ` set rows"
  by (induction rows arbitrary: m) (auto simp: bump_def dom_update)

lemma group_count_correct:
  "map_get (group_count key rows) k =
     (if k \<in> key ` set rows then Some (length (filter (\<lambda>r. key r = k) rows)) else None)"
proof (cases "map_get (group_count key rows) k")
  case None
  then have "k \<notin> key ` set rows"
    using group_count_keys [of key rows "[]"] by (simp add: group_count_def map_of_eq_None_iff)
  with None show ?thesis
    by simp
next
  case (Some c)
  then have "k \<in> key ` set rows"
    using group_count_keys [of key rows "[]"] by (force simp: group_count_def dest: map_of_SomeD)
  with Some fold_bump [of key rows "[]" k] show ?thesis
    by (simp add: group_count_def)
qed

section \<open>Properties\<close>

text \<open>The states the query builder can be in: any sequence of its operations on a new database.\<close>

abbreviation reached :: "store_op list \<Rightarrow> query_builder" where
  "reached ops \<equiv> store_run ops (new_query_builder empty_db)"

lemma reached_inv: "qb_inv (reached ops)" "\<not> qb_inTransaction (reached ops)"
  using store_run_inv [OF new_query_builder_inv [OF wf_empty_db], of ops]
  by (simp_all add: new_query_builder_def)

text \<open>
  C1: whatever sequence of operations is run on a new database, failing ones included, the tables keep
  their primary and foreign keys (every edge joins two stored nodes, every unresolved reference starts
  at one), and the node cache holds at most 1000 entries, each of them the current row of its id.
\<close>

theorem store_invariant:
  "qb_inv (store_run ops (new_query_builder empty_db))"
  by (rule reached_inv)

text \<open>
  C2: a cached lookup is the table lookup. In every reachable state \<open>getNodeById\<close> returns the node of
  the current row with that id, or null when there is none, whatever was cached, evicted, replaced or
  rolled back before; and it changes no table.
\<close>

theorem getNodeById_refines:
  "fst (getNodeById i (store_run ops (new_query_builder empty_db))) =
     node_at (qb_db (store_run ops (new_query_builder empty_db))) i \<and>
   qb_db (snd (getNodeById i (store_run ops (new_query_builder empty_db)))) =
     qb_db (store_run ops (new_query_builder empty_db))"
  using getNodeById_step [OF reached_inv(1) [of ops], of i] by (metis prod.collapse)

text \<open>
  The batched lookup, with its cache hits, its misses and its chunks of 500, returns exactly the
  point lookups of the requested ids.
\<close>

theorem getNodesByIds_pointwise:
  "map_get (fst (getNodesByIds ids (store_run ops (new_query_builder empty_db)))) i =
     (if i \<in> set ids then node_at (qb_db (store_run ops (new_query_builder empty_db))) i else None)"
  using getNodesByIds_step [OF reached_inv(1) [of ops], of ids] by (metis prod.collapse)

text \<open>
  C13: \<open>insertEdges\<close> never fails: it stores, in order, exactly the edges whose two endpoints are in the
  node table and skips the others, so no foreign key can be violated by a batch.
\<close>

theorem insertEdges_filters:
  "fst (insertEdges es (store_run ops (new_query_builder empty_db))) = Inr () \<and>
   map rowToEdge (t_edges (qb_db (snd (insertEdges es (store_run ops (new_query_builder empty_db)))))) =
     map rowToEdge (t_edges (qb_db (store_run ops (new_query_builder empty_db)))) @
     map (\<lambda>e. e\<lparr>e_metadata := stored_json (e_metadata e)\<rparr>)
       (filter (edge_insertable (qb_db (store_run ops (new_query_builder empty_db)))) es)"
  by (simp add: insertEdges_result reached_inv fold_insert_edges)

text \<open>
  C17: a batch of unresolved references is all or nothing. It succeeds exactly when every reference
  starts at a stored node, and then appends them in order; otherwise it fails and the database is the
  one before the call.
\<close>

theorem insertUnresolvedRefsBatch_atomic:
  "if (\<exists>u \<in> set us. u_fromNodeId u \<notin> node_ids (qb_db (store_run ops (new_query_builder empty_db))))
   then fst (insertUnresolvedRefsBatch us (store_run ops (new_query_builder empty_db))) = Inl FK_violation \<and>
     qb_db (snd (insertUnresolvedRefsBatch us (store_run ops (new_query_builder empty_db)))) =
       qb_db (store_run ops (new_query_builder empty_db))
   else fst (insertUnresolvedRefsBatch us (store_run ops (new_query_builder empty_db))) = Inr () \<and>
     getUnresolvedReferences (qb_db (snd (insertUnresolvedRefsBatch us (store_run ops (new_query_builder empty_db))))) =
       getUnresolvedReferences (qb_db (store_run ops (new_query_builder empty_db))) @ map stored_ref us"
proof -
  let ?s = "reached ops"
  let ?t = "?s\<lparr>qb_inTransaction := True\<rparr>"
  have open_tx: "\<not> qb_inTransaction ?s"
    by (rule reached_inv)
  show ?thesis
  proof (cases "\<exists>u \<in> set us. u_fromNodeId u \<notin> node_ids (qb_db ?s)")
    case True
    then have "fst (for_each insertUnresolvedRef us ?t) = Inl FK_violation"
      by (intro insert_refs_fail) simp
    with True open_tx show ?thesis
      by (cases "us = []") (auto simp: insertUnresolvedRefsBatch_def transaction_def split: prod.splits)
  next
    case False
    then obtain s' where "for_each insertUnresolvedRef us ?t = (Inr (), s')"
      "getUnresolvedReferences (qb_db s') = getUnresolvedReferences (qb_db ?s) @ map stored_ref us"
      using insert_refs_ok [of us ?t] by auto
    with False open_tx show ?thesis
      by (cases "us = []") (auto simp: insertUnresolvedRefsBatch_def transaction_def)
  qed
qed

text \<open>
  C19: storing a node and looking it up gives the node back, up to the fields a row cannot tell apart;
  and since the insert replaces, an old node with that id has gone with every edge that touched it.
\<close>

theorem insertNode_replaces:
  assumes "\<not> node_incomplete n"
  shows "fst (getNodeById (n_id n) (snd (insertNode n (store_run ops (new_query_builder empty_db))))) =
      Some (stored_node n) \<and>
    getOutgoingEdges (n_id n) [] None (qb_db (snd (insertNode n (store_run ops (new_query_builder empty_db))))) = [] \<and>
    getIncomingEdges (n_id n) [] (qb_db (snd (insertNode n (store_run ops (new_query_builder empty_db))))) = []"
proof -
  let ?s = "reached ops"
  let ?s1 = "snd (insertNode n ?s)"
  have "qb_inv ?s1"
    using safe_insert_node [OF reached_inv(1)] by (simp add: safe_step_def)
  then have "fst (getNodeById (n_id n) ?s1) = node_at (qb_db ?s1) (n_id n)"
    using getNodeById_step [of ?s1 "n_id n"] by (metis prod.collapse)
  moreover have "node_at (qb_db ?s1) (n_id n) = Some (stored_node n)"
    using assms by (simp add: insertNode_def node_at_replace rowToNode_params)
  moreover have "\<forall>e \<in> set (t_edges (qb_db ?s1)). er_source e \<noteq> n_id n \<and> er_target e \<noteq> n_id n"
    using assms deleted_edges [of "qb_db ?s"] reached_inv(1) [of ops]
    by (simp add: insertNode_def qb_inv_def)
  ultimately show ?thesis
    by (simp add: getOutgoingEdges_def getIncomingEdges_def)
qed

theorem insertNode_replaces_witness:
  "fst (getNodeById ''n1'' (snd (insertNode
     \<lparr>n_id = ''n1'', n_kind = NK_function, n_name = ''f'', n_qualifiedName = ''f'', n_filePath = ''a.ts'',
      n_language = L_typescript, n_startLine = 1, n_endLine = 2, n_startColumn = 0, n_endColumn = 0,
      n_docstring = None, n_signature = None, n_visibility = None, n_isExported = Some True,
      n_isAsync = None, n_isStatic = None, n_isAbstract = None, n_decorators = None,
      n_typeParameters = None, n_returnType = None, n_updatedAt = 7\<rparr>
     (store_run [ClearCache] (new_query_builder empty_db))))) \<noteq> None"
  using insertNode_replaces [of "\<lparr>n_id = ''n1'', n_kind = NK_function, n_name = ''f'',
      n_qualifiedName = ''f'', n_filePath = ''a.ts'', n_language = L_typescript, n_startLine = 1,
      n_endLine = 2, n_startColumn = 0, n_endColumn = 0, n_docstring = None, n_signature = None,
      n_visibility = None, n_isExported = Some True, n_isAsync = None, n_isStatic = None,
      n_isAbstract = None, n_decorators = None, n_typeParameters = None, n_returnType = None,
      n_updatedAt = 7\<rparr>" "[ClearCache]"]
  by (simp add: node_incomplete_def)

text \<open>
  C28: deleting a file leaves no node of that file, no record of it and no edge or reference that
  touched one of its nodes, and it leaves the nodes of every other file as they were.
\<close>

theorem deleteFile_complete:
  "getNodesByFile p (qb_db (snd (deleteFile p (store_run ops (new_query_builder empty_db))))) = [] \<and>
   getFileByPath p (qb_db (snd (deleteFile p (store_run ops (new_query_builder empty_db))))) = None \<and>
   qb_inv (snd (deleteFile p (store_run ops (new_query_builder empty_db)))) \<and>
   getNodesByFile q (qb_db (snd (deleteFile p (store_run ops (new_query_builder empty_db))))) =
     (if q = p then [] else getNodesByFile q (qb_db (store_run ops (new_query_builder empty_db))))"
proof -
  let ?s = "reached ops"
  have del: "qb_db (snd (deleteFile p ?s)) = (sql_delete_nodes (\<lambda>r. r_file_path r = p) (qb_db ?s))
      \<lparr>t_files := filter (\<lambda>r. fr_path r \<noteq> p) (t_files (qb_db ?s))\<rparr>"
    using deleteFile_result [OF reached_inv(2)] by simp
  have "getNodesByFile x (qb_db (snd (deleteFile p ?s))) =
      (if x = p then [] else getNodesByFile x (qb_db ?s))" for x
  proof (cases "x = p")
    case False
    then have "filter (\<lambda>r. r_file_path r = x) (filter (\<lambda>r. r_file_path r \<noteq> p) rs) =
        filter (\<lambda>r. r_file_path r = x) rs" for rs
      by (induction rs) auto
    from this [of "t_nodes (qb_db ?s)"] False show ?thesis
      unfolding del getNodesByFile_def by simp
  qed (simp add: del getNodesByFile_def)
  moreover have "find (\<lambda>r. fr_path r = p) (filter (\<lambda>r. fr_path r \<noteq> p) xs) = None" for xs
    by (simp add: find_None_iff)
  moreover have "qb_inv (snd (deleteFile p ?s))"
    using safe_delete_file [OF reached_inv(1)] by (simp add: safe_step_def)
  ultimately show ?thesis
    by (simp add: getFileByPath_def del)
qed

text \<open>
  The two file-level projections of the graph are inverse to each other: a file depends on another
  exactly when it is one of the other's dependents.
\<close>

theorem dependency_duality:
  "f \<in> set (getDependentFilePaths g d) \<longleftrightarrow> g \<in> set (getDependencyFilePaths f d)"
  by (simp only: dependents_iff dependencies_iff)

text \<open>
  Reading the unresolved references page by page, with \<open>LIMIT\<close> and a growing \<open>OFFSET\<close>, sees every
  reference once and in order, as long as none is deleted between the pages.
\<close>

theorem unresolved_pages_cover:
  assumes "0 < n" "getUnresolvedReferencesCount d \<le> m * n"
  shows "concat (map (\<lambda>k. getUnresolvedReferencesBatch (k * n) n d) [0..<m]) = getUnresolvedReferences d"
proof -
  have "concat (map (\<lambda>k. getUnresolvedReferencesBatch (k * n) n d) [0..<m]) =
      map rowToUnresolved (concat (map (\<lambda>k. take n (drop (k * n) (t_unresolved d))) [0..<m]))"
    by (simp add: getUnresolvedReferencesBatch_def map_concat comp_def)
  also have "\<dots> = map rowToUnresolved (take (m * n) (t_unresolved d))"
    by (simp only: pages_cover [OF assms(1)])
  finally show ?thesis
    using assms(2) by (simp add: getUnresolvedReferencesCount_def getUnresolvedReferences_def)
qed

theorem unresolved_pages_cover_witness:
  "concat (map (\<lambda>k. getUnresolvedReferencesBatch (k * 500) 500 empty_db) [0..<2]) = []"
  using unresolved_pages_cover [of 500 empty_db 2]
  by (simp add: getUnresolvedReferencesCount_def getUnresolvedReferences_def empty_db_def)

text \<open>
  The statistics count: for every node kind the entry of \<open>nodesByKind\<close> is the number of nodes the
  table holds of that kind, with no entry for a kind that does not occur.
\<close>

theorem getStats_counts:
  "map_get (st_nodesByKind (getStats now d)) k =
     (if getNodesByKind k d = [] then None else Some (length (getNodesByKind k d)))"
proof -
  have "(k \<in> r_kind ` set (t_nodes d)) = (filter (\<lambda>r. r_kind r = k) (t_nodes d) \<noteq> [])"
    by (auto simp: filter_empty_conv)
  then show ?thesis
    by (simp add: getStats_def group_count_correct getNodesByKind_def)
qed

end
