(* ===== verification/LevelOrder.thy ===== *)
theory LevelOrder
  imports Prelude
begin

text \<open>
  What a breadth-first search over a queue of nodes with depths computes, independent of any program:
  the locale \<open>level_order\<close> states the loop invariant and its preservation by the two kinds of
  iteration, and derives that a node is first popped at its distance and that the search ends with
  exactly the nodes inside the depth bound. Theory \<open>TraversalLaws\<close> interprets it on the breadth-first
  traversal and on the shortest-path search.
\<close>

text \<open>\<open>dist\<close> of a relation, as the least number of steps.\<close>

definition hop_dist :: "('a \<Rightarrow> 'a \<Rightarrow> bool) \<Rightarrow> 'a \<Rightarrow> 'a \<Rightarrow> nat" where
  "hop_dist R s j = (LEAST n. (R ^^ n) s j)"

lemma hop_dist_le: "(R ^^ n) s j \<Longrightarrow> hop_dist R s j \<le> n"
  unfolding hop_dist_def by (rule Least_le)

lemma hop_dist_reach: "(R ^^ n) s j \<Longrightarrow> (R ^^ hop_dist R s j) s j"
  unfolding hop_dist_def by (rule LeastI)

lemma relpowp_snoc: "(R ^^ n) s i \<Longrightarrow> R i j \<Longrightarrow> (R ^^ Suc n) s j"
  by (rule relpowp_Suc_I)

lemma relpowp_0 [simp]: "(R ^^ 0) s s"
  by simp

text \<open>The first node outside a set on a path that starts inside it.\<close>

lemma first_outside:
  assumes "(R ^^ n) s j" "s \<in> V" "j \<notin> V"
  obtains m v x where "m < n" "(R ^^ m) s v" "v \<in> V" "R v x" "x \<notin> V"
  using assms
proof (induction n arbitrary: j thesis)
  case (Suc n)
  from Suc.prems(2) obtain i where i: "(R ^^ n) s i" "R i j"
    by auto
  show ?case
  proof (cases "i \<in> V")
    case True
    with i Suc.prems show ?thesis
      by (intro Suc.prems(1) [of n i j]) auto
  next
    case False
    from Suc.IH [OF _ i(1) Suc.prems(3) False] obtain m v x where
      "m < n" "(R ^^ m) s v" "v \<in> V" "R v x" "x \<notin> V"
      by metis
    then show ?thesis
      by (intro Suc.prems(1) [of m v x]) auto
  qed
qed simp

locale level_order =
  fixes R :: "'a \<Rightarrow> 'a \<Rightarrow> bool" and s :: 'a and inside :: "nat \<Rightarrow> bool"
  assumes inside_0: "inside 0"
    and inside_down: "inside (Suc n) \<Longrightarrow> inside n"
begin

abbreviation dist :: "'a \<Rightarrow> nat" where
  "dist \<equiv> hop_dist R s"

text \<open>
  The invariant: the queue holds real distances in order and spans two levels at most; a visited node
  was popped at its distance; and each successor of an expanded node is visited or in the queue one
  level further.
\<close>

definition levels :: "('a \<times> nat) list \<Rightarrow> bool" where
  "levels q \<longleftrightarrow> sorted (map snd q) \<and> (\<forall>x \<in> set q. \<forall>y \<in> set q. snd x \<le> Suc (snd y)) \<and>
     (\<forall>x \<in> set q. (R ^^ snd x) s (fst x) \<and> inside (snd x))"

definition settled :: "'a set \<Rightarrow> ('a \<times> nat) set \<Rightarrow> bool" where
  "settled V Q \<longleftrightarrow> (\<forall>v \<in> V. (R ^^ dist v) s v \<and> inside (dist v) \<and> (\<forall>y \<in> Q. dist v \<le> snd y))"

definition covered :: "'a set \<Rightarrow> ('a \<times> nat) set \<Rightarrow> bool" where
  "covered V Q \<longleftrightarrow>
     (\<forall>v \<in> V. \<forall>w. R v w \<longrightarrow> inside (Suc (dist v)) \<longrightarrow> w \<in> V \<or> (w, Suc (dist v)) \<in> Q) \<and>
     (s \<in> V \<or> (s, 0) \<in> Q)"

definition inv :: "'a set \<Rightarrow> ('a \<times> nat) list \<Rightarrow> bool" where
  "inv V q \<longleftrightarrow> levels q \<and> settled V (set q) \<and> covered V (set q)"

lemma inv_init: "inv {} [(s, 0)]"
  by (simp add: inv_def levels_def settled_def covered_def inside_0)

lemma inside_le: "inside n \<Longrightarrow> m \<le> n \<Longrightarrow> inside m"
  by (induction n) (auto simp: le_Suc_eq dest: inside_down)

lemma queue_head_least: "levels ((j, k) # q) \<Longrightarrow> (x, l) \<in> set ((j, k) # q) \<Longrightarrow> k \<le> l"
  by (force simp: levels_def)

text \<open>A popped node that was not visited has the depth of its queue entry as its distance.\<close>

lemma pop_dist:
  assumes inv: "inv V ((j, k) # q)" and new: "j \<notin> V"
  shows "dist j = k"
proof (rule ccontr)
  assume neq: "dist j \<noteq> k"
  have lev: "levels ((j, k) # q)" and cov: "covered V (set ((j, k) # q))"
    using inv by (simp_all only: inv_def)
  then have reach: "(R ^^ k) s j" "inside k"
    by (simp_all add: levels_def)
  then have less: "dist j < k"
    using neq hop_dist_le [OF reach(1)] by simp
  show False
  proof (cases "s \<in> V")
    case True
    obtain m v x where x: "m < dist j" "(R ^^ m) s v" "v \<in> V" "R v x" "x \<notin> V"
      using first_outside [OF hop_dist_reach [OF reach(1)] True new] by metis
    have "dist v \<le> m"
      using x(2) by (rule hop_dist_le)
    with x(1) less have lt: "Suc (dist v) < k"
      by simp
    have "inside (Suc (dist v))"
      using inside_le [OF reach(2)] lt by simp
    with cov x have "(x, Suc (dist v)) \<in> set ((j, k) # q)"
      unfolding covered_def by blast
    from queue_head_least [OF lev this] lt show False
      by simp
  next
    case False
    with cov have "(s, 0) \<in> set ((j, k) # q)"
      unfolding covered_def by blast
    from queue_head_least [OF lev this] less show False
      by simp
  qed
qed

lemma levels_tl: "levels (x # q) \<Longrightarrow> levels q"
  by (simp add: levels_def)

lemma inv_skip:
  assumes "inv V ((j, k) # q)" "j \<in> V"
  shows "inv V q"
proof -
  have "levels q"
    using assms(1) levels_tl unfolding inv_def by blast
  moreover have "settled V (set q)"
    using assms(1) unfolding inv_def settled_def by simp
  moreover have "covered V (set q)"
    using assms unfolding inv_def covered_def by (metis fst_conv set_ConsD)
  ultimately show ?thesis
    by (simp only: inv_def)
qed

text \<open>
  Expanding a new node: it becomes visited, and the pushed entries are successors one level further,
  among them every successor that is not visited. Beyond the bound nothing is pushed.
\<close>

lemma inv_expand:
  assumes inv: "inv V ((j, k) # q)" and new: "j \<notin> V"
    and sound: "\<And>w l. (w, l) \<in> set ps \<Longrightarrow> R j w \<and> l = Suc k \<and> inside (Suc k)"
    and complete: "\<And>w. R j w \<Longrightarrow> inside (Suc k) \<Longrightarrow> w \<notin> insert j V \<Longrightarrow> (w, Suc k) \<in> set ps"
  shows "inv (insert j V) (q @ ps)"
proof -
  have lev: "levels ((j, k) # q)" and set: "settled V (set ((j, k) # q))"
    and cov: "covered V (set ((j, k) # q))"
    using inv by (simp_all only: inv_def)
  have dj: "dist j = k"
    using inv new by (rule pop_dist)
  have le: "\<forall>x \<in> set q. k \<le> snd x \<and> snd x \<le> Suc k" "(R ^^ k) s j" "inside k"
    using lev by (auto simp: levels_def)
  have ps: "\<forall>x \<in> set ps. snd x = Suc k \<and> (R ^^ Suc k) s (fst x) \<and> inside (Suc k)"
    using sound le(2) relpowp_Suc_I [of k R s j] by fastforce
  have all: "k \<le> snd x \<and> snd x \<le> Suc k \<and> (R ^^ snd x) s (fst x) \<and> inside (snd x)" if "x \<in> set (q @ ps)" for x
    using that
  proof (unfold set_append, elim UnE)
    assume "x \<in> set q"
    with le(1) lev show ?thesis
      unfolding levels_def by simp
  next
    assume "x \<in> set ps"
    with ps have "snd x = Suc k" "(R ^^ Suc k) s (fst x)" "inside (Suc k)"
      by blast+
    then show ?thesis
      by simp
  qed
  have "sorted (map snd (q @ ps))"
  proof -
    have "sorted (map snd q)" "\<forall>x \<in> set q. \<forall>y \<in> set ps. snd x \<le> snd y"
      using lev le(1) ps by (auto simp: levels_def)
    moreover have "sorted (map snd ps)"
      using ps by (induction ps) auto
    ultimately show ?thesis
      by (auto simp: sorted_append)
  qed
  moreover have "snd x \<le> Suc (snd y)" if "x \<in> set (q @ ps)" "y \<in> set (q @ ps)" for x y
    using all [OF that(1)] all [OF that(2)] by linarith
  ultimately have "levels (q @ ps)"
    using all unfolding levels_def by blast
  moreover have "settled (insert j V) (set (q @ ps))"
  proof -
    have "dist v \<le> snd y" if "v \<in> V" "y \<in> set (q @ ps)" for v y
    proof -
      from set that(1) have "dist v \<le> k"
        by (simp add: settled_def)
      with all [OF that(2)] show ?thesis
        by linarith
    qed
    with set le(2,3) dj all show ?thesis
      unfolding settled_def by simp
  qed
  moreover have "covered (insert j V) (set (q @ ps))"
    unfolding covered_def
  proof (intro conjI ballI allI impI)
    fix v w assume v: "v \<in> insert j V" "R v w" "inside (Suc (dist v))"
    show "w \<in> insert j V \<or> (w, Suc (dist v)) \<in> set (q @ ps)"
    proof (cases "v = j")
      case True
      with v complete [of w] dj show ?thesis
        by auto
    next
      case False
      with v cov have "w \<in> V \<or> (w, Suc (dist v)) \<in> set ((j, k) # q)"
        unfolding covered_def by blast
      then show ?thesis
        by auto
    qed
  next
    show "s \<in> insert j V \<or> (s, 0) \<in> set (q @ ps)"
      using cov unfolding covered_def by auto
  qed
  ultimately show ?thesis
    by (simp only: inv_def)
qed

text \<open>With an empty queue the visited nodes are the nodes within the bound.\<close>

lemma inv_done:
  assumes "inv V []"
  shows "V = {j. \<exists>n. (R ^^ n) s j \<and> inside n}"
proof (intro set_eqI iffI)
  fix j assume "j \<in> V"
  with assms show "j \<in> {j. \<exists>n. (R ^^ n) s j \<and> inside n}"
    unfolding inv_def settled_def by auto
next
  fix j assume "j \<in> {j. \<exists>n. (R ^^ n) s j \<and> inside n}"
  then obtain n where n: "(R ^^ n) s j" "inside n"
    by auto
  show "j \<in> V"
  proof (rule ccontr)
    assume out: "j \<notin> V"
    have "s \<in> V"
      using assms by (simp add: inv_def covered_def)
    from first_outside [OF n(1) this out] obtain m v x where
      x: "m < n" "(R ^^ m) s v" "v \<in> V" "R v x" "x \<notin> V"
      by metis
    have "dist v \<le> m"
      using x(2) by (rule hop_dist_le)
    with x(1) have "inside (Suc (dist v))"
      using inside_le [OF n(2)] by simp
    with assms x show False
      by (auto simp: inv_def covered_def)
  qed
qed

text \<open>Nothing outside the queue and the visited nodes can be closer than the head of the queue.\<close>

lemma unreached:
  assumes "inv V []" "j \<notin> V" "inside n"
  shows "\<not> (R ^^ n) s j"
  using assms inv_done by blast

end

end
