(* ===== verification/Exploration.thy ===== *)
theory Exploration
  imports Prelude
begin

text \<open>
  What a recursive walk with a set of visited nodes computes, independent of any program. A call leads
  from visited nodes \<open>V\<close> to visited nodes \<open>V'\<close>; the locale \<open>exploration\<close> relates the two for one call,
  for a sequence of calls and for the outermost call. Theory \<open>TraversalLaws\<close> interprets it on the
  depth-first traversal and the type-hierarchy walks.
\<close>

locale exploration =
  fixes R :: "'a \<Rightarrow> 'a \<Rightarrow> bool"
begin

text \<open>
  Every newly visited node is reachable from \<open>i\<close>, and all its successors are visited: only nodes that
  were visited before the call may be unfinished.
\<close>

definition grown :: "'a \<Rightarrow> 'a set \<Rightarrow> 'a set \<Rightarrow> bool" where
  "grown i V V' \<longleftrightarrow> V \<subseteq> V' \<and> (\<forall>v \<in> V' - V. R\<^sup>*\<^sup>* i v \<and> (\<forall>w. R v w \<longrightarrow> w \<in> V'))"

lemma grown_mono: "grown i V V' \<Longrightarrow> V \<subseteq> V'"
  by (simp add: grown_def)

lemma grown_refl: "grown i V V"
  by (simp add: grown_def)

lemma grown_trans: "grown i V V1 \<Longrightarrow> grown i V1 V2 \<Longrightarrow> grown i V V2"
  unfolding grown_def by blast

lemma grown_call: "R i j \<Longrightarrow> grown j V V' \<Longrightarrow> grown i V V'"
  unfolding grown_def by (blast intro: converse_rtranclp_into_rtranclp)

lemma grown_visit: "grown i (insert i V) V' \<Longrightarrow> (\<And>w. R i w \<Longrightarrow> w \<in> V') \<Longrightarrow> grown i V V'"
  unfolding grown_def by blast

text \<open>The outermost call visits exactly what is reachable.\<close>

lemma grown_all:
  assumes "grown s {} V" "s \<in> V"
  shows "V = {j. R\<^sup>*\<^sup>* s j}"
proof (intro set_eqI iffI)
  fix j assume "j \<in> V"
  with assms(1) show "j \<in> {j. R\<^sup>*\<^sup>* s j}"
    unfolding grown_def by blast
next
  fix j assume "j \<in> {j. R\<^sup>*\<^sup>* s j}"
  then have "R\<^sup>*\<^sup>* s j"
    by simp
  then show "j \<in> V"
    using assms by (induction rule: rtranclp_induct) (auto simp: grown_def)
qed

text \<open>A relation walked in two calls, the second starting from what the first visited.\<close>

lemma grown_reach: "grown i V V' \<Longrightarrow> v \<in> V' \<Longrightarrow> v \<in> V \<or> R\<^sup>*\<^sup>* i v"
  unfolding grown_def by blast

end

end
