(* ===== verification/Traversal.thy ===== *)
theory Traversal
  imports GraphStore
begin

text \<open>
  \<open>GraphTraverser\<close> of \<open>codegraph/src/graph/traversal.ts\<close>. The traverser only reads through the query
  builder, and every cached read returns the current row (theory \<open>GraphStore\<close>), so the operations
  take the database and use its point lookup \<open>node_at\<close>. A \<open>Set\<close> whose order is never observed is a
  set. Each recursive operation and its \<open>for\<close> loop over edges are two mutually recursive functions on
  the mutable arguments \<open>nodes\<close>, \<open>edges\<close> and \<open>visited\<close> (record \<open>trav\<close>).
\<close>

section \<open>Shared helpers\<close>

definition DEFAULT_OPTIONS :: traversal_options where
  "DEFAULT_OPTIONS =
     \<lparr>o_maxDepth = None, o_edgeKinds = [], o_nodeKinds = [], o_direction = Outgoing, o_limit = 1000,
      o_includeStart = True\<rparr>"

definition empty_subgraph :: subgraph where
  "empty_subgraph = \<lparr>g_nodes = [], g_edges = [], g_roots = []\<rparr>"

definition getAdjacentEdges :: "db \<Rightarrow> string \<Rightarrow> direction \<Rightarrow> edge_kind list \<Rightarrow> edge list" where
  "getAdjacentEdges d nodeId dir kinds =
     (case dir of
        Outgoing \<Rightarrow> getOutgoingEdges nodeId kinds None d
      | Incoming \<Rightarrow> getIncomingEdges nodeId kinds d
      | Both \<Rightarrow> getOutgoingEdges nodeId kinds None d @ getIncomingEdges nodeId kinds d)"

text \<open>The endpoint the traversal goes to next.\<close>

definition other_end :: "string \<Rightarrow> edge \<Rightarrow> string" where
  "other_end nodeId e = (if e_source e = nodeId then e_target e else e_source e)"

text \<open>\<open>getNodesByIds(ids).get(id)\<close>: only requested ids are in the map.\<close>

definition fetched :: "db \<Rightarrow> string list \<Rightarrow> string \<Rightarrow> node option" where
  "fetched d ids i = (if i \<in> set ids then node_at d i else None)"

definition at_depth_limit :: "traversal_options \<Rightarrow> nat \<Rightarrow> bool" where
  "at_depth_limit opts depth = (case o_maxDepth opts of None \<Rightarrow> False | Some m \<Rightarrow> m \<le> depth)"

definition kind_wanted :: "traversal_options \<Rightarrow> node_kind \<Rightarrow> bool" where
  "kind_wanted opts k = (o_nodeKinds opts = [] \<or> k \<in> set (o_nodeKinds opts))"

lemma fetched_Some: "fetched d ids i = Some n \<Longrightarrow> node_at d i = Some n"
  by (simp add: fetched_def split: if_splits)

lemma fetched_id: "fetched d ids i = Some n \<Longrightarrow> n_id n = i \<and> i \<in> node_ids d"
  using node_at_ids [of d i] by (auto dest!: fetched_Some simp: node_at_id)

lemma finite_node_ids [simp]: "finite (node_ids d)"
  by simp

section \<open>Breadth-first traversal\<close>

record trav_step =
  s_node :: node
  s_edge :: "edge option"
  s_depth :: nat

definition edge_priority :: "edge \<Rightarrow> nat" where
  "edge_priority e = (case e_kind e of EK_contains \<Rightarrow> 0 | EK_calls \<Rightarrow> 1 | _ \<Rightarrow> 2)"

text \<open>The loop over the sorted adjacent edges of one popped node.\<close>

fun bfs_edges :: "traversal_options \<Rightarrow> (string \<Rightarrow> node option) \<Rightarrow> string set \<Rightarrow> string \<Rightarrow> nat \<Rightarrow> edge list
    \<Rightarrow> (string, node) jmap \<times> trav_step list \<Rightarrow> (string, node) jmap \<times> trav_step list" where
  "bfs_edges opts neighborNodes visited nodeId depth [] st = st"
| "bfs_edges opts neighborNodes visited nodeId depth (adjEdge # es) (nodes, queue) =
     (let nextNodeId = other_end nodeId adjEdge in
      bfs_edges opts neighborNodes visited nodeId depth es
        (if nextNodeId \<in> visited then (nodes, queue)
         else (case neighborNodes nextNodeId of
                 None \<Rightarrow> (nodes, queue)
               | Some nextNode \<Rightarrow>
                   if \<not> kind_wanted opts (n_kind nextNode) then (nodes, queue)
                   else (map_set (n_id nextNode) nextNode nodes,
                         queue @ [\<lparr>s_node = nextNode, s_edge = Some adjEdge, s_depth = depth + 1\<rparr>]))))"

text \<open>The step an adjacent edge gives, if any, and the loop as an append of those steps.\<close>

definition next_step :: "traversal_options \<Rightarrow> (string \<Rightarrow> node option) \<Rightarrow> string set \<Rightarrow> string \<Rightarrow> nat \<Rightarrow> edge
    \<Rightarrow> trav_step option" where
  "next_step opts neighborNodes visited nodeId depth e =
     (if other_end nodeId e \<in> visited then None
      else (case neighborNodes (other_end nodeId e) of
              None \<Rightarrow> None
            | Some n \<Rightarrow> if kind_wanted opts (n_kind n)
                        then Some \<lparr>s_node = n, s_edge = Some e, s_depth = depth + 1\<rparr> else None))"

definition store_step_node :: "trav_step \<Rightarrow> (string, node) jmap \<Rightarrow> (string, node) jmap" where
  "store_step_node s nodes = map_set (n_id (s_node s)) (s_node s) nodes"

lemma bfs_edges_eq:
  "bfs_edges opts nb visited i depth es (nodes, queue) =
     (let steps = List.map_filter (next_step opts nb visited i depth) es
      in (fold store_step_node steps nodes, queue @ steps))"
proof (induction es arbitrary: nodes queue)
  case (Cons e es)
  show ?case
  proof (cases "next_step opts nb visited i depth e")
    case None
    then have "bfs_edges opts nb visited i depth (e # es) (nodes, queue) =
        bfs_edges opts nb visited i depth es (nodes, queue)"
      by (auto simp: next_step_def Let_def split: if_splits option.splits)
    with None Cons show ?thesis
      by (simp add: map_filter_simps)
  next
    case (Some s)
    then have "bfs_edges opts nb visited i depth (e # es) (nodes, queue) =
        bfs_edges opts nb visited i depth es (store_step_node s nodes, queue @ [s])"
      by (auto simp: next_step_def store_step_node_def Let_def split: if_splits option.splits)
    with Some Cons show ?thesis
      by (simp add: map_filter_simps Let_def)
  qed
qed (simp add: map_filter_simps)

lemma set_map_filter: "set (List.map_filter f xs) = {y. \<exists>x \<in> set xs. f x = Some y}"
  by (induction xs) (auto simp: map_filter_simps split: option.splits)

lemma next_step_stored:
  "next_step opts (fetched d ids) visited i depth e = Some s \<Longrightarrow> n_id (s_node s) \<in> node_ids d"
  by (auto simp: next_step_def dest: fetched_id split: if_splits option.splits)

text \<open>The main loop; its state is the queue and the three accumulators.\<close>

record bfs_state =
  b_queue :: "trav_step list"
  b_nodes :: "(string, node) jmap"
  b_edges :: "edge list"
  b_visited :: "string set"

definition push_edge :: "edge option \<Rightarrow> edge list \<Rightarrow> edge list" where
  "push_edge e edges = (case e of Some x \<Rightarrow> edges @ [x] | None \<Rightarrow> edges)"

text \<open>Expanding a popped node: fetch the unvisited neighbours of its sorted adjacent edges.\<close>

definition bfs_expand :: "db \<Rightarrow> traversal_options \<Rightarrow> node \<Rightarrow> nat \<Rightarrow> bfs_state \<Rightarrow> bfs_state" where
  "bfs_expand d opts n depth st =
     (let adjacentEdges = sort_key edge_priority
            (getAdjacentEdges d (n_id n) (o_direction opts) (o_edgeKinds opts));
          wantIds = filter (\<lambda>i. i \<notin> b_visited st) (map (other_end (n_id n)) adjacentEdges);
          neighborNodes = fetched d wantIds;
          (nodes, queue) = bfs_edges opts neighborNodes (b_visited st) (n_id n) depth adjacentEdges
            (b_nodes st, b_queue st)
      in st\<lparr>b_nodes := nodes, b_queue := queue\<rparr>)"

text \<open>One iteration of the loop body, on the popped step.\<close>

definition bfs_visit :: "db \<Rightarrow> traversal_options \<Rightarrow> trav_step \<Rightarrow> bfs_state \<Rightarrow> bfs_state" where
  "bfs_visit d opts s st =
     (if n_id (s_node s) \<in> b_visited st then st
      else (let st' = st\<lparr>b_visited := insert (n_id (s_node s)) (b_visited st),
                          b_edges := push_edge (s_edge s) (b_edges st)\<rparr>
            in if at_depth_limit opts (s_depth s) then st'
               else bfs_expand d opts (s_node s) (s_depth s) st'))"

text \<open>What the expansion adds, in terms of the steps.\<close>

definition expand_steps :: "db \<Rightarrow> traversal_options \<Rightarrow> node \<Rightarrow> nat \<Rightarrow> string set \<Rightarrow> trav_step list" where
  "expand_steps d opts n depth visited =
     (let es = sort_key edge_priority (getAdjacentEdges d (n_id n) (o_direction opts) (o_edgeKinds opts));
          wantIds = filter (\<lambda>i. i \<notin> visited) (map (other_end (n_id n)) es)
      in List.map_filter (next_step opts (fetched d wantIds) visited (n_id n) depth) es)"

lemma bfs_expand_eq:
  "bfs_expand d opts n depth st =
     (let steps = expand_steps d opts n depth (b_visited st)
      in st\<lparr>b_nodes := fold store_step_node steps (b_nodes st), b_queue := b_queue st @ steps\<rparr>)"
  by (simp add: bfs_expand_def expand_steps_def bfs_edges_eq Let_def)

lemma expand_steps_stored: "s \<in> set (expand_steps d opts n depth V) \<Longrightarrow> n_id (s_node s) \<in> node_ids d"
  unfolding expand_steps_def Let_def set_map_filter by (auto dest: next_step_stored)

definition bfs_pending :: "db \<Rightarrow> bfs_state \<Rightarrow> nat" where
  "bfs_pending d st = card ((node_ids d \<union> (\<lambda>s. n_id (s_node s)) ` set (b_queue st)) - b_visited st)"

lemma bfs_pending_visit:
  assumes "n_id (s_node s) \<notin> b_visited st"
  shows "bfs_pending d (bfs_visit d opts s (st\<lparr>b_queue := q\<rparr>)) < bfs_pending d (st\<lparr>b_queue := s # q\<rparr>)"
proof -
  let ?i = "n_id (s_node s)" and ?ids = "(\<lambda>s. n_id (s_node s)) ` set q"
  let ?st = "bfs_visit d opts s (st\<lparr>b_queue := q\<rparr>)"
  have "(node_ids d \<union> (\<lambda>s. n_id (s_node s)) ` set (b_queue ?st)) - b_visited ?st
      \<subseteq> (node_ids d \<union> ?ids) - insert ?i (b_visited st)"
    using assms expand_steps_stored by (auto simp: bfs_visit_def bfs_expand_eq Let_def)
  also have "\<dots> \<subset> (node_ids d \<union> insert ?i ?ids) - b_visited st"
    using assms by auto
  finally show ?thesis
    unfolding bfs_pending_def by (intro psubset_card_mono) auto
qed

function bfs_loop :: "db \<Rightarrow> traversal_options \<Rightarrow> bfs_state \<Rightarrow> bfs_state" where
  "bfs_loop d opts st =
     (case b_queue st of
        [] \<Rightarrow> st
      | s # rest \<Rightarrow>
          if length (b_nodes st) < o_limit opts
          then bfs_loop d opts (bfs_visit d opts s (st\<lparr>b_queue := rest\<rparr>))
          else st)"
  by pat_completeness auto
termination
proof (relation "measures [\<lambda>(d, opts, st). bfs_pending d st, \<lambda>(d, opts, st). length (b_queue st)]", goal_cases)
  case (2 d opts st s rest)
  then have st: "st = st\<lparr>b_queue := s # rest\<rparr>"
    by simp
  show ?case
  proof (cases "n_id (s_node s) \<in> b_visited st")
    case True
    then have "bfs_visit d opts s (st\<lparr>b_queue := rest\<rparr>) = st\<lparr>b_queue := rest\<rparr>"
      by (simp add: bfs_visit_def)
    moreover have "bfs_pending d (st\<lparr>b_queue := rest\<rparr>) \<le> bfs_pending d st"
      using 2 unfolding bfs_pending_def by (intro card_mono) auto
    ultimately show ?thesis
      using 2 by auto
  next
    case False
    from bfs_pending_visit [OF this, of d opts rest] st show ?thesis
      by simp
  qed
qed simp

declare bfs_loop.simps [simp del]

definition traverseBFS :: "db \<Rightarrow> string \<Rightarrow> traversal_options \<Rightarrow> subgraph" where
  "traverseBFS d startId opts =
     (case node_at d startId of
        None \<Rightarrow> empty_subgraph
      | Some startNode \<Rightarrow>
          (let st = bfs_loop d opts
                 \<lparr>b_queue = [\<lparr>s_node = startNode, s_edge = None, s_depth = 0\<rparr>],
                  b_nodes = (if o_includeStart opts then [(n_id startNode, startNode)] else []),
                  b_edges = [], b_visited = {}\<rparr>
           in \<lparr>g_nodes = b_nodes st, g_edges = b_edges st, g_roots = [startId]\<rparr>))"

section \<open>Depth-first traversal\<close>

record trav =
  tv_nodes :: "(string, node) jmap"
  tv_edges :: "edge list"
  tv_visited :: "string set"

abbreviation tv_mark :: "string \<Rightarrow> trav \<Rightarrow> trav" where
  "tv_mark i st \<equiv> st\<lparr>tv_visited := insert i (tv_visited st)\<rparr>"

text \<open>\<open>nodes.set(n.id, n); edges.push(e)\<close>.\<close>

definition tv_record :: "node \<Rightarrow> edge \<Rightarrow> trav \<Rightarrow> trav" where
  "tv_record n e st = st\<lparr>tv_nodes := map_set (n_id n) n (tv_nodes st), tv_edges := tv_edges st @ [e]\<rparr>"

lemma tv_record_visited [simp]: "tv_visited (tv_record n e st) = tv_visited st"
  by (simp add: tv_record_def)

function dfsRecursive :: "db \<Rightarrow> traversal_options \<Rightarrow> node \<Rightarrow> nat \<Rightarrow> trav \<Rightarrow> trav"
  and dfs_edges :: "db \<Rightarrow> traversal_options \<Rightarrow> string \<Rightarrow> nat \<Rightarrow> string list \<Rightarrow> edge list \<Rightarrow> trav \<Rightarrow> trav" where
  "dfsRecursive d opts n depth st =
     (if n_id n \<in> tv_visited st \<or> o_limit opts \<le> length (tv_nodes st) \<or> at_depth_limit opts depth then st
      else (let st' = tv_mark (n_id n) st;
                adjacentEdges = getAdjacentEdges d (n_id n) (o_direction opts) (o_edgeKinds opts);
                wantIds = filter (\<lambda>i. i \<notin> tv_visited st') (map (other_end (n_id n)) adjacentEdges)
            in dfs_edges d opts (n_id n) depth wantIds adjacentEdges st'))"
| "dfs_edges d opts nodeId depth wantIds [] st = st"
| "dfs_edges d opts nodeId depth wantIds (e # es) st =
     (let nextNodeId = other_end nodeId e in
      dfs_edges d opts nodeId depth wantIds es
        (if nextNodeId \<in> tv_visited st then st
         else (case fetched d wantIds nextNodeId of
                 None \<Rightarrow> st
               | Some nextNode \<Rightarrow>
                   if \<not> kind_wanted opts (n_kind nextNode) then st
                   else dfsRecursive d opts nextNode (depth + 1) (tv_record nextNode e st))))"
  by pat_completeness auto

lemma dfs_grows:
  "dfsRecursive_dfs_edges_dom (Inl (d, opts, n, depth, st)) \<Longrightarrow>
     tv_visited st \<subseteq> tv_visited (dfsRecursive d opts n depth st)"
  "dfsRecursive_dfs_edges_dom (Inr (d, opts, i, depth, wantIds, es, st)) \<Longrightarrow>
     tv_visited st \<subseteq> tv_visited (dfs_edges d opts i depth wantIds es st)"
proof (induction d opts n depth st and d opts i depth wantIds es st
    rule: dfsRecursive_dfs_edges.pinduct)
  case (1 d opts n depth st)
  show ?case
  proof (cases "n_id n \<in> tv_visited st \<or> o_limit opts \<le> length (tv_nodes st) \<or> at_depth_limit opts depth")
    case False
    from "1.IH" [OF False refl refl refl] show ?thesis
      using 1(1) False by (subst dfsRecursive.psimps) (auto simp: Let_def)
  qed (use 1(1) in \<open>simp add: dfsRecursive.psimps\<close>)
next
  case (2 d opts i depth wantIds st)
  then show ?case
    by (simp add: dfs_edges.psimps)
next
  case (3 d opts i depth wantIds e es st)
  show ?case
  proof (cases "other_end i e \<in> tv_visited st \<or> fetched d wantIds (other_end i e) = None \<or>
      \<not> kind_wanted opts (n_kind (the (fetched d wantIds (other_end i e))))")
    case True
    with 3 show ?thesis
      by (auto simp: dfs_edges.psimps Let_def split: option.splits if_splits)
  next
    case False
    with 3 show ?thesis
      by (auto simp: dfs_edges.psimps Let_def split: option.splits)
  qed
qed

text \<open>The unvisited nodes still to come.\<close>

abbreviation dfs_measure :: "(db \<times> traversal_options \<times> node \<times> nat \<times> trav) +
    (db \<times> traversal_options \<times> string \<times> nat \<times> string list \<times> edge list \<times> trav) \<Rightarrow> nat" where
  "dfs_measure \<equiv> case_sum
     (\<lambda>(d, opts, n, depth, st). card (insert (n_id n) (node_ids d) - tv_visited st))
     (\<lambda>(d, opts, i, depth, wantIds, es, st). card (node_ids d - tv_visited st))"

abbreviation dfs_rank :: "(db \<times> traversal_options \<times> node \<times> nat \<times> trav) +
    (db \<times> traversal_options \<times> string \<times> nat \<times> string list \<times> edge list \<times> trav) \<Rightarrow> nat" where
  "dfs_rank \<equiv> case_sum (\<lambda>_. 0) (\<lambda>(d, opts, i, depth, wantIds, es, st). Suc (length es))"

lemma card_unvisited_mono: "V \<subseteq> W \<Longrightarrow> card (node_ids d - W) \<le> card (node_ids d - V)"
  by (intro card_mono) auto

lemma card_visit_less: "i \<notin> V \<Longrightarrow> card (node_ids d - insert i V) < card (insert i (node_ids d) - V)"
  by (intro psubset_card_mono) auto

termination dfsRecursive
proof (relation "measures [dfs_measure, dfs_rank]", goal_cases)
  case (2 d opts n depth st st' adjacentEdges wantIds)
  then show ?case
    by (simp add: card_visit_less)
next
  case (3 d opts i depth wantIds e es st nextNodeId nextNode)
  then have "insert (n_id nextNode) (node_ids d) = node_ids d"
    by (auto dest: fetched_id)
  then show ?case
    by simp
next
  case (4 d opts i depth wantIds e es st nextNodeId)
  have "tv_visited st \<subseteq> tv_visited
     (if nextNodeId \<in> tv_visited st then st
      else (case fetched d wantIds nextNodeId of
              None \<Rightarrow> st
            | Some nextNode \<Rightarrow>
                if \<not> kind_wanted opts (n_kind nextNode) then st
                else dfsRecursive d opts nextNode (depth + 1) (tv_record nextNode e st)))"
    using 4 dfs_grows(1) by (fastforce split: option.splits)
  then show ?case
    using card_unvisited_mono by (simp add: le_eq_less_or_eq)
qed simp

declare dfsRecursive.simps [simp del]

definition traverseDFS :: "db \<Rightarrow> string \<Rightarrow> traversal_options \<Rightarrow> subgraph" where
  "traverseDFS d startId opts =
     (case node_at d startId of
        None \<Rightarrow> empty_subgraph
      | Some startNode \<Rightarrow>
          (let st = dfsRecursive d opts startNode 0
                 \<lparr>tv_nodes = (if o_includeStart opts then [(n_id startNode, startNode)] else []),
                  tv_edges = [], tv_visited = {}\<rparr>
           in \<lparr>g_nodes = tv_nodes st, g_edges = tv_edges st, g_roots = [startId]\<rparr>))"

section \<open>Callers and callees\<close>

record walk =
  w_result :: "(node \<times> edge) list"
  w_visited :: "string set"

definition CALL_KINDS :: "edge_kind list" where
  "CALL_KINDS = [EK_calls, EK_references, EK_imports]"

text \<open>
  \<open>getCallersRecursive\<close> and \<open>getCalleesRecursive\<close>; the depth goes up on each call, so the recursion
  ends whatever \<open>visited\<close> holds.
\<close>

function getCallersRecursive :: "db \<Rightarrow> string \<Rightarrow> nat \<Rightarrow> nat \<Rightarrow> walk \<Rightarrow> walk"
  and callers_loop :: "db \<Rightarrow> nat \<Rightarrow> nat \<Rightarrow> string list \<Rightarrow> edge list \<Rightarrow> walk \<Rightarrow> walk" where
  "getCallersRecursive d nodeId maxDepth currentDepth w =
     (if maxDepth \<le> currentDepth \<or> nodeId \<in> w_visited w then w
      else (let w' = w\<lparr>w_visited := insert nodeId (w_visited w)\<rparr>;
                incomingEdges = getIncomingEdges nodeId CALL_KINDS d
            in callers_loop d maxDepth currentDepth (map e_source incomingEdges) incomingEdges w'))"
| "callers_loop d maxDepth currentDepth sourceIds [] w = w"
| "callers_loop d maxDepth currentDepth sourceIds (e # es) w =
     callers_loop d maxDepth currentDepth sourceIds es
       (case fetched d sourceIds (e_source e) of
          None \<Rightarrow> w
        | Some callerNode \<Rightarrow>
            if n_id callerNode \<in> w_visited w then w
            else getCallersRecursive d (n_id callerNode) maxDepth (currentDepth + 1)
                   (w\<lparr>w_result := w_result w @ [(callerNode, e)]\<rparr>))"
  by pat_completeness auto
termination
  by (relation "measures [case_sum (\<lambda>(d, i, m, c, w). 2 * (m - c)) (\<lambda>(d, m, c, is, es, w). 2 * (m - c) - 1),
        case_sum (\<lambda>_. 0) (\<lambda>(d, m, c, is, es, w). Suc (length es))]") auto

declare getCallersRecursive.simps [simp del]

definition getCallers :: "db \<Rightarrow> string \<Rightarrow> nat \<Rightarrow> (node \<times> edge) list" where
  "getCallers d nodeId maxDepth =
     w_result (getCallersRecursive d nodeId maxDepth 0 \<lparr>w_result = [], w_visited = {}\<rparr>)"

function getCalleesRecursive :: "db \<Rightarrow> string \<Rightarrow> nat \<Rightarrow> nat \<Rightarrow> walk \<Rightarrow> walk"
  and callees_loop :: "db \<Rightarrow> nat \<Rightarrow> nat \<Rightarrow> string list \<Rightarrow> edge list \<Rightarrow> walk \<Rightarrow> walk" where
  "getCalleesRecursive d nodeId maxDepth currentDepth w =
     (if maxDepth \<le> currentDepth \<or> nodeId \<in> w_visited w then w
      else (let w' = w\<lparr>w_visited := insert nodeId (w_visited w)\<rparr>;
                outgoingEdges = getOutgoingEdges nodeId CALL_KINDS None d
            in callees_loop d maxDepth currentDepth (map e_target outgoingEdges) outgoingEdges w'))"
| "callees_loop d maxDepth currentDepth targetIds [] w = w"
| "callees_loop d maxDepth currentDepth targetIds (e # es) w =
     callees_loop d maxDepth currentDepth targetIds es
       (case fetched d targetIds (e_target e) of
          None \<Rightarrow> w
        | Some calleeNode \<Rightarrow>
            if n_id calleeNode \<in> w_visited w then w
            else getCalleesRecursive d (n_id calleeNode) maxDepth (currentDepth + 1)
                   (w\<lparr>w_result := w_result w @ [(calleeNode, e)]\<rparr>))"
  by pat_completeness auto
termination
  by (relation "measures [case_sum (\<lambda>(d, i, m, c, w). 2 * (m - c)) (\<lambda>(d, m, c, is, es, w). 2 * (m - c) - 1),
        case_sum (\<lambda>_. 0) (\<lambda>(d, m, c, is, es, w). Suc (length es))]") auto

declare getCalleesRecursive.simps [simp del]

definition getCallees :: "db \<Rightarrow> string \<Rightarrow> nat \<Rightarrow> (node \<times> edge) list" where
  "getCallees d nodeId maxDepth =
     w_result (getCalleesRecursive d nodeId maxDepth 0 \<lparr>w_result = [], w_visited = {}\<rparr>)"

text \<open>The loop \<open>for (const { node, edge } of xs) { nodes.set(node.id, node); edges.push(edge); }\<close>.\<close>

fun add_pairs :: "(node \<times> edge) list \<Rightarrow> (string, node) jmap \<times> edge list \<Rightarrow> (string, node) jmap \<times> edge list" where
  "add_pairs [] acc = acc"
| "add_pairs ((n, e) # ps) (nodes, edges) = add_pairs ps (map_set (n_id n) n nodes, edges @ [e])"

definition getCallGraph :: "db \<Rightarrow> string \<Rightarrow> nat \<Rightarrow> subgraph" where
  "getCallGraph d nodeId depth =
     (case node_at d nodeId of
        None \<Rightarrow> empty_subgraph
      | Some focalNode \<Rightarrow>
          (let (nodes, edges) = add_pairs (getCallees d nodeId depth)
                 (add_pairs (getCallers d nodeId depth) ([(n_id focalNode, focalNode)], []))
           in \<lparr>g_nodes = nodes, g_edges = edges, g_roots = [nodeId]\<rparr>))"

section \<open>Type hierarchy\<close>

definition TYPE_KINDS :: "edge_kind list" where
  "TYPE_KINDS = [EK_extends, EK_implements]"

function getTypeAncestors :: "db \<Rightarrow> string \<Rightarrow> trav \<Rightarrow> trav"
  and ancestors_loop :: "db \<Rightarrow> string list \<Rightarrow> edge list \<Rightarrow> trav \<Rightarrow> trav" where
  "getTypeAncestors d nodeId st =
     (if nodeId \<in> tv_visited st then st
      else (let outgoingEdges = getOutgoingEdges nodeId TYPE_KINDS None d
            in ancestors_loop d (map e_target outgoingEdges) outgoingEdges (tv_mark nodeId st)))"
| "ancestors_loop d targetIds [] st = st"
| "ancestors_loop d targetIds (e # es) st =
     ancestors_loop d targetIds es
       (case fetched d targetIds (e_target e) of
          None \<Rightarrow> st
        | Some parentNode \<Rightarrow>
            if map_has (tv_nodes st) (n_id parentNode) then st
            else getTypeAncestors d (n_id parentNode) (tv_record parentNode e st))"
  by pat_completeness auto

lemma ancestors_grow:
  "getTypeAncestors_ancestors_loop_dom (Inl (d, i, st)) \<Longrightarrow> tv_visited st \<subseteq> tv_visited (getTypeAncestors d i st)"
  "getTypeAncestors_ancestors_loop_dom (Inr (d, is, es, st)) \<Longrightarrow>
     tv_visited st \<subseteq> tv_visited (ancestors_loop d is es st)"
proof (induction d i st and d "is" es st rule: getTypeAncestors_ancestors_loop.pinduct)
  case (1 d i st)
  then show ?case
    by (cases "i \<in> tv_visited st") (auto simp: getTypeAncestors.psimps Let_def)
next
  case (3 d "is" e es st)
  then show ?case
    by (fastforce simp: ancestors_loop.psimps split: option.splits if_splits)
qed (simp add: ancestors_loop.psimps)

abbreviation type_measure :: "(db \<times> string \<times> trav) + (db \<times> string list \<times> edge list \<times> trav) \<Rightarrow> nat" where
  "type_measure \<equiv> case_sum (\<lambda>(d, i, st). card (insert i (node_ids d) - tv_visited st))
     (\<lambda>(d, is, es, st). card (node_ids d - tv_visited st))"

abbreviation type_rank :: "(db \<times> string \<times> trav) + (db \<times> string list \<times> edge list \<times> trav) \<Rightarrow> nat" where
  "type_rank \<equiv> case_sum (\<lambda>_. 0) (\<lambda>(d, is, es, st). Suc (length es))"

termination getTypeAncestors
proof (relation "measures [type_measure, type_rank]", goal_cases)
  case (2 d i st outgoingEdges)
  then show ?case
    by (simp add: card_visit_less)
next
  case (3 d "is" e es st parentNode)
  then have "insert (n_id parentNode) (node_ids d) = node_ids d"
    by (auto dest: fetched_id)
  then show ?case
    by simp
next
  case (4 d "is" e es st)
  have "tv_visited st \<subseteq> tv_visited
     (case fetched d is (e_target e) of
        None \<Rightarrow> st
      | Some parentNode \<Rightarrow>
          if map_has (tv_nodes st) (n_id parentNode) then st
          else getTypeAncestors d (n_id parentNode) (tv_record parentNode e st))"
    using 4 ancestors_grow(1) by (fastforce split: option.splits)
  then show ?case
    using card_unvisited_mono by (simp add: le_eq_less_or_eq)
qed simp

declare getTypeAncestors.simps [simp del]

function getTypeDescendants :: "db \<Rightarrow> string \<Rightarrow> trav \<Rightarrow> trav"
  and descendants_loop :: "db \<Rightarrow> string list \<Rightarrow> edge list \<Rightarrow> trav \<Rightarrow> trav" where
  "getTypeDescendants d nodeId st =
     (if nodeId \<in> tv_visited st then st
      else (let incomingEdges = getIncomingEdges nodeId TYPE_KINDS d
            in descendants_loop d (map e_source incomingEdges) incomingEdges (tv_mark nodeId st)))"
| "descendants_loop d sourceIds [] st = st"
| "descendants_loop d sourceIds (e # es) st =
     descendants_loop d sourceIds es
       (case fetched d sourceIds (e_source e) of
          None \<Rightarrow> st
        | Some childNode \<Rightarrow>
            if map_has (tv_nodes st) (n_id childNode) then st
            else getTypeDescendants d (n_id childNode) (tv_record childNode e st))"
  by pat_completeness auto

lemma descendants_grow:
  "getTypeDescendants_descendants_loop_dom (Inl (d, i, st)) \<Longrightarrow> tv_visited st \<subseteq> tv_visited (getTypeDescendants d i st)"
  "getTypeDescendants_descendants_loop_dom (Inr (d, is, es, st)) \<Longrightarrow>
     tv_visited st \<subseteq> tv_visited (descendants_loop d is es st)"
proof (induction d i st and d "is" es st rule: getTypeDescendants_descendants_loop.pinduct)
  case (1 d i st)
  then show ?case
    by (cases "i \<in> tv_visited st") (auto simp: getTypeDescendants.psimps Let_def)
next
  case (3 d "is" e es st)
  then show ?case
    by (fastforce simp: descendants_loop.psimps split: option.splits if_splits)
qed (simp add: descendants_loop.psimps)

termination getTypeDescendants
proof (relation "measures [type_measure, type_rank]", goal_cases)
  case (2 d i st incomingEdges)
  then show ?case
    by (simp add: card_visit_less)
next
  case (3 d "is" e es st childNode)
  then have "insert (n_id childNode) (node_ids d) = node_ids d"
    by (auto dest: fetched_id)
  then show ?case
    by simp
next
  case (4 d "is" e es st)
  have "tv_visited st \<subseteq> tv_visited
     (case fetched d is (e_source e) of
        None \<Rightarrow> st
      | Some childNode \<Rightarrow>
          if map_has (tv_nodes st) (n_id childNode) then st
          else getTypeDescendants d (n_id childNode) (tv_record childNode e st))"
    using 4 descendants_grow(1) by (fastforce split: option.splits)
  then show ?case
    using card_unvisited_mono by (simp add: le_eq_less_or_eq)
qed simp

declare getTypeDescendants.simps [simp del]

text \<open>Both walks share the one \<open>visited\<close> set, which the first already marks with the focal node.\<close>

definition getTypeHierarchy :: "db \<Rightarrow> string \<Rightarrow> subgraph" where
  "getTypeHierarchy d nodeId =
     (case node_at d nodeId of
        None \<Rightarrow> empty_subgraph
      | Some focalNode \<Rightarrow>
          (let st0 = \<lparr>tv_nodes = [(n_id focalNode, focalNode)], tv_edges = [], tv_visited = {}\<rparr>;
               st1 = getTypeAncestors d nodeId st0;
               st2 = getTypeDescendants d nodeId st1
           in \<lparr>g_nodes = tv_nodes st2, g_edges = tv_edges st2, g_roots = [nodeId]\<rparr>))"

section \<open>Usages, containment\<close>

definition findUsages :: "db \<Rightarrow> string \<Rightarrow> (node \<times> edge) list" where
  "findUsages d nodeId =
     (let incomingEdges = getIncomingEdges nodeId [] d;
          sources = fetched d (map e_source incomingEdges)
      in List.map_filter (\<lambda>e. map_option (\<lambda>n. (n, e)) (sources (e_source e))) incomingEdges)"

definition getChildren :: "db \<Rightarrow> string \<Rightarrow> node list" where
  "getChildren d nodeId =
     (let containsEdges = getOutgoingEdges nodeId [EK_contains] None d;
          childNodes = fetched d (map e_target containsEdges)
      in List.map_filter (\<lambda>e. childNodes (e_target e)) containsEdges)"

text \<open>The \<open>while (true)\<close> loop; it stops at a visited id, which a containment cycle leads back to.\<close>

function ancestor_walk :: "db \<Rightarrow> string set \<Rightarrow> string \<Rightarrow> node list \<Rightarrow> node list" where
  "ancestor_walk d visited currentId ancestors =
     (if currentId \<in> visited then ancestors
      else (case getIncomingEdges currentId [EK_contains] d of
              [] \<Rightarrow> ancestors
            | firstEdge # _ \<Rightarrow>
                (case node_at d (e_source firstEdge) of
                   None \<Rightarrow> ancestors
                 | Some parentNode \<Rightarrow>
                     ancestor_walk d (insert currentId visited) (n_id parentNode) (ancestors @ [parentNode]))))"
  by pat_completeness auto
termination
proof (relation "measure (\<lambda>(d, V, i, as). card (insert i (node_ids d) - V))", goal_cases)
  case (2 d V i as firstEdge es parentNode)
  then have "n_id parentNode \<in> node_ids d"
    using node_at_ids [of d "e_source firstEdge"] by (auto simp: node_at_id)
  then have "insert (n_id parentNode) (node_ids d) = node_ids d"
    by auto
  with 2(1) show ?case
    by (simp add: card_visit_less)
qed simp

declare ancestor_walk.simps [simp del]

definition getAncestors :: "db \<Rightarrow> string \<Rightarrow> node list" where
  "getAncestors d nodeId = ancestor_walk d {} nodeId []"

section \<open>Impact radius\<close>

definition CONTAINER_KINDS :: "node_kind list" where
  "CONTAINER_KINDS =
     [NK_class, NK_interface, NK_struct, NK_trait, NK_protocol, NK_module, NK_enum]"

function getImpactRecursive :: "db \<Rightarrow> string \<Rightarrow> nat \<Rightarrow> nat \<Rightarrow> trav \<Rightarrow> trav"
  and impact_children :: "db \<Rightarrow> nat \<Rightarrow> nat \<Rightarrow> string list \<Rightarrow> edge list \<Rightarrow> trav \<Rightarrow> trav"
  and impact_sources :: "db \<Rightarrow> nat \<Rightarrow> nat \<Rightarrow> string list \<Rightarrow> edge list \<Rightarrow> trav \<Rightarrow> trav" where
  "getImpactRecursive d nodeId maxDepth currentDepth st =
     (if maxDepth \<le> currentDepth \<or> nodeId \<in> tv_visited st then st
      else (let st1 = tv_mark nodeId st;
                containsEdges = getOutgoingEdges nodeId [EK_contains] None d;
                st2 = (case node_at d nodeId of
                         None \<Rightarrow> st1
                       | Some focalNode \<Rightarrow>
                           if n_kind focalNode \<in> set CONTAINER_KINDS
                           then impact_children d maxDepth currentDepth (map e_target containsEdges) containsEdges st1
                           else st1);
                incomingEdges = filter (\<lambda>e. e_kind e \<noteq> EK_contains) (getIncomingEdges nodeId [] d)
            in impact_sources d maxDepth currentDepth (map e_source incomingEdges) incomingEdges st2))"
| "impact_children d maxDepth currentDepth targetIds [] st = st"
| "impact_children d maxDepth currentDepth targetIds (e # es) st =
     impact_children d maxDepth currentDepth targetIds es
       (case fetched d targetIds (e_target e) of
          None \<Rightarrow> st
        | Some childNode \<Rightarrow>
            if n_id childNode \<in> tv_visited st then st
            else getImpactRecursive d (n_id childNode) maxDepth currentDepth (tv_record childNode e st))"
| "impact_sources d maxDepth currentDepth sourceIds [] st = st"
| "impact_sources d maxDepth currentDepth sourceIds (e # es) st =
     impact_sources d maxDepth currentDepth sourceIds es
       (case fetched d sourceIds (e_source e) of
          None \<Rightarrow> st
        | Some sourceNode \<Rightarrow>
            if map_has (tv_nodes st) (n_id sourceNode) then st
            else getImpactRecursive d (n_id sourceNode) maxDepth (currentDepth + 1) (tv_record sourceNode e st))"
  by pat_completeness auto

lemma impact_grows:
  "getImpactRecursive_impact_children_impact_sources_dom (Inl (d, i, m, c, st)) \<Longrightarrow>
     tv_visited st \<subseteq> tv_visited (getImpactRecursive d i m c st)"
  "getImpactRecursive_impact_children_impact_sources_dom (Inr (Inl (d, m, c, is, es, st))) \<Longrightarrow>
     tv_visited st \<subseteq> tv_visited (impact_children d m c is es st)"
  "getImpactRecursive_impact_children_impact_sources_dom (Inr (Inr (d, m, c, is, es, st))) \<Longrightarrow>
     tv_visited st \<subseteq> tv_visited (impact_sources d m c is es st)"
proof (induction d i m c st and d m c "is" es st and d m c "is" es st
    rule: getImpactRecursive_impact_children_impact_sources.pinduct)
  case (1 d i m c st)
  show ?case
  proof (cases "m \<le> c \<or> i \<in> tv_visited st")
    case False
    with 1 show ?thesis
      by (subst getImpactRecursive.psimps) (force simp: Let_def split: option.splits if_splits)+
  qed (use 1(1) in \<open>simp add: getImpactRecursive.psimps\<close>)
next
  case (3 d m c "is" e es st)
  then show ?case
    by (fastforce simp: impact_children.psimps split: option.splits if_splits)
next
  case (5 d m c "is" e es st)
  then show ?case
    by (fastforce simp: impact_sources.psimps split: option.splits if_splits)
qed (simp_all add: impact_children.psimps impact_sources.psimps)

abbreviation impact_measure :: "(db \<times> string \<times> nat \<times> nat \<times> trav) +
    (db \<times> nat \<times> nat \<times> string list \<times> edge list \<times> trav) +
    (db \<times> nat \<times> nat \<times> string list \<times> edge list \<times> trav) \<Rightarrow> nat" where
  "impact_measure \<equiv> case_sum (\<lambda>(d, i, m, c, st). card (insert i (node_ids d) - tv_visited st))
     (case_sum (\<lambda>(d, m, c, is, es, st). card (node_ids d - tv_visited st))
               (\<lambda>(d, m, c, is, es, st). card (node_ids d - tv_visited st)))"

abbreviation impact_rank :: "(db \<times> string \<times> nat \<times> nat \<times> trav) +
    (db \<times> nat \<times> nat \<times> string list \<times> edge list \<times> trav) +
    (db \<times> nat \<times> nat \<times> string list \<times> edge list \<times> trav) \<Rightarrow> nat" where
  "impact_rank \<equiv> case_sum (\<lambda>_. 0)
     (case_sum (\<lambda>(d, m, c, is, es, st). Suc (length es)) (\<lambda>(d, m, c, is, es, st). Suc (length es)))"

termination getImpactRecursive
proof (relation "measures [impact_measure, impact_rank]", goal_cases)
  case (2 d i m c st st1 containsEdges focalNode)
  then show ?case
    by (simp add: card_visit_less)
next
  case (3 d i m c st st1 containsEdges st2 incomingEdges)
  have "tv_visited st1 \<subseteq> tv_visited st2"
    unfolding 3(4) using 3(6-) impact_grows(2) by (force split: option.splits)
  then have "card (node_ids d - tv_visited st2) \<le> card (node_ids d - tv_visited st1)"
    by (rule card_unvisited_mono)
  also have "\<dots> < card (insert i (node_ids d) - tv_visited st)"
    using 3(1,2) by (simp add: card_visit_less)
  finally show ?case
    by simp
next
  case (4 d m c "is" e es st childNode)
  then have "insert (n_id childNode) (node_ids d) = node_ids d"
    by (auto dest: fetched_id)
  then show ?case
    by simp
next
  case (5 d m c "is" e es st)
  have "tv_visited st \<subseteq> tv_visited
     (case fetched d is (e_target e) of
        None \<Rightarrow> st
      | Some childNode \<Rightarrow>
          if n_id childNode \<in> tv_visited st then st
          else getImpactRecursive d (n_id childNode) m c (tv_record childNode e st))"
    using 5 impact_grows(1) by (fastforce split: option.splits)
  then show ?case
    using card_unvisited_mono by (simp add: le_eq_less_or_eq)
next
  case (6 d m c "is" e es st sourceNode)
  then have "insert (n_id sourceNode) (node_ids d) = node_ids d"
    by (auto dest: fetched_id)
  then show ?case
    by simp
next
  case (7 d m c "is" e es st)
  have "tv_visited st \<subseteq> tv_visited
     (case fetched d is (e_source e) of
        None \<Rightarrow> st
      | Some sourceNode \<Rightarrow>
          if map_has (tv_nodes st) (n_id sourceNode) then st
          else getImpactRecursive d (n_id sourceNode) m (c + 1) (tv_record sourceNode e st))"
    using 7 impact_grows(1) by (fastforce split: option.splits)
  then show ?case
    using card_unvisited_mono by (simp add: le_eq_less_or_eq)
qed simp

declare getImpactRecursive.simps [simp del]

definition getImpactRadius :: "db \<Rightarrow> string \<Rightarrow> nat \<Rightarrow> subgraph" where
  "getImpactRadius d nodeId maxDepth =
     (case node_at d nodeId of
        None \<Rightarrow> empty_subgraph
      | Some focalNode \<Rightarrow>
          (let st = getImpactRecursive d nodeId maxDepth 0
                 \<lparr>tv_nodes = [(n_id focalNode, focalNode)], tv_edges = [], tv_visited = {}\<rparr>
           in \<lparr>g_nodes = tv_nodes st, g_edges = tv_edges st, g_roots = [nodeId]\<rparr>))"

section \<open>Shortest path\<close>

type_synonym path = "(node \<times> edge option) list"

definition path_pushes :: "(string \<Rightarrow> node option) \<Rightarrow> string set \<Rightarrow> path \<Rightarrow> edge list \<Rightarrow> (string \<times> path) list" where
  "path_pushes nextNodes visited path es =
     List.map_filter (\<lambda>e.
       if e_target e \<in> visited then None
       else map_option (\<lambda>nextNode. (e_target e, path @ [(nextNode, Some e)])) (nextNodes (e_target e))) es"

lemma path_pushes_stored: "(i, p) \<in> set (path_pushes (fetched d ids) V path es) \<Longrightarrow> i \<in> node_ids d"
  by (auto simp: path_pushes_def set_map_filter dest: fetched_id split: if_splits)

definition path_measure :: "db \<Rightarrow> (string \<times> path) list \<Rightarrow> string set \<Rightarrow> nat" where
  "path_measure d queue visited = card ((node_ids d \<union> fst ` set queue) - visited)"

function path_loop :: "db \<Rightarrow> string \<Rightarrow> edge_kind list \<Rightarrow> string set \<Rightarrow> (string \<times> path) list \<Rightarrow> path option" where
  "path_loop d toId edgeKinds visited [] = None"
| "path_loop d toId edgeKinds visited ((nodeId, path) # queue) =
     (if nodeId = toId then Some path
      else if nodeId \<in> visited then path_loop d toId edgeKinds visited queue
      else (let visited' = insert nodeId visited;
                outgoingEdges = getOutgoingEdges nodeId edgeKinds None d;
                wantIds = filter (\<lambda>i. i \<notin> visited') (map e_target outgoingEdges);
                nextNodes = fetched d wantIds
            in path_loop d toId edgeKinds visited' (queue @ path_pushes nextNodes visited' path outgoingEdges)))"
  by pat_completeness auto
termination
proof (relation "measures [\<lambda>(d, t, ks, V, q). path_measure d q V, \<lambda>(d, t, ks, V, q). length q]", goal_cases)
  case (2 d t ks V i path queue)
  have "path_measure d queue V \<le> path_measure d ((i, path) # queue) V"
    unfolding path_measure_def by (intro card_mono) auto
  then show ?case
    by auto
next
  case (3 d t ks V i path queue V' es want nextNodes)
  have "(node_ids d \<union> fst ` set (queue @ path_pushes nextNodes V' path es)) - V'
      \<subset> (node_ids d \<union> fst ` set ((i, path) # queue)) - V"
    using 3 by (auto dest: path_pushes_stored)
  then have "path_measure d (queue @ path_pushes nextNodes V' path es) V' < path_measure d ((i, path) # queue) V"
    unfolding path_measure_def by (intro psubset_card_mono) auto
  then show ?case
    by simp
qed simp

declare path_loop.simps(2) [simp del]

definition findPath :: "db \<Rightarrow> string \<Rightarrow> string \<Rightarrow> edge_kind list \<Rightarrow> path option" where
  "findPath d fromId toId edgeKinds =
     (case (node_at d fromId, node_at d toId) of
        (Some fromNode, Some toNode) \<Rightarrow>
          path_loop d toId edgeKinds {} [(fromId, [(fromNode, None)])]
      | _ \<Rightarrow> None)"

end
