(* ===== verification/TraversalLaws.thy ===== *)
theory TraversalLaws
  imports Traversal LevelOrder Exploration
begin

text \<open>
  Correctness of the traversals of theory \<open>Traversal\<close> against relations on node ids: one step of each
  traversal is a relation, and the results are the nodes some number of steps away. The breadth-first
  searches are instances of the locale \<open>level_order\<close>.
\<close>

section \<open>Breadth-first traversal\<close>

text \<open>One traversal step: along an adjacent edge to a stored node of a wanted kind.\<close>

definition bfs_link :: "db \<Rightarrow> traversal_options \<Rightarrow> string \<Rightarrow> string \<Rightarrow> bool" where
  "bfs_link d opts i j \<longleftrightarrow>
     (\<exists>e \<in> set (getAdjacentEdges d i (o_direction opts) (o_edgeKinds opts)). other_end i e = j) \<and>
     (case node_at d j of None \<Rightarrow> False | Some n \<Rightarrow> kind_wanted opts (n_kind n))"

definition within_depth :: "traversal_options \<Rightarrow> nat \<Rightarrow> bool" where
  "within_depth opts k = (case o_maxDepth opts of None \<Rightarrow> True | Some m \<Rightarrow> k \<le> m)"

lemma at_limit_iff: "at_depth_limit opts k \<longleftrightarrow> \<not> within_depth opts (Suc k)"
  by (auto simp: at_depth_limit_def within_depth_def split: option.splits)

interpretation bfs: level_order "bfs_link d opts" s "within_depth opts" for d opts s
  by unfold_locales (auto simp: within_depth_def split: option.splits)

definition step_key :: "trav_step \<Rightarrow> string \<times> nat" where
  "step_key x = (n_id (s_node x), s_depth x)"

lemma step_key_simps [simp]: "fst (step_key x) = n_id (s_node x)" "snd (step_key x) = s_depth x"
  by (simp_all add: step_key_def)

lemma next_step_mem:
  "next_step opts nb V i k e = Some x \<longleftrightarrow>
     other_end i e \<notin> V \<and> nb (other_end i e) = Some (s_node x) \<and> kind_wanted opts (n_kind (s_node x)) \<and>
     s_edge x = Some e \<and> s_depth x = Suc k"
  by (cases x) (auto simp: next_step_def split: option.splits)

lemma expand_steps_mem:
  "x \<in> set (expand_steps d opts n k V) \<longleftrightarrow>
     (\<exists>e \<in> set (getAdjacentEdges d (n_id n) (o_direction opts) (o_edgeKinds opts)).
        other_end (n_id n) e \<notin> V \<and> node_at d (other_end (n_id n) e) = Some (s_node x) \<and>
        kind_wanted opts (n_kind (s_node x)) \<and> s_edge x = Some e \<and> s_depth x = Suc k)"
  unfolding expand_steps_def Let_def set_map_filter mem_Collect_eq next_step_mem
  by (auto simp: fetched_def)

lemma expand_step_link:
  assumes "x \<in> set (expand_steps d opts n k V)"
  shows "bfs_link d opts (n_id n) (n_id (s_node x)) \<and> n_id (s_node x) \<notin> V \<and> s_depth x = Suc k \<and>
    node_at d (n_id (s_node x)) = Some (s_node x)"
proof -
  from assms obtain e where e: "e \<in> set (getAdjacentEdges d (n_id n) (o_direction opts) (o_edgeKinds opts))"
    "other_end (n_id n) e \<notin> V" "node_at d (other_end (n_id n) e) = Some (s_node x)"
    "kind_wanted opts (n_kind (s_node x))" "s_depth x = Suc k"
    unfolding expand_steps_mem by blast
  from node_at_id [OF e(3)] have "other_end (n_id n) e = n_id (s_node x)"
    by simp
  with e show ?thesis
    unfolding bfs_link_def by auto
qed

lemma link_expand_step:
  assumes "bfs_link d opts (n_id n) j" "j \<notin> V"
  shows "(j, Suc k) \<in> step_key ` set (expand_steps d opts n k V)"
proof -
  from assms obtain e m where e: "e \<in> set (getAdjacentEdges d (n_id n) (o_direction opts) (o_edgeKinds opts))"
    "other_end (n_id n) e = j" "node_at d j = Some m" "kind_wanted opts (n_kind m)"
    by (auto simp: bfs_link_def split: option.splits)
  then have "\<lparr>s_node = m, s_edge = Some e, s_depth = Suc k\<rparr> \<in> set (expand_steps d opts n k V)"
    using assms(2) unfolding expand_steps_mem by auto
  moreover have "n_id m = j"
    using e(3) by (rule node_at_id)
  ultimately show ?thesis
    by (force simp: step_key_def)
qed

text \<open>The accumulated node map.\<close>

definition nodes_are :: "db \<Rightarrow> (string, node) jmap \<Rightarrow> string set \<Rightarrow> bool" where
  "nodes_are d m N \<longleftrightarrow> distinct (map_keys m) \<and> N \<subseteq> node_ids d \<and>
     (\<forall>j. map_get m j = (if j \<in> N then node_at d j else None))"

lemma nodes_are_keys:
  assumes "nodes_are d m N"
  shows "set (map_keys m) = N"
proof (rule set_eqI)
  fix j
  have "j \<in> set (map_keys m) \<longleftrightarrow> map_get m j \<noteq> None"
    by (auto simp: map_of_eq_None_iff)
  moreover have "map_get m j = (if j \<in> N then node_at d j else None)" "N \<subseteq> node_ids d"
    using assms unfolding nodes_are_def by blast+
  ultimately show "j \<in> set (map_keys m) \<longleftrightarrow> j \<in> N"
    using node_at_None [of d j] by (cases "j \<in> N") auto
qed

lemma nodes_are_length: "nodes_are d m N \<Longrightarrow> length m = card N"
  using nodes_are_keys [of d m N] distinct_card [of "map_keys m"] by (auto simp: nodes_are_def)

lemma nodes_are_set:
  assumes "nodes_are d m N" "node_at d (n_id n) = Some n"
  shows "nodes_are d (map_set (n_id n) n m) (insert (n_id n) N)"
  using assms node_at_ids [of d "n_id n"] by (auto simp: nodes_are_def distinct_keys_set)

lemma nodes_are_fold:
  assumes "nodes_are d m N" "\<forall>x \<in> set steps. node_at d (n_id (s_node x)) = Some (s_node x)"
  shows "nodes_are d (fold store_step_node steps m) (N \<union> (\<lambda>x. n_id (s_node x)) ` set steps)"
  using assms
proof (induction steps arbitrary: m N)
  case (Cons x steps)
  have "nodes_are d (store_step_node x m) (insert (n_id (s_node x)) N)"
    unfolding store_step_node_def using Cons.prems by (intro nodes_are_set) auto
  from Cons.IH [OF this] Cons.prems(2) show ?case
    by simp
qed simp

text \<open>The loop invariant. \<open>K\<close> is the start node when the options leave it out, else empty.\<close>

definition bfs_inv :: "db \<Rightarrow> traversal_options \<Rightarrow> string \<Rightarrow> string set \<Rightarrow> bfs_state \<Rightarrow> bool" where
  "bfs_inv d opts s K st \<longleftrightarrow>
     bfs.inv d opts s (b_visited st) (map step_key (b_queue st)) \<and>
     (\<forall>x \<in> set (b_queue st). node_at d (n_id (s_node x)) = Some (s_node x)) \<and>
     nodes_are d (b_nodes st) ((b_visited st \<union> (\<lambda>x. n_id (s_node x)) ` set (b_queue st)) - K) \<and>
     (K \<subseteq> b_visited st \<or> b_visited st = {} \<and> (\<exists>x. b_queue st = [x] \<and> K \<subseteq> {n_id (s_node x)}))"

definition visit_steps :: "db \<Rightarrow> traversal_options \<Rightarrow> trav_step \<Rightarrow> string set \<Rightarrow> trav_step list" where
  "visit_steps d opts x V =
     (if at_depth_limit opts (s_depth x) then []
      else expand_steps d opts (s_node x) (s_depth x) (insert (n_id (s_node x)) V))"

lemma bfs_visit_new:
  assumes "n_id (s_node x) \<notin> b_visited st"
  shows "bfs_visit d opts x (st\<lparr>b_queue := q\<rparr>) =
    (let steps = visit_steps d opts x (b_visited st)
     in st\<lparr>b_visited := insert (n_id (s_node x)) (b_visited st), b_edges := push_edge (s_edge x) (b_edges st),
           b_nodes := fold store_step_node steps (b_nodes st), b_queue := q @ steps\<rparr>)"
  using assms by (simp add: bfs_visit_def visit_steps_def bfs_expand_eq Let_def)

lemma visit_steps_link:
  "y \<in> set (visit_steps d opts x V) \<Longrightarrow>
     bfs_link d opts (n_id (s_node x)) (n_id (s_node y)) \<and> n_id (s_node y) \<notin> insert (n_id (s_node x)) V \<and>
     s_depth y = Suc (s_depth x) \<and> node_at d (n_id (s_node y)) = Some (s_node y) \<and>
     within_depth opts (Suc (s_depth x))"
  using expand_step_link [of y d opts "s_node x" "s_depth x" "insert (n_id (s_node x)) V"]
  unfolding visit_steps_def by (auto simp: at_limit_iff split: if_splits)

lemma bfs_inv_visit:
  assumes inv: "bfs_inv d opts s K st" and q: "b_queue st = x # q"
  shows "bfs_inv d opts s K (bfs_visit d opts x (st\<lparr>b_queue := q\<rparr>))"
proof (cases "n_id (s_node x) \<in> b_visited st")
  case True
  have "bfs.inv d opts s (b_visited st) (map step_key q)"
    using inv True unfolding bfs_inv_def q step_key_def [of x] list.map by (auto intro: bfs.inv_skip)
  moreover have "b_visited st \<union> (\<lambda>x. n_id (s_node x)) ` set (x # q) = b_visited st \<union> (\<lambda>x. n_id (s_node x)) ` set q"
    using True by auto
  moreover have "bfs_visit d opts x (st\<lparr>b_queue := q\<rparr>) = st\<lparr>b_queue := q\<rparr>"
    using True by (simp add: bfs_visit_def)
  moreover have "K \<subseteq> b_visited st"
    using inv True unfolding bfs_inv_def by auto
  ultimately show ?thesis
    using inv unfolding bfs_inv_def q by simp
next
  case False
  let ?i = "n_id (s_node x)" and ?V = "b_visited st"
  let ?steps = "visit_steps d opts x ?V" and ?ids = "\<lambda>q. (\<lambda>x. n_id (s_node x)) ` set q"
  have "bfs.inv d opts s (insert ?i ?V) (map step_key q @ map step_key ?steps)"
  proof (rule bfs.inv_expand)
    show "bfs.inv d opts s ?V ((?i, s_depth x) # map step_key q)"
      using inv unfolding bfs_inv_def q by (simp add: step_key_def)
    show "?i \<notin> ?V"
      by (rule False)
  next
    fix w l assume "(w, l) \<in> set (map step_key ?steps)"
    then show "bfs_link d opts ?i w \<and> l = Suc (s_depth x) \<and> within_depth opts (Suc (s_depth x))"
      using visit_steps_link by (fastforce simp: step_key_def)
  next
    fix w assume "bfs_link d opts ?i w" "within_depth opts (Suc (s_depth x))" "w \<notin> insert ?i ?V"
    then show "(w, Suc (s_depth x)) \<in> set (map step_key ?steps)"
      using link_expand_step by (simp add: visit_steps_def at_limit_iff)
  qed
  moreover have K: "K \<subseteq> insert ?i ?V"
    using inv unfolding bfs_inv_def q by auto
  moreover have "nodes_are d (fold store_step_node ?steps (b_nodes st)) ((insert ?i ?V \<union> ?ids (q @ ?steps)) - K)"
  proof -
    have "nodes_are d (b_nodes st) ((?V \<union> ?ids (x # q)) - K)"
      using inv unfolding bfs_inv_def q by blast
    then have "nodes_are d (fold store_step_node ?steps (b_nodes st)) (((?V \<union> ?ids (x # q)) - K) \<union> ?ids ?steps)"
      using visit_steps_link by (intro nodes_are_fold) auto
    moreover have "((?V \<union> ?ids (x # q)) - K) \<union> ?ids ?steps = (insert ?i ?V \<union> ?ids (q @ ?steps)) - K"
      using K visit_steps_link by fastforce
    ultimately show ?thesis
      by simp
  qed
  moreover have "\<forall>y \<in> set (q @ ?steps). node_at d (n_id (s_node y)) = Some (s_node y)"
    using inv visit_steps_link unfolding bfs_inv_def q by fastforce
  ultimately show ?thesis
    unfolding bfs_inv_def bfs_visit_new [OF False] Let_def by simp
qed

lemma bfs_loop_inv:
  assumes "bfs_inv d opts s K st"
  shows "bfs_inv d opts s K (bfs_loop d opts st) \<and>
    (b_queue (bfs_loop d opts st) = [] \<or> o_limit opts \<le> length (b_nodes (bfs_loop d opts st)))"
  using assms
proof (induction d opts st rule: bfs_loop.induct)
  case (1 d opts st)
  show ?case
  proof (cases "b_queue st")
    case Nil
    with "1.prems" show ?thesis
      by (simp add: bfs_loop.simps [of d opts st])
  next
    case (Cons x q)
    with 1 bfs_inv_visit [OF "1.prems" Cons] show ?thesis
      by (cases "length (b_nodes st) < o_limit opts") (simp_all add: bfs_loop.simps [of d opts st])
  qed
qed

definition bfs_start :: "traversal_options \<Rightarrow> node \<Rightarrow> bfs_state" where
  "bfs_start opts n =
     \<lparr>b_queue = [\<lparr>s_node = n, s_edge = None, s_depth = 0\<rparr>],
      b_nodes = (if o_includeStart opts then [(n_id n, n)] else []), b_edges = [], b_visited = {}\<rparr>"

lemma bfs_start_inv:
  assumes "node_at d s = Some n"
  shows "bfs_inv d opts s (if o_includeStart opts then {} else {s}) (bfs_start opts n)"
proof -
  have "n_id n = s" "s \<in> node_ids d"
    using assms node_at_id node_at_ids [of d s] by auto
  then show ?thesis
    using assms bfs.inv_init [of d opts s]
    by (auto simp: bfs_inv_def bfs_start_def step_key_def nodes_are_def)
qed

lemma traverseBFS_state:
  assumes "node_at d s = Some n"
  shows "\<exists>st. g_nodes (traverseBFS d s opts) = b_nodes st \<and>
    bfs_inv d opts s (if o_includeStart opts then {} else {s}) st \<and>
    (b_queue st = [] \<or> o_limit opts \<le> length (b_nodes st))"
  using bfs_loop_inv [OF bfs_start_inv [OF assms, of opts]] assms
  by (intro exI [of _ "bfs_loop d opts (bfs_start opts n)"]) (simp add: traverseBFS_def bfs_start_def Let_def)

lemma nodes_are_bound: "nodes_are d m N \<Longrightarrow> length m \<le> card (node_ids d)"
  using nodes_are_length [of d m N] card_mono [of "node_ids d" N] by (simp add: nodes_are_def)

text \<open>The nodes that a traversal is after: those within the depth bound, the start only if it is to be included.\<close>

definition wanted_node :: "db \<Rightarrow> traversal_options \<Rightarrow> string \<Rightarrow> string \<Rightarrow> bool" where
  "wanted_node d opts s j \<longleftrightarrow>
     (\<exists>k. (bfs_link d opts ^^ k) s j \<and> within_depth opts k) \<and> (o_includeStart opts \<or> j \<noteq> s)"

lemma traverseBFS_any_limit:
  assumes "node_at d s = Some n"
  shows "map_get (g_nodes (traverseBFS d s opts)) j = Some x \<Longrightarrow> wanted_node d opts s j \<and> node_at d j = Some x"
    and "length (g_nodes (traverseBFS d s opts)) < o_limit opts \<Longrightarrow>
      map_get (g_nodes (traverseBFS d s opts)) j = (if wanted_node d opts s j then node_at d j else None)"
proof -
  let ?K = "if o_includeStart opts then {} else {s}"
  obtain st where st: "g_nodes (traverseBFS d s opts) = b_nodes st" "bfs_inv d opts s ?K st"
    "b_queue st = [] \<or> o_limit opts \<le> length (b_nodes st)"
    using traverseBFS_state [OF assms, of opts] by blast
  have inv: "bfs.inv d opts s (b_visited st) (map step_key (b_queue st))"
    and nodes: "nodes_are d (b_nodes st) ((b_visited st \<union> (\<lambda>x. n_id (s_node x)) ` set (b_queue st)) - ?K)"
    using st(2) unfolding bfs_inv_def by blast+
  have "\<exists>k. (bfs_link d opts ^^ k) s i \<and> within_depth opts k" if "i \<in> b_visited st" for i
    using inv that unfolding bfs.inv_def bfs.settled_def by blast
  moreover have "\<exists>k. (bfs_link d opts ^^ k) s (n_id (s_node y)) \<and> within_depth opts k" if "y \<in> set (b_queue st)" for y
    using inv that unfolding bfs.inv_def bfs.levels_def by fastforce
  ultimately show "map_get (g_nodes (traverseBFS d s opts)) j = Some x \<Longrightarrow> wanted_node d opts s j \<and> node_at d j = Some x"
    using nodes unfolding st(1) nodes_are_def wanted_node_def by (auto split: if_splits)
  assume "length (g_nodes (traverseBFS d s opts)) < o_limit opts"
  then have q: "b_queue st = []"
    using st(1,3) by simp
  then have "bfs.inv d opts s (b_visited st) []" "nodes_are d (b_nodes st) (b_visited st - ?K)"
    using inv nodes by simp_all
  then show "map_get (g_nodes (traverseBFS d s opts)) j = (if wanted_node d opts s j then node_at d j else None)"
    unfolding st(1) nodes_are_def wanted_node_def using bfs.inv_done [of d opts s "b_visited st"] by auto
qed

lemma traverseBFS_nodes:
  assumes "node_at d s = Some n" "card (node_ids d) < o_limit opts"
  shows "map_get (g_nodes (traverseBFS d s opts)) j =
    (if (\<exists>k. (bfs_link d opts ^^ k) s j \<and> within_depth opts k) \<and> (o_includeStart opts \<or> j \<noteq> s)
     then node_at d j else None)"
proof -
  have "length (g_nodes (traverseBFS d s opts)) \<le> card (node_ids d)"
    using traverseBFS_state [OF assms(1), of opts] nodes_are_bound unfolding bfs_inv_def by metis
  then show ?thesis
    using traverseBFS_any_limit(2) [OF assms(1), of opts j] assms(2) by (simp add: wanted_node_def)
qed

section \<open>Depth-first traversal\<close>

text \<open>With no depth bound and a limit no result can reach, nothing cuts the walk short.\<close>

definition unlimited :: "db \<Rightarrow> traversal_options \<Rightarrow> bool" where
  "unlimited d opts \<longleftrightarrow> o_maxDepth opts = None \<and> card (node_ids d) < o_limit opts"

interpretation dfs: exploration "bfs_link d opts" for d opts .

lemma bfs_link_iff:
  "bfs_link d opts i j \<longleftrightarrow>
     (\<exists>e \<in> set (getAdjacentEdges d i (o_direction opts) (o_edgeKinds opts)). other_end i e = j) \<and>
     (\<exists>n. node_at d j = Some n \<and> kind_wanted opts (n_kind n))"
  by (auto simp: bfs_link_def split: option.splits)

text \<open>
  The result holds the visited nodes, but for the start node when it is left out (\<open>K\<close>).
\<close>

definition dfs_inv :: "db \<Rightarrow> string set \<Rightarrow> trav \<Rightarrow> bool" where
  "dfs_inv d K st \<longleftrightarrow> nodes_are d (tv_nodes st) (tv_visited st - K) \<and> K \<subseteq> tv_visited st"

text \<open>One iteration of the edge loop: nothing, or a call on the node across the edge.\<close>

definition dfs_next :: "db \<Rightarrow> traversal_options \<Rightarrow> string \<Rightarrow> nat \<Rightarrow> string list \<Rightarrow> edge \<Rightarrow> trav \<Rightarrow> trav" where
  "dfs_next d opts i depth wantIds e st =
     (if other_end i e \<in> tv_visited st then st
      else (case fetched d wantIds (other_end i e) of
              None \<Rightarrow> st
            | Some n \<Rightarrow> if \<not> kind_wanted opts (n_kind n) then st
                        else dfsRecursive d opts n (depth + 1) (tv_record n e st)))"

lemma dfs_edges_Cons:
  "dfs_edges d opts i depth wantIds (e # es) st =
     dfs_edges d opts i depth wantIds es (dfs_next d opts i depth wantIds e st)"
  by (simp add: dfs_next_def Let_def)

lemma dfs_next_skip:
  assumes "e \<in> set (getAdjacentEdges d i (o_direction opts) (o_edgeKinds opts))"
    and "other_end i e \<in> tv_visited st \<or> \<not> bfs_link d opts i (other_end i e)"
  shows "dfs_next d opts i depth wantIds e st = st"
  using assms by (auto simp: dfs_next_def bfs_link_iff dest: fetched_Some split: option.splits)

lemma dfs_exact:
  "unlimited d opts \<Longrightarrow> nodes_are d (tv_nodes st) (insert (n_id n) (tv_visited st) - K) \<Longrightarrow>
     K \<subseteq> insert (n_id n) (tv_visited st) \<Longrightarrow>
     dfs_inv d K (dfsRecursive d opts n depth st) \<and> n_id n \<in> tv_visited (dfsRecursive d opts n depth st) \<and>
     dfs.grown d opts (n_id n) (tv_visited st) (tv_visited (dfsRecursive d opts n depth st))"
  "unlimited d opts \<Longrightarrow> dfs_inv d K st \<Longrightarrow>
     other_end i ` set es - tv_visited st \<subseteq> set wantIds \<Longrightarrow>
     set es \<subseteq> set (getAdjacentEdges d i (o_direction opts) (o_edgeKinds opts)) \<Longrightarrow>
     dfs_inv d K (dfs_edges d opts i depth wantIds es st) \<and>
     dfs.grown d opts i (tv_visited st) (tv_visited (dfs_edges d opts i depth wantIds es st)) \<and>
     {w \<in> other_end i ` set es. bfs_link d opts i w} \<subseteq> tv_visited (dfs_edges d opts i depth wantIds es st)"
proof (induction d opts n depth st and d opts i depth wantIds es st
    rule: dfsRecursive_dfs_edges.induct)
  case (1 d opts n depth st)
  let ?i = "n_id n" and ?V = "tv_visited st"
  let ?r = "dfsRecursive d opts n depth st"
  show ?case
  proof (cases "?i \<in> ?V")
    case True
    with 1 show ?thesis
      by (simp add: dfsRecursive.simps dfs_inv_def insert_absorb dfs.grown_refl)
  next
    case False
    have "length (tv_nodes st) < o_limit opts"
      using nodes_are_bound [OF "1.prems"(2)] "1.prems"(1) by (simp add: unlimited_def)
    then have go: "\<not> (?i \<in> ?V \<or> o_limit opts \<le> length (tv_nodes st) \<or> at_depth_limit opts depth)"
      using False "1.prems"(1) by (simp add: unlimited_def at_depth_limit_def)
    let ?es = "getAdjacentEdges d ?i (o_direction opts) (o_edgeKinds opts)"
    let ?w = "filter (\<lambda>i. i \<notin> tv_visited (tv_mark ?i st)) (map (other_end ?i) ?es)"
    have r: "?r = dfs_edges d opts ?i depth ?w ?es (tv_mark ?i st)"
      using go by (simp add: dfsRecursive.simps Let_def)
    have "dfs_inv d K (tv_mark ?i st)" "other_end ?i ` set ?es - tv_visited (tv_mark ?i st) \<subseteq> set ?w"
      using "1.prems" by (auto simp: dfs_inv_def)
    from "1.IH" [OF go refl refl refl "1.prems"(1) this order_refl]
    have IH: "dfs_inv d K ?r" "dfs.grown d opts ?i (tv_visited (tv_mark ?i st)) (tv_visited ?r)"
      "{w \<in> other_end ?i ` set ?es. bfs_link d opts ?i w} \<subseteq> tv_visited ?r"
      unfolding r by blast+
    have succ: "w \<in> tv_visited ?r" if "bfs_link d opts ?i w" for w
      using that IH(3) by (auto simp: bfs_link_iff)
    have "dfs.grown d opts ?i (insert ?i ?V) (tv_visited ?r)"
      using IH(2) by simp
    then have "dfs.grown d opts ?i ?V (tv_visited ?r)"
      by (rule dfs.grown_visit) (rule succ)
    with IH(1,2) show ?thesis
      using dfs.grown_mono [OF IH(2)] by auto
  qed
next
  case (2 d opts i depth wantIds st)
  then show ?case
    by (simp add: dfs.grown_refl)
next
  case (3 d opts i depth wantIds e es st)
  let ?j = "other_end i e" and ?V = "tv_visited st"
  let ?st = "dfs_next d opts i depth wantIds e st"
  let ?r = "dfs_edges d opts i depth wantIds es ?st"
  have e: "e \<in> set (getAdjacentEdges d i (o_direction opts) (o_edgeKinds opts))"
    using "3.prems"(4) by simp
  have st: "dfs_inv d K ?st \<and> dfs.grown d opts i ?V (tv_visited ?st) \<and>
      (bfs_link d opts i ?j \<longrightarrow> ?j \<in> tv_visited ?st)"
  proof (cases "?j \<in> ?V \<or> \<not> bfs_link d opts i ?j")
    case True
    with "3.prems"(2) show ?thesis
      by (auto simp: dfs_next_skip [OF e] dfs.grown_refl)
  next
    case False
    then obtain n where n: "node_at d ?j = Some n" "kind_wanted opts (n_kind n)" "?j \<notin> ?V"
      by (auto simp: bfs_link_iff)
    then have f: "fetched d wantIds ?j = Some n" "n_id n = ?j"
      using "3.prems"(3) node_at_id by (auto simp: fetched_def)
    then have nxt: "?st = dfsRecursive d opts n (depth + 1) (tv_record n e st)"
      using n by (simp add: dfs_next_def)
    have "nodes_are d (tv_nodes st) (?V - K)" "K \<subseteq> ?V"
      using "3.prems"(2) by (simp_all add: dfs_inv_def)
    moreover have "insert ?j ?V - K = insert ?j (?V - K)"
      using n(3) calculation(2) by auto
    ultimately have "nodes_are d (tv_nodes (tv_record n e st)) (insert (n_id n) (tv_visited (tv_record n e st)) - K)"
      "K \<subseteq> insert (n_id n) (tv_visited (tv_record n e st))"
      using nodes_are_set [of d "tv_nodes st" "?V - K" n] n(1) f(2) by (auto simp: tv_record_def)
    with "3.IH"(1) [OF refl n(3) f(1)] n(2) "3.prems"(1)
    have "dfs_inv d K ?st" "?j \<in> tv_visited ?st" "dfs.grown d opts ?j ?V (tv_visited ?st)"
      unfolding nxt by (simp_all add: f(2))
    then show ?thesis
      using False dfs.grown_call by blast
  qed
  have "other_end i ` set es - tv_visited ?st \<subseteq> set wantIds"
    using "3.prems"(3) dfs.grown_mono st by fastforce
  moreover have "set es \<subseteq> set (getAdjacentEdges d i (o_direction opts) (o_edgeKinds opts))"
    using "3.prems"(4) by simp
  ultimately have IH: "dfs_inv d K ?r" "dfs.grown d opts i (tv_visited ?st) (tv_visited ?r)"
    "{w \<in> other_end i ` set es. bfs_link d opts i w} \<subseteq> tv_visited ?r"
    using "3.IH"(2) [OF refl "3.prems"(1)] st unfolding dfs_next_def [symmetric] by blast+
  have "dfs.grown d opts i ?V (tv_visited ?r)"
    using st IH(2) dfs.grown_trans by blast
  moreover have "{w \<in> other_end i ` set (e # es). bfs_link d opts i w} \<subseteq> tv_visited ?r"
    using st IH(3) dfs.grown_mono [OF IH(2)] by auto
  ultimately show ?case
    unfolding dfs_edges_Cons using IH(1) by blast
qed

lemma traverseDFS_nodes:
  assumes "node_at d s = Some n" "unlimited d opts"
  shows "map_get (g_nodes (traverseDFS d s opts)) j =
    (if (bfs_link d opts)\<^sup>*\<^sup>* s j \<and> (o_includeStart opts \<or> j \<noteq> s) then node_at d j else None)"
proof -
  let ?K = "if o_includeStart opts then {} else {s}"
  let ?st = "\<lparr>tv_nodes = (if o_includeStart opts then [(n_id n, n)] else []), tv_edges = [], tv_visited = {}\<rparr>"
  let ?r = "dfsRecursive d opts n 0 ?st"
  have s: "n_id n = s" "s \<in> node_ids d"
    using assms(1) node_at_id node_at_ids [of d s] by auto
  have "nodes_are d (tv_nodes ?st) (insert (n_id n) (tv_visited ?st) - ?K)" "?K \<subseteq> insert (n_id n) (tv_visited ?st)"
    using assms(1) s by (auto simp: nodes_are_def)
  from dfs_exact(1) [OF assms(2) this, of 0] s(1)
  have r: "dfs_inv d ?K ?r" "s \<in> tv_visited ?r" "dfs.grown d opts s {} (tv_visited ?r)"
    by simp_all
  from dfs.grown_all [OF r(3,2)] r(1) have "nodes_are d (tv_nodes ?r) ({j. (bfs_link d opts)\<^sup>*\<^sup>* s j} - ?K)"
    by (simp add: dfs_inv_def)
  moreover have "g_nodes (traverseDFS d s opts) = tv_nodes ?r"
    using assms(1) by (simp add: traverseDFS_def Let_def)
  ultimately show ?thesis
    by (auto simp: nodes_are_def)
qed

section \<open>Shortest paths\<close>

definition path_link :: "db \<Rightarrow> edge_kind list \<Rightarrow> string \<Rightarrow> string \<Rightarrow> bool" where
  "path_link d kinds i j \<longleftrightarrow>
     (\<exists>e \<in> set (getOutgoingEdges i kinds None d). e_target e = j) \<and> node_at d j \<noteq> None"

text \<open>A path as \<open>findPath\<close> returns it: the start node, then each node with the edge that led to it.\<close>

inductive path_ok :: "db \<Rightarrow> edge_kind list \<Rightarrow> string \<Rightarrow> path \<Rightarrow> string \<Rightarrow> bool" for d kinds s where
  path_ok_start: "node_at d s = Some n \<Longrightarrow> path_ok d kinds s [(n, None)] s"
| path_ok_step: "path_ok d kinds s p i \<Longrightarrow> e \<in> set (getOutgoingEdges i kinds None d) \<Longrightarrow>
     node_at d (e_target e) = Some n \<Longrightarrow> path_ok d kinds s (p @ [(n, Some e)]) (e_target e)"

interpretation sp: level_order "path_link d kinds" s "\<lambda>_. True" for d kinds s
  by unfold_locales auto

definition path_key :: "string \<times> path \<Rightarrow> string \<times> nat" where
  "path_key x = (fst x, length (snd x) - 1)"

definition path_inv :: "db \<Rightarrow> edge_kind list \<Rightarrow> string \<Rightarrow> string \<Rightarrow> string set \<Rightarrow> (string \<times> path) list \<Rightarrow> bool" where
  "path_inv d kinds s t V q \<longleftrightarrow>
     sp.inv d kinds s V (map path_key q) \<and> (\<forall>(i, p) \<in> set q. path_ok d kinds s p i) \<and> t \<notin> V"

lemma path_ok_length: "path_ok d kinds s p i \<Longrightarrow> 0 < length p"
  by (induction rule: path_ok.induct) auto

lemma path_pushes_mem:
  "(j, p') \<in> set (path_pushes nb V p es) \<longleftrightarrow>
     j \<notin> V \<and> (\<exists>e \<in> set es. e_target e = j \<and> (\<exists>n. nb j = Some n \<and> p' = p @ [(n, Some e)]))"
  by (auto simp: path_pushes_def set_map_filter split: if_splits)

lemma path_inv_expand:
  assumes inv: "path_inv d kinds s t V ((i, p) # q)" and new: "i \<notin> V" "i \<noteq> t"
    and es: "es = getOutgoingEdges i kinds None d"
    and nb: "nb = fetched d (filter (\<lambda>j. j \<notin> insert i V) (map e_target es))"
  shows "path_inv d kinds s t (insert i V) (q @ path_pushes nb (insert i V) p es)"
proof -
  let ?ps = "path_pushes nb (insert i V) p es"
  have ok: "path_ok d kinds s p i"
    using inv by (simp add: path_inv_def)
  then have len: "0 < length p"
    by (rule path_ok_length)
  have push: "(j, p') \<in> set ?ps \<Longrightarrow> path_ok d kinds s p' j \<and> path_link d kinds i j \<and> length p' = Suc (length p)" for j p'
    using path_ok_step [OF ok] unfolding path_pushes_mem path_link_def es nb
    by (auto dest!: fetched_Some)
  have "sp.inv d kinds s (insert i V) (map path_key q @ map path_key ?ps)"
  proof (rule sp.inv_expand)
    show "sp.inv d kinds s V ((i, length p - 1) # map path_key q)"
      using inv by (simp add: path_inv_def path_key_def)
    show "i \<notin> V"
      by (rule new)
  next
    fix w l assume "(w, l) \<in> set (map path_key ?ps)"
    then obtain p' where "(w, p') \<in> set ?ps" "l = length p' - 1"
      by (auto simp: path_key_def)
    with push [of w p'] len show "path_link d kinds i w \<and> l = Suc (length p - 1) \<and> True"
      by simp
  next
    fix w assume w: "path_link d kinds i w" "w \<notin> insert i V"
    then obtain e n where e: "e \<in> set es" "e_target e = w" "node_at d w = Some n"
      unfolding path_link_def es by auto
    then have "nb w = Some n"
      using w(2) unfolding nb fetched_def by auto
    with e w(2) have "(w, p @ [(n, Some e)]) \<in> set ?ps"
      unfolding path_pushes_mem by auto
    then show "(w, Suc (length p - 1)) \<in> set (map path_key ?ps)"
      using len by (force simp: path_key_def)
  qed
  with inv push new(2) show ?thesis
    unfolding path_inv_def by fastforce
qed

lemma path_inv_skip:
  assumes "path_inv d kinds s t V ((i, p) # q)" "i \<in> V"
  shows "path_inv d kinds s t V q"
  using assms unfolding path_inv_def by (auto simp: path_key_def intro: sp.inv_skip)

lemma path_loop_correct:
  assumes "path_inv d kinds s t V q"
  shows "case path_loop d t kinds V q of
      None \<Rightarrow> \<not> (path_link d kinds)\<^sup>*\<^sup>* s t
    | Some p \<Rightarrow> path_ok d kinds s p t \<and> length p = Suc (hop_dist (path_link d kinds) s t)"
  using assms
proof (induction d t kinds V q rule: path_loop.induct)
  case (1 d t kinds V)
  then have "sp.inv d kinds s V []" "t \<notin> V"
    by (simp_all add: path_inv_def)
  from sp.inv_done [OF this(1)] this(2) show ?case
    by (auto simp: rtranclp_power)
next
  case (2 d t kinds V i p q)
  consider "i = t" | "i \<noteq> t" "i \<in> V" | "i \<noteq> t" "i \<notin> V"
    by blast
  then show ?case
  proof cases
    case 1
    have "path_ok d kinds s p t" "sp.inv d kinds s V ((t, length p - 1) # map path_key q)" "t \<notin> V"
      using "2.prems" 1 by (simp_all add: path_inv_def path_key_def)
    with sp.pop_dist [of d kinds s V t "length p - 1" "map path_key q"] path_ok_length [of d kinds s p t] 1
    show ?thesis
      by (simp add: path_loop.simps(2))
  next
    case 2
    with "2.IH"(1) [OF 2] "2.prems" path_inv_skip show ?thesis
      by (simp add: path_loop.simps(2))
  next
    case 3
    from "2.IH"(2) [OF 3 refl refl refl refl path_inv_expand [OF "2.prems" 3(2,1) refl refl]]
    show ?thesis
      using 3 by (simp add: path_loop.simps(2) Let_def)
  qed
qed

section \<open>Type hierarchy\<close>

definition type_link :: "db \<Rightarrow> string \<Rightarrow> string \<Rightarrow> bool" where
  "type_link d i j \<longleftrightarrow> (\<exists>e \<in> set (getOutgoingEdges i TYPE_KINDS None d). e_target e = j) \<and> node_at d j \<noteq> None"

interpretation up: exploration "type_link d" for d .

definition ancestors_next :: "db \<Rightarrow> string list \<Rightarrow> edge \<Rightarrow> trav \<Rightarrow> trav" where
  "ancestors_next d targetIds e st =
     (case fetched d targetIds (e_target e) of
        None \<Rightarrow> st
      | Some p \<Rightarrow> if map_has (tv_nodes st) (n_id p) then st else getTypeAncestors d (n_id p) (tv_record p e st))"

lemma nodes_are_has: "nodes_are d m N \<Longrightarrow> map_has m j \<longleftrightarrow> j \<in> N"
  using nodes_are_keys [of d m N] by (simp add: map_has_iff)

lemma tv_record_nodes: "tv_nodes (tv_record n e st) = map_set (n_id n) n (tv_nodes st)"
  by (simp add: tv_record_def)

lemma ancestors_exact:
  "nodes_are d (tv_nodes st) (insert i (tv_visited st)) \<Longrightarrow>
     nodes_are d (tv_nodes (getTypeAncestors d i st)) (tv_visited (getTypeAncestors d i st)) \<and>
     i \<in> tv_visited (getTypeAncestors d i st) \<and>
     up.grown d i (tv_visited st) (tv_visited (getTypeAncestors d i st))"
  "nodes_are d (tv_nodes st) (tv_visited st) \<Longrightarrow>
     set es \<subseteq> set (getOutgoingEdges i TYPE_KINDS None d) \<Longrightarrow> e_target ` set es \<subseteq> set targetIds \<Longrightarrow>
     nodes_are d (tv_nodes (ancestors_loop d targetIds es st)) (tv_visited (ancestors_loop d targetIds es st)) \<and>
     up.grown d i (tv_visited st) (tv_visited (ancestors_loop d targetIds es st)) \<and>
     e_target ` set es \<inter> node_ids d \<subseteq> tv_visited (ancestors_loop d targetIds es st)"
proof (induction d i st and d targetIds es st arbitrary: and i rule: getTypeAncestors_ancestors_loop.induct)
  case (1 d i st)
  let ?V = "tv_visited st" and ?r = "getTypeAncestors d i st"
  let ?es = "getOutgoingEdges i TYPE_KINDS None d"
  show ?case
  proof (cases "i \<in> ?V")
    case True
    with 1 show ?thesis
      by (simp add: getTypeAncestors.simps insert_absorb up.grown_refl)
  next
    case False
    have r: "?r = ancestors_loop d (map e_target ?es) ?es (tv_mark i st)"
      using False by (simp add: getTypeAncestors.simps Let_def)
    have "nodes_are d (tv_nodes (tv_mark i st)) (tv_visited (tv_mark i st))" "e_target ` set ?es \<subseteq> set (map e_target ?es)"
      using "1.prems" by simp_all
    from "1.IH" [OF False refl this(1) order_refl this(2)]
    have IH: "nodes_are d (tv_nodes ?r) (tv_visited ?r)" "up.grown d i (insert i ?V) (tv_visited ?r)"
      "e_target ` set ?es \<inter> node_ids d \<subseteq> tv_visited ?r"
      unfolding r by simp_all
    have succ: "w \<in> tv_visited ?r" if "type_link d i w" for w
      using that IH(3) node_at_ids [of d w] by (auto simp: type_link_def)
    have "up.grown d i ?V (tv_visited ?r)"
      using IH(2) by (rule up.grown_visit) (rule succ)
    with IH(1) up.grown_mono [OF IH(2)] show ?thesis
      by simp
  qed
next
  case (2 d targetIds st)
  then show ?case
    by (simp add: up.grown_refl)
next
  case (3 d targetIds e es st)
  let ?j = "e_target e" and ?V = "tv_visited st"
  let ?st = "ancestors_next d targetIds e st"
  let ?r = "ancestors_loop d targetIds es ?st"
  have st: "nodes_are d (tv_nodes ?st) (tv_visited ?st) \<and> up.grown d i ?V (tv_visited ?st) \<and>
      ({?j} \<inter> node_ids d \<subseteq> tv_visited ?st)"
  proof (cases "?j \<in> node_ids d - ?V")
    case True
    then obtain n where n: "node_at d ?j = Some n"
      using node_at_ids [of d ?j] by auto
    then have f: "fetched d targetIds ?j = Some n" "n_id n = ?j"
      using "3.prems"(3) node_at_id by (auto simp: fetched_def)
    have no: "\<not> map_has (tv_nodes st) (n_id n)"
      using True nodes_are_has [OF "3.prems"(1)] f(2) by simp
    then have nxt: "?st = getTypeAncestors d (n_id n) (tv_record n e st)"
      by (simp add: ancestors_next_def f)
    have "nodes_are d (tv_nodes (tv_record n e st)) (insert (n_id n) (tv_visited (tv_record n e st)))"
      using nodes_are_set [OF "3.prems"(1), of n] n f(2) by (simp add: tv_record_nodes)
    from "3.IH"(1) [OF f(1) no this] have
      "nodes_are d (tv_nodes ?st) (tv_visited ?st)" "?j \<in> tv_visited ?st" "up.grown d ?j ?V (tv_visited ?st)"
      unfolding nxt by (simp_all add: f(2))
    moreover have "type_link d i ?j"
      using "3.prems"(2) n by (auto simp: type_link_def)
    ultimately show ?thesis
      using up.grown_call by blast
  next
    case False
    have "?st = st"
    proof (cases "fetched d targetIds ?j")
      case (Some n)
      with False fetched_id [OF Some] nodes_are_has [OF "3.prems"(1), of ?j] show ?thesis
        by (simp add: ancestors_next_def)
    qed (simp add: ancestors_next_def)
    with False "3.prems"(1) up.grown_refl [of d i ?V] show ?thesis
      unfolding \<open>?st = st\<close> by blast
  qed
  have sub: "set es \<subseteq> set (getOutgoingEdges i TYPE_KINDS None d)" "e_target ` set es \<subseteq> set targetIds"
    using "3.prems"(2,3) by auto
  have IH: "nodes_are d (tv_nodes ?r) (tv_visited ?r)" "up.grown d i (tv_visited ?st) (tv_visited ?r)"
    "e_target ` set es \<inter> node_ids d \<subseteq> tv_visited ?r"
    using "3.IH"(2) [OF _ sub] st unfolding ancestors_next_def [symmetric] by blast+
  have "up.grown d i ?V (tv_visited ?r)"
    using st IH(2) up.grown_trans by blast
  moreover have "ancestors_loop d targetIds (e # es) st = ?r"
    by (simp add: ancestors_next_def)
  moreover have "e_target ` set (e # es) \<inter> node_ids d \<subseteq> tv_visited ?r"
    using st IH(3) up.grown_mono [OF IH(2)] by auto
  ultimately show ?case
    using IH(1) by simp
qed

lemma getTypeHierarchy_are:
  assumes "node_at d i = Some n"
  shows "nodes_are d (g_nodes (getTypeHierarchy d i)) {j. (type_link d)\<^sup>*\<^sup>* i j}"
proof -
  let ?init = "\<lparr>tv_nodes = [(n_id n, n)], tv_edges = [], tv_visited = {}\<rparr>"
  let ?res = "getTypeAncestors d i ?init"
  have i: "n_id n = i" "i \<in> node_ids d"
    using assms node_at_id node_at_ids [of d i] by auto
  then have "nodes_are d (tv_nodes ?init) (insert i (tv_visited ?init))"
    using assms by (auto simp: nodes_are_def)
  from ancestors_exact(1) [OF this]
  have st: "nodes_are d (tv_nodes ?res) (tv_visited ?res)" "i \<in> tv_visited ?res" "up.grown d i {} (tv_visited ?res)"
    by simp_all
  have "getTypeDescendants d i ?res = ?res"
    using st(2) by (simp add: getTypeDescendants.simps)
  then have "g_nodes (getTypeHierarchy d i) = tv_nodes ?res"
    using assms by (simp add: getTypeHierarchy_def Let_def)
  moreover have "tv_visited ?res = {j. (type_link d)\<^sup>*\<^sup>* i j}"
    using up.grown_all [OF st(3,2)] by auto
  ultimately show ?thesis
    using st(1) by simp
qed

lemma getTypeHierarchy_nodes:
  assumes "node_at d i = Some n"
  shows "map_get (g_nodes (getTypeHierarchy d i)) j = (if (type_link d)\<^sup>*\<^sup>* i j then node_at d j else None)"
  using getTypeHierarchy_are [OF assms] by (simp add: nodes_are_def)

section \<open>Callers\<close>

definition caller_link :: "db \<Rightarrow> string \<Rightarrow> string \<Rightarrow> bool" where
  "caller_link d i j \<longleftrightarrow> (\<exists>e \<in> set (getIncomingEdges i CALL_KINDS d). e_source e = j) \<and> node_at d j \<noteq> None"

text \<open>An entry that belongs in the answer: a stored caller, by an edge into a node under \<open>m\<close> steps away.\<close>

definition caller_ok :: "db \<Rightarrow> string \<Rightarrow> nat \<Rightarrow> node \<times> edge \<Rightarrow> bool" where
  "caller_ok d s m x \<longleftrightarrow>
     (case x of (n, e) \<Rightarrow>
        node_at d (e_source e) = Some n \<and>
        (\<exists>k i. k < m \<and> (caller_link d ^^ k) s i \<and> e \<in> set (getIncomingEdges i CALL_KINDS d)))"

lemma callers_sound:
  "(caller_link d ^^ c) s i \<Longrightarrow> \<forall>x \<in> set (w_result w). caller_ok d s m x \<Longrightarrow>
     \<forall>x \<in> set (w_result (getCallersRecursive d i m c w)). caller_ok d s m x"
  "(caller_link d ^^ c) s i \<Longrightarrow> c < m \<Longrightarrow> set es \<subseteq> set (getIncomingEdges i CALL_KINDS d) \<Longrightarrow>
     \<forall>x \<in> set (w_result w). caller_ok d s m x \<Longrightarrow>
     \<forall>x \<in> set (w_result (callers_loop d m c sourceIds es w)). caller_ok d s m x"
proof (induction d i m c w and d m c sourceIds es w arbitrary: and i rule: getCallersRecursive_callers_loop.induct)
  case (1 d i m c w)
  then show ?case
    by (cases "m \<le> c \<or> i \<in> w_visited w") (simp_all add: getCallersRecursive.simps Let_def)
next
  case (3 d m c sourceIds e es w)
  have sub: "set es \<subseteq> set (getIncomingEdges i CALL_KINDS d)" "e \<in> set (getIncomingEdges i CALL_KINDS d)"
    using "3.prems"(3) by auto
  show ?case
  proof (cases "fetched d sourceIds (e_source e)")
    case None
    with "3.IH"(2) [OF "3.prems"(1,2) sub(1)] "3.prems"(4) show ?thesis
      by simp
  next
    case (Some n)
    then have n: "node_at d (e_source e) = Some n" "n_id n = e_source e"
      using fetched_Some [OF Some] node_at_id by auto
    show ?thesis
    proof (cases "n_id n \<in> w_visited w")
      case True
      with Some "3.IH"(2) [OF "3.prems"(1,2) sub(1)] "3.prems"(4) show ?thesis
        by simp
    next
      case False
      have "caller_ok d s m (n, e)"
        using n(1) "3.prems"(1,2) sub(2) by (auto simp: caller_ok_def)
      moreover have "caller_link d i (n_id n)"
        using sub(2) n by (auto simp: caller_link_def)
      with "3.prems"(1) have "(caller_link d ^^ Suc c) s (n_id n)"
        by (rule relpowp_Suc_I)
      ultimately have "\<forall>x \<in> set (w_result (getCallersRecursive d (n_id n) m (c + 1)
          (w\<lparr>w_result := w_result w @ [(n, e)]\<rparr>))). caller_ok d s m x"
        using "3.IH"(1) [OF Some False] "3.prems"(4) by simp
      with Some False "3.IH"(2) [OF "3.prems"(1,2) sub(1)] show ?thesis
        by simp
    qed
  qed
qed simp_all

text \<open>What an edge contributes at depth one: its stored source, unless that is already visited.\<close>

definition direct_caller :: "db \<Rightarrow> string set \<Rightarrow> edge \<Rightarrow> (node \<times> edge) option" where
  "direct_caller d V e =
     (case node_at d (e_source e) of
        None \<Rightarrow> None
      | Some n \<Rightarrow> if e_source e \<in> V then None else Some (n, e))"

lemma callers_loop_1:
  assumes "\<forall>e \<in> set es. e_source e \<in> set sourceIds"
  shows "w_result (callers_loop d 1 0 sourceIds es w) =
    w_result w @ List.map_filter (direct_caller d (w_visited w)) es"
  using assms
proof (induction es arbitrary: w)
  case (Cons e es)
  have leaf: "getCallersRecursive d j (Suc 0) (Suc 0) v = v" for j v
    by (simp add: getCallersRecursive.simps)
  have f: "fetched d sourceIds (e_source e) = node_at d (e_source e)"
    using Cons.prems by (simp add: fetched_def)
  have "callers_loop d 1 0 sourceIds (e # es) w = callers_loop d 1 0 sourceIds es
      (case direct_caller d (w_visited w) e of None \<Rightarrow> w | Some x \<Rightarrow> w\<lparr>w_result := w_result w @ [x]\<rparr>)"
    using leaf f by (auto simp: direct_caller_def dest: node_at_id split: option.splits)
  with Cons show ?case
    by (cases "direct_caller d (w_visited w) e") (simp_all add: map_filter_simps)
qed (simp add: map_filter_simps)

lemma getCallers_1:
  "getCallers d i 1 = List.map_filter (direct_caller d {i}) (getIncomingEdges i CALL_KINDS d)"
  by (simp add: getCallers_def getCallersRecursive.simps Let_def callers_loop_1 flip: One_nat_def)

section \<open>Containment\<close>

definition parent_of :: "db \<Rightarrow> string \<Rightarrow> node option" where
  "parent_of d i =
     (case getIncomingEdges i [EK_contains] d of [] \<Rightarrow> None | e # _ \<Rightarrow> node_at d (e_source e))"

text \<open>A chain of parents from a node up, with the ids it went through.\<close>

fun parent_chain :: "db \<Rightarrow> string \<Rightarrow> node list \<Rightarrow> bool" where
  "parent_chain d i [] = True"
| "parent_chain d i (n # ns) = (parent_of d i = Some n \<and> parent_chain d (n_id n) ns)"

lemma parent_of_id: "parent_of d i = Some n \<Longrightarrow> node_at d (n_id n) = Some n"
  by (auto simp: parent_of_def node_at_id split: list.splits)

text \<open>The walk from \<open>i\<close> appends a chain that ends where there is no parent or where it has been.\<close>

lemma ancestor_walk_chain:
  "\<exists>ns. ancestor_walk d V i as = as @ ns \<and> parent_chain d i ns \<and>
     distinct (butlast (i # map n_id ns)) \<and> set (butlast (i # map n_id ns)) \<inter> V = {} \<and>
     (parent_of d (last (i # map n_id ns)) = None \<or>
      last (i # map n_id ns) \<in> V \<union> set (butlast (i # map n_id ns)))"
proof (induction d V i as rule: ancestor_walk.induct)
  case (1 d V i as)
  show ?case
  proof (cases "i \<in> V")
    case True
    then show ?thesis
      by (intro exI [of _ "[]"]) (simp add: ancestor_walk.simps)
  next
    case False
    show ?thesis
    proof (cases "parent_of d i")
      case None
      with False show ?thesis
        by (intro exI [of _ "[]"]) (auto simp: ancestor_walk.simps parent_of_def split: list.splits)
    next
      case (Some n)
      then obtain e es where e: "getIncomingEdges i [EK_contains] d = e # es" "node_at d (e_source e) = Some n"
        by (auto simp: parent_of_def split: list.splits)
      from "1.IH" [OF False e] obtain ns where ns:
        "ancestor_walk d (insert i V) (n_id n) (as @ [n]) = (as @ [n]) @ ns" "parent_chain d (n_id n) ns"
        "distinct (butlast (n_id n # map n_id ns))"
        "set (butlast (n_id n # map n_id ns)) \<inter> insert i V = {}"
        "parent_of d (last (n_id n # map n_id ns)) = None \<or>
         last (n_id n # map n_id ns) \<in> insert i V \<union> set (butlast (n_id n # map n_id ns))"
        by blast
      have "ancestor_walk d V i as = as @ n # ns"
        using False e ns(1) by (simp add: ancestor_walk.simps [of d V i])
      with ns(2-5) Some False show ?thesis
        by (intro exI [of _ "n # ns"]) auto
    qed
  qed
qed

lemma parent_chain_stored: "parent_chain d i ns \<Longrightarrow> n \<in> set ns \<Longrightarrow> node_at d (n_id n) = Some n"
  by (induction ns arbitrary: i) (auto dest: parent_of_id)

section \<open>Impact\<close>

text \<open>
  What a change can reach: down into the members of a container at no cost, and against any other
  edge at the cost of one.
\<close>

inductive impact_at :: "db \<Rightarrow> string \<Rightarrow> string \<Rightarrow> nat \<Rightarrow> bool" for d s where
  impact_self: "impact_at d s s 0"
| impact_member: "impact_at d s i c \<Longrightarrow> node_at d i = Some n \<Longrightarrow> n_kind n \<in> set CONTAINER_KINDS \<Longrightarrow>
     e \<in> set (getOutgoingEdges i [EK_contains] None d) \<Longrightarrow> impact_at d s (e_target e) c"
| impact_user: "impact_at d s i c \<Longrightarrow> e \<in> set (getIncomingEdges i [] d) \<Longrightarrow> e_kind e \<noteq> EK_contains \<Longrightarrow>
     impact_at d s (e_source e) (Suc c)"

definition impact_ok :: "db \<Rightarrow> string \<Rightarrow> nat \<Rightarrow> trav \<Rightarrow> bool" where
  "impact_ok d s m st \<longleftrightarrow>
     (\<forall>j n. map_get (tv_nodes st) j = Some n \<longrightarrow> node_at d j = Some n \<and> (\<exists>c \<le> m. impact_at d s j c))"

lemma impact_ok_record:
  assumes "impact_ok d s m st" "node_at d j = Some n" "impact_at d s j c" "c \<le> m"
  shows "impact_ok d s m (tv_record n e st)"
  using assms node_at_id [OF assms(2)] by (auto simp: impact_ok_def tv_record_nodes)

lemma impact_sound:
  "impact_at d s i c \<Longrightarrow> impact_ok d s m st \<Longrightarrow> impact_ok d s m (getImpactRecursive d i m c st)"
  "impact_at d s i c \<Longrightarrow> c \<le> m \<Longrightarrow> node_at d i = Some n \<Longrightarrow> n_kind n \<in> set CONTAINER_KINDS \<Longrightarrow>
     set es \<subseteq> set (getOutgoingEdges i [EK_contains] None d) \<Longrightarrow> impact_ok d s m st \<Longrightarrow>
     impact_ok d s m (impact_children d m c ids es st)"
  "impact_at d s i c \<Longrightarrow> c < m \<Longrightarrow> set es \<subseteq> {e \<in> set (getIncomingEdges i [] d). e_kind e \<noteq> EK_contains} \<Longrightarrow>
     impact_ok d s m st \<Longrightarrow> impact_ok d s m (impact_sources d m c ids es st)"
proof (induction d i m c st and d m c ids es st and d m c ids es st arbitrary: and i n and i
    rule: getImpactRecursive_impact_children_impact_sources.induct)
  case (1 d i m c st)
  show ?case
  proof (cases "m \<le> c \<or> i \<in> tv_visited st")
    case True
    with "1.prems" show ?thesis
      by (simp add: getImpactRecursive.simps)
  next
    case False
    let ?st1 = "tv_mark i st" and ?es = "getOutgoingEdges i [EK_contains] None d"
    let ?in = "filter (\<lambda>e. e_kind e \<noteq> EK_contains) (getIncomingEdges i [] d)"
    let ?st2 = "case node_at d i of None \<Rightarrow> ?st1
      | Some n \<Rightarrow> if n_kind n \<in> set CONTAINER_KINDS then impact_children d m c (map e_target ?es) ?es ?st1
                  else ?st1"
    have ok1: "impact_ok d s m ?st1"
      using "1.prems"(2) by (simp add: impact_ok_def)
    have ok2: "impact_ok d s m ?st2"
    proof (cases "node_at d i")
      case (Some n)
      show ?thesis
      proof (cases "n_kind n \<in> set CONTAINER_KINDS")
        case True
        from False have "c \<le> m" by simp
        from "1.IH"(1) [OF False refl refl Some True "1.prems"(1) this Some True order_refl ok1] Some True
        show ?thesis by simp
      qed (use Some ok1 in simp)
    qed (use ok1 in simp)
    from False have "c < m" by simp
    from "1.IH"(2) [OF False refl refl refl refl "1.prems"(1) this _ ok2]
    have "impact_ok d s m (impact_sources d m c (map e_source ?in) ?in ?st2)"
      by simp
    with False show ?thesis
      by (simp add: getImpactRecursive.simps [of d i m c st] Let_def)
  qed
next
  case (3 d m c ids e es st)
  have at: "impact_at d s (e_target e) c"
    using impact_member [OF "3.prems"(1,3,4)] "3.prems"(5) by simp
  have rec: "impact_ok d s m (tv_record n e st)" if "fetched d ids (e_target e) = Some n" for n
    using impact_ok_record [OF "3.prems"(6) fetched_Some [OF that] at "3.prems"(2)] .
  have step: "impact_ok d s m (case fetched d ids (e_target e) of None \<Rightarrow> st
      | Some n \<Rightarrow> if n_id n \<in> tv_visited st then st else getImpactRecursive d (n_id n) m c (tv_record n e st))"
    using "3.prems"(6) "3.IH"(1) rec at by (auto simp: fetched_id split: option.splits)
  have "set es \<subseteq> set (getOutgoingEdges i [EK_contains] None d)"
    using "3.prems"(5) by simp
  from "3.IH"(2) [OF "3.prems"(1-4) this step] show ?case
    by simp
next
  case (5 d m c ids e es st)
  have at: "impact_at d s (e_source e) (Suc c)"
    using impact_user [OF "5.prems"(1)] "5.prems"(3) by simp
  from "5.prems"(2) have le: "Suc c \<le> m" by simp
  have rec: "impact_ok d s m (tv_record n e st)" if "fetched d ids (e_source e) = Some n" for n
    using impact_ok_record [OF "5.prems"(4) fetched_Some [OF that] at le] .
  have step: "impact_ok d s m (case fetched d ids (e_source e) of None \<Rightarrow> st
      | Some n \<Rightarrow> if map_has (tv_nodes st) (n_id n) then st
                  else getImpactRecursive d (n_id n) m (c + 1) (tv_record n e st))"
    using "5.prems"(4) "5.IH"(1) rec at by (auto simp: fetched_id split: option.splits)
  have "set es \<subseteq> {e \<in> set (getIncomingEdges i [] d). e_kind e \<noteq> EK_contains}"
    using "5.prems"(3) by simp
  from "5.IH"(2) [OF "5.prems"(1,2) this step] show ?case
    by simp
qed simp_all

section \<open>A small graph for the witnesses\<close>

definition sample_row :: "string \<Rightarrow> node_kind \<Rightarrow> node_row" where
  "sample_row i k =
     \<lparr>r_id = i, r_kind = k, r_name = i, r_qualified_name = i, r_file_path = ''a.ts'',
      r_language = L_typescript, r_start_line = 1, r_end_line = 2, r_start_column = 0, r_end_column = 0,
      r_docstring = None, r_signature = None, r_visibility = None, r_is_exported = 0, r_is_async = 0,
      r_is_static = 0, r_is_abstract = 0, r_decorators = None, r_type_parameters = None,
      r_return_type = None, r_updated_at = 0\<rparr>"

definition sample_edge :: "nat \<Rightarrow> string \<Rightarrow> edge_kind \<Rightarrow> string \<Rightarrow> edge_row" where
  "sample_edge i a k b =
     \<lparr>er_id = i, er_source = a, er_target = b, er_kind = k, er_metadata = None, er_line = None,
      er_col = None, er_provenance = None\<rparr>"

text \<open>
  A class with a method, its subclass, and a chain of calls into the method: \<open>f\<close> and \<open>g\<close> call \<open>m\<close>,
  \<open>g\<close> also calls \<open>f\<close>, \<open>h\<close> calls \<open>g\<close> and \<open>k\<close> calls \<open>h\<close>.
\<close>

definition sample_db :: db where
  "sample_db = empty_db
     \<lparr>t_nodes := [sample_row ''A'' NK_class, sample_row ''B'' NK_class, sample_row ''m'' NK_method,
        sample_row ''f'' NK_function, sample_row ''g'' NK_function, sample_row ''h'' NK_function,
        sample_row ''k'' NK_function],
      t_edges := [sample_edge 1 ''A'' EK_contains ''m'', sample_edge 2 ''B'' EK_extends ''A'',
        sample_edge 3 ''f'' EK_calls ''m'', sample_edge 4 ''g'' EK_calls ''m'',
        sample_edge 5 ''g'' EK_calls ''f'', sample_edge 6 ''h'' EK_calls ''g'',
        sample_edge 7 ''k'' EK_calls ''h''],
      t_edge_seq := 7\<rparr>"

abbreviation sample_node :: "string \<Rightarrow> node_kind \<Rightarrow> node" where
  "sample_node i k \<equiv> rowToNode (sample_row i k)"

lemma sample_nodes:
  "node_at sample_db ''A'' = Some (sample_node ''A'' NK_class)"
  "node_at sample_db ''B'' = Some (sample_node ''B'' NK_class)"
  "node_at sample_db ''m'' = Some (sample_node ''m'' NK_method)"
  "node_at sample_db ''k'' = Some (sample_node ''k'' NK_function)"
  by (simp_all add: node_at_def node_row_of_def sample_db_def sample_row_def empty_db_def)

lemma sample_size: "card (node_ids sample_db) < 1000"
  by (simp add: sample_db_def empty_db_def sample_row_def)

lemma sample_caller_links:
  "caller_link sample_db ''m'' ''g''" "caller_link sample_db ''g'' ''h''" "caller_link sample_db ''h'' ''k''"
  by code_simp+

text \<open>
  The depth-limited walk is not a search by distance: \<open>g\<close> is first met two steps away, behind \<open>f\<close>,
  and is then visited; so its own callers are explored from there only, and \<open>k\<close>, three steps away by
  \<open>g\<close> and \<open>h\<close>, is not found at depth three.
\<close>

lemma callers_miss:
  "(caller_link sample_db ^^ 3) ''m'' ''k'' \<and> ''k'' \<notin> n_id ` fst ` set (getCallers sample_db ''m'' 3)"
proof
  have "(caller_link sample_db ^^ Suc (Suc (Suc 0))) ''m'' ''k''"
    using sample_caller_links by (auto intro!: relcomppI)
  then show "(caller_link sample_db ^^ 3) ''m'' ''k''"
    by (simp add: numeral_3_eq_3)
  show "''k'' \<notin> n_id ` fst ` set (getCallers sample_db ''m'' 3)"
    by code_simp
qed

text \<open>The node limit is tested between expansions, so one expansion can go past it.\<close>

lemma bfs_limit_exceeded:
  "o_limit opts < length (g_nodes (traverseBFS sample_db ''m'' opts))"
  if "opts = DEFAULT_OPTIONS\<lparr>o_limit := 2, o_direction := Incoming\<rparr>"
  unfolding that by code_simp

section \<open>Properties\<close>

text \<open>
  C10: whatever its limit, breadth-first traversal returns only nodes within the depth bound, which are at most
  \<open>maxDepth\<close> steps from the start along edges of the wanted kinds and direction through nodes of the wanted
  kinds, each with its stored node and the start node only when it is to be included; and it returns all of
  them when it returns fewer nodes than the limit. A start that is not stored gives an empty result.
\<close>

theorem traverseBFS_exact:
  "if node_at d s = None then traverseBFS d s opts = empty_subgraph
   else case map_get (g_nodes (traverseBFS d s opts)) j of
       Some x \<Rightarrow> wanted_node d opts s j \<and> node_at d j = Some x
     | None \<Rightarrow> \<not> (wanted_node d opts s j \<and> node_at d j \<noteq> None \<and> length (g_nodes (traverseBFS d s opts)) < o_limit opts)"
proof (cases "node_at d s")
  case (Some n)
  from traverseBFS_any_limit [OF Some, of opts j] Some show ?thesis
    by (auto split: option.split)
qed (simp add: traverseBFS_def)

text \<open>
  Depth-first traversal without a depth bound and with a limit no result can reach returns exactly
  the reachable nodes, so it finds the same nodes as the breadth-first one.
\<close>

theorem traverseDFS_exact:
  assumes "node_at d s = Some n" and "o_maxDepth opts = None" and "card (node_ids d) < o_limit opts"
  shows "map_get (g_nodes (traverseDFS d s opts)) j =
      (if (bfs_link d opts)\<^sup>*\<^sup>* s j \<and> (o_includeStart opts \<or> j \<noteq> s) then node_at d j else None) \<and>
    map_get (g_nodes (traverseDFS d s opts)) j = map_get (g_nodes (traverseBFS d s opts)) j"
proof -
  have "unlimited d opts"
    using assms by (simp add: unlimited_def)
  then show ?thesis
    using traverseDFS_nodes [OF assms(1)] traverseBFS_nodes [OF assms(1,3)] assms(2)
    by (simp add: within_depth_def rtranclp_power)
qed

theorem traverseDFS_exact_witness:
  "map_get (g_nodes (traverseDFS sample_db ''k'' DEFAULT_OPTIONS)) ''m'' =
   map_get (g_nodes (traverseBFS sample_db ''k'' DEFAULT_OPTIONS)) ''m''"
proof -
  have "o_maxDepth DEFAULT_OPTIONS = None" "card (node_ids sample_db) < o_limit DEFAULT_OPTIONS"
    using sample_size by (simp_all add: DEFAULT_OPTIONS_def)
  from traverseDFS_exact [OF sample_nodes(4) this, of "''m''"] show ?thesis
    by (rule conjunct2)
qed

text \<open>
  C8: \<open>findPath\<close> returns a shortest path. A returned list starts at the source, follows stored edges of
  the wanted kinds, ends at the target and has as many edges as the distance; and null is returned
  exactly when an endpoint is not stored or the target cannot be reached.
\<close>

theorem findPath_shortest:
  "case findPath d fromId toId kinds of
     None \<Rightarrow> \<not> (node_at d fromId \<noteq> None \<and> node_at d toId \<noteq> None \<and> (path_link d kinds)\<^sup>*\<^sup>* fromId toId)
   | Some p \<Rightarrow> path_ok d kinds fromId p toId \<and>
       length p = Suc (hop_dist (path_link d kinds) fromId toId)"
proof (cases "node_at d fromId = None \<or> node_at d toId = None")
  case False
  then obtain n t where n: "node_at d fromId = Some n" "node_at d toId = Some t"
    by auto
  then have "path_inv d kinds fromId toId {} [(fromId, [(n, None)])]"
    using sp.inv_init [of d kinds fromId] by (simp add: path_inv_def path_key_def path_ok_start)
  from path_loop_correct [OF this] n show ?thesis
    by (simp add: findPath_def split: option.splits)
qed (auto simp: findPath_def split: option.splits)

text \<open>
  The type hierarchy of a stored type is the type with everything it extends or implements,
  directly or not. Nothing below it is returned, because both walks share one set of visited nodes
  and the first has marked the type itself.
\<close>

theorem getTypeHierarchy_exact:
  assumes "node_at d i = Some n"
  shows "map_get (g_nodes (getTypeHierarchy d i)) j = (if (type_link d)\<^sup>*\<^sup>* i j then node_at d j else None)"
  using assms by (rule getTypeHierarchy_nodes)

theorem getTypeHierarchy_exact_witness:
  "map_get (g_nodes (getTypeHierarchy sample_db ''A'')) ''B'' = None"
proof -
  have "\<not> type_link sample_db ''A'' j" for j
    by (simp add: type_link_def getOutgoingEdges_def sample_db_def empty_db_def sample_edge_def TYPE_KINDS_def)
  then have "\<not> (type_link sample_db)\<^sup>*\<^sup>* ''A'' ''B''"
    by (auto elim: converse_rtranclpE)
  with getTypeHierarchy_exact [OF sample_nodes(1), of "''B''"] show ?thesis
    by simp
qed

text \<open>
  Every caller reported up to a depth is one: a stored node that is the source of a call,
  reference or import edge into a node fewer than \<open>maxDepth\<close> such steps from the symbol.
\<close>

theorem getCallers_sound:
  "list_all (caller_ok d i m) (getCallers d i m)"
  using callers_sound(1) [of 0 d i i "\<lparr>w_result = [], w_visited = {}\<rparr>" m]
  by (simp add: getCallers_def list_all_iff)

text \<open>
  At the default depth of one, \<open>getCallers\<close> is complete: one entry for each call, reference or
  import edge into the symbol from a stored node other than the symbol, in the order of the edges.
\<close>

theorem getCallers_direct:
  "getCallers d i 1 = List.map_filter (direct_caller d {i}) (getIncomingEdges i CALL_KINDS d)"
  by (rule getCallers_1)

text \<open>
  C31: a node in the impact radius is a stored node that a change can reach at a cost within the bound,
  going down into the members of containers for free and against other edges for one each; in
  particular no containment edge is climbed.
\<close>

theorem getImpactRadius_sound:
  "case map_get (g_nodes (getImpactRadius d i m)) j of
     None \<Rightarrow> True
   | Some n \<Rightarrow> node_at d j = Some n \<and> (\<exists>c. c \<le> m \<and> impact_at d i j c)"
proof (cases "node_at d i")
  case (Some n)
  let ?st = "\<lparr>tv_nodes = [(n_id n, n)], tv_edges = [], tv_visited = {}\<rparr>"
  have "impact_ok d i m ?st"
    using Some node_at_id [OF Some] impact_self by (auto simp: impact_ok_def)
  with impact_sound(1) [OF impact_self] have "impact_ok d i m (getImpactRecursive d i m 0 ?st)"
    by blast
  with Some show ?thesis
    by (auto simp: getImpactRadius_def impact_ok_def Let_def split: option.splits)
qed (simp add: getImpactRadius_def empty_subgraph_def)

text \<open>
  C33: the ancestors of a node are its chain of containing nodes, from the immediate parent up. The walk
  always ends, at a node without a parent or, on a containment cycle, when it comes back to a node it
  has passed; no node is passed twice, so there are at most as many ancestors as stored nodes.
\<close>

theorem getAncestors_chain:
  "parent_chain d i (getAncestors d i) \<and>
   distinct (butlast (i # map n_id (getAncestors d i))) \<and>
   (parent_of d (last (i # map n_id (getAncestors d i))) = None \<or>
    last (i # map n_id (getAncestors d i)) \<in> set (butlast (i # map n_id (getAncestors d i)))) \<and>
   length (getAncestors d i) \<le> Suc (card (node_ids d))"
proof -
  let ?as = "getAncestors d i"
  have chain: "parent_chain d i ?as" "distinct (butlast (i # map n_id ?as))"
    "parent_of d (last (i # map n_id ?as)) = None \<or>
     last (i # map n_id ?as) \<in> set (butlast (i # map n_id ?as))"
    using ancestor_walk_chain [of d "{}" i "[]"] by (auto simp: getAncestors_def)
  have "set (butlast (i # map n_id ?as)) \<subseteq> insert i (node_ids d)"
  proof
    fix j assume "j \<in> set (butlast (i # map n_id ?as))"
    then have "j \<in> set (i # map n_id ?as)"
      by (rule in_set_butlastD)
    then show "j \<in> insert i (node_ids d)"
      using parent_chain_stored [OF chain(1)] node_at_ids [of d j] by auto
  qed
  then have "length (butlast (i # map n_id ?as)) \<le> card (insert i (node_ids d))"
    using card_mono [of "insert i (node_ids d)"] distinct_card [OF chain(2)] by (metis finite_insert finite_node_ids)
  also have "\<dots> \<le> Suc (card (node_ids d))"
    by (rule card_insert_le_m1) auto
  finally have "length ?as \<le> Suc (card (node_ids d))"
    by (simp only: length_butlast length_Cons length_map diff_Suc_1)
  with chain show ?thesis
    by blast
qed

end
