(* ===== verification/GraphQueries.thy ===== *)
theory GraphQueries
  imports TraversalLaws
begin

text \<open>
  \<open>GraphQueryManager\<close> of \<open>codegraph/src/graph/queries.ts\<close>: context of a node, file dependencies and
  their cycles, module structure, dead code, metrics, filtered subgraphs, name patterns. The manager
  only reads, so its operations take the database.
\<close>

section \<open>Context of a node\<close>

datatype context_error = Node_not_found string

text \<open>The loops over the edges that skip containment and keep the stored other ends.\<close>

definition ref_entry :: "db \<Rightarrow> (edge \<Rightarrow> string) \<Rightarrow> edge \<Rightarrow> (node \<times> edge) option" where
  "ref_entry d end_of e =
     (if e_kind e = EK_contains then None else map_option (\<lambda>n. (n, e)) (node_at d (end_of e)))"

fun collect_types :: "db \<Rightarrow> edge list \<Rightarrow> node list \<Rightarrow> node list" where
  "collect_types d [] types = types"
| "collect_types d (e # es) types =
     collect_types d es
       (case node_at d (e_target e) of
          None \<Rightarrow> types
        | Some typeNode \<Rightarrow>
            if \<exists>t \<in> set types. n_id t = n_id typeNode then types else types @ [typeNode])"

definition getContext :: "db \<Rightarrow> string \<Rightarrow> context_error + node_context" where
  "getContext d nodeId =
     (case node_at d nodeId of
        None \<Rightarrow> Inl (Node_not_found nodeId)
      | Some focal \<Rightarrow>
          (let ancestors = getAncestors d nodeId;
               children = getChildren d nodeId;
               incomingRefs = List.map_filter (ref_entry d e_source) (getIncomingEdges nodeId [] d);
               outgoingRefs = List.map_filter (ref_entry d e_target) (getOutgoingEdges nodeId [] None d);
               types = fold (\<lambda>kind. collect_types d (getOutgoingEdges nodeId [kind] None d))
                         [EK_type_of, EK_returns] [];
               imports = (case find (\<lambda>a. n_kind a = NK_file) ancestors of
                            None \<Rightarrow> []
                          | Some fileNode \<Rightarrow>
                              List.map_filter (\<lambda>e. node_at d (e_target e))
                                (getOutgoingEdges (n_id fileNode) [EK_imports] None d))
           in Inr \<lparr>c_focal = focal, c_ancestors = ancestors, c_children = children,
                   c_incomingRefs = incomingRefs, c_outgoingRefs = outgoingRefs, c_types = types,
                   c_imports = imports\<rparr>))"

section \<open>Files\<close>

definition getFileDependencies :: "db \<Rightarrow> string \<Rightarrow> string list" where
  "getFileDependencies d filePath = getDependencyFilePaths filePath d"

definition getFileDependents :: "db \<Rightarrow> string \<Rightarrow> string list" where
  "getFileDependents d filePath = getDependentFilePaths filePath d"

definition getExportedSymbols :: "db \<Rightarrow> string \<Rightarrow> node list" where
  "getExportedSymbols d filePath = filter (\<lambda>n. n_isExported n = Some True) (getNodesByFile filePath d)"

definition slash :: char where
  "slash = CHR ''/''"

definition file_dir :: "string \<Rightarrow> string" where
  "file_dir path =
     (let dir = join_with [slash] (butlast (split_by (\<lambda>c. c = slash) path))
      in if dir = '''' then ''.'' else dir)"

definition add_to_dir :: "string \<Rightarrow> (string, string list) jmap \<Rightarrow> (string, string list) jmap" where
  "add_to_dir path structure =
     (let dir = file_dir path
      in map_set dir ((case map_get structure dir of None \<Rightarrow> [] | Some ps \<Rightarrow> ps) @ [path]) structure)"

definition getModuleStructure :: "db \<Rightarrow> (string, string list) jmap" where
  "getModuleStructure d = fold add_to_dir (map f_path (getAllFiles d)) []"

section \<open>Name patterns\<close>

text \<open>
  The pattern becomes an anchored regular expression in which only \<open>*\<close> and \<open>?\<close> are special: they are
  \<open>.*\<close> and \<open>.\<close>, which match no line terminator.
\<close>

definition line_terminator :: "char \<Rightarrow> bool" where
  "line_terminator c = (c = newline \<or> c = CHR 0x0D)"

function glob_match :: "string \<Rightarrow> string \<Rightarrow> bool" where
  "glob_match [] s = (s = [])"
| "glob_match (p # ps) [] = (p = CHR ''*'' \<and> glob_match ps [])"
| "glob_match (p # ps) (c # cs) =
     (if p = CHR ''*'' then glob_match ps (c # cs) \<or> (\<not> line_terminator c \<and> glob_match (p # ps) cs)
      else if p = CHR ''?'' then \<not> line_terminator c \<and> glob_match ps cs
      else p = c \<and> glob_match ps cs)"
  by pat_completeness auto
termination
  by (relation "measure (\<lambda>(p, s). length p + length s)") auto

definition PATTERN_KINDS :: "node_kind list" where
  "PATTERN_KINDS =
     [NK_class, NK_function, NK_method, NK_interface, NK_type_alias, NK_variable, NK_constant]"

definition findByQualifiedName :: "db \<Rightarrow> string \<Rightarrow> node list" where
  "findByQualifiedName d pattern =
     concat (map (\<lambda>kind. filter (\<lambda>n. glob_match pattern (n_qualifiedName n)) (getNodesByKind kind d))
       PATTERN_KINDS)"

section \<open>Circular dependencies\<close>

fun list_index :: "'a \<Rightarrow> 'a list \<Rightarrow> nat option" where
  "list_index x [] = None"
| "list_index x (y # ys) = (if x = y then Some 0 else map_option Suc (list_index x ys))"

record cycle_state =
  y_cycles :: "string list list"
  y_visited :: "string set"
  y_stack :: "string set"

definition known_files :: "db \<Rightarrow> string set" where
  "known_files d = r_file_path ` set (t_nodes d)"

lemma dependency_known: "g \<in> set (getFileDependencies d f) \<Longrightarrow> g \<in> known_files d"
  by (auto simp: getFileDependencies_def dependencies_iff file_depends_def edge_join_def known_files_def)

function cycle_dfs :: "db \<Rightarrow> string \<Rightarrow> string list \<Rightarrow> cycle_state \<Rightarrow> cycle_state"
  and cycle_deps :: "db \<Rightarrow> string list \<Rightarrow> string list \<Rightarrow> cycle_state \<Rightarrow> cycle_state" where
  "cycle_dfs d filePath path st =
     (if filePath \<in> y_stack st then
        (case list_index filePath path of
           None \<Rightarrow> st
         | Some cycleStart \<Rightarrow> st\<lparr>y_cycles := y_cycles st @ [drop cycleStart path]\<rparr>)
      else if filePath \<in> y_visited st then st
      else (let st1 = st\<lparr>y_visited := insert filePath (y_visited st), y_stack := insert filePath (y_stack st)\<rparr>;
                st2 = cycle_deps d (getFileDependencies d filePath) (path @ [filePath]) st1
            in st2\<lparr>y_stack := y_stack st2 - {filePath}\<rparr>))"
| "cycle_deps d [] path st = st"
| "cycle_deps d (dep # deps) path st = cycle_deps d deps path (cycle_dfs d dep path st)"
  by pat_completeness auto

lemma cycle_grows:
  "cycle_dfs_cycle_deps_dom (Inl (d, f, path, st)) \<Longrightarrow> y_visited st \<subseteq> y_visited (cycle_dfs d f path st)"
  "cycle_dfs_cycle_deps_dom (Inr (d, deps, path, st)) \<Longrightarrow> y_visited st \<subseteq> y_visited (cycle_deps d deps path st)"
proof (induction d f path st and d deps path st rule: cycle_dfs_cycle_deps.pinduct)
  case (1 d f path st)
  then show ?case
    by (cases "f \<in> y_stack st"; cases "f \<in> y_visited st")
       (auto simp: cycle_dfs.psimps Let_def split: option.splits)
qed (auto simp: cycle_deps.psimps)

abbreviation cycle_measure :: "(db \<times> string \<times> string list \<times> cycle_state) +
    (db \<times> string list \<times> string list \<times> cycle_state) \<Rightarrow> nat" where
  "cycle_measure \<equiv> case_sum (\<lambda>(d, f, path, st). card (insert f (known_files d) - y_visited st))
     (\<lambda>(d, deps, path, st). card ((known_files d \<union> set deps) - y_visited st))"

lemma finite_known_files [simp]: "finite (known_files d)"
  by (simp add: known_files_def)

termination cycle_dfs
proof (relation "measures [cycle_measure, case_sum (\<lambda>_. 0) (\<lambda>(d, deps, path, st). Suc (length deps))]",
    goal_cases)
  case (2 d f path st st1)
  have deps: "known_files d \<union> set (getFileDependencies d f) = known_files d"
    using dependency_known by auto
  have "card (known_files d - insert f (y_visited st)) < card (insert f (known_files d) - y_visited st)"
    using 2(2) by (intro psubset_card_mono) auto
  with 2 deps show ?case
    by simp
next
  case (3 d dep deps path st)
  have "card (insert dep (known_files d) - y_visited st) \<le>
      card ((known_files d \<union> set (dep # deps)) - y_visited st)"
    by (intro card_mono) auto
  then show ?case
    by (auto simp: le_eq_less_or_eq)
next
  case (4 d dep deps path st)
  have "card ((known_files d \<union> set deps) - y_visited (cycle_dfs d dep path st)) \<le>
      card ((known_files d \<union> set (dep # deps)) - y_visited st)"
    using cycle_grows(1) [OF 4] by (intro card_mono) auto
  then show ?case
    by (auto simp: le_eq_less_or_eq)
qed simp

declare cycle_dfs.simps [simp del]

definition findCircularDependencies :: "db \<Rightarrow> string list list" where
  "findCircularDependencies d =
     y_cycles (fold (\<lambda>file st. if f_path file \<in> y_visited st then st else cycle_dfs d (f_path file) [] st)
       (getAllFiles d) \<lparr>y_cycles = [], y_visited = {}, y_stack = {}\<rparr>)"

section \<open>Metrics, dead code, filtered subgraphs\<close>

record node_metrics =
  m_incomingEdgeCount :: nat
  m_outgoingEdgeCount :: nat
  m_callCount :: nat
  m_callerCount :: nat
  m_childCount :: nat
  m_depth :: nat

definition getNodeMetrics :: "db \<Rightarrow> string \<Rightarrow> node_metrics" where
  "getNodeMetrics d nodeId =
     (let incomingEdges = getIncomingEdges nodeId [] d;
          outgoingEdges = getOutgoingEdges nodeId [] None d
      in \<lparr>m_incomingEdgeCount = length incomingEdges, m_outgoingEdgeCount = length outgoingEdges,
          m_callCount = length (filter (\<lambda>e. e_kind e = EK_calls) outgoingEdges),
          m_callerCount = length (filter (\<lambda>e. e_kind e = EK_calls) incomingEdges),
          m_childCount = length (filter (\<lambda>e. e_kind e = EK_contains) outgoingEdges),
          m_depth = length (getAncestors d nodeId)\<rparr>)"

text \<open>The default kinds replace an absent list only; an empty list means no kind.\<close>

definition findDeadCode :: "db \<Rightarrow> node_kind list option \<Rightarrow> node list" where
  "findDeadCode d kinds =
     (let targetKinds = (case kinds of None \<Rightarrow> [NK_function, NK_method, NK_class] | Some ks \<Rightarrow> ks)
      in concat (map (\<lambda>kind. filter (\<lambda>n. n_isExported n \<noteq> Some True \<and>
             filter (\<lambda>e. e_kind e \<noteq> EK_contains) (getIncomingEdges (n_id n) [] d) = [])
           (getNodesByKind kind d)) targetKinds))"

definition SUBGRAPH_KINDS :: "node_kind list" where
  "SUBGRAPH_KINDS =
     [NK_file, NK_module, NK_class, NK_struct, NK_interface, NK_trait, NK_function, NK_method,
      NK_variable, NK_constant, NK_enum, NK_type_alias]"

definition getFilteredSubgraph :: "db \<Rightarrow> (node \<Rightarrow> bool) \<Rightarrow> bool \<Rightarrow> subgraph" where
  "getFilteredSubgraph d keep includeEdges =
     (let nodes = fold (\<lambda>n. map_set (n_id n) n)
                    (concat (map (\<lambda>kind. filter keep (getNodesByKind kind d)) SUBGRAPH_KINDS)) [];
          edges = (if includeEdges
                   then concat (map (\<lambda>i. filter (\<lambda>e. map_has nodes (e_target e)) (getOutgoingEdges i [] None d))
                                 (map_keys nodes))
                   else [])
      in \<lparr>g_nodes = nodes, g_edges = edges, g_roots = []\<rparr>)"

section \<open>What the cycle search reports\<close>

text \<open>
  A reported cycle: files each of which depends on the next, and the last on the first.
\<close>

definition dependency_cycle :: "db \<Rightarrow> string list \<Rightarrow> bool" where
  "dependency_cycle d c \<longleftrightarrow>
     c \<noteq> [] \<and> successively (file_depends d) c \<and> file_depends d (last c) (hd c)"

lemma deps_iff: "g \<in> set (getFileDependencies d f) \<longleftrightarrow> file_depends d f g"
  by (simp add: getFileDependencies_def dependencies_iff)

lemma list_index_Some: "list_index x ys = Some k \<Longrightarrow> k < length ys \<and> ys ! k = x"
  by (induction ys arbitrary: k) (auto split: if_splits)

lemma list_index_None: "list_index x ys = None \<longleftrightarrow> x \<notin> set ys"
  by (induction ys) auto

lemma successively_drop: "successively P xs \<Longrightarrow> successively P (drop k xs)"
  by (induction xs arbitrary: k) (auto simp: drop_Cons successively_Cons split: nat.splits)

lemma cycle_sound:
  "list_all (dependency_cycle d) (y_cycles st) \<Longrightarrow> y_stack st = set path \<Longrightarrow>
     successively (file_depends d) (path @ [f]) \<Longrightarrow>
     list_all (dependency_cycle d) (y_cycles (cycle_dfs d f path st)) \<and> y_stack (cycle_dfs d f path st) = set path"
  "list_all (dependency_cycle d) (y_cycles st) \<Longrightarrow> y_stack st = set path \<Longrightarrow> path \<noteq> [] \<Longrightarrow>
     successively (file_depends d) path \<Longrightarrow> list_all (file_depends d (last path)) deps \<Longrightarrow>
     list_all (dependency_cycle d) (y_cycles (cycle_deps d deps path st)) \<and> y_stack (cycle_deps d deps path st) = set path"
proof (induction d f path st and d deps path st rule: cycle_dfs_cycle_deps.induct)
  case (1 d f path st)
  consider "f \<in> y_stack st" | "f \<notin> y_stack st" "f \<in> y_visited st" | "f \<notin> y_stack st" "f \<notin> y_visited st"
    by blast
  then show ?case
  proof cases
    case 1
    with "1.prems" obtain k where k: "list_index f path = Some k"
      by (cases "list_index f path") (auto simp: list_index_None)
    then have "k < length path" "hd (drop k path) = f"
      using list_index_Some [OF k] by (simp_all add: hd_drop_conv_nth)
    moreover have "successively (file_depends d) path" "file_depends d (last path) f"
      using "1.prems"(3) calculation(1) by (auto simp: successively_append_iff)
    ultimately have "dependency_cycle d (drop k path)"
      by (simp add: dependency_cycle_def successively_drop)
    with 1 k "1.prems" show ?thesis
      by (simp add: cycle_dfs.simps)
  next
    case 2
    with "1.prems" show ?thesis
      by (simp add: cycle_dfs.simps)
  next
    case 3
    let ?st1 = "st\<lparr>y_visited := insert f (y_visited st), y_stack := insert f (y_stack st)\<rparr>"
    have "list_all (file_depends d (last (path @ [f]))) (getFileDependencies d f)"
      by (simp add: list_all_iff deps_iff)
    then have "list_all (dependency_cycle d) (y_cycles (cycle_deps d (getFileDependencies d f) (path @ [f]) ?st1)) \<and>
        y_stack (cycle_deps d (getFileDependencies d f) (path @ [f]) ?st1) = set (path @ [f])"
      using "1.prems" by (intro "1.IH" [OF 3 refl]) simp_all
    with 3 "1.prems"(2) show ?thesis
      by (simp add: cycle_dfs.simps [of d f path st] Let_def)
  qed
next
  case (3 d dep deps path st)
  have "successively (file_depends d) (path @ [dep])"
    using "3.prems"(3-5) by (simp add: successively_append_iff)
  from "3.IH"(1) [OF "3.prems"(1,2) this] "3.IH"(2) "3.prems"(3-5) show ?case
    by simp
qed simp_all

section \<open>What a search without a report proves\<close>

lemma cycle_stack:
  "y_stack (cycle_dfs d f path st) = y_stack st"
  "y_stack (cycle_deps d deps path st) = y_stack st"
proof (induction d f path st and d deps path st rule: cycle_dfs_cycle_deps.induct)
  case (1 d f path st)
  then show ?case
    by (cases "f \<in> y_stack st"; cases "f \<in> y_visited st")
       (simp_all add: cycle_dfs.simps [of d f path st] Let_def split: option.splits)
qed simp_all

lemma cycles_prefix:
  "prefix (y_cycles st) (y_cycles (cycle_dfs d f path st))"
  "prefix (y_cycles st) (y_cycles (cycle_deps d deps path st))"
proof (induction d f path st and d deps path st rule: cycle_dfs_cycle_deps.induct)
  case (1 d f path st)
  then show ?case
    by (cases "f \<in> y_stack st"; cases "f \<in> y_visited st")
       (simp_all add: cycle_dfs.simps [of d f path st] Let_def split: option.splits)
next
  case (3 d dep deps path st)
  then show ?case
    unfolding cycle_deps.simps using prefix_order.order_trans by blast
qed simp_all

text \<open>
  The finished files (visited and no longer on the stack) are closed under dependency and none of them
  lies on a cycle.
\<close>

definition finished_ok :: "db \<Rightarrow> cycle_state \<Rightarrow> bool" where
  "finished_ok d st \<longleftrightarrow>
     (\<forall>v \<in> y_visited st - y_stack st.
        (\<forall>w. file_depends d v w \<longrightarrow> w \<in> y_visited st - y_stack st) \<and> \<not> (file_depends d)\<^sup>+\<^sup>+ v v)"

lemma finish_ok:
  assumes "finished_ok d st" "f \<in> y_stack st" "f \<in> y_visited st"
    and "\<And>w. file_depends d f w \<Longrightarrow> w \<in> y_visited st - y_stack st"
  shows "finished_ok d (st\<lparr>y_stack := y_stack st - {f}\<rparr>)"
proof -
  let ?F = "y_visited st - y_stack st"
  have closed: "v \<in> ?F \<Longrightarrow> file_depends d v w \<Longrightarrow> w \<in> ?F" for v w
    using assms(1) unfolding finished_ok_def by blast
  have "\<not> (file_depends d)\<^sup>+\<^sup>+ f f"
  proof
    assume "(file_depends d)\<^sup>+\<^sup>+ f f"
    then obtain w where w: "file_depends d f w" "(file_depends d)\<^sup>*\<^sup>* w f"
      by (blast dest: tranclpD)
    have "w \<in> ?F"
      using w(1) by (rule assms(4))
    with w(2) have "f \<in> ?F"
      by (induction rule: rtranclp_induct) (use closed in blast)+
    then show False
      using assms(2) by simp
  qed
  then have acyclic: "\<not> (file_depends d)\<^sup>+\<^sup>+ v v" if "v \<in> insert f ?F" for v
    using that assms(1) unfolding finished_ok_def by blast
  have "w \<in> insert f ?F" if "v \<in> insert f ?F" "file_depends d v w" for v w
    using that assms(4) closed by blast
  moreover have "y_visited st - (y_stack st - {f}) = insert f ?F"
    using assms(2,3) by auto
  ultimately show ?thesis
    using acyclic by (simp add: finished_ok_def)
qed

lemma cycle_complete:
  "finished_ok d st \<Longrightarrow> y_stack st = set path \<Longrightarrow> set path \<subseteq> y_visited st \<Longrightarrow>
     y_cycles (cycle_dfs d f path st) = y_cycles st \<Longrightarrow>
     finished_ok d (cycle_dfs d f path st) \<and> f \<in> y_visited (cycle_dfs d f path st) - set path \<and>
     y_visited st \<subseteq> y_visited (cycle_dfs d f path st)"
  "finished_ok d st \<Longrightarrow> y_stack st = set path \<Longrightarrow> set path \<subseteq> y_visited st \<Longrightarrow>
     y_cycles (cycle_deps d deps path st) = y_cycles st \<Longrightarrow>
     finished_ok d (cycle_deps d deps path st) \<and> set deps \<subseteq> y_visited (cycle_deps d deps path st) - set path \<and>
     y_visited st \<subseteq> y_visited (cycle_deps d deps path st)"
proof (induction d f path st and d deps path st rule: cycle_dfs_cycle_deps.induct)
  case (1 d f path st)
  consider "f \<in> y_stack st" | "f \<notin> y_stack st" "f \<in> y_visited st" | "f \<notin> y_stack st" "f \<notin> y_visited st"
    by blast
  then show ?case
  proof cases
    case 1
    with "1.prems"(2) obtain k where "list_index f path = Some k"
      by (cases "list_index f path") (auto simp: list_index_None)
    with 1 "1.prems"(4) show ?thesis
      by (simp add: cycle_dfs.simps)
  next
    case 2
    with "1.prems" show ?thesis
      by (simp add: cycle_dfs.simps)
  next
    case 3
    let ?st1 = "st\<lparr>y_visited := insert f (y_visited st), y_stack := insert f (y_stack st)\<rparr>"
    let ?st2 = "cycle_deps d (getFileDependencies d f) (path @ [f]) ?st1"
    have res: "cycle_dfs d f path st = ?st2\<lparr>y_stack := y_stack ?st2 - {f}\<rparr>"
      using 3 by (simp add: cycle_dfs.simps [of d f path st] Let_def)
    have "finished_ok d ?st1"
    proof -
      have eq: "y_visited ?st1 - y_stack ?st1 = y_visited st - y_stack st"
        using 3 by auto
      show ?thesis
        using "1.prems"(1) unfolding finished_ok_def eq .
    qed
    moreover have "y_stack ?st1 = set (path @ [f])" "set (path @ [f]) \<subseteq> y_visited ?st1"
      using "1.prems"(2,3) by auto
    moreover have "y_cycles ?st2 = y_cycles ?st1"
      using "1.prems"(4) by (simp add: res)
    ultimately have IH: "finished_ok d ?st2"
      "set (getFileDependencies d f) \<subseteq> y_visited ?st2 - set (path @ [f])" "y_visited ?st1 \<subseteq> y_visited ?st2"
      using "1.IH" [OF 3 refl] by blast+
    have stack: "y_stack ?st2 = insert f (set path)"
      using "1.prems"(2) by (simp add: cycle_stack)
    have "finished_ok d (?st2\<lparr>y_stack := y_stack ?st2 - {f}\<rparr>)"
    proof (rule finish_ok [OF IH(1)])
      show "f \<in> y_stack ?st2" "f \<in> y_visited ?st2"
        using stack IH(3) by auto
      show "\<And>w. file_depends d f w \<Longrightarrow> w \<in> y_visited ?st2 - y_stack ?st2"
        using IH(2) stack by (auto simp flip: deps_iff)
    qed
    then show ?thesis
      using 3(1) IH(3) "1.prems"(2) unfolding res by auto
  qed
next
  case (2 d path st)
  then show ?case
    by simp
next
  case (3 d dep deps path st)
  let ?st1 = "cycle_dfs d dep path st"
  have "prefix (y_cycles st) (y_cycles ?st1)" "prefix (y_cycles ?st1) (y_cycles (cycle_deps d deps path ?st1))"
    by (rule cycles_prefix)+
  with "3.prems"(4) have same: "y_cycles ?st1 = y_cycles st"
    "y_cycles (cycle_deps d deps path ?st1) = y_cycles ?st1"
    using prefix_order.antisym by fastforce+
  from "3.IH"(1) [OF "3.prems"(1-3) same(1)] have st1: "finished_ok d ?st1"
    "dep \<in> y_visited ?st1 - set path" "y_visited st \<subseteq> y_visited ?st1"
    by blast+
  have "y_stack ?st1 = set path" "set path \<subseteq> y_visited ?st1"
    using "3.prems"(2,3) st1(3) by (auto simp: cycle_stack)
  from "3.IH"(2) [OF st1(1) this same(2)] st1 show ?case
    by auto
qed

text \<open>The loop over the tracked files.\<close>

definition cycle_scan :: "db \<Rightarrow> string list \<Rightarrow> cycle_state \<Rightarrow> cycle_state" where
  "cycle_scan d = fold (\<lambda>f st. if f \<in> y_visited st then st else cycle_dfs d f [] st)"

lemma cycle_scan_Cons:
  "cycle_scan d (f # fs) st = cycle_scan d fs (if f \<in> y_visited st then st else cycle_dfs d f [] st)"
  by (simp add: cycle_scan_def)

lemma cycle_scan_sound:
  assumes "y_stack st = {}" "list_all (dependency_cycle d) (y_cycles st)"
  shows "list_all (dependency_cycle d) (y_cycles (cycle_scan d fs st)) \<and> prefix (y_cycles st) (y_cycles (cycle_scan d fs st))"
  using assms
proof (induction fs arbitrary: st)
  case (Cons f fs)
  let ?st = "if f \<in> y_visited st then st else cycle_dfs d f [] st"
  have "list_all (dependency_cycle d) (y_cycles ?st)" "y_stack ?st = {}"
    using cycle_sound(1) [of d st "[]" f] Cons.prems by (auto simp: cycle_stack)
  moreover have "prefix (y_cycles st) (y_cycles ?st)"
    by (simp add: cycles_prefix)
  ultimately show ?case
    using Cons.IH [of ?st] unfolding cycle_scan_Cons by (blast intro: prefix_order.order_trans)
qed (simp add: cycle_scan_def)

lemma cycle_scan_complete:
  assumes "y_stack st = {}" "list_all (dependency_cycle d) (y_cycles st)" "finished_ok d st"
    and "y_cycles (cycle_scan d fs st) = y_cycles st"
  shows "finished_ok d (cycle_scan d fs st) \<and> set fs \<union> y_visited st \<subseteq> y_visited (cycle_scan d fs st) \<and>
    y_stack (cycle_scan d fs st) = {}"
  using assms
proof (induction fs arbitrary: st)
  case (Cons f fs)
  let ?st = "if f \<in> y_visited st then st else cycle_dfs d f [] st"
  have st: "list_all (dependency_cycle d) (y_cycles ?st)" "y_stack ?st = {}"
    using cycle_sound(1) [of d st "[]" f] Cons.prems by (auto simp: cycle_stack)
  have "prefix (y_cycles st) (y_cycles ?st)"
    by (simp add: cycles_prefix)
  moreover have "prefix (y_cycles ?st) (y_cycles (cycle_scan d fs ?st))"
    using cycle_scan_sound [OF st(2,1)] by blast
  ultimately have same: "y_cycles ?st = y_cycles st" "y_cycles (cycle_scan d fs ?st) = y_cycles ?st"
    using Cons.prems(4) prefix_order.antisym unfolding cycle_scan_Cons by fastforce+
  have "finished_ok d ?st \<and> f \<in> y_visited ?st \<and> y_visited st \<subseteq> y_visited ?st"
    using same(1) cycle_complete(1) [of d st "[]" f] Cons.prems by (cases "f \<in> y_visited st") auto
  with Cons.IH [OF st(2,1) _ same(2)] show ?case
    unfolding cycle_scan_Cons by auto
qed (simp add: cycle_scan_def)

lemma findCircularDependencies_scan:
  "findCircularDependencies d =
     y_cycles (cycle_scan d (map f_path (getAllFiles d)) \<lparr>y_cycles = [], y_visited = {}, y_stack = {}\<rparr>)"
  by (simp add: findCircularDependencies_def cycle_scan_def fold_map comp_def)

text \<open>Every dependency cycle within reach of a tracked file makes the search report something.\<close>

lemma no_cycle_reported:
  assumes "findCircularDependencies d = []" "f \<in> set (map f_path (getAllFiles d))"
    and "(file_depends d)\<^sup>*\<^sup>* f g"
  shows "\<not> (file_depends d)\<^sup>+\<^sup>+ g g"
proof -
  let ?st = "\<lparr>y_cycles = [], y_visited = {}, y_stack = {}\<rparr>"
  let ?r = "cycle_scan d (map f_path (getAllFiles d)) ?st"
  have "finished_ok d ?r \<and> set (map f_path (getAllFiles d)) \<union> y_visited ?st \<subseteq> y_visited ?r \<and> y_stack ?r = {}"
    using assms(1) unfolding findCircularDependencies_scan
    by (intro cycle_scan_complete) (simp_all add: finished_ok_def)
  then have r: "finished_ok d ?r" "y_stack ?r = {}" "f \<in> y_visited ?r"
    using assms(2) by blast+
  have "g \<in> y_visited ?r"
    using assms(3) r(3)
    by (induction rule: rtranclp_induct) (use r(1,2) in \<open>auto simp: finished_ok_def\<close>)
  with r(1,2) show ?thesis
    by (simp add: finished_ok_def)
qed

section \<open>Properties\<close>

lemma successively_rtranclp: "successively R c \<Longrightarrow> c \<noteq> [] \<Longrightarrow> R\<^sup>*\<^sup>* (hd c) (last c)"
proof (induction c)
  case (Cons x c)
  then show ?case
    by (cases c) (auto intro: converse_rtranclp_into_rtranclp)
qed simp

lemma dependency_cycle_tranclp:
  assumes "dependency_cycle d c"
  shows "(file_depends d)\<^sup>+\<^sup>+ (hd c) (hd c)"
proof -
  have "(file_depends d)\<^sup>*\<^sup>* (hd c) (last c)" "file_depends d (last c) (hd c)"
    using assms successively_rtranclp unfolding dependency_cycle_def by blast+
  then show ?thesis
    by (rule rtranclp_into_tranclp1)
qed

text \<open>
  C12: the search for circular dependencies is sound and finds one whenever there is one. Each reported
  list is a cycle of files, each depending on the next and the last on the first; when nothing is
  reported, no file that a tracked file reaches lies on a dependency cycle, and otherwise some file
  depends on itself.
\<close>

theorem findCircularDependencies_correct:
  "list_all (dependency_cycle d) (findCircularDependencies d) \<and>
   (if findCircularDependencies d = []
    then {g. \<exists>f. f \<in> set (map f_path (getAllFiles d)) \<and> (file_depends d)\<^sup>*\<^sup>* f g \<and> (file_depends d)\<^sup>+\<^sup>+ g g} = {}
    else (\<exists>g. (file_depends d)\<^sup>+\<^sup>+ g g))"
proof -
  have sound: "list_all (dependency_cycle d) (findCircularDependencies d)"
    unfolding findCircularDependencies_scan by (rule conjunct1 [OF cycle_scan_sound]) simp_all
  moreover have "\<exists>g. (file_depends d)\<^sup>+\<^sup>+ g g" if "findCircularDependencies d \<noteq> []"
    using that sound dependency_cycle_tranclp by (cases "findCircularDependencies d") auto
  ultimately show ?thesis
    using no_cycle_reported by auto
qed

text \<open>
  Dead code is exactly the stored nodes of the wanted kinds that are not exported and that no edge
  other than containment leads to.
\<close>

theorem findDeadCode_exact:
  "set (findDeadCode d kinds) =
     {n \<in> set (getAllNodes d).
        n_kind n \<in> set (case kinds of None \<Rightarrow> [NK_function, NK_method, NK_class] | Some ks \<Rightarrow> ks) \<and>
        n_isExported n \<noteq> Some True \<and>
        set (getIncomingEdges (n_id n) [] d) \<subseteq> {e. e_kind e = EK_contains}}"
  unfolding findDeadCode_def Let_def getNodesByKind_def getAllNodes_def
  by (auto simp: filter_empty_conv)

lemma add_to_dir_get:
  "map_get (fold add_to_dir ps m) dir =
     (let fs = (case map_get m dir of None \<Rightarrow> [] | Some fs \<Rightarrow> fs) @ filter (\<lambda>p. file_dir p = dir) ps
      in if map_get m dir = None \<and> filter (\<lambda>p. file_dir p = dir) ps = [] then None else Some fs)"
  by (induction ps arbitrary: m) (auto simp: add_to_dir_def Let_def split: option.splits)

text \<open>
  The module structure partitions the tracked files by directory: the entry of a directory is the
  list of the files directly in it, in path order, and a directory without files has no entry.
\<close>

theorem getModuleStructure_partition:
  "map_get (getModuleStructure d) dir =
     (let fs = filter (\<lambda>p. file_dir p = dir) (map f_path (getAllFiles d))
      in if fs = [] then None else Some fs)"
  by (simp add: getModuleStructure_def add_to_dir_get)

lemma fold_map_set_keys:
  "set (map_keys (fold (\<lambda>n. map_set (n_id n) n) ns m)) = set (map_keys m) \<union> n_id ` set ns"
  by (induction ns arbitrary: m) (auto simp: dom_update)

lemma outgoing_all: "set (getOutgoingEdges i [] None d) = {e \<in> set (map rowToEdge (t_edges d)). e_source e = i}"
  by (auto simp: getOutgoingEdges_def)

lemma induced_edges:
  "set (concat (map (\<lambda>i. filter (\<lambda>e. map_has m (e_target e)) (getOutgoingEdges i [] None d)) (map_keys m))) =
     {e \<in> set (map rowToEdge (t_edges d)). e_source e \<in> set (map_keys m) \<and> e_target e \<in> set (map_keys m)}"
proof -
  have "map_has m j \<longleftrightarrow> j \<in> set (map_keys m)" for j
    by (simp add: map_has_iff)
  moreover have "x \<in> set (concat (map (\<lambda>i. filter (\<lambda>e. map_has m (e_target e)) (getOutgoingEdges i [] None d))
        (map_keys m))) \<longleftrightarrow>
      (\<exists>i \<in> set (map_keys m). x \<in> set (getOutgoingEdges i [] None d) \<and> map_has m (e_target x))" for x
    by auto
  ultimately show ?thesis
    unfolding set_eq_iff mem_Collect_eq outgoing_all by blast
qed

text \<open>
  A filtered subgraph is an induced subgraph: its edges are exactly the stored edges with both ends
  among the selected nodes.
\<close>

theorem getFilteredSubgraph_induced:
  "set (g_edges (getFilteredSubgraph d keep True)) =
     {e \<in> set (map rowToEdge (t_edges d)).
        e_source e \<in> set (map_keys (g_nodes (getFilteredSubgraph d keep True))) \<and>
        e_target e \<in> set (map_keys (g_nodes (getFilteredSubgraph d keep True)))} \<and>
   set (map_keys (g_nodes (getFilteredSubgraph d keep True))) =
     n_id ` {n \<in> set (getAllNodes d). n_kind n \<in> set SUBGRAPH_KINDS \<and> keep n}"
proof
  show "set (g_edges (getFilteredSubgraph d keep True)) =
     {e \<in> set (map rowToEdge (t_edges d)).
        e_source e \<in> set (map_keys (g_nodes (getFilteredSubgraph d keep True))) \<and>
        e_target e \<in> set (map_keys (g_nodes (getFilteredSubgraph d keep True)))}"
    unfolding getFilteredSubgraph_def Let_def by (simp only: subgraph.simps if_True induced_edges)
  show "set (map_keys (g_nodes (getFilteredSubgraph d keep True))) =
     n_id ` {n \<in> set (getAllNodes d). n_kind n \<in> set SUBGRAPH_KINDS \<and> keep n}"
  proof -
    have "set (concat (map (\<lambda>kind. filter keep (getNodesByKind kind d)) SUBGRAPH_KINDS)) =
        {n \<in> set (getAllNodes d). n_kind n \<in> set SUBGRAPH_KINDS \<and> keep n}"
      by (auto simp: getNodesByKind_def getAllNodes_def)
    then show ?thesis
      unfolding getFilteredSubgraph_def Let_def subgraph.simps fold_map_set_keys by simp
  qed
qed

end
