(* ===== verification/Regex.thy ===== *)
theory Regex
  imports Prelude
begin

text \<open>
  JavaScript regular expressions, as far as the sources use them: character classes, concatenation,
  alternation, greedy repetition, the anchors (\<open>Mbol\<close> is \<open>^\<close> under the flag \<open>m\<close>) and the word boundary and the lookahead, under backtracking semantics.
  \<open>re_ends r s i\<close> lists the positions at which a match of \<open>r\<close> from position \<open>i\<close> of \<open>s\<close> can end, in the
  order in which the backtracking matcher tries them, so its head is the match that is taken.
\<close>

datatype re =
    Cls "char \<Rightarrow> bool"
  | Eps
  | Seq re re
  | Alt re re
  | Star re
  | Bol
  | Mbol
  | Eol
  | Wordb
  | Look re

text \<open>Positions between a word character and another one (or the ends of the text).\<close>

definition word_at :: "string \<Rightarrow> nat \<Rightarrow> bool" where
  "word_at s i = (i < length s \<and> is_word (s ! i))"

definition word_boundary :: "string \<Rightarrow> nat \<Rightarrow> bool" where
  "word_boundary s i = ((i > 0 \<and> word_at s (i - 1)) \<noteq> word_at s i)"

text \<open>
  A round of \<open>Star\<close> that matches the empty string is not repeated, as in the language standard. The
  guard keeps positions inside the text, which \<open>re_ends_bounds\<close> shows they always are.
\<close>

definition line_start :: "string \<Rightarrow> nat \<Rightarrow> bool" where
  "line_start s i = (i = 0 \<or> (i \<le> length s \<and> s ! (i - 1) \<in> {newline, CHR 0x0D}))"

function (sequential) re_ends :: "re \<Rightarrow> string \<Rightarrow> nat \<Rightarrow> nat list" where
  "re_ends (Cls P) s i = (if i < length s \<and> P (s ! i) then [Suc i] else [])"
| "re_ends Eps s i = [i]"
| "re_ends (Seq r q) s i = concat (map (re_ends q s) (re_ends r s i))"
| "re_ends (Alt r q) s i = re_ends r s i @ re_ends q s i"
| "re_ends (Star r) s i =
     concat (map (\<lambda>j. if i < j \<and> j \<le> length s then re_ends (Star r) s j else []) (re_ends r s i)) @ [i]"
| "re_ends Bol s i = (if i = 0 then [i] else [])"
| "re_ends Mbol s i = (if line_start s i then [i] else [])"
| "re_ends Eol s i = (if i = length s then [i] else [])"
| "re_ends Wordb s i = (if word_boundary s i then [i] else [])"
| "re_ends (Look r) s i = (if re_ends r s i \<noteq> [] then [i] else [])"
  by pat_completeness auto
termination
  by (relation "measures [\<lambda>(r, s, i). size r, \<lambda>(r, s, i). length s - i]") auto

declare re_ends.simps(5) [simp del]

text \<open>\<open>r.test(s)\<close> for an expression without the global flag.\<close>

definition re_test :: "re \<Rightarrow> string \<Rightarrow> bool" where
  "re_test r s = list_ex (\<lambda>i. re_ends r s i \<noteq> []) [0..<Suc (length s)]"

text \<open>\<open>r.exec(s)\<close> from \<open>lastIndex\<close>: the first position with a match, and where the match ends.\<close>

definition re_exec :: "re \<Rightarrow> string \<Rightarrow> nat \<Rightarrow> (nat \<times> nat) option" where
  "re_exec r s from =
     map_option (\<lambda>i. (i, hd (re_ends r s i)))
       (find (\<lambda>i. re_ends r s i \<noteq> []) [from..<Suc (length s)])"

text \<open>
  \<open>while ((match = r.exec(s)) !== null) ...\<close> with the global flag: the texts of the matches in
  order. None of the expressions used this way matches the empty text; where one would, the model
  moves \<open>lastIndex\<close> by one.
\<close>

function re_matches :: "re \<Rightarrow> string \<Rightarrow> nat \<Rightarrow> string list" where
  "re_matches r s from =
     (case re_exec r s from of
        None \<Rightarrow> []
      | Some (i, j) \<Rightarrow>
          slice i j s # (if from \<le> length s then re_matches r s (if from < j then j else Suc from) else []))"
  by pat_completeness auto
termination
  by (relation "measure (\<lambda>(r, s, from). Suc (length s) - from)") auto

declare re_matches.simps [simp del]

text \<open>
  Capture groups. The expression \<open>pre(mid)post\<close> is tried from a position as the backtracking matcher
  does: the first pair of ends for which the rest matches fixes the group.
\<close>

definition re_group_at :: "re \<Rightarrow> re \<Rightarrow> re \<Rightarrow> string \<Rightarrow> nat \<Rightarrow> (nat \<times> nat) option" where
  "re_group_at pre mid post s i =
     find (\<lambda>(j, k). re_ends post s k \<noteq> [])
       (concat (map (\<lambda>j. map (\<lambda>k. (j, k)) (re_ends mid s j)) (re_ends pre s i)))"

fun first_some :: "('a \<Rightarrow> 'b option) \<Rightarrow> 'a list \<Rightarrow> 'b option" where
  "first_some f [] = None"
| "first_some f (x # xs) = (case f x of Some y \<Rightarrow> Some y | None \<Rightarrow> first_some f xs)"

text \<open>\<open>s.match(r)\<close> for an expression with one group, and for \<open>^(g1)sep(g2)$\<close>.\<close>

definition re_group :: "re \<Rightarrow> re \<Rightarrow> re \<Rightarrow> string \<Rightarrow> string option" where
  "re_group pre mid post s =
     map_option (\<lambda>(j, k). slice j k s) (first_some (re_group_at pre mid post s) [0..<Suc (length s)])"

definition re_two_groups :: "re \<Rightarrow> re \<Rightarrow> re \<Rightarrow> string \<Rightarrow> (string \<times> string) option" where
  "re_two_groups g1 sep g2 s =
     first_some (\<lambda>j.
       map_option (\<lambda>(k, l). (take j s, slice k l s)) (re_group_at sep g2 Eol s j))
       (re_ends g1 s 0)"

text \<open>\<open>s.replace(r, t)\<close> with the global flag, for an expression that never matches the empty text.\<close>

function re_replace :: "re \<Rightarrow> string \<Rightarrow> string \<Rightarrow> nat \<Rightarrow> string" where
  "re_replace r t s from =
     (case re_exec r s from of
        None \<Rightarrow> drop from s
      | Some (i, j) \<Rightarrow>
          if from < j \<and> from \<le> length s then slice from i s @ t @ re_replace r t s j else drop from s)"
  by pat_completeness auto
termination
  by (relation "measure (\<lambda>(r, t, s, from). Suc (length s) - from)") auto

declare re_replace.simps [simp del]

section \<open>Derived forms\<close>

abbreviation re_chr :: "char \<Rightarrow> re" where
  "re_chr c \<equiv> Cls (\<lambda>d. d = c)"

fun re_str :: "string \<Rightarrow> re" where
  "re_str [] = Eps"
| "re_str (c # s) = Seq (re_chr c) (re_str s)"

fun re_seq :: "re list \<Rightarrow> re" where
  "re_seq [] = Eps"
| "re_seq (r # rs) = Seq r (re_seq rs)"

fun re_alt :: "re list \<Rightarrow> re" where
  "re_alt [] = Cls (\<lambda>_. False)"
| "re_alt [r] = r"
| "re_alt (r # rs) = Alt r (re_alt rs)"

abbreviation re_opt :: "re \<Rightarrow> re" where
  "re_opt r \<equiv> Alt r Eps"

abbreviation re_plus :: "re \<Rightarrow> re" where
  "re_plus r \<equiv> Seq r (Star r)"

text \<open>\<open>r{0,n}\<close>, greedy.\<close>

fun re_upto :: "nat \<Rightarrow> re \<Rightarrow> re" where
  "re_upto 0 r = Eps"
| "re_upto (Suc n) r = re_opt (Seq r (re_upto n r))"

abbreviation re_any :: "string \<Rightarrow> re" where
  "re_any cs \<equiv> Cls (\<lambda>d. d \<in> set cs)"

section \<open>The language of an expression\<close>

text \<open>
  The declarative reading: \<open>re_lang r s i j\<close> holds when the text between \<open>i\<close> and \<open>j\<close> is in the
  language of \<open>r\<close>, with the anchors read against the whole of \<open>s\<close>.
\<close>

inductive re_lang :: "re \<Rightarrow> string \<Rightarrow> nat \<Rightarrow> nat \<Rightarrow> bool" where
  lang_cls: "i < length s \<Longrightarrow> P (s ! i) \<Longrightarrow> re_lang (Cls P) s i (Suc i)"
| lang_eps: "re_lang Eps s i i"
| lang_seq: "re_lang r s i j \<Longrightarrow> re_lang q s j k \<Longrightarrow> re_lang (Seq r q) s i k"
| lang_left: "re_lang r s i j \<Longrightarrow> re_lang (Alt r q) s i j"
| lang_right: "re_lang q s i j \<Longrightarrow> re_lang (Alt r q) s i j"
| lang_stop: "re_lang (Star r) s i i"
| lang_star: "re_lang r s i j \<Longrightarrow> re_lang (Star r) s j k \<Longrightarrow> re_lang (Star r) s i k"
| lang_bol: "re_lang Bol s 0 0"
| lang_mbol: "line_start s i \<Longrightarrow> re_lang Mbol s i i"
| lang_eol: "re_lang Eol s (length s) (length s)"
| lang_wordb: "word_boundary s i \<Longrightarrow> re_lang Wordb s i i"
| lang_look: "re_lang r s i j \<Longrightarrow> re_lang (Look r) s i i"

inductive_simps re_lang_simps [simp]:
  "re_lang (Cls P) s i j" "re_lang Eps s i j" "re_lang (Seq r q) s i j" "re_lang (Alt r q) s i j"
  "re_lang Bol s i j" "re_lang Mbol s i j" "re_lang Eol s i j" "re_lang Wordb s i j"
  "re_lang (Look r) s i j"

lemma re_lang_bounds: "re_lang r s i j \<Longrightarrow> i \<le> j \<and> (i \<le> length s \<longrightarrow> j \<le> length s)"
  by (induction rule: re_lang.induct) auto

lemma re_ends_sound: "j \<in> set (re_ends r s i) \<Longrightarrow> re_lang r s i j"
proof (induction r s i arbitrary: j rule: re_ends.induct)
  case (5 r s i)
  then show ?case
    by (auto simp: re_ends.simps(5) [of r s i] split: if_splits intro: lang_stop lang_star)
next
  case (10 r s i)
  then show ?case
    by (cases "re_ends r s i") (auto split: if_splits)
qed (auto split: if_splits intro: re_lang.intros)

lemma re_ends_complete: "re_lang r s i j \<Longrightarrow> i \<le> length s \<Longrightarrow> j \<in> set (re_ends r s i)"
proof (induction rule: re_lang.induct)
  case (lang_seq r s i j q k)
  then show ?case
    using re_lang_bounds [OF lang_seq.hyps(1)] by auto
next
  case (lang_star r s i j k)
  have b: "i \<le> j" "j \<le> length s"
    using re_lang_bounds [OF lang_star.hyps(1)] lang_star.prems by auto
  show ?case
  proof (cases "i = j")
    case True
    then show ?thesis
      using lang_star.IH(2) b by simp
  next
    case False
    then show ?thesis
      using lang_star.IH lang_star.prems b by (auto simp: re_ends.simps(5) [of r s i] intro!: bexI [of _ j])
  qed
next
  case (lang_stop r s i)
  show ?case
    by (simp add: re_ends.simps(5) [of r s i])
qed auto

lemma re_ends_lang: "i \<le> length s \<Longrightarrow> set (re_ends r s i) = {j. re_lang r s i j}"
  using re_ends_sound re_ends_complete by auto

lemma re_test_lang: "re_test r s \<longleftrightarrow> (\<exists>i j. i \<le> length s \<and> re_lang r s i j)"
proof -
  have "re_ends r s i \<noteq> [] \<longleftrightarrow> (\<exists>j. re_lang r s i j)" if "i \<le> length s" for i
    using re_ends_lang [OF that, of r] by (metis empty_Collect_eq set_empty)
  then show ?thesis
    by (auto simp: re_test_def list_ex_iff less_Suc_eq_le simp del: upt_Suc)
qed

lemma find_SomeD: "find P xs = Some x \<Longrightarrow> x \<in> set xs \<and> P x"
  by (induction xs) (auto split: if_splits)

lemma re_exec_Some:
  assumes "re_exec r s from = Some (i, j)"
  shows "from \<le> i" and "i \<le> length s" and "re_lang r s i j"
proof -
  from assms have f: "find (\<lambda>i. re_ends r s i \<noteq> []) [from..<Suc (length s)] = Some i"
    and j: "j = hd (re_ends r s i)"
    by (auto simp: re_exec_def simp del: upt_Suc)
  from f have i: "i \<in> set [from..<Suc (length s)]" "re_ends r s i \<noteq> []"
    using find_SomeD [OF f] by auto
  then show "from \<le> i" "i \<le> length s"
    by auto
  show "re_lang r s i j"
    using i(2) j by (intro re_ends_sound) simp
qed

text \<open>Every text that the global loop yields is a match of the expression.\<close>

lemma re_matches_lang:
  "w \<in> set (re_matches r s from) \<Longrightarrow> \<exists>i j. w = slice i j s \<and> i \<le> length s \<and> re_lang r s i j"
proof (induction r s "from" rule: re_matches.induct)
  case (1 r s "from")
  show ?case
  proof (cases "re_exec r s from")
    case None
    then show ?thesis
      using "1.prems" by (simp add: re_matches.simps [of r s "from"])
  next
    case (Some p)
    obtain i j where p: "p = (i, j)"
      by (cases p)
    have "w = slice i j s \<or> (from \<le> length s \<and> w \<in> set (re_matches r s (if from < j then j else Suc from)))"
      using "1.prems" Some p by (auto simp: re_matches.simps [of r s "from"] split: if_splits)
    then show ?thesis
      using "1.IH" [OF _ refl, of i j] Some p re_exec_Some [of r s "from" i j] by blast
  qed
qed

lemma re_lang_str: "re_lang (re_str t) s i j \<Longrightarrow> i \<le> length s \<Longrightarrow> j = i + length t \<and> prefix t (drop i s)"
proof (induction t arbitrary: i)
  case (Cons c t)
  then show ?case
    by (fastforce simp: Cons_nth_drop_Suc [symmetric])
qed simp


text \<open>Every character class of the expression lies in \<open>P\<close>.\<close>

fun re_over :: "(char \<Rightarrow> bool) \<Rightarrow> re \<Rightarrow> bool" where
  "re_over P (Cls Q) = (\<forall>c. Q c \<longrightarrow> P c)"
| "re_over P Eps = True"
| "re_over P (Seq r q) = (re_over P r \<and> re_over P q)"
| "re_over P (Alt r q) = (re_over P r \<and> re_over P q)"
| "re_over P (Star r) = re_over P r"
| "re_over P Bol = True"
| "re_over P Mbol = True"
| "re_over P Eol = True"
| "re_over P Wordb = True"
| "re_over P (Look r) = True"

lemma first_some_cong [fundef_cong]:
  "xs = ys \<Longrightarrow> (\<And>x. x \<in> set ys \<Longrightarrow> f x = g x) \<Longrightarrow> first_some f xs = first_some g ys"
  by (induction ys arbitrary: xs) (auto split: option.split)

lemma first_some_Some: "first_some f xs = Some y \<Longrightarrow> \<exists>x \<in> set xs. f x = Some y"
  by (induction xs) (auto split: option.splits)

lemma first_some_None_iff: "first_some f xs = None \<longleftrightarrow> list_all (\<lambda>x. f x = None) xs"
  by (induction xs) (auto split: option.splits)

text \<open>\<open>s.split(t)\<close> for a non-empty separator.\<close>

function split_str :: "string \<Rightarrow> string \<Rightarrow> string list" where
  "split_str t s =
     (case index_of s t of
        Some k \<Rightarrow> if t = [] then [s] else take k s # split_str t (drop (k + length t) s)
      | None \<Rightarrow> [s])"
  by pat_completeness auto
termination
proof (relation "measure (\<lambda>(t, s). length s)", goal_cases)
  case (2 t s k)
  then have "prefix t (drop k s)" "t \<noteq> []"
    by (auto dest: index_of_Some)
  then have "s \<noteq> []"
    by (auto simp: prefix_def)
  then show ?case
    using \<open>t \<noteq> []\<close> by simp
qed simp

declare split_str.simps [simp del]

end
