(* ===== verification/QueryUtils.thy ===== *)
theory QueryUtils
  imports Types Regex "HOL-Library.Char_ord" "HOL-Library.List_Lexorder"
begin

text \<open>
  \<open>search/query-utils.ts\<close> (search terms, stems, path and name scores, test-file detection) and the
  path classifiers \<open>isGeneratedFile\<close> (\<open>extraction/generated-detection.ts\<close>) and \<open>isLowValueFile\<close>
  (\<open>db/queries.ts\<close>). Regular expressions are terms of \<open>Regex\<close>; the three global replacements
  are list functions. Scores are integers; the one division, the ratio of \<open>nameMatchBonus\<close>, is exact.
\<close>

section \<open>Paths\<close>

text \<open>\<open>path.basename\<close> and \<open>path.dirname\<close> of the POSIX flavour.\<close>

definition strip_slashes :: "string \<Rightarrow> string" where
  "strip_slashes p = rev (dropWhile (\<lambda>c. c = CHR ''/'') (rev p))"

definition path_basename :: "string \<Rightarrow> string" where
  "path_basename p = rev (takeWhile (\<lambda>c. c \<noteq> CHR ''/'') (rev (strip_slashes p)))"

definition path_dirname :: "string \<Rightarrow> string" where
  "path_dirname p =
     (let hasRoot = starts_with p ''/'';
          t = strip_slashes p;
          stop = length t - length (takeWhile (\<lambda>c. c \<noteq> CHR ''/'') (rev t)) - 1
      in if stop = 0 then (if hasRoot then ''/'' else ''.'')
         else if hasRoot \<and> stop = 1 then ''//''
         else take stop p)"

section \<open>Project names\<close>

text \<open>\<open>raw.toLowerCase().replace(/[^a-z0-9]/g, '')\<close>\<close>

definition normalizeNameToken :: "string \<Rightarrow> string" where
  "normalizeNameToken raw = filter (\<lambda>c. is_lower c \<or> is_digit c) (to_lower raw)"

definition module_re :: re where
  "module_re = re_seq [Mbol, Star (Cls is_space), re_str ''module'', re_plus (Cls is_space), re_plus (Cls (\<lambda>c. \<not> is_space c))]"

definition scope_re :: re where
  "scope_re = re_seq [Bol, re_chr CHR ''@'', re_plus (Cls (\<lambda>c. c \<noteq> CHR ''/'')), re_chr CHR ''/'']"

definition add_name_token :: "string \<Rightarrow> string list \<Rightarrow> string list" where
  "add_name_token raw tokens =
     (let norm = normalizeNameToken raw in if 5 \<le> length norm then set_add norm tokens else tokens)"

text \<open>
  \<open>go.mod\<close> and \<open>package.json\<close> as read from the file system (\<open>None\<close> when reading throws), and the
  resolved root. The capture group of the module line is its last run of visible characters.
\<close>

definition deriveProjectNameTokens :: "string option \<Rightarrow> json_text option \<Rightarrow> string \<Rightarrow> string list" where
  "deriveProjectNameTokens gomod pkg rootDir =
     (let t1 = (case gomod of
                  None \<Rightarrow> []
                | Some text \<Rightarrow>
                    (case re_exec module_re text 0 of
                       None \<Rightarrow> []
                     | Some (i, j) \<Rightarrow>
                         (let name = rev (takeWhile (\<lambda>c. \<not> is_space c) (rev (slice i j text)))
                          in add_name_token (last (split_by (\<lambda>c. c = CHR ''/'') name)) [])));
          t2 = (case Option.bind pkg json_parse of
                  Some (JObj props) \<Rightarrow>
                    (case map_get props ''name'' of
                       Some (JStr name) \<Rightarrow>
                         add_name_token
                           (case re_exec scope_re name 0 of Some (i, j) \<Rightarrow> drop j name | None \<Rightarrow> name) t1
                     | _ \<Rightarrow> t1)
                | _ \<Rightarrow> t1)
      in add_name_token (path_basename rootDir) t2)"

section \<open>Search terms\<close>

definition STOP_WORDS :: "string list" where
  "STOP_WORDS =
     [''the'', ''a'', ''an'', ''and'', ''or'', ''but'', ''in'', ''on'', ''at'', ''to'', ''for'',
      ''of'', ''with'', ''by'', ''from'', ''is'', ''it'', ''that'', ''this'', ''are'', ''was'',
      ''be'', ''has'', ''had'', ''have'', ''do'', ''does'', ''did'', ''will'', ''would'', ''could'',
      ''should'', ''may'', ''might'', ''can'', ''shall'', ''not'', ''no'', ''all'', ''each'',
      ''every'', ''how'', ''what'', ''where'', ''when'', ''who'', ''which'', ''why'',
      ''i'', ''me'', ''my'', ''we'', ''our'', ''you'', ''your'', ''he'', ''she'', ''they'',
      ''show'', ''give'', ''tell'',
      ''been'', ''done'', ''made'', ''used'', ''using'', ''work'', ''works'', ''found'',
      ''also'', ''into'', ''then'', ''than'', ''just'', ''more'', ''some'', ''such'',
      ''over'', ''only'', ''out'', ''its'', ''so'', ''up'', ''as'', ''if'',
      ''look'', ''need'', ''needs'', ''want'', ''happen'', ''happens'',
      ''affect'', ''affected'', ''break'', ''breaks'', ''failing'',
      ''implemented'', ''implement'',
      ''code'', ''file'', ''files'', ''function'', ''method'', ''class'', ''type'',
      ''fix'', ''bug'', ''called'']"

text \<open>\<open>t.slice(0, -k)\<close>, and the two clauses that add a base, its \<open>e\<close> form and its undoubled form.\<close>

definition cut :: "nat \<Rightarrow> string \<Rightarrow> string" where
  "cut k t = take (length t - k) t"

definition add_base_variants :: "string \<Rightarrow> string list \<Rightarrow> string list" where
  "add_base_variants base variants =
     (let vs = set_add (base @ ''e'') (set_add base variants)
      in if 2 \<le> length base \<and> base ! (length base - 1) = base ! (length base - 2)
         then set_add (cut 1 base) vs else vs)"

text \<open>One function per suffix clause; \<open>t\<close> is the lowered term.\<close>

definition stem_ing :: "string \<Rightarrow> string list \<Rightarrow> string list" where
  "stem_ing t vs = (if ends_with t ''ing'' \<and> 5 < length t then add_base_variants (cut 3 t) vs else vs)"

definition stem_ion :: "string \<Rightarrow> string list \<Rightarrow> string list" where
  "stem_ion t vs =
     (if (ends_with t ''tion'' \<or> ends_with t ''sion'') \<and> 5 < length t then set_add (cut 3 t) vs else vs)"

definition stem_ment :: "string \<Rightarrow> string list \<Rightarrow> string list" where
  "stem_ment t vs = (if ends_with t ''ment'' \<and> 6 < length t then set_add (cut 4 t) vs else vs)"

definition stem_plural :: "string \<Rightarrow> string list \<Rightarrow> string list" where
  "stem_plural t vs =
     (if ends_with t ''ies'' \<and> 4 < length t then set_add (cut 3 t @ ''y'') vs
      else if ends_with t ''es'' \<and> 4 < length t then set_add (cut 2 t) vs
      else if ends_with t ''s'' \<and> \<not> ends_with t ''ss'' \<and> 4 < length t then set_add (cut 1 t) vs
      else vs)"

definition stem_ed :: "string \<Rightarrow> string list \<Rightarrow> string list" where
  "stem_ed t vs =
     (if ends_with t ''ed'' \<and> \<not> ends_with t ''eed'' \<and> 4 < length t
      then (let w = set_add (cut 2 t) (set_add (cut 1 t) vs)
            in if ends_with t ''ied'' \<and> 5 < length t then set_add (cut 3 t @ ''y'') w else w)
      else vs)"

definition stem_er :: "string \<Rightarrow> string list \<Rightarrow> string list" where
  "stem_er t vs = (if ends_with t ''er'' \<and> 4 < length t then add_base_variants (cut 2 t) vs else vs)"

definition getStemVariants :: "string \<Rightarrow> string list" where
  "getStemVariants term =
     (let t = to_lower term;
          variants = stem_er t (stem_ed t (stem_plural t (stem_ment t (stem_ion t (stem_ing t [])))))
      in filter (\<lambda>v. 3 \<le> length v \<and> v \<noteq> t) variants)"

definition compoundPattern :: re where
  "compoundPattern =
     re_seq [Wordb,
       Alt (re_seq [Cls (\<lambda>c. is_upper c \<or> is_lower c), Star (Cls is_alnum),
              re_plus (Seq (Cls is_upper) (re_plus (Cls is_lower)))])
           (re_seq [Cls is_upper, re_plus (Cls is_lower),
              re_plus (Seq (Cls is_upper) (Star (Cls is_lower)))]),
       Wordb]"

definition snakePattern :: re where
  "snakePattern =
     re_seq [Wordb, Cls (\<lambda>c. is_upper c \<or> is_lower c), Star (Cls is_alnum),
       re_plus (Seq (re_chr CHR ''_'') (re_plus (Cls is_alnum))), Wordb]"

text \<open>\<open>.replace(/([a-z])([A-Z])/g, '$1 $2')\<close>\<close>

fun split_low_up :: "string \<Rightarrow> string" where
  "split_low_up (a # b # s) =
     (if is_lower a \<and> is_upper b then a # CHR '' '' # b # split_low_up s
      else a # split_low_up (b # s))"
| "split_low_up s = s"

text \<open>
  \<open>.replace(/([A-Z]+)([A-Z][a-z])/g, '$1 $2')\<close>: a match is a whole run of at least two capitals with
  the lower-case letter behind it; the blank goes before the last capital.
\<close>

function split_acronym :: "string \<Rightarrow> string" where
  "split_acronym [] = []"
| "split_acronym (c # s) =
     (let run = takeWhile is_upper (c # s); rest = dropWhile is_upper (c # s)
      in if 2 \<le> length run \<and> rest \<noteq> [] \<and> is_lower (hd rest)
         then butlast run @ CHR '' '' # last run # hd rest # split_acronym (tl rest)
         else if run \<noteq> [] then run @ split_acronym rest
         else c # split_acronym s)"
  by pat_completeness auto
termination
  by (relation "measure length")
    (auto simp: less_Suc_eq_le le_diff_conv intro: le_trans [OF length_dropWhile_le] dest: sym split: if_splits)

text \<open>\<open>.replace(/[_.]+/g, ' ')\<close>\<close>

function join_marks :: "string \<Rightarrow> string" where
  "join_marks [] = []"
| "join_marks (c # s) =
     (if c \<in> set ''_.'' then CHR '' '' # join_marks (dropWhile (\<lambda>d. d \<in> set ''_.'') s)
      else c # join_marks s)"
  by pat_completeness auto
termination
  by (relation "measure length") (auto simp: less_Suc_eq_le length_dropWhile_le)

definition add_word :: "string \<Rightarrow> string list \<Rightarrow> string list" where
  "add_word word tokens =
     (let lower = to_lower word
      in if length lower < 3 then tokens
         else if lower \<in> set STOP_WORDS then tokens
         else set_add lower tokens)"

definition add_compound :: "string \<Rightarrow> string list \<Rightarrow> string list" where
  "add_compound m tokens = (if 3 \<le> length m then set_add (to_lower m) tokens else tokens)"

definition stems_of :: "string list \<Rightarrow> string list" where
  "stems_of tokens =
     set_of_list (filter (\<lambda>v. v \<notin> set tokens \<and> v \<notin> set STOP_WORDS) (concat (map getStemVariants tokens)))"

definition extractSearchTerms :: "string \<Rightarrow> bool \<Rightarrow> string list" where
  "extractSearchTerms query includeStems =
     (let t1 = fold add_compound (re_matches compoundPattern query 0) [];
          t2 = fold add_compound (re_matches snakePattern query 0) t1;
          camelSplit = split_acronym (split_low_up query);
          normalised = join_marks camelSplit;
          words = filter (\<lambda>w. w \<noteq> []) (split_by (\<lambda>c. \<not> is_alnum c) normalised);
          tokens = fold add_word words t2
      in if includeStems then fold set_add (stems_of tokens) tokens else tokens)"

section \<open>Path relevance\<close>

definition matchesNonProductionDir :: "string \<Rightarrow> bool" where
  "matchesNonProductionDir lowerPath =
     list_ex (\<lambda>dir. str_includes lowerPath (''/'' @ dir @ ''/'') \<or> starts_with lowerPath (dir @ ''/''))
       [''integration'', ''sample'', ''samples'', ''example'', ''examples'',
        ''fixture'', ''fixtures'', ''benchmark'', ''benchmarks'', ''demo'', ''demos'']"

abbreviation re_words :: "string list \<Rightarrow> re" where
  "re_words ws \<equiv> re_alt (map re_str ws)"

definition test_suffix_re :: re where
  "test_suffix_re =
     re_seq [re_any ''._-'', re_words [''test'', ''tests'', ''spec'', ''specs''], re_chr CHR ''.'',
       re_plus (Cls (\<lambda>c. is_lower c \<or> is_digit c)), Eol]"

definition test_camel_re :: re where
  "test_camel_re =
     re_seq [re_words [''Test'', ''Tests'', ''TestCase'', ''Tester'', ''Spec'', ''Specs''],
       re_chr CHR ''.'', re_plus (Cls is_alnum), Eol]"

definition test_dir_re :: re where
  "test_dir_re =
     re_seq [Alt Bol (re_chr CHR ''/''), Star (Cls is_alnum), re_words [''Test'', ''Tests'', ''Spec''],
       re_chr CHR ''/'']"

definition isTestFile :: "string \<Rightarrow> bool" where
  "isTestFile filePath =
     (let lower = to_lower filePath;
          fileName = path_basename filePath;
          lowerName = to_lower fileName
      in if starts_with lowerName ''test_'' \<or> starts_with lowerName ''test.''
            \<or> re_test test_suffix_re lowerName \<or> re_test test_camel_re fileName
         then True
         else if list_ex (str_includes lower)
                [''/tests/'', ''/test/'', ''/__tests__/'', ''/spec/'', ''/specs/'', ''/testlib/'', ''/testing/'']
            \<or> list_ex (starts_with lower) [''test/'', ''tests/'', ''spec/'', ''specs/'']
            \<or> re_test test_dir_re filePath
         then True
         else matchesNonProductionDir lower)"

text \<open>The score one query word adds.\<close>

definition word_score :: "string \<Rightarrow> string \<Rightarrow> int" where
  "word_score filePath word =
     (let pathLower = to_lower filePath;
          fileName = to_lower (path_basename filePath);
          dirName = to_lower (path_dirname filePath);
          subtokens = extractSearchTerms word False
      in if subtokens = [] then 0
         else (if list_ex (str_includes fileName) subtokens then 10 else 0)
            + (if list_ex (str_includes dirName) subtokens then 5
               else if list_ex (str_includes pathLower) subtokens then 3 else 0))"

definition scored_words :: "string \<Rightarrow> string list \<Rightarrow> string list" where
  "scored_words query projectNameTokens =
     (let allWords = filter (\<lambda>w. w \<noteq> []) (split_by is_space query);
          words = (if projectNameTokens \<noteq> []
                   then filter (\<lambda>w. normalizeNameToken w \<notin> set projectNameTokens) allWords
                   else allWords)
      in if words \<noteq> [] then words else allWords)"

definition scorePathRelevance :: "string \<Rightarrow> string \<Rightarrow> string list \<Rightarrow> int" where
  "scorePathRelevance filePath query projectNameTokens =
     (if filter (\<lambda>w. w \<noteq> []) (split_by is_space query) = [] then 0
      else (let score = sum_list (map (word_score filePath) (scored_words query projectNameTokens));
                queryLower = to_lower query;
                isTestQuery = str_includes queryLower ''test'' \<or> str_includes queryLower ''spec''
            in if \<not> isTestQuery \<and> isTestFile filePath then score - 15 else score))"

section \<open>Name and kind bonuses\<close>

text \<open>\<open>Math.round(10 + 30 * ratio)\<close>; \<open>Math.round\<close> rounds halves up.\<close>

definition prefix_bonus :: "nat \<Rightarrow> nat \<Rightarrow> int" where
  "prefix_bonus q n = (let ratio = of_nat q / (of_nat n :: rat) in \<lfloor>10 + 30 * ratio + 1 / 2\<rfloor>)"

definition nameMatchBonus :: "string \<Rightarrow> string \<Rightarrow> int" where
  "nameMatchBonus nodeName query =
     (let nameLower = to_lower nodeName;
          rawTerms = filter (\<lambda>t. 2 \<le> length t)
            (map to_lower (split_by (\<lambda>c. is_space c \<or> c \<in> set ''_.-'') (split_low_up query)));
          queryTokens = filter (\<lambda>t. 2 \<le> length t) (map to_lower (split_by is_space query));
          queryLower = to_lower (filter (\<lambda>c. \<not> is_space c) query)
      in if nameLower = queryLower then 80
         else if 1 < length queryTokens \<and> nameLower \<in> set queryTokens then 60
         else if starts_with nameLower queryLower
         then prefix_bonus (length queryLower) (length nameLower)
         else if 1 < length rawTerms \<and> list_all (str_includes nameLower) rawTerms then 15
         else if str_includes nameLower queryLower then 10
         else 0)"

fun kindBonus :: "node_kind \<Rightarrow> int" where
  "kindBonus NK_function = 10"
| "kindBonus NK_method = 10"
| "kindBonus NK_class = 8"
| "kindBonus NK_interface = 9"
| "kindBonus NK_type_alias = 6"
| "kindBonus NK_struct = 6"
| "kindBonus NK_trait = 9"
| "kindBonus NK_enum = 5"
| "kindBonus NK_component = 8"
| "kindBonus NK_route = 9"
| "kindBonus NK_module = 4"
| "kindBonus NK_property = 3"
| "kindBonus NK_field = 3"
| "kindBonus NK_variable = 2"
| "kindBonus NK_constant = 3"
| "kindBonus NK_import = 1"
| "kindBonus NK_export = 1"
| "kindBonus NK_parameter = 0"
| "kindBonus NK_namespace = 4"
| "kindBonus NK_file = 0"
| "kindBonus NK_protocol = 9"
| "kindBonus NK_enum_member = 3"

definition isDistinctiveIdentifier :: "string \<Rightarrow> bool" where
  "isDistinctiveIdentifier token =
     (if token = '''' then False
      else if list_ex (\<lambda>c. c = CHR ''_'' \<or> is_digit c) token then True
      else list_ex is_upper (tl token))"

section \<open>Generated and low-value files\<close>

definition GENERATED_PATTERNS :: "re list" where
  "GENERATED_PATTERNS =
     [Seq (re_str ''.pb.go'') Eol,
      Seq (re_str ''.pulsar.go'') Eol,
      Seq (re_str ''_grpc.pb.go'') Eol,
      Seq (re_str ''_mock.go'') Eol,
      Seq (re_str ''_mocks.go'') Eol,
      re_seq [Bol, re_str ''mock_'', re_plus (Cls (\<lambda>c. c \<noteq> CHR ''/'')), re_str ''.go'', Eol],
      re_seq [re_str ''.generated.'', re_any ''jt'', re_str ''s'', re_opt (re_str ''x''), Eol],
      re_seq [re_str ''.gen.'', re_any ''jt'', re_str ''s'', re_opt (re_str ''x''), Eol],
      re_seq [re_str ''.pb.'', re_any ''jt'', re_str ''s'', Eol],
      re_seq [re_str ''_pb.'', re_any ''jt'', re_str ''s'', Eol],
      re_seq [re_str ''_grpc_pb.'', re_any ''jt'', re_str ''s'', Eol],
      re_seq [re_str ''_pb2'', re_opt (re_str ''_grpc''), re_str ''.py'', Eol],
      Seq (re_str ''_pb2.pyi'') Eol,
      re_seq [re_str ''.pb.'', re_words [''cc'', ''h''], Eol],
      Seq (re_str ''.g.cs'') Eol,
      Seq (re_str ''Grpc.cs'') Eol,
      Seq (re_str ''OuterClass.java'') Eol,
      Seq (re_str ''Grpc.java'') Eol,
      Seq (re_str ''.pb.swift'') Eol,
      Seq (re_str ''.g.dart'') Eol,
      Seq (re_str ''.freezed.dart'') Eol,
      Seq (re_str ''.pb.dart'') Eol,
      Seq (re_str ''.pbgrpc.dart'') Eol,
      Seq (re_str ''.chopper.dart'') Eol,
      Seq (re_str ''.generated.rs'') Eol]"

definition isGeneratedFile :: "string \<Rightarrow> bool" where
  "isGeneratedFile filePath = list_ex (\<lambda>p. re_test p filePath) GENERATED_PATTERNS"

definition LOW_VALUE_PATTERNS :: "re list" where
  "LOW_VALUE_PATTERNS =
     [re_seq [Alt Bol (re_chr CHR ''/''),
        re_alt [Seq (re_str ''test'') (re_opt (re_str ''s'')),
                re_seq [re_str ''__test'', re_opt (re_str ''s''), re_str ''__''],
                re_str ''spec''], re_chr CHR ''/''],
      Seq (re_str ''_test.go'') Eol,
      re_seq [Alt Bol (re_chr CHR ''/''), re_str ''test_'', re_plus (Cls (\<lambda>c. c \<noteq> CHR ''/'')), re_str ''.py'', Eol],
      Seq (re_str ''_test.py'') Eol,
      Seq (re_str ''_spec.rb'') Eol,
      Seq (re_str ''_test.rb'') Eol,
      re_seq [re_chr CHR ''.'', re_words [''test'', ''spec''], re_chr CHR ''.'', re_any ''jt'', re_str ''s'',
        re_opt (re_str ''x''), Eol],
      re_seq [re_words [''test'', ''spec'', ''tests''], re_chr CHR ''.'', re_words [''java'', ''kt'', ''scala''], Eol],
      re_seq [Alt (Seq (re_str ''test'') (re_opt (re_str ''s''))) (re_str ''spec''), re_str ''.cs'', Eol],
      re_seq [re_str ''test'', re_opt (re_str ''s''), re_str ''.swift'', Eol],
      Seq (re_str ''_test.dart'') Eol]"

definition isLowValueFile :: "string \<Rightarrow> bool" where
  "isLowValueFile filePath =
     (list_ex (\<lambda>p. re_test p (to_lower filePath)) LOW_VALUE_PATTERNS \<or> isGeneratedFile filePath)"


section \<open>The characters of search terms\<close>

definition term_char :: "char \<Rightarrow> bool" where
  "term_char c = (is_lower c \<or> is_digit c \<or> c = CHR ''_'')"

lemma lower_char_word: "is_word c \<Longrightarrow> term_char (lower_char c)"
  by (auto simp: is_word_def is_alnum_def term_char_def lower_char_def is_upper_def is_lower_def
      is_digit_def char_code_char_of)

lemma lower_char_alnum: "is_alnum c \<Longrightarrow> term_char (lower_char c)"
  by (simp add: lower_char_word is_word_def)

lemma term_char_lower: "term_char c \<Longrightarrow> lower_char c = c"
  by (auto simp: term_char_def lower_char_def is_upper_def is_lower_def is_digit_def char_code_def)

definition good_term :: "string \<Rightarrow> bool" where
  "good_term t = (3 \<le> length t \<and> list_all term_char t)"

lemma good_term_lower: "good_term t \<Longrightarrow> to_lower t = t"
  by (simp add: good_term_def to_lower_def list_all_iff map_idI term_char_lower)

lemma good_term_of_word: "3 \<le> length w \<Longrightarrow> list_all is_word w \<Longrightarrow> good_term (to_lower w)"
  by (auto simp: good_term_def to_lower_def list_all_iff lower_char_word)

text \<open>An expression over word characters matches word characters only.\<close>

lemma re_over_slice:
  assumes "re_lang r s i j" and "re_over P r"
  shows "i \<le> k \<Longrightarrow> k < j \<Longrightarrow> P (s ! k)"
  using assms
proof (induction arbitrary: k rule: re_lang.induct)
  case (lang_cls i s Q)
  then show ?case
    by (auto simp: less_Suc_eq dest: leD)
next
  case (lang_seq r s i j q k)
  then show ?case
    by (metis not_le re_over.simps(3))
next
  case (lang_star r s i j k)
  then show ?case
    by (metis not_le re_over.simps(5))
qed auto

lemma compound_over: "re_over is_word compoundPattern" "re_over is_word snakePattern"
  by (auto simp: compoundPattern_def snakePattern_def is_word_def is_alnum_def)

lemma re_matches_word:
  assumes "re_over is_word r" and "w \<in> set (re_matches r s n)"
  shows "list_all is_word w"
proof -
  from re_matches_lang [OF assms(2)] obtain i j
    where w: "w = slice i j s" "i \<le> length s" "re_lang r s i j"
    by blast
  have "is_word (w ! k)" if "k < length w" for k
    using that re_over_slice [OF w(3) assms(1), of "i + k"] w(1,2) by (auto simp: slice_def less_diff_conv add.commute)
  then show ?thesis
    by (simp add: list_all_length)
qed

lemma good_fold:
  assumes "\<And>x ts. x \<in> set xs \<Longrightarrow> list_all good_term ts \<and> distinct ts \<Longrightarrow>
      list_all good_term (f x ts) \<and> distinct (f x ts)"
  shows "list_all good_term ts \<and> distinct ts \<Longrightarrow> list_all good_term (fold f xs ts) \<and> distinct (fold f xs ts)"
  using assms by (induction xs arbitrary: ts) simp_all

lemma good_set_add: "good_term t \<Longrightarrow> list_all good_term ts \<and> distinct ts \<Longrightarrow>
    list_all good_term (set_add t ts) \<and> distinct (set_add t ts)"
  by (auto simp: list_all_iff)

definition all_term_chars :: "string list \<Rightarrow> bool" where
  "all_term_chars vs = list_all (list_all term_char) vs"

lemma stem_stages:
  assumes t: "list_all term_char t" and vs: "all_term_chars vs"
  shows "all_term_chars (stem_ing t vs)" "all_term_chars (stem_ion t vs)" "all_term_chars (stem_ment t vs)"
    "all_term_chars (stem_plural t vs)" "all_term_chars (stem_ed t vs)" "all_term_chars (stem_er t vs)"
proof -
  have y: "term_char CHR ''y''" "term_char CHR ''e''"
    by (simp_all add: term_char_def is_lower_def char_code_def)
  have cut: "list_all term_char (cut k w)" if "list_all term_char w" for k w
    using that by (auto simp: cut_def list_all_iff dest: in_set_takeD)
  have add: "all_term_chars (set_add w us)" if "list_all term_char w" "all_term_chars us" for w us
    using that by (auto simp: all_term_chars_def list_all_iff)
  have base: "all_term_chars (add_base_variants w us)" if "list_all term_char w" "all_term_chars us" for w us
    using that y by (auto simp: add_base_variants_def Let_def intro!: add cut)
  note defs = stem_ing_def stem_ion_def stem_ment_def stem_plural_def stem_ed_def stem_er_def
  show "all_term_chars (stem_ing t vs)" "all_term_chars (stem_ion t vs)" "all_term_chars (stem_ment t vs)"
    "all_term_chars (stem_plural t vs)" "all_term_chars (stem_ed t vs)" "all_term_chars (stem_er t vs)"
    unfolding defs Let_def using t vs y by (auto intro!: add base cut)
qed

lemma stem_variant_good:
  assumes "list_all term_char (to_lower t)" and "v \<in> set (getStemVariants t)"
  shows "good_term v"
proof -
  let ?t = "to_lower t"
  have "all_term_chars (stem_er ?t (stem_ed ?t (stem_plural ?t (stem_ment ?t (stem_ion ?t (stem_ing ?t []))))))"
    using assms(1) by (intro stem_stages) (simp_all add: all_term_chars_def)
  then show ?thesis
    using assms(2) unfolding all_term_chars_def list_all_iff [of "list_all term_char"]
    by (auto simp: getStemVariants_def Let_def good_term_def)
qed


lemma good_words:
  "list_all good_term ts \<and> distinct ts \<Longrightarrow> \<forall>w \<in> set ws. list_all is_word w \<Longrightarrow>
   list_all good_term (fold add_compound ws ts) \<and> distinct (fold add_compound ws ts)"
  by (rule good_fold) (auto simp: add_compound_def list_all_iff good_term_of_word)

lemma split_by_parts: "w \<in> set (split_by P s) \<Longrightarrow> list_all (\<lambda>c. \<not> P c) w"
  by (auto simp: list_all_iff dest: split_by_no_sep)

lemma good_add_words:
  "list_all good_term ts \<and> distinct ts \<Longrightarrow> \<forall>w \<in> set ws. list_all is_alnum w \<Longrightarrow>
   list_all good_term (fold add_word ws ts) \<and> distinct (fold add_word ws ts)"
proof (rule good_fold)
  fix w us
  assume w: "\<forall>w \<in> set ws. list_all is_alnum w" "w \<in> set ws"
    and us: "list_all good_term us \<and> distinct us"
  have "list_all is_word w"
    using w by (auto simp: list_all_iff is_word_def)
  then show "list_all good_term (add_word w us) \<and> distinct (add_word w us)"
    using us good_set_add [OF good_term_of_word [of w] us]
    by (auto simp: add_word_def Let_def split: if_splits)
qed

lemma base_terms_good:
  "list_all good_term (extractSearchTerms query False) \<and> distinct (extractSearchTerms query False)"
proof -
  have words: "\<forall>w \<in> set (filter (\<lambda>w. w \<noteq> []) (split_by (\<lambda>c. \<not> is_alnum c) s)). list_all is_alnum w" for s
    using split_by_parts [of _ "\<lambda>c. \<not> is_alnum c" s] by auto
  show ?thesis
    unfolding extractSearchTerms_def Let_def if_False
    using compound_over
    by (intro good_add_words good_words ballI) (auto intro: re_matches_word words [rule_format])
qed

lemma fold_set_add_new:
  "distinct xs \<Longrightarrow> set xs \<inter> set ys = {} \<Longrightarrow> fold set_add xs ys = ys @ xs"
  by (induction xs arbitrary: ys) (auto simp: set_add_def)

lemma extractSearchTerms_stems:
  "extractSearchTerms query True
   = extractSearchTerms query False @ stems_of (extractSearchTerms query False)"
proof -
  have "fold set_add (stems_of ts) ts = ts @ stems_of ts" for ts
    by (rule fold_set_add_new) (auto simp: stems_of_def)
  then show ?thesis
    by (simp add: extractSearchTerms_def Let_def)
qed

lemma stems_good: "list_all good_term ts \<Longrightarrow> list_all good_term (stems_of ts)"
proof -
  assume ts: "list_all good_term ts"
  have "good_term v" if v: "v \<in> set (stems_of ts)" for v
  proof -
    from v obtain t where t: "t \<in> set ts" "v \<in> set (getStemVariants t)"
      by (auto simp: stems_of_def)
    then have "list_all term_char (to_lower t)"
      using ts good_term_lower [of t] by (simp add: list_all_iff good_term_def)
    then show ?thesis
      using t(2) by (rule stem_variant_good)
  qed
  then show ?thesis
    by (simp add: list_all_iff)
qed

text \<open>
  C40: Search terms are well formed: each has at least three characters, all of them lower-case
  letters, digits or underscores, and none occurs twice; the stems, which are neither stop words nor
  already present, come behind the terms found in the query itself.
\<close>

theorem extractSearchTerms_wellformed:
  "list_all good_term (extractSearchTerms query stems) \<and> distinct (extractSearchTerms query stems)
   \<and> prefix (extractSearchTerms query False) (extractSearchTerms query stems)
   \<and> list_all (\<lambda>t. t \<notin> set STOP_WORDS)
       (drop (length (extractSearchTerms query False)) (extractSearchTerms query stems))"
proof (cases stems)
  case True
  have "set (stems_of ts) \<inter> set ts = {}" "distinct (stems_of ts)" for ts
    by (auto simp: stems_of_def)
  then show ?thesis
    using True base_terms_good [of query] stems_good [of "extractSearchTerms query False"]
    by (auto simp: extractSearchTerms_stems stems_of_def list_all_iff)
next
  case False
  then show ?thesis
    using base_terms_good [of query] by simp
qed

section \<open>Score bounds\<close>

lemma word_score_bounds: "0 \<le> word_score filePath w \<and> word_score filePath w \<le> 15"
  by (simp add: word_score_def Let_def)

lemma sum_bounds:
  fixes f :: "'a \<Rightarrow> int"
  assumes "\<And>x. 0 \<le> f x \<and> f x \<le> b"
  shows "0 \<le> sum_list (map f xs) \<and> sum_list (map f xs) \<le> b * int (length xs)"
proof (induction xs)
  case (Cons x xs)
  then show ?case
    using assms [of x] by (simp add: algebra_simps)
qed simp

lemma scored_words_length:
  "length (scored_words query ps) \<le> length (filter (\<lambda>w. w \<noteq> []) (split_by is_space query))"
  by (auto simp: scored_words_def Let_def simp del: filter_filter)

text \<open>
  A word of the query counts once, whatever it splits into: the path score is at most 15 for each
  word of the query and at least the test-file penalty, and a query about tests is never penalised.
\<close>

theorem scorePathRelevance_bounds:
  "- 15 \<le> scorePathRelevance filePath query ps
   \<and> scorePathRelevance filePath query ps \<le> 15 * int (length (filter (\<lambda>w. w \<noteq> []) (split_by is_space query)))
   \<and> 0 \<le> scorePathRelevance filePath (''test '' @ query) ps"
proof -
  have "0 \<le> scorePathRelevance filePath q ps + (if str_includes (to_lower q) ''test'' then 0 else 15)
      \<and> scorePathRelevance filePath q ps \<le> 15 * int (length (filter (\<lambda>w. w \<noteq> []) (split_by is_space q)))" for q
    using sum_bounds [of "word_score filePath" 15 "scored_words q ps", OF word_score_bounds]
      scored_words_length [of q ps]
    by (auto simp: scorePathRelevance_def Let_def)
  from this [of query] this [of "''test '' @ query"] show ?thesis
    by (auto simp: to_lower_def lower_char_def is_upper_def char_code_def split: if_splits)
qed

lemma prefix_bonus_bounds:
  assumes "q \<le> n"
  shows "10 \<le> prefix_bonus q n \<and> prefix_bonus q n \<le> 40"
proof -
  let ?r = "of_nat q / (of_nat n :: rat)"
  have "0 \<le> ?r" "?r \<le> 1"
    using assms by (simp_all add: divide_le_eq)
  then have "10 \<le> 10 + 30 * ?r + 1 / 2" "10 + 30 * ?r + 1 / 2 < 41"
    by linarith+
  then show ?thesis
    unfolding prefix_bonus_def Let_def le_floor_iff floor_le_iff by simp
qed

text \<open>
  The name bonus ranks the kinds of match: 80 exactly for a name equal to the query (blanks
  dropped, case ignored), at most 60 otherwise, and at least 10 for every name that contains the
  query.
\<close>

theorem nameMatchBonus_ranks:
  "0 \<le> nameMatchBonus name query
   \<and> (nameMatchBonus name query = 80 \<longleftrightarrow> to_lower name = to_lower (filter (\<lambda>c. \<not> is_space c) query))
   \<and> nameMatchBonus name query \<in> {0..60} \<union> {80}
   \<and> (str_includes (to_lower name) (to_lower (filter (\<lambda>c. \<not> is_space c) query))
        \<longrightarrow> 10 \<le> nameMatchBonus name query)"
proof -
  let ?q = "to_lower (filter (\<lambda>c. \<not> is_space c) query)" and ?n = "to_lower name"
  have "10 \<le> prefix_bonus (length ?q) (length ?n) \<and> prefix_bonus (length ?q) (length ?n) \<le> 40"
    if "starts_with ?n ?q"
    using prefix_bonus_bounds [OF prefix_length_le [OF that]] .
  moreover have "str_includes ?n ?q" if "starts_with ?n ?q"
    using that by (rule prefix_imp_sublist)
  ultimately show ?thesis
    unfolding nameMatchBonus_def Let_def by (auto simp del: length_to_lower)
qed

theorem nameMatchBonus_ranks_witness: "10 \<le> nameMatchBonus ''getUser'' ''User''"
proof -
  have "str_includes (to_lower ''getUser'') (to_lower (filter (\<lambda>c. \<not> is_space c) ''User''))"
    by code_simp
  then show ?thesis
    using nameMatchBonus_ranks [of "''getUser''" "''User''"] by blast
qed


section \<open>Two observations on the path classifiers\<close>

text \<open>
  The mockgen pattern is anchored at the start of the path, not of the file name, so it misses mocks
  in a directory; and the Java pattern of \<open>isLowValueFile\<close> has no boundary before \<open>test\<close>, so it takes
  \<open>latest.kt\<close> for a test, which \<open>isTestFile\<close> is written to avoid.
\<close>

lemma mock_in_directory_missed:
  "isGeneratedFile ''mock_store.go'' \<and> \<not> isGeneratedFile ''store/mock_store.go''"
  by code_simp

lemma latest_taken_for_test:
  "isLowValueFile ''src/latest.kt'' \<and> \<not> isTestFile ''src/latest.kt''"
  by code_simp

end
