(* ===== verification/StripComments.thy ===== *)
theory StripComments
  imports Prelude
begin

text \<open>
  \<open>resolution/strip-comments.ts\<close>: the comment stripper that framework extractors run before their
  regular expressions. Each language has its own scanning loop over an index \<open>i\<close> and a mutable copy
  \<open>out\<close> of the source. A loop is a \<open>function\<close> on \<open>(src, i, out)\<close> with the inner \<open>while\<close> loops as
  functions that return the index where they stop. \<open>blanked\<close> is the contract the route extractors
  rely on (offsets and line numbers survive), and \<open>blank_spec\<close> is a character-by-character automaton
  that the scanning loops of the four C-like strippers are proved to compute (locale \<open>c_like\<close>).
\<close>

abbreviation "backslash \<equiv> CHR 0x5C"
abbreviation "dquote \<equiv> CHR 0x22"
abbreviation "squote \<equiv> CHR 0x27"
abbreviation "backtick \<equiv> CHR 0x60"
abbreviation "tab \<equiv> CHR 0x09"

datatype CommentLang =
  Python | Javascript | Typescript | Php | Ruby | Java | Csharp | Swift | Go | Rust

text \<open>\<open>src[i]\<close>, which is \<open>undefined\<close> outside the string.\<close>

definition char_at :: "string \<Rightarrow> nat \<Rightarrow> char option" where
  "char_at src i = (if i < length src then Some (src ! i) else None)"

text \<open>\<open>buf[i] = c\<close>. Writing one place behind the end makes the array longer.\<close>

definition buf_put :: "string \<Rightarrow> nat \<Rightarrow> char \<Rightarrow> string" where
  "buf_put buf i c = (if i < length buf then buf[i := c] else buf @ [c])"

definition blankRange :: "string \<Rightarrow> nat \<Rightarrow> nat \<Rightarrow> string \<Rightarrow> string" where
  "blankRange buf start stop src =
     fold (\<lambda>i b. buf_put b i (if char_at src i = Some newline then newline else CHR '' ''))
       [start..<stop] buf"

section \<open>The inner loops\<close>

text \<open>\<open>while (i < n && src[i] !== '\n') i++\<close>\<close>

function line_end :: "string \<Rightarrow> nat \<Rightarrow> nat" where
  "line_end src i = (if i < length src \<and> src ! i \<noteq> newline then line_end src (Suc i) else i)"
  by pat_completeness auto
termination by (relation "measure (\<lambda>(src, i). length src - i)") auto

text \<open>
  The loop through a string literal. \<open>esc\<close> is whether the loop has the clause for the backslash
  (Go's raw strings have none), \<open>brk\<close> whether it stops at a newline.
\<close>

function string_end :: "bool \<Rightarrow> bool \<Rightarrow> char \<Rightarrow> string \<Rightarrow> nat \<Rightarrow> nat" where
  "string_end esc brk q src i =
     (if i < length src \<and> src ! i \<noteq> q
      then if esc \<and> src ! i = backslash \<and> i + 1 < length src then string_end esc brk q src (i + 2)
           else if brk \<and> src ! i = newline then i
           else string_end esc brk q src (Suc i)
      else i)"
  by pat_completeness auto
termination by (relation "measure (\<lambda>(esc, brk, q, src, i). length src - i)") auto

text \<open>\<open>if (i < n && src[i] === quote) i++\<close>\<close>

definition close_quote :: "char \<Rightarrow> string \<Rightarrow> nat \<Rightarrow> nat" where
  "close_quote q src i = (if char_at src i = Some q then Suc i else i)"

text \<open>The block comment loop, with the step over the closing mark.\<close>

function block_scan :: "string \<Rightarrow> nat \<Rightarrow> nat" where
  "block_scan src i =
     (if i < length src \<and> \<not> (src ! i = CHR ''*'' \<and> char_at src (i + 1) = Some (CHR ''/''))
      then block_scan src (Suc i) else i)"
  by pat_completeness auto
termination by (relation "measure (\<lambda>(src, i). length src - i)") auto

definition block_end :: "string \<Rightarrow> nat \<Rightarrow> nat" where
  "block_end src i = (let j = block_scan src i in if j < length src then j + 2 else j)"

text \<open>The nested block comments of Rust.\<close>

function nested_end :: "string \<Rightarrow> nat \<Rightarrow> nat \<Rightarrow> nat" where
  "nested_end src i depth =
     (if i < length src \<and> depth > 0
      then if src ! i = CHR ''/'' \<and> char_at src (i + 1) = Some (CHR ''*'') then nested_end src (i + 2) (depth + 1)
           else if src ! i = CHR ''*'' \<and> char_at src (i + 1) = Some (CHR ''/'') then nested_end src (i + 2) (depth - 1)
           else nested_end src (Suc i) depth
      else i)"
  by pat_completeness auto
termination by (relation "measure (\<lambda>(src, i, depth). length src - i)") auto

text \<open>The triple-quoted strings of Python.\<close>

definition triple_at :: "char \<Rightarrow> string \<Rightarrow> nat \<Rightarrow> bool" where
  "triple_at q src i =
     (char_at src i = Some q \<and> char_at src (i + 1) = Some q \<and> char_at src (i + 2) = Some q)"

function triple_end :: "char \<Rightarrow> string \<Rightarrow> nat \<Rightarrow> nat" where
  "triple_end q src i =
     (if i < length src
      then if src ! i = backslash \<and> i + 1 < length src then triple_end q src (i + 2)
           else if triple_at q src i then i + 3
           else triple_end q src (Suc i)
      else i)"
  by pat_completeness auto
termination by (relation "measure (\<lambda>(q, src, i). length src - i)") auto

text \<open>The \<open>=begin\<close> blocks of Ruby: blanks at the start of a line, then the search for \<open>=end\<close>.\<close>

function skip_blanks :: "string \<Rightarrow> nat \<Rightarrow> nat" where
  "skip_blanks src j =
     (if j < length src \<and> (src ! j = CHR '' '' \<or> src ! j = tab) then skip_blanks src (Suc j) else j)"
  by pat_completeness auto
termination by (relation "measure (\<lambda>(src, j). length src - j)") auto

declare line_end.simps [simp del] string_end.simps [simp del] block_scan.simps [simp del]
declare nested_end.simps [simp del] triple_end.simps [simp del] skip_blanks.simps [simp del]

function ruby_block_end :: "string \<Rightarrow> nat \<Rightarrow> nat" where
  "ruby_block_end src i =
     (if i < length src
      then if src ! i = newline \<and> starts_with (drop (skip_blanks src (i + 1)) src) ''=end''
           then line_end src (skip_blanks src (i + 1) + 4)
           else ruby_block_end src (Suc i)
      else i)"
  by pat_completeness auto
termination by (relation "measure (\<lambda>(src, i). length src - i)") auto

declare ruby_block_end.simps [simp del]

section \<open>Where the inner loops stop\<close>

named_theorems scan_bounds \<open>an inner loop moves forward and stays inside the source\<close>

lemma char_at_Some: "char_at src i = Some c \<longleftrightarrow> i < length src \<and> src ! i = c"
  by (auto simp: char_at_def)

lemma line_end_bounds [scan_bounds]: "i \<le> line_end src i" "i \<le> length src \<Longrightarrow> line_end src i \<le> length src"
proof -
  have "i \<le> line_end src i \<and> (i \<le> length src \<longrightarrow> line_end src i \<le> length src)"
  proof (induction src i rule: line_end.induct)
    case (1 src i)
    then show ?case
      by (auto simp: line_end.simps [of src i])
  qed
  then show "i \<le> line_end src i" "i \<le> length src \<Longrightarrow> line_end src i \<le> length src"
    by auto
qed

lemma string_end_bounds [scan_bounds]:
  "i \<le> string_end esc brk q src i" "i \<le> length src \<Longrightarrow> string_end esc brk q src i \<le> length src"
proof -
  have "i \<le> string_end esc brk q src i \<and> (i \<le> length src \<longrightarrow> string_end esc brk q src i \<le> length src)"
  proof (induction esc brk q src i rule: string_end.induct)
    case (1 esc brk q src i)
    then show ?case
      by (auto simp: string_end.simps [of esc brk q src i])
  qed
  then show "i \<le> string_end esc brk q src i"
    "i \<le> length src \<Longrightarrow> string_end esc brk q src i \<le> length src"
    by auto
qed

lemma close_quote_bounds [scan_bounds]:
  "i \<le> close_quote q src i" "i \<le> length src \<Longrightarrow> close_quote q src i \<le> length src"
  by (auto simp: close_quote_def char_at_Some)

lemma block_scan_bounds:
  "i \<le> block_scan src i \<and> (i \<le> length src \<longrightarrow> block_scan src i \<le> length src)
   \<and> (block_scan src i < length src \<longrightarrow> block_scan src i + 1 < length src)"
proof (induction src i rule: block_scan.induct)
  case (1 src i)
  then show ?case
    by (auto simp: block_scan.simps [of src i] char_at_Some)
qed

lemma block_end_bounds [scan_bounds]:
  "i \<le> block_end src i" "i \<le> length src \<Longrightarrow> block_end src i \<le> length src"
  using block_scan_bounds [of i src] by (auto simp: block_end_def Let_def)

lemma nested_end_bounds [scan_bounds]:
  "i \<le> nested_end src i d" "i \<le> length src \<Longrightarrow> nested_end src i d \<le> length src"
proof -
  have "i \<le> nested_end src i d \<and> (i \<le> length src \<longrightarrow> nested_end src i d \<le> length src)"
  proof (induction src i d rule: nested_end.induct)
    case (1 src i d)
    then show ?case
      by (auto simp: nested_end.simps [of src i d] char_at_Some)
  qed
  then show "i \<le> nested_end src i d" "i \<le> length src \<Longrightarrow> nested_end src i d \<le> length src"
    by auto
qed

lemma triple_end_bounds [scan_bounds]:
  "i \<le> triple_end q src i" "i \<le> length src \<Longrightarrow> triple_end q src i \<le> length src"
proof -
  have "i \<le> triple_end q src i \<and> (i \<le> length src \<longrightarrow> triple_end q src i \<le> length src)"
  proof (induction q src i rule: triple_end.induct)
    case (1 q src i)
    then show ?case
      by (auto simp: triple_end.simps [of q src i] char_at_Some triple_at_def)
  qed
  then show "i \<le> triple_end q src i" "i \<le> length src \<Longrightarrow> triple_end q src i \<le> length src"
    by auto
qed

lemma skip_blanks_ge: "j \<le> skip_blanks src j"
proof (induction src j rule: skip_blanks.induct)
  case (1 src j)
  then show ?case
    by (auto simp: skip_blanks.simps [of src j])
qed

lemma ruby_block_end_bounds [scan_bounds]:
  "i \<le> ruby_block_end src i" "i \<le> length src \<Longrightarrow> ruby_block_end src i \<le> length src"
proof -
  have "i \<le> ruby_block_end src i \<and> (i \<le> length src \<longrightarrow> ruby_block_end src i \<le> length src)"
  proof (induction src i rule: ruby_block_end.induct)
    case (1 src i)
    let ?j = "skip_blanks src (i + 1)"
    have fits: "?j + 4 \<le> length src" if "starts_with (drop ?j src) ''=end''"
      using prefix_length_le [OF that] by simp
    show ?case
      using 1 fits skip_blanks_ge [of "i + 1" src] line_end_bounds [of "?j + 4" src]
      by (auto simp: ruby_block_end.simps [of src i])
  qed
  then show "i \<le> ruby_block_end src i" "i \<le> length src \<Longrightarrow> ruby_block_end src i \<le> length src"
    by auto
qed


text \<open>One step forward of each outer loop, the form their termination proofs need.\<close>

lemma scan_advances [simp]:
  "i < close_quote q src (string_end esc brk q' src (Suc i))"
  "i < block_end src (i + 2)" "i < nested_end src (i + 2) d"
  "i < triple_end q src (i + 3)" "i < ruby_block_end src (i + 6)"
  using close_quote_bounds(1) [of "string_end esc brk q' src (Suc i)" q src]
    string_end_bounds(1) [of "Suc i" esc brk q' src] block_end_bounds(1) [of "i + 2" src]
    nested_end_bounds(1) [of "i + 2" src d] triple_end_bounds(1) [of "i + 3" q src]
    ruby_block_end_bounds(1) [of "i + 6" src]
  by simp_all

lemma scan_advances_Suc [simp]:
  "i < block_end src (Suc (Suc i))" "i < nested_end src (Suc (Suc i)) d"
  using scan_advances(2) [of i src] scan_advances(3) [of i src d] by (simp_all del: scan_advances)

lemma line_end_advances [simp]: "i < length src \<Longrightarrow> src ! i \<noteq> newline \<Longrightarrow> i < line_end src i"
  using line_end_bounds(1) [of "Suc i" src] by (simp add: line_end.simps [of src i])

section \<open>The outer loops\<close>

text \<open>
  A loop returns the final \<open>out\<close>. In each clause the new \<open>i\<close> is named by the inner loop that
  computes it; a blanking clause also overwrites \<open>out\<close> from the old \<open>i\<close> up to the new one.
\<close>

function python_loop :: "string \<Rightarrow> nat \<Rightarrow> string \<Rightarrow> string" where
  "python_loop src i out =
     (if i < length src
      then let c = src ! i in
        if (c = dquote \<or> c = squote) \<and> triple_at c src i
        then let j = triple_end c src (i + 3) in python_loop src j (blankRange out i j src)
        else if c = dquote \<or> c = squote
        then python_loop src (close_quote c src (string_end True True c src (Suc i))) out
        else if c = CHR ''#''
        then let j = line_end src i in python_loop src j (blankRange out i j src)
        else python_loop src (Suc i) out
      else out)"
  by pat_completeness auto
termination
  by (relation "measure (\<lambda>(src, i, out). length src - i)") (auto intro!: diff_less_mono2 line_end_advances)

definition stripPython :: "string \<Rightarrow> string" where
  "stripPython src = python_loop src 0 src"

function ruby_loop :: "string \<Rightarrow> nat \<Rightarrow> bool \<Rightarrow> string \<Rightarrow> string" where
  "ruby_loop src i atLineStart out =
     (if i < length src
      then let c = src ! i in
        if atLineStart \<and> c = CHR ''='' \<and> starts_with (drop i src) ''=begin''
        then let j = ruby_block_end src (i + 6) in
          ruby_loop src j (j > 0 \<and> char_at src (j - 1) = Some newline) (blankRange out i j src)
        else if c = dquote \<or> c = squote
        then ruby_loop src (close_quote c src (string_end True True c src (Suc i))) False out
        else if c = CHR ''#''
        then let j = line_end src i in ruby_loop src j False (blankRange out i j src)
        else if c = newline then ruby_loop src (Suc i) True out
        else if c = CHR '' '' \<or> c = tab then ruby_loop src (Suc i) atLineStart out
        else ruby_loop src (Suc i) False out
      else out)"
  by pat_completeness auto
termination
  by (relation "measure (\<lambda>(src, i, b, out). length src - i)") (auto intro!: diff_less_mono2 line_end_advances)

definition stripRuby :: "string \<Rightarrow> string" where
  "stripRuby src = ruby_loop src 0 True src"

function cstyle_loop :: "bool \<Rightarrow> string \<Rightarrow> nat \<Rightarrow> string \<Rightarrow> string" where
  "cstyle_loop single src i out =
     (if i < length src
      then let c = src ! i; c2 = char_at src (i + 1) in
        if c = CHR ''/'' \<and> c2 = Some (CHR ''*'')
        then let j = block_end src (i + 2) in cstyle_loop single src j (blankRange out i j src)
        else if c = CHR ''/'' \<and> c2 = Some (CHR ''/'')
        then let j = line_end src i in cstyle_loop single src j (blankRange out i j src)
        else if c = dquote \<or> (single \<and> c = squote) \<or> c = backtick
        then cstyle_loop single src (close_quote c src (string_end True (c \<noteq> backtick) c src (Suc i))) out
        else cstyle_loop single src (Suc i) out
      else out)"
  by pat_completeness auto
termination
  by (relation "measure (\<lambda>(single, src, i, out). length src - i)") (auto intro!: diff_less_mono2 line_end_advances)

definition stripCStyle :: "string \<Rightarrow> bool \<Rightarrow> string" where
  "stripCStyle src allowSingleQuoteStrings = cstyle_loop allowSingleQuoteStrings src 0 src"

function php_loop :: "string \<Rightarrow> nat \<Rightarrow> string \<Rightarrow> string" where
  "php_loop src i out =
     (if i < length src
      then let c = src ! i; c2 = char_at src (i + 1) in
        if c = CHR ''/'' \<and> c2 = Some (CHR ''*'')
        then let j = block_end src (i + 2) in php_loop src j (blankRange out i j src)
        else if c = CHR ''/'' \<and> c2 = Some (CHR ''/'')
        then let j = line_end src i in php_loop src j (blankRange out i j src)
        else if c = CHR ''#''
        then let j = line_end src i in php_loop src j (blankRange out i j src)
        else if c = dquote \<or> c = squote \<or> c = backtick
        then php_loop src (close_quote c src (string_end True True c src (Suc i))) out
        else php_loop src (Suc i) out
      else out)"
  by pat_completeness auto
termination
  by (relation "measure (\<lambda>(src, i, out). length src - i)") (auto intro!: diff_less_mono2 line_end_advances)

definition stripPhp :: "string \<Rightarrow> string" where
  "stripPhp src = php_loop src 0 src"

function go_loop :: "string \<Rightarrow> nat \<Rightarrow> string \<Rightarrow> string" where
  "go_loop src i out =
     (if i < length src
      then let c = src ! i; c2 = char_at src (i + 1) in
        if c = CHR ''/'' \<and> c2 = Some (CHR ''*'')
        then let j = block_end src (i + 2) in go_loop src j (blankRange out i j src)
        else if c = CHR ''/'' \<and> c2 = Some (CHR ''/'')
        then let j = line_end src i in go_loop src j (blankRange out i j src)
        else if c = backtick
        then go_loop src (close_quote backtick src (string_end False False backtick src (Suc i))) out
        else if c = dquote
        then go_loop src (close_quote dquote src (string_end True True dquote src (Suc i))) out
        else if c = squote
        then go_loop src (close_quote squote src (string_end True True squote src (Suc i))) out
        else go_loop src (Suc i) out
      else out)"
  by pat_completeness auto
termination
  by (relation "measure (\<lambda>(src, i, out). length src - i)") (auto intro!: diff_less_mono2 line_end_advances)

definition stripGo :: "string \<Rightarrow> string" where
  "stripGo src = go_loop src 0 src"

function rust_loop :: "string \<Rightarrow> nat \<Rightarrow> string \<Rightarrow> string" where
  "rust_loop src i out =
     (if i < length src
      then let c = src ! i; c2 = char_at src (i + 1) in
        if c = CHR ''/'' \<and> c2 = Some (CHR ''*'')
        then let j = nested_end src (i + 2) 1 in rust_loop src j (blankRange out i j src)
        else if c = CHR ''/'' \<and> c2 = Some (CHR ''/'')
        then let j = line_end src i in rust_loop src j (blankRange out i j src)
        else if c = dquote
        then rust_loop src (close_quote dquote src (string_end True False dquote src (Suc i))) out
        else if c = squote
        then rust_loop src (close_quote squote src (string_end True True squote src (Suc i))) out
        else rust_loop src (Suc i) out
      else out)"
  by pat_completeness auto
termination
  by (relation "measure (\<lambda>(src, i, out). length src - i)") (auto intro!: diff_less_mono2 line_end_advances)

definition stripRust :: "string \<Rightarrow> string" where
  "stripRust src = rust_loop src 0 src"

declare python_loop.simps [simp del] ruby_loop.simps [simp del] cstyle_loop.simps [simp del]
declare php_loop.simps [simp del] go_loop.simps [simp del] rust_loop.simps [simp del]

fun stripCommentsForRegex :: "string \<Rightarrow> CommentLang \<Rightarrow> string" where
  "stripCommentsForRegex content Python = stripPython content"
| "stripCommentsForRegex content Ruby = stripRuby content"
| "stripCommentsForRegex content Rust = stripRust content"
| "stripCommentsForRegex content Php = stripPhp content"
| "stripCommentsForRegex content Go = stripGo content"
| "stripCommentsForRegex content lang =
     stripCStyle content (lang = Javascript \<or> lang = Typescript)"


section \<open>What a blanked range is\<close>

definition blank_char :: "char \<Rightarrow> char" where
  "blank_char c = (if c = newline then newline else CHR '' '')"

lemma slice_split: "i \<le> j \<Longrightarrow> drop i s = slice i j s @ drop j s"
  unfolding slice_def by (metis append_take_drop_id drop_drop le_add_diff_inverse2)

lemma blankRange_eq:
  assumes "start \<le> stop" and "stop \<le> length src" and "length buf = length src"
  shows "blankRange buf start stop src = take start buf @ map blank_char (slice start stop src) @ drop stop buf"
  using assms
proof (induction stop rule: dec_induct)
  case base
  then show ?case
    by (simp add: blankRange_def slice_def)
next
  case (step n)
  let ?b = "take start buf @ map blank_char (slice start n src) @ drop n buf"
  have len: "length (take start buf @ map blank_char (slice start n src)) = n"
    using step by (simp add: slice_def)
  have "blankRange buf start (Suc n) src = buf_put (blankRange buf start n src) n (blank_char (src ! n))"
    using step.hyps step.prems unfolding blankRange_def blank_char_def by (simp add: char_at_Some)
  also have "blankRange buf start n src = ?b"
    using step by simp
  also have "buf_put ?b n (blank_char (src ! n))
      = (take start buf @ map blank_char (slice start n src)) @ blank_char (src ! n) # drop (Suc n) buf"
  proof -
    let ?xs = "take start buf @ map blank_char (slice start n src)"
    have "drop n buf = buf ! n # drop (Suc n) buf"
      using step by (simp add: Cons_nth_drop_Suc)
    then have b: "?b = ?xs @ buf ! n # drop (Suc n) buf"
      by simp
    have "?b[n := blank_char (src ! n)] = ?xs @ blank_char (src ! n) # drop (Suc n) buf"
      unfolding b by (metis len list_update_length)
    moreover have "n < length ?b"
      unfolding b using len by simp
    then have "buf_put ?b n (blank_char (src ! n)) = ?b[n := blank_char (src ! n)]"
      unfolding buf_put_def by (rule if_P)
    ultimately show ?thesis
      by (metis append.assoc)
  qed
  also have "slice start (Suc n) src = slice start n src @ [src ! n]"
    using step by (simp add: slice_def Suc_diff_le take_Suc_conv_app_nth)
  then have "(take start buf @ map blank_char (slice start n src)) @ blank_char (src ! n) # drop (Suc n) buf
      = take start buf @ map blank_char (slice start (Suc n) src) @ drop (Suc n) buf"
    by simp
  finally show ?case .
qed

text \<open>
  The contract of a stripper: the output has the length of the source, and each of its characters
  is the source's or a blank in the place of a character that is not a newline.
\<close>

definition blanked :: "string \<Rightarrow> string \<Rightarrow> bool" where
  "blanked src out =
     (list_all2 (\<lambda>c d. d = c \<or> (c \<noteq> newline \<and> d = CHR '' '')) src out)"

lemma blanked_refl [simp]: "blanked src src"
  by (simp add: blanked_def list_all2_same)

lemma blanked_length: "blanked src out \<Longrightarrow> length out = length src"
  by (simp add: blanked_def list_all2_lengthD)

lemma blanked_blankRange:
  assumes "blanked src out" and "i \<le> j" and "j \<le> length src"
  shows "blanked src (blankRange out i j src)"
proof -
  let ?P = "\<lambda>c d. d = c \<or> (c \<noteq> newline \<and> d = CHR '' '')"
  have parts: "src = take i src @ slice i j src @ drop j src"
    using slice_split [OF assms(2), of src] by (metis append_take_drop_id)
  have "list_all2 ?P (take i src @ slice i j src @ drop j src)
      (take i out @ map blank_char (slice i j src) @ drop j out)"
    using assms(1) unfolding blanked_def
    by (intro list_all2_appendI) (auto simp: list_all2_map2 list_all2_same blank_char_def)
  then have "list_all2 ?P src (take i out @ map blank_char (slice i j src) @ drop j out)"
    using parts by simp
  then show ?thesis
    using blankRange_eq [OF assms(2,3) blanked_length [OF assms(1)]] by (simp add: blanked_def)
qed

section \<open>The interface of a scanning loop\<close>

text \<open>
  A \<open>scanner\<close> is a loop whose round at \<open>i\<close> finds the end of a token and whether to blank it, with
  a state \<open>'s\<close> carried between rounds (Ruby's \<open>atLineStart\<close>).
\<close>

locale scanner =
  fixes loop :: "string \<Rightarrow> nat \<Rightarrow> 's \<Rightarrow> string \<Rightarrow> string"
    and step :: "string \<Rightarrow> nat \<Rightarrow> 's \<Rightarrow> nat \<times> 's \<times> bool"
  assumes loop_done: "\<not> i < length src \<Longrightarrow> loop src i s out = out"
    and loop_step: "i < length src \<Longrightarrow> step src i s = (j, s', b) \<Longrightarrow>
      loop src i s out = loop src j s' (if b then blankRange out i j src else out)"
    and step_forward: "i < length src \<Longrightarrow> step src i s = (j, s', b) \<Longrightarrow> i < j \<and> j \<le> length src"
begin

lemma loop_blanked: "blanked src out \<Longrightarrow> blanked src (loop src i s out)"
proof (induction "length src - i" arbitrary: i s out rule: less_induct)
  case less
  show ?case
  proof (cases "i < length src")
    case True
    obtain j s' b where st: "step src i s = (j, s', b)"
      by (cases "step src i s")
    from step_forward [OF True st] have j: "i < j" "j \<le> length src"
      by auto
    have "blanked src (if b then blankRange out i j src else out)"
      using blanked_blankRange [OF less.prems _ j(2)] less.prems j(1) by simp
    then show ?thesis
      using less.hyps [of j] True j by (simp add: loop_step [OF True st])
  qed (simp add: loop_done less.prems)
qed

end

text \<open>The lexical conventions in which the four C-like strippers differ.\<close>

record lexicon =
  hash :: bool
  nested :: bool
  quotes :: "char \<Rightarrow> bool"
  escapes :: "char \<Rightarrow> bool"
  breaks :: "char \<Rightarrow> bool"

definition token :: "lexicon \<Rightarrow> string \<Rightarrow> nat \<Rightarrow> nat \<times> bool" where
  "token lx src i =
     (let c = src ! i; c2 = char_at src (i + 1) in
      if c = CHR ''/'' \<and> c2 = Some (CHR ''*'')
      then (if nested lx then nested_end src (i + 2) 1 else block_end src (i + 2), True)
      else if c = CHR ''/'' \<and> c2 = Some (CHR ''/'') \<or> hash lx \<and> c = CHR ''#'' then (line_end src i, True)
      else if quotes lx c
      then (close_quote c src (string_end (escapes lx c) (breaks lx c) c src (Suc i)), False)
      else (Suc i, False))"

lemma token_forward: "i < length src \<Longrightarrow> i < fst (token lx src i) \<and> fst (token lx src i) \<le> length src"
proof -
  assume i: "i < length src"
  have "close_quote c src (string_end e b c src (Suc i)) \<le> length src" for c e b
    using i by (simp add: scan_bounds)
  moreover have "block_end src (i + 2) \<le> length src \<and> nested_end src (i + 2) d \<le> length src"
    if "char_at src (i + 1) = Some c" for c d
    using that by (simp add: scan_bounds char_at_Some)
  moreover have "line_end src i \<le> length src"
    using i by (simp add: scan_bounds)
  ultimately show ?thesis
    using i by (auto simp: token_def Let_def line_end_advances)
qed

locale c_like =
  fixes lx :: lexicon and loop :: "string \<Rightarrow> nat \<Rightarrow> string \<Rightarrow> string"
  assumes loop_end: "\<not> i < length src \<Longrightarrow> loop src i out = out"
    and round: "i < length src \<Longrightarrow> loop src i out =
      loop src (fst (token lx src i))
        (if snd (token lx src i) then blankRange out i (fst (token lx src i)) src else out)"
    and newline_plain: "\<not> quotes lx newline"

sublocale c_like \<subseteq> scanner "\<lambda>src i (s :: unit). loop src i"
  "\<lambda>src i s. (fst (token lx src i), (), snd (token lx src i))"
  using token_forward by unfold_locales (auto simp: loop_end round)


section \<open>The reference automaton\<close>

text \<open>
  \<open>Code\<close>, inside a line comment, inside \<open>d\<close> open block comments, inside a string opened by \<open>q\<close>.
  The automaton reads one character (two at a block mark or an escape) and writes as many.
\<close>

datatype mode = Code | Line | Block nat | Str char

function blank_spec :: "lexicon \<Rightarrow> mode \<Rightarrow> string \<Rightarrow> string" where
  "blank_spec lx m [] = []"
| "blank_spec lx Code (c # s) =
     (if c = CHR ''/'' \<and> starts_with s ''*'' then CHR '' '' # CHR '' '' # blank_spec lx (Block 1) (tl s)
      else if c = CHR ''/'' \<and> starts_with s ''/'' \<or> hash lx \<and> c = CHR ''#''
      then CHR '' '' # blank_spec lx Line s
      else c # blank_spec lx (if quotes lx c then Str c else Code) s)"
| "blank_spec lx Line (c # s) =
     (if c = newline then c # blank_spec lx Code s else CHR '' '' # blank_spec lx Line s)"
| "blank_spec lx (Block d) (c # s) =
     (if nested lx \<and> c = CHR ''/'' \<and> starts_with s ''*''
      then CHR '' '' # CHR '' '' # blank_spec lx (Block (d + 1)) (tl s)
      else if c = CHR ''*'' \<and> starts_with s ''/''
      then CHR '' '' # CHR '' '' # blank_spec lx (if d \<le> 1 then Code else Block (d - 1)) (tl s)
      else blank_char c # blank_spec lx (Block d) s)"
| "blank_spec lx (Str q) (c # s) =
     (if c = q then c # blank_spec lx Code s
      else if escapes lx q \<and> c = backslash \<and> s \<noteq> [] then c # hd s # blank_spec lx (Str q) (tl s)
      else c # blank_spec lx (if breaks lx q \<and> c = newline then Code else Str q) s)"
  by pat_completeness auto
termination by (relation "measure (\<lambda>(lx, m, s). length s)") (auto simp: less_Suc_eq_le)

text \<open>The position lemmas: the automaton over one inner loop.\<close>

lemma slice_Cons: "i < j \<Longrightarrow> i < length s \<Longrightarrow> slice i j s = s ! i # slice (Suc i) j s"
  by (simp add: slice_def Cons_nth_drop_Suc [symmetric] take_Cons' Suc_diff_Suc)

lemma slice_Cons2:
  "i + 2 \<le> j \<Longrightarrow> i + 1 < length s \<Longrightarrow> slice i j s = s ! i # s ! (i + 1) # slice (i + 2) j s"
  by (simp add: slice_Cons)

lemma slice_self [simp]: "slice i i s = []"
  by (simp add: slice_def)

lemma starts_char: "starts_with (drop i src) [c] \<longleftrightarrow> char_at src i = Some c"
  by (cases "i < length src") (auto simp: char_at_Some Cons_nth_drop_Suc [symmetric])

lemma drop_nth: "i < length src \<Longrightarrow> drop i src = src ! i # drop (Suc i) src"
  by (simp add: Cons_nth_drop_Suc)

context c_like
begin

lemma code_newline: "i < length src \<Longrightarrow> src ! i = newline \<Longrightarrow>
    blank_spec lx Code (drop i src) = newline # blank_spec lx Code (drop (Suc i) src)"
  using newline_plain by (simp add: drop_nth)

lemma spec_line:
  "blank_spec lx Line (drop i src) =
     map blank_char (slice i (line_end src i) src) @ blank_spec lx Code (drop (line_end src i) src)"
proof (induction src i rule: line_end.induct)
  case (1 src i)
  show ?case
  proof (cases "i < length src \<and> src ! i \<noteq> newline")
    case True
    have "i < line_end src i"
      using True by (intro line_end_advances) auto
    then have "slice i (line_end src i) src = src ! i # slice (Suc i) (line_end src i) src"
      using True by (intro slice_Cons) auto
    moreover have "line_end src i = line_end src (Suc i)"
      using True by (simp add: line_end.simps [of src i])
    ultimately show ?thesis
      using 1 [OF True] True by (simp add: drop_nth blank_char_def)
  next
    case False
    then have "line_end src i = i"
      by (subst line_end.simps) auto
    then show ?thesis
      using False code_newline [of i src] by (cases "i < length src") (simp_all add: drop_nth)
  qed
qed

lemma spec_string:
  "escapes lx q = esc \<Longrightarrow> breaks lx q = brk \<Longrightarrow>
   blank_spec lx (Str q) (drop i src) =
     slice i (close_quote q src (string_end esc brk q src i)) src
     @ blank_spec lx Code (drop (close_quote q src (string_end esc brk q src i)) src)"
proof (induction esc brk q src i rule: string_end.induct)
  case (1 esc brk q src i)
  let ?e = "\<lambda>i. string_end esc brk q src i"
  let ?k = "\<lambda>i. close_quote q src (?e i)"
  have ge: "j \<le> ?k j" for j
    using string_end_bounds(1) [of j esc brk q src] close_quote_bounds(1) [of "?e j" q src] by simp
  note unf = string_end.simps [of esc brk q src i]
  consider "\<not> i < length src" | "i < length src" "src ! i = q"
    | "i < length src" "src ! i \<noteq> q" "esc \<and> src ! i = backslash \<and> i + 1 < length src"
    | "i < length src" "src ! i \<noteq> q" "\<not> (esc \<and> src ! i = backslash \<and> i + 1 < length src)" "brk \<and> src ! i = newline"
    | "i < length src" "src ! i \<noteq> q" "\<not> (esc \<and> src ! i = backslash \<and> i + 1 < length src)" "\<not> (brk \<and> src ! i = newline)"
    by blast
  then show ?case
  proof cases
    case 3
    have k: "?k i = ?k (i + 2)"
      using 3 unfolding unf by simp
    have "slice i (?k i) src = src ! i # src ! (i + 1) # slice (i + 2) (?k i) src"
    proof (rule slice_Cons2)
      show "i + 2 \<le> ?k i"
        using ge [of "i + 2"] unfolding k .
    qed (use 3 in simp)
    then show ?thesis
      using 1(1) 1(3,4) 3 unfolding k by (simp add: drop_nth)
  next
    case 4
    have e: "?e i = i"
      unfolding unf using 4 by auto
    have k: "?k i = i"
      unfolding e using 4 by (simp add: close_quote_def char_at_def)
    show ?thesis
      unfolding k using code_newline [of i src] 1(3,4) 4 by (auto simp: drop_nth)
  next
    case 5
    have k: "?k i = ?k (Suc i)"
      using 5 unfolding unf by auto
    have "slice i (?k i) src = src ! i # slice (Suc i) (?k i) src"
      using ge [of "Suc i"] 5 by (intro slice_Cons) (simp_all add: k)
    then show ?thesis
      using 1(2) 1(3,4) 5 by (auto simp: k drop_nth)
  qed (auto simp: unf close_quote_def char_at_def drop_nth slice_Cons)
qed

lemma spec_block:
  assumes "\<not> nested lx"
  shows "i \<le> length src \<Longrightarrow> blank_spec lx (Block 1) (drop i src) =
     map blank_char (slice i (block_end src i) src) @ blank_spec lx Code (drop (block_end src i) src)"
proof (induction src i rule: block_scan.induct)
  case (1 src i)
  note unf = block_scan.simps [of src i]
  consider "\<not> i < length src"
    | "i < length src" "src ! i = CHR ''*'' \<and> char_at src (i + 1) = Some (CHR ''/'')"
    | "i < length src" "\<not> (src ! i = CHR ''*'' \<and> char_at src (i + 1) = Some (CHR ''/''))"
    by blast
  then show ?case
  proof cases
    case 2
    then have e: "block_end src i = i + 2" and c: "starts_with (drop (Suc i) src) ''/''"
      by (simp_all add: unf block_end_def starts_char)
    have "slice i (i + 2) src = [src ! i, src ! (i + 1)]"
      using 2 by (subst slice_Cons2) (auto simp: char_at_Some)
    then show ?thesis
      using 2 c assms unfolding e by (simp add: drop_nth blank_char_def char_at_Some)
  next
    case 3
    then have e: "block_end src i = block_end src (Suc i)"
      by (auto simp: unf block_end_def)
    have "slice i (block_end src i) src = src ! i # slice (Suc i) (block_end src i) src"
      using block_end_bounds(1) [of "Suc i" src] 3 by (intro slice_Cons) (simp_all add: e)
    then show ?thesis
      using 1 3 assms by (auto simp: e drop_nth starts_char)
  qed (simp add: unf block_end_def)
qed

lemma spec_nested:
  assumes "nested lx"
  shows "d > 0 \<Longrightarrow> blank_spec lx (Block d) (drop i src) =
     map blank_char (slice i (nested_end src i d) src) @ blank_spec lx Code (drop (nested_end src i d) src)"
proof (induction src i d rule: nested_end.induct)
  case (1 src i d)
  note unf = nested_end.simps [of src i d]
  consider "\<not> i < length src"
    | "i < length src" "src ! i = CHR ''/'' \<and> char_at src (i + 1) = Some (CHR ''*'')"
    | "i < length src" "src ! i = CHR ''*'' \<and> char_at src (i + 1) = Some (CHR ''/'')"
    | "i < length src" "\<not> (src ! i = CHR ''/'' \<and> char_at src (i + 1) = Some (CHR ''*''))"
      "\<not> (src ! i = CHR ''*'' \<and> char_at src (i + 1) = Some (CHR ''/''))"
    by blast
  then show ?case
  proof cases
    case 2
    then have e: "nested_end src i d = nested_end src (i + 2) (d + 1)"
      using 1(4) by (simp add: unf)
    have "slice i (nested_end src i d) src = src ! i # src ! (i + 1) # slice (i + 2) (nested_end src i d) src"
      using 2 nested_end_bounds(1) [of "i + 2" src "d + 1"] by (intro slice_Cons2) (auto simp: e char_at_Some)
    then show ?thesis
      using 1(1) 1(4) 2 assms by (auto simp: e drop_nth blank_char_def char_at_Some)
  next
    case 3
    then have e: "nested_end src i d = nested_end src (i + 2) (d - 1)"
      using 1(4) by (simp add: unf)
    have s: "slice i (nested_end src i d) src = src ! i # src ! (i + 1) # slice (i + 2) (nested_end src i d) src"
      using 3 nested_end_bounds(1) [of "i + 2" src "d - 1"] by (intro slice_Cons2) (auto simp: e char_at_Some)
    show ?thesis
    proof (cases "d = 1")
      case True
      have "nested_end src (i + 2) 0 = i + 2"
        by (subst nested_end.simps) simp
      with e True have "nested_end src i d = i + 2"
        by simp
      then show ?thesis
        using s 3 assms True by (auto simp: drop_nth blank_char_def char_at_Some)
    next
      case False
      then show ?thesis
        using s 1(2) 1(4) 3 assms by (auto simp: e drop_nth blank_char_def char_at_Some)
    qed
  next
    case 4
    then have e: "nested_end src i d = nested_end src (Suc i) d"
      using 1(4) by (auto simp: unf)
    have "slice i (nested_end src i d) src = src ! i # slice (Suc i) (nested_end src i d) src"
      using nested_end_bounds(1) [of "Suc i" src d] 4 by (intro slice_Cons) (simp_all add: e)
    then show ?thesis
      using 1(3) 1(4) 4 assms by (auto simp: e drop_nth starts_char)
  qed (simp add: unf)
qed

lemma token_spec:
  assumes "i < length src" and "token lx src i = (j, b)"
  shows "blank_spec lx Code (drop i src) =
    (if b then map blank_char (slice i j src) else slice i j src) @ blank_spec lx Code (drop j src)"
proof -
  note two = slice_Cons2 [of i j src] and one = slice_Cons [of i j src]
  have fwd: "i < j"
    using token_forward [OF assms(1), of lx] assms(2) by simp
  consider (open_block) "src ! i = CHR ''/''" "char_at src (i + 1) = Some (CHR ''*'')"
    | (line) "\<not> (src ! i = CHR ''/'' \<and> char_at src (i + 1) = Some (CHR ''*''))"
      "src ! i = CHR ''/'' \<and> char_at src (i + 1) = Some (CHR ''/'') \<or> hash lx \<and> src ! i = CHR ''#''"
    | (other) "\<not> (src ! i = CHR ''/'' \<and> char_at src (i + 1) = Some (CHR ''*''))"
      "\<not> (src ! i = CHR ''/'' \<and> char_at src (i + 1) = Some (CHR ''/'') \<or> hash lx \<and> src ! i = CHR ''#'')"
    by blast
  then show ?thesis
  proof cases
    case open_block
    then have j: "b" "j = (if nested lx then nested_end src (i + 2) 1 else block_end src (i + 2))"
      using assms(2) by (auto simp: token_def)
    have "blank_spec lx (Block 1) (drop (i + 2) src) =
        map blank_char (slice (i + 2) j src) @ blank_spec lx Code (drop j src)"
      using spec_block [of "i + 2" src] spec_nested [of 1 "i + 2" src] open_block
      by (auto simp: j(2) char_at_Some)
    moreover have "slice i j src = src ! i # src ! (i + 1) # slice (i + 2) j src"
      using open_block nested_end_bounds(1) [of "i + 2" src 1] block_end_bounds(1) [of "i + 2" src]
      by (intro two) (auto simp: j(2) char_at_Some)
    ultimately show ?thesis
      using open_block j(1) assms(1) by (auto simp: drop_nth blank_char_def char_at_Some)
  next
    case line
    then have j: "b" "j = line_end src i" and nl: "src ! i \<noteq> newline"
      using assms(2) by (auto simp: token_def)
    have "line_end src i = line_end src (Suc i)"
      using assms(1) nl by (simp add: line_end.simps [of src i])
    then show ?thesis
      using spec_line [of "Suc i" src] one [OF fwd assms(1)] line j nl assms(1)
      by (auto simp: drop_nth starts_char blank_char_def)
  next
    case other
    show ?thesis
    proof (cases "quotes lx (src ! i)")
      case True
      then show ?thesis
        using spec_string [OF refl refl, of "src ! i" "Suc i" src] one [OF fwd assms(1)] other assms
        by (auto simp: token_def Let_def drop_nth starts_char split: if_splits)
    next
      case False
      then have "j = Suc i" "\<not> b"
        using other assms(2) by (auto simp: token_def)
      then show ?thesis
        using one [OF fwd assms(1)] other False assms(1) by (auto simp: drop_nth starts_char)
    qed
  qed
qed

lemma loop_spec:
  "length out = length src \<Longrightarrow> drop i out = drop i src \<Longrightarrow>
   loop src i out = take i out @ blank_spec lx Code (drop i src)"
proof (induction "length src - i" arbitrary: i out rule: less_induct)
  case less
  show ?case
  proof (cases "i < length src")
    case True
    obtain j b where tk: "token lx src i = (j, b)"
      by (cases "token lx src i")
    from token_forward [OF True, of lx] tk have j: "i < j" "j \<le> length src"
      by auto
    let ?out = "if b then blankRange out i j src else out"
    have eq: "?out = take i out @ (if b then map blank_char (slice i j src) else slice i j src) @ drop j src"
      using blankRange_eq [of i j src out] j less.prems slice_split [of i j src]
      by (auto simp: drop_drop [symmetric] less.prems(2) simp del: drop_drop)
         (metis drop_drop le_add_diff_inverse2 less_imp_le_nat less.prems(2), metis append_take_drop_id less.prems(2))
    have len: "length (take i out @ (if b then map blank_char (slice i j src) else slice i j src)) = j"
      using j less.prems by (auto simp: slice_def)
    have "loop src i out = loop src j ?out"
      using round [OF True] tk by simp
    also have "\<dots> = take j ?out @ blank_spec lx Code (drop j src)"
      using less.hyps [of j ?out] True j len unfolding eq by (simp add: less.prems)
    also have "take j ?out = take i out @ (if b then map blank_char (slice i j src) else slice i j src)"
      using len unfolding eq by (metis append.assoc append_eq_conv_conj)
    finally show ?thesis
      using token_spec [OF True tk] by simp
  qed (simp add: loop_end less.prems)
qed

lemma strip_spec: "loop src 0 src = blank_spec lx Code src"
  using loop_spec [of src src 0] by simp

end


section \<open>The strippers meet the interface\<close>

definition c_lexicon :: "bool \<Rightarrow> lexicon" where
  "c_lexicon single =
     \<lparr> hash = False, nested = False, quotes = (\<lambda>c. c = dquote \<or> (single \<and> c = squote) \<or> c = backtick),
       escapes = (\<lambda>q. True), breaks = (\<lambda>q. q \<noteq> backtick) \<rparr>"

definition php_lexicon :: lexicon where
  "php_lexicon =
     \<lparr> hash = True, nested = False, quotes = (\<lambda>c. c = dquote \<or> c = squote \<or> c = backtick),
       escapes = (\<lambda>q. True), breaks = (\<lambda>q. True) \<rparr>"

definition go_lexicon :: lexicon where
  "go_lexicon =
     \<lparr> hash = False, nested = False, quotes = (\<lambda>c. c = backtick \<or> c = dquote \<or> c = squote),
       escapes = (\<lambda>q. q \<noteq> backtick), breaks = (\<lambda>q. q \<noteq> backtick) \<rparr>"

definition rust_lexicon :: lexicon where
  "rust_lexicon =
     \<lparr> hash = False, nested = True, quotes = (\<lambda>c. c = dquote \<or> c = squote),
       escapes = (\<lambda>q. True), breaks = (\<lambda>q. q = squote) \<rparr>"

interpretation cs: c_like "c_lexicon single" "cstyle_loop single" for single
proof unfold_locales
  fix src :: string and i :: nat and out :: string
  note unf = cstyle_loop.simps [of single src i out]
  show "\<not> i < length src \<Longrightarrow> cstyle_loop single src i out = out"
    unfolding unf by simp
  show "i < length src \<Longrightarrow> cstyle_loop single src i out = cstyle_loop single src (fst (token (c_lexicon single) src i))
      (if snd (token (c_lexicon single) src i) then blankRange out i (fst (token (c_lexicon single) src i)) src else out)"
    unfolding unf by (auto simp: token_def c_lexicon_def Let_def)
qed (simp add: c_lexicon_def)

interpretation php: c_like php_lexicon php_loop
proof unfold_locales
  fix src :: string and i :: nat and out :: string
  note unf = php_loop.simps [of src i out]
  show "\<not> i < length src \<Longrightarrow> php_loop src i out = out"
    unfolding unf by simp
  show "i < length src \<Longrightarrow> php_loop src i out = php_loop src (fst (token php_lexicon src i))
      (if snd (token php_lexicon src i) then blankRange out i (fst (token php_lexicon src i)) src else out)"
    unfolding unf by (auto simp: token_def php_lexicon_def Let_def)
qed (simp add: php_lexicon_def)

interpretation go: c_like go_lexicon go_loop
proof unfold_locales
  fix src :: string and i :: nat and out :: string
  note unf = go_loop.simps [of src i out]
  show "\<not> i < length src \<Longrightarrow> go_loop src i out = out"
    unfolding unf by simp
  show "i < length src \<Longrightarrow> go_loop src i out = go_loop src (fst (token go_lexicon src i))
      (if snd (token go_lexicon src i) then blankRange out i (fst (token go_lexicon src i)) src else out)"
    unfolding unf by (auto simp: token_def go_lexicon_def Let_def)
qed (simp add: go_lexicon_def)

interpretation rust: c_like rust_lexicon rust_loop
proof unfold_locales
  fix src :: string and i :: nat and out :: string
  note unf = rust_loop.simps [of src i out]
  show "\<not> i < length src \<Longrightarrow> rust_loop src i out = out"
    unfolding unf by simp
  show "i < length src \<Longrightarrow> rust_loop src i out = rust_loop src (fst (token rust_lexicon src i))
      (if snd (token rust_lexicon src i) then blankRange out i (fst (token rust_lexicon src i)) src else out)"
    unfolding unf by (auto simp: token_def rust_lexicon_def Let_def)
qed (simp add: rust_lexicon_def)

text \<open>The rounds of the Python and Ruby loops.\<close>

definition python_token :: "string \<Rightarrow> nat \<Rightarrow> unit \<Rightarrow> nat \<times> unit \<times> bool" where
  "python_token src i s =
     (let c = src ! i in
      if (c = dquote \<or> c = squote) \<and> triple_at c src i then (triple_end c src (i + 3), (), True)
      else if c = dquote \<or> c = squote then (close_quote c src (string_end True True c src (Suc i)), (), False)
      else if c = CHR ''#'' then (line_end src i, (), True)
      else (Suc i, (), False))"

definition ruby_token :: "string \<Rightarrow> nat \<Rightarrow> bool \<Rightarrow> nat \<times> bool \<times> bool" where
  "ruby_token src i atLineStart =
     (let c = src ! i in
      if atLineStart \<and> c = CHR ''='' \<and> starts_with (drop i src) ''=begin''
      then (ruby_block_end src (i + 6),
        ruby_block_end src (i + 6) > 0 \<and> char_at src (ruby_block_end src (i + 6) - 1) = Some newline, True)
      else if c = dquote \<or> c = squote
      then (close_quote c src (string_end True True c src (Suc i)), False, False)
      else if c = CHR ''#'' then (line_end src i, False, True)
      else if c = newline then (Suc i, True, False)
      else if c = CHR '' '' \<or> c = tab then (Suc i, atLineStart, False)
      else (Suc i, False, False))"

interpretation py: scanner "\<lambda>src i (s :: unit). python_loop src i" python_token
proof unfold_locales
  fix src :: string and i j :: nat and s s' :: unit and b :: bool and out :: string
  note unf = python_loop.simps [of src i out]
  show "\<not> i < length src \<Longrightarrow> python_loop src i out = out"
    unfolding unf by simp
  show "i < length src \<Longrightarrow> python_token src i s = (j, s', b) \<Longrightarrow>
      python_loop src i out = python_loop src j (if b then blankRange out i j src else out)"
    unfolding unf by (auto simp: python_token_def Let_def split: if_splits)
  show "i < length src \<Longrightarrow> python_token src i s = (j, s', b) \<Longrightarrow> i < j \<and> j \<le> length src"
    using scan_advances(4) [of i "src ! i" src] triple_end_bounds(2) [of "i + 3" src "src ! i"]
    by (auto simp: python_token_def Let_def triple_at_def char_at_Some scan_bounds
        intro!: line_end_advances split: if_splits)
qed

interpretation rb: scanner ruby_loop ruby_token
proof unfold_locales
  fix src :: string and i j :: nat and s s' :: bool and b :: bool and out :: string
  note unf = ruby_loop.simps [of src i s out]
  show "\<not> i < length src \<Longrightarrow> ruby_loop src i s out = out"
    unfolding unf by simp
  show "i < length src \<Longrightarrow> ruby_token src i s = (j, s', b) \<Longrightarrow>
      ruby_loop src i s out = ruby_loop src j s' (if b then blankRange out i j src else out)"
    unfolding unf by (auto simp: ruby_token_def Let_def split: if_splits)
  have fits: "i + 6 \<le> length src" if "starts_with (drop i src) ''=begin''"
    using prefix_length_le [OF that] by simp
  define r where "r = ruby_block_end src (i + 6)"
  have r: "i < r" "i + 6 \<le> length src \<Longrightarrow> r \<le> length src"
    using ruby_block_end_bounds(2) [of "i + 6" src] by (simp_all add: r_def)
  show "i < length src \<Longrightarrow> ruby_token src i s = (j, s', b) \<Longrightarrow> i < j \<and> j \<le> length src"
    unfolding ruby_token_def r_def [symmetric] using r fits
    by (auto simp: Let_def scan_bounds intro!: line_end_advances split: if_splits)
qed

section \<open>Properties\<close>

text \<open>
  C36: For every language the stripped text has the length of the source, keeps every newline in its
  place, and changes a character only into a blank. So an offset or a line number found in it is one
  of the source.
\<close>

theorem strip_preserves_offsets: "blanked content (stripCommentsForRegex content lang)"
  by (cases lang)
    (simp_all add: stripPython_def stripRuby_def stripRust_def stripPhp_def stripGo_def
      stripCStyle_def py.loop_blanked rb.loop_blanked cs.loop_blanked php.loop_blanked
      go.loop_blanked rust.loop_blanked)

text \<open>
  C37: The four index-based scanners for C-like languages compute a character-by-character automaton
  with the modes code, line comment, block comment (with a depth, for Rust) and string: exactly the
  comments are blanked, and comment marks inside strings and quotes inside comments mean nothing.
\<close>

theorem c_like_strippers_automaton:
  "stripCStyle src single = blank_spec (c_lexicon single) Code src
   \<and> stripPhp src = blank_spec php_lexicon Code src
   \<and> stripGo src = blank_spec go_lexicon Code src
   \<and> stripRust src = blank_spec rust_lexicon Code src"
  by (simp add: stripCStyle_def stripPhp_def stripGo_def stripRust_def cs.strip_spec php.strip_spec
      go.strip_spec rust.strip_spec)

end
