(* ===== verification/Search.thy ===== *)
theory Search
  imports GraphStore QueryParser QueryUtils
begin

text \<open>
  The searches of \<open>QueryBuilder\<close> (\<open>db/queries.ts\<close>): the full-text search with its fallbacks and
  its scoring, the exact-name and substring lookups, and the three aggregate queries on files and
  routes. The FTS5 index is SQLite's: a search takes the function \<open>fts\<close> that gives the rows of the
  join \<open>nodes_fts MATCH q\<close> with their \<open>bm25\<close> scores, or \<open>None\<close> when the statement throws; the filters, the
  ordering and the limits of the statement are modelled. Scores are rationals. A \<open>LIMIT\<close> without
  \<open>ORDER BY\<close> takes the rows in rowid order.
\<close>

record search_options =
  so_kinds :: "node_kind list"
  so_languages :: "language list"
  so_limit :: "nat option"
  so_offset :: "nat option"

record search_result =
  sr_node :: node
  sr_score :: rat

type_synonym fts_index = "db \<Rightarrow> string \<Rightarrow> (node_row \<times> rat) list option"

definition default_limit :: "nat \<Rightarrow> nat option \<Rightarrow> nat" where
  "default_limit n given = (case given of Some l \<Rightarrow> l | None \<Rightarrow> n)"

text \<open>The optional clauses \<open>AND kind IN (...)\<close> and \<open>AND language IN (...)\<close>.\<close>

definition row_wanted :: "node_kind list \<Rightarrow> language list \<Rightarrow> node_row \<Rightarrow> bool" where
  "row_wanted kinds languages r =
     ((kinds = [] \<or> r_kind r \<in> set kinds) \<and> (languages = [] \<or> r_language r \<in> set languages))"

text \<open>\<open>name = ? COLLATE NOCASE\<close>: the ASCII letters are folded.\<close>

definition nocase_eq :: "string \<Rightarrow> string \<Rightarrow> bool" where
  "nocase_eq a b = (to_lower a = to_lower b)"

text \<open>\<open>LIKE\<close>, with the pattern first; \<open>%\<close> and \<open>_\<close> are wildcards and the letters are folded.\<close>

function (sequential) like_match :: "string \<Rightarrow> string \<Rightarrow> bool" where
  "like_match [] s = (s = [])"
| "like_match (c # p) s =
     (if c = CHR ''%''
      then like_match p s \<or> (case s of [] \<Rightarrow> False | _ # s' \<Rightarrow> like_match (c # p) s')
      else (case s of [] \<Rightarrow> False
            | d # s' \<Rightarrow> (c = CHR ''_'' \<or> lower_char c = lower_char d) \<and> like_match p s'))"
  by pat_completeness auto
termination
  by (relation "measure (\<lambda>(p, s). length p + length s)") auto

section \<open>The candidate searches\<close>

definition row_result :: "rat \<Rightarrow> node_row \<Rightarrow> search_result" where
  "row_result score r = \<lparr>sr_node = rowToNode r, sr_score = score\<rparr>"

definition searchAllByFilters :: "node_kind list \<Rightarrow> language list \<Rightarrow> nat \<Rightarrow> db \<Rightarrow> search_result list" where
  "searchAllByFilters kinds languages limit d =
     map (row_result 1) (take limit (sort_key r_name (filter (row_wanted kinds languages) (t_nodes d))))"

text \<open>\<open>.replace(/::/g, ' ')\<close>\<close>

fun replace_colons :: "string \<Rightarrow> string" where
  "replace_colons (a # b # s) =
     (if a = CHR '':'' \<and> b = CHR '':'' then CHR '' '' # replace_colons s else a # replace_colons (b # s))"
| "replace_colons s = s"

definition fts_query :: "string \<Rightarrow> string" where
  "fts_query query =
     (let cleaned = filter (\<lambda>c. c \<notin> set (CHR 0x27 # CHR 0x22 # ''*():^'')) (replace_colons query);
          terms = filter (\<lambda>t. t \<noteq> []) (split_by is_space cleaned);
          kept = filter (\<lambda>t. to_lower t \<notin> set [''and'', ''or'', ''not'', ''near'']) terms
      in join_with '' OR '' (map (\<lambda>t. CHR 0x22 # t @ [CHR 0x22, CHR ''*'']) kept))"

definition searchNodesFTS ::
  "fts_index \<Rightarrow> string \<Rightarrow> node_kind list \<Rightarrow> language list \<Rightarrow> nat \<Rightarrow> nat \<Rightarrow> db \<Rightarrow> search_result list" where
  "searchNodesFTS fts query kinds languages limit offset d =
     (let ftsQuery = fts_query query
      in if ftsQuery = '''' then []
         else (let ftsLimit = max (limit * 5) 100
               in case fts d ftsQuery of
                    None \<Rightarrow> []
                  | Some hits \<Rightarrow>
                      map (\<lambda>(r, score). row_result \<bar>score\<bar> r)
                        (take ftsLimit (drop offset
                          (sort_key snd (filter (\<lambda>(r, score). row_wanted kinds languages r) hits))))))"

definition like_score :: "string \<Rightarrow> node_row \<Rightarrow> rat" where
  "like_score query r =
     (if r_name r = query then 1
      else if like_match (query @ ''%'') (r_name r) then 9 / 10
      else if like_match (''%'' @ query @ ''%'') (r_name r) then 8 / 10
      else if like_match (''%'' @ query @ ''%'') (r_qualified_name r) then 7 / 10
      else 5 / 10)"

definition like_hit :: "string \<Rightarrow> node_row \<Rightarrow> bool" where
  "like_hit query r =
     (like_match (''%'' @ query @ ''%'') (r_name r)
      \<or> like_match (''%'' @ query @ ''%'') (r_qualified_name r)
      \<or> like_match (query @ ''%'') (r_name r))"

definition searchNodesLike ::
  "string \<Rightarrow> node_kind list \<Rightarrow> language list \<Rightarrow> nat \<Rightarrow> nat \<Rightarrow> db \<Rightarrow> search_result list" where
  "searchNodesLike query kinds languages limit offset d =
     map (\<lambda>r. row_result (like_score query r) r)
       (take limit (drop offset
         (sort_key (\<lambda>r. (- like_score query r, length (r_name r)))
           (filter (\<lambda>r. like_hit query r \<and> row_wanted kinds languages r) (t_nodes d)))))"

text \<open>
  The fuzzy sweep: the names within the distance, then the rows of each name. The loops carry the
  results and the ids seen; both stop when the limit is reached.
\<close>

definition fuzzy_candidates :: "string \<Rightarrow> nat \<Rightarrow> string list \<Rightarrow> (string \<times> nat) list" where
  "fuzzy_candidates lowered maxDist names =
     sort_key snd
       (filter (\<lambda>(name, dst). dst \<le> maxDist)
         (map (\<lambda>name. (name, boundedEditDistance (to_lower name) lowered maxDist)) names))"

fun fuzzy_rows :: "nat \<Rightarrow> nat \<Rightarrow> node_row list \<Rightarrow> search_result list \<times> string list
    \<Rightarrow> search_result list \<times> string list" where
  "fuzzy_rows limit dst [] st = st"
| "fuzzy_rows limit dst (row # rows) (results, seen) =
     (if r_id row \<in> set seen then fuzzy_rows limit dst rows (results, seen)
      else (let results' = results @ [row_result (1 / (1 + of_nat dst)) row];
                seen' = r_id row # seen
            in if limit \<le> length results' then (results', seen')
               else fuzzy_rows limit dst rows (results', seen')))"

fun fuzzy_names :: "node_kind list \<Rightarrow> language list \<Rightarrow> nat \<Rightarrow> db \<Rightarrow> (string \<times> nat) list
    \<Rightarrow> search_result list \<times> string list \<Rightarrow> search_result list \<times> string list" where
  "fuzzy_names kinds languages limit d [] st = st"
| "fuzzy_names kinds languages limit d ((name, dst) # cs) st =
     (if limit \<le> length (fst st) then st
      else fuzzy_names kinds languages limit d cs
             (fuzzy_rows limit dst
               (take 5 (filter (\<lambda>r. r_name r = name \<and> row_wanted kinds languages r) (t_nodes d))) st))"

definition searchNodesFuzzy ::
  "string \<Rightarrow> node_kind list \<Rightarrow> language list \<Rightarrow> nat \<Rightarrow> db \<Rightarrow> search_result list" where
  "searchNodesFuzzy text kinds languages limit d =
     (let lowered = to_lower text;
          maxDist = (if length lowered \<le> 4 then 1 else 2);
          candidates = fuzzy_candidates lowered maxDist (getAllNodeNames d);
          capped = take (max (limit * 2) 50) candidates
      in fst (fuzzy_names kinds languages limit d capped ([], [])))"

section \<open>searchNodes\<close>

definition merge_filters :: "'a list \<Rightarrow> 'a list \<Rightarrow> 'a list" where
  "merge_filters opts parsed = (if parsed \<noteq> [] then set_of_list (opts @ parsed) else opts)"

text \<open>The search itself, with its two fallbacks.\<close>

definition search_candidates ::
  "fts_index \<Rightarrow> string \<Rightarrow> node_kind list \<Rightarrow> language list \<Rightarrow> nat \<Rightarrow> nat \<Rightarrow> db \<Rightarrow> search_result list" where
  "search_candidates fts text kinds languages limit offset d =
     (let r1 = (if text \<noteq> '''' then searchNodesFTS fts text kinds languages limit offset d
                else searchAllByFilters kinds languages (limit * 5) d);
          r2 = (if r1 = [] \<and> 2 \<le> length text then searchNodesLike text kinds languages limit offset d else r1)
      in if r2 = [] \<and> 3 \<le> length text then searchNodesFuzzy text kinds languages limit d else r2)"

text \<open>The supplement: rows whose name is a word of the query, at the best score so far.\<close>

definition push_row :: "rat \<Rightarrow> node_row \<Rightarrow> search_result list \<times> string list \<Rightarrow> search_result list \<times> string list" where
  "push_row score row st =
     (case st of (results, ids) \<Rightarrow>
        if r_id row \<in> set ids then st else (results @ [row_result score row], r_id row # ids))"

definition exact_rows :: "node_kind list \<Rightarrow> language list \<Rightarrow> db \<Rightarrow> string \<Rightarrow> node_row list" where
  "exact_rows kinds languages d term =
     take 20 (filter (\<lambda>r. nocase_eq (r_name r) term \<and> row_wanted kinds languages r) (t_nodes d))"

definition supplement ::
  "string \<Rightarrow> node_kind list \<Rightarrow> language list \<Rightarrow> db \<Rightarrow> search_result list \<Rightarrow> search_result list" where
  "supplement query kinds languages d results =
     (if results \<noteq> [] \<and> query \<noteq> '''' then
        (let maxFtsScore = fold max (map sr_score (tl results)) (sr_score (hd results));
             terms = filter (\<lambda>t. 2 \<le> length t) (split_by is_space query);
             rows = concat (map (exact_rows kinds languages d) terms)
         in fst (fold (push_row maxFtsScore) rows (results, map (\<lambda>r. n_id (sr_node r)) results)))
      else results)"

text \<open>The scoring, the sort by descending score and the trim to the limit.\<close>

definition rescore :: "string \<Rightarrow> string list \<Rightarrow> search_result \<Rightarrow> search_result" where
  "rescore scoringQuery tokens r =
     r\<lparr>sr_score := sr_score r + of_int (kindBonus (n_kind (sr_node r)))
        + of_int (scorePathRelevance (n_filePath (sr_node r)) scoringQuery tokens)
        + of_int (nameMatchBonus (n_name (sr_node r)) scoringQuery)\<rparr>"

definition rank_and_trim ::
  "string \<Rightarrow> string \<Rightarrow> string list \<Rightarrow> nat \<Rightarrow> search_result list \<Rightarrow> search_result list" where
  "rank_and_trim query text tokens limit results =
     (if results \<noteq> [] \<and> (text \<noteq> '''' \<or> query \<noteq> '''')
      then take limit (sort_key (\<lambda>r. - sr_score r)
             (map (rescore (if text \<noteq> '''' then text else query) tokens) results))
      else results)"

definition gate :: "(search_result \<Rightarrow> string) \<Rightarrow> string list \<Rightarrow> search_result list \<Rightarrow> search_result list" where
  "gate field wanted results =
     (if wanted \<noteq> []
      then filter (\<lambda>r. list_ex (\<lambda>w. str_includes (to_lower (field r)) (to_lower w)) wanted) results
      else results)"

definition searchNodes :: "fts_index \<Rightarrow> string \<Rightarrow> search_options \<Rightarrow> query_builder \<Rightarrow> search_result list" where
  "searchNodes fts query options s =
     (let limit = default_limit 100 (so_limit options);
          offset = default_limit 0 (so_offset options);
          parsed = parseQuery query;
          kinds = merge_filters (so_kinds options) (q_kinds parsed);
          languages = merge_filters (so_languages options) (q_languages parsed);
          text = q_text parsed;
          candidates = search_candidates fts text kinds languages limit offset (qb_db s);
          supplemented = supplement query kinds languages (qb_db s) candidates;
          ranked = rank_and_trim query text (qb_projectNameTokens s) limit supplemented
      in gate (\<lambda>r. n_name (sr_node r)) (q_nameFilters parsed)
           (gate (\<lambda>r. n_filePath (sr_node r)) (q_pathFilters parsed) ranked))"

section \<open>Lookups by name\<close>

definition files_of_name :: "node_kind list \<Rightarrow> db \<Rightarrow> string \<Rightarrow> string list" where
  "files_of_name kinds d name =
     take 100 (set_of_list (map r_file_path
       (filter (\<lambda>r. nocase_eq (r_name r) name \<and> row_wanted kinds [] r) (t_nodes d))))"

definition distinctive_files :: "node_kind list \<Rightarrow> db \<Rightarrow> string list \<Rightarrow> string list" where
  "distinctive_files kinds d names =
     (let nameToFiles = fold (\<lambda>name. map_set (to_lower name) (files_of_name kinds d name)) names []
      in fold (\<lambda>(_, files) acc. if 0 < length files \<and> length files < 10 then fold set_add files acc else acc)
           nameToFiles [])"

text \<open>One round of the second pass; \<open>seen\<close> holds the ids of earlier names.\<close>

definition exact_name_round ::
  "node_kind list \<Rightarrow> language list \<Rightarrow> db \<Rightarrow> string list \<Rightarrow> nat \<Rightarrow> string
   \<Rightarrow> search_result list \<times> string list \<Rightarrow> search_result list \<times> string list" where
  "exact_name_round kinds languages d distinctive perNameLimit name st =
     (case st of (allResults, seen) \<Rightarrow>
        let rows = take (max (perNameLimit * 3) 50)
              (filter (\<lambda>r. nocase_eq (r_name r) name \<and> row_wanted kinds languages r) (t_nodes d));
            nameResults = map (\<lambda>r. row_result (1 + (if r_file_path r \<in> set distinctive then 20 else 0)) r)
              (filter (\<lambda>r. r_id r \<notin> set seen) rows);
            chosen = take perNameLimit (sort_key (\<lambda>r. - sr_score r) nameResults)
        in (allResults @ chosen, map (\<lambda>r. n_id (sr_node r)) chosen @ seen))"

definition findNodesByExactName :: "string list \<Rightarrow> search_options \<Rightarrow> db \<Rightarrow> search_result list" where
  "findNodesByExactName names options d =
     (if names = [] then []
      else (let limit = default_limit 50 (so_limit options);
                distinctive = distinctive_files (so_kinds options) d names;
                perNameLimit = max 8 ((limit + length names - 1) div length names);
                allResults = fst (fold
                  (exact_name_round (so_kinds options) (so_languages options) d distinctive perNameLimit)
                  names ([], []))
            in take limit (sort_key (\<lambda>r. - sr_score r) allResults)))"

definition findNodesByNameSubstring ::
  "string \<Rightarrow> search_options \<Rightarrow> bool \<Rightarrow> db \<Rightarrow> search_result list" where
  "findNodesByNameSubstring substring options excludePrefix d =
     map (row_result 1)
       (take (default_limit 30 (so_limit options))
         (sort_key (\<lambda>r. length (r_name r))
           (filter (\<lambda>r. like_match (''%'' @ substring @ ''%'') (r_name r)
                \<and> \<not> (excludePrefix \<and> like_match (substring @ ''%'') (r_name r))
                \<and> row_wanted (so_kinds options) (so_languages options) r) (t_nodes d))))"

section \<open>Aggregates\<close>

text \<open>\<open>GROUP BY file_path ORDER BY count DESC LIMIT 20\<close>, without the low-value files.\<close>

definition top_files :: "string list \<Rightarrow> (string \<times> nat) list" where
  "top_files paths =
     filter (\<lambda>(file, cnt). \<not> isLowValueFile file)
       (take 20 (sort_key (\<lambda>(file, cnt). - int cnt) (group_count (\<lambda>p. p) paths)))"

text \<open>The files of the edges inside a file, one for each edge.\<close>

definition internal_edge_files :: "db \<Rightarrow> string list" where
  "internal_edge_files d =
     map (\<lambda>(src, e, tgt). r_file_path src)
       (filter (\<lambda>(src, e, tgt). r_file_path src = r_file_path tgt) (edge_join d))"

definition getDominantFile :: "db \<Rightarrow> (string \<times> nat \<times> nat) option" where
  "getDominantFile d =
     (case top_files (internal_edge_files d) of
        [] \<Rightarrow> None
      | (file, cnt) # rest \<Rightarrow>
          if cnt < 20 then None
          else Some (file, cnt, (case rest of [] \<Rightarrow> 0 | (_, c) # _ \<Rightarrow> c)))"

definition getTopRouteFile :: "db \<Rightarrow> (string \<times> nat \<times> nat) option" where
  "getTopRouteFile d =
     (let filtered = top_files (map r_file_path (filter (\<lambda>r. r_kind r = NK_route) (t_nodes d)));
          totalRoutes = sum_list (map snd filtered)
      in case filtered of
           [] \<Rightarrow> None
         | (file, cnt) # _ \<Rightarrow>
             if totalRoutes < 3 \<or> cnt < 3 then None
             else if of_nat cnt / of_nat totalRoutes < (30 / 100 :: rat) then None
             else Some (file, cnt, totalRoutes))"

record route_entry =
  re_url :: string
  re_handler :: string
  re_handlerFile :: string
  re_handlerLine :: nat
  re_handlerKind :: node_kind

record routing_manifest =
  rm_entries :: "route_entry list"
  rm_topHandlerFile :: "string option"
  rm_topHandlerFileCount :: nat
  rm_totalRoutes :: nat

definition route_entries :: "nat \<Rightarrow> db \<Rightarrow> route_entry list" where
  "route_entries limit d =
     map (\<lambda>(r, e, h). \<lparr>re_url = r_name r, re_handler = r_name h, re_handlerFile = r_file_path h,
            re_handlerLine = r_start_line h, re_handlerKind = r_kind h\<rparr>)
       (take limit (sort_key (\<lambda>(r, e, h). (r_file_path r, r_start_line r))
         (filter (\<lambda>(r, e, h). r_kind r = NK_route \<and> er_kind e \<in> {EK_references, EK_calls}
              \<and> r_kind h \<in> {NK_function, NK_method, NK_class}) (edge_join d))))"

text \<open>The loop for the file with the most handlers; the first of equals wins.\<close>

fun top_count :: "(string, nat) jmap \<Rightarrow> string option \<times> nat \<Rightarrow> string option \<times> nat" where
  "top_count [] best = best"
| "top_count ((file, cnt) # counts) (topFile, best) =
     (if best < cnt then top_count counts (Some file, cnt) else top_count counts (topFile, best))"

definition getRoutingManifest :: "nat \<Rightarrow> db \<Rightarrow> routing_manifest option" where
  "getRoutingManifest limit d =
     (let filtered = filter (\<lambda>r. \<not> isLowValueFile (re_handlerFile r)) (route_entries limit d)
      in if length filtered < 3 then None
         else (let (topFile, cnt) = top_count (group_count re_handlerFile filtered) (None, 0)
               in Some \<lparr>rm_entries = filtered, rm_topHandlerFile = topFile, rm_topHandlerFileCount = cnt,
                        rm_totalRoutes = length filtered\<rparr>))"


section \<open>What a list of results promises\<close>

text \<open>
  Each result is a row of the node table that passes the filters, and no row occurs twice.
\<close>

abbreviation result_id :: "search_result \<Rightarrow> string" where
  "result_id r \<equiv> n_id (sr_node r)"

definition from_table :: "node_kind list \<Rightarrow> language list \<Rightarrow> db \<Rightarrow> search_result \<Rightarrow> bool" where
  "from_table kinds languages d res =
     list_ex (\<lambda>r. row_wanted kinds languages r \<and> sr_node res = rowToNode r) (t_nodes d)"

definition results_ok :: "node_kind list \<Rightarrow> language list \<Rightarrow> db \<Rightarrow> search_result list \<Rightarrow> bool" where
  "results_ok kinds languages d rs =
     (list_all (from_table kinds languages d) rs \<and> distinct (map result_id rs))"

text \<open>What is asked of the FTS5 join: it returns rows of the node table, each once.\<close>

definition fts_ok :: "fts_index \<Rightarrow> db \<Rightarrow> bool" where
  "fts_ok fts d = (\<forall>q hits. fts d q = Some hits \<longrightarrow>
     set (map fst hits) \<subseteq> set (t_nodes d) \<and> distinct (map (\<lambda>h. r_id (fst h)) hits))"

lemma row_result_simps [simp]:
  "sr_node (row_result s r) = rowToNode r" "sr_score (row_result s r) = s"
  "n_id (rowToNode r) = r_id r" "n_name (rowToNode r) = r_name r" "n_filePath (rowToNode r) = r_file_path r"
  by (simp_all add: row_result_def rowToNode_def)

lemma from_table_row:
  "r \<in> set (t_nodes d) \<Longrightarrow> row_wanted kinds languages r \<Longrightarrow> from_table kinds languages d (row_result s r)"
  by (auto simp: from_table_def list_ex_iff)

lemma distinct_map_sort [simp]: "distinct (map f (sort_key k xs)) = distinct (map f xs)"
  by (simp add: distinct_map)

lemma distinct_map_part:
  "distinct (map f xs) \<Longrightarrow> distinct (map f (take n xs))"
  "distinct (map f xs) \<Longrightarrow> distinct (map f (drop n xs))"
  "distinct (map f xs) \<Longrightarrow> distinct (map f (filter P xs))"
  by (simp_all add: take_map [symmetric] drop_map [symmetric] distinct_map_filter)

lemma searchAllByFilters_ok:
  assumes "distinct (map r_id (t_nodes d))"
  shows "results_ok kinds languages d (searchAllByFilters kinds languages limit d)"
  using assms unfolding results_ok_def searchAllByFilters_def
  by (auto simp: list_all_iff comp_def intro!: distinct_map_part from_table_row dest!: in_set_takeD)

lemma searchNodesLike_ok:
  assumes "distinct (map r_id (t_nodes d))"
  shows "results_ok kinds languages d (searchNodesLike q kinds languages limit offset d)"
  using assms unfolding results_ok_def searchNodesLike_def
  by (auto simp: list_all_iff comp_def intro!: distinct_map_part from_table_row
      dest!: in_set_takeD in_set_dropD)

lemma searchNodesFTS_ok:
  assumes "fts_ok fts d"
  shows "results_ok kinds languages d (searchNodesFTS fts q kinds languages limit offset d)"
proof -
  have "results_ok kinds languages d
      (map (\<lambda>(r, score). row_result \<bar>score\<bar> r) (take n (drop m (sort_key snd
        (filter (\<lambda>(r, score). row_wanted kinds languages r) hits)))))"
    if "fts d q' = Some hits" for q' hits n m
  proof -
    from assms that have h: "set (map fst hits) \<subseteq> set (t_nodes d)" "distinct (map (\<lambda>h. r_id (fst h)) hits)"
      unfolding fts_ok_def by blast+
    have "distinct (map (\<lambda>h. r_id (fst h)) (take n (drop m (sort_key snd
        (filter (\<lambda>(r, score). row_wanted kinds languages r) hits)))))"
      using h(2) by (intro distinct_map_part) (simp add: distinct_map_part)
    then show ?thesis
      using h(1) unfolding results_ok_def
      by (force simp: list_all_iff comp_def case_prod_unfold intro!: from_table_row
          dest!: in_set_takeD in_set_dropD)
  qed
  then show ?thesis
    unfolding searchNodesFTS_def Let_def by (auto simp: results_ok_def split: option.splits)
qed

text \<open>The loops that push rows keep the promise as long as \<open>seen\<close> holds the ids pushed.\<close>

definition push_inv :: "node_kind list \<Rightarrow> language list \<Rightarrow> db \<Rightarrow> search_result list \<times> string list \<Rightarrow> bool" where
  "push_inv kinds languages d st =
     (results_ok kinds languages d (fst st) \<and> set (map result_id (fst st)) \<subseteq> set (snd st))"

lemma push_inv_snoc:
  assumes "push_inv kinds languages d (results, seen)" and "r \<in> set (t_nodes d)"
    and "row_wanted kinds languages r" and "r_id r \<notin> set seen"
  shows "push_inv kinds languages d (results @ [row_result s r], r_id r # seen)"
  using assms by (auto simp: push_inv_def results_ok_def from_table_row)

lemma fuzzy_rows_inv:
  "push_inv kinds languages d st \<Longrightarrow> \<forall>r \<in> set rows. r \<in> set (t_nodes d) \<and> row_wanted kinds languages r \<Longrightarrow>
   push_inv kinds languages d (fuzzy_rows limit dst rows st)"
  by (induction limit dst rows st rule: fuzzy_rows.induct) (auto simp: Let_def push_inv_snoc)

lemma fuzzy_names_inv:
  "push_inv kinds languages d st \<Longrightarrow> push_inv kinds languages d (fuzzy_names kinds languages limit d cs st)"
proof (induction kinds languages limit d cs st rule: fuzzy_names.induct)
  case (2 kinds languages limit d name dst cs st)
  have "push_inv kinds languages d (fuzzy_rows limit dst
      (take 5 (filter (\<lambda>r. r_name r = name \<and> row_wanted kinds languages r) (t_nodes d))) st)"
    using "2.prems" by (rule fuzzy_rows_inv) (auto dest: in_set_takeD)
  then show ?case
    using "2.IH" "2.prems" by simp
qed simp

lemma searchNodesFuzzy_ok: "results_ok kinds languages d (searchNodesFuzzy text kinds languages limit d)"
proof -
  have "push_inv kinds languages d ([], [])"
    by (simp add: push_inv_def results_ok_def)
  then show ?thesis
    unfolding searchNodesFuzzy_def Let_def using fuzzy_names_inv unfolding push_inv_def by blast
qed

lemma push_rows_inv:
  "push_inv kinds languages d st \<Longrightarrow> \<forall>r \<in> set rows. r \<in> set (t_nodes d) \<and> row_wanted kinds languages r \<Longrightarrow>
   push_inv kinds languages d (fold (push_row s) rows st)"
  by (induction rows arbitrary: st) (auto simp: push_row_def push_inv_snoc split: prod.splits)

lemma supplement_ok:
  assumes "results_ok kinds languages d results"
  shows "results_ok kinds languages d (supplement query kinds languages d results)"
proof -
  have "push_inv kinds languages d (results, map result_id results)"
    using assms by (simp add: push_inv_def)
  moreover have "\<forall>r \<in> set (concat (map (exact_rows kinds languages d) terms)).
      r \<in> set (t_nodes d) \<and> row_wanted kinds languages r" for terms
    by (auto simp: exact_rows_def dest!: in_set_takeD)
  ultimately have "push_inv kinds languages d (fold (push_row s)
      (concat (map (exact_rows kinds languages d) terms)) (results, map result_id results))" for s terms
    by (rule push_rows_inv)
  then show ?thesis
    using assms unfolding supplement_def Let_def push_inv_def by (simp add: comp_def)
qed

lemma rescore_node [simp]: "sr_node (rescore q ts r) = sr_node r"
  by (simp add: rescore_def)

lemma rank_and_trim_ok:
  assumes "results_ok kinds languages d results"
  shows "results_ok kinds languages d (rank_and_trim query text tokens limit results)"
  using assms unfolding results_ok_def rank_and_trim_def
  by (auto simp: list_all_iff comp_def from_table_def intro!: distinct_map_part dest!: in_set_takeD)

lemma gate_ok: "results_ok kinds languages d rs \<Longrightarrow> results_ok kinds languages d (gate f ws rs)"
  by (auto simp: results_ok_def gate_def list_all_iff distinct_map_part)

lemma search_candidates_ok:
  assumes "fts_ok fts d" and "distinct (map r_id (t_nodes d))"
  shows "results_ok kinds languages d (search_candidates fts text kinds languages limit offset d)"
  unfolding search_candidates_def Let_def
  using searchNodesFTS_ok [OF assms(1)] searchAllByFilters_ok [OF assms(2)] searchNodesLike_ok [OF assms(2)]
    searchNodesFuzzy_ok
  by simp


section \<open>Substring search\<close>

definition plain_pattern :: "string \<Rightarrow> bool" where
  "plain_pattern q = list_all (\<lambda>c. c \<noteq> CHR ''%'' \<and> c \<noteq> CHR ''_'') q"

lemma like_match_plain_prefix:
  "plain_pattern q \<Longrightarrow> like_match (q @ ''%'') s \<longleftrightarrow> prefix (to_lower q) (to_lower s)"
proof (induction q arbitrary: s)
  case Nil
  have "like_match ''%'' s"
    by (induction s) auto
  then show ?case
    by simp
next
  case (Cons c q)
  then show ?case
    by (cases s) (auto simp: plain_pattern_def to_lower_def)
qed

lemma like_match_contains:
  assumes "plain_pattern q"
  shows "like_match (''%'' @ q @ ''%'') s \<longleftrightarrow> str_includes (to_lower s) (to_lower q)"
proof (induction s)
  case Nil
  then show ?case
    using like_match_plain_prefix [OF assms, of "[]"] by simp
next
  case (Cons c s)
  then show ?case
    using like_match_plain_prefix [OF assms, of "c # s"]
    by (simp add: sublist_Cons_right to_lower_def)
qed

lemma like_hit_plain:
  assumes "plain_pattern q"
  shows "like_hit q r \<longleftrightarrow> str_includes (to_lower (r_name r)) (to_lower q)
     \<or> str_includes (to_lower (r_qualified_name r)) (to_lower q)"
  using like_match_contains [OF assms] like_match_plain_prefix [OF assms]
  unfolding like_hit_def by (auto dest: prefix_imp_sublist)

text \<open>An underscore in the query is a wildcard of the pattern, since it is not escaped.\<close>

lemma like_underscore_wildcard: "like_match (''%'' @ ''a_b'' @ ''%'') ''aXb''"
  by code_simp

section \<open>The fuzzy sweep\<close>

lemma fuzzy_rows_appends:
  "\<exists>ys. set ys \<subseteq> set rows \<and>
     fst (fuzzy_rows limit dst rows st) = fst st @ map (row_result (1 / (1 + of_nat dst))) ys"
proof (induction limit dst rows st rule: fuzzy_rows.induct)
  case (2 limit dst row rows results seen)
  show ?case
  proof (cases "r_id row \<in> set seen")
    case True
    then show ?thesis
      using "2.IH"(1) by (auto intro: exI [of _ "_ :: node_row list"])
  next
    case False
    show ?thesis
    proof (cases "limit \<le> Suc (length results)")
      case True
      then show ?thesis
        using False by (auto intro!: exI [of _ "[row]"])
    next
      case nolimit: False
      then obtain ys where "set ys \<subseteq> set rows"
        "fst (fuzzy_rows limit dst rows (results @ [row_result (1 / (1 + of_nat dst)) row], r_id row # seen))
         = (results @ [row_result (1 / (1 + of_nat dst)) row]) @ map (row_result (1 / (1 + of_nat dst))) ys"
        using "2.IH"(2) [OF False refl refl] by auto
      then show ?thesis
        using False nolimit by (auto intro!: exI [of _ "row # ys"])
    qed
  qed
qed simp

lemma fuzzy_rows_length:
  "length (fst st) < limit \<Longrightarrow> length (fst (fuzzy_rows limit dst rows st)) \<le> limit"
  by (induction limit dst rows st rule: fuzzy_rows.induct) (auto simp: Let_def)

lemma fuzzy_names_length:
  "length (fst st) \<le> limit \<Longrightarrow> length (fst (fuzzy_names kinds languages limit d cs st)) \<le> limit"
proof (induction kinds languages limit d cs st rule: fuzzy_names.induct)
  case (2 kinds languages limit d name dst cs st)
  then show ?case
    by (auto simp: fuzzy_rows_length)
qed simp

lemma fuzzy_names_appends:
  "sorted (map snd cs) \<Longrightarrow>
   \<exists>zs. fst (fuzzy_names kinds languages limit d cs st) = fst st @ zs \<and>
     sorted_wrt (\<ge>) (map sr_score zs) \<and>
     (\<forall>z \<in> set zs. \<exists>(name, dst) \<in> set cs. n_name (sr_node z) = name \<and> sr_score z = 1 / (1 + of_nat dst))"
proof (induction kinds languages limit d cs st rule: fuzzy_names.induct)
  case (2 kinds languages limit d name dst cs st)
  show ?case
  proof (cases "limit \<le> length (fst st)")
    case False
    let ?rows = "take 5 (filter (\<lambda>r. r_name r = name \<and> row_wanted kinds languages r) (t_nodes d))"
    let ?c = "1 / (1 + of_nat dst) :: rat"
    obtain ys where ys: "set ys \<subseteq> set ?rows"
      "fst (fuzzy_rows limit dst ?rows st) = fst st @ map (row_result ?c) ys"
      using fuzzy_rows_appends by blast
    obtain zs where zs: "fst (fuzzy_names kinds languages limit d cs (fuzzy_rows limit dst ?rows st))
        = fst (fuzzy_rows limit dst ?rows st) @ zs" "sorted_wrt (\<ge>) (map sr_score zs)"
      "\<forall>z \<in> set zs. \<exists>(name, dst) \<in> set cs. n_name (sr_node z) = name \<and> sr_score z = 1 / (1 + of_nat dst)"
      using "2.IH" [OF False] "2.prems" by auto
    have names: "r_name y = name" if "y \<in> set ys" for y
      using that ys(1) by (auto dest!: set_mp in_set_takeD)
    have below: "sr_score z \<le> ?c" if z: "z \<in> set zs" for z
    proof -
      from zs(3) z obtain p where p: "p \<in> set cs" "sr_score z = 1 / (1 + of_nat (snd p))"
        by auto
      then have "dst \<le> snd p"
        using "2.prems" by simp
      then show ?thesis
        unfolding p(2) by (intro frac_le) auto
    qed
    have "sorted_wrt (\<ge>) (map sr_score (map (row_result ?c) ys @ zs))"
      using zs(2) below by (auto simp: sorted_wrt_append sorted_wrt_map comp_def)
    then show ?thesis
      using False ys(2) zs names by (intro exI [of _ "map (row_result ?c) ys @ zs"]) auto
  qed simp
qed auto


section \<open>The dominant file\<close>

lemma filter_sorted_hd:
  assumes "filter P (take n (sort_key f xs)) = x # rest" and "y \<in> set xs" and "P y"
  shows "f x \<le> f y"
proof -
  let ?s = "sort_key f xs"
  have sorted: "sorted (map f (take n ?s @ drop n ?s))"
    by simp
  have y: "y \<in> set (take n ?s) \<or> y \<in> set (drop n ?s)"
    using assms(2) by (metis Un_iff append_take_drop_id set_append set_sort)
  have x: "x \<in> set (take n ?s)"
    using assms(1) by (metis filter_is_subset list.set_intros(1) subsetD)
  have s: "sorted (map f (filter P (take n ?s)))"
    using sorted unfolding map_append sorted_append by (intro sorted_filter) blast
  show ?thesis
  proof (cases "y \<in> set (take n ?s)")
    case True
    then have "y \<in> set (x # rest)"
      using assms(1,3) unfolding assms(1) [symmetric] by simp
    then show ?thesis
      using s unfolding assms(1) by auto
  next
    case False
    then show ?thesis
      using y x sorted unfolding map_append sorted_append by auto
  qed
qed

lemma map_get_mem: "distinct (map_keys m) \<Longrightarrow> (k, v) \<in> set m \<longleftrightarrow> map_get m k = Some v"
  by (simp add: map_of_eq_Some_iff)

lemma distinct_group_count: "distinct (map_keys (group_count key rows))"
proof -
  have "distinct (map_keys (fold (\<lambda>r. bump (key r)) rows m))" if "distinct (map_keys m)" for m
    using that by (induction rows arbitrary: m) (simp_all add: bump_def distinct_keys_set)
  then show ?thesis
    by (simp add: group_count_def)
qed

lemma group_count_mem:
  "(k, c) \<in> set (group_count (\<lambda>p. p) ps) \<longleftrightarrow> k \<in> set ps \<and> c = count_list ps k"
  using map_get_mem [OF distinct_group_count [of "\<lambda>p. p" ps], of k c]
  by (auto simp: group_count_correct count_list_eq_length_filter eq_commute [of _ k])

lemma top_files_hd:
  assumes "top_files ps = (f, c) # rest"
  shows "\<not> isLowValueFile f \<and> f \<in> set ps \<and> c = count_list ps f
    \<and> (\<forall>g \<in> set ps. \<not> isLowValueFile g \<longrightarrow> count_list ps g \<le> c)"
proof -
  let ?xs = "group_count (\<lambda>p. p) ps" and ?f = "\<lambda>(file :: string, cnt). - int cnt"
    and ?P = "\<lambda>(file, cnt :: nat). \<not> isLowValueFile file"
  have hd: "filter ?P (take 20 (sort_key ?f ?xs)) = (f, c) # rest"
    using assms by (simp add: top_files_def)
  have "(f, c) \<in> set (filter ?P (take 20 (sort_key ?f ?xs)))"
    unfolding hd by simp
  then have fc: "\<not> isLowValueFile f" "(f, c) \<in> set ?xs"
    by (auto dest: in_set_takeD)
  have "count_list ps g \<le> c" if "g \<in> set ps" "\<not> isLowValueFile g" for g
    using filter_sorted_hd [OF hd, of "(g, count_list ps g)"] that by (simp add: group_count_mem)
  then show ?thesis
    using fc by (auto simp: group_count_mem)
qed

definition passes :: "string \<Rightarrow> string list \<Rightarrow> bool" where
  "passes value wanted = (wanted = [] \<or> list_ex (\<lambda>w. str_includes (to_lower value) (to_lower w)) wanted)"

lemma gate_passes: "r \<in> set (gate f ws rs) \<longleftrightarrow> r \<in> set rs \<and> passes (f r) ws"
  by (auto simp: gate_def passes_def)

section \<open>Properties\<close>

lemma searchNodes_results:
  assumes "fts_ok fts (qb_db s)" and "distinct (map r_id (t_nodes (qb_db s)))"
  shows "results_ok (merge_filters (so_kinds options) (q_kinds (parseQuery query)))
      (merge_filters (so_languages options) (q_languages (parseQuery query))) (qb_db s)
      (searchNodes fts query options s)"
  unfolding searchNodes_def Let_def
  by (intro gate_ok rank_and_trim_ok supplement_ok search_candidates_ok assms)

text \<open>
  C38: Every result of \<open>searchNodes\<close>, by whichever of the four searches it came in, is a stored node that
  passes the path and name filters and whose kind is one of the kinds that the query or the options name (when
  the query names one; else of those of the options, if any), and its language likewise; no node is returned
  twice; and there are at most \<open>limit\<close> results for a query that is not empty. The filters of the query and of the
  options are united, not intersected as the comment of the code has it.
\<close>

theorem searchNodes_sound:
  assumes "fts_ok fts (qb_db s)" and "distinct (map r_id (t_nodes (qb_db s)))"
  shows "results_ok (merge_filters (so_kinds options) (q_kinds (parseQuery query)))
      (merge_filters (so_languages options) (q_languages (parseQuery query))) (qb_db s)
      (searchNodes fts query options s)
    \<and> list_all (\<lambda>r. passes (n_filePath (sr_node r)) (q_pathFilters (parseQuery query))
         \<and> passes (n_name (sr_node r)) (q_nameFilters (parseQuery query))) (searchNodes fts query options s)
    \<and> (query = '''' \<or> length (searchNodes fts query options s) \<le> default_limit 100 (so_limit options))"
proof (intro conjI)
  let ?p = "parseQuery query"
  show "results_ok (merge_filters (so_kinds options) (q_kinds ?p))
      (merge_filters (so_languages options) (q_languages ?p)) (qb_db s) (searchNodes fts query options s)"
    by (rule searchNodes_results [OF assms])
  show "list_all (\<lambda>r. passes (n_filePath (sr_node r)) (q_pathFilters ?p)
      \<and> passes (n_name (sr_node r)) (q_nameFilters ?p)) (searchNodes fts query options s)"
    unfolding searchNodes_def Let_def by (auto simp: list_all_iff gate_passes)
  have gate_le: "length (gate f ws rs) \<le> length rs" for f ws rs
    by (simp add: gate_def)
  have "length (rank_and_trim query tx ts l rs) \<le> l" if "query \<noteq> ''''" for tx ts l rs
    using that by (auto simp: rank_and_trim_def)
  then show "query = '''' \<or> length (searchNodes fts query options s) \<le> default_limit 100 (so_limit options)"
    unfolding searchNodes_def Let_def by (meson gate_le le_trans)
qed

definition no_fts :: fts_index where
  "no_fts d q = Some []"

definition example_row :: "node_kind \<Rightarrow> string \<Rightarrow> string \<Rightarrow> string \<Rightarrow> node_row" where
  "example_row kind i nm p = nodeParams
     \<lparr>n_id = i, n_kind = kind, n_name = nm, n_qualifiedName = nm, n_filePath = p, n_language = L_go,
      n_startLine = 1, n_endLine = 2, n_startColumn = 0, n_endColumn = 0, n_docstring = None,
      n_signature = None, n_visibility = None, n_isExported = None, n_isAsync = None, n_isStatic = None,
      n_isAbstract = None, n_decorators = None, n_typeParameters = None, n_returnType = None,
      n_updatedAt = 0\<rparr>"

definition two_functions :: db where
  "two_functions = empty_db\<lparr>t_nodes := [example_row NK_function ''1'' ''alpha'' ''a/x.go'', example_row NK_function ''2'' ''beta'' ''b/x.go'']\<rparr>"

definition functions_and_class :: db where
  "functions_and_class = two_functions\<lparr>t_nodes := t_nodes two_functions @ [example_row NK_class ''3'' ''beta'' ''b/y.go'']\<rparr>"

text \<open>A full-text search in which every row matches, with one score.\<close>

definition every_row :: fts_index where
  "every_row d q = Some (map (\<lambda>r. (r, 1)) (t_nodes d))"

definition no_options :: search_options where
  "no_options = \<lparr>so_kinds = [], so_languages = [], so_limit = Some 2, so_offset = None\<rparr>"

lemma one_of_three:
  "map result_id (searchNodes every_row ''kind:function path:b/ bet'' no_options (new_query_builder functions_and_class)) = [''2'']"
  "parseQuery ''kind:function path:b/ bet'' = \<lparr>q_text = ''bet'', q_kinds = [NK_function], q_languages = [], q_pathFilters = [''b/''], q_nameFilters = []\<rparr>"
  by code_simp+

theorem searchNodes_sound_witness:
  "results_ok [NK_function] [] functions_and_class
      (searchNodes every_row ''kind:function path:b/ bet'' no_options (new_query_builder functions_and_class))
    \<and> map result_id (searchNodes every_row ''kind:function path:b/ bet'' no_options (new_query_builder functions_and_class)) = [''2'']"
proof -
  have "distinct (map r_id (t_nodes functions_and_class))"
    by code_simp
  then have "fts_ok every_row (qb_db (new_query_builder functions_and_class))"
    "distinct (map r_id (t_nodes (qb_db (new_query_builder functions_and_class))))"
    by (simp_all add: fts_ok_def every_row_def new_query_builder_def comp_def image_image)
  from searchNodes_sound [OF this, of no_options "''kind:function path:b/ bet''"]
  have "results_ok (merge_filters [] [NK_function]) (merge_filters [] []) functions_and_class
      (searchNodes every_row ''kind:function path:b/ bet'' no_options (new_query_builder functions_and_class))"
    by (simp add: one_of_three(2) no_options_def new_query_builder_def)
  then show ?thesis
    by (simp add: one_of_three(1) merge_filters_def set_of_list_def set_add_def)
qed

text \<open>The kinds of the options do not narrow those of the query: both are accepted.\<close>

lemma filters_united:
  "parsed \<noteq> [] \<Longrightarrow> set (merge_filters opts parsed) = set opts \<union> set parsed"
  by (simp add: merge_filters_def)

lemma option_kinds_widened:
  "map result_id (searchNodes no_fts ''kind:function'' (no_options\<lparr>so_kinds := [NK_class], so_limit := Some 3\<rparr>)
     (new_query_builder functions_and_class)) = [''1'', ''2'', ''3'']"
  by code_simp

text \<open>
  For a query without the pattern characters, the substring search returns exactly the wanted
  nodes whose name or qualified name contains the query, letter case ignored.
\<close>

theorem searchNodesLike_exact:
  assumes "plain_pattern q"
  shows "sr_node ` set (searchNodesLike q kinds languages (length (t_nodes d)) 0 d) =
    rowToNode ` {r \<in> set (t_nodes d). row_wanted kinds languages r \<and>
      (str_includes (to_lower (r_name r)) (to_lower q)
       \<or> str_includes (to_lower (r_qualified_name r)) (to_lower q))}"
proof -
  let ?hits = "filter (\<lambda>r. like_hit q r \<and> row_wanted kinds languages r) (t_nodes d)"
  have "set (take (length (t_nodes d)) (drop 0 (sort_key f ?hits))) = set ?hits"
    for f :: "node_row \<Rightarrow> rat \<times> nat"
    by simp
  then have "sr_node ` set (searchNodesLike q kinds languages (length (t_nodes d)) 0 d) = rowToNode ` set ?hits"
    unfolding searchNodesLike_def set_map image_image row_result_simps by simp
  then show ?thesis
    by (simp add: like_hit_plain [OF assms] conj_commute)
qed

theorem searchNodesLike_exact_witness:
  "sr_node ` set (searchNodesLike ''user'' [] [] 0 0 empty_db) = {}"
  using searchNodesLike_exact [of "''user''" "[]" "[]" empty_db]
  by (simp add: plain_pattern_def empty_db_def)

text \<open>
  The fuzzy search returns stored nodes whose lower-cased name is within one edit of the query (two
  when it is longer than four characters), each scored by its true edit distance, closest first, and
  never more than \<open>limit\<close> of them.
\<close>

theorem searchNodesFuzzy_closest_first:
  "list_all (\<lambda>r. edit_distance (to_lower (n_name (sr_node r))) (to_lower text) \<le> (if length text \<le> 4 then 1 else 2)
       \<and> sr_score r = 1 / (1 + of_nat (edit_distance (to_lower (n_name (sr_node r))) (to_lower text))))
     (searchNodesFuzzy text kinds languages limit d)
   \<and> sorted_wrt (\<ge>) (map sr_score (searchNodesFuzzy text kinds languages limit d))
   \<and> length (searchNodesFuzzy text kinds languages limit d) \<le> limit"
proof -
  let ?max = "if length (to_lower text) \<le> 4 then 1 else 2 :: nat"
  define cs where "cs = take (max (limit * 2) 50) (fuzzy_candidates (to_lower text) ?max (getAllNodeNames d))"
  have eq: "searchNodesFuzzy text kinds languages limit d = fst (fuzzy_names kinds languages limit d cs ([], []))"
    unfolding searchNodesFuzzy_def Let_def cs_def by (rule refl)
  have "sorted (map snd (fuzzy_candidates (to_lower text) ?max (getAllNodeNames d)))"
    unfolding fuzzy_candidates_def by (rule sorted_sort_key)
  then have "sorted (map snd cs)"
    unfolding cs_def take_map [symmetric] by (rule sorted_wrt_take)
  from fuzzy_names_appends [OF this, of kinds languages limit d "([], [])"]
  obtain zs where zs: "fst (fuzzy_names kinds languages limit d cs ([], [])) = zs"
    "sorted_wrt (\<ge>) (map sr_score zs)"
    "\<forall>z \<in> set zs. \<exists>(name, dst) \<in> set cs. n_name (sr_node z) = name \<and> sr_score z = 1 / (1 + of_nat dst)"
    by auto
  have cand: "dst = edit_distance (to_lower name) (to_lower text) \<and> dst \<le> ?max" if "(name, dst) \<in> set cs" for name dst
    using that boundedEditDistance_correct [of "to_lower name" "to_lower text" ?max]
    unfolding cs_def fuzzy_candidates_def by (auto dest!: in_set_takeD split: if_splits)
  have "edit_distance (to_lower (n_name (sr_node z))) (to_lower text) \<le> ?max
      \<and> sr_score z = 1 / (1 + of_nat (edit_distance (to_lower (n_name (sr_node z))) (to_lower text)))"
    if "z \<in> set zs" for z
    using zs(3) that cand by fastforce
  moreover have "length zs \<le> limit"
    using fuzzy_names_length [of "([], [])" limit kinds languages d cs] zs(1) by simp
  ultimately show ?thesis
    unfolding eq zs(1) list_all_iff using zs(2) by simp
qed

text \<open>
  The dominant file, when there is one, is neither a test nor a generated file, its count is the
  number of edges between its own nodes and at least 20, and no other such file has more.
\<close>

theorem getDominantFile_dominant:
  "case getDominantFile d of
     None \<Rightarrow> True
   | Some (f, c, nextCount) \<Rightarrow>
       \<not> isLowValueFile f \<and> 20 \<le> c \<and> c = count_list (internal_edge_files d) f
       \<and> list_all (\<lambda>g. isLowValueFile g \<or> count_list (internal_edge_files d) g \<le> c) (internal_edge_files d)"
  using top_files_hd [of "internal_edge_files d"]
  by (auto simp: getDominantFile_def list_all_iff split: list.split)


section \<open>Two observations on the limits\<close>

text \<open>
  The results are cut to the limit before the path and name filters are applied, so the larger fetch
  of a query that has only filters is lost again; and the empty query is not cut at all.
\<close>

lemma trimmed_match_lost:
  "searchNodes no_fts ''path:b/'' \<lparr>so_kinds = [], so_languages = [], so_limit = Some 1, so_offset = None\<rparr>
     (new_query_builder two_functions) = []"
  by code_simp

lemma untrimmed_match_found:
  "map result_id (searchNodes no_fts ''path:b/'' \<lparr>so_kinds = [], so_languages = [], so_limit = Some 2, so_offset = None\<rparr>
     (new_query_builder two_functions)) = [''2'']"
  by code_simp

lemma empty_query_unlimited:
  "length (searchNodes no_fts '''' \<lparr>so_kinds = [], so_languages = [], so_limit = Some 1, so_offset = None\<rparr>
     (new_query_builder two_functions)) = 2"
  by code_simp

end
