(* ===== verification/Paths.thy ===== *)
theory Paths
  imports QueryUtils
begin

text \<open>
  The functions of Node's \<open>path\<close> module that the resolver uses, in their POSIX form, on slash-separated
  strings. A path is taken apart into its segments, and \<open>norm_segs\<close> is the removal of \<open>.\<close> and
  \<open>..\<close>. The sources resolve only against an absolute first argument (the project root is one), so
  the working directory does not occur.
\<close>

abbreviation segments :: "string \<Rightarrow> string list" where
  "segments p \<equiv> split_by (\<lambda>c. c = CHR ''/'') p"

definition push_seg :: "bool \<Rightarrow> string \<Rightarrow> string list \<Rightarrow> string list" where
  "push_seg up seg acc =
     (if seg = '''' \<or> seg = ''.'' then acc
      else if seg = ''..'' then
        (if acc \<noteq> [] \<and> last acc \<noteq> ''..'' then butlast acc else if up then acc @ [''..''] else acc)
      else acc @ [seg])"

definition norm_segs :: "bool \<Rightarrow> string list \<Rightarrow> string list" where
  "norm_segs up segs = fold (push_seg up) segs []"

abbreviation is_absolute :: "string \<Rightarrow> bool" where
  "is_absolute p \<equiv> starts_with p ''/''"

definition path_normalize :: "string \<Rightarrow> string" where
  "path_normalize p =
     (if p = '''' then ''.''
      else (let body = join_with ''/'' (norm_segs (\<not> is_absolute p) (segments p));
                trailing = ends_with p ''/''
            in if body = '''' then (if is_absolute p then ''/'' else if trailing then ''./'' else ''.'')
               else (if is_absolute p then ''/'' else '''') @ body @ (if trailing then ''/'' else '''')))"

definition path_join :: "string list \<Rightarrow> string" where
  "path_join parts = path_normalize (join_with ''/'' (filter (\<lambda>p. p \<noteq> '''') parts))"

definition abs_path :: "string list \<Rightarrow> string" where
  "abs_path segs = ''/'' @ join_with ''/'' segs"

definition abs_segs :: "string \<Rightarrow> string list" where
  "abs_segs p = norm_segs False (segments p)"

definition path_resolve :: "string \<Rightarrow> string \<Rightarrow> string" where
  "path_resolve base p =
     abs_path (if is_absolute p then abs_segs p else norm_segs False (segments base @ segments p))"

fun common_segs :: "string list \<Rightarrow> string list \<Rightarrow> nat" where
  "common_segs (a # as) (b # bs) = (if a = b then Suc (common_segs as bs) else 0)"
| "common_segs _ _ = 0"

definition relative_segs :: "string list \<Rightarrow> string list \<Rightarrow> string list" where
  "relative_segs f t =
     (let k = common_segs f t in replicate (length f - k) ''..'' @ drop k t)"

definition path_relative :: "string \<Rightarrow> string \<Rightarrow> string" where
  "path_relative origin target = join_with ''/'' (relative_segs (abs_segs origin) (abs_segs target))"

section \<open>Normal segments\<close>

definition plain_seg :: "string \<Rightarrow> bool" where
  "plain_seg s \<longleftrightarrow> s \<noteq> '''' \<and> s \<noteq> ''.'' \<and> s \<noteq> ''..'' \<and> CHR ''/'' \<notin> set s"

lemma segments_no_slash: "s \<in> set (segments p) \<Longrightarrow> CHR ''/'' \<notin> set s"
  using split_by_no_sep by fastforce

lemma push_seg_plain:
  "list_all plain_seg acc \<Longrightarrow> CHR ''/'' \<notin> set s \<Longrightarrow> list_all plain_seg (push_seg False s acc)"
  by (cases acc rule: rev_cases) (auto simp: push_seg_def plain_seg_def)

lemma fold_push_plain:
  "list_all plain_seg acc \<Longrightarrow> list_all (\<lambda>s. CHR ''/'' \<notin> set s) segs \<Longrightarrow> list_all plain_seg (fold (push_seg False) segs acc)"
  by (induction segs arbitrary: acc) (auto simp: push_seg_plain)

lemma norm_segs_plain: "list_all (\<lambda>s. CHR ''/'' \<notin> set s) segs \<Longrightarrow> list_all plain_seg (norm_segs False segs)"
  unfolding norm_segs_def by (rule fold_push_plain) simp_all

lemma segments_no_slash_all: "list_all (\<lambda>s. CHR ''/'' \<notin> set s) (segments p)"
  by (auto simp: list_all_iff dest: segments_no_slash)

lemma abs_segs_plain: "list_all plain_seg (abs_segs p)"
  unfolding abs_segs_def by (intro norm_segs_plain segments_no_slash_all)

lemma fold_push_plain_id: "list_all plain_seg segs \<Longrightarrow> fold (push_seg a) segs acc = acc @ segs"
  by (induction segs arbitrary: acc) (auto simp: push_seg_def plain_seg_def)

lemma norm_segs_append: "norm_segs a (xs @ ys) = fold (push_seg a) ys (norm_segs a xs)"
  by (simp add: norm_segs_def)

lemma push_empty [simp]: "push_seg a [] acc = acc"
  by (simp add: push_seg_def)

section \<open>Splitting what was joined\<close>

lemma split_by_word: "CHR ''/'' \<notin> set w \<Longrightarrow> segments w = [w]"
  by (induction w) auto

lemma split_by_append: "CHR ''/'' \<notin> set w \<Longrightarrow> segments (w @ CHR ''/'' # r) = w # segments r"
  by (induction w) auto

lemma segments_join:
  "list_all (\<lambda>s. CHR ''/'' \<notin> set s) segs \<Longrightarrow> segs \<noteq> [] \<Longrightarrow> segments (join_with ''/'' segs) = segs"
  by (induction "''/'' :: string" segs rule: join_with.induct) (auto simp: split_by_word split_by_append)

lemma fold_segments_join:
  assumes "list_all (\<lambda>s. CHR ''/'' \<notin> set s) segs"
  shows "fold (push_seg a) (segments (join_with ''/'' segs)) acc = fold (push_seg a) segs acc"
  using segments_join [OF assms] by (cases segs) auto

lemma abs_segs_path:
  assumes "list_all plain_seg segs"
  shows "abs_segs (abs_path segs) = segs"
proof -
  have ns: "list_all (\<lambda>s. CHR ''/'' \<notin> set s) segs"
    using assms by (auto simp: list_all_iff plain_seg_def)
  have "abs_segs (abs_path segs) = fold (push_seg False) (segments (join_with ''/'' segs)) []"
    by (simp add: abs_segs_def abs_path_def norm_segs_def)
  also have "\<dots> = segs"
    using fold_segments_join [OF ns] fold_push_plain_id [OF assms, of False "[]"] by simp
  finally show ?thesis .
qed

section \<open>A relative path leads back\<close>

lemma common_segs_take: "take (common_segs f t) f = take (common_segs f t) t"
  by (induction f t rule: common_segs.induct) auto

lemma common_segs_le: "common_segs f t \<le> length f" "common_segs f t \<le> length t"
  by (induction f t rule: common_segs.induct) auto

lemma fold_up:
  "list_all plain_seg acc \<Longrightarrow> n \<le> length acc \<Longrightarrow>
     fold (push_seg False) (replicate n ''..'') acc = take (length acc - n) acc"
proof (induction n arbitrary: acc)
  case (Suc n)
  then obtain xs x where acc: "acc = xs @ [x]"
    by (cases acc rule: rev_cases) auto
  have "push_seg False ''..'' acc = xs"
    using Suc.prems acc by (simp add: push_seg_def plain_seg_def)
  then show ?case
    using Suc.IH [of xs] Suc.prems acc by simp
qed simp

lemma list_all_drop: "list_all P xs \<Longrightarrow> list_all P (drop n xs)"
  by (metis append_take_drop_id list_all_append)

lemma list_all_replicate: "P x \<Longrightarrow> list_all P (replicate n x)"
  by (induction n) auto

lemma plain_no_slash: "list_all plain_seg xs \<Longrightarrow> list_all (\<lambda>s. CHR ''/'' \<notin> set s) xs"
  by (erule list.pred_mono_strong) (simp add: plain_seg_def)

lemma resolve_relative_segs:
  assumes "list_all plain_seg f" and "list_all plain_seg t"
  shows "fold (push_seg False) (relative_segs f t) f = t"
proof -
  define k where "k = common_segs f t"
  have "fold (push_seg False) (replicate (length f - k) ''..'') f = take k f"
    using fold_up [OF assms(1), of "length f - k"] common_segs_le(1) [of f t] by (simp add: k_def)
  moreover have "fold (push_seg False) (drop k t) (take k f) = take k f @ drop k t"
    by (rule fold_push_plain_id) (rule list_all_drop [OF assms(2)])
  moreover have "take k f @ drop k t = t"
    using common_segs_take [of f t] append_take_drop_id [of k t] by (simp only: k_def)
  ultimately show ?thesis
    by (simp add: relative_segs_def Let_def k_def)
qed

lemma relative_segs_no_slash:
  assumes "list_all plain_seg t"
  shows "list_all (\<lambda>s. CHR ''/'' \<notin> set s) (relative_segs f t)"
proof -
  have "list_all (\<lambda>s. CHR ''/'' \<notin> set s) (replicate n ''..'')" for n
    by (rule list_all_replicate) simp
  then show ?thesis
    using list_all_drop [OF plain_no_slash [OF assms]] unfolding relative_segs_def Let_def list_all_append
    by blast
qed

lemma relative_segs_nonempty:
  assumes "list_all plain_seg t"
  shows "list_all (\<lambda>s. s \<noteq> []) (relative_segs f t)"
proof -
  have "list_all (\<lambda>s. s \<noteq> []) (replicate n ''..'')" for n
    by (rule list_all_replicate) simp
  moreover have "list_all (\<lambda>s. s \<noteq> []) t"
    using assms by (rule list.pred_mono_strong) (simp add: plain_seg_def)
  ultimately show ?thesis
    unfolding relative_segs_def Let_def list_all_append
    by (intro conjI list_all_drop)
qed

lemma join_not_absolute:
  assumes "list_all (\<lambda>s. CHR ''/'' \<notin> set s) segs" and "list_all (\<lambda>s. s \<noteq> []) segs"
  shows "\<not> is_absolute (join_with ''/'' segs)"
proof (cases segs)
  case (Cons w ws)
  then obtain c cs where w: "w = c # cs" "c \<noteq> CHR ''/''"
    using assms by (cases w) auto
  then show ?thesis
    using Cons by (cases ws) auto
qed simp

text \<open>Resolving the relative path against its origin gives the (normal form of the) target.\<close>

lemma resolve_relative: "path_resolve origin (path_relative origin target) = abs_path (abs_segs target)"
proof -
  define r where "r = relative_segs (abs_segs origin) (abs_segs target)"
  have ns: "list_all (\<lambda>s. CHR ''/'' \<notin> set s) r"
    unfolding r_def by (intro relative_segs_no_slash abs_segs_plain)
  have ne: "list_all (\<lambda>s. s \<noteq> []) r"
    unfolding r_def by (intro relative_segs_nonempty abs_segs_plain)
  have "path_resolve origin (path_relative origin target) =
      abs_path (fold (push_seg False) (segments (join_with ''/'' r)) (abs_segs origin))"
    using join_not_absolute [OF ns ne] unfolding path_resolve_def path_relative_def r_def [symmetric]
    by (simp only: if_False norm_segs_append abs_segs_def)
  also have "fold (push_seg False) (segments (join_with ''/'' r)) (abs_segs origin) = abs_segs target"
    unfolding fold_segments_join [OF ns] unfolding r_def
    by (rule resolve_relative_segs [OF abs_segs_plain abs_segs_plain])
  finally show ?thesis .
qed

lemma abs_segs_resolve:
  "abs_segs (path_resolve base p) = (if is_absolute p then abs_segs p else norm_segs False (segments base @ segments p))"
  unfolding path_resolve_def
  by (rule abs_segs_path) (simp add: abs_segs_plain norm_segs_plain segments_no_slash_all)

end
