(* ===== verification/Captures.thy ===== *)
theory Captures
  imports Regex
begin

text \<open>
  Regular expressions with numbered capture groups, under the same backtracking semantics as
  \<open>Regex\<close>: \<open>cap_ends p s i\<close> lists the ends of the matches of \<open>p\<close> from \<open>i\<close> in the order in which
  they are tried, each with the groups set on the way. Groups stand outside repetitions in all the
  expressions of the sources, so no group is ever reset.
\<close>

datatype pat =
    Re re
  | PSeq pat pat
  | PAlt pat pat
  | Grp nat pat

type_synonym groups = "(nat \<times> nat \<times> nat) list"

fun cap_ends :: "pat \<Rightarrow> string \<Rightarrow> nat \<Rightarrow> (nat \<times> groups) list" where
  "cap_ends (Re r) s i = map (\<lambda>j. (j, [])) (re_ends r s i)"
| "cap_ends (PSeq p q) s i =
     concat (map (\<lambda>(j, g). map (\<lambda>(k, h). (k, g @ h)) (cap_ends q s j)) (cap_ends p s i))"
| "cap_ends (PAlt p q) s i = cap_ends p s i @ cap_ends q s i"
| "cap_ends (Grp n p) s i = map (\<lambda>(j, g). (j, (n, i, j) # g)) (cap_ends p s i)"

text \<open>The text of a group: none when the group took no part in the match.\<close>

definition group_of :: "groups \<Rightarrow> string \<Rightarrow> nat \<Rightarrow> string option" where
  "group_of g s n = map_option (\<lambda>(i, j). slice i j s) (map_of g n)"

text \<open>\<open>p.exec(s)\<close> from \<open>lastIndex\<close>.\<close>

definition cap_exec :: "pat \<Rightarrow> string \<Rightarrow> nat \<Rightarrow> (nat \<times> nat \<times> groups) option" where
  "cap_exec p s from =
     first_some (\<lambda>i. case cap_ends p s i of [] \<Rightarrow> None | (j, g) # _ \<Rightarrow> Some (i, j, g))
       [from..<Suc (length s)]"

text \<open>\<open>s.match(p)\<close> for an expression without the global flag: its groups.\<close>

definition cap_match :: "pat \<Rightarrow> string \<Rightarrow> (nat \<Rightarrow> string option) option" where
  "cap_match p s = map_option (\<lambda>(i, j, g). group_of g s) (cap_exec p s 0)"

text \<open>
  \<open>while ((match = p.exec(s)) !== null)\<close> with the global flag: the groups of the matches in order. No
  expression used this way matches the empty text; where one would, the model moves on by one.
\<close>

function cap_all :: "pat \<Rightarrow> string \<Rightarrow> nat \<Rightarrow> (nat \<Rightarrow> string option) list" where
  "cap_all p s from =
     (case cap_exec p s from of
        None \<Rightarrow> []
      | Some (i, j, g) \<Rightarrow>
          group_of g s # (if from \<le> length s then cap_all p s (if from < j then j else Suc from) else []))"
  by pat_completeness auto
termination
  by (relation "measure (\<lambda>(p, s, from). Suc (length s) - from)") auto

declare cap_all.simps [simp del]

abbreviation popt :: "pat \<Rightarrow> pat" where
  "popt p \<equiv> PAlt p (Re Eps)"

fun pseq :: "pat list \<Rightarrow> pat" where
  "pseq [] = Re Eps"
| "pseq (p # ps) = PSeq p (pseq ps)"

abbreviation spaces :: re where
  "spaces \<equiv> Star (Cls is_space)"

abbreviation spaces1 :: re where
  "spaces1 \<equiv> re_plus (Cls is_space)"

abbreviation word :: re where
  "word \<equiv> re_plus (Cls is_word)"

section \<open>Forgetting the groups\<close>

primrec forget :: "pat \<Rightarrow> re" where
  "forget (Re r) = r"
| "forget (PSeq p q) = Seq (forget p) (forget q)"
| "forget (PAlt p q) = Alt (forget p) (forget q)"
| "forget (Grp n p) = forget p"

text \<open>Groups do not change what is matched, nor the order in which it is tried.\<close>

lemma cap_ends_forget: "map fst (cap_ends p s i) = re_ends (forget p) s i"
proof (induction p s i rule: cap_ends.induct)
  case (2 p q s i)
  have "map fst (concat (map (\<lambda>(j, g). map (\<lambda>(k, h). (k, g @ h)) (cap_ends q s j)) (cap_ends p s i)))
      = concat (map (\<lambda>j. map fst (cap_ends q s j)) (map fst (cap_ends p s i)))"
    by (simp add: map_concat comp_def case_prod_beta)
  also have "\<dots> = concat (map (re_ends (forget q) s) (re_ends (forget p) s i))"
    unfolding "2.IH"(1)
    using "2.IH"(2) by (intro arg_cong [of _ _ concat] map_cong) (auto simp: "2.IH"(1) [symmetric] prod.split_sel_asm)
  finally show ?case
    by simp
qed (simp_all add: comp_def case_prod_beta)

text \<open>Every group lies inside the text and inside the match.\<close>

lemma re_ends_bounds: "j \<in> set (re_ends r s i) \<Longrightarrow> i \<le> length s \<Longrightarrow> i \<le> j \<and> j \<le> length s"
  using re_ends_sound re_lang_bounds by blast

lemma cap_ends_groups:
  "(j, g) \<in> set (cap_ends p s i) \<Longrightarrow> i \<le> length s \<Longrightarrow>
     i \<le> j \<and> j \<le> length s \<and> (\<forall>(n, a, b) \<in> set g. i \<le> a \<and> a \<le> b \<and> b \<le> j)"
proof (induction p s i arbitrary: j g rule: cap_ends.induct)
  case (1 r s i)
  then show ?case
    by (auto dest: re_ends_bounds)
next
  case (2 p q s i)
  then obtain k h h' where 1: "(k, h) \<in> set (cap_ends p s i)" "(j, h') \<in> set (cap_ends q s k)" "g = h @ h'"
    by auto
  show ?case
    using "2.IH"(1) [OF 1(1) "2.prems"(2)] "2.IH"(2) [OF 1(1) refl 1(2)] 1(3) by fastforce
next
  case (3 p q s i)
  then have "(j, g) \<in> set (cap_ends p s i) \<or> (j, g) \<in> set (cap_ends q s i)"
    by simp
  then show ?case
    using "3.IH" "3.prems"(2) by blast
next
  case (4 n p s i)
  then show ?case
    by fastforce
qed

end
