(* ===== verification/ResolutionTypes.thy ===== *)
theory ResolutionTypes
  imports Rows
begin

text \<open>
  The types of \<open>resolution/types.ts\<close> with the project configuration they mention (path aliases, the
  Go module, workspace packages). The \<open>ResolutionContext\<close> is a record of lookup functions, so the
  matchers and the import resolver are pure functions of a reference and a context. Confidences are
  rationals.
\<close>

section \<open>References\<close>

record unresolved_ref =
  x_fromNodeId :: string
  x_referenceName :: string
  x_referenceKind :: edge_kind
  x_line :: nat
  x_column :: nat
  x_filePath :: string
  x_language :: language

datatype resolved_by =
  By_exact_match | By_import | By_qualified_name | By_framework | By_fuzzy | By_instance_method | By_file_path

record resolved_ref =
  m_original :: unresolved_ref
  m_targetNodeId :: string
  m_confidence :: rat
  m_resolvedBy :: resolved_by

section \<open>Imports and project configuration\<close>

record import_mapping =
  im_localName :: string
  im_exportedName :: string
  im_source :: string
  im_isDefault :: bool
  im_isNamespace :: bool

text \<open>A named re-export carries the exported name, the original name and the source.\<close>

datatype re_export =
    Named string string string
  | Wildcard string

record alias_pattern =
  ap_prefix :: string
  ap_suffix :: string
  ap_hasWildcard :: bool
  ap_replacements :: "string list"

record alias_map =
  am_baseUrl :: string
  am_patterns :: "alias_pattern list"

record go_module =
  gm_modulePath :: string
  gm_rootDir :: string

type_synonym workspace_packages = "(string, string) jmap"

section \<open>Contexts\<close>

text \<open>
  What the resolvers see of the project. \<open>cx_fileExists\<close> is a membership test of the indexed paths with
  \<open>fs.existsSync\<close> behind it, which is true of directories as well as of files.
\<close>

record resolution_context =
  cx_nodesInFile :: "string \<Rightarrow> node list"
  cx_nodesByName :: "string \<Rightarrow> node list"
  cx_nodesByQualifiedName :: "string \<Rightarrow> node list"
  cx_nodesByKind :: "node_kind \<Rightarrow> node list"
  cx_fileExists :: "string \<Rightarrow> bool"
  cx_readFile :: "string \<Rightarrow> string option"
  cx_projectRoot :: string
  cx_allFiles :: "string list"
  cx_nodesByLowerName :: "string \<Rightarrow> node list"
  cx_supertypes :: "string \<Rightarrow> language \<Rightarrow> string list"
  cx_importMappings :: "string \<Rightarrow> language \<Rightarrow> import_mapping list"
  cx_projectAliases :: "alias_map option"
  cx_goModule :: "go_module option"
  cx_workspacePackages :: "workspace_packages option"
  cx_reExports :: "string \<Rightarrow> language \<Rightarrow> re_export list"
  cx_listDirectories :: "string \<Rightarrow> string list"
  cx_cppIncludeDirs :: "string list"

definition resolved :: "unresolved_ref \<Rightarrow> node \<Rightarrow> rat \<Rightarrow> resolved_by \<Rightarrow> resolved_ref" where
  "resolved ref target confidence how =
     \<lparr>m_original = ref, m_targetNodeId = n_id target, m_confidence = confidence, m_resolvedBy = how\<rparr>"

end
