(* ===== verification/NameMatcher.thy ===== *)
theory NameMatcher
  imports ResolutionTypes QueryUtils
begin

text \<open>
  \<open>resolution/name-matcher.ts\<close>: resolution of a reference by file path, qualified name, call chain,
  method call, exact name and fuzzy name. Each matcher is a pure function of a reference and a context.
\<close>

section \<open>Language families\<close>

datatype family = F_jvm | F_apple | F_web | F_c | F_dotnet

fun LANGUAGE_FAMILY :: "language \<Rightarrow> family option" where
  "LANGUAGE_FAMILY L_java = Some F_jvm"
| "LANGUAGE_FAMILY L_kotlin = Some F_jvm"
| "LANGUAGE_FAMILY L_scala = Some F_jvm"
| "LANGUAGE_FAMILY L_swift = Some F_apple"
| "LANGUAGE_FAMILY L_objc = Some F_apple"
| "LANGUAGE_FAMILY L_typescript = Some F_web"
| "LANGUAGE_FAMILY L_tsx = Some F_web"
| "LANGUAGE_FAMILY L_javascript = Some F_web"
| "LANGUAGE_FAMILY L_jsx = Some F_web"
| "LANGUAGE_FAMILY L_c = Some F_c"
| "LANGUAGE_FAMILY L_cpp = Some F_c"
| "LANGUAGE_FAMILY L_csharp = Some F_dotnet"
| "LANGUAGE_FAMILY L_razor = Some F_dotnet"
| "LANGUAGE_FAMILY _ = None"

definition sameLanguageFamily :: "language \<Rightarrow> language \<Rightarrow> bool" where
  "sameLanguageFamily a b =
     (if a = b then True
      else LANGUAGE_FAMILY a \<noteq> None \<and> LANGUAGE_FAMILY a = LANGUAGE_FAMILY b)"

definition isKnownLanguageFamily :: "language \<Rightarrow> bool" where
  "isKnownLanguageFamily lang = (LANGUAGE_FAMILY lang \<noteq> None)"

definition crossesKnownFamily :: "language \<Rightarrow> language \<Rightarrow> bool" where
  "crossesKnownFamily a b =
     (isKnownLanguageFamily a \<and> isKnownLanguageFamily b \<and> \<not> sameLanguageFamily a b)"

definition applyLanguageGate :: "node list \<Rightarrow> unresolved_ref \<Rightarrow> node list" where
  "applyLanguageGate candidates ref =
     (if x_referenceKind ref = EK_references
      then filter (\<lambda>c. sameLanguageFamily (n_language c) (x_language ref)) candidates
      else if x_referenceKind ref = EK_imports
      then filter (\<lambda>c. \<not> crossesKnownFamily (n_language c) (x_language ref)) candidates
      else candidates)"

section \<open>Path proximity\<close>

abbreviation path_segments :: "string \<Rightarrow> string list" where
  "path_segments p \<equiv> split_by (\<lambda>c. c = CHR ''/'') p"

fun shared_segments :: "string list \<Rightarrow> string list \<Rightarrow> nat" where
  "shared_segments (a # as) (b # bs) = (if a = b then Suc (shared_segments as bs) else 0)"
| "shared_segments _ _ = 0"

definition computePathProximity :: "string \<Rightarrow> string \<Rightarrow> nat" where
  "computePathProximity filePath1 filePath2 =
     min (shared_segments (butlast (path_segments filePath1)) (butlast (path_segments filePath2)) * 15) 80"

text \<open>The loops that keep the first node with the greatest score.\<close>

fun best_by :: "('a \<Rightarrow> rat) \<Rightarrow> 'a list \<Rightarrow> rat option \<Rightarrow> 'a option \<Rightarrow> 'a option" where
  "best_by score [] bestScore best = best"
| "best_by score (c # cs) bestScore best =
     (if (case bestScore of None \<Rightarrow> True | Some b \<Rightarrow> b < score c)
      then best_by score cs (Some (score c)) (Some c)
      else best_by score cs bestScore best)"

definition dirOf :: "string \<Rightarrow> string" where
  "dirOf p = (case last_index_of p ''/'' of Some i \<Rightarrow> take i p | None \<Rightarrow> '''')"

definition pickClosestFileNode :: "node list \<Rightarrow> unresolved_ref \<Rightarrow> node" where
  "pickClosestFileNode candidates ref =
     (let refDir = dirOf (x_filePath ref);
          sameDir = filter (\<lambda>c. dirOf (n_filePath c) = refDir) candidates;
          pool = (if sameDir \<noteq> [] then sameDir else candidates);
          score = (\<lambda>c. of_nat (computePathProximity (x_filePath ref) (n_filePath c))
                       + (if sameLanguageFamily (n_language c) (x_language ref) then 5 else 0))
      in case best_by score pool None None of Some best \<Rightarrow> best | None \<Rightarrow> hd pool)"

section \<open>File paths\<close>

definition extension_re :: re where
  "extension_re =
     re_seq [re_chr CHR ''.'', Cls (\<lambda>c. is_upper c \<or> is_lower c), re_upto 3 (Cls is_alnum), Eol]"

definition matchByFilePath :: "unresolved_ref \<Rightarrow> resolution_context \<Rightarrow> resolved_ref option" where
  "matchByFilePath ref ctx =
     (let name = x_referenceName ref in
      if \<not> str_includes name ''/'' \<and> \<not> re_test extension_re name then None
      else (let fileName = last (path_segments name) in
        if fileName = '''' then None
        else (let fileNodes = filter (\<lambda>n. n_kind n = NK_file) (cx_nodesByName ctx fileName) in
          if fileNodes = [] then None
          else (case find (\<lambda>n. n_qualifiedName n = name \<or> n_filePath n = name) fileNodes of
             Some exactMatch \<Rightarrow> Some (resolved ref exactMatch (95 / 100) By_file_path)
           | None \<Rightarrow>
               (let suffixMatches = filter (\<lambda>n. ends_with (n_qualifiedName n) name \<or> ends_with (n_filePath n) name) fileNodes in
                if suffixMatches \<noteq> []
                then Some (resolved ref (pickClosestFileNode suffixMatches ref) (85 / 100) By_file_path)
                else if length fileNodes = 1
                then Some (resolved ref (hd fileNodes) (70 / 100) By_file_path)
                else None)))))"

section \<open>Exact, qualified and fuzzy names\<close>

definition match_score :: "unresolved_ref \<Rightarrow> node \<Rightarrow> rat" where
  "match_score ref candidate =
     (if n_filePath candidate = x_filePath ref then 100 else 0)
     + of_nat (computePathProximity (x_filePath ref) (n_filePath candidate))
     + (if n_language candidate = x_language ref then 50 else - 80)
     + (if x_referenceKind ref = EK_calls \<and> n_kind candidate \<in> {NK_function, NK_method} then 25 else 0)
     + (if x_referenceKind ref = EK_instantiates \<and> n_kind candidate \<in> {NK_class, NK_struct, NK_interface}
        then 25 else 0)
     + (if x_referenceKind ref = EK_decorates
        then (if n_kind candidate \<in> {NK_function, NK_method} then 25
              else if n_kind candidate \<in> {NK_class, NK_interface} then 15 else 0)
        else 0)
     + (if n_isExported candidate = Some True then 10 else 0)
     + (if n_filePath candidate = x_filePath ref \<and> n_startLine candidate \<noteq> 0
        then max 0 (20 - of_int \<bar>int (n_startLine candidate) - int (x_line ref)\<bar> / 10) else 0)"

definition findBestMatch :: "unresolved_ref \<Rightarrow> node list \<Rightarrow> node option" where
  "findBestMatch ref candidates = best_by (match_score ref) candidates (Some (- 1)) None"

definition matchByExactName :: "unresolved_ref \<Rightarrow> resolution_context \<Rightarrow> resolved_ref option" where
  "matchByExactName ref ctx =
     (case applyLanguageGate (cx_nodesByName ctx (x_referenceName ref)) ref of
        [] \<Rightarrow> None
      | [c] \<Rightarrow> Some (resolved ref c (if n_language c \<noteq> x_language ref then 5 / 10 else 9 / 10) By_exact_match)
      | candidates \<Rightarrow>
          (case findBestMatch ref candidates of
             Some bestMatch \<Rightarrow>
               Some (resolved ref bestMatch
                 (if 30 \<le> computePathProximity (x_filePath ref) (n_filePath bestMatch) then 7 / 10 else 4 / 10)
                 By_exact_match)
           | None \<Rightarrow> None))"

definition matchByQualifiedName :: "unresolved_ref \<Rightarrow> resolution_context \<Rightarrow> resolved_ref option" where
  "matchByQualifiedName ref ctx =
     (let name = x_referenceName ref in
      if \<not> str_includes name ''::'' \<and> \<not> str_includes name ''.'' then None
      else (case cx_nodesByQualifiedName ctx name of
          [c] \<Rightarrow> Some (resolved ref c (95 / 100) By_qualified_name)
        | _ \<Rightarrow>
            (let lastName = last (split_by (\<lambda>c. c \<in> {CHR '':'', CHR ''.''}) name) in
             if lastName = '''' then None
             else (case find (\<lambda>c. ends_with (n_qualifiedName c) name) (cx_nodesByName ctx lastName) of
                 Some c \<Rightarrow> Some (resolved ref c (85 / 100) By_qualified_name)
               | None \<Rightarrow> None))))"

definition matchFuzzy :: "unresolved_ref \<Rightarrow> resolution_context \<Rightarrow> resolved_ref option" where
  "matchFuzzy ref ctx =
     (let candidates = cx_nodesByLowerName ctx (to_lower (x_referenceName ref));
          callable = applyLanguageGate (filter (\<lambda>n. n_kind n \<in> {NK_function, NK_method, NK_class}) candidates) ref;
          sameLanguage = filter (\<lambda>n. n_language n = x_language ref) callable;
          final = (if sameLanguage \<noteq> [] then sameLanguage else callable)
      in case final of
           [c] \<Rightarrow> Some (resolved ref c (if n_language c \<noteq> x_language ref then 3 / 10 else 5 / 10) By_fuzzy)
         | _ \<Rightarrow> None)"

section \<open>Methods on a type\<close>

definition method_matches :: "string \<Rightarrow> string \<Rightarrow> unresolved_ref \<Rightarrow> resolution_context \<Rightarrow> node list" where
  "method_matches typeName methodName ref ctx =
     (let want = typeName @ ''::'' @ methodName in
      filter (\<lambda>m. n_kind m = NK_method \<and> n_language m = x_language ref
          \<and> (n_qualifiedName m = want \<or> ends_with (n_qualifiedName m) (''::'' @ want)))
        (cx_nodesByName ctx methodName))"

text \<open>The choice by the imported name when several methods match.\<close>

definition slash_path :: "string \<Rightarrow> string" where
  "slash_path p = map (\<lambda>c. if c = CHR 0x5C then CHR ''/'' else c) p"

definition fqn_choice :: "unresolved_ref \<Rightarrow> string option \<Rightarrow> node list \<Rightarrow> node" where
  "fqn_choice ref preferredFqn matches =
     (case preferredFqn of
        Some fqn \<Rightarrow>
          if 1 < length matches \<and> fqn \<noteq> '''' then
            (let ext = (if x_language ref = L_kotlin then ''.kt'' else ''.java'');
                 fqnPath = map (\<lambda>c. if c = CHR ''.'' then CHR ''/'' else c) fqn @ ext
             in case find (\<lambda>m. ends_with (slash_path (n_filePath m)) fqnPath
                     \<or> ends_with (slash_path (n_filePath m)) (''/'' @ fqnPath)) matches of
                  Some chosen \<Rightarrow> chosen
                | None \<Rightarrow> hd matches)
          else hd matches
      | None \<Rightarrow> hd matches)"

text \<open>
  \<open>resolveMethodOnType\<close> with the levels of the supertype walk that are left: a call at depth \<open>d\<close>
  has \<open>4 - d\<close> of them.
\<close>

primrec method_walk :: "nat \<Rightarrow> string \<Rightarrow> unresolved_ref \<Rightarrow> resolution_context \<Rightarrow> rat \<Rightarrow> resolved_by
    \<Rightarrow> string option \<Rightarrow> string \<Rightarrow> resolved_ref option" where
  "method_walk 0 methodName ref ctx confidence how fqn typeName =
     (case method_matches typeName methodName ref ctx of
        [] \<Rightarrow> None
      | matches \<Rightarrow> Some (resolved ref (fqn_choice ref fqn matches) confidence how))"
| "method_walk (Suc n) methodName ref ctx confidence how fqn typeName =
     (case method_matches typeName methodName ref ctx of
        [] \<Rightarrow> first_some (method_walk n methodName ref ctx confidence how fqn)
                (cx_supertypes ctx typeName (x_language ref))
      | matches \<Rightarrow> Some (resolved ref (fqn_choice ref fqn matches) confidence how))"

definition resolveMethodOnType :: "string \<Rightarrow> string \<Rightarrow> unresolved_ref \<Rightarrow> resolution_context \<Rightarrow> rat
    \<Rightarrow> resolved_by \<Rightarrow> string option \<Rightarrow> resolved_ref option" where
  "resolveMethodOnType typeName methodName ref ctx confidence how preferredFqn =
     method_walk 4 methodName ref ctx confidence how preferredFqn typeName"

section \<open>C++ type inference\<close>

definition CPP_NON_TYPE_TOKENS :: "string list" where
  "CPP_NON_TYPE_TOKENS =
     [''return'', ''if'', ''else'', ''for'', ''while'', ''do'', ''switch'', ''case'', ''default'',
      ''break'', ''continue'', ''goto'', ''throw'', ''new'', ''delete'', ''co_await'', ''co_yield'',
      ''co_return'', ''static_cast'', ''const_cast'', ''dynamic_cast'', ''reinterpret_cast'',
      ''sizeof'', ''alignof'', ''typeid'', ''and'', ''or'', ''not'', ''xor'']"

definition qualifier_re :: re where
  "qualifier_re =
     re_seq [Wordb, re_words [''const'', ''volatile'', ''mutable'', ''typename'', ''class'', ''struct''], Wordb]"

definition generics_re :: re where
  "generics_re = re_seq [re_chr CHR ''<'', Star (Cls (\<lambda>c. c \<noteq> CHR ''>'')), re_chr CHR ''>'']"

abbreviation nonempty :: "string list \<Rightarrow> string list" where
  "nonempty ws \<equiv> filter (\<lambda>w. w \<noteq> []) ws"

definition normalizeCppTypeName :: "string \<Rightarrow> string option" where
  "normalizeCppTypeName typeName =
     (let t1 = re_replace qualifier_re '' '' typeName 0;
          t2 = re_replace (re_plus (re_any ''&*'')) '' '' t1 0;
          t3 = re_replace generics_re '' '' t2 0;
          normalized = trim (re_replace (re_plus (Cls is_space)) '' '' t3 0)
      in if normalized = '''' then None
         else (case rev (nonempty (split_str ''::'' normalized)) of
                 [] \<Rightarrow> None
               | w # _ \<Rightarrow> if w \<in> set CPP_NON_TYPE_TOKENS then None else Some w))"

text \<open>The declarator pattern: its group, and what has to follow it for a receiver.\<close>

definition ident_start :: "char \<Rightarrow> bool" where
  "ident_start c = (is_upper c \<or> is_lower c \<or> c = CHR ''_'')"

definition declarator_type_re :: re where
  "declarator_type_re =
     re_seq [Cls ident_start, Star (Cls (\<lambda>c. is_word c \<or> c = CHR '':'')),
       re_opt (re_seq [Star (Cls is_space), re_chr CHR ''<'', re_plus (Cls (\<lambda>c. c \<notin> set '';=(){}'')), re_chr CHR ''>'']),
       re_opt (Seq (Star (Cls is_space)) (re_plus (re_any ''*&'')))]"

definition declarator_rest_re :: "string \<Rightarrow> re" where
  "declarator_rest_re receiver =
     re_seq [Star (Cls is_space), Wordb, re_str receiver, Wordb, Star (Cls is_space),
       Alt (Look (re_any '';=,)[{('')) Eol]"

definition receiver_re :: "string \<Rightarrow> re" where
  "receiver_re receiver = re_seq [Wordb, re_str receiver, Wordb]"

text \<open>\<open>s.split(/\r?\n/)\<close>\<close>

definition split_lines :: "string \<Rightarrow> string list" where
  "split_lines s =
     (let parts = split_by (\<lambda>c. c = newline) s
      in map (\<lambda>l. if l \<noteq> [] \<and> last l = CHR 0x0D then butlast l else l) (butlast parts) @ [last parts])"

definition cppLastSegment :: "string \<Rightarrow> string" where
  "cppLastSegment name =
     (case rev (nonempty (split_str ''::'' name)) of w # _ \<Rightarrow> w | [] \<Rightarrow> name)"

definition has_return_type :: "node \<Rightarrow> bool" where
  "has_return_type n = (case n_returnType n of Some t \<Rightarrow> t \<noteq> '''' | None \<Rightarrow> False)"

definition lookupCalleeReturnType :: "string \<Rightarrow> unresolved_ref \<Rightarrow> resolution_context \<Rightarrow> string option" where
  "lookupCalleeReturnType callee ref ctx =
     (let parts = nonempty (split_str ''::'' callee);
          scoped = str_includes callee ''::'';
          method = (if scoped \<and> parts \<noteq> [] then last parts else callee);
          cls = (if scoped then join_with ''::'' (butlast parts) else '''');
          candidates = filter (\<lambda>n. n_kind n \<in> {NK_method, NK_function} \<and> n_language n = x_language ref \<and> has_return_type n)
            (cx_nodesByName ctx method)
      in if cls \<noteq> '''' then
           (let want = cls @ ''::'' @ method in
            Option.bind (find (\<lambda>n. n_qualifiedName n = want \<or> ends_with (n_qualifiedName n) (''::'' @ want)
                \<or> ends_with want (''::'' @ n_qualifiedName n)) candidates) n_returnType)
         else Option.bind (find (\<lambda>n. n_kind n = NK_function) candidates) n_returnType)"

definition cppClassExists :: "string \<Rightarrow> unresolved_ref \<Rightarrow> resolution_context \<Rightarrow> bool" where
  "cppClassExists name ref ctx =
     list_ex (\<lambda>n. n_kind n \<in> {NK_class, NK_struct} \<and> n_language n = x_language ref)
       (cx_nodesByName ctx (cppLastSegment name))"


text \<open>
  \<open>inferCppAutoInitializerType\<close> up to its recursive call: the initializer names a type after \<open>new\<close>
  (\<open>Inl\<close>), or is a call or construction whose result type is to be found (\<open>Inr\<close>).
\<close>

definition auto_initializer :: "string \<Rightarrow> string \<Rightarrow> (string + string) option" where
  "auto_initializer line receiver =
     (case re_group (re_seq [Wordb, re_str receiver, Wordb, Star (Cls is_space), re_chr CHR ''='', Star (Cls is_space)])
             (re_plus (Cls (\<lambda>c. c \<noteq> CHR '';''))) Eps line of
        None \<Rightarrow> None
      | Some m \<Rightarrow>
          (let init = trim m in
           case re_group (re_seq [Bol, re_str ''new'', re_plus (Cls is_space)])
                  (Seq (Cls ident_start) (Star (Cls (\<lambda>c. is_word c \<or> c = CHR '':'')))) Eps init of
             Some neu \<Rightarrow> Some (Inl (cppLastSegment neu))
           | None \<Rightarrow>
               (case re_group Bol
                       (re_seq [Cls ident_start, Star (Cls (\<lambda>c. is_word c \<or> c = CHR '':'')),
                          re_opt (re_seq [Star (Cls is_space), re_chr CHR ''<'', Star (Cls (\<lambda>c. c \<notin> set ''>;'')), re_chr CHR ''>''])])
                       (Seq (Star (Cls is_space)) (re_chr CHR ''('')) init of
                  Some call \<Rightarrow> Some (Inr (filter (\<lambda>c. \<not> is_space c) call))
                | None \<Rightarrow> None)))"

definition make_call :: "string \<Rightarrow> string option" where
  "make_call expr =
     re_group (re_seq [Alt Bol (re_str ''::''), re_words [''make_unique'', ''make_shared''], Star (Cls is_space),
         re_chr CHR ''<'', Star (Cls is_space)])
       (Seq (Cls ident_start) (Star (Cls is_word))) Eps expr"

text \<open>The declared type on a line, and the paths of the headers tried after the source file.\<close>

definition declared_type :: "string \<Rightarrow> string \<Rightarrow> string option" where
  "declared_type receiver line =
     (if line = '''' \<or> \<not> re_test (receiver_re receiver) line then None
      else Option.bind (re_group Eps declarator_type_re (declarator_rest_re receiver) line) normalizeCppTypeName)"

definition re_nocase :: "string \<Rightarrow> re" where
  "re_nocase s = re_seq (map (\<lambda>c. Cls (\<lambda>d. lower_char d = c)) s)"

definition cpp_source_re :: re where
  "cpp_source_re =
     re_seq [re_chr CHR ''.'', re_alt (map re_nocase [''c'', ''cc'', ''cpp'', ''cxx'']), Eol]"

definition with_extension :: "string \<Rightarrow> string \<Rightarrow> string" where
  "with_extension p ext = (case re_exec cpp_source_re p 0 of Some (i, j) \<Rightarrow> take i p @ ext | None \<Rightarrow> p)"

definition header_candidates :: "string \<Rightarrow> string list" where
  "header_candidates p =
     filter (\<lambda>c. c \<noteq> p) (set_of_list [with_extension p ''.h'', with_extension p ''.hpp'', with_extension p ''.hxx''])"

definition header_type :: "string \<Rightarrow> resolution_context \<Rightarrow> string \<Rightarrow> string option" where
  "header_type receiver ctx headerPath =
     (if \<not> cx_fileExists ctx headerPath then None
      else (case cx_readFile ctx headerPath of
              None \<Rightarrow> None
            | Some source \<Rightarrow>
                if source = '''' then None
                else first_some (\<lambda>line. case declared_type receiver line of
                       Some t \<Rightarrow> if t = ''auto'' then None else Some t
                     | None \<Rightarrow> None) (split_lines source)))"

text \<open>
  The two mutually recursive functions; \<open>depth\<close> grows with every call and the second stops at 4.
\<close>

function inferCppReceiverType :: "string \<Rightarrow> unresolved_ref \<Rightarrow> resolution_context \<Rightarrow> nat \<Rightarrow> string option"
  and resolveCppCallResultType :: "string \<Rightarrow> unresolved_ref \<Rightarrow> resolution_context \<Rightarrow> nat \<Rightarrow> string option" where
  "inferCppReceiverType receiver ref ctx depth =
     (case cx_readFile ctx (x_filePath ref) of
        None \<Rightarrow> None
      | Some source \<Rightarrow>
          if source = '''' then None
          else (let ls = split_lines source;
                    callLineIndex = min (length ls - 1) (x_line ref - 1)
                in case first_some (\<lambda>line.
                          case declared_type receiver line of
                            None \<Rightarrow> None
                          | Some t \<Rightarrow>
                              if t = ''auto'' then
                                (case auto_initializer line receiver of
                                   None \<Rightarrow> None
                                 | Some (Inl cls) \<Rightarrow> Some cls
                                 | Some (Inr call) \<Rightarrow> resolveCppCallResultType call ref ctx (depth + 1))
                              else Some t) (rev (take (Suc callLineIndex) ls)) of
                     Some t \<Rightarrow> Some t
                   | None \<Rightarrow> first_some (header_type receiver ctx) (header_candidates (x_filePath ref))))"
| "resolveCppCallResultType inner ref ctx depth =
     (if depth > 3 then None
      else (let expr = trim inner in
        case make_call expr of
          Some t \<Rightarrow> Some t
        | None \<Rightarrow>
            (case last_index_of expr ''.'' of
               Some (Suc k) \<Rightarrow>
                 (let recv = take (Suc k) expr; method = drop (Suc (Suc k)) expr in
                  if str_includes recv ''.'' \<or> str_includes recv ''('' \<or> str_includes recv ''::'' then None
                  else (case inferCppReceiverType recv ref ctx (depth + 1) of
                          None \<Rightarrow> None
                        | Some recvType \<Rightarrow>
                            if recvType = '''' then None
                            else lookupCalleeReturnType (recvType @ ''::'' @ method) ref ctx))
             | _ \<Rightarrow>
                 (case lookupCalleeReturnType expr ref ctx of
                    Some ret \<Rightarrow> Some ret
                  | None \<Rightarrow> if cppClassExists expr ref ctx then Some (cppLastSegment expr) else None))))"
  by pat_completeness auto
termination
  by (relation "measure (case_sum (\<lambda>(receiver, ref, ctx, depth). Suc (2 * (4 - (depth + 1))))
        (\<lambda>(inner, ref, ctx, depth). 2 * (4 - depth)))") auto

declare inferCppReceiverType.simps [simp del] resolveCppCallResultType.simps [simp del]

section \<open>Call chains\<close>

text \<open>\<open>/^(.+)\(\)\.(\w+)$/\<close>\<close>

definition chain_parts :: "string \<Rightarrow> (string \<times> string) option" where
  "chain_parts name =
     re_two_groups (re_plus (Cls (\<lambda>c. c \<notin> {newline, CHR 0x0D}))) (re_str ''().'') (re_plus (Cls is_word)) name"

definition matchCppCallChain :: "unresolved_ref \<Rightarrow> resolution_context \<Rightarrow> resolved_ref option" where
  "matchCppCallChain ref ctx =
     (case chain_parts (x_referenceName ref) of
        None \<Rightarrow> None
      | Some (inner, method) \<Rightarrow>
          (case resolveCppCallResultType inner ref ctx 0 of
             None \<Rightarrow> None
           | Some cls \<Rightarrow>
               if cls = '''' then None
               else resolveMethodOnType cls method ref ctx (85 / 100) By_instance_method None))"

definition matchScopedCallChain :: "unresolved_ref \<Rightarrow> resolution_context \<Rightarrow> resolved_ref option" where
  "matchScopedCallChain ref ctx =
     (case chain_parts (x_referenceName ref) of
        None \<Rightarrow> None
      | Some (inner, method) \<Rightarrow>
          (case last_index_of inner ''::'' of
             None \<Rightarrow> None
           | Some k \<Rightarrow>
               (case lookupCalleeReturnType inner ref ctx of
                  None \<Rightarrow> None
                | Some ret \<Rightarrow>
                    resolveMethodOnType (if ret = ''self'' then take k inner else ret) method ref ctx
                      (85 / 100) By_instance_method None)))"

definition CONSTRUCTS_VIA_BARE_CALL :: "language list" where
  "CONSTRUCTS_VIA_BARE_CALL = [L_kotlin, L_swift, L_scala, L_dart]"

definition importedFqnOf :: "string \<Rightarrow> unresolved_ref \<Rightarrow> resolution_context \<Rightarrow> string option" where
  "importedFqnOf typeName ref ctx =
     map_option im_source
       (find (\<lambda>i. im_localName i = typeName) (cx_importMappings ctx (x_filePath ref) (x_language ref)))"

text \<open>
  The bare fallback of Go: a synthetic reference with the method's name is matched, and the match is
  tied to the original reference again.
\<close>

definition bare_method_match :: "string \<Rightarrow> unresolved_ref \<Rightarrow> resolution_context \<Rightarrow> resolved_ref option" where
  "bare_method_match method ref ctx =
     (let bareRef = ref\<lparr>x_referenceName := method\<rparr>;
          bareMatch = (case matchByExactName bareRef ctx of Some m \<Rightarrow> Some m | None \<Rightarrow> matchFuzzy bareRef ctx)
      in map_option (\<lambda>m. m\<lparr>m_original := ref\<rparr>) bareMatch)"

definition matchDottedCallChain :: "unresolved_ref \<Rightarrow> resolution_context \<Rightarrow> resolved_ref option" where
  "matchDottedCallChain ref ctx =
     (case chain_parts (x_referenceName ref) of
        None \<Rightarrow> None
      | Some (inner, method) \<Rightarrow>
          (case last_index_of inner ''.'' of
             Some (Suc k) \<Rightarrow>
               (let factoryClass = last (split_by (\<lambda>c. c = CHR ''.'') (take (Suc k) inner));
                    factoryMethod = drop (Suc (Suc k)) inner
                in if factoryClass = '''' \<or> factoryMethod = '''' then None
                   else (case lookupCalleeReturnType (factoryClass @ ''::'' @ factoryMethod) ref ctx of
                           None \<Rightarrow> None
                         | Some ret \<Rightarrow>
                             resolveMethodOnType ret method ref ctx (85 / 100) By_instance_method
                               (importedFqnOf ret ref ctx)))
           | _ \<Rightarrow>
               if x_language ref = L_go then
                 (case lookupCalleeReturnType inner ref ctx of
                    Some ret \<Rightarrow>
                      resolveMethodOnType ret method ref ctx (85 / 100) By_instance_method (importedFqnOf ret ref ctx)
                  | None \<Rightarrow> bare_method_match method ref ctx)
               else if x_language ref \<notin> set CONSTRUCTS_VIA_BARE_CALL \<or> \<not> is_upper (hd inner) then None
               else resolveMethodOnType inner method ref ctx (85 / 100) By_instance_method
                      (importedFqnOf inner ref ctx)))"


section \<open>Method calls\<close>

text \<open>The loop for the tightest enclosing class: a later or equal start line wins.\<close>

fun enclosing_class :: "unresolved_ref \<Rightarrow> node list \<Rightarrow> node option \<Rightarrow> node option" where
  "enclosing_class ref [] enclosing = enclosing"
| "enclosing_class ref (n # ns) enclosing =
     (if n_kind n \<in> {NK_class, NK_interface} \<and> n_language n = x_language ref
          \<and> n_startLine n \<le> x_line ref \<and> x_line ref \<le> n_endLine n
          \<and> (case enclosing of None \<Rightarrow> True | Some e \<Rightarrow> n_startLine e \<le> n_startLine n)
      then enclosing_class ref ns (Some n) else enclosing_class ref ns enclosing)"

definition field_type_name :: "string \<Rightarrow> string \<Rightarrow> string option" where
  "field_type_name sg fieldName =
     (let beforeName = (case last_index_of sg fieldName of Some k \<Rightarrow> take k sg | None \<Rightarrow> butlast sg);
          typeRaw = trim beforeName
      in if typeRaw = '''' then None
         else (let typeNoGenerics = trim (re_replace generics_re '''' typeRaw 0);
                   noBrackets = re_replace (re_seq [re_chr CHR ''['', Star (Cls is_space), re_chr CHR '']'']) '''' typeNoGenerics 0;
                   typeNoArray = trim (if ends_with noBrackets ''...'' then take (length noBrackets - 3) noBrackets else noBrackets);
                   parts = nonempty (split_by (\<lambda>c. c = CHR ''.'' \<or> is_space c) typeNoArray)
               in if parts = [] then None
                  else if is_upper (hd (last parts)) then Some (last parts) else None))"

definition inferJavaFieldReceiverType :: "string \<Rightarrow> unresolved_ref \<Rightarrow> resolution_context \<Rightarrow> string option" where
  "inferJavaFieldReceiverType receiverName ref ctx =
     (let inFile = cx_nodesInFile ctx (x_filePath ref) in
      case enclosing_class ref inFile None of
        None \<Rightarrow> None
      | Some enclosing \<Rightarrow>
          (case find (\<lambda>n. n_kind n = NK_field \<and> n_name n = receiverName \<and> n_language n = x_language ref
                 \<and> n_startLine enclosing \<le> n_startLine n \<and> n_endLine n \<le> n_endLine enclosing) inFile of
             None \<Rightarrow> None
           | Some field \<Rightarrow>
               (case n_signature field of
                  None \<Rightarrow> None
                | Some sig \<Rightarrow> if sig = '''' then None else field_type_name sig (n_name field))))"

definition splitCamelCase :: "string \<Rightarrow> string list" where
  "splitCamelCase str =
     filter (\<lambda>w. 1 < length w)
       (split_by (\<lambda>c. is_space c \<or> c \<in> set ''._:/'' \<or> c = CHR 0x5C) (split_acronym (split_low_up str)))"

definition dot_call :: "string \<Rightarrow> (string \<times> string) option" where
  "dot_call name =
     re_two_groups (re_plus (Cls (\<lambda>c. is_word c \<or> c = CHR ''.''))) (re_chr CHR ''.'')
       (re_seq [re_plus (Cls is_word), re_opt (re_chr CHR '':''),
          Star (Seq (re_plus (Cls is_word)) (re_chr CHR '':''))]) name"

definition colon_call :: "string \<Rightarrow> (string \<times> string) option" where
  "colon_call name = re_two_groups (re_plus (Cls is_word)) (re_str ''::'') (re_plus (Cls is_word)) name"

definition capitalized :: "string \<Rightarrow> string" where
  "capitalized s = (case s of [] \<Rightarrow> [] | c # cs \<Rightarrow> upper_char c # cs)"

text \<open>Strategies 1 and 2: a method of that name in the file of a class of the receiver's name.\<close>

definition class_method :: "string \<Rightarrow> string \<Rightarrow> rat \<Rightarrow> resolved_by \<Rightarrow> unresolved_ref \<Rightarrow> resolution_context
    \<Rightarrow> resolved_ref option" where
  "class_method className methodName confidence how ref ctx =
     first_some (\<lambda>classNode.
         if n_kind classNode \<in> {NK_class, NK_struct, NK_interface} \<and> n_language classNode = x_language ref
         then map_option (\<lambda>m. resolved ref m confidence how)
                (find (\<lambda>n. n_kind n = NK_method \<and> n_name n = methodName
                     \<and> str_includes (n_qualifiedName n) (n_name classNode))
                  (cx_nodesInFile ctx (n_filePath classNode)))
         else None) (cx_nodesByName ctx className)"

text \<open>Strategy 3: the only method of that name, or the one that shares most words with the receiver.\<close>

definition overlap_score :: "unresolved_ref \<Rightarrow> string \<Rightarrow> node \<Rightarrow> rat" where
  "overlap_score ref receiver method =
     (let classWords = splitCamelCase (n_qualifiedName method)
      in of_nat (length (filter (\<lambda>w. list_ex (\<lambda>cw. to_lower cw = to_lower w) classWords) (splitCamelCase receiver)))
         + (if n_language method = x_language ref then 1 else 0))"

definition method_by_name :: "string \<Rightarrow> string \<Rightarrow> unresolved_ref \<Rightarrow> resolution_context \<Rightarrow> resolved_ref option" where
  "method_by_name receiver methodName ref ctx =
     (let methods = filter (\<lambda>n. n_kind n = NK_method \<and> n_name n = methodName) (cx_nodesByName ctx methodName);
          sameLanguage = filter (\<lambda>m. n_language m = x_language ref) methods;
          target = (if sameLanguage \<noteq> [] then sameLanguage else methods)
      in if length target = 1 \<and> n_language (hd target) = x_language ref
         then Some (resolved ref (hd target) (70 / 100) By_instance_method)
         else if 1 < length target
         then (case best_by (overlap_score ref receiver) target (Some 0) None of
                 Some bestMatch \<Rightarrow>
                   if 2 \<le> overlap_score ref receiver bestMatch
                   then Some (resolved ref bestMatch (65 / 100) By_instance_method) else None
               | None \<Rightarrow> None)
         else None)"

definition typed_receiver :: "string option \<Rightarrow> string \<Rightarrow> unresolved_ref \<Rightarrow> resolution_context
    \<Rightarrow> (string \<Rightarrow> string option) \<Rightarrow> resolved_ref option" where
  "typed_receiver inferred methodName ref ctx fqnOf =
     (case inferred of
        Some t \<Rightarrow>
          if t = '''' then None
          else resolveMethodOnType t methodName ref ctx (90 / 100) By_instance_method (fqnOf t)
      | None \<Rightarrow> None)"

fun or_else :: "'a option \<Rightarrow> 'a option \<Rightarrow> 'a option" where
  "or_else (Some x) y = Some x"
| "or_else None y = y"

definition matchMethodCall :: "unresolved_ref \<Rightarrow> resolution_context \<Rightarrow> resolved_ref option" where
  "matchMethodCall ref ctx =
     (let dotMatch = dot_call (x_referenceName ref) in
      case or_else dotMatch (colon_call (x_referenceName ref)) of
        None \<Rightarrow> None
      | Some (objectOrClass, methodName) \<Rightarrow>
          or_else (if x_language ref = L_cpp \<and> dotMatch \<noteq> None
                   then typed_receiver (inferCppReceiverType objectOrClass ref ctx 0) methodName ref ctx (\<lambda>_. None)
                   else None)
         (or_else (if x_language ref \<in> {L_java, L_kotlin} \<and> dotMatch \<noteq> None
                   then typed_receiver (inferJavaFieldReceiverType objectOrClass ref ctx) methodName ref ctx
                          (\<lambda>t. importedFqnOf t ref ctx)
                   else None)
         (or_else (class_method objectOrClass methodName (85 / 100) By_qualified_name ref ctx)
         (or_else (if capitalized objectOrClass \<noteq> objectOrClass
                   then class_method (capitalized objectOrClass) methodName (80 / 100) By_instance_method ref ctx
                   else None)
           (method_by_name objectOrClass methodName ref ctx)))))"

section \<open>All strategies\<close>

definition CHAIN_LANGS_DOTTED :: "language list" where
  "CHAIN_LANGS_DOTTED = [L_java, L_kotlin, L_csharp, L_swift, L_go, L_scala, L_dart]"

definition matchReference :: "unresolved_ref \<Rightarrow> resolution_context \<Rightarrow> resolved_ref option" where
  "matchReference ref ctx =
     or_else (matchByFilePath ref ctx)
    (or_else (matchByQualifiedName ref ctx)
    (or_else (if x_language ref \<in> {L_cpp, L_c} then matchCppCallChain ref ctx else None)
    (or_else (if x_language ref \<in> {L_php, L_rust} then matchScopedCallChain ref ctx else None)
    (or_else (if x_language ref \<in> set CHAIN_LANGS_DOTTED then matchDottedCallChain ref ctx else None)
    (or_else (matchMethodCall ref ctx)
    (or_else (matchByExactName ref ctx)
      (matchFuzzy ref ctx)))))))"


section \<open>The supertype walk\<close>

definition supertype_rel :: "resolution_context \<Rightarrow> language \<Rightarrow> (string \<times> string) set" where
  "supertype_rel ctx lang = {(a, b). b \<in> set (cx_supertypes ctx a lang)}"

definition is_method_of :: "string \<Rightarrow> string \<Rightarrow> unresolved_ref \<Rightarrow> resolution_context \<Rightarrow> node \<Rightarrow> bool" where
  "is_method_of t m ref ctx n \<longleftrightarrow> n \<in> set (cx_nodesByName ctx m) \<and> n_kind n = NK_method \<and> n_language n = x_language ref
     \<and> (n_qualifiedName n = t @ ''::'' @ m \<or> ends_with (n_qualifiedName n) (''::'' @ t @ ''::'' @ m))"

lemma set_method_matches: "set (method_matches t m ref ctx) = Collect (is_method_of t m ref ctx)"
  by (auto simp: method_matches_def is_method_of_def Let_def)

lemma fqn_choice_mem: "ms \<noteq> [] \<Longrightarrow> fqn_choice ref fqn ms \<in> set ms"
  by (auto simp: fqn_choice_def Let_def split: option.splits dest!: find_SomeD)

lemma method_walk_hit:
  "method_matches t m ref ctx \<noteq> [] \<Longrightarrow>
     method_walk k m ref ctx c how fqn t = Some (resolved ref (fqn_choice ref fqn (method_matches t m ref ctx)) c how)"
  by (cases k) (auto split: list.split)

lemma method_walk_miss:
  "method_matches t m ref ctx = [] \<Longrightarrow>
     method_walk k m ref ctx c how fqn t =
       (case k of 0 \<Rightarrow> None
        | Suc j \<Rightarrow> first_some (method_walk j m ref ctx c how fqn) (cx_supertypes ctx t (x_language ref)))"
  by (cases k) auto

lemma relpow_Suc_first: "(t, u) \<in> supertype_rel ctx l ^^ Suc k \<longleftrightarrow>
    (\<exists>s\<in>set (cx_supertypes ctx t l). (s, u) \<in> supertype_rel ctx l ^^ k)"
proof -
  have "(t, u) \<in> supertype_rel ctx l ^^ Suc k \<longleftrightarrow> (t, u) \<in> supertype_rel ctx l O supertype_rel ctx l ^^ k"
    by (simp only: relpow.simps(2) relpow_commute)
  then show ?thesis
    by (auto simp del: relpow.simps simp: supertype_rel_def)
qed

lemma method_walk_None:
  "method_walk k m ref ctx c how fqn t = None \<Longrightarrow> j \<le> k \<Longrightarrow> (t, u) \<in> supertype_rel ctx (x_language ref) ^^ j
     \<Longrightarrow> method_matches u m ref ctx = []"
proof (induction k arbitrary: t j)
  case 0
  then show ?case
    using method_walk_hit [of t m ref ctx 0 c how fqn] by fastforce
next
  case (Suc k)
  have miss: "method_matches t m ref ctx = []"
    using Suc.prems(1) method_walk_hit [of t m ref ctx "Suc k" c how fqn] by fastforce
  show ?case
  proof (cases j)
    case 0
    then show ?thesis
      using Suc.prems(3) miss by simp
  next
    case (Suc i)
    then obtain s where s: "s \<in> set (cx_supertypes ctx t (x_language ref))"
        "(s, u) \<in> supertype_rel ctx (x_language ref) ^^ i"
      using Suc.prems(3) relpow_Suc_first by blast
    have "method_walk k m ref ctx c how fqn s = None"
      using Suc.prems(1) s(1) by (simp add: method_walk_miss [OF miss] first_some_None_iff list_all_iff)
    then show ?thesis
      using Suc.IH s(2) Suc.prems(2) Suc by simp
  qed
qed

lemma method_walk_Some:
  "method_walk k m ref ctx c how fqn t = Some r \<Longrightarrow>
     \<exists>j\<le>k. \<exists>u. (t, u) \<in> supertype_rel ctx (x_language ref) ^^ j \<and> (\<exists>n. is_method_of u m ref ctx n \<and> r = resolved ref n c how)"
proof (induction k arbitrary: t)
  case 0
  have hit: "method_matches t m ref ctx \<noteq> []"
    using 0 by (auto split: list.splits)
  show ?case
    using 0 fqn_choice_mem [OF hit, of ref fqn] method_walk_hit [OF hit, of 0 c how fqn]
    by (intro exI [of _ 0]) (auto simp: set_method_matches simp del: method_walk.simps)
next
  case (Suc k)
  show ?case
  proof (cases "method_matches t m ref ctx = []")
    case True
    obtain s where s: "s \<in> set (cx_supertypes ctx t (x_language ref))" "method_walk k m ref ctx c how fqn s = Some r"
      using Suc.prems by (auto simp: method_walk_miss [OF True] dest: first_some_Some)
    obtain j u where "j \<le> k" "(s, u) \<in> supertype_rel ctx (x_language ref) ^^ j"
        "\<exists>n. is_method_of u m ref ctx n \<and> r = resolved ref n c how"
      using Suc.IH [OF s(2)] by blast
    then show ?thesis
      using s(1) by (intro exI [of _ "Suc j"]) (auto simp del: relpow.simps simp: relpow_Suc_first)
  next
    case False
    show ?thesis
      using Suc.prems fqn_choice_mem [OF False, of ref fqn] method_walk_hit [OF False, of "Suc k"]
      by (intro exI [of _ 0]) (auto simp: set_method_matches simp del: method_walk.simps)
  qed
qed

text \<open>
  A method is resolved on a type exactly when the type, or a supertype at most four conformance
  steps away, has a method of that name and of the reference's language; the result is such a method
  with the confidence asked for. A coincidentally equal method name on an unrelated type never matches.
\<close>

theorem resolveMethodOnType_validated:
  "case resolveMethodOnType t m ref ctx c how fqn of
     Some r \<Rightarrow> \<exists>j\<le>4. \<exists>u. (t, u) \<in> supertype_rel ctx (x_language ref) ^^ j
                \<and> (\<exists>n. is_method_of u m ref ctx n \<and> r = resolved ref n c how)
   | None \<Rightarrow> \<not> (\<exists>j\<le>4. \<exists>u n. (t, u) \<in> supertype_rel ctx (x_language ref) ^^ j \<and> is_method_of u m ref ctx n)"
proof (cases "resolveMethodOnType t m ref ctx c how fqn")
  case None
  then show ?thesis
    using method_walk_None [of 4 m ref ctx c how fqn t] set_method_matches [of _ m ref ctx]
    unfolding resolveMethodOnType_def by (simp del: relpow.simps) (metis empty_iff list.set(1) mem_Collect_eq)
next
  case (Some r)
  then show ?thesis
    using method_walk_Some [of 4 m ref ctx c how fqn t r] unfolding resolveMethodOnType_def by simp
qed

section \<open>The interface of a context\<close>

text \<open>
  What the matchers rely on: every node a lookup returns is a stored one. Inside the locale, \<open>ok\<close>
  is what every strategy promises of a match; the batched resolver depends on its first part.
\<close>

definition match_ok :: "string set \<Rightarrow> unresolved_ref \<Rightarrow> resolved_ref option \<Rightarrow> bool" where
  "match_ok ids ref res =
     (case res of None \<Rightarrow> True
      | Some m \<Rightarrow> m_original m = ref \<and> m_targetNodeId m \<in> ids \<and> 3 / 10 \<le> m_confidence m \<and> m_confidence m \<le> 95 / 100)"

lemma match_ok_None [simp, intro]: "match_ok ids ref None"
  by (simp add: match_ok_def)

lemma match_ok_resolved:
  "n_id n \<in> ids \<Longrightarrow> 3 / 10 \<le> c \<Longrightarrow> c \<le> 95 / 100 \<Longrightarrow> match_ok ids ref (Some (resolved ref n c how))"
  by (simp add: match_ok_def resolved_def)

lemma match_ok_or_else: "match_ok ids ref a \<Longrightarrow> match_ok ids ref b \<Longrightarrow> match_ok ids ref (or_else a b)"
  by (cases a) auto

lemma match_ok_if: "match_ok ids ref a \<Longrightarrow> match_ok ids ref (if b then a else None)"
  by simp

lemma match_ok_first_some: "(\<And>x. x \<in> set xs \<Longrightarrow> match_ok ids ref (f x)) \<Longrightarrow> match_ok ids ref (first_some f xs)"
proof (induction xs)
  case (Cons a xs)
  then show ?case
    using Cons.prems [of a] by (cases "f a") auto
qed simp

lemma best_by_mem: "best_by score cs b best = Some x \<Longrightarrow> x \<in> set cs \<or> best = Some x"
  by (induction score cs b best rule: best_by.induct) (auto split: if_splits)

lemma find_mem: "find P xs = Some x \<Longrightarrow> x \<in> set xs \<and> P x"
  by (rule find_SomeD)

lemma pickClosestFileNode_mem: "cs \<noteq> [] \<Longrightarrow> pickClosestFileNode cs ref \<in> set cs"
  unfolding pickClosestFileNode_def Let_def
  by (auto split: option.splits if_splits dest!: best_by_mem dest: hd_in_set
      intro: hd_in_set [THEN subsetD [OF filter_is_subset]])

lemma applyLanguageGate_subset: "set (applyLanguageGate cs ref) \<subseteq> set cs"
  by (auto simp: applyLanguageGate_def)

locale lookup_laws =
  fixes ctx :: resolution_context and ids :: "string set"
  assumes by_name: "n \<in> set (cx_nodesByName ctx nm) \<Longrightarrow> n_id n \<in> ids"
    and by_qualified: "n \<in> set (cx_nodesByQualifiedName ctx nm) \<Longrightarrow> n_id n \<in> ids"
    and by_lower: "n \<in> set (cx_nodesByLowerName ctx nm) \<Longrightarrow> n_id n \<in> ids"
    and in_file: "n \<in> set (cx_nodesInFile ctx f) \<Longrightarrow> n_id n \<in> ids"
begin

lemma matchByFilePath_ok: "match_ok ids ref (matchByFilePath ref ctx)"
proof -
  have mem: "n_id n \<in> ids" if "n \<in> set (filter P (cx_nodesByName ctx nm))" for n P nm
    using that by (auto intro: by_name)
  let ?fs = "filter (\<lambda>n. n_kind n = NK_file) (cx_nodesByName ctx (last (path_segments (x_referenceName ref))))"
  let ?sm = "filter (\<lambda>n. ends_with (n_qualifiedName n) (x_referenceName ref) \<or> ends_with (n_filePath n) (x_referenceName ref)) ?fs"
  have "n_id (pickClosestFileNode ?sm ref) \<in> ids" if "?sm \<noteq> []"
    using pickClosestFileNode_mem [OF that, of ref] by (simp only: set_filter mem_Collect_eq) (blast intro: by_name)
  moreover have "n_id (hd ?fs) \<in> ids" if "?fs \<noteq> []"
    using hd_in_set [OF that] by (rule mem)
  moreover have "n_id n \<in> ids" if "find P ?fs = Some n" for P n
    using find_mem [OF that] mem by blast
  ultimately show ?thesis
    unfolding matchByFilePath_def Let_def
    by (auto intro!: match_ok_resolved split: option.split)
qed

lemma matchByExactName_ok: "match_ok ids ref (matchByExactName ref ctx)"
proof -
  have mem: "n_id n \<in> ids" if "n \<in> set (applyLanguageGate (cx_nodesByName ctx nm) r)" for n nm r
    using that applyLanguageGate_subset by_name by blast
  have best: "n_id n \<in> ids" if "findBestMatch ref (applyLanguageGate (cx_nodesByName ctx nm) r) = Some n" for n nm r
    using that mem unfolding findBestMatch_def by (auto dest: best_by_mem)
  show ?thesis
    using mem [of _ "x_referenceName ref" ref] best [of "x_referenceName ref" ref]
    unfolding matchByExactName_def
    by (auto intro!: match_ok_resolved split: list.split option.split)
qed

lemma matchByQualifiedName_ok: "match_ok ids ref (matchByQualifiedName ref ctx)"
proof -
  have q: "n_id c \<in> ids" if "cx_nodesByQualifiedName ctx nm = [c]" for c nm
    using that by_qualified [of c nm] by simp
  have n: "n_id c \<in> ids" if "find P (cx_nodesByName ctx nm) = Some c" for P c nm
    using find_mem [OF that] by (blast intro: by_name)
  let ?nm = "x_referenceName ref"
  let ?last = "last (split_by (\<lambda>c. c \<in> {CHR '':'', CHR ''.''}) ?nm)"
  let ?rest = "if ?last = '''' then None
    else (case find (\<lambda>c. ends_with (n_qualifiedName c) ?nm) (cx_nodesByName ctx ?last) of
        Some c \<Rightarrow> Some (resolved ref c (85 / 100) By_qualified_name) | None \<Rightarrow> None)"
  have rest: "match_ok ids ref ?rest"
    by (auto intro!: match_ok_resolved dest: n split: option.split)
  show ?thesis
  proof (cases "\<exists>c. cx_nodesByQualifiedName ctx ?nm = [c]")
    case True
    then obtain c where c: "cx_nodesByQualifiedName ctx ?nm = [c]" ..
    show ?thesis
      unfolding matchByQualifiedName_def Let_def c using q [OF c] by (simp add: match_ok_resolved)
  next
    case False
    then have "matchByQualifiedName ref ctx = None \<or> matchByQualifiedName ref ctx = ?rest"
      unfolding matchByQualifiedName_def Let_def
      by (simp del: split_by.simps split: list.split)
    then show ?thesis
    proof
      assume eq: "matchByQualifiedName ref ctx = None"
      show ?thesis
        unfolding eq by (rule match_ok_None)
    next
      assume eq: "matchByQualifiedName ref ctx = ?rest"
      show ?thesis
        unfolding eq by (rule rest)
    qed
  qed
qed

lemma matchFuzzy_ok: "match_ok ids ref (matchFuzzy ref ctx)"
proof -
  define callable where "callable = applyLanguageGate
    (filter (\<lambda>n. n_kind n \<in> {NK_function, NK_method, NK_class}) (cx_nodesByLowerName ctx (to_lower (x_referenceName ref)))) ref"
  define final where "final = (if filter (\<lambda>n. n_language n = x_language ref) callable \<noteq> []
    then filter (\<lambda>n. n_language n = x_language ref) callable else callable)"
  have "set final \<subseteq> set callable"
    by (auto simp: final_def)
  moreover have "n_id n \<in> ids" if "n \<in> set callable" for n
    using that applyLanguageGate_subset by_lower unfolding callable_def by (metis filter_is_subset subsetD)
  ultimately have mem: "n_id n \<in> ids" if "n \<in> set final" for n
    using that by blast
  have "matchFuzzy ref ctx = (case final of
      [c] \<Rightarrow> Some (resolved ref c (if n_language c \<noteq> x_language ref then 3 / 10 else 5 / 10) By_fuzzy) | _ \<Rightarrow> None)"
    unfolding matchFuzzy_def Let_def final_def callable_def ..
  then show ?thesis
    using mem by (auto intro!: match_ok_resolved split: list.split)
qed

lemma method_walk_ok:
  "3 / 10 \<le> c \<Longrightarrow> c \<le> 95 / 100 \<Longrightarrow> match_ok ids ref (method_walk k m ref ctx c how fqn t)"
proof (induction k arbitrary: t)
  case 0
  have "n_id (fqn_choice ref fqn (method_matches t m ref ctx)) \<in> ids" if "method_matches t m ref ctx \<noteq> []"
    using fqn_choice_mem [OF that, of ref fqn] by_name unfolding method_matches_def Let_def by auto
  then show ?case
    using 0 by (auto intro!: match_ok_resolved split: list.split)
next
  case (Suc k)
  have "n_id (fqn_choice ref fqn (method_matches t m ref ctx)) \<in> ids" if "method_matches t m ref ctx \<noteq> []"
    using fqn_choice_mem [OF that, of ref fqn] by_name unfolding method_matches_def Let_def by auto
  then show ?case
    using Suc by (auto intro!: match_ok_resolved match_ok_first_some split: list.split)
qed

lemma resolveMethodOnType_ok:
  "3 / 10 \<le> c \<Longrightarrow> c \<le> 95 / 100 \<Longrightarrow> match_ok ids ref (resolveMethodOnType t m ref ctx c how fqn)"
  unfolding resolveMethodOnType_def by (rule method_walk_ok)

lemma matchCppCallChain_ok: "match_ok ids ref (matchCppCallChain ref ctx)"
  unfolding matchCppCallChain_def
  by (auto intro!: resolveMethodOnType_ok split: option.split)

lemma matchScopedCallChain_ok: "match_ok ids ref (matchScopedCallChain ref ctx)"
  unfolding matchScopedCallChain_def
  by (auto intro!: resolveMethodOnType_ok split: option.split)

text \<open>The synthetic reference of the bare fallback does not escape.\<close>

lemma bare_method_match_ok: "match_ok ids ref (bare_method_match m ref ctx)"
  using lookup_laws.matchByExactName_ok [OF lookup_laws_axioms, of "ref\<lparr>x_referenceName := m\<rparr>"]
    lookup_laws.matchFuzzy_ok [OF lookup_laws_axioms, of "ref\<lparr>x_referenceName := m\<rparr>"]
  unfolding bare_method_match_def Let_def match_ok_def by (auto split: option.splits)

lemma matchDottedCallChain_ok: "match_ok ids ref (matchDottedCallChain ref ctx)"
  unfolding matchDottedCallChain_def Let_def
  by (auto intro!: resolveMethodOnType_ok bare_method_match_ok split: option.split nat.split)

lemma class_method_ok:
  assumes "3 / 10 \<le> c" and "c \<le> 95 / 100"
  shows "match_ok ids ref (class_method cls m c how ref ctx)"
proof -
  have "n_id n \<in> ids" if "find P (cx_nodesInFile ctx f) = Some n" for P f n
    using find_mem [OF that] by (blast intro: in_file)
  then show ?thesis
    unfolding class_method_def using assms
    by (intro match_ok_first_some) (auto intro!: match_ok_resolved split: option.split simp: map_option_case)
qed

lemma method_by_name_ok: "match_ok ids ref (method_by_name r m ref ctx)"
proof -
  define methods where "methods = filter (\<lambda>n. n_kind n = NK_method \<and> n_name n = m) (cx_nodesByName ctx m)"
  define same where "same = filter (\<lambda>n. n_language n = x_language ref) methods"
  define target where "target = (if same \<noteq> [] then same else methods)"
  have mem: "n_id n \<in> ids" if "n \<in> set target" for n
    using that unfolding target_def same_def methods_def by (auto intro: by_name split: if_splits)
  have single: "n_id (hd target) \<in> ids" if "length target = 1"
    using that by (intro mem hd_in_set) auto
  have best: "n_id n \<in> ids" if "best_by s target (Some 0) None = Some n" for s n
    using best_by_mem [OF that] by (auto intro: mem)
  have "method_by_name r m ref ctx =
      (if length target = 1 \<and> n_language (hd target) = x_language ref
       then Some (resolved ref (hd target) (70 / 100) By_instance_method)
       else if 1 < length target
       then (case best_by (overlap_score ref r) target (Some 0) None of
               Some bestMatch \<Rightarrow>
                 if 2 \<le> overlap_score ref r bestMatch
                 then Some (resolved ref bestMatch (65 / 100) By_instance_method) else None
             | None \<Rightarrow> None)
       else None)"
    unfolding method_by_name_def Let_def target_def same_def methods_def ..
  then show ?thesis
    using single best by (auto intro!: match_ok_resolved split: option.split)
qed

lemma typed_receiver_ok: "match_ok ids ref (typed_receiver inferred m ref ctx f)"
  unfolding typed_receiver_def by (auto intro!: resolveMethodOnType_ok split: option.split)

lemma matchMethodCall_ok: "match_ok ids ref (matchMethodCall ref ctx)"
proof (cases "or_else (dot_call (x_referenceName ref)) (colon_call (x_referenceName ref))")
  case None
  then show ?thesis
    unfolding matchMethodCall_def Let_def by simp
next
  case (Some p)
  show ?thesis
    unfolding matchMethodCall_def Let_def Some option.case
    by (cases p) (simp only: prod.case, intro match_ok_or_else match_ok_if typed_receiver_ok class_method_ok method_by_name_ok; simp)
qed

lemma matchReference_ok: "match_ok ids ref (matchReference ref ctx)"
  unfolding matchReference_def
  by (intro match_ok_or_else match_ok_if matchByFilePath_ok matchByQualifiedName_ok matchCppCallChain_ok
      matchScopedCallChain_ok matchDottedCallChain_ok matchMethodCall_ok matchByExactName_ok matchFuzzy_ok)

end

end
