(* ===== verification/ImportMappings.thy ===== *)
theory ImportMappings
  imports ResolutionTypes Captures
begin

text \<open>
  \<open>resolution/import-resolver.ts\<close>, first part: the import mappings of a file
  (\<open>extractImportMappings\<close> and its language branches), the re-exports of a module
  (\<open>extractReExports\<close>) behind the comment stripper, and the command-line splitter of compilation
  databases.
\<close>

section \<open>Patterns\<close>

abbreviation quote_re :: re where
  "quote_re \<equiv> Cls (\<lambda>c. c = CHR 0x27 \<or> c = CHR 0x22)"

abbreviation unquoted_re :: re where
  "unquoted_re \<equiv> re_plus (Cls (\<lambda>c. c \<noteq> CHR 0x27 \<and> c \<noteq> CHR 0x22))"

text \<open>\<open>['"]([^'"]+)['"]\<close>, with the number of the group.\<close>

definition quoted :: "nat \<Rightarrow> pat" where
  "quoted n = pseq [Re quote_re, Grp n (Re unquoted_re), Re quote_re]"

definition braced :: "nat \<Rightarrow> pat" where
  "braced n = pseq [Re (re_chr CHR ''{''), Grp n (Re (re_plus (Cls (\<lambda>c. c \<noteq> CHR ''}'')))), Re (re_chr CHR ''}'')]"

definition as_pat :: pat where
  "as_pat = pseq [Grp 1 (Re word), Re spaces1, Re (re_str ''as''), Re spaces1, Grp 2 (Re word)]"

text \<open>The text of a group of a match, which is empty when the group took no part.\<close>

definition grp :: "(nat \<Rightarrow> string option) \<Rightarrow> nat \<Rightarrow> string" where
  "grp g n = (case g n of Some t \<Rightarrow> t | None \<Rightarrow> '''')"

definition comma_list :: "string \<Rightarrow> string list" where
  "comma_list s = map trim (split_by (\<lambda>c. c = CHR '','') s)"

definition binding :: "string \<Rightarrow> string \<Rightarrow> string \<Rightarrow> import_mapping" where
  "binding local exported source =
     \<lparr>im_localName = local, im_exportedName = exported, im_source = source, im_isDefault = False, im_isNamespace = False\<rparr>"

definition default_import :: "string \<Rightarrow> string \<Rightarrow> import_mapping" where
  "default_import local source = (binding local ''default'' source)\<lparr>im_isDefault := True\<rparr>"

definition namespace_import :: "string \<Rightarrow> string \<Rightarrow> import_mapping" where
  "namespace_import local source = (binding local ''*'' source)\<lparr>im_isNamespace := True\<rparr>"

text \<open>One name of a list: an alias under the pattern, or the name itself unless it is left out.\<close>

definition name_entry :: "pat \<Rightarrow> (string \<Rightarrow> bool) \<Rightarrow> string \<Rightarrow> string \<Rightarrow> import_mapping list" where
  "name_entry alias_pat keep source name =
     (case cap_match alias_pat name of
        Some g \<Rightarrow> [binding (grp g 2) (grp g 1) source]
      | None \<Rightarrow> if name \<noteq> '''' \<and> keep name then [binding name name source] else [])"

section \<open>JavaScript and TypeScript\<close>

definition es6_import_pat :: pat where
  "es6_import_pat = pseq
     [Re (re_str ''import''), Re spaces1,
      popt (pseq [Grp 1 (Re word), Re spaces, Re (re_opt (re_chr CHR '','')), Re spaces]),
      popt (braced 2), Re spaces,
      popt (pseq [Grp 3 (Re (re_chr CHR ''*'')), Re spaces1, Re (re_str ''as''), Re spaces1, Grp 4 (Re word)]),
      Re spaces, Re (re_str ''from''), Re spaces, quoted 5]"

definition es6_import :: "(nat \<Rightarrow> string option) \<Rightarrow> import_mapping list" where
  "es6_import g =
     (let source = grp g 5 in
      (if grp g 1 \<noteq> '''' then [default_import (grp g 1) source] else [])
      @ (if grp g 2 \<noteq> '''' then concat (map (name_entry as_pat (\<lambda>_. True) source) (comma_list (grp g 2))) else [])
      @ (if grp g 3 \<noteq> '''' \<and> grp g 4 \<noteq> '''' then [namespace_import (grp g 4) source] else []))"

definition require_pat :: pat where
  "require_pat = pseq
     [Re (re_alt [re_str ''const'', re_str ''let'', re_str ''var'']), Re spaces1,
      PAlt (Grp 1 (Re word)) (braced 2),
      Re spaces, Re (re_chr CHR ''=''), Re spaces, Re (re_str ''require(''), quoted 3, Re (re_chr CHR '')'')]"

definition colon_pat :: pat where
  "colon_pat = pseq [Grp 1 (Re word), Re spaces, Re (re_chr CHR '':''), Re spaces, Grp 2 (Re word)]"

definition require_import :: "(nat \<Rightarrow> string option) \<Rightarrow> import_mapping list" where
  "require_import g =
     (let source = grp g 3 in
      (if grp g 1 \<noteq> '''' then [default_import (grp g 1) source] else [])
      @ (if grp g 2 \<noteq> '''' then concat (map (name_entry colon_pat (\<lambda>_. True) source) (comma_list (grp g 2))) else []))"

definition extractJSImports :: "string \<Rightarrow> import_mapping list" where
  "extractJSImports content =
     concat (map es6_import (cap_all es6_import_pat content 0))
     @ concat (map require_import (cap_all require_pat content 0))"

section \<open>Python\<close>

abbreviation dotted_re :: re where
  "dotted_re \<equiv> re_plus (Cls (\<lambda>c. is_word c \<or> c = CHR ''.''))"

definition from_import_pat :: pat where
  "from_import_pat = pseq
     [Re (re_str ''from''), Re spaces1, Grp 1 (Re dotted_re), Re spaces1, Re (re_str ''import''), Re spaces1,
      Grp 2 (Re (re_plus (Cls (\<lambda>c. c \<noteq> CHR ''#'' \<and> c \<noteq> newline))))]"

definition python_import_pat :: pat where
  "python_import_pat = pseq
     [Re Mbol, Re (re_str ''import''), Re spaces1, Grp 1 (Re dotted_re),
      popt (pseq [Re spaces1, Re (re_str ''as''), Re spaces1, Grp 2 (Re word)])]"

definition extractPythonImports :: "string \<Rightarrow> import_mapping list" where
  "extractPythonImports content =
     concat (map (\<lambda>g. concat (map (name_entry as_pat (\<lambda>name. name \<noteq> ''*'') (grp g 1)) (comma_list (grp g 2))))
       (cap_all from_import_pat content 0))
     @ map (\<lambda>g. namespace_import
           (if grp g 2 \<noteq> '''' then grp g 2 else last (split_by (\<lambda>c. c = CHR ''.'') (grp g 1))) (grp g 1))
         (cap_all python_import_pat content 0)"

section \<open>Go\<close>

definition go_line_pat :: pat where
  "go_line_pat = pseq [popt (pseq [Grp 1 (Re word), Re spaces1]), quoted 2]"

definition go_single_pat :: pat where
  "go_single_pat = pseq [Re (re_str ''import''), Re spaces1, go_line_pat]"

definition go_block_pat :: pat where
  "go_block_pat = pseq
     [Re (re_str ''import''), Re spaces, Re (re_chr CHR ''(''), Re spaces,
      Grp 1 (Re (re_plus (Cls (\<lambda>c. c \<noteq> CHR '')'')))), Re spaces, Re (re_chr CHR '')'')]"

definition go_import :: "(nat \<Rightarrow> string option) \<Rightarrow> import_mapping" where
  "go_import g =
     namespace_import
       (if grp g 1 \<noteq> '''' then grp g 1 else last (split_by (\<lambda>c. c = CHR ''/'') (grp g 2))) (grp g 2)"

definition extractGoImports :: "string \<Rightarrow> import_mapping list" where
  "extractGoImports content =
     map go_import (cap_all go_single_pat content 0)
     @ concat (map (\<lambda>g. map go_import (cap_all go_line_pat (grp g 1) 0)) (cap_all go_block_pat content 0))"

section \<open>Java and Kotlin\<close>

text \<open>
  \<open>replace(/\/\*[\s\S]*?\*\//g, '')\<close>: from a mark to the nearest closing mark; a mark that is never
  closed stays, and so does what follows it.
\<close>

function drop_blocks :: "string \<Rightarrow> string" where
  "drop_blocks s =
     (case index_of s ''/*'' of
        None \<Rightarrow> s
      | Some i \<Rightarrow>
          (case index_of (drop (i + 2) s) ''*/'' of
             None \<Rightarrow> s
           | Some j \<Rightarrow> take i s @ (if s = [] then [] else drop_blocks (drop (i + 2 + j + 2) s))))"
  by pat_completeness auto
termination
  by (relation "measure length") auto

declare drop_blocks.simps [simp del]

definition line_comment_re :: re where
  "line_comment_re = Seq (re_str ''//'') (Star (Cls (\<lambda>c. c \<noteq> newline)))"

definition java_import_pat :: pat where
  "java_import_pat = pseq
     [Re Mbol, Re spaces, Re (re_str ''import''), Re spaces1,
      popt (Grp 1 (Re (Seq (re_str ''static'') spaces1))),
      Grp 2 (Re (Seq dotted_re (re_opt (re_str ''.*'')))), Re spaces, Re (re_chr CHR '';'')]"

definition java_import :: "(nat \<Rightarrow> string option) \<Rightarrow> import_mapping list" where
  "java_import g =
     (let fqn = grp g 2 in
      if ends_with fqn ''.*'' then []
      else (let localName = last (split_by (\<lambda>c. c = CHR ''.'') fqn) in
        if localName = '''' then [] else [binding localName localName fqn]))"

definition extractJavaImports :: "string \<Rightarrow> import_mapping list" where
  "extractJavaImports content =
     concat (map java_import
       (cap_all java_import_pat (re_replace line_comment_re '''' (drop_blocks content) 0) 0))"

section \<open>PHP, C and C++\<close>

definition php_use_pat :: pat where
  "php_use_pat = pseq
     [Re (re_str ''use''), Re spaces1, Grp 1 (Re (re_plus (Cls (\<lambda>c. is_word c \<or> c = CHR 0x5C)))),
      popt (pseq [Re spaces1, Re (re_str ''as''), Re spaces1, Grp 2 (Re word)]), Re (re_chr CHR '';'')]"

definition php_use :: "(nat \<Rightarrow> string option) \<Rightarrow> import_mapping" where
  "php_use g =
     (let className = last (split_by (\<lambda>c. c = CHR 0x5C) (grp g 1)) in
      binding (if grp g 2 \<noteq> '''' then grp g 2 else className) className (grp g 1))"

definition extractPHPImports :: "string \<Rightarrow> import_mapping list" where
  "extractPHPImports content = map php_use (cap_all php_use_pat content 0)"

definition include_pat :: pat where
  "include_pat = pseq
     [Re Mbol, Re spaces, Re (re_chr CHR ''#''), Re spaces, Re (re_str ''include''), Re spaces1,
      Re (re_any ''<\"''), Grp 1 (Re (re_plus (Cls (\<lambda>c. c \<notin> set ''>\"'')))), Re (re_any ''>\"'')]"

definition header_ext_re :: re where
  "header_ext_re = re_seq
     [re_chr CHR ''.'',
      re_alt (map re_str [''h'', ''hpp'', ''hxx'', ''hh'', ''inl'', ''ipp'', ''cxx'', ''cc'', ''cpp'']), Eol]"

text \<open>\<open>s.replace(r, '')\<close> without the global flag.\<close>

definition re_delete :: "re \<Rightarrow> string \<Rightarrow> string" where
  "re_delete r s = (case re_exec r s 0 of Some (i, j) \<Rightarrow> take i s @ drop j s | None \<Rightarrow> s)"

definition cpp_include :: "(nat \<Rightarrow> string option) \<Rightarrow> import_mapping" where
  "cpp_include g =
     (let modulePath = grp g 1;
          basename = re_delete header_ext_re (last (split_by (\<lambda>c. c = CHR ''/'') modulePath))
      in namespace_import (if basename \<noteq> '''' then basename else modulePath) modulePath)"

definition extractCppImports :: "string \<Rightarrow> import_mapping list" where
  "extractCppImports content = map cpp_include (cap_all include_pat content 0)"

definition extractImportMappings :: "string \<Rightarrow> string \<Rightarrow> language \<Rightarrow> import_mapping list" where
  "extractImportMappings filePath content language =
     (if language \<in> {L_typescript, L_javascript, L_tsx, L_jsx} then extractJSImports content
      else if language \<in> {L_svelte, L_vue} then extractJSImports content
      else if language = L_python then extractPythonImports content
      else if language = L_go then extractGoImports content
      else if language \<in> {L_java, L_kotlin} then extractJavaImports content
      else if language = L_php then extractPHPImports content
      else if language \<in> {L_c, L_cpp} then extractCppImports content
      else [])"

section \<open>Re-exports\<close>

text \<open>\<open>stripJsComments\<close>; the first argument is the quote of the string literal the scanner is in.\<close>

fun skip_comment :: "string \<Rightarrow> string" where
  "skip_comment [] = []"
| "skip_comment (c # s) = (if c = CHR ''*'' \<and> starts_with s ''/'' then tl s else skip_comment s)"

lemma length_skip_comment: "length (skip_comment s) \<le> length s"
  by (induction s) auto

function strip_js :: "char option \<Rightarrow> string \<Rightarrow> string" where
  "strip_js q [] = []"
| "strip_js (Some q) (c # s) =
     (if c = CHR 0x5C \<and> s \<noteq> [] then c # hd s # strip_js (Some q) (tl s)
      else c # strip_js (if c = q then None else Some q) s)"
| "strip_js None (c # s) =
     (if c \<in> {CHR 0x22, CHR 0x27, CHR 0x60} then c # strip_js (Some c) s
      else if c = CHR ''/'' \<and> starts_with s ''/'' then strip_js None (dropWhile (\<lambda>d. d \<noteq> newline) s)
      else if c = CHR ''/'' \<and> starts_with s ''*'' then strip_js None (skip_comment (tl s))
      else c # strip_js None s)"
  by pat_completeness auto
termination
proof (relation "measure (\<lambda>(q, s). length s)", goal_cases)
  case (6 c s)
  then show ?case
    using length_skip_comment [of "tl s"] by simp
qed (auto simp: length_dropWhile_le le_imp_less_Suc)

definition stripJsComments :: "string \<Rightarrow> string" where
  "stripJsComments content = strip_js None content"

definition wildcard_pat :: pat where
  "wildcard_pat = pseq
     [Re (re_str ''export''), Re spaces, Re (re_chr CHR ''*''),
      Re (re_opt (re_seq [spaces1, re_str ''as'', spaces1, word])),
      Re spaces, Re (re_str ''from''), Re spaces, quoted 1]"

definition named_pat :: pat where
  "named_pat = pseq
     [Re (re_str ''export''), Re spaces, braced 1, Re spaces, Re (re_str ''from''), Re spaces, quoted 2]"

definition export_item :: "string \<Rightarrow> string \<Rightarrow> re_export list" where
  "export_item source raw =
     (let item = trim raw in
      if item = '''' then []
      else (case cap_match (pseq [Re Bol, as_pat, Re Eol]) item of
              Some g \<Rightarrow> [Named (grp g 2) (grp g 1) source]
            | None \<Rightarrow> if re_test (re_seq [Bol, word, Eol]) item then [Named item item source] else []))"

definition extractReExports :: "string \<Rightarrow> language \<Rightarrow> re_export list" where
  "extractReExports content language =
     (if language \<notin> {L_typescript, L_javascript, L_tsx, L_jsx} then []
      else (let cleaned = stripJsComments content in
        map (\<lambda>g. Wildcard (grp g 1)) (cap_all wildcard_pat cleaned 0)
        @ concat (map (\<lambda>g. concat (map (export_item (grp g 2)) (split_by (\<lambda>c. c = CHR '','') (grp g 1))))
            (cap_all named_pat cleaned 0))))"

section \<open>Laws\<close>

text \<open>Stripping comments leaves nothing to strip: no comment mark arises from what is left.\<close>

lemma strip_js_head:
  "strip_js None s = d # r \<Longrightarrow> s \<noteq> [] \<Longrightarrow> hd s \<noteq> CHR ''/'' \<Longrightarrow> d = hd s"
  by (cases s) (auto split: if_splits)

lemma strip_js_idem: "strip_js q (strip_js q s) = strip_js q s"
proof (induction q s rule: strip_js.induct)
  case (2 q c s)
  show ?case
  proof (cases "c = CHR 0x5C \<and> s \<noteq> []")
    case True
    then show ?thesis
      using "2.IH"(1) by simp
  next
    case False
    then have eq: "strip_js (Some q) (c # s) = c # strip_js (if c = q then None else Some q) s"
      by auto
    show ?thesis
    proof (cases "c = CHR 0x5C")
      case True
      then show ?thesis
        using False by simp
    next
      case False
      then show ?thesis
        using "2.IH"(2) eq by auto
    qed
  qed
next
  case (3 c s)
  consider (str) "c \<in> {CHR 0x22, CHR 0x27, CHR 0x60}"
    | (line) "c = CHR ''/''" "starts_with s ''/''"
    | (block) "c = CHR ''/''" "starts_with s ''*''"
    | (other) "c \<notin> {CHR 0x22, CHR 0x27, CHR 0x60}" "\<not> (c = CHR ''/'' \<and> starts_with s ''/'')"
        "\<not> (c = CHR ''/'' \<and> starts_with s ''*'')"
    by blast
  then show ?case
  proof cases
    case str
    then show ?thesis
      using "3.IH"(1) by simp
  next
    case line
    then show ?thesis
      using "3.IH"(2) by simp
  next
    case block
    then have "\<not> starts_with s ''/''"
      by (cases s) auto
    then show ?thesis
      using "3.IH"(3) block by simp
  next
    case other
    then have eq: "strip_js None (c # s) = c # strip_js None s"
      by auto
    have "\<not> starts_with (strip_js None s) ''/'' \<and> \<not> starts_with (strip_js None s) ''*''" if "c = CHR ''/''"
    proof (cases s)
      case (Cons d t)
      then have d: "d \<noteq> CHR ''/''" "d \<noteq> CHR ''*''"
        using other that by auto
      show ?thesis
      proof (cases "strip_js None s")
        case (Cons e r)
        then show ?thesis
          using strip_js_head [of s e r] \<open>s = d # t\<close> d by simp
      qed simp
    qed simp
    then show ?thesis
      using "3.IH"(4) other eq by auto
  qed
qed simp

lemma stripJsComments_idem: "stripJsComments (stripJsComments content) = stripJsComments content"
  by (simp add: stripJsComments_def strip_js_idem)

text \<open>Deleting comments adds no character.\<close>

lemma set_drop_blocks: "set (drop_blocks s) \<subseteq> set s"
proof (induction s rule: drop_blocks.induct)
  case (1 s)
  show ?case
  proof (cases "index_of s ''/*''")
    case (Some i)
    then show ?thesis
      using "1.IH" [OF Some]
      by (subst drop_blocks.simps) (auto split: option.split dest: in_set_takeD in_set_dropD)
  qed (simp add: drop_blocks.simps [of s])
qed

lemma set_slice: "set (slice i j s) \<subseteq> set s"
  unfolding slice_def by (auto dest: in_set_takeD in_set_dropD)

lemma set_re_replace: "set (re_replace r t s from) \<subseteq> set t \<union> set s"
proof (induction r t s "from" rule: re_replace.induct)
  case (1 r t s "from")
  show ?case
  proof (cases "re_exec r s from")
    case (Some p)
    obtain i j where p: "p = (i, j)"
      by (cases p)
    show ?thesis
      using "1.IH" [OF Some p [symmetric]] set_slice [of "from" i s] Some p
      by (subst re_replace.simps) (auto dest: in_set_dropD)
  qed (auto simp: re_replace.simps [of r _ s "from"] dest: in_set_dropD)
qed

text \<open>A pattern that needs a character finds nothing in a text without it.\<close>

lemma cap_all_none:
  assumes "\<And>i j. i \<le> length s \<Longrightarrow> \<not> re_lang (forget p) s i j"
  shows "cap_all p s from = []"
proof -
  have "cap_ends p s i = []" if "i \<le> length s" for i
    using assms [OF that] cap_ends_forget [of p s i] re_ends_lang [OF that, of "forget p"] by auto
  then have "list_all (\<lambda>i. (case cap_ends p s i of [] \<Rightarrow> None | (j, g) # _ \<Rightarrow> Some (i, j, g)) = None) [from..<Suc (length s)]"
    by (auto simp: list_all_iff)
  then have "cap_exec p s from = None"
    unfolding cap_exec_def first_some_None_iff .
  then show ?thesis
    by (simp add: cap_all.simps [of p s "from"])
qed

lemma java_import_semicolon: "re_lang (forget java_import_pat) s i j \<Longrightarrow> CHR '';'' \<in> set s"
  by (auto simp: java_import_pat_def) (metis nth_mem)+

text \<open>
  Kotlin import lists have no semicolons, which the shared pattern demands: such a file has no import
  mappings at all.
\<close>

lemma kotlin_imports_missed:
  assumes "CHR '';'' \<notin> set content"
  shows "extractImportMappings path content L_kotlin = []"
proof -
  have "CHR '';'' \<notin> set (re_replace line_comment_re '''' (drop_blocks content) 0)"
    using assms set_re_replace [of line_comment_re "''''" "drop_blocks content" 0] set_drop_blocks [of content] by auto
  then have "cap_all java_import_pat (re_replace line_comment_re '''' (drop_blocks content) 0) 0 = []"
    using java_import_semicolon by (intro cap_all_none) blast
  then show ?thesis
    by (simp add: extractImportMappings_def extractJavaImports_def)
qed

text \<open>
  Two concrete shapes that the patterns do not read: a parenthesised Python import keeps the
  parentheses in the bound names, and an include without a space is not seen.
\<close>

lemma python_parenthesised:
  "map im_localName (extractImportMappings path ''from m import (a, b)'' L_python) = [''(a'', ''b)'']"
  by code_simp

lemma include_unspaced: "extractImportMappings path ''#include<a.h>'' L_c = []"
  by code_simp

end
