(* ===== verification/ImportResolver.thy ===== *)
theory ImportResolver
  imports NameMatcher ImportMappings Paths
begin

text \<open>
  \<open>resolution/import-resolver.ts\<close>, second part: import paths to files (\<open>resolveImportPath\<close> with
  aliases, workspace packages and include directories), exported symbols behind re-export chains
  (\<open>findExportedSymbol\<close>), and the strategy \<open>resolveViaImport\<close> with its language branches; with
  \<open>applyAliases\<close> of \<open>path-aliases.ts\<close> and \<open>resolveWorkspaceImport\<close> of \<open>workspace-packages.ts\<close>.
\<close>

section \<open>Aliases and workspace packages\<close>

text \<open>
  The replacement text of \<open>s.replace(mark, text)\<close>: a dollar sign followed by a dollar sign, an
  ampersand, a backtick or a quote is a pattern; \<open>pre\<close>, \<open>hit\<close> and \<open>post\<close> are the parts of \<open>s\<close>.
\<close>

fun expand_dollars :: "string \<Rightarrow> string \<Rightarrow> string \<Rightarrow> string \<Rightarrow> string" where
  "expand_dollars pre hit post (c # d # t) =
     (if c = CHR ''$'' \<and> d = CHR ''$'' then CHR ''$'' # expand_dollars pre hit post t
      else if c = CHR ''$'' \<and> d = CHR ''&'' then hit @ expand_dollars pre hit post t
      else if c = CHR ''$'' \<and> d = CHR 0x60 then pre @ expand_dollars pre hit post t
      else if c = CHR ''$'' \<and> d = CHR 0x27 then post @ expand_dollars pre hit post t
      else c # expand_dollars pre hit post (d # t))"
| "expand_dollars pre hit post t = t"

definition replace_first :: "string \<Rightarrow> string \<Rightarrow> string \<Rightarrow> string" where
  "replace_first s mark t =
     (case index_of s mark of
        Some i \<Rightarrow>
          (let pre = take i s; post = drop (i + length mark) s
           in pre @ expand_dollars pre mark post t @ post)
      | None \<Rightarrow> s)"

definition alias_matches :: "string \<Rightarrow> alias_pattern \<Rightarrow> bool" where
  "alias_matches importPath pat \<longleftrightarrow>
     starts_with importPath (ap_prefix pat)
     \<and> (ap_suffix pat = '''' \<or> ends_with importPath (ap_suffix pat))
     \<and> (ap_hasWildcard pat \<or> importPath = ap_prefix pat)"

definition alias_target :: "string \<Rightarrow> string \<Rightarrow> string \<Rightarrow> alias_pattern \<Rightarrow> string \<Rightarrow> string list" where
  "alias_target importPath baseUrl projectRoot pat target =
     (let captured = slice (length (ap_prefix pat)) (length importPath - length (ap_suffix pat)) importPath;
          filled = (if ap_hasWildcard pat then replace_first target ''*'' captured else target);
          relative = path_relative projectRoot (path_resolve baseUrl filled)
      in if starts_with relative ''..'' then [] else [slash_path relative])"

definition applyAliases :: "string \<Rightarrow> alias_map \<Rightarrow> string \<Rightarrow> string list" where
  "applyAliases importPath aliases projectRoot =
     (case find (alias_matches importPath) (am_patterns aliases) of
        None \<Rightarrow> []
      | Some pat \<Rightarrow>
          concat (map (alias_target importPath (am_baseUrl aliases) projectRoot pat) (ap_replacements pat)))"

definition package_matches :: "string \<Rightarrow> string \<Rightarrow> bool" where
  "package_matches importPath name \<longleftrightarrow> importPath = name \<or> starts_with importPath (name @ ''/'')"

fun longest_package :: "string \<Rightarrow> string list \<Rightarrow> string \<Rightarrow> string" where
  "longest_package importPath [] best = best"
| "longest_package importPath (name # names) best =
     longest_package importPath names
       (if package_matches importPath name \<and> (best = '''' \<or> length best < length name) then name else best)"

fun squeeze_slashes :: "string \<Rightarrow> string" where
  "squeeze_slashes (a # b # s) =
     (if a = CHR ''/'' \<and> b = CHR ''/'' then squeeze_slashes (b # s) else a # squeeze_slashes (b # s))"
| "squeeze_slashes s = s"

definition resolveWorkspaceImport :: "string \<Rightarrow> workspace_packages \<Rightarrow> string option" where
  "resolveWorkspaceImport importPath ws =
     (let best = longest_package importPath (map_keys ws) '''' in
      if best = '''' then None
      else (case map_get ws best of
              Some dir \<Rightarrow> Some (squeeze_slashes (dir @ drop (length best) importPath))
            | None \<Rightarrow> None))"

section \<open>External imports\<close>

fun EXTENSION_RESOLUTION :: "language \<Rightarrow> string list" where
  "EXTENSION_RESOLUTION L_typescript =
     [''.ts'', ''.tsx'', ''.d.ts'', ''.js'', ''.jsx'', ''/index.ts'', ''/index.tsx'', ''/index.js'']"
| "EXTENSION_RESOLUTION L_javascript = [''.js'', ''.jsx'', ''.mjs'', ''.cjs'', ''/index.js'', ''/index.jsx'']"
| "EXTENSION_RESOLUTION L_tsx =
     [''.tsx'', ''.ts'', ''.d.ts'', ''.js'', ''.jsx'', ''/index.tsx'', ''/index.ts'', ''/index.js'']"
| "EXTENSION_RESOLUTION L_jsx = [''.jsx'', ''.js'', ''/index.jsx'', ''/index.js'']"
| "EXTENSION_RESOLUTION L_svelte =
     [''.ts'', ''.js'', ''.svelte'', ''.tsx'', ''.jsx'', ''/index.ts'', ''/index.js'', ''/index.svelte'']"
| "EXTENSION_RESOLUTION L_vue =
     [''.ts'', ''.js'', ''.vue'', ''.tsx'', ''.jsx'', ''/index.ts'', ''/index.js'', ''/index.vue'']"
| "EXTENSION_RESOLUTION L_python = [''.py'', ''/__init__.py'']"
| "EXTENSION_RESOLUTION L_go = [''.go'']"
| "EXTENSION_RESOLUTION L_rust = [''.rs'', ''/mod.rs'']"
| "EXTENSION_RESOLUTION L_java = [''.java'']"
| "EXTENSION_RESOLUTION L_c = [''.h'', ''.c'']"
| "EXTENSION_RESOLUTION L_cpp = [''.h'', ''.hpp'', ''.hxx'', ''.cpp'', ''.cc'', ''.cxx'']"
| "EXTENSION_RESOLUTION L_csharp = [''.cs'']"
| "EXTENSION_RESOLUTION L_php = [''.php'']"
| "EXTENSION_RESOLUTION L_ruby = [''.rb'']"
| "EXTENSION_RESOLUTION L_objc = [''.h'', ''.m'', ''.mm'']"
| "EXTENSION_RESOLUTION _ = []"

definition C_CPP_STDLIB_HEADERS :: "string list" where
  "C_CPP_STDLIB_HEADERS =
     [''assert.h'', ''complex.h'', ''ctype.h'', ''errno.h'', ''fenv.h'', ''float.h'',
      ''inttypes.h'', ''iso646.h'', ''limits.h'', ''locale.h'', ''math.h'', ''setjmp.h'',
      ''signal.h'', ''stdalign.h'', ''stdarg.h'', ''stdatomic.h'', ''stdbool.h'',
      ''stddef.h'', ''stdint.h'', ''stdio.h'', ''stdlib.h'', ''stdnoreturn.h'',
      ''string.h'', ''tgmath.h'', ''threads.h'', ''time.h'', ''uchar.h'', ''wchar.h'', ''wctype.h'',
      ''cassert'', ''ccomplex'', ''cctype'', ''cerrno'', ''cfenv'', ''cfloat'',
      ''cinttypes'', ''ciso646'', ''climits'', ''clocale'', ''cmath'', ''csetjmp'',
      ''csignal'', ''cstdalign'', ''cstdarg'', ''cstdbool'', ''cstddef'', ''cstdint'',
      ''cstdio'', ''cstdlib'', ''cstring'', ''ctgmath'', ''ctime'', ''cuchar'', ''cwchar'', ''cwctype'',
      ''algorithm'', ''any'', ''array'', ''atomic'', ''barrier'', ''bit'', ''bitset'',
      ''charconv'', ''chrono'', ''codecvt'', ''compare'', ''complex'', ''concepts'',
      ''condition_variable'', ''coroutine'', ''deque'', ''exception'', ''execution'',
      ''expected'', ''filesystem'', ''format'', ''forward_list'', ''fstream'',
      ''functional'', ''future'', ''generator'', ''initializer_list'', ''iomanip'',
      ''ios'', ''iosfwd'', ''iostream'', ''istream'', ''iterator'', ''latch'',
      ''limits'', ''list'', ''locale'', ''map'', ''mdspan'', ''memory'', ''memory_resource'',
      ''mutex'', ''new'', ''numbers'', ''numeric'', ''optional'', ''ostream'', ''print'',
      ''queue'', ''random'', ''ranges'', ''ratio'', ''regex'', ''scoped_allocator'',
      ''semaphore'', ''set'', ''shared_mutex'', ''source_location'', ''span'',
      ''spanstream'', ''sstream'', ''stack'', ''stacktrace'', ''stdexcept'',
      ''stdfloat'', ''stop_token'', ''streambuf'', ''string'', ''string_view'',
      ''strstream'', ''syncstream'', ''system_error'', ''thread'', ''tuple'',
      ''type_traits'', ''typeindex'', ''typeinfo'', ''unordered_map'',
      ''unordered_set'', ''utility'', ''valarray'', ''variant'', ''vector'', ''version'']"

abbreviation js_ts :: "language set" where
  "js_ts \<equiv> {L_typescript, L_javascript, L_tsx, L_jsx}"

definition node_builtins :: "string list" where
  "node_builtins =
     [''fs'', ''path'', ''os'', ''crypto'', ''http'', ''https'', ''url'', ''util'', ''events'', ''stream'',
      ''child_process'', ''buffer'']"

definition python_stdlib :: "string list" where
  "python_stdlib =
     [''os'', ''sys'', ''json'', ''re'', ''math'', ''datetime'', ''collections'', ''typing'', ''pathlib'', ''logging'']"

definition h_ext_re :: re where
  "h_ext_re = Seq (re_str ''.h'') Eol"

definition workspace_hit :: "string \<Rightarrow> resolution_context \<Rightarrow> string option" where
  "workspace_hit importPath ctx =
     (case cx_workspacePackages ctx of
        Some ws \<Rightarrow> truthy (resolveWorkspaceImport importPath ws)
      | None \<Rightarrow> None)"

definition isExternalImport :: "string \<Rightarrow> language \<Rightarrow> resolution_context \<Rightarrow> bool" where
  "isExternalImport importPath language ctx =
     (if starts_with importPath ''.'' then False
      else if workspace_hit importPath ctx \<noteq> None then False
      else if language \<in> js_ts then
        (if importPath \<in> set node_builtins then True
         else if (case cx_projectAliases ctx of
                    Some aliases \<Rightarrow> list_ex (\<lambda>pat. starts_with importPath (ap_prefix pat)) (am_patterns aliases)
                  | None \<Rightarrow> False)
         then False
         else \<not> starts_with importPath ''@/'' \<and> \<not> starts_with importPath ''~/'' \<and> \<not> starts_with importPath ''src/'')
      else if language = L_python then hd (split_by (\<lambda>c. c = CHR ''.'') importPath) \<in> set python_stdlib
      else if language = L_go then
        (case cx_goModule ctx of
           Some m \<Rightarrow>
             if importPath = gm_modulePath m \<or> starts_with importPath (gm_modulePath m @ ''/'') then False
             else \<not> str_includes importPath ''/internal/''
         | None \<Rightarrow> \<not> str_includes importPath ''/internal/'')
      else if language \<in> {L_c, L_cpp} then
        importPath \<in> set C_CPP_STDLIB_HEADERS \<or> re_delete h_ext_re importPath \<in> set C_CPP_STDLIB_HEADERS
      else False)"

section \<open>Import paths\<close>

definition dots_to_slashes :: "string \<Rightarrow> string" where
  "dots_to_slashes s = map (\<lambda>c. if c = CHR ''.'' then CHR ''/'' else c) s"

definition root_relative :: "string \<Rightarrow> string \<Rightarrow> string" where
  "root_relative projectRoot p = slash_path (path_relative projectRoot p)"

definition with_extensions :: "language \<Rightarrow> string \<Rightarrow> string list" where
  "with_extensions language base = map (\<lambda>ext. base @ ext) (EXTENSION_RESOLUTION language)"

definition resolveRelativeImport :: "string \<Rightarrow> string \<Rightarrow> language \<Rightarrow> resolution_context \<Rightarrow> string option" where
  "resolveRelativeImport importPath fromDir language ctx =
     (if language = L_python \<and> starts_with importPath ''.'' then
        (let dots = length (takeWhile (\<lambda>c. c = CHR ''.'') importPath);
             go_up = concat (replicate (dots - 1) ''../'');
             rest = dots_to_slashes (drop dots importPath);
             pyRel = root_relative (cx_projectRoot ctx) (path_resolve fromDir (go_up @ rest))
         in case find (cx_fileExists ctx) (with_extensions language pyRel) of
              Some p \<Rightarrow> Some p
            | None \<Rightarrow> if pyRel \<noteq> '''' \<and> cx_fileExists ctx pyRel then Some pyRel else None)
      else
        (let relativePath = root_relative (cx_projectRoot ctx) (path_resolve fromDir importPath)
         in find (cx_fileExists ctx) (with_extensions language relativePath @ [relativePath])))"

definition tryWithExt :: "language \<Rightarrow> resolution_context \<Rightarrow> string \<Rightarrow> string option" where
  "tryWithExt language ctx base = find (cx_fileExists ctx) (with_extensions language base @ [base])"

definition fallbackAliases :: "(string \<times> string) list" where
  "fallbackAliases =
     [(''@/'', ''src/''), (''~/'', ''src/''), (''@src/'', ''src/''), (''src/'', ''src/''), (''@app/'', ''app/''), (''app/'', ''app/'')]"

definition resolveAliasedImport :: "string \<Rightarrow> string \<Rightarrow> language \<Rightarrow> resolution_context \<Rightarrow> string option" where
  "resolveAliasedImport importPath projectRoot language ctx =
     (let attempt = tryWithExt language ctx in
      or_else (case cx_projectAliases ctx of
                 Some aliases \<Rightarrow> first_some (\<lambda>c. truthy (attempt c)) (applyAliases importPath aliases projectRoot)
               | None \<Rightarrow> None)
     (or_else (case workspace_hit importPath ctx of Some base \<Rightarrow> truthy (attempt base) | None \<Rightarrow> None)
     (or_else (first_some (\<lambda>(alias, replacement).
                 if starts_with importPath alias
                 then truthy (attempt (replacement @ drop (length alias) importPath)) else None) fallbackAliases)
       (attempt importPath))))"

definition resolveCppIncludePath :: "string \<Rightarrow> language \<Rightarrow> resolution_context \<Rightarrow> string option" where
  "resolveCppIncludePath importPath language ctx =
     first_some (\<lambda>dir.
       let base = slash_path dir @ ''/'' @ importPath
       in find (cx_fileExists ctx) (with_extensions language base @ [base])) (cx_cppIncludeDirs ctx)"

definition resolveImportPath :: "string \<Rightarrow> string \<Rightarrow> language \<Rightarrow> resolution_context \<Rightarrow> string option" where
  "resolveImportPath importPath fromFile language ctx =
     (if isExternalImport importPath language ctx then None
      else (let projectRoot = cx_projectRoot ctx;
                fromDir = path_dirname (path_join [projectRoot, fromFile])
            in if starts_with importPath ''.'' then resolveRelativeImport importPath fromDir language ctx
               else (case truthy (resolveAliasedImport importPath projectRoot language ctx) of
                       Some p \<Rightarrow> Some p
                     | None \<Rightarrow>
                         if language \<in> {L_c, L_cpp} then resolveCppIncludePath importPath language ctx else None)))"

section \<open>Includes\<close>

definition found :: "unresolved_ref \<Rightarrow> rat \<Rightarrow> node option \<Rightarrow> resolved_ref option" where
  "found ref confidence target = map_option (\<lambda>n. resolved ref n confidence By_import) target"

definition file_node :: "resolution_context \<Rightarrow> string \<Rightarrow> node option" where
  "file_node ctx p =
     find (\<lambda>n. n_kind n = NK_file \<and> n_filePath n = p) (cx_nodesByName ctx (last (path_segments p)))"

definition isPhpIncludePathRef :: "unresolved_ref \<Rightarrow> bool" where
  "isPhpIncludePathRef ref \<longleftrightarrow>
     x_language ref = L_php \<and> x_referenceKind ref = EK_imports
     \<and> (str_includes (x_referenceName ref) ''/'' \<or> str_includes (x_referenceName ref) ''.'')"

definition resolvePhpIncludePath :: "string \<Rightarrow> string \<Rightarrow> resolution_context \<Rightarrow> string option" where
  "resolvePhpIncludePath includePath fromFile ctx =
     (let projectRoot = cx_projectRoot ctx;
          fromDir = path_dirname (path_join [projectRoot, fromFile]);
          relativePath = root_relative projectRoot (path_resolve fromDir includePath)
      in find (cx_fileExists ctx) (relativePath # with_extensions L_php relativePath))"

definition resolveCppInclude :: "unresolved_ref \<Rightarrow> resolution_context \<Rightarrow> resolved_ref option" where
  "resolveCppInclude ref ctx =
     (let fromDir = dirOf (x_filePath ref);
          siblingPath = path_normalize
            (if fromDir \<noteq> '''' then fromDir @ ''/'' @ x_referenceName ref else x_referenceName ref)
      in case file_node ctx siblingPath of
           Some sibling \<Rightarrow> found ref (92 / 100) (Some sibling)
         | None \<Rightarrow>
             (case truthy (resolveImportPath (x_referenceName ref) (x_filePath ref) (x_language ref) ctx) of
                None \<Rightarrow> None
              | Some resolvedPath \<Rightarrow> found ref (9 / 10) (file_node ctx resolvedPath)))"

definition resolvePhpInclude :: "unresolved_ref \<Rightarrow> resolution_context \<Rightarrow> resolved_ref option" where
  "resolvePhpInclude ref ctx =
     (case truthy (resolvePhpIncludePath (x_referenceName ref) (x_filePath ref) ctx) of
        Some resolvedPath \<Rightarrow> found ref (9 / 10) (file_node ctx resolvedPath)
      | None \<Rightarrow> None)"

section \<open>JVM imports\<close>

definition is_expect :: "node \<Rightarrow> bool" where
  "is_expect n \<longleftrightarrow> (case n_decorators n of Some (JArr ds) \<Rightarrow> JStr ''expect'' \<in> set ds | _ \<Rightarrow> False)"

text \<open>The loop over the other candidates, from the first one.\<close>

fun closest_jvm :: "string list \<Rightarrow> node list \<Rightarrow> node \<Rightarrow> node" where
  "closest_jvm fromDirs [] best = best"
| "closest_jvm fromDirs (c # cs) best =
     (let prox = shared_segments fromDirs (butlast (path_segments (n_filePath c)));
          bestProx = shared_segments fromDirs (butlast (path_segments (n_filePath best)))
      in closest_jvm fromDirs cs
           (if bestProx < prox \<or> (prox = bestProx \<and> is_expect c \<and> \<not> is_expect best) then c else best))"

definition pickClosestJvmCandidate :: "node list \<Rightarrow> string \<Rightarrow> node" where
  "pickClosestJvmCandidate candidates fromPath =
     closest_jvm (butlast (path_segments fromPath)) (tl candidates) (hd candidates)"

definition resolveJvmImport :: "unresolved_ref \<Rightarrow> resolution_context \<Rightarrow> resolved_ref option" where
  "resolveJvmImport ref ctx =
     (if x_referenceKind ref \<noteq> EK_imports \<or> x_language ref \<notin> {L_java, L_kotlin} then None
      else (case last_index_of (x_referenceName ref) ''.'' of
          Some (Suc k) \<Rightarrow>
            (let pkg = take (Suc k) (x_referenceName ref); sym = drop (Suc (Suc k)) (x_referenceName ref) in
             if sym = ''*'' then None
             else (case cx_nodesByQualifiedName ctx (pkg @ ''::'' @ sym) of
                     [] \<Rightarrow> None
                   | [c] \<Rightarrow> Some (resolved ref c (95 / 100) By_import)
                   | candidates \<Rightarrow>
                       Some (resolved ref (pickClosestJvmCandidate candidates (x_filePath ref)) (95 / 100) By_import)))
        | _ \<Rightarrow> None))"

definition fqn_suffix :: "string \<Rightarrow> string \<Rightarrow> bool" where
  "fqn_suffix filePath fqnPath \<longleftrightarrow>
     ends_with (slash_path filePath) fqnPath \<or> ends_with (slash_path filePath) (''/'' @ fqnPath)"

definition java_import_hit :: "unresolved_ref \<Rightarrow> resolution_context \<Rightarrow> import_mapping \<Rightarrow> node option" where
  "java_import_hit ref ctx imp =
     (let ext = (if x_language ref = L_kotlin then ''.kt'' else ''.java'');
          name = x_referenceName ref;
          matchesBare = (im_localName imp = name);
          matchesQualified = starts_with name (im_localName imp @ ''.'')
      in if \<not> matchesBare \<and> \<not> matchesQualified then None
         else (let fqnPath = dots_to_slashes (im_source imp) @ ext;
                   memberName = (if matchesBare then im_localName imp else drop (length (im_localName imp) + 1) name);
                   candidates = filter (\<lambda>n. n_language n = x_language ref) (cx_nodesByName ctx memberName)
               in or_else (find (\<lambda>n. fqn_suffix (n_filePath n) fqnPath) candidates)
                   (if matchesBare then
                      (case last_index_of (im_source imp) ''.'' of
                         Some (Suc k) \<Rightarrow>
                           find (\<lambda>n. fqn_suffix (n_filePath n) (dots_to_slashes (take (Suc k) (im_source imp)) @ ext)) candidates
                       | _ \<Rightarrow> None)
                    else None)))"

definition resolveJavaImportedReference :: "unresolved_ref \<Rightarrow> import_mapping list \<Rightarrow> resolution_context \<Rightarrow> resolved_ref option" where
  "resolveJavaImportedReference ref imports ctx =
     first_some (\<lambda>imp. found ref (9 / 10) (java_import_hit ref ctx imp)) imports"

section \<open>Go packages\<close>

definition resolveGoCrossPackageReference :: "unresolved_ref \<Rightarrow> import_mapping list \<Rightarrow> resolution_context \<Rightarrow> resolved_ref option" where
  "resolveGoCrossPackageReference ref imports ctx =
     (case cx_goModule ctx of
        None \<Rightarrow> None
      | Some m \<Rightarrow>
          (case index_of (x_referenceName ref) ''.'' of
             Some (Suc k) \<Rightarrow>
               (let receiver = take (Suc k) (x_referenceName ref);
                    memberName = drop (Suc (Suc k)) (x_referenceName ref)
                in if memberName = '''' then None
                   else first_some (\<lambda>imp.
                       if im_localName imp \<noteq> receiver then None
                       else if im_source imp \<noteq> gm_modulePath m \<and> \<not> starts_with (im_source imp) (gm_modulePath m @ ''/'') then None
                       else (let pkgDir = (if im_source imp = gm_modulePath m then '''' else drop (length (gm_modulePath m) + 1) (im_source imp))
                             in found ref (9 / 10)
                                  (find (\<lambda>n. n_language n = L_go \<and> n_isExported n = Some True
                                       \<and> dirOf (slash_path (n_filePath n)) = pkgDir) (cx_nodesByName ctx memberName)))) imports)
           | _ \<Rightarrow> None))"

section \<open>Python modules\<close>

definition path_ends :: "string \<Rightarrow> string \<Rightarrow> bool" where
  "path_ends p want \<longleftrightarrow> p = want \<or> ends_with p (''/'' @ want)"

definition findPythonModuleFile :: "string \<Rightarrow> resolution_context \<Rightarrow> string \<Rightarrow> node option" where
  "findPythonModuleFile dotted ctx excludeFilePath =
     (if dotted = '''' \<or> starts_with dotted ''.'' then None
      else (let rel = dots_to_slashes dotted;
                lastSeg = last (split_by (\<lambda>c. c = CHR ''.'') dotted)
            in or_else
                 (find (\<lambda>n. n_kind n = NK_file \<and> n_filePath n \<noteq> excludeFilePath \<and> path_ends (n_filePath n) (rel @ ''.py''))
                   (cx_nodesByName ctx (lastSeg @ ''.py'')))
                 (find (\<lambda>n. n_kind n = NK_file \<and> n_filePath n \<noteq> excludeFilePath \<and> path_ends (n_filePath n) (rel @ ''/__init__.py''))
                   (cx_nodesByName ctx ''__init__.py''))))"

definition submodule_path :: "import_mapping \<Rightarrow> string" where
  "submodule_path imp =
     (if ends_with (im_source imp) ''.'' then im_source imp @ im_localName imp
      else im_source imp @ ''.'' @ im_localName imp)"

definition resolvePythonModuleMember :: "unresolved_ref \<Rightarrow> import_mapping list \<Rightarrow> resolution_context \<Rightarrow> resolved_ref option" where
  "resolvePythonModuleMember ref imports ctx =
     (case index_of (x_referenceName ref) ''.'' of
        Some (Suc k) \<Rightarrow>
          (let receiver = take (Suc k) (x_referenceName ref);
               member = hd (split_by (\<lambda>c. c = CHR ''.'') (drop (Suc (Suc k)) (x_referenceName ref)))
           in if member = '''' then None
              else first_some (\<lambda>imp.
                  if im_localName imp \<noteq> receiver then None
                  else (let modulePath = (if im_isNamespace imp then im_source imp else submodule_path imp);
                            resolvedPath = (case truthy (resolveImportPath modulePath (x_filePath ref) (x_language ref) ctx) of
                                Some p \<Rightarrow> Some p
                              | None \<Rightarrow> truthy (map_option n_filePath (findPythonModuleFile modulePath ctx (x_filePath ref))))
                        in case resolvedPath of
                             None \<Rightarrow> None
                           | Some p \<Rightarrow>
                               if p = x_filePath ref then None
                               else found ref (85 / 100)
                                 (find (\<lambda>n. n_name n = member \<and> n_kind n \<in> {NK_function, NK_class, NK_variable, NK_constant})
                                   (cx_nodesInFile ctx p)))) imports)
      | _ \<Rightarrow> None)"

definition resolvePythonAbsoluteModule :: "unresolved_ref \<Rightarrow> resolution_context \<Rightarrow> resolved_ref option" where
  "resolvePythonAbsoluteModule ref ctx =
     (if x_referenceKind ref \<noteq> EK_imports \<or> \<not> str_includes (x_referenceName ref) ''.'' then None
      else found ref (9 / 10) (findPythonModuleFile (x_referenceName ref) ctx (x_filePath ref)))"

definition module_file_hit :: "unresolved_ref \<Rightarrow> resolution_context \<Rightarrow> import_mapping \<Rightarrow> node option" where
  "module_file_hit ref ctx imp =
     (let python = (x_language ref = L_python) in
      if im_localName imp \<noteq> x_referenceName ref then None
      else if \<not> (im_isNamespace imp \<or> im_isDefault imp) \<and> \<not> python then None
      else (let modulePath = (if im_isNamespace imp \<or> im_isDefault imp then im_source imp else submodule_path imp) in
        or_else
          (case truthy (resolveImportPath modulePath (x_filePath ref) (x_language ref) ctx) of
             Some p \<Rightarrow>
               if p = x_filePath ref then None else find (\<lambda>n. n_kind n = NK_file) (cx_nodesInFile ctx p)
           | None \<Rightarrow> None)
          (if python then findPythonModuleFile modulePath ctx (x_filePath ref) else None)))"

definition resolveModuleImportToFile :: "unresolved_ref \<Rightarrow> import_mapping list \<Rightarrow> resolution_context \<Rightarrow> resolved_ref option" where
  "resolveModuleImportToFile ref imports ctx =
     (if x_referenceKind ref \<noteq> EK_imports \<or> str_includes (x_referenceName ref) ''.'' then None
      else first_some (\<lambda>imp. found ref (9 / 10) (module_file_hit ref ctx imp)) imports)"

section \<open>Lua modules\<close>

fun shared_chars :: "string \<Rightarrow> string \<Rightarrow> nat" where
  "shared_chars (a # as) (b # bs) = (if a = b then Suc (shared_chars as bs) else 0)"
| "shared_chars _ _ = 0"

definition resolveLuaRequire :: "unresolved_ref \<Rightarrow> resolution_context \<Rightarrow> resolved_ref option" where
  "resolveLuaRequire ref ctx =
     (if x_referenceName ref = '''' then None
      else (let base = dots_to_slashes (x_referenceName ref) in
        first_some (\<lambda>suffix.
            case sort_key (\<lambda>f. - int (shared_chars f (x_filePath ref))) (filter (\<lambda>f. path_ends f suffix) (cx_allFiles ctx)) of
              [] \<Rightarrow> None
            | best # _ \<Rightarrow>
                if best = x_filePath ref then None
                else found ref (9 / 10) (find (\<lambda>n. n_kind n = NK_file) (cx_nodesInFile ctx best)))
          [base @ ''.lua'', base @ ''.luau'', base @ ''/init.lua'', base @ ''/init.luau'']))"

section \<open>Rust paths\<close>

text \<open>The walk to the crate root, at most \<open>n\<close> directories up (64 in the code).\<close>

primrec crate_walk :: "nat \<Rightarrow> resolution_context \<Rightarrow> string \<Rightarrow> string option" where
  "crate_walk 0 ctx dir = None"
| "crate_walk (Suc n) ctx dir =
     (let toRel = root_relative (cx_projectRoot ctx) in
      if cx_fileExists ctx (toRel (path_join [dir, ''lib.rs''])) \<or> cx_fileExists ctx (toRel (path_join [dir, ''main.rs'']))
      then Some dir
      else if path_dirname dir = dir then None else crate_walk n ctx (path_dirname dir))"

definition rustCrateRootDir :: "string \<Rightarrow> resolution_context \<Rightarrow> string option" where
  "rustCrateRootDir fromFileAbs ctx = crate_walk 64 ctx (path_dirname fromFileAbs)"

definition rs_ext_re :: re where
  "rs_ext_re = Seq (re_str ''.rs'') Eol"

definition rustSelfModuleDir :: "string \<Rightarrow> string" where
  "rustSelfModuleDir fromFileAbs =
     (let base = path_basename fromFileAbs; dir = path_dirname fromFileAbs in
      if base \<in> {''mod.rs'', ''lib.rs'', ''main.rs''} then dir
      else path_join [dir, re_delete rs_ext_re base])"

fun walk_modules :: "resolution_context \<Rightarrow> string \<Rightarrow> string option \<Rightarrow> string list \<Rightarrow> string option" where
  "walk_modules ctx dir targetFile [] = targetFile"
| "walk_modules ctx dir targetFile (seg # rest) =
     (if seg \<in> {''self'', ''crate'', ''super''} then walk_modules ctx dir targetFile rest
      else (let toRel = root_relative (cx_projectRoot ctx);
                asFile = toRel (path_join [dir, seg @ ''.rs'']);
                asMod = toRel (path_join [dir, seg, ''mod.rs''])
            in if cx_fileExists ctx asFile then walk_modules ctx (path_join [dir, seg]) (Some asFile) rest
               else if cx_fileExists ctx asMod then walk_modules ctx (path_join [dir, seg]) (Some asMod) rest
               else None))"

definition resolveUnder :: "resolution_context \<Rightarrow> string option \<Rightarrow> string list \<Rightarrow> string option" where
  "resolveUnder ctx startDir rest =
     (case truthy startDir of None \<Rightarrow> None | Some dir \<Rightarrow> walk_modules ctx dir None rest)"

definition resolveRustModuleFile :: "string list \<Rightarrow> string \<Rightarrow> resolution_context \<Rightarrow> string option" where
  "resolveRustModuleFile segs fromFile ctx =
     (case segs of
        [] \<Rightarrow> None
      | first # rest \<Rightarrow>
          (let fromAbs = path_join [cx_projectRoot ctx, fromFile] in
           if first = ''crate'' then resolveUnder ctx (rustCrateRootDir fromAbs ctx) rest
           else if first = ''self'' then resolveUnder ctx (Some (rustSelfModuleDir fromAbs)) rest
           else if first = ''super'' then
             (let supers = length (takeWhile (\<lambda>s. s = ''super'') segs)
              in resolveUnder ctx (Some ((path_dirname ^^ supers) (rustSelfModuleDir fromAbs))) (drop supers segs))
           else or_else (resolveUnder ctx (Some (rustSelfModuleDir fromAbs)) segs)
                  (resolveUnder ctx (rustCrateRootDir fromAbs ctx) segs)))"

definition resolveRustPathReference :: "unresolved_ref \<Rightarrow> resolution_context \<Rightarrow> resolved_ref option" where
  "resolveRustPathReference ref ctx =
     (let segs = nonempty (split_str ''::'' (x_referenceName ref)) in
      if length segs < 2 then None
      else (case truthy (resolveRustModuleFile (butlast segs) (x_filePath ref) ctx) of
          None \<Rightarrow> None
        | Some file \<Rightarrow>
            if file = x_filePath ref then None
            else found ref (9 / 10)
              (find (\<lambda>n. n_name n = last segs
                   \<and> n_kind n \<in> {NK_function, NK_struct, NK_enum, NK_trait, NK_type_alias, NK_constant, NK_method,
                                 NK_class, NK_interface}) (cx_nodesInFile ctx file))))"

section \<open>Exported symbols\<close>

record wanted =
  w_isDefault :: bool
  w_isNamespace :: bool
  w_exportedName :: string
  w_memberName :: "string option"

definition REEXPORT_MAX_DEPTH :: nat where
  "REEXPORT_MAX_DEPTH = 8"

abbreviation exported :: "node \<Rightarrow> bool" where
  "exported n \<equiv> n_isExported n = Some True"

definition direct_export :: "wanted \<Rightarrow> node list \<Rightarrow> node option" where
  "direct_export want nodesInFile =
     (if w_isDefault want then
        or_else (find (\<lambda>n. exported n \<and> n_kind n = NK_component) nodesInFile)
          (find (\<lambda>n. exported n \<and> n_kind n \<in> {NK_function, NK_class}) nodesInFile)
      else if w_isNamespace want \<and> truthy (w_memberName want) \<noteq> None then
        find (\<lambda>n. Some (n_name n) = w_memberName want \<and> exported n) nodesInFile
      else find (\<lambda>n. n_name n = w_exportedName want \<and> exported n) nodesInFile)"

text \<open>A loop that stops at the first hit and hands the set of visited files on.\<close>

fun chase :: "('a \<Rightarrow> string list \<Rightarrow> node option \<times> string list) \<Rightarrow> 'a list \<Rightarrow> string list \<Rightarrow> node option \<times> string list" where
  "chase f [] visited = (None, visited)"
| "chase f (x # xs) visited =
     (case f x visited of
        (Some n, visited') \<Rightarrow> (Some n, visited')
      | (None, visited') \<Rightarrow> chase f xs visited')"

text \<open>The modules a file forwards the wanted symbol to, with what is wanted of them: named, then wildcard.\<close>

definition named_targets :: "wanted \<Rightarrow> re_export list \<Rightarrow> (string \<times> wanted) list" where
  "named_targets want rexs =
     (let targetName = (if w_isDefault want then ''default'' else w_exportedName want) in
      concat (map (\<lambda>rex. case rex of
          Named ex orig source \<Rightarrow>
            if ex = targetName
            then [(source, \<lparr>w_isDefault = (orig = ''default''), w_isNamespace = False, w_exportedName = orig, w_memberName = None\<rparr>)]
            else []
        | Wildcard _ \<Rightarrow> []) rexs))"

definition wildcard_targets :: "wanted \<Rightarrow> re_export list \<Rightarrow> (string \<times> wanted) list" where
  "wildcard_targets want rexs =
     concat (map (\<lambda>rex. case rex of Wildcard source \<Rightarrow> [(source, want)] | Named _ _ _ \<Rightarrow> []) rexs)"

text \<open>\<open>findExportedSymbol\<close> with the levels left: a call at depth \<open>d\<close> has \<open>9 - d\<close>.\<close>

primrec export_walk :: "nat \<Rightarrow> language \<Rightarrow> resolution_context \<Rightarrow> string \<Rightarrow> wanted \<Rightarrow> string list \<Rightarrow> node option \<times> string list" where
  "export_walk 0 language ctx filePath want visited = (None, visited)"
| "export_walk (Suc k) language ctx filePath want visited =
     (if filePath \<in> set visited then (None, visited)
      else (case direct_export want (cx_nodesInFile ctx filePath) of
          Some n \<Rightarrow> (Some n, set_add filePath visited)
        | None \<Rightarrow>
            (let rexs = cx_reExports ctx filePath language in
             chase (\<lambda>(source, w) v.
                 case truthy (resolveImportPath source filePath language ctx) of
                   None \<Rightarrow> (None, v)
                 | Some nxt \<Rightarrow> export_walk k language ctx nxt w v)
               (named_targets want rexs @ wildcard_targets want rexs) (set_add filePath visited))))"

definition findExportedSymbol :: "string \<Rightarrow> wanted \<Rightarrow> language \<Rightarrow> resolution_context \<Rightarrow> node option" where
  "findExportedSymbol filePath want language ctx =
     fst (export_walk (Suc REEXPORT_MAX_DEPTH) language ctx filePath want [])"

section \<open>Resolution through imports\<close>

definition imported_symbol :: "unresolved_ref \<Rightarrow> resolution_context \<Rightarrow> import_mapping \<Rightarrow> node option" where
  "imported_symbol ref ctx imp =
     (if im_localName imp = x_referenceName ref \<or> starts_with (x_referenceName ref) (im_localName imp @ ''.'') then
        (case truthy (resolveImportPath (im_source imp) (x_filePath ref) (x_language ref) ctx) of
           None \<Rightarrow> None
         | Some resolvedPath \<Rightarrow>
             findExportedSymbol resolvedPath
               \<lparr>w_isDefault = im_isDefault imp, w_isNamespace = im_isNamespace imp,
                w_exportedName = (if im_isDefault imp then ''default'' else im_exportedName imp),
                w_memberName = (if im_isNamespace imp
                                then Some (replace_first (x_referenceName ref) (im_localName imp @ ''.'') '''') else None)\<rparr>
               (x_language ref) ctx)
      else None)"

definition resolveViaImport :: "unresolved_ref \<Rightarrow> resolution_context \<Rightarrow> resolved_ref option" where
  "resolveViaImport ref ctx =
     (if x_language ref \<in> {L_c, L_cpp} \<and> x_referenceKind ref = EK_imports then resolveCppInclude ref ctx
      else if isPhpIncludePathRef ref then resolvePhpInclude ref ctx
      else (let imports = cx_importMappings ctx (x_filePath ref) (x_language ref); lang = x_language ref in
        if imports = [] \<and> truthy (cx_readFile ctx (x_filePath ref)) = None then None
        else
          or_else (if lang = L_go then resolveGoCrossPackageReference ref imports ctx else None)
         (or_else (if lang \<in> {L_java, L_kotlin} then resolveJavaImportedReference ref imports ctx else None)
         (or_else (if lang = L_python then resolvePythonModuleMember ref imports ctx else None)
         (or_else (if lang = L_python then resolvePythonAbsoluteModule ref ctx else None)
         (or_else (if lang = L_rust \<and> str_includes (x_referenceName ref) ''::'' then resolveRustPathReference ref ctx else None)
         (or_else (if lang \<in> {L_lua, L_luau} \<and> x_referenceKind ref = EK_imports then resolveLuaRequire ref ctx else None)
         (or_else (if lang = L_python \<or> lang \<in> js_ts then resolveModuleImportToFile ref imports ctx else None)
           (first_some (\<lambda>imp. found ref (9 / 10) (imported_symbol ref ctx imp)) imports)))))))))"

section \<open>Resolved paths exist\<close>

definition existing :: "resolution_context \<Rightarrow> string list \<Rightarrow> string option \<Rightarrow> bool" where
  "existing ctx exts res =
     (case res of None \<Rightarrow> True
      | Some p \<Rightarrow> cx_fileExists ctx p \<and> (\<exists>base ext. p = base @ ext \<and> ext \<in> insert '''' (set exts)))"

abbreviation names_file :: "resolution_context \<Rightarrow> language \<Rightarrow> string option \<Rightarrow> bool" where
  "names_file ctx language res \<equiv> existing ctx (EXTENSION_RESOLUTION language) res"

lemma existing_None: "existing ctx exts None"
  by (simp add: existing_def)

lemma existing_find: "names_file ctx language (find (cx_fileExists ctx) (with_extensions language base))"
  unfolding existing_def with_extensions_def by (auto split: option.split dest!: find_SomeD)

lemma existing_find_bare:
  "names_file ctx language (find (cx_fileExists ctx) (with_extensions language base @ [base]))"
  unfolding existing_def with_extensions_def by (auto split: option.split dest!: find_SomeD)

lemma existing_bare: "cx_fileExists ctx p \<Longrightarrow> existing ctx exts (Some p)"
  unfolding existing_def by auto

lemma existing_or_else: "existing ctx exts a \<Longrightarrow> existing ctx exts b \<Longrightarrow> existing ctx exts (or_else a b)"
  by (cases a) (auto simp: existing_def)

lemma existing_case: "existing ctx exts a \<Longrightarrow> existing ctx exts b \<Longrightarrow> existing ctx exts (case a of None \<Rightarrow> b | Some p \<Rightarrow> Some p)"
  by (cases a) (auto simp: existing_def)

lemma existing_if: "existing ctx exts a \<Longrightarrow> existing ctx exts b \<Longrightarrow> existing ctx exts (if P then a else b)"
  by simp

lemma existing_truthy: "existing ctx exts a \<Longrightarrow> existing ctx exts (truthy a)"
  by (cases a) (auto simp: existing_def truthy_def)

lemma existing_first_some:
  "(\<And>y. y \<in> set ys \<Longrightarrow> existing ctx exts (f y)) \<Longrightarrow> existing ctx exts (first_some f ys)"
proof (induction ys)
  case (Cons a ys)
  then show ?case
    using Cons.prems [of a] by (cases "f a") auto
qed (simp add: existing_None)

lemma existing_relative: "names_file ctx language (resolveRelativeImport importPath fromDir language ctx)"
proof -
  have py: "names_file ctx language (case find (cx_fileExists ctx) (with_extensions language rel) of
      Some p \<Rightarrow> Some p | None \<Rightarrow> if rel \<noteq> '''' \<and> cx_fileExists ctx rel then Some rel else None)" for rel
    using existing_find [of ctx language rel] existing_bare [of ctx rel] by (auto split: option.split intro: existing_None)
  show ?thesis
  proof (cases "language = L_python \<and> starts_with importPath ''.''")
    case True
    show ?thesis
      unfolding resolveRelativeImport_def Let_def if_P [OF True] by (rule py)
  next
    case False
    show ?thesis
      unfolding resolveRelativeImport_def Let_def if_not_P [OF False] by (rule existing_find_bare)
  qed
qed

lemma existing_tryWithExt: "names_file ctx language (tryWithExt language ctx base)"
  unfolding tryWithExt_def by (rule existing_find_bare)

lemma existing_aliased: "names_file ctx language (resolveAliasedImport importPath projectRoot language ctx)"
  unfolding resolveAliasedImport_def Let_def
  by (intro existing_or_else)
    (auto split: option.split prod.split intro!: existing_first_some existing_truthy existing_tryWithExt existing_None)

lemma existing_cpp: "names_file ctx language (resolveCppIncludePath importPath language ctx)"
  unfolding resolveCppIncludePath_def Let_def by (intro existing_first_some existing_find_bare)

text \<open>
  An import path is resolved only to a path that \<open>cx_fileExists\<close> accepts, and an external import (a package, a
  standard library module or header) is never resolved.
\<close>

lemma resolveImportPath_exists:
  "case resolveImportPath importPath fromFile language ctx of
     None \<Rightarrow> True
   | Some p \<Rightarrow> \<not> isExternalImport importPath language ctx \<and> cx_fileExists ctx p
       \<and> (\<exists>base ext. p = base @ ext \<and> ext \<in> insert '''' (set (EXTENSION_RESOLUTION language)))"
proof -
  have "names_file ctx language (resolveImportPath importPath fromFile language ctx)"
    unfolding resolveImportPath_def Let_def
    by (intro existing_if existing_case existing_None existing_relative existing_cpp existing_truthy existing_aliased)
  moreover have "\<not> isExternalImport importPath language ctx"
    if "resolveImportPath importPath fromFile language ctx = Some p" for p
    using that by (auto simp: resolveImportPath_def)
  ultimately show ?thesis
    by (auto simp: existing_def split: option.splits)
qed

section \<open>Aliases stay inside the project\<close>

lemma relative_segs_inside:
  assumes "\<not> starts_with (join_with ''/'' (relative_segs f t)) ''..''"
  shows "prefix f t"
proof -
  have le: "common_segs f t \<le> length f"
    by (rule common_segs_le)
  have "length f = common_segs f t"
  proof (rule ccontr)
    assume "length f \<noteq> common_segs f t"
    then obtain m where "length f - common_segs f t = Suc m"
      using le by (cases "length f - common_segs f t") auto
    then have "relative_segs f t = ''..'' # replicate m ''..'' @ drop (common_segs f t) t"
      by (simp add: relative_segs_def Let_def)
    then show False
      using assms by (cases "replicate m ''..'' @ drop (common_segs f t) t") (auto simp: prefix_def)
  qed
  then have "f = take (common_segs f t) t"
    using common_segs_take [of f t] by simp
  then show ?thesis
    using take_is_prefix [of "common_segs f t" t] by simp
qed

text \<open>
  Every candidate that an alias of the project configuration yields is the relative path of a file
  below the project root, however the replacement climbs with \<open>..\<close>.
\<close>

theorem applyAliases_inside_root:
  "list_all (\<lambda>c. \<exists>p. c = slash_path (path_relative projectRoot p) \<and> prefix (abs_segs projectRoot) (abs_segs p))
     (applyAliases importPath aliases projectRoot)"
  unfolding list_all_iff
proof
  fix c
  assume "c \<in> set (applyAliases importPath aliases projectRoot)"
  then obtain pat target where "c \<in> set (alias_target importPath (am_baseUrl aliases) projectRoot pat target)"
    by (auto simp: applyAliases_def split: option.splits)
  then obtain p where p: "c = slash_path (path_relative projectRoot p)" "\<not> starts_with (path_relative projectRoot p) ''..''"
    by (auto simp: alias_target_def Let_def split: if_splits)
  have "prefix (abs_segs projectRoot) (abs_segs p)"
    using relative_segs_inside p(2) unfolding path_relative_def by blast
  then show "\<exists>p. c = slash_path (path_relative projectRoot p) \<and> prefix (abs_segs projectRoot) (abs_segs p)"
    using p(1) by blast
qed

section \<open>Results are stored nodes\<close>

definition stored_in :: "string set \<Rightarrow> node option \<Rightarrow> bool" where
  "stored_in ids t = (case t of None \<Rightarrow> True | Some n \<Rightarrow> n_id n \<in> ids)"

lemma stored_None: "stored_in ids None"
  by (simp add: stored_in_def)

lemma stored_find: "(\<And>n. n \<in> set ns \<Longrightarrow> n_id n \<in> ids) \<Longrightarrow> stored_in ids (find P ns)"
  by (auto simp: stored_in_def split: option.split dest!: find_SomeD)

lemma stored_or_else: "stored_in ids a \<Longrightarrow> stored_in ids b \<Longrightarrow> stored_in ids (or_else a b)"
  by (cases a) auto

lemma stored_if: "stored_in ids a \<Longrightarrow> stored_in ids b \<Longrightarrow> stored_in ids (if P then a else b)"
  by simp

lemma stored_option: "stored_in ids a \<Longrightarrow> (\<And>p. stored_in ids (f p)) \<Longrightarrow> stored_in ids (case p of None \<Rightarrow> a | Some p \<Rightarrow> f p)"
  by (cases p) auto

lemma stored_chase: "(\<And>x v. x \<in> set xs \<Longrightarrow> stored_in ids (fst (f x v))) \<Longrightarrow> stored_in ids (fst (chase f xs v))"
proof (induction xs arbitrary: v)
  case (Cons x xs)
  obtain r v' where f: "f x v = (r, v')"
    by (cases "f x v")
  then show ?case
    using Cons.prems [of x v] Cons.IH [of v'] Cons.prems by (cases r) auto
qed (simp add: stored_None)

lemma found_ok: "stored_in ids t \<Longrightarrow> 3 / 10 \<le> c \<Longrightarrow> c \<le> 95 / 100 \<Longrightarrow> match_ok ids ref (found ref c t)"
  by (cases t) (auto simp: found_def stored_in_def intro: match_ok_resolved)

lemma match_ok_option: "match_ok ids ref a \<Longrightarrow> (\<And>p. match_ok ids ref (f p)) \<Longrightarrow> match_ok ids ref (case p of None \<Rightarrow> a | Some p \<Rightarrow> f p)"
  by (cases p) auto

lemma match_ok_if_else: "match_ok ids ref a \<Longrightarrow> match_ok ids ref b \<Longrightarrow> match_ok ids ref (if P then a else b)"
  by simp

lemma match_ok_nat: "match_ok ids ref a \<Longrightarrow> (\<And>m. match_ok ids ref (f m)) \<Longrightarrow> match_ok ids ref (case k of 0 \<Rightarrow> a | Suc m \<Rightarrow> f m)"
  by (cases k) auto

lemma closest_jvm_mem: "closest_jvm dirs cs best \<in> insert best (set cs)"
proof (induction cs arbitrary: best)
  case (Cons c cs)
  show ?case
    using Cons.IH [of c] Cons.IH [of best] by (simp add: Let_def) blast
qed simp

context lookup_laws
begin

lemma stored_by_name: "stored_in ids (find P (cx_nodesByName ctx nm))"
  by (intro stored_find by_name)

lemma stored_in_file: "stored_in ids (find P (cx_nodesInFile ctx f))"
  by (intro stored_find in_file)

lemma stored_file_node: "stored_in ids (file_node ctx p)"
  unfolding file_node_def by (rule stored_by_name)

lemma resolveCppInclude_ok: "match_ok ids ref (resolveCppInclude ref ctx)"
proof -
  have "match_ok ids ref (found ref (92 / 100) (Some n))" if "file_node ctx p = Some n" for n p
    using stored_file_node [of p] that by (intro found_ok) auto
  then show ?thesis
    unfolding resolveCppInclude_def Let_def
    by (auto intro!: match_ok_option match_ok_None found_ok stored_file_node split: option.split)
qed

lemma resolvePhpInclude_ok: "match_ok ids ref (resolvePhpInclude ref ctx)"
  unfolding resolvePhpInclude_def
  by (intro match_ok_option match_ok_None found_ok stored_file_node) simp_all

lemma stored_java_import: "stored_in ids (java_import_hit ref ctx imp)"
proof -
  have "stored_in ids (find P (filter Q (cx_nodesByName ctx nm)))" for P Q nm
    by (intro stored_find) (auto intro: by_name)
  then show ?thesis
    unfolding java_import_hit_def Let_def
    by (auto intro!: stored_or_else stored_None split: option.split nat.split)
qed

lemma resolveJavaImportedReference_ok: "match_ok ids ref (resolveJavaImportedReference ref imports ctx)"
  unfolding resolveJavaImportedReference_def
  by (intro match_ok_first_some found_ok stored_java_import) simp_all

lemma resolveGoCrossPackageReference_ok: "match_ok ids ref (resolveGoCrossPackageReference ref imports ctx)"
  unfolding resolveGoCrossPackageReference_def Let_def
  by (intro match_ok_option match_ok_nat match_ok_if_else match_ok_first_some match_ok_None found_ok stored_by_name) simp_all

lemma stored_python_module: "stored_in ids (findPythonModuleFile m ctx f)"
  unfolding findPythonModuleFile_def Let_def
  by (intro stored_if stored_or_else stored_None stored_by_name)

lemma resolvePythonModuleMember_ok: "match_ok ids ref (resolvePythonModuleMember ref imports ctx)"
  unfolding resolvePythonModuleMember_def Let_def
  by (intro match_ok_option match_ok_nat match_ok_if_else match_ok_first_some match_ok_None found_ok stored_in_file) simp_all

lemma resolvePythonAbsoluteModule_ok: "match_ok ids ref (resolvePythonAbsoluteModule ref ctx)"
  unfolding resolvePythonAbsoluteModule_def
  by (intro match_ok_if_else match_ok_None found_ok stored_python_module) simp_all

lemma resolveModuleImportToFile_ok: "match_ok ids ref (resolveModuleImportToFile ref imports ctx)"
  unfolding resolveModuleImportToFile_def module_file_hit_def Let_def
  by (intro match_ok_if_else match_ok_first_some match_ok_None found_ok stored_if stored_or_else stored_option
      stored_None stored_in_file stored_python_module) simp_all

lemma resolveRustPathReference_ok: "match_ok ids ref (resolveRustPathReference ref ctx)"
  unfolding resolveRustPathReference_def Let_def
  by (intro match_ok_if_else match_ok_option match_ok_None found_ok stored_in_file) simp_all

lemma resolveLuaRequire_ok: "match_ok ids ref (resolveLuaRequire ref ctx)"
proof -
  have "match_ok ids ref (case xs of [] \<Rightarrow> None | best # _ \<Rightarrow>
      if best = x_filePath ref then None else found ref (9 / 10) (find P (cx_nodesInFile ctx best)))" for xs P
    by (cases xs) (auto intro!: found_ok stored_in_file)
  then show ?thesis
    unfolding resolveLuaRequire_def Let_def
    by (intro match_ok_if_else match_ok_None match_ok_first_some)
qed

lemma stored_direct: "stored_in ids (direct_export want (cx_nodesInFile ctx f))"
  unfolding direct_export_def by (intro stored_if stored_or_else stored_in_file)

lemma stored_export: "stored_in ids (fst (export_walk k language ctx f want visited))"
proof (induction k arbitrary: f want visited)
  case (Suc k)
  have "stored_in ids (fst (case truthy r of None \<Rightarrow> (None, v) | Some nxt \<Rightarrow> export_walk k language ctx nxt w v))" for r w v
    using Suc.IH by (auto simp: stored_None split: option.split)
  then have "stored_in ids (fst (chase (\<lambda>(source, w) v.
      case truthy (resolveImportPath source f language ctx) of None \<Rightarrow> (None, v)
      | Some nxt \<Rightarrow> export_walk k language ctx nxt w v) ts v))" for ts v
    by (intro stored_chase) (auto simp: case_prod_beta)
  then show ?case
    using stored_direct [of want f] by (auto simp: Let_def stored_None split: option.split)
qed (simp add: stored_None)

lemma resolveViaImport_ok: "match_ok ids ref (resolveViaImport ref ctx)"
proof -
  have "stored_in ids (imported_symbol ref ctx imp)" for imp
    unfolding imported_symbol_def findExportedSymbol_def by (intro stored_if stored_option stored_None stored_export)
  then have "match_ok ids ref (first_some (\<lambda>imp. found ref (9 / 10) (imported_symbol ref ctx imp)) imps)" for imps
    by (intro match_ok_first_some found_ok) simp_all
  then show ?thesis
    unfolding resolveViaImport_def Let_def
    by (intro match_ok_if_else match_ok_or_else match_ok_None resolveCppInclude_ok resolvePhpInclude_ok
        resolveGoCrossPackageReference_ok resolveJavaImportedReference_ok resolvePythonModuleMember_ok
        resolvePythonAbsoluteModule_ok resolveRustPathReference_ok resolveLuaRequire_ok resolveModuleImportToFile_ok)
qed

lemma resolveJvmImport_ok: "match_ok ids ref (resolveJvmImport ref ctx)"
proof -
  have pick: "n_id (pickClosestJvmCandidate (c # d # cs) f) \<in> ids"
    if "cx_nodesByQualifiedName ctx q = c # d # cs" for c d cs f q
  proof -
    have "pickClosestJvmCandidate (c # d # cs) f \<in> set (c # d # cs)"
      using closest_jvm_mem [of _ "d # cs" c] unfolding pickClosestJvmCandidate_def by simp
    then show ?thesis
      using by_qualified [of _ q] that by metis
  qed
  have one: "n_id c \<in> ids" if "cx_nodesByQualifiedName ctx q = [c]" for c q
    using by_qualified [of c q] that by simp
  have "match_ok ids ref (case cx_nodesByQualifiedName ctx q of [] \<Rightarrow> None
      | [c] \<Rightarrow> Some (resolved ref c (95 / 100) By_import)
      | candidates \<Rightarrow> Some (resolved ref (pickClosestJvmCandidate candidates f) (95 / 100) By_import))" for q f
    using pick [where q = q] one [where q = q]
    by (cases "cx_nodesByQualifiedName ctx q" rule: list.exhaust; cases "tl (cx_nodesByQualifiedName ctx q)")
      (auto intro!: match_ok_resolved)
  then show ?thesis
    unfolding resolveJvmImport_def Let_def by (intro match_ok_if_else match_ok_option match_ok_nat match_ok_None)
qed

end

section \<open>Re-export chains\<close>

text \<open>One step of a chain: the file forwards what is wanted to another file, perhaps under another name.\<close>

definition forwards :: "language \<Rightarrow> resolution_context \<Rightarrow> ((string \<times> wanted) \<times> (string \<times> wanted)) set" where
  "forwards language ctx =
     {((f, w), (g, w')). \<exists>source.
        (source, w') \<in> set (named_targets w (cx_reExports ctx f language) @ wildcard_targets w (cx_reExports ctx f language))
        \<and> truthy (resolveImportPath source f language ctx) = Some g}"

lemma chase_Some: "fst (chase f xs v) = Some n \<Longrightarrow> \<exists>x\<in>set xs. \<exists>v'. fst (f x v') = Some n"
proof (induction xs arbitrary: v)
  case (Cons x xs)
  obtain r v' where f: "f x v = (r, v')"
    by (cases "f x v")
  show ?case
  proof (cases r)
    case None
    then show ?thesis
      using Cons.prems Cons.IH [of v'] f by auto
  next
    case (Some m)
    then show ?thesis
      using Cons.prems f by (auto intro!: bexI [of _ x] exI [of _ v])
  qed
qed simp

lemma relpow_first: "(a, b) \<in> R \<Longrightarrow> (b, c) \<in> R ^^ k \<Longrightarrow> (a, c) \<in> R ^^ Suc k"
  by (rule relpow_Suc_I2)

lemma export_walk_sound:
  "fst (export_walk k language ctx f want visited) = Some n \<Longrightarrow>
     \<exists>j<k. \<exists>g w. ((f, want), (g, w)) \<in> forwards language ctx ^^ j \<and> direct_export w (cx_nodesInFile ctx g) = Some n"
proof (induction k arbitrary: f want visited)
  case (Suc k)
  let ?rexs = "cx_reExports ctx f language"
  show ?case
  proof (cases "direct_export want (cx_nodesInFile ctx f)")
    case (Some m)
    then have "m = n"
      using Suc.prems by (auto split: if_splits)
    then show ?thesis
      using Some by (intro exI [of _ 0]) auto
  next
    case None
    have "fst (chase (\<lambda>(source, w) v.
        case truthy (resolveImportPath source f language ctx) of
          None \<Rightarrow> (None, v) | Some nxt \<Rightarrow> export_walk k language ctx nxt w v)
        (named_targets want ?rexs @ wildcard_targets want ?rexs) (set_add f visited)) = Some n"
      using Suc.prems None by (auto simp: Let_def split: if_splits)
    then obtain x v where x: "x \<in> set (named_targets want ?rexs @ wildcard_targets want ?rexs)"
      and hit: "fst ((case x of (source, w) \<Rightarrow> \<lambda>v.
        case truthy (resolveImportPath source f language ctx) of
          None \<Rightarrow> (None, v) | Some nxt \<Rightarrow> export_walk k language ctx nxt w v) v) = Some n"
      by (blast dest: chase_Some)
    obtain source w where xw: "x = (source, w)"
      by (cases x)
    obtain nxt where nxt: "truthy (resolveImportPath source f language ctx) = Some nxt"
      and walk: "fst (export_walk k language ctx nxt w v) = Some n"
      using hit xw by (auto split: option.splits)
    have step: "((f, want), (nxt, w)) \<in> forwards language ctx"
      using x xw nxt unfolding forwards_def by blast
    obtain j g w' where "j < k" "((nxt, w), (g, w')) \<in> forwards language ctx ^^ j"
        "direct_export w' (cx_nodesInFile ctx g) = Some n"
      using Suc.IH [OF walk] by blast
    then show ?thesis
      using relpow_first [OF step] by (intro exI [of _ "Suc j"] conjI exI [of _ g] exI [of _ w']) simp_all
  qed
qed simp

lemma direct_export_exported: "direct_export w ns = Some n \<Longrightarrow> n \<in> set ns \<and> exported n"
  unfolding direct_export_def
  by (cases "find (\<lambda>n. exported n \<and> n_kind n = NK_component) ns") (auto split: if_splits dest!: find_SomeD)

text \<open>
  C39: a symbol found through re-exports is an exported node of a file at the end of a chain of at most
  eight forwarding steps, each of which names or forwards everything that is wanted; when nothing is
  found, the file itself does not export the symbol. Chains that run in a circle end.
\<close>

theorem findExportedSymbol_sound:
  "case findExportedSymbol f want language ctx of
     None \<Rightarrow> direct_export want (cx_nodesInFile ctx f) = None
   | Some n \<Rightarrow> exported n \<and> (\<exists>j\<le>8. \<exists>g w. ((f, want), (g, w)) \<in> forwards language ctx ^^ j
       \<and> n \<in> set (cx_nodesInFile ctx g) \<and> direct_export w (cx_nodesInFile ctx g) = Some n)"
proof (cases "findExportedSymbol f want language ctx")
  case None
  then show ?thesis
    by (auto simp: findExportedSymbol_def Let_def split: option.splits)
next
  case (Some n)
  then obtain j g w where "j < 9" "((f, want), (g, w)) \<in> forwards language ctx ^^ j"
      "direct_export w (cx_nodesInFile ctx g) = Some n"
    using export_walk_sound [of "Suc REEXPORT_MAX_DEPTH" language ctx f want "[]" n]
    by (auto simp: findExportedSymbol_def REEXPORT_MAX_DEPTH_def simp del: export_walk.simps)
  moreover from this have "j \<le> 8"
    by simp
  ultimately show ?thesis
    using Some direct_export_exported by (simp del: relpow.simps) blast
qed

text \<open>
  A member of a namespace import is not looked for behind named re-exports: the chase compares the
  re-exported names with the star of the namespace binding instead of the member.
\<close>

lemma namespace_member_missed:
  assumes "list_all (\<lambda>rex. \<exists>ex orig source. rex = Named ex orig source \<and> ex \<noteq> ''*'') (cx_reExports ctx f language)"
    and "direct_export want (cx_nodesInFile ctx f) = None"
    and "\<not> w_isDefault want" and "w_exportedName want = ''*''"
  shows "findExportedSymbol f want language ctx = None"
proof -
  have "named_targets want (cx_reExports ctx f language) = []"
    using assms by (auto simp: named_targets_def Let_def list_all_iff split: re_export.split)
  moreover have "wildcard_targets want (cx_reExports ctx f language) = []"
    using assms(1) by (auto simp: wildcard_targets_def list_all_iff split: re_export.split)
  ultimately show ?thesis
    using assms(2) by (simp add: findExportedSymbol_def)
qed

text \<open>A directory index at the project root gets a leading slash, which no indexed path has.\<close>

lemma root_index_misresolved:
  assumes "cx_projectRoot ctx = ''/p''" and "cx_workspacePackages ctx = None"
    and "\<And>q. cx_fileExists ctx q \<longleftrightarrow> q = ''/index.ts''"
  shows "resolveImportPath ''.'' ''main.ts'' L_typescript ctx = Some ''/index.ts''"
proof -
  have "root_relative ''/p'' (path_resolve (path_dirname (path_join [''/p'', ''main.ts''])) ''.'') = ''''"
    by code_simp
  then show ?thesis
    using assms by (simp add: resolveImportPath_def isExternalImport_def resolveRelativeImport_def Let_def
        with_extensions_def)
qed

section \<open>The closest declaration of a JVM name\<close>

lemma closest_jvm_greatest:
  "shared_segments dirs (butlast (path_segments (n_filePath best)))
     \<le> shared_segments dirs (butlast (path_segments (n_filePath (closest_jvm dirs cs best))))
   \<and> list_all (\<lambda>c. shared_segments dirs (butlast (path_segments (n_filePath c)))
       \<le> shared_segments dirs (butlast (path_segments (n_filePath (closest_jvm dirs cs best))))) cs"
proof (induction cs arbitrary: best)
  case (Cons c cs)
  show ?case
    using Cons.IH [of c] Cons.IH [of best] by (simp add: Let_def)
qed simp

end
