(* ===== verification/BuiltIns.thy ===== *)
theory BuiltIns
  imports ImportResolver
begin

text \<open>
  The pre-filters of \<open>resolution/index.ts\<close>: the lists of built-in names per language,
  \<open>isBuiltInOrExternal\<close> and \<open>hasAnyPossibleMatch\<close>. The set of known names is an argument: none
  before the caches are warm.
\<close>

section \<open>The lists\<close>

definition JS_BUILT_INS :: "string list" where
  "JS_BUILT_INS =
     [''console'', ''window'', ''document'', ''global'', ''process'', ''Promise'', ''Array'', ''Object'',
      ''String'', ''Number'', ''Boolean'', ''Date'', ''Math'', ''JSON'', ''RegExp'', ''Error'', ''Map'',
      ''Set'', ''setTimeout'', ''setInterval'', ''clearTimeout'', ''clearInterval'', ''fetch'', ''require'',
      ''module'', ''exports'', ''__dirname'', ''__filename'']"

definition REACT_HOOKS :: "string list" where
  "REACT_HOOKS =
     [''useState'', ''useEffect'', ''useContext'', ''useReducer'', ''useCallback'', ''useMemo'', ''useRef'',
      ''useLayoutEffect'', ''useImperativeHandle'', ''useDebugValue'']"

definition PYTHON_BUILT_INS :: "string list" where
  "PYTHON_BUILT_INS =
     [''print'', ''len'', ''range'', ''str'', ''int'', ''float'', ''list'', ''dict'', ''set'', ''tuple'',
      ''open'', ''input'', ''type'', ''isinstance'', ''hasattr'', ''getattr'', ''setattr'', ''super'',
      ''self'', ''cls'', ''None'', ''True'', ''False'']"

definition PYTHON_BUILT_IN_TYPES :: "string list" where
  "PYTHON_BUILT_IN_TYPES =
     [''list'', ''dict'', ''set'', ''tuple'', ''str'', ''int'', ''float'', ''bool'', ''bytes'',
      ''bytearray'', ''frozenset'', ''object'', ''super'']"

definition PYTHON_BUILT_IN_METHODS :: "string list" where
  "PYTHON_BUILT_IN_METHODS =
     [''append'', ''extend'', ''insert'', ''remove'', ''pop'', ''clear'', ''sort'', ''reverse'', ''copy'',
      ''update'', ''keys'', ''values'', ''items'', ''get'', ''add'', ''discard'', ''union'',
      ''intersection'', ''difference'', ''split'', ''join'', ''strip'', ''lstrip'', ''rstrip'', ''replace'',
      ''lower'', ''upper'', ''startswith'', ''endswith'', ''find'', ''index'', ''count'', ''encode'',
      ''decode'', ''format'', ''isdigit'', ''isalpha'', ''isalnum'', ''read'', ''write'', ''readline'',
      ''readlines'', ''close'', ''flush'', ''seek'']"

definition GO_STDLIB_PACKAGES :: "string list" where
  "GO_STDLIB_PACKAGES =
     [''fmt'', ''os'', ''io'', ''net'', ''http'', ''log'', ''math'', ''sort'', ''sync'', ''time'', ''path'',
      ''bytes'', ''strings'', ''strconv'', ''errors'', ''context'', ''json'', ''xml'', ''csv'', ''html'',
      ''template'', ''regexp'', ''reflect'', ''runtime'', ''testing'', ''flag'', ''bufio'', ''crypto'',
      ''encoding'', ''filepath'', ''hash'', ''mime'', ''rand'', ''signal'', ''sql'', ''syscall'',
      ''unicode'', ''unsafe'', ''atomic'', ''binary'', ''debug'', ''exec'', ''heap'', ''ring'', ''scanner'',
      ''tar'', ''zip'', ''gzip'', ''zlib'', ''tls'', ''url'', ''user'', ''pprof'', ''trace'', ''ast'',
      ''build'', ''parser'', ''printer'', ''token'', ''types'', ''cgo'', ''plugin'', ''race'', ''ioutil'',
      ''utilruntime'', ''utilwait'', ''utilnet'']"

definition GO_BUILT_INS :: "string list" where
  "GO_BUILT_INS =
     [''make'', ''new'', ''len'', ''cap'', ''append'', ''copy'', ''delete'', ''close'', ''panic'',
      ''recover'', ''print'', ''println'', ''complex'', ''real'', ''imag'', ''error'', ''nil'', ''true'',
      ''false'', ''iota'', ''int'', ''int8'', ''int16'', ''int32'', ''int64'', ''uint'', ''uint8'',
      ''uint16'', ''uint32'', ''uint64'', ''uintptr'', ''float32'', ''float64'', ''complex64'',
      ''complex128'', ''string'', ''bool'', ''byte'', ''rune'', ''any'']"

definition PASCAL_UNIT_PREFIXES :: "string list" where
  "PASCAL_UNIT_PREFIXES =
     [''System.'', ''Winapi.'', ''Vcl.'', ''Fmx.'', ''Data.'', ''Datasnap.'', ''Soap.'', ''Xml.'', ''Web.'',
      ''REST.'', ''FireDAC.'', ''IBX.'', ''IdHTTP'', ''IdTCP'', ''IdSSL'']"

definition PASCAL_BUILT_INS :: "string list" where
  "PASCAL_BUILT_INS =
     [''System'', ''SysUtils'', ''Classes'', ''Types'', ''Variants'', ''StrUtils'', ''Math'', ''DateUtils'',
      ''IOUtils'', ''Generics.Collections'', ''Generics.Defaults'', ''Rtti'', ''TypInfo'', ''SyncObjs'',
      ''RegularExpressions'', ''SysInit'', ''Windows'', ''Messages'', ''Graphics'', ''Controls'', ''Forms'',
      ''Dialogs'', ''StdCtrls'', ''ExtCtrls'', ''ComCtrls'', ''Menus'', ''ActnList'', ''WriteLn'', ''Write'',
      ''ReadLn'', ''Read'', ''Inc'', ''Dec'', ''Ord'', ''Chr'', ''Length'', ''SetLength'', ''High'', ''Low'',
      ''Assigned'', ''FreeAndNil'', ''Format'', ''IntToStr'', ''StrToInt'', ''FloatToStr'', ''StrToFloat'',
      ''Trim'', ''UpperCase'', ''LowerCase'', ''Pos'', ''Copy'', ''Delete'', ''Insert'', ''Now'', ''Date'',
      ''Time'', ''DateToStr'', ''StrToDate'', ''Raise'', ''Exit'', ''Break'', ''Continue'', ''Abort'',
      ''True'', ''False'', ''nil'', ''Self'', ''Result'', ''Create'', ''Destroy'', ''Free'', ''TObject'',
      ''TComponent'', ''TPersistent'', ''TInterfacedObject'', ''TList'', ''TStringList'', ''TStrings'',
      ''TStream'', ''TMemoryStream'', ''TFileStream'', ''Exception'', ''EAbort'', ''EConvertError'',
      ''EAccessViolation'', ''IInterface'', ''IUnknown'']"

definition C_BUILT_INS :: "string list" where
  "C_BUILT_INS =
     [''printf'', ''fprintf'', ''sprintf'', ''snprintf'', ''scanf'', ''fscanf'', ''sscanf'', ''malloc'',
      ''calloc'', ''realloc'', ''free'', ''memcpy'', ''memmove'', ''memset'', ''memcmp'', ''memchr'',
      ''strlen'', ''strcpy'', ''strncpy'', ''strcat'', ''strncat'', ''strcmp'', ''strncmp'', ''strstr'',
      ''strchr'', ''strrchr'', ''strtok'', ''strdup'', ''fopen'', ''fclose'', ''fread'', ''fwrite'',
      ''fgets'', ''fputs'', ''fputc'', ''fgetc'', ''feof'', ''ferror'', ''fflush'', ''fseek'', ''ftell'',
      ''rewind'', ''exit'', ''abort'', ''atexit'', ''atoi'', ''atol'', ''atof'', ''strtol'', ''strtoul'',
      ''strtod'', ''qsort'', ''bsearch'', ''abs'', ''labs'', ''rand'', ''srand'', ''sin'', ''cos'', ''tan'',
      ''sqrt'', ''pow'', ''log'', ''log10'', ''exp'', ''ceil'', ''floor'', ''fabs'', ''time'', ''clock'',
      ''difftime'', ''mktime'', ''localtime'', ''gmtime'', ''strftime'', ''asctime'', ''assert'', ''errno'',
      ''perror'', ''remove'', ''rename'', ''tmpfile'', ''tmpnam'', ''getenv'', ''system'', ''signal'',
      ''raise'', ''setjmp'', ''longjmp'', ''va_start'', ''va_end'', ''va_arg'', ''va_copy'', ''NULL'',
      ''EOF'', ''BUFSIZ'', ''FILENAME_MAX'', ''RAND_MAX'', ''EXIT_SUCCESS'', ''EXIT_FAILURE'', ''size_t'',
      ''ptrdiff_t'', ''wchar_t'', ''intptr_t'', ''uintptr_t'', ''int8_t'', ''int16_t'', ''int32_t'',
      ''int64_t'', ''uint8_t'', ''uint16_t'', ''uint32_t'', ''uint64_t'', ''FILE'', ''stat'', ''lstat'',
      ''fstat'', ''open'', ''close'', ''read'', ''write'', ''pipe'', ''fork'', ''exec'', ''waitpid'',
      ''getpid'', ''getppid'', ''kill'', ''sleep'', ''usleep'', ''pthread_create'', ''pthread_join'',
      ''pthread_mutex_lock'', ''pthread_mutex_unlock'', ''dlopen'', ''dlsym'', ''dlclose'']"

definition CPP_BUILT_INS :: "string list" where
  "CPP_BUILT_INS =
     [''cout'', ''cin'', ''cerr'', ''clog'', ''endl'', ''flush'', ''ws'', ''std'', ''nullptr'', ''true'',
      ''false'', ''this'', ''sizeof'', ''alignof'', ''typeid'', ''static_cast'', ''dynamic_cast'',
      ''reinterpret_cast'', ''const_cast'', ''make_unique'', ''make_shared'', ''make_pair'', ''move'',
      ''forward'', ''swap'']"

section \<open>Names that may match\<close>

definition known :: "string list option \<Rightarrow> string \<Rightarrow> bool" where
  "known names name = (case names of Some ns \<Rightarrow> name \<in> set ns | None \<Rightarrow> False)"

definition dotted_known :: "string list option \<Rightarrow> string \<Rightarrow> bool" where
  "dotted_known names name =
     (case index_of name ''.'' of
        Some (Suc k) \<Rightarrow>
          (let receiver = take (Suc k) name; member = drop (Suc (Suc k)) name in
           known names receiver \<or> known names member \<or> known names (capitalized receiver)
           \<or> (case last_index_of name ''.'' of
                Some l \<Rightarrow> Suc k < l \<and> drop (l + 1) name \<noteq> '''' \<and> known names (drop (l + 1) name)
              | None \<Rightarrow> False))
      | _ \<Rightarrow> False)"

definition scoped_known :: "string list option \<Rightarrow> string \<Rightarrow> bool" where
  "scoped_known names name =
     (case index_of name ''::'' of
        Some (Suc k) \<Rightarrow>
          known names (take (Suc k) name) \<or> known names (drop (k + 3) name)
          \<or> (case last_index_of name ''::'' of
               Some l \<Rightarrow> Suc k < l \<and> drop (l + 2) name \<noteq> '''' \<and> known names (drop (l + 2) name)
             | None \<Rightarrow> False)
      | _ \<Rightarrow> False)"

definition path_known :: "string list option \<Rightarrow> string \<Rightarrow> bool" where
  "path_known names name =
     (case last_index_of name ''/'' of Some (Suc k) \<Rightarrow> known names (drop (k + 2) name) | _ \<Rightarrow> False)"

definition hasAnyPossibleMatch :: "string list option \<Rightarrow> string \<Rightarrow> bool" where
  "hasAnyPossibleMatch names name =
     (names = None \<or> known names name \<or> dotted_known names name \<or> scoped_known names name \<or> path_known names name)"

section \<open>Built-in and external names\<close>

definition python_builtin :: "string list option \<Rightarrow> string \<Rightarrow> bool" where
  "python_builtin names name \<longleftrightarrow>
     name \<in> set PYTHON_BUILT_INS
     \<or> (case index_of name ''.'' of
          Some (Suc k) \<Rightarrow>
            take (Suc k) name \<in> set PYTHON_BUILT_IN_TYPES
            \<or> (drop (Suc (Suc k)) name \<in> set PYTHON_BUILT_IN_METHODS
               \<and> \<not> known names (capitalized (take (Suc k) name)))
        | _ \<Rightarrow> False)
     \<or> (name \<in> set PYTHON_BUILT_IN_METHODS \<and> \<not> known names name)"

definition go_builtin :: "string \<Rightarrow> bool" where
  "go_builtin name \<longleftrightarrow>
     (case index_of name ''.'' of Some (Suc k) \<Rightarrow> take (Suc k) name \<in> set GO_STDLIB_PACKAGES | _ \<Rightarrow> False)
     \<or> name \<in> set GO_BUILT_INS"

definition isBuiltInOrExternal :: "string list option \<Rightarrow> unresolved_ref \<Rightarrow> bool" where
  "isBuiltInOrExternal names ref =
     (let name = x_referenceName ref; lang = x_language ref; isJsTs = (lang \<in> js_ts) in
      if isJsTs \<and> name \<in> set JS_BUILT_INS then True
      else if isJsTs \<and> (starts_with name ''console.'' \<or> starts_with name ''Math.'' \<or> starts_with name ''JSON.'') then True
      else if isJsTs \<and> name \<in> set REACT_HOOKS then True
      else if lang = L_python \<and> python_builtin names name then True
      else if lang = L_go \<and> go_builtin name then True
      else if lang = L_pascal \<and> (list_ex (starts_with name) PASCAL_UNIT_PREFIXES \<or> name \<in> set PASCAL_BUILT_INS) then True
      else if lang \<in> {L_c, L_cpp} then
        starts_with name ''std::''
        \<or> (name \<in> set C_BUILT_INS \<union> set CPP_BUILT_INS \<and> \<not> hasAnyPossibleMatch names name)
      else False)"

end
