(* ===== verification/Numerals.thy ===== *)
theory Numerals
  imports Prelude
begin

text \<open>
  Decimal numerals of the language: \<open>parseInt(s, 10)\<close> and \<open>String(n)\<close> for a natural number.
\<close>

text \<open>\<open>parseInt\<close> reads the decimal digits at the front, behind white space and a sign.\<close>

definition digit_val :: "char \<Rightarrow> int" where
  "digit_val c = int (char_code c) - 48"

definition parse_int :: "string \<Rightarrow> int option" where
  "parse_int raw =
     (let s = trim_start raw;
          (negative, body) = (case s of c # t \<Rightarrow> if c = CHR ''-'' then (True, t) else if c = CHR ''+'' then (False, t) else (False, s)
                              | [] \<Rightarrow> (False, []));
          digits = takeWhile is_digit body;
          v = fold (\<lambda>c n. n * 10 + digit_val c) digits 0
      in if digits = [] then None else Some (if negative then - v else v))"

definition digit_char :: "nat \<Rightarrow> char" where
  "digit_char d = char_of (48 + d)"

fun show_nat :: "nat \<Rightarrow> string" where
  "show_nat n = (if n < 10 then [digit_char n] else show_nat (n div 10) @ [digit_char (n mod 10)])"

declare show_nat.simps [simp del]

lemma digit_char_code: "d < 10 \<Longrightarrow> char_code (digit_char d) = 48 + d"
  by (simp add: digit_char_def char_code_char_of)

lemma digit_char_digit: "d < 10 \<Longrightarrow> is_digit (digit_char d)"
  by (simp add: is_digit_def digit_char_code)

lemma digit_val_char: "d < 10 \<Longrightarrow> digit_val (digit_char d) = int d"
  by (simp add: digit_val_def digit_char_code)

lemma show_nat_digits: "list_all is_digit (show_nat n)"
  by (induction n rule: show_nat.induct) (subst show_nat.simps, auto simp: digit_char_digit)

lemma show_nat_nonempty: "show_nat n \<noteq> []"
  by (subst show_nat.simps) simp

lemma show_nat_value: "fold (\<lambda>c v. v * 10 + digit_val c) (show_nat n) 0 = int n"
proof (induction n rule: show_nat.induct)
  case (1 n)
  show ?case
  proof (cases "n < 10")
    case True
    then show ?thesis
      by (subst show_nat.simps) (simp add: digit_val_char)
  next
    case False
    have "int (n div 10) * 10 + int (n mod 10) = int n"
      by (metis div_mult_mod_eq of_nat_add of_nat_mult of_nat_numeral)
    then show ?thesis
      using 1 False by (subst show_nat.simps) (simp add: digit_val_char)
  qed
qed

lemma digit_plain: "is_digit c \<Longrightarrow> \<not> is_space c \<and> c \<noteq> CHR ''-'' \<and> c \<noteq> CHR ''+''"
  by (auto simp: is_digit_def is_space_def char_code_def)

lemma trim_digits: "list_all is_digit s \<Longrightarrow> trim_start s = s \<and> trim s = s"
proof -
  assume d: "list_all is_digit s"
  then have start: "dropWhile is_space s = s"
    by (cases s) (auto dest: digit_plain)
  have "list_all is_digit (rev s)"
    using d by simp
  then have "dropWhile is_space (rev s) = rev s"
    by (cases "rev s") (auto dest: digit_plain)
  with start show ?thesis
    by (simp add: trim_def trim_start_def trim_end_def)
qed

text \<open>A number that was printed is read back.\<close>

lemma parse_show: "parse_int (show_nat n) = Some (int n)"
proof -
  obtain c t where ct: "show_nat n = c # t"
    using show_nat_nonempty [of n] by (cases "show_nat n") auto
  then have c: "c \<noteq> CHR ''-''" "c \<noteq> CHR ''+''"
    using show_nat_digits [of n] by (auto dest: digit_plain)
  have all: "takeWhile is_digit (show_nat n) = show_nat n"
    using show_nat_digits [of n] by (simp add: list_all_iff)
  have "trim_start (show_nat n) = show_nat n"
    using trim_digits [OF show_nat_digits [of n]] by simp
  then have "parse_int (show_nat n) =
      (if takeWhile is_digit (show_nat n) = [] then None
       else Some (fold (\<lambda>c v. v * 10 + digit_val c) (takeWhile is_digit (show_nat n)) 0))"
    using c unfolding ct by (simp add: parse_int_def Let_def)
  then show ?thesis
    unfolding all show_nat_value using show_nat_nonempty [of n] by simp
qed

lemma parse_trim_show: "parse_int (trim (show_nat n)) = Some (int n)"
  using trim_digits [OF show_nat_digits [of n]] parse_show [of n] by simp

lemma show_nat_inj: "show_nat m = show_nat n \<Longrightarrow> m = n"
  by (metis int_int_eq option.inject parse_show)

end
