(* ===== verification/Resolver.thy ===== *)
theory Resolver
  imports BuiltIns GraphStore LruCache Numerals
begin

text \<open>
  The class \<open>ReferenceResolver\<close> of \<open>resolution/index.ts\<close>: the context over the database, the
  resolution of one reference through all strategies, edges from resolved references, the batched loop
  over the table of unresolved references and the conformance pass. The bounded caches of the context
  are transparent (\<open>LruCache.lru_memo_transparent\<close>; the nodes do not change while references are
  resolved), so the context is a function of the database. Reads of single nodes go through
  \<open>getNodeById\<close>, which returns what the table holds (\<open>GraphStore.getNodeById_refines\<close>); they are
  written \<open>node_at\<close>. Framework resolvers are values of the interface \<open>FrameworkResolver\<close>.
\<close>

section \<open>State\<close>

record framework =
  fw_name :: string
  fw_resolve :: "unresolved_ref \<Rightarrow> resolution_context \<Rightarrow> resolved_ref option"
  fw_claims :: "string \<Rightarrow> bool"
  fw_postExtract :: "resolution_context \<Rightarrow> node list option"

text \<open>
  What the resolver reads of the project: files and directories by absolute path, and the
  configuration it loads once.
\<close>

record project =
  pj_root :: string
  pj_exists :: "string \<Rightarrow> bool"
  pj_read :: "string \<Rightarrow> string option"
  pj_dirs :: "string \<Rightarrow> string list option"
  pj_aliases :: "alias_map option"
  pj_goModule :: "go_module option"
  pj_workspaces :: "workspace_packages option"
  pj_includeDirs :: "string list"

record resolver =
  rs_project :: project
  rs_frameworks :: "framework list"
  rs_deferredChainRefs :: "unresolved_ref list"
  rs_knownNames :: "string list option"
  rs_knownFiles :: "string list option"
  rs_cachesWarmed :: bool

definition new_resolver :: "project \<Rightarrow> resolver" where
  "new_resolver project =
     \<lparr>rs_project = project, rs_frameworks = [], rs_deferredChainRefs = [], rs_knownNames = None,
      rs_knownFiles = None, rs_cachesWarmed = False\<rparr>"

definition warmCaches :: "db \<Rightarrow> resolver \<Rightarrow> resolver" where
  "warmCaches d rs =
     (if rs_cachesWarmed rs then rs
      else rs\<lparr>rs_knownFiles := Some (getAllFilePaths d), rs_knownNames := Some (getAllNodeNames d), rs_cachesWarmed := True\<rparr>)"

definition clearCaches :: "resolver \<Rightarrow> resolver" where
  "clearCaches rs = rs\<lparr>rs_knownNames := None, rs_knownFiles := None, rs_cachesWarmed := False\<rparr>"

definition DEFAULT_CACHE_LIMIT :: nat where
  "DEFAULT_CACHE_LIMIT = 5000"

definition resolveCacheLimit :: "string option \<Rightarrow> nat" where
  "resolveCacheLimit raw =
     (case truthy raw of
        None \<Rightarrow> DEFAULT_CACHE_LIMIT
      | Some s \<Rightarrow>
          (case parse_int s of
             Some n \<Rightarrow> if 0 < n then nat n else DEFAULT_CACHE_LIMIT
           | None \<Rightarrow> DEFAULT_CACHE_LIMIT))"

definition contentLimit :: "nat \<Rightarrow> nat" where
  "contentLimit limit = max 64 (limit div 5)"

section \<open>The context\<close>

definition SUPERTYPE_BEARING_KINDS :: "node_kind list" where
  "SUPERTYPE_BEARING_KINDS = [NK_class, NK_struct, NK_interface, NK_trait, NK_protocol, NK_enum]"

definition getSupertypes :: "db \<Rightarrow> string \<Rightarrow> language \<Rightarrow> string list" where
  "getSupertypes d typeName language =
     (let typeNodes = filter (\<lambda>n. n_kind n \<in> set SUPERTYPE_BEARING_KINDS \<and> n_language n = language) (getNodesByName typeName d)
      in fold (\<lambda>tn acc.
           fold (\<lambda>edge acc.
             case node_at d (e_target edge) of
               Some target \<Rightarrow>
                 if n_name target \<noteq> '''' \<and> n_name target \<noteq> typeName then set_add (n_name target) acc else acc
             | None \<Rightarrow> acc) (getOutgoingEdges (n_id tn) [EK_implements, EK_extends] None d) acc) typeNodes [])"

definition js_family_re :: re where
  "js_family_re =
     re_seq [re_chr CHR ''.'',
       re_alt [re_nocase ''d.ts'',
         re_seq [re_opt (Cls (\<lambda>c. lower_char c \<in> {CHR ''c'', CHR ''m''})), re_nocase ''ts'', re_opt (re_nocase ''x'')],
         re_seq [re_opt (Cls (\<lambda>c. lower_char c \<in> {CHR ''c'', CHR ''m''})), re_nocase ''js'', re_opt (re_nocase ''x'')]],
       Eol]"

definition project_path :: "project \<Rightarrow> string \<Rightarrow> string" where
  "project_path project p = path_join [pj_root project, p]"

definition getReExports :: "project \<Rightarrow> string \<Rightarrow> language \<Rightarrow> re_export list" where
  "getReExports project filePath language =
     (case truthy (pj_read project (project_path project filePath)) of
        None \<Rightarrow> []
      | Some content \<Rightarrow>
          extractReExports content (if re_test js_family_re filePath then L_typescript else language))"

definition getImportMappings :: "project \<Rightarrow> string \<Rightarrow> language \<Rightarrow> import_mapping list" where
  "getImportMappings project filePath language =
     (case truthy (pj_read project (project_path project filePath)) of
        None \<Rightarrow> []
      | Some content \<Rightarrow> extractImportMappings filePath content language)"

definition fileExists :: "project \<Rightarrow> string list option \<Rightarrow> string \<Rightarrow> bool" where
  "fileExists project knownFiles filePath =
     (known knownFiles filePath \<or> known knownFiles (slash_path filePath) \<or> pj_exists project (project_path project filePath))"

definition listDirectories :: "project \<Rightarrow> string \<Rightarrow> string list" where
  "listDirectories project relativePath =
     (let target = (if relativePath \<in> {''.'', ''''} then pj_root project else project_path project relativePath)
      in case pj_dirs project target of Some names \<Rightarrow> names | None \<Rightarrow> [])"

definition createContext :: "db \<Rightarrow> resolver \<Rightarrow> resolution_context" where
  "createContext d rs =
     (let project = rs_project rs in
      \<lparr>cx_nodesInFile = (\<lambda>p. getNodesByFile p d),
       cx_nodesByName = (\<lambda>nm. getNodesByName nm d),
       cx_nodesByQualifiedName = (\<lambda>q. getNodesByQualifiedNameExact q d),
       cx_nodesByKind = (\<lambda>k. getNodesByKind k d),
       cx_fileExists = fileExists project (rs_knownFiles rs),
       cx_readFile = (\<lambda>p. pj_read project (project_path project p)),
       cx_projectRoot = pj_root project,
       cx_allFiles = getAllFilePaths d,
       cx_nodesByLowerName = (\<lambda>nm. getNodesByLowerName nm d),
       cx_supertypes = getSupertypes d,
       cx_importMappings = getImportMappings project,
       cx_projectAliases = pj_aliases project,
       cx_goModule = pj_goModule project,
       cx_workspacePackages = pj_workspaces project,
       cx_reExports = getReExports project,
       cx_listDirectories = listDirectories project,
       cx_cppIncludeDirs = pj_includeDirs project\<rparr>)"

definition initialize :: "(resolution_context \<Rightarrow> framework list) \<Rightarrow> db \<Rightarrow> resolver \<Rightarrow> resolver" where
  "initialize detectFrameworks d rs = clearCaches (rs\<lparr>rs_frameworks := detectFrameworks (createContext d rs)\<rparr>)"

text \<open>\<open>createResolver\<close>.\<close>

definition createResolver :: "(resolution_context \<Rightarrow> framework list) \<Rightarrow> project \<Rightarrow> db \<Rightarrow> resolver" where
  "createResolver detectFrameworks project d = initialize detectFrameworks d (new_resolver project)"

definition getDetectedFrameworks :: "resolver \<Rightarrow> string list" where
  "getDetectedFrameworks rs = map fw_name (rs_frameworks rs)"

section \<open>Language gates and Razor\<close>

definition getLanguageFromNodeId :: "db \<Rightarrow> string \<Rightarrow> language" where
  "getLanguageFromNodeId d nid = (case node_at d nid of Some n \<Rightarrow> n_language n | None \<Rightarrow> L_unknown)"

definition getFilePathFromNodeId :: "db \<Rightarrow> string \<Rightarrow> string" where
  "getFilePathFromNodeId d nid = (case node_at d nid of Some n \<Rightarrow> n_filePath n | None \<Rightarrow> '''')"

definition gateLanguage :: "db \<Rightarrow> unresolved_ref \<Rightarrow> resolved_ref option \<Rightarrow> resolved_ref option" where
  "gateLanguage d ref result =
     (case result of
        None \<Rightarrow> None
      | Some r \<Rightarrow>
          (let tgt = getLanguageFromNodeId d (m_targetNodeId r) in
           if x_referenceKind ref = EK_references \<and> \<not> sameLanguageFamily tgt (x_language ref) then None
           else if x_referenceKind ref = EK_imports \<and> crossesKnownFamily tgt (x_language ref) then None
           else Some r))"

definition gateFrameworkLanguage :: "db \<Rightarrow> unresolved_ref \<Rightarrow> resolved_ref option \<Rightarrow> resolved_ref option" where
  "gateFrameworkLanguage d ref result =
     (case result of
        None \<Rightarrow> None
      | Some r \<Rightarrow>
          if x_referenceKind ref \<notin> {EK_references, EK_imports} then Some r
          else if crossesKnownFamily (getLanguageFromNodeId d (m_targetNodeId r)) (x_language ref) then None
          else Some r)"

definition using_pat :: pat where
  "using_pat = pseq
     [Re Mbol, Re spaces, Re (re_str ''@using''), Re spaces1, Re (re_opt (Seq (re_str ''static'') spaces1)),
      Grp 1 (Re (Seq (Cls ident_start) (Star (Cls (\<lambda>c. is_word c \<or> c = CHR ''.'')))))]"

definition add_usings :: "string option \<Rightarrow> string list \<Rightarrow> string list" where
  "add_usings src usings =
     (case truthy src of
        None \<Rightarrow> usings
      | Some text \<Rightarrow> fold (\<lambda>g. set_add (grp g 1)) (cap_all using_pat text 0) usings)"

text \<open>The walk up to the project root, reading each level's \<open>_Imports.razor\<close>.\<close>

function razor_walk :: "resolution_context \<Rightarrow> string \<Rightarrow> string list \<Rightarrow> string list" where
  "razor_walk ctx dir usings =
     (if dir = '''' then add_usings (cx_readFile ctx ''_Imports.razor'') usings
      else razor_walk ctx (dirOf dir) (add_usings (cx_readFile ctx (dir @ ''/_Imports.razor'')) usings))"
  by pat_completeness auto
termination
proof (relation "measure (\<lambda>(ctx, dir, usings). length dir)", goal_cases)
  case (2 ctx dir usings)
  then show ?case
    by (auto simp: dirOf_def last_index_of_def split: option.split)
qed simp

declare razor_walk.simps [simp del]

text \<open>
  The usings of a file. The code memoises them in \<open>razorUsingsCache\<close>, which \<open>clearCaches\<close> does not clear; here they
  are read from the context at every use, which is the memoised value as long as the Razor files do not change
  during the life of the resolver.
\<close>

definition getRazorUsings :: "resolution_context \<Rightarrow> string \<Rightarrow> string list" where
  "getRazorUsings ctx filePath = razor_walk ctx (dirOf filePath) (add_usings (cx_readFile ctx filePath) [])"

definition resolveRazorUsing :: "resolution_context \<Rightarrow> unresolved_ref \<Rightarrow> resolved_ref option" where
  "resolveRazorUsing ctx ref =
     (if str_includes (x_referenceName ref) ''.'' \<or> str_includes (x_referenceName ref) ''::'' then None
      else (let cands = concat (map (\<lambda>ns. cx_nodesByQualifiedName ctx (ns @ ''::'' @ x_referenceName ref))
                  (getRazorUsings ctx (x_filePath ref)));
                found = fold (\<lambda>c. map_set (n_id c) c) cands []
            in case found of
                 [(nid, target)] \<Rightarrow> Some (resolved ref target (9 / 10) By_import)
               | _ \<Rightarrow> None))"

section \<open>One reference\<close>

definition matchesAnyImport :: "resolution_context \<Rightarrow> unresolved_ref \<Rightarrow> bool" where
  "matchesAnyImport ctx ref =
     list_ex (\<lambda>imp. im_localName imp = x_referenceName ref \<or> starts_with (x_referenceName ref) (im_localName imp @ ''.''))
       (cx_importMappings ctx (x_filePath ref) (x_language ref))"

text \<open>The framework round: a confident result ends the resolution (\<open>Inl\<close>), others are collected.\<close>

fun framework_round :: "db \<Rightarrow> resolution_context \<Rightarrow> unresolved_ref \<Rightarrow> framework list \<Rightarrow> resolved_ref list
    \<Rightarrow> resolved_ref + resolved_ref list" where
  "framework_round d ctx ref [] candidates = Inr candidates"
| "framework_round d ctx ref (f # fs) candidates =
     (case gateFrameworkLanguage d ref (fw_resolve f ref ctx) of
        None \<Rightarrow> framework_round d ctx ref fs candidates
      | Some r \<Rightarrow>
          if 9 / 10 \<le> m_confidence r then Inl r else framework_round d ctx ref fs (candidates @ [r]))"

text \<open>\<open>candidates.reduce((best, curr) => curr.confidence > best.confidence ? curr : best)\<close>\<close>

definition best_candidate :: "resolved_ref list \<Rightarrow> resolved_ref option" where
  "best_candidate candidates =
     (case candidates of
        [] \<Rightarrow> None
      | c # cs \<Rightarrow> Some (fold (\<lambda>curr best. if m_confidence best < m_confidence curr then curr else best) cs c))"

definition CHAIN_LANGUAGES :: "language list" where
  "CHAIN_LANGUAGES = [L_java, L_kotlin, L_csharp, L_swift, L_rust, L_go, L_scala, L_dart]"

definition SCOPED_CHAIN_LANGUAGES :: "language list" where
  "SCOPED_CHAIN_LANGUAGES = [L_rust]"

definition deferrable :: "unresolved_ref \<Rightarrow> bool" where
  "deferrable ref \<longleftrightarrow>
     x_referenceKind ref = EK_calls \<and> x_language ref \<in> set CHAIN_LANGUAGES \<and> chain_parts (x_referenceName ref) \<noteq> None"

text \<open>The result, and whether the reference is deferred to the conformance pass.\<close>

definition resolve_strategies :: "db \<Rightarrow> resolver \<Rightarrow> unresolved_ref \<Rightarrow> resolved_ref option \<times> bool" where
  "resolve_strategies d rs ref =
     (let ctx = createContext d rs in
      case framework_round d ctx ref (rs_frameworks rs) [] of
        Inl r \<Rightarrow> (Some r, False)
      | Inr candidates \<Rightarrow>
          (let importResult = gateLanguage d ref (resolveViaImport ref ctx);
               candidates = candidates @ (case importResult of Some r \<Rightarrow> [r] | None \<Rightarrow> [])
           in if (case importResult of Some r \<Rightarrow> 9 / 10 \<le> m_confidence r | None \<Rightarrow> False) then (importResult, False)
              else if isPhpIncludePathRef ref then (best_candidate candidates, False)
              else (let candidates = candidates @ (case gateLanguage d ref (matchReference ref ctx) of Some r \<Rightarrow> [r] | None \<Rightarrow> [])
                    in (best_candidate candidates, candidates = [] \<and> deferrable ref))))"

definition prefiltered :: "db \<Rightarrow> resolver \<Rightarrow> unresolved_ref \<Rightarrow> bool" where
  "prefiltered d rs ref \<longleftrightarrow>
     \<not> hasAnyPossibleMatch (rs_knownNames rs) (x_referenceName ref)
     \<and> \<not> matchesAnyImport (createContext d rs) ref
     \<and> \<not> list_ex (\<lambda>f. fw_claims f (x_referenceName ref)) (rs_frameworks rs)"

definition resolveOne :: "db \<Rightarrow> unresolved_ref \<Rightarrow> resolver \<Rightarrow> resolved_ref option \<times> resolver" where
  "resolveOne d ref rs =
     (if isBuiltInOrExternal (rs_knownNames rs) ref then (None, rs)
      else if prefiltered d rs ref then (None, rs)
      else (case resolveJvmImport ref (createContext d rs) of
          Some r \<Rightarrow> (Some r, rs)
        | None \<Rightarrow>
            (case (if x_language ref = L_razor then resolveRazorUsing (createContext d rs) ref else None) of
               Some r \<Rightarrow> (Some r, rs)
             | None \<Rightarrow>
                 (case resolve_strategies d rs ref of
                    (res, deferred) \<Rightarrow>
                      (res, if deferred then rs\<lparr>rs_deferredChainRefs := rs_deferredChainRefs rs @ [ref]\<rparr> else rs)))))"

section \<open>A list of references\<close>

definition to_unresolved_ref :: "db \<Rightarrow> unresolved_reference \<Rightarrow> unresolved_ref" where
  "to_unresolved_ref d ref =
     \<lparr>x_fromNodeId = u_fromNodeId ref, x_referenceName = u_referenceName ref, x_referenceKind = u_referenceKind ref,
      x_line = u_line ref, x_column = u_column ref,
      x_filePath = (case truthy (u_filePath ref) of Some p \<Rightarrow> p | None \<Rightarrow> getFilePathFromNodeId d (u_fromNodeId ref)),
      x_language = (case u_language ref of Some l \<Rightarrow> l | None \<Rightarrow> getLanguageFromNodeId d (u_fromNodeId ref))\<rparr>"

record resolution_result =
  rr_resolved :: "resolved_ref list"
  rr_unresolved :: "unresolved_ref list"
  rr_total :: nat
  rr_resolvedCount :: nat
  rr_unresolvedCount :: nat
  rr_byMethod :: "(resolved_by, nat) jmap"

fun resolve_loop :: "db \<Rightarrow> unresolved_ref list \<Rightarrow> resolver \<Rightarrow> (resolved_ref list \<times> unresolved_ref list) \<times> resolver" where
  "resolve_loop d [] rs = (([], []), rs)"
| "resolve_loop d (ref # refs) rs =
     (case resolveOne d ref rs of
        (result, rs1) \<Rightarrow>
          (case resolve_loop d refs rs1 of
             ((good, bad), rs2) \<Rightarrow>
               ((case result of Some r \<Rightarrow> (r # good, bad) | None \<Rightarrow> (good, ref # bad)), rs2)))"

definition resolveAll :: "unresolved_reference list \<Rightarrow> db \<Rightarrow> resolver \<Rightarrow> resolution_result \<times> resolver" where
  "resolveAll unresolvedRefs d rs =
     (case resolve_loop d (map (to_unresolved_ref d) unresolvedRefs) (warmCaches d rs) of
        ((good, bad), rs') \<Rightarrow>
          (\<lparr>rr_resolved = good, rr_unresolved = bad, rr_total = length unresolvedRefs,
            rr_resolvedCount = length good, rr_unresolvedCount = length bad,
            rr_byMethod = fold (\<lambda>r. bump (m_resolvedBy r)) good []\<rparr>, rs'))"

section \<open>Edges\<close>

fun resolved_by_str :: "resolved_by \<Rightarrow> string" where
  "resolved_by_str By_exact_match = ''exact-match''"
| "resolved_by_str By_import = ''import''"
| "resolved_by_str By_qualified_name = ''qualified-name''"
| "resolved_by_str By_framework = ''framework''"
| "resolved_by_str By_fuzzy = ''fuzzy''"
| "resolved_by_str By_instance_method = ''instance-method''"
| "resolved_by_str By_file_path = ''file-path''"

definition kind_at :: "db \<Rightarrow> string \<Rightarrow> node_kind option" where
  "kind_at d nid = map_option n_kind (node_at d nid)"

definition edge_kind_of :: "db \<Rightarrow> resolved_ref \<Rightarrow> edge_kind" where
  "edge_kind_of d ref =
     (let kind = x_referenceKind (m_original ref); target = kind_at d (m_targetNodeId ref) in
      if kind = EK_extends then
        (if target \<in> {Some NK_interface, Some NK_protocol}
            \<and> kind_at d (x_fromNodeId (m_original ref)) \<notin> {None, Some NK_interface, Some NK_protocol}
         then EK_implements else kind)
      else if kind = EK_calls then (if target \<in> {Some NK_class, Some NK_struct} then EK_instantiates else kind)
      else kind)"

definition edge_of :: "db \<Rightarrow> resolved_ref \<Rightarrow> edge" where
  "edge_of d ref =
     \<lparr>e_source = x_fromNodeId (m_original ref), e_target = m_targetNodeId ref, e_kind = edge_kind_of d ref,
      e_metadata = Some (JObj [(''confidence'', JNum (m_confidence ref)), (''resolvedBy'', JStr (resolved_by_str (m_resolvedBy ref)))]),
      e_line = Some (x_line (m_original ref)), e_column = Some (x_column (m_original ref)), e_provenance = None\<rparr>"

definition createEdges :: "db \<Rightarrow> resolved_ref list \<Rightarrow> edge list" where
  "createEdges d results = map (edge_of d) results"

section \<open>Persisting\<close>

abbreviation ref_key_of :: "unresolved_ref \<Rightarrow> ref_key" where
  "ref_key_of ref \<equiv> (x_fromNodeId ref, x_referenceName ref, x_referenceKind ref)"

type_synonym rstate = "resolver \<times> query_builder"

text \<open>An operation of the store, run on the second part of the state.\<close>

definition on_store :: "unit act \<Rightarrow> query_builder \<Rightarrow> (query_builder \<Rightarrow> (db_error + 'a) \<times> query_builder)
    \<Rightarrow> (db_error + 'a) \<times> query_builder" where
  "on_store f s k = (case f s of (Inl err, s') \<Rightarrow> (Inl err, s') | (Inr _, s') \<Rightarrow> k s')"

definition resolveAndPersist :: "unresolved_reference list \<Rightarrow> rstate \<Rightarrow> (db_error + resolution_result) \<times> rstate" where
  "resolveAndPersist unresolvedRefs st =
     (case st of (rs, s) \<Rightarrow>
        (case resolveAll unresolvedRefs (qb_db s) rs of
           (result, rs') \<Rightarrow>
             (case on_store (insertEdges (createEdges (qb_db s) (rr_resolved result))) s (\<lambda>s1.
                    on_store (deleteSpecificResolvedReferences (map (\<lambda>r. ref_key_of (m_original r)) (rr_resolved result))) s1
                      (\<lambda>s2. (Inr result, s2))) of
                (r, s') \<Rightarrow> (r, (rs', s')))))"

text \<open>One round of the batched loop.\<close>

definition batch_round :: "unresolved_reference list \<Rightarrow> rstate \<Rightarrow> (db_error + resolution_result) \<times> rstate" where
  "batch_round batch st =
     (case st of (rs, s) \<Rightarrow>
        (case resolveAll batch (qb_db s) rs of
           (result, rs') \<Rightarrow>
             (case on_store (insertEdges (createEdges (qb_db s) (rr_resolved result))) s (\<lambda>s1.
                    on_store (deleteSpecificResolvedReferences (map (\<lambda>r. ref_key_of (m_original r)) (rr_resolved result))) s1 (\<lambda>s2.
                    on_store (deleteSpecificResolvedReferences (map ref_key_of (rr_unresolved result))) s2
                      (\<lambda>s3. (Inr result, s3)))) of
                (r, s') \<Rightarrow> (r, (rs', s')))))"

record aggregate_stats =
  ag_total :: nat
  ag_resolved :: nat
  ag_unresolved :: nat
  ag_byMethod :: "(resolved_by, nat) jmap"

definition add_count :: "resolved_by \<times> nat \<Rightarrow> (resolved_by, nat) jmap \<Rightarrow> (resolved_by, nat) jmap" where
  "add_count mc m =
     (case mc of (how, c) \<Rightarrow> map_set how ((case map_get m how of Some k \<Rightarrow> k | None \<Rightarrow> 0) + c) m)"

definition aggregate :: "resolution_result \<Rightarrow> aggregate_stats \<Rightarrow> aggregate_stats" where
  "aggregate result stats =
     \<lparr>ag_total = ag_total stats + rr_total result, ag_resolved = ag_resolved stats + rr_resolvedCount result,
      ag_unresolved = ag_unresolved stats + rr_unresolvedCount result,
      ag_byMethod = fold add_count (rr_byMethod result) (ag_byMethod stats)\<rparr>"

text \<open>Inserting edges leaves the table of references alone, and deleting references never adds one.\<close>

lemma for_each_keeps:
  assumes "\<And>x s. P (qb_db (snd (f x s))) (qb_db s)" and "\<And>d. P d d" and "\<And>a b c. P a b \<Longrightarrow> P b c \<Longrightarrow> P a c"
  shows "P (qb_db (snd (for_each f xs s))) (qb_db s)"
proof (induction xs arbitrary: s)
  case (Cons x xs)
  obtain r s' where f: "f x s = (r, s')"
    by (cases "f x s")
  show ?case
    using assms(1) [of x s] Cons.IH [of s'] f assms(3) by (cases r) auto
qed (simp add: assms(2))

lemma transaction_keeps:
  assumes "\<And>s. P (qb_db (snd (f s))) (qb_db s)" and "\<And>d. P d d"
  shows "P (qb_db (snd (transaction f s))) (qb_db s)"
  using assms(1) [of "s\<lparr>qb_inTransaction := True\<rparr>"] assms(2)
  by (auto simp: transaction_def split: prod.split sum.split)

abbreviation refs_kept :: "db \<Rightarrow> db \<Rightarrow> bool" where
  "refs_kept d' d \<equiv> t_unresolved d' = t_unresolved d"

lemma insertEdges_refs: "t_unresolved (qb_db (snd (insertEdges es s))) = t_unresolved (qb_db s)"
proof -
  have "refs_kept (qb_db (snd (insertEdge e s))) (qb_db s)" for e s
    by (simp add: insertEdge_def sql_insert_edge_def)
  then have "refs_kept (qb_db (snd (for_each (\<lambda>edge s.
      if e_source edge \<notin> ids \<or> e_target edge \<notin> ids then (Inr (), s) else insertEdge edge s) es s))) (qb_db s)" for ids s
    by (intro for_each_keeps [where P = refs_kept]) auto
  then have "refs_kept (qb_db (snd (transaction (\<lambda>s.
      let existingNodeIds = getExistingNodeIds (endpoint_ids es []) (qb_db s)
      in for_each (\<lambda>edge s. if e_source edge \<notin> set existingNodeIds \<or> e_target edge \<notin> set existingNodeIds
           then (Inr (), s) else insertEdge edge s) es s) s))) (qb_db s)"
    by (intro transaction_keeps [where P = refs_kept]) (simp_all add: Let_def)
  then show ?thesis
    by (simp add: insertEdges_def)
qed

lemma deleteSpecific_count:
  "length (t_unresolved (qb_db (snd (deleteSpecificResolvedReferences ks s)))) \<le> length (t_unresolved (qb_db s))"
proof -
  define P :: "db \<Rightarrow> db \<Rightarrow> bool" where "P = (\<lambda>d' d. length (t_unresolved d') \<le> length (t_unresolved d))"
  have "P (qb_db (snd (for_each (\<lambda>ref. sql_delete_unresolved (\<lambda>u. row_key u = ref)) ks s))) (qb_db s)" for s
    by (rule for_each_keeps [where P = P]) (auto simp: P_def sql_delete_unresolved_def)
  then have "P (qb_db (snd (transaction (for_each (\<lambda>ref. sql_delete_unresolved (\<lambda>u. row_key u = ref)) ks) s))) (qb_db s)"
    by (intro transaction_keeps [where P = P]) (auto simp: P_def)
  then show ?thesis
    by (simp add: P_def deleteSpecificResolvedReferences_def)
qed

abbreviation ref_count :: "query_builder \<Rightarrow> nat" where
  "ref_count s \<equiv> getUnresolvedReferencesCount (qb_db s)"

lemma on_store_count:
  assumes "ref_count (snd (f s)) \<le> n" and "\<And>s'. ref_count s' \<le> n \<Longrightarrow> ref_count (snd (k s')) \<le> n"
  shows "ref_count (snd (on_store f s k)) \<le> n"
  using assms by (auto simp: on_store_def split: prod.splits sum.splits)

lemma batch_round_count: "ref_count (snd (snd (batch_round batch st))) \<le> ref_count (snd st)"
proof -
  obtain rs s where st: "st = (rs, s)"
    by (cases st)
  obtain result rs' where r: "resolveAll batch (qb_db s) rs = (result, rs')"
    by (cases "resolveAll batch (qb_db s) rs")
  have del: "ref_count (snd (deleteSpecificResolvedReferences ks s')) \<le> n" if "ref_count s' \<le> n" for ks s' n
    using deleteSpecific_count [of ks s'] that unfolding getUnresolvedReferencesCount_def by linarith
  have "ref_count (snd (on_store (insertEdges (createEdges (qb_db s) (rr_resolved result))) s (\<lambda>s1.
      on_store (deleteSpecificResolvedReferences (map (\<lambda>r. ref_key_of (m_original r)) (rr_resolved result))) s1 (\<lambda>s2.
      on_store (deleteSpecificResolvedReferences (map ref_key_of (rr_unresolved result))) s2
        (\<lambda>s3. (Inr result, s3)))))) \<le> ref_count s"
    by (intro on_store_count del) (simp_all add: insertEdges_refs getUnresolvedReferencesCount_def)
  then show ?thesis
    using st r by (auto simp: batch_round_def split: prod.split)
qed

section \<open>The batched loop\<close>

text \<open>
  \<open>while (true)\<close> of \<open>resolveAndPersistBatched\<close>. \<open>prevRemaining\<close> is none for the initial infinity.
  The two guards of the source end the loop: a round in which nothing was resolved, and a round after
  which the table is no smaller than before. The second one is why the loop always ends.
\<close>

function batched_loop :: "nat \<Rightarrow> nat option \<Rightarrow> aggregate_stats \<Rightarrow> rstate \<Rightarrow> (db_error + aggregate_stats) \<times> rstate" where
  "batched_loop batchSize prevRemaining stats st =
     (let batch = getUnresolvedReferencesBatch 0 batchSize (qb_db (snd st)) in
      if batch = [] then (Inr stats, st)
      else (case batch_round batch st of
          (Inl err, st') \<Rightarrow> (Inl err, st')
        | (Inr result, st') \<Rightarrow>
            (let stats' = aggregate result stats; remaining = ref_count (snd st') in
             if rr_resolved result = [] \<and> length (rr_unresolved result) = length batch then (Inr stats', st')
             else if (case prevRemaining of Some p \<Rightarrow> p \<le> remaining | None \<Rightarrow> False) then (Inr stats', st')
             else batched_loop batchSize (Some remaining) stats' st')))"
  by pat_completeness auto
termination
proof (relation "measure (\<lambda>(batchSize, prev, stats, st). case prev of None \<Rightarrow> Suc (ref_count (snd st)) | Some p \<Rightarrow> p)", goal_cases)
  case (2 batchSize prev stats st batch r st' result stats' remaining)
  have "ref_count (snd st') \<le> ref_count (snd st)"
    using batch_round_count [of batch st] 2(3) by (cases "batch_round batch st") simp
  then show ?case
    using 2 by (auto split: option.splits)
qed simp

declare batched_loop.simps [simp del]

definition resolveAndPersistBatched :: "nat \<Rightarrow> rstate \<Rightarrow> (db_error + aggregate_stats) \<times> rstate" where
  "resolveAndPersistBatched batchSize st =
     (case st of (rs, s) \<Rightarrow>
        batched_loop batchSize None \<lparr>ag_total = 0, ag_resolved = 0, ag_unresolved = 0, ag_byMethod = []\<rparr>
          (warmCaches (qb_db s) rs, s))"

section \<open>The conformance pass\<close>

definition conformance_match :: "db \<Rightarrow> resolver \<Rightarrow> unresolved_ref \<Rightarrow> resolved_ref option" where
  "conformance_match d rs ref =
     gateLanguage d ref
       (if x_language ref \<in> set SCOPED_CHAIN_LANGUAGES then matchScopedCallChain ref (createContext d rs)
        else matchDottedCallChain ref (createContext d rs))"

definition resolveChainedCallsViaConformance :: "rstate \<Rightarrow> (db_error + nat) \<times> rstate" where
  "resolveChainedCallsViaConformance st =
     (case st of (rs, s) \<Rightarrow>
        (let deferred = rs_deferredChainRefs rs; rs1 = rs\<lparr>rs_deferredChainRefs := []\<rparr> in
         if deferred = [] then (Inr 0, (rs1, s))
         else (let rs2 = clearCaches rs1;
                   matches = List.map_filter (conformance_match (qb_db s) rs2) deferred
               in if matches = [] then (Inr 0, (rs2, s))
                  else (let edges = createEdges (qb_db s) matches in
                    case insertEdges edges s of
                      (Inl err, s') \<Rightarrow> (Inl err, (rs2, s'))
                    | (Inr _, s') \<Rightarrow> (Inr (length edges), (clearCaches rs2, s'))))))"

section \<open>Framework finalisation\<close>

text \<open>
  \<open>runPostExtract\<close>: the nodes a framework returns are written one by one; an exception, of the
  framework or of the write, ends that framework's turn and is swallowed. Of the program's frameworks
  only NestJS has such a pass, so none reads nodes that were cached before another one's writes.
\<close>

fun update_nodes :: "node list \<Rightarrow> query_builder \<times> nat \<Rightarrow> query_builder \<times> nat" where
  "update_nodes [] st = st"
| "update_nodes (n # ns) (s, updated) =
     (case updateNode n s of
        (Inl _, s') \<Rightarrow> (s', updated)
      | (Inr _, s') \<Rightarrow> update_nodes ns (s', updated + 1))"

definition runPostExtract :: "rstate \<Rightarrow> nat \<times> rstate" where
  "runPostExtract st =
     (case st of (rs, s) \<Rightarrow>
        (let rs1 = clearCaches rs;
             (s', updated) = fold (\<lambda>fw (s, updated).
                case fw_postExtract fw (createContext (qb_db s) rs1) of
                  Some nodes \<Rightarrow> update_nodes nodes (s, updated)
                | None \<Rightarrow> (s, updated)) (rs_frameworks rs1) (s, 0)
         in (updated, (if 0 < updated then clearCaches rs1 else rs1, s'))))"

section \<open>The context keeps the contract of the matchers\<close>

lemma rowToNode_stored: "n \<in> rowToNode ` set rows \<Longrightarrow> set rows \<subseteq> set (t_nodes d) \<Longrightarrow> n_id n \<in> node_ids d"
  by (auto simp: row_keys)

interpretation dbctx: lookup_laws "createContext d rs" "node_ids d" for d rs
  by unfold_locales
    (auto simp: createContext_def Let_def getNodesByName_def getNodesByQualifiedNameExact_def getNodesByLowerName_def
      getNodesByFile_def row_keys)

section \<open>Soundness of the resolution\<close>

definition match_known :: "string set \<Rightarrow> unresolved_ref \<Rightarrow> resolved_ref option \<Rightarrow> bool" where
  "match_known ids ref res =
     (case res of None \<Rightarrow> True | Some m \<Rightarrow> m_original m = ref \<and> m_targetNodeId m \<in> ids)"

text \<open>A match of the resolver's own strategies, or one a framework made.\<close>

definition match_from :: "string set \<Rightarrow> unresolved_ref \<Rightarrow> resolution_context \<Rightarrow> framework list \<Rightarrow> resolved_ref \<Rightarrow> bool" where
  "match_from ids ref ctx fws m \<longleftrightarrow>
     match_ok ids ref (Some m) \<or> (\<exists>f\<in>set fws. fw_resolve f ref ctx = Some m)"

lemma gateLanguage_cases: "gateLanguage d ref res = None \<or> gateLanguage d ref res = res"
  by (auto simp: gateLanguage_def Let_def split: option.split)

lemma gateFramework_cases: "gateFrameworkLanguage d ref res = None \<or> gateFrameworkLanguage d ref res = res"
  by (auto simp: gateFrameworkLanguage_def split: option.split)

lemma best_candidate_mem: "best_candidate cs = Some r \<Longrightarrow> r \<in> set cs"
proof -
  have "fold (\<lambda>curr best. if m_confidence best < m_confidence curr then curr else best) xs b \<in> insert b (set xs)" for xs b
  proof (induction xs arbitrary: b)
    case (Cons x xs)
    show ?case
      using Cons.IH [of x] Cons.IH [of b] by auto
  qed simp
  then show "best_candidate cs = Some r \<Longrightarrow> r \<in> set cs"
    by (cases cs) (auto simp: best_candidate_def)
qed

lemma framework_round_from:
  "framework_round d ctx ref fs acc = Inl r \<Longrightarrow> \<exists>f\<in>set fs. fw_resolve f ref ctx = Some r"
  "framework_round d ctx ref fs acc = Inr cs \<Longrightarrow> r \<in> set cs \<Longrightarrow> r \<in> set acc \<or> (\<exists>f\<in>set fs. fw_resolve f ref ctx = Some r)"
proof (induction fs arbitrary: acc)
  case (Cons f fs)
  {
    case 1
    then show ?case
      using gateFramework_cases [of d ref "fw_resolve f ref ctx"] Cons.IH(1)
      by (auto split: option.splits if_splits)
  next
    case 2
    then show ?case
      using gateFramework_cases [of d ref "fw_resolve f ref ctx"] Cons.IH(2)
      by (fastforce split: option.splits if_splits)
  }
qed auto

lemma own_match:
  "match_ok ids ref res \<Longrightarrow> gateLanguage d ref res = Some r \<Longrightarrow> match_from ids ref ctx fws r"
  using gateLanguage_cases [of d ref res] by (auto simp: match_from_def)

lemma resolve_strategies_from:
  assumes "fst (resolve_strategies d rs ref) = Some r"
  shows "match_from (node_ids d) ref (createContext d rs) (rs_frameworks rs) r"
proof -
  define ctx where "ctx = createContext d rs"
  show ?thesis
  proof (cases "framework_round d ctx ref (rs_frameworks rs) []")
    case (Inl r')
    then have "r' = r"
      using assms by (simp add: resolve_strategies_def ctx_def Let_def)
    then show ?thesis
      using framework_round_from(1) [OF Inl] by (auto simp: match_from_def ctx_def)
  next
    case (Inr cs)
    have fw: "match_from (node_ids d) ref ctx (rs_frameworks rs) c" if "c \<in> set cs" for c
      using framework_round_from(2) [OF Inr that] by (auto simp: match_from_def)
    have imp: "match_from (node_ids d) ref ctx (rs_frameworks rs) c"
      if "gateLanguage d ref (resolveViaImport ref ctx) = Some c" for c
      using own_match [OF dbctx.resolveViaImport_ok] that unfolding ctx_def by blast
    have nm: "match_from (node_ids d) ref ctx (rs_frameworks rs) c"
      if "gateLanguage d ref (matchReference ref ctx) = Some c" for c
      using own_match [OF dbctx.matchReference_ok] that unfolding ctx_def by blast
    have "match_from (node_ids d) ref ctx (rs_frameworks rs) r"
      using assms Inr unfolding resolve_strategies_def ctx_def [symmetric] Let_def
      by (auto split: option.splits if_splits dest!: best_candidate_mem dest: fw imp nm)
    then show ?thesis
      by (simp add: ctx_def)
  qed
qed

lemma map_set_mem: "p \<in> set (map_set k v m) \<Longrightarrow> p \<in> set m \<or> p = (k, v)"
  by (induction m) (auto split: if_splits)

lemma resolveRazorUsing_ok: "match_ok (node_ids d) ref (resolveRazorUsing (createContext d rs) ref)"
proof -
  define cands where "cands = concat (map (\<lambda>ns. cx_nodesByQualifiedName (createContext d rs) (ns @ ''::'' @ x_referenceName ref))
      (getRazorUsings (createContext d rs) (x_filePath ref)))"
  define found where "found = fold (\<lambda>c. map_set (n_id c) c) cands []"
  have "p \<in> set acc \<or> snd p \<in> set cs" if "p \<in> set (fold (\<lambda>c. map_set (n_id c) c) cs acc)" for p cs and acc :: "(string \<times> node) list"
    using that
  proof (induction cs arbitrary: acc)
    case (Cons c cs)
    then show ?case
      using Cons.IH [of "map_set (n_id c) c acc"] map_set_mem [of p "n_id c" c acc] by auto
  qed simp
  then have "snd p \<in> set cands" if "p \<in> set found" for p
    using that unfolding found_def by fastforce
  moreover have "n_id c \<in> node_ids d" if "c \<in> set cands" for c
    using that unfolding cands_def by (auto intro: dbctx.by_qualified)
  ultimately have mem: "n_id (snd p) \<in> node_ids d" if "p \<in> set found" for p
    using that by blast
  have "resolveRazorUsing (createContext d rs) ref = None
      \<or> resolveRazorUsing (createContext d rs) ref =
          (case found of [(nid, target)] \<Rightarrow> Some (resolved ref target (9 / 10) By_import) | _ \<Rightarrow> None)"
    unfolding resolveRazorUsing_def Let_def found_def cands_def by simp
  then show ?thesis
  proof
    assume eq: "resolveRazorUsing (createContext d rs) ref = None"
    show ?thesis
      unfolding eq by simp
  next
    assume eq: "resolveRazorUsing (createContext d rs) ref =
          (case found of [(nid, target)] \<Rightarrow> Some (resolved ref target (9 / 10) By_import) | _ \<Rightarrow> None)"
    show ?thesis
      unfolding eq using mem by (fastforce intro!: match_ok_resolved split: list.split)
  qed
qed

lemma resolveOne_from:
  assumes "fst (resolveOne d ref rs) = Some m"
  shows "match_from (node_ids d) ref (createContext d rs) (rs_frameworks rs) m"
proof (cases "resolveJvmImport ref (createContext d rs)")
  case None
  show ?thesis
  proof (cases "if x_language ref = L_razor then resolveRazorUsing (createContext d rs) ref else None")
    case None
    then have "fst (resolve_strategies d rs ref) = Some m"
      using assms \<open>resolveJvmImport ref (createContext d rs) = None\<close>
      by (auto simp: resolveOne_def split: if_splits prod.splits)
    then show ?thesis
      by (rule resolve_strategies_from)
  next
    case (Some r)
    then show ?thesis
      using assms \<open>resolveJvmImport ref (createContext d rs) = None\<close> resolveRazorUsing_ok [of d ref rs]
      by (auto simp: resolveOne_def match_from_def split: if_splits)
  qed
next
  case (Some r)
  then show ?thesis
    using assms dbctx.resolveJvmImport_ok [of d ref rs]
    by (auto simp: resolveOne_def match_from_def split: if_splits)
qed

text \<open>
  C11: a reference is resolved only to a node of the database, and the match carries that very reference
  (its row is deleted by that key); unless a framework made it, its confidence lies between 0.3 and 0.95.
\<close>

theorem resolveOne_sound:
  assumes "list_all (\<lambda>f. match_known (node_ids d) ref (fw_resolve f ref (createContext d rs))) (rs_frameworks rs)"
  shows "case fst (resolveOne d ref rs) of
      None \<Rightarrow> True
    | Some m \<Rightarrow> m_original m = ref \<and> m_targetNodeId m \<in> node_ids d
        \<and> (3 / 10 \<le> m_confidence m \<and> m_confidence m \<le> 95 / 100
           \<or> list_ex (\<lambda>f. fw_resolve f ref (createContext d rs) = Some m) (rs_frameworks rs))"
proof (cases "fst (resolveOne d ref rs)")
  case (Some m)
  show ?thesis
    using resolveOne_from [OF Some] Some assms
    by (auto simp: match_from_def match_ok_def match_known_def list_all_iff list_ex_iff)
qed simp

text \<open>A database with the class \<open>Widget\<close>, and a framework that knows it.\<close>

definition widget_db :: db where
  "widget_db = empty_db\<lparr>t_nodes :=
     [\<lparr>r_id = ''n1'', r_kind = NK_class, r_name = ''Widget'', r_qualified_name = ''Widget'', r_file_path = ''w.tsx'',
       r_language = L_tsx, r_start_line = 1, r_end_line = 2, r_start_column = 0, r_end_column = 0,
       r_docstring = None, r_signature = None, r_visibility = None, r_is_exported = 0, r_is_async = 0,
       r_is_static = 0, r_is_abstract = 0, r_decorators = None, r_type_parameters = None,
       r_return_type = None, r_updated_at = 0\<rparr>]\<rparr>"

definition widget_framework :: framework where
  "widget_framework =
     \<lparr>fw_name = ''react'',
      fw_resolve = (\<lambda>ref ctx. if x_referenceName ref = ''Widget''
        then Some \<lparr>m_original = ref, m_targetNodeId = ''n1'', m_confidence = 9 / 10, m_resolvedBy = By_framework\<rparr>
        else None),
      fw_claims = (\<lambda>n. n = ''Widget''), fw_postExtract = (\<lambda>ctx. None)\<rparr>"

definition widget_project :: project where
  "widget_project =
     \<lparr>pj_root = ''/p'', pj_exists = (\<lambda>p. p = ''/p/w.tsx''), pj_read = (\<lambda>p. None), pj_dirs = (\<lambda>p. None),
      pj_aliases = None, pj_goModule = None, pj_workspaces = None, pj_includeDirs = []\<rparr>"

definition widget_ref :: unresolved_ref where
  "widget_ref =
     \<lparr>x_fromNodeId = ''n1'', x_referenceName = ''Widget'', x_referenceKind = EK_references, x_line = 3, x_column = 4,
      x_filePath = ''w.tsx'', x_language = L_tsx\<rparr>"

theorem resolveOne_sound_witness:
  "case fst (resolveOne widget_db widget_ref ((new_resolver widget_project)\<lparr>rs_frameworks := [widget_framework]\<rparr>)) of
      None \<Rightarrow> True
    | Some m \<Rightarrow> m_targetNodeId m = ''n1''"
proof -
  have "list_all (\<lambda>f. match_known (node_ids widget_db) widget_ref
      (fw_resolve f widget_ref (createContext widget_db ((new_resolver widget_project)\<lparr>rs_frameworks := [widget_framework]\<rparr>))))
      (rs_frameworks ((new_resolver widget_project)\<lparr>rs_frameworks := [widget_framework]\<rparr>))"
    by (simp add: widget_db_def widget_ref_def widget_framework_def match_known_def)
  from resolveOne_sound [OF this] show ?thesis
    by (auto simp: widget_db_def split: option.splits)
qed

section \<open>Type references stay in their language family\<close>

lemma gateLanguage_family:
  "gateLanguage d ref res = Some r \<Longrightarrow> x_referenceKind ref = EK_references \<Longrightarrow>
     sameLanguageFamily (getLanguageFromNodeId d (m_targetNodeId r)) (x_language ref)"
  by (auto simp: gateLanguage_def Let_def split: option.splits if_splits)

lemma gateFramework_family:
  "gateFrameworkLanguage d ref res = Some r \<Longrightarrow> x_referenceKind ref = EK_references \<Longrightarrow>
     \<not> crossesKnownFamily (getLanguageFromNodeId d (m_targetNodeId r)) (x_language ref)"
  by (auto simp: gateFrameworkLanguage_def split: option.splits if_splits)

definition in_family :: "db \<Rightarrow> unresolved_ref \<Rightarrow> resolved_ref \<Rightarrow> bool" where
  "in_family d ref r \<longleftrightarrow> \<not> crossesKnownFamily (getLanguageFromNodeId d (m_targetNodeId r)) (x_language ref)"

lemma same_family_not_crossing: "sameLanguageFamily a b \<Longrightarrow> \<not> crossesKnownFamily a b"
  by (simp add: crossesKnownFamily_def)

lemma framework_round_family:
  assumes "x_referenceKind ref = EK_references"
  shows "framework_round d ctx ref fs acc = Inl r \<Longrightarrow> in_family d ref r"
    and "framework_round d ctx ref fs acc = Inr cs \<Longrightarrow> list_all (in_family d ref) acc \<Longrightarrow> list_all (in_family d ref) cs"
proof (induction fs arbitrary: acc)
  case (Cons f fs)
  have g: "in_family d ref c" if "gateFrameworkLanguage d ref (fw_resolve f ref ctx) = Some c" for c
    using gateFramework_family [OF that assms] by (simp add: in_family_def)
  {
    case 1
    then show ?case
      using g Cons.IH(1) by (auto split: option.splits if_splits)
  next
    case 2
    then show ?case
      using g Cons.IH(2) by (auto split: option.splits if_splits)
  }
qed auto

lemma resolve_strategies_family:
  assumes "x_referenceKind ref = EK_references" and "fst (resolve_strategies d rs ref) = Some r"
  shows "in_family d ref r"
proof -
  define ctx where "ctx = createContext d rs"
  have gate: "in_family d ref c" if "gateLanguage d ref res = Some c" for c res
    using gateLanguage_family [OF that assms(1)] by (simp add: in_family_def same_family_not_crossing)
  show ?thesis
  proof (cases "framework_round d ctx ref (rs_frameworks rs) []")
    case (Inl r')
    then show ?thesis
      using framework_round_family(1) [OF assms(1) Inl] assms(2) by (simp add: resolve_strategies_def ctx_def Let_def)
  next
    case (Inr cs)
    have cs: "in_family d ref c" if "c \<in> set cs" for c
      using framework_round_family(2) [OF assms(1) Inr] that by (auto simp: list_all_iff)
    show ?thesis
      using assms(2) Inr unfolding resolve_strategies_def ctx_def [symmetric] Let_def
      by (auto split: option.splits if_splits dest!: best_candidate_mem dest: cs gate)
  qed
qed

text \<open>
  C32: a type reference never resolves across two known language families, whatever the frameworks propose,
  except that a Razor reference may, by the lookup of the namespaces that a Razor file uses, which does not look
  at languages.
\<close>

theorem type_references_in_family:
  "\<not> (x_referenceKind ref = EK_references \<and>
      (\<exists>r n. fst (resolveOne d ref rs) = Some r \<and> node_at d (m_targetNodeId r) = Some n
        \<and> crossesKnownFamily (n_language n) (x_language ref)
        \<and> \<not> (x_language ref = L_razor \<and> resolveRazorUsing (createContext d rs) ref = Some r)))"
proof
  assume a: "x_referenceKind ref = EK_references \<and>
      (\<exists>r n. fst (resolveOne d ref rs) = Some r \<and> node_at d (m_targetNodeId r) = Some n
        \<and> crossesKnownFamily (n_language n) (x_language ref)
        \<and> \<not> (x_language ref = L_razor \<and> resolveRazorUsing (createContext d rs) ref = Some r))"
  then obtain r n where r: "fst (resolveOne d ref rs) = Some r" "node_at d (m_targetNodeId r) = Some n"
      "crossesKnownFamily (n_language n) (x_language ref)"
      "\<not> (x_language ref = L_razor \<and> resolveRazorUsing (createContext d rs) ref = Some r)"
    by blast
  have "resolveJvmImport ref (createContext d rs) = None"
    using a by (simp add: resolveJvmImport_def)
  then have "fst (resolve_strategies d rs ref) = Some r"
    using r(1,4) by (auto simp: resolveOne_def split: if_splits prod.splits option.splits)
  then have "in_family d ref r"
    using resolve_strategies_family a by blast
  then show False
    using r(2,3) by (simp add: in_family_def getLanguageFromNodeId_def)
qed

section \<open>The kinds of the edges\<close>

text \<open>
  An edge runs from the node of the reference to the target of the match and keeps its kind except
  for two promotions, which are complete: no edge calls a class or struct, and none extends an interface
  or protocol from a stored node that is neither.
\<close>

theorem createEdges_kinds:
  "map e_source (createEdges d results) = map (\<lambda>r. x_fromNodeId (m_original r)) results
   \<and> map e_target (createEdges d results) = map m_targetNodeId results
   \<and> list_all (\<lambda>e. \<not> (e_kind e = EK_calls \<and> kind_at d (e_target e) \<in> {Some NK_class, Some NK_struct})
        \<and> \<not> (e_kind e = EK_extends \<and> kind_at d (e_target e) \<in> {Some NK_interface, Some NK_protocol}
              \<and> kind_at d (e_source e) \<notin> {None, Some NK_interface, Some NK_protocol})) (createEdges d results)
   \<and> list_all2 (\<lambda>e r. e_kind e = x_referenceKind (m_original r)
        \<or> (x_referenceKind (m_original r), e_kind e) \<in> {(EK_extends, EK_implements), (EK_calls, EK_instantiates)})
       (createEdges d results) results"
  by (induction results) (auto simp: createEdges_def edge_of_def edge_kind_of_def Let_def)

section \<open>The pre-filter and fuzzy names\<close>

lemma prefilter_drops:
  assumes "prefiltered d rs ref"
  shows "resolveOne d ref rs = (None, rs)"
  using assms by (simp add: resolveOne_def)

lemma simple_name_unknown:
  assumes "names = Some ns" and "name \<notin> set ns" and "\<not> str_includes name ''.''" and "\<not> str_includes name ''::''"
    and "\<not> str_includes name ''/''"
  shows "\<not> hasAnyPossibleMatch names name"
proof -
  have "last_index_of name ''/'' = None"
    using assms(5) sublist_rev [of "''/''" name] index_of_None [of "rev name" "''/''"] by (simp add: last_index_of_def)
  moreover have "index_of name ''.'' = None" "index_of name ''::'' = None"
    using assms(3,4) by (simp_all add: index_of_None)
  ultimately show ?thesis
    using assms(1,2) by (simp add: hasAnyPossibleMatch_def known_def dotted_known_def scoped_known_def path_known_def)
qed

text \<open>
  A simple name that only a case-insensitive match would find is dropped by the pre-filter: the fuzzy
  strategy is not reached.
\<close>

lemma fuzzy_unreachable:
  assumes "rs_knownNames rs = Some (getAllNodeNames d)" and "x_referenceName ref \<notin> set (getAllNodeNames d)"
    and "\<not> str_includes (x_referenceName ref) ''.''" and "\<not> str_includes (x_referenceName ref) ''::''"
    and "\<not> str_includes (x_referenceName ref) ''/''"
    and "\<not> matchesAnyImport (createContext d rs) ref"
    and "\<not> list_ex (\<lambda>f. fw_claims f (x_referenceName ref)) (rs_frameworks rs)"
  shows "fst (resolveOne d ref rs) = None"
  using prefilter_drops [of d rs ref] simple_name_unknown [OF assms(1-5)] assms(6,7)
  by (simp add: prefiltered_def)

section \<open>The batched loop drains the table\<close>

text \<open>A framework is honest when its matches carry the reference they were asked for.\<close>

definition honest :: "framework \<Rightarrow> bool" where
  "honest f \<longleftrightarrow> (\<forall>ref ctx. case fw_resolve f ref ctx of Some m \<Rightarrow> m_original m = ref | None \<Rightarrow> True)"

lemma deleteSpecific_result:
  assumes "\<not> qb_inTransaction s"
  shows "deleteSpecificResolvedReferences ks s =
    (Inr (), s\<lparr>qb_db := (qb_db s)\<lparr>t_unresolved := filter (\<lambda>u. row_key u \<notin> set ks) (t_unresolved (qb_db s))\<rparr>\<rparr>)"
proof -
  have "for_each (\<lambda>ref. sql_delete_unresolved (\<lambda>u. row_key u = ref)) ks t =
    (Inr (), t\<lparr>qb_db := (qb_db t)\<lparr>t_unresolved := filter (\<lambda>u. row_key u \<notin> set ks) (t_unresolved (qb_db t))\<rparr>\<rparr>)" for t
    by (induction ks arbitrary: t) (auto simp: sql_delete_unresolved_def intro!: filter_cong)
  then show ?thesis
    using assms by (simp add: deleteSpecificResolvedReferences_def transaction_def)
qed

lemma resolveOne_frameworks [simp]: "rs_frameworks (snd (resolveOne d ref rs)) = rs_frameworks rs"
  by (auto simp: resolveOne_def split: option.split prod.split)

lemma warmCaches_frameworks [simp]: "rs_frameworks (warmCaches d rs) = rs_frameworks rs"
  by (simp add: warmCaches_def)

lemma resolveOne_original:
  assumes "list_all honest (rs_frameworks rs)" and "fst (resolveOne d ref rs) = Some m"
  shows "m_original m = ref"
  using resolveOne_from [OF assms(2)] assms(1)
  by (fastforce simp: match_from_def match_ok_def list_all_iff honest_def split: option.splits)

lemma resolve_loop_keys:
  assumes "list_all honest (rs_frameworks rs)" and "resolve_loop d refs rs = ((good, bad), rs')"
  shows "ref_key_of ` (m_original ` set good \<union> set bad) = ref_key_of ` set refs
    \<and> length good + length bad = length refs \<and> rs_frameworks rs' = rs_frameworks rs"
  using assms
proof (induction refs arbitrary: rs good bad rs')
  case (Cons ref refs)
  obtain res rs1 where one: "resolveOne d ref rs = (res, rs1)"
    by (cases "resolveOne d ref rs")
  obtain good1 bad1 rs2 where rest: "resolve_loop d refs rs1 = ((good1, bad1), rs2)"
    by (metis prod.collapse)
  have fws: "rs_frameworks rs1 = rs_frameworks rs"
    using resolveOne_frameworks [of d ref rs] one by simp
  then have h1: "list_all honest (rs_frameworks rs1)"
    using Cons.prems(1) by simp
  have orig: "m_original m = ref" if "res = Some m" for m
    using resolveOne_original [OF Cons.prems(1), of d ref m] one that by simp
  have "((case res of Some m \<Rightarrow> (m # good1, bad1) | None \<Rightarrow> (good1, ref # bad1)), rs2) = ((good, bad), rs')"
    using Cons.prems(2) by (simp only: resolve_loop.simps(2) one rest prod.case)
  then have eq: "good = (case res of Some m \<Rightarrow> m # good1 | None \<Rightarrow> good1)
      \<and> bad = (case res of Some m \<Rightarrow> bad1 | None \<Rightarrow> ref # bad1) \<and> rs' = rs2"
    by (cases res) (simp_all only: option.case prod.inject simp_thms)
  define key where "key = (\<lambda>r. ref_key_of r)"
  have "key ` (m_original ` set good \<union> set bad) = insert (key ref) (key ` (m_original ` set good1 \<union> set bad1))"
  proof (cases res)
    case None
    then have "good = good1" "bad = ref # bad1"
      using eq by simp_all
    then show ?thesis
      by simp
  next
    case (Some m)
    then have "good = m # good1" "bad = bad1" "m_original m = ref"
      using eq orig by simp_all
    then show ?thesis
      by simp
  qed
  moreover have "key ` (m_original ` set good1 \<union> set bad1) = key ` set refs" "rs_frameworks rs2 = rs_frameworks rs1"
      "length good1 + length bad1 = length refs"
    using Cons.IH [OF h1 rest] unfolding key_def by blast+
  moreover have "length good + length bad = Suc (length good1 + length bad1)"
    using eq by (cases res) simp_all
  ultimately show ?case
    using eq fws unfolding key_def [symmetric] by simp
qed auto

lemma key_of_row: "ref_key_of (to_unresolved_ref d (rowToUnresolved u)) = row_key u"
  by (simp add: to_unresolved_ref_def rowToUnresolved_def)

abbreviation batch_of :: "nat \<Rightarrow> rstate \<Rightarrow> unresolved_reference list" where
  "batch_of n st \<equiv> getUnresolvedReferencesBatch 0 n (qb_db (snd st))"

definition next_round :: "nat \<Rightarrow> rstate \<Rightarrow> rstate" where
  "next_round n st = snd (batch_round (batch_of n st) st)"

definition nothing_resolved :: "nat \<Rightarrow> rstate \<Rightarrow> bool" where
  "nothing_resolved n st =
     (case fst (batch_round (batch_of n st) st) of Inr result \<Rightarrow> rr_resolved result = [] | Inl _ \<Rightarrow> False)"

text \<open>A good state between two rounds.\<close>

definition round_ok :: "rstate \<Rightarrow> bool" where
  "round_ok st \<longleftrightarrow> list_all honest (rs_frameworks (fst st)) \<and> \<not> qb_inTransaction (snd st) \<and> qb_inv (snd st)"

lemma round_result:
  assumes "round_ok st"
  shows "\<exists>result st'. batch_round (batch_of n st) st = (Inr result, st')
    \<and> rr_resolved result = rr_resolved (fst (resolveAll (batch_of n st) (qb_db (snd st)) (fst st)))
    \<and> length (rr_resolved result) + length (rr_unresolved result) = length (batch_of n st)
    \<and> t_unresolved (qb_db (snd st')) =
        filter (\<lambda>u. row_key u \<notin> row_key ` set (take n (t_unresolved (qb_db (snd st))))) (t_unresolved (qb_db (snd st)))
    \<and> round_ok st'"
proof -
  obtain rs s where st: "st = (rs, s)"
    by (cases st)
  define refs where "refs = map (to_unresolved_ref (qb_db s)) (batch_of n st)"
  obtain good bad rs' where loop: "resolve_loop (qb_db s) refs (warmCaches (qb_db s) rs) = ((good, bad), rs')"
    by (metis prod.collapse)
  have h: "list_all honest (rs_frameworks (warmCaches (qb_db s) rs))"
    using assms st by (simp add: round_ok_def)
  have keys: "ref_key_of ` (m_original ` set good \<union> set bad) = ref_key_of ` set refs"
      "length good + length bad = length refs" "rs_frameworks rs' = rs_frameworks (warmCaches (qb_db s) rs)"
    using resolve_loop_keys [OF h loop] by blast+
  have refkeys: "ref_key_of ` set refs = row_key ` set (take n (t_unresolved (qb_db s)))"
    unfolding refs_def st getUnresolvedReferencesBatch_def
    by (auto simp: image_image key_of_row)
  obtain result where result: "resolveAll (batch_of n st) (qb_db s) rs = (result, rs')"
      "rr_resolved result = good" "rr_unresolved result = bad"
    using loop unfolding resolveAll_def refs_def by simp
  have tx: "\<not> qb_inTransaction s" and inv: "qb_inv s"
    using assms st by (simp_all add: round_ok_def)
  define s1 where "s1 = snd (insertEdges (createEdges (qb_db s) good) s)"
  define s2 where "s2 = snd (deleteSpecificResolvedReferences (map (\<lambda>r. ref_key_of (m_original r)) good) s1)"
  define s3 where "s3 = snd (deleteSpecificResolvedReferences (map ref_key_of bad) s2)"
  have i1: "insertEdges (createEdges (qb_db s) good) s = (Inr (), s1)" and t1: "\<not> qb_inTransaction s1"
    and u1: "t_unresolved (qb_db s1) = t_unresolved (qb_db s)"
    using insertEdges_result [OF tx, of "createEdges (qb_db s) good"] tx insertEdges_refs [of "createEdges (qb_db s) good" s]
    by (simp_all add: s1_def)
  have i2: "deleteSpecificResolvedReferences (map (\<lambda>r. ref_key_of (m_original r)) good) s1 = (Inr (), s2)"
    and t2: "\<not> qb_inTransaction s2"
    and u2: "t_unresolved (qb_db s2) = filter (\<lambda>u. row_key u \<notin> ref_key_of ` m_original ` set good) (t_unresolved (qb_db s))"
    using deleteSpecific_result [OF t1, of "map (\<lambda>r. ref_key_of (m_original r)) good"] t1 u1
    by (simp_all add: s2_def image_image)
  have i3: "deleteSpecificResolvedReferences (map ref_key_of bad) s2 = (Inr (), s3)"
    and t3: "\<not> qb_inTransaction s3"
    and u3: "t_unresolved (qb_db s3) = filter (\<lambda>u. row_key u \<notin> ref_key_of ` set bad) (t_unresolved (qb_db s2))"
    using deleteSpecific_result [OF t2, of "map ref_key_of bad"] t2 by (simp_all add: s3_def)
  have del: "qb_inv (snd (deleteSpecificResolvedReferences ks t))" if "qb_inv t" for ks t
  proof (cases "ks = []")
    case False
    then show ?thesis
      using unref_batch.batch_safe [OF that, of ks] by (simp add: deleteSpecificResolvedReferences_def safe_step_def)
  qed (simp add: deleteSpecificResolvedReferences_def that)
  have inv3: "qb_inv s3"
    using safe_insert_edges [OF inv, of "createEdges (qb_db s) good"] del
    unfolding s3_def s2_def s1_def by (simp add: safe_step_def)
  have "batch_round (batch_of n st) st = (Inr result, (rs', s3))"
    using result i1 i2 i3 st by (simp add: batch_round_def on_store_def)
  moreover have "t_unresolved (qb_db s3) =
      filter (\<lambda>u. row_key u \<notin> row_key ` set (take n (t_unresolved (qb_db s)))) (t_unresolved (qb_db s))"
    using keys(1) unfolding u3 u2 filter_filter refkeys [symmetric] by (intro filter_cong) auto
  moreover have "round_ok (rs', s3)"
    using keys(3) t3 inv3 h by (simp add: round_ok_def)
  ultimately show ?thesis
    using result keys(2) st by (auto simp: refs_def)
qed

lemma filter_take_shorter:
  assumes "0 < n" and "us \<noteq> []"
  shows "length (filter (\<lambda>u. f u \<notin> f ` set (take n us)) us) < length us"
proof (rule length_filter_less)
  show "hd us \<in> set us"
    using assms(2) by simp
  have "hd us \<in> set (take n us)"
    using assms by (cases us; cases n) auto
  then show "\<not> f (hd us) \<notin> f ` set (take n us)"
    by blast
qed

lemma batch_empty: "0 < n \<Longrightarrow> batch_of n st = [] \<longleftrightarrow> t_unresolved (qb_db (snd st)) = []"
  by (cases "t_unresolved (qb_db (snd st))"; cases n) (auto simp: getUnresolvedReferencesBatch_def)

lemma batched_loop_drains:
  assumes "0 < n"
  shows "round_ok st \<Longrightarrow> prev = None \<or> prev = Some (ref_count (snd st)) \<Longrightarrow>
    \<exists>k stats'. k \<le> ref_count (snd st) \<and> batched_loop n prev stats st = (Inr stats', (next_round n ^^ k) st)
      \<and> round_ok ((next_round n ^^ k) st)
      \<and> (t_unresolved (qb_db (snd ((next_round n ^^ k) st))) = []
         \<or> (\<exists>j. k = Suc j \<and> nothing_resolved n ((next_round n ^^ j) st)))"
proof (induction "ref_count (snd st)" arbitrary: st prev stats rule: less_induct)
  case less
  show ?case
  proof (cases "batch_of n st = []")
    case True
    then have "batched_loop n prev stats st = (Inr stats, st)"
      by (subst batched_loop.simps) simp
    then show ?thesis
      using True batch_empty [OF assms, of st] less.prems(1) by (intro exI [of _ 0]) auto
  next
    case False
    obtain result st' where round: "batch_round (batch_of n st) st = (Inr result, st')"
      "length (rr_resolved result) + length (rr_unresolved result) = length (batch_of n st)"
      "t_unresolved (qb_db (snd st')) =
        filter (\<lambda>u. row_key u \<notin> row_key ` set (take n (t_unresolved (qb_db (snd st))))) (t_unresolved (qb_db (snd st)))"
      "round_ok st'"
      using round_result [OF less.prems(1), of n] by blast
    have next1: "next_round n st = st'"
      using round(1) by (simp add: next_round_def)
    have smaller: "ref_count (snd st') < ref_count (snd st)"
      using filter_take_shorter [OF assms, of "t_unresolved (qb_db (snd st))" row_key] round(3) False
        batch_empty [OF assms, of st] by (simp add: getUnresolvedReferencesCount_def)
    define stats' where "stats' = aggregate result stats"
    show ?thesis
    proof (cases "rr_resolved result = [] \<and> length (rr_unresolved result) = length (batch_of n st)")
      case True
      have "batched_loop n prev stats st = (Inr stats', st')"
        using False round(1) True by (subst batched_loop.simps) (simp add: Let_def stats'_def)
      moreover have "nothing_resolved n st"
        using round(1) True by (simp add: nothing_resolved_def)
      ultimately show ?thesis
        using next1 round(4) smaller by (intro exI [of _ 1]) auto
    next
      case go: False
      have "\<not> (case prev of Some p \<Rightarrow> p \<le> ref_count (snd st') | None \<Rightarrow> False)"
        using less.prems(2) smaller by (auto split: option.splits)
      then have step: "batched_loop n prev stats st = batched_loop n (Some (ref_count (snd st'))) stats' st'"
        using False round(1) go by (subst batched_loop.simps) (auto simp: Let_def stats'_def)
      obtain k stats'' where k: "k \<le> ref_count (snd st')"
        "batched_loop n (Some (ref_count (snd st'))) stats' st' = (Inr stats'', (next_round n ^^ k) st')"
        "round_ok ((next_round n ^^ k) st')"
        "t_unresolved (qb_db (snd ((next_round n ^^ k) st'))) = []
          \<or> (\<exists>j. k = Suc j \<and> nothing_resolved n ((next_round n ^^ j) st'))"
        using less.hyps [OF smaller round(4) disjI2 [OF refl]] by blast
      have shift: "(next_round n ^^ Suc j) st = (next_round n ^^ j) st'" for j
        using next1 by (simp add: funpow_swap1)
      show ?thesis
      proof (intro exI [of _ "Suc k"] exI [of _ stats''] conjI)
        show "Suc k \<le> ref_count (snd st)"
          using k(1) smaller by simp
        show "batched_loop n prev stats st = (Inr stats'', (next_round n ^^ Suc k) st)"
          using step k(2) shift by simp
        show "round_ok ((next_round n ^^ Suc k) st)"
          using k(3) shift by simp
        show "t_unresolved (qb_db (snd ((next_round n ^^ Suc k) st))) = []
          \<or> (\<exists>j. Suc k = Suc j \<and> nothing_resolved n ((next_round n ^^ j) st))"
          using k(4) shift by (metis (no_types, lifting))
      qed
    qed
  qed
qed

text \<open>
  C9: with honest frameworks the batched resolution never fails and ends after at most as many rounds as
  there are unresolved references; it keeps the invariant of the store, so no edge dangles; and it ends
  with an empty table of unresolved references, unless a round resolved nothing.
\<close>

theorem resolveAndPersistBatched_drains:
  assumes "list_all honest (rs_frameworks rs)"
  shows "\<exists>k stats. k \<le> ref_count (store_run ops (new_query_builder empty_db))
    \<and> resolveAndPersistBatched (Suc n) (rs, store_run ops (new_query_builder empty_db)) =
        (Inr stats, (next_round (Suc n) ^^ k)
          (warmCaches (qb_db (store_run ops (new_query_builder empty_db))) rs, store_run ops (new_query_builder empty_db)))
    \<and> qb_inv (snd (snd (resolveAndPersistBatched (Suc n) (rs, store_run ops (new_query_builder empty_db)))))
    \<and> (t_unresolved (qb_db (snd (snd (resolveAndPersistBatched (Suc n) (rs, store_run ops (new_query_builder empty_db)))))) = []
       \<or> (\<exists>j. k = Suc j \<and> nothing_resolved (Suc n) ((next_round (Suc n) ^^ j)
          (warmCaches (qb_db (store_run ops (new_query_builder empty_db))) rs, store_run ops (new_query_builder empty_db)))))"
proof -
  have ok: "round_ok (warmCaches (qb_db (reached ops)) rs, reached ops)"
    using assms reached_inv [of ops] by (simp add: round_ok_def)
  show ?thesis
    using batched_loop_drains [of "Suc n", OF _ ok, of None] unfolding resolveAndPersistBatched_def round_ok_def prod.case
    by fastforce
qed

text \<open>A store with the class \<open>Widget\<close> and a reference of its file to a name no node has.\<close>

definition widget_ops :: "store_op list" where
  "widget_ops =
     [InsertNode (rowToNode (hd (t_nodes widget_db))),
      InsertUnresolvedRefsBatch [\<lparr>u_fromNodeId = ''n1'', u_referenceName = ''missing'', u_referenceKind = EK_calls,
        u_line = 3, u_column = 4, u_filePath = Some ''w.tsx'', u_language = Some L_tsx, u_candidates = None\<rparr>]]"

theorem resolveAndPersistBatched_drains_witness:
  "qb_inv (snd (snd (resolveAndPersistBatched 500
     ((new_resolver widget_project)\<lparr>rs_frameworks := [widget_framework]\<rparr>, store_run widget_ops (new_query_builder empty_db)))))"
proof -
  have "list_all honest (rs_frameworks ((new_resolver widget_project)\<lparr>rs_frameworks := [widget_framework]\<rparr>))"
    by (simp add: honest_def widget_framework_def)
  from resolveAndPersistBatched_drains [OF this, of widget_ops 499] show ?thesis
    by auto
qed

text \<open>
  The exit on a round without a result leaves the rest of the table behind: it comes after the
  unresolvable rows of the batch were deleted, so the next round would have seen others.
\<close>

lemma unresolvable_batch_stops:
  assumes "list_all honest (rs_frameworks rs)" and "qb_inv s" and "\<not> qb_inTransaction s" and "batch_of n (rs, s) \<noteq> []"
    and "rr_resolved (fst (resolveAll (batch_of n (rs, s)) (qb_db s) (warmCaches (qb_db s) rs))) = []"
  shows "t_unresolved (qb_db (snd (snd (resolveAndPersistBatched n (rs, s))))) =
    filter (\<lambda>u. row_key u \<notin> row_key ` set (take n (t_unresolved (qb_db s)))) (t_unresolved (qb_db s))"
proof -
  let ?st = "(warmCaches (qb_db s) rs, s)"
  have ok: "round_ok ?st"
    using assms by (simp add: round_ok_def)
  obtain result st' where r: "batch_round (batch_of n ?st) ?st = (Inr result, st')"
      "rr_resolved result = rr_resolved (fst (resolveAll (batch_of n ?st) (qb_db s) (warmCaches (qb_db s) rs)))"
      "length (rr_resolved result) + length (rr_unresolved result) = length (batch_of n ?st)"
      "t_unresolved (qb_db (snd st')) =
        filter (\<lambda>u. row_key u \<notin> row_key ` set (take n (t_unresolved (qb_db s)))) (t_unresolved (qb_db s))"
    using round_result [OF ok, of n] by auto
  have "rr_resolved result = []" "length (rr_unresolved result) = length (batch_of n ?st)"
    using r(2,3) assms(5) by simp_all
  then have "snd (batched_loop n None stats ?st) = st'" for stats
    using r(1) assms(4) by (subst batched_loop.simps) (simp add: Let_def)
  then show ?thesis
    using r(4) by (simp add: resolveAndPersistBatched_def)
qed

end
