(* ===== verification/FileLock.thy ===== *)
theory FileLock
  imports Steps Numerals
begin

text \<open>
  The class \<open>FileLock\<close> of \<open>utils.ts\<close>, a lock between processes. Each process has one lock object for the
  lock file; its operations are sequences of file system calls, and other processes may run between any
  two calls. \<open>lock_call\<close> is one call of a process: the program counter says which one comes next.
  \<open>writeFileSync\<close> with the flag \<open>wx\<close> is two calls, the exclusive creation of an empty file and the
  write of the content to the created file, whatever has become of its name. \<open>acquire\<close> and \<open>release\<close>
  are the operations without interruption.

  A lock file has an identity (its inode), a content and a time of modification; times are those of
  \<open>Date.now()\<close>, in milliseconds. \<open>process.kill(pid, 0)\<close> succeeds for a running process that the
  caller may signal; what it does for a number that is no process id is the parameter \<open>lw_group\<close>.
  Errors of the file system other than a missing or an existing lock file are not modelled.
\<close>

section \<open>State\<close>

definition STALE_TIMEOUT_MS :: nat where
  "STALE_TIMEOUT_MS = 2 * 60 * 1000"

record lock_file =
  lf_inode :: nat
  lf_content :: string
  lf_mtime :: nat

text \<open>The next call of a process; \<open>L_stat\<close> and \<open>L_probe\<close> carry the pid read before.\<close>

datatype lock_pc =
    L_idle
  | L_exists | L_read | L_stat "int option" | L_probe int | L_unlink | L_unlink_again | L_create | L_write nat
  | L_release | L_release_unlink

record lock_world =
  lw_file :: "lock_file option"
  lw_clock :: nat
  lw_next_inode :: nat
  lw_running :: "nat set"
  lw_permitted :: "nat \<Rightarrow> nat \<Rightarrow> bool"
  lw_group :: "nat \<Rightarrow> int \<Rightarrow> bool"
  lw_pc :: "nat \<Rightarrow> lock_pc"
  lw_held :: "nat \<Rightarrow> bool"
  lw_failed :: "nat \<Rightarrow> bool"
  lw_since :: "nat \<Rightarrow> nat"

text \<open>\<open>lw_since\<close> is not in the code: it records when a process took the lock.\<close>

definition isProcessAlive :: "lock_world \<Rightarrow> nat \<Rightarrow> int \<Rightarrow> bool" where
  "isProcessAlive w p v =
     (if 0 < v then nat v \<in> lw_running w \<and> lw_permitted w p (nat v) else lw_group w p v)"

definition goto :: "nat \<Rightarrow> lock_pc \<Rightarrow> lock_world \<Rightarrow> lock_world" where
  "goto p pc w = w\<lparr>lw_pc := (lw_pc w)(p := pc)\<rparr>"

text \<open>The error "locked by another process".\<close>

definition refuse :: "nat \<Rightarrow> lock_world \<Rightarrow> lock_world" where
  "refuse p w = goto p L_idle (w\<lparr>lw_failed := (lw_failed w)(p := True)\<rparr>)"

definition set_held :: "nat \<Rightarrow> bool \<Rightarrow> lock_world \<Rightarrow> lock_world" where
  "set_held p b w = goto p L_idle (w\<lparr>lw_held := (lw_held w)(p := b)\<rparr>)"

definition pid_in :: "lock_file \<Rightarrow> int option" where
  "pid_in f = parse_int (trim (lf_content f))"

definition fresh :: "lock_world \<Rightarrow> lock_file \<Rightarrow> bool" where
  "fresh w f \<longleftrightarrow> int (lw_clock w) - int (lf_mtime f) < int STALE_TIMEOUT_MS"

section \<open>The calls\<close>

definition lock_call :: "nat \<Rightarrow> lock_world \<Rightarrow> lock_world" where
  "lock_call p w =
     (case lw_pc w p of
        L_idle \<Rightarrow> w
      | L_exists \<Rightarrow> (case lw_file w of Some _ \<Rightarrow> goto p L_read w | None \<Rightarrow> goto p L_create w)
      | L_read \<Rightarrow> (case lw_file w of Some f \<Rightarrow> goto p (L_stat (pid_in f)) w | None \<Rightarrow> goto p L_unlink_again w)
      | L_stat pid \<Rightarrow>
          (case lw_file w of
             Some f \<Rightarrow> (case pid of
                 Some v \<Rightarrow> if fresh w f then goto p (L_probe v) w else goto p L_unlink w
               | None \<Rightarrow> goto p L_unlink w)
           | None \<Rightarrow> goto p L_unlink_again w)
      | L_probe v \<Rightarrow> if isProcessAlive w p v then refuse p w else goto p L_unlink w
      | L_unlink \<Rightarrow>
          (case lw_file w of Some _ \<Rightarrow> goto p L_create (w\<lparr>lw_file := None\<rparr>) | None \<Rightarrow> goto p L_unlink_again w)
      | L_unlink_again \<Rightarrow> goto p L_create (w\<lparr>lw_file := None\<rparr>)
      | L_create \<Rightarrow>
          (case lw_file w of
             Some _ \<Rightarrow> refuse p w
           | None \<Rightarrow> goto p (L_write (lw_next_inode w))
               (w\<lparr>lw_file := Some \<lparr>lf_inode = lw_next_inode w, lf_content = '''', lf_mtime = lw_clock w\<rparr>,
                  lw_next_inode := Suc (lw_next_inode w)\<rparr>))
      | L_write i \<Rightarrow>
          set_held p True
            (w\<lparr>lw_file := (case lw_file w of
                 Some f \<Rightarrow> Some (if lf_inode f = i then f\<lparr>lf_content := show_nat p, lf_mtime := lw_clock w\<rparr> else f)
               | None \<Rightarrow> None),
               lw_since := (lw_since w)(p := lw_clock w)\<rparr>)
      | L_release \<Rightarrow>
          (if \<not> lw_held w p then goto p L_idle w
           else (case lw_file w of
               Some f \<Rightarrow> if pid_in f = Some (int p) then goto p L_release_unlink w else set_held p False w
             | None \<Rightarrow> set_held p False w))
      | L_release_unlink \<Rightarrow> set_held p False (w\<lparr>lw_file := None\<rparr>))"

text \<open>The calls of an operation that nobody interrupts: at most seven.\<close>

definition begin_acquire :: "nat \<Rightarrow> lock_world \<Rightarrow> lock_world" where
  "begin_acquire p w = goto p L_exists (w\<lparr>lw_failed := (lw_failed w)(p := False)\<rparr>)"

definition acquire :: "nat \<Rightarrow> lock_world \<Rightarrow> lock_world" where
  "acquire p w = (lock_call p ^^ 7) (begin_acquire p w)"

definition release :: "nat \<Rightarrow> lock_world \<Rightarrow> lock_world" where
  "release p w = (lock_call p ^^ 2) (goto p L_release w)"

text \<open>\<open>withLock\<close>: nothing is run when the lock is refused, and the lock is released whatever \<open>fn\<close> does.\<close>

definition withLock :: "nat \<Rightarrow> (lock_world \<Rightarrow> 'a \<times> lock_world) \<Rightarrow> lock_world \<Rightarrow> 'a option \<times> lock_world" where
  "withLock p fn w =
     (let w1 = acquire p w in
      if lw_failed w1 p then (None, w1)
      else (case fn w1 of (r, w2) \<Rightarrow> (Some r, release p w2)))"

section \<open>Steps of the processes\<close>

text \<open>What happens beside the calls: time passes, a process ends (its lock object with it), one starts.\<close>

inductive lock_env :: "lock_world \<Rightarrow> lock_world \<Rightarrow> bool" where
  env_tick: "lock_env w (w\<lparr>lw_clock := lw_clock w + ms\<rparr>)"
| env_exit: "lock_env w (w\<lparr>lw_running := lw_running w - {p}, lw_pc := (lw_pc w)(p := L_idle), lw_held := (lw_held w)(p := False)\<rparr>)"
| env_spawn: "p \<notin> lw_running w \<Longrightarrow> 0 < p \<Longrightarrow> lock_env w (w\<lparr>lw_running := insert p (lw_running w)\<rparr>)"

text \<open>Operations interleaved call by call.\<close>

inductive lock_step :: "lock_world \<Rightarrow> lock_world \<Rightarrow> bool" where
  step_acquire: "p \<in> lw_running w \<Longrightarrow> lw_pc w p = L_idle \<Longrightarrow> lock_step w (begin_acquire p w)"
| step_release: "p \<in> lw_running w \<Longrightarrow> lw_pc w p = L_idle \<Longrightarrow> lock_step w (goto p L_release w)"
| step_call: "p \<in> lw_running w \<Longrightarrow> lock_step w (lock_call p w)"
| step_env: "lock_env w w' \<Longrightarrow> lock_step w w'"

text \<open>Operations one after the other.\<close>

inductive serial_step :: "lock_world \<Rightarrow> lock_world \<Rightarrow> bool" where
  serial_acquire: "p \<in> lw_running w \<Longrightarrow> serial_step w (acquire p w)"
| serial_release: "p \<in> lw_running w \<Longrightarrow> serial_step w (release p w)"
| serial_env: "lock_env w w' \<Longrightarrow> serial_step w w'"

text \<open>At the start nobody holds the lock, and whatever lock file is left is from before.\<close>

definition lock_start :: "lock_world \<Rightarrow> bool" where
  "lock_start w \<longleftrightarrow> (\<forall>p. lw_pc w p = L_idle \<and> \<not> lw_held w p) \<and> (\<forall>p\<in>lw_running w. 0 < p)"

section \<open>Operations without interruption\<close>

lemma goto_simps [simp]:
  "lw_pc (goto p c w) = (lw_pc w)(p := c)" "lw_file (goto p c w) = lw_file w" "lw_clock (goto p c w) = lw_clock w"
  "lw_next_inode (goto p c w) = lw_next_inode w" "lw_held (goto p c w) = lw_held w" "lw_failed (goto p c w) = lw_failed w"
  "lw_since (goto p c w) = lw_since w" "lw_running (goto p c w) = lw_running w"
  "lw_permitted (goto p c w) = lw_permitted w" "lw_group (goto p c w) = lw_group w"
  by (simp_all add: goto_def)

lemma goto_goto [simp]: "goto p c (goto p c' w) = goto p c w"
  by (simp add: goto_def)

lemma goto_update [simp]:
  "(goto p c w)\<lparr>lw_file := f\<rparr> = goto p c (w\<lparr>lw_file := f\<rparr>)"
  "(goto p c w)\<lparr>lw_next_inode := n\<rparr> = goto p c (w\<lparr>lw_next_inode := n\<rparr>)"
  "(goto p c w)\<lparr>lw_since := g\<rparr> = goto p c (w\<lparr>lw_since := g\<rparr>)"
  "(goto p c w)\<lparr>lw_held := h\<rparr> = goto p c (w\<lparr>lw_held := h\<rparr>)"
  "(goto p c w)\<lparr>lw_failed := h\<rparr> = goto p c (w\<lparr>lw_failed := h\<rparr>)"
  by (simp_all add: goto_def)

lemma env_reads [simp]:
  "fresh (goto p c w) f = fresh w f" "isProcessAlive (goto p c w) = isProcessAlive w"
  "fresh (w\<lparr>lw_failed := a\<rparr>) f = fresh w f" "isProcessAlive (w\<lparr>lw_failed := a\<rparr>) = isProcessAlive w"
  by (simp_all add: fresh_def isProcessAlive_def fun_eq_iff)

text \<open>What a call does, by the program counter and the lock file.\<close>

lemma call_at:
  "lw_pc w p = L_idle \<Longrightarrow> lock_call p w = w"
  "lw_pc w p = L_exists \<Longrightarrow> lock_call p w = goto p (if lw_file w = None then L_create else L_read) w"
  "lw_pc w p = L_read \<Longrightarrow> lw_file w = Some f \<Longrightarrow> lock_call p w = goto p (L_stat (pid_in f)) w"
  "lw_pc w p = L_stat (Some v) \<Longrightarrow> lw_file w = Some f \<Longrightarrow>
     lock_call p w = goto p (if fresh w f then L_probe v else L_unlink) w"
  "lw_pc w p = L_stat None \<Longrightarrow> lw_file w = Some f \<Longrightarrow> lock_call p w = goto p L_unlink w"
  "lw_pc w p = L_probe v \<Longrightarrow> lock_call p w = (if isProcessAlive w p v then refuse p w else goto p L_unlink w)"
  "lw_pc w p = L_unlink \<Longrightarrow> lw_file w = Some f \<Longrightarrow> lock_call p w = goto p L_create (w\<lparr>lw_file := None\<rparr>)"
  "lw_pc w p = L_create \<Longrightarrow> lw_file w = None \<Longrightarrow> lock_call p w = goto p (L_write (lw_next_inode w))
     (w\<lparr>lw_file := Some \<lparr>lf_inode = lw_next_inode w, lf_content = '''', lf_mtime = lw_clock w\<rparr>,
        lw_next_inode := Suc (lw_next_inode w)\<rparr>)"
  "lw_pc w p = L_write i \<Longrightarrow> lw_file w = Some f \<Longrightarrow> lf_inode f = i \<Longrightarrow> lock_call p w =
     set_held p True (w\<lparr>lw_file := Some (f\<lparr>lf_content := show_nat p, lf_mtime := lw_clock w\<rparr>),
       lw_since := (lw_since w)(p := lw_clock w)\<rparr>)"
  by (simp_all add: lock_call_def split: option.splits)

lemma refused_idle [simp]: "lw_pc (refuse p w) p = L_idle" "lw_pc (set_held p b w) p = L_idle"
  by (simp_all add: refuse_def set_held_def)

lemma idle_calls: "lw_pc w p = L_idle \<Longrightarrow> (lock_call p ^^ n) w = w"
  by (induction n) (simp_all add: call_at)

lemma next_call: "(lock_call p ^^ Suc n) w = (lock_call p ^^ n) (lock_call p w)"
  by (simp add: funpow_swap1)

text \<open>The test of \<open>acquire\<close>: the lock file is less than two minutes old and names a process that is alive.\<close>

definition occupied :: "nat \<Rightarrow> lock_world \<Rightarrow> bool" where
  "occupied p w =
     (case lw_file w of
        None \<Rightarrow> False
      | Some f \<Rightarrow> fresh w f \<and> (case pid_in f of None \<Rightarrow> False | Some v \<Rightarrow> isProcessAlive w p v))"

definition take_lock :: "nat \<Rightarrow> lock_world \<Rightarrow> lock_world" where
  "take_lock p w =
     set_held p True
       (w\<lparr>lw_file := Some \<lparr>lf_inode = lw_next_inode w, lf_content = show_nat p, lf_mtime = lw_clock w\<rparr>,
          lw_next_inode := Suc (lw_next_inode w), lw_failed := (lw_failed w)(p := False),
          lw_since := (lw_since w)(p := lw_clock w)\<rparr>)"

lemma taken_idle [simp]: "lw_pc (take_lock p w) p = L_idle"
  by (simp add: take_lock_def)

text \<open>
  An \<open>acquire\<close> that nobody interrupts refuses the lock, and changes nothing else, exactly when there
  is a lock file younger than two minutes with the pid of a process that is alive; otherwise it replaces
  whatever lock file there is by one with its own pid and holds the lock.
\<close>

theorem acquire_exact:
  "acquire p w = (if occupied p w then refuse p w else take_lock p w)"
proof -
  let ?w = "w\<lparr>lw_failed := (lw_failed w)(p := False)\<rparr>"
  have refused: "refuse p (goto p c ?w) = refuse p w" for c
    by (simp add: refuse_def goto_def)
  have created: "(lock_call p ^^ Suc (Suc n)) (goto p L_create ?w) = take_lock p w" if "lw_file w = None" for n
    using that by (simp add: next_call call_at idle_calls take_lock_def set_held_def del: funpow.simps)
  have start: "acquire p w = (lock_call p ^^ Suc (Suc (Suc (Suc (Suc (Suc (Suc 0))))))) (goto p L_exists ?w)"
    by (simp add: acquire_def begin_acquire_def eval_nat_numeral del: funpow.simps)
  show ?thesis
  proof (cases "lw_file w")
    case None
    have "acquire p w = (lock_call p ^^ Suc (Suc (Suc (Suc (Suc (Suc 0)))))) (goto p L_create ?w)"
      unfolding start using None by (subst next_call) (simp add: call_at del: funpow.simps)
    then show ?thesis
      unfolding created [OF None] using None by (simp add: occupied_def)
  next
    case (Some f)
    have unlinked: "(lock_call p ^^ Suc (Suc (Suc n))) (goto p L_unlink ?w) = take_lock p w" for n
    proof -
      have "take_lock p (w\<lparr>lw_file := None\<rparr>) = take_lock p w"
        by (simp add: take_lock_def)
      moreover have "(lock_call p ^^ Suc (Suc (Suc n))) (goto p L_unlink ?w) = (lock_call p ^^ Suc (Suc n)) (goto p L_create (?w\<lparr>lw_file := None\<rparr>))"
        using Some by (subst next_call) (simp add: call_at del: funpow.simps)
      moreover have "(lock_call p ^^ Suc (Suc n)) (goto p L_create (?w\<lparr>lw_file := None\<rparr>)) = take_lock p (w\<lparr>lw_file := None\<rparr>)"
        by (simp add: next_call call_at idle_calls take_lock_def set_held_def del: funpow.simps)
      ultimately show ?thesis
        by (simp only:)
    qed
    have at_stat: "acquire p w = (lock_call p ^^ Suc (Suc (Suc (Suc (Suc 0))))) (goto p (L_stat (pid_in f)) ?w)"
      unfolding start using Some by (subst next_call, subst next_call) (simp add: call_at del: funpow.simps)
    show ?thesis
    proof (cases "pid_in f")
      case None
      have "acquire p w = (lock_call p ^^ Suc (Suc (Suc (Suc 0)))) (goto p L_unlink ?w)"
        unfolding at_stat None using Some by (subst next_call) (simp add: call_at del: funpow.simps)
      then show ?thesis
        using None Some unfolding unlinked by (simp add: occupied_def)
    next
      case (Some v)
      have "acquire p w = (lock_call p ^^ Suc (Suc (Suc (Suc 0)))) (goto p (if fresh w f then L_probe v else L_unlink) ?w)"
        unfolding at_stat Some using \<open>lw_file w = Some f\<close> by (subst next_call) (simp add: call_at del: funpow.simps)
      moreover have "(lock_call p ^^ Suc (Suc (Suc (Suc 0)))) (goto p (L_probe v) ?w) =
          (if isProcessAlive w p v then refuse p w else take_lock p w)"
        by (subst next_call) (simp add: call_at refused idle_calls unlinked del: funpow.simps)
      ultimately show ?thesis
        using Some \<open>lw_file w = Some f\<close> unlinked [of "Suc 0"] by (simp add: occupied_def del: funpow.simps)
    qed
  qed
qed

lemma refuse_fields [simp]:
  "lw_file (refuse p w) = lw_file w" "lw_clock (refuse p w) = lw_clock w" "lw_held (refuse p w) = lw_held w"
  "lw_since (refuse p w) = lw_since w" "lw_running (refuse p w) = lw_running w"
  "lw_permitted (refuse p w) = lw_permitted w" "lw_pc (refuse p w) = (lw_pc w)(p := L_idle)"
  "lw_failed (refuse p w) = (lw_failed w)(p := True)"
  by (simp_all add: refuse_def goto_def)

lemma set_held_fields [simp]:
  "lw_file (set_held p b w) = lw_file w" "lw_clock (set_held p b w) = lw_clock w"
  "lw_held (set_held p b w) = (lw_held w)(p := b)" "lw_since (set_held p b w) = lw_since w"
  "lw_running (set_held p b w) = lw_running w" "lw_permitted (set_held p b w) = lw_permitted w"
  "lw_pc (set_held p b w) = (lw_pc w)(p := L_idle)" "lw_failed (set_held p b w) = lw_failed w"
  by (simp_all add: set_held_def goto_def)

lemma take_lock_fields [simp]:
  "lw_file (take_lock p w) = Some \<lparr>lf_inode = lw_next_inode w, lf_content = show_nat p, lf_mtime = lw_clock w\<rparr>"
  "lw_clock (take_lock p w) = lw_clock w" "lw_held (take_lock p w) = (lw_held w)(p := True)"
  "lw_since (take_lock p w) = (lw_since w)(p := lw_clock w)" "lw_running (take_lock p w) = lw_running w"
  "lw_permitted (take_lock p w) = lw_permitted w" "lw_pc (take_lock p w) = (lw_pc w)(p := L_idle)"
  "lw_failed (take_lock p w) = (lw_failed w)(p := False)"
  by (simp_all add: take_lock_def)

text \<open>\<open>release\<close> removes the lock file only if it still names the process.\<close>

lemma release_exact:
  "release p w =
    (if \<not> lw_held w p then goto p L_idle w
     else set_held p False (w\<lparr>lw_file := (case lw_file w of
         None \<Rightarrow> None | Some f \<Rightarrow> if pid_in f = Some (int p) then None else Some f)\<rparr>))"
proof -
  have two: "release p w = lock_call p (lock_call p (goto p L_release w))"
    by (simp add: release_def eval_nat_numeral)
  have same: "w\<lparr>lw_file := lw_file w\<rparr> = w"
    by simp
  have kept: "w\<lparr>lw_file := None\<rparr> = w" if "lw_file w = None"
    using that same by simp
  have kept': "w\<lparr>lw_file := Some f\<rparr> = w" if "lw_file w = Some f" for f
    using that same by simp
  show ?thesis
    unfolding two
    by (cases "lw_held w p"; cases "lw_file w")
      (auto simp: lock_call_def set_held_def kept kept' split: if_splits)
qed

lemma release_keeps_others:
  "lw_file w = Some f \<Longrightarrow> pid_in f \<noteq> Some (int p) \<Longrightarrow> lw_file (release p w) = Some f"
  by (simp add: release_exact)

section \<open>Exclusion, when operations do not overlap\<close>

definition expired :: "lock_world \<Rightarrow> nat \<Rightarrow> bool" where
  "expired w p \<longleftrightarrow> lw_since w p + STALE_TIMEOUT_MS \<le> lw_clock w"

text \<open>All processes belong to one user, who may signal them.\<close>

definition one_user_start :: "lock_world \<Rightarrow> bool" where
  "one_user_start w \<longleftrightarrow> lock_start w \<and> (\<forall>p q. lw_permitted w p q)"

text \<open>The lock file of a holder is there, until it is two minutes old.\<close>

definition owns_file :: "lock_world \<Rightarrow> nat \<Rightarrow> bool" where
  "owns_file w p \<longleftrightarrow> (\<exists>f. lw_file w = Some f \<and> lf_content f = show_nat p \<and> lf_mtime f = lw_since w p)"

definition serial_inv :: "lock_world \<Rightarrow> bool" where
  "serial_inv w \<longleftrightarrow>
     (\<forall>p. lw_pc w p = L_idle) \<and> (\<forall>p q. lw_permitted w p q) \<and> (\<forall>p\<in>lw_running w. 0 < p)
     \<and> (\<forall>p. lw_held w p \<longrightarrow> p \<in> lw_running w \<and> (expired w p \<or> owns_file w p))"

lemma owner_occupies:
  assumes "serial_inv w" and "lw_held w q" and "\<not> expired w q"
  shows "occupied p w"
proof -
  have q: "q \<in> lw_running w" "0 < q" "lw_permitted w p q" "owns_file w q"
    using assms by (auto simp: serial_inv_def)
  then show ?thesis
    using assms(3) by (auto simp: owns_file_def occupied_def fresh_def expired_def pid_in_def parse_trim_show isProcessAlive_def)
qed

lemma serial_acquire_inv:
  assumes inv: "serial_inv w" and p: "p \<in> lw_running w"
  shows "serial_inv (acquire p w)"
proof (cases "occupied p w")
  case True
  then show ?thesis
    using inv unfolding acquire_exact by (auto simp: serial_inv_def expired_def owns_file_def)
next
  case False
  have "expired w q" if "lw_held w q" for q
    using owner_occupies [OF inv that] False by blast
  then have "serial_inv (take_lock p w)"
    using inv p unfolding serial_inv_def by (auto simp: expired_def owns_file_def)
  then show ?thesis
    using False by (simp add: acquire_exact)
qed

lemma serial_release_inv:
  assumes inv: "serial_inv w"
  shows "serial_inv (release p w)"
proof (cases "lw_held w p")
  case True
  have "owns_file (release p w) q \<or> expired w q" if "lw_held w q" "q \<noteq> p" for q
  proof -
    have "expired w q \<or> owns_file w q"
      using inv that(1) by (simp add: serial_inv_def)
    then show ?thesis
      using that(2) True by (auto simp: owns_file_def release_exact pid_in_def parse_trim_show)
  qed
  then show ?thesis
    using inv True by (auto simp: serial_inv_def release_exact expired_def)
next
  case False
  then show ?thesis
    using inv by (auto simp: serial_inv_def release_exact expired_def owns_file_def)
qed

lemma serial_env_inv: "lock_env w w' \<Longrightarrow> serial_inv w \<Longrightarrow> serial_inv w'"
  by (induction rule: lock_env.induct) (auto simp: serial_inv_def expired_def owns_file_def)

interpretation serial_lock: invariant_of one_user_start serial_step serial_inv
proof
  show "serial_inv w" if "one_user_start w" for w
    using that by (simp add: one_user_start_def lock_start_def serial_inv_def)
  show "serial_inv t" if "serial_inv s" "serial_step s t" for s t
    using that(2,1) by cases (auto intro: serial_acquire_inv serial_release_inv serial_env_inv)
qed

text \<open>
  C27: when the operations of the processes of one user do not overlap, the lock excludes: at any time at
  most one process has held it for less than two minutes.
\<close>

theorem filelock_excludes:
  assumes "reach one_user_start serial_step w"
  shows "\<not> (lw_held w p \<and> lw_held w q \<and> p \<noteq> q \<and> \<not> expired w p \<and> \<not> expired w q)"
proof
  assume h: "lw_held w p \<and> lw_held w q \<and> p \<noteq> q \<and> \<not> expired w p \<and> \<not> expired w q"
  have "serial_inv w"
    using assms by (rule serial_lock.reach_inv)
  then have "owns_file w p" "owns_file w q"
    using h by (auto simp: serial_inv_def)
  then have "show_nat p = show_nat q"
    by (auto simp: owns_file_def)
  then show False
    using h show_nat_inj by blast
qed

section \<open>What overlapping operations can do\<close>

text \<open>Schedules of the interleaved system, as lists of moves.\<close>

datatype lock_move = Acquire nat | Release nat | Call nat | Wait nat

fun do_move :: "lock_move \<Rightarrow> lock_world \<Rightarrow> lock_world option" where
  "do_move (Acquire p) w = (if p \<in> lw_running w \<and> lw_pc w p = L_idle then Some (begin_acquire p w) else None)"
| "do_move (Release p) w = (if p \<in> lw_running w \<and> lw_pc w p = L_idle then Some (goto p L_release w) else None)"
| "do_move (Call p) w = (if p \<in> lw_running w then Some (lock_call p w) else None)"
| "do_move (Wait ms) w = Some (w\<lparr>lw_clock := lw_clock w + ms\<rparr>)"

fun play :: "lock_move list \<Rightarrow> lock_world \<Rightarrow> lock_world option" where
  "play [] w = Some w"
| "play (m # ms) w = (case do_move m w of Some w' \<Rightarrow> play ms w' | None \<Rightarrow> None)"

lemma do_move_step: "do_move m w = Some w' \<Longrightarrow> lock_step w w'"
  by (induction m w rule: do_move.induct)
    (auto split: if_splits intro: step_acquire step_release step_call step_env env_tick)

lemma play_steps: "play ms w = Some w' \<Longrightarrow> lock_step\<^sup>*\<^sup>* w w'"
proof (induction ms arbitrary: w)
  case (Cons m ms)
  then obtain w1 where "do_move m w = Some w1" "play ms w1 = Some w'"
    by (auto split: option.splits)
  then show ?case
    using Cons.IH [of w1] do_move_step by (meson converse_rtranclp_into_rtranclp)
qed simp

definition two_processes :: lock_world where
  "two_processes =
     \<lparr>lw_file = None, lw_clock = 1000, lw_next_inode = 0, lw_running = {1, 2}, lw_permitted = (\<lambda>p q. True),
      lw_group = (\<lambda>p v. False), lw_pc = (\<lambda>p. L_idle), lw_held = (\<lambda>p. False), lw_failed = (\<lambda>p. False),
      lw_since = (\<lambda>p. 0)\<rparr>"

lemma two_processes_start: "one_user_start two_processes"
  by (simp add: one_user_start_def lock_start_def two_processes_def)

text \<open>
  The second process reads the lock file between its creation and the write of the pid, takes the empty
  content for that of a stale lock, and removes it.
\<close>

definition race :: "lock_move list" where
  "race = [Acquire 1, Call 1, Call 1, Acquire 2, Call 2, Call 2, Call 2, Call 2, Call 2, Call 1, Call 2]"

lemma race_outcome:
  "map_option (\<lambda>w. (lw_held w 1, lw_held w 2, lw_clock w)) (play race two_processes) = Some (True, True, 1000)"
  by code_simp

text \<open>
  The lock does not exclude when operations overlap: from a state without any lock file, two processes
  of one user can both get the lock while no time passes and none of them releases it.
\<close>

lemma filelock_race:
  "\<exists>w. lock_step\<^sup>*\<^sup>* two_processes w \<and> lw_clock w = lw_clock two_processes \<and> lw_held w 1 \<and> lw_held w 2"
proof -
  obtain w where w: "play race two_processes = Some w"
    using race_outcome by (cases "play race two_processes") auto
  then have "lw_clock w = 1000 \<and> lw_held w 1 \<and> lw_held w 2"
    using race_outcome by simp
  then show ?thesis
    using play_steps [OF w] by (intro exI [of _ w]) (simp add: two_processes_def)
qed

text \<open>
  A second schedule, with a lock file left by an ended process: both find it stale, and the slower one
  removes the lock of the faster one.
\<close>

definition stale_race :: "lock_move list" where
  "stale_race =
     [Acquire 1, Call 1, Call 1, Call 1, Call 1, Acquire 2, Call 2, Call 2, Call 2, Call 2,
      Call 1, Call 1, Call 1, Call 2, Call 2, Call 2]"

lemma stale_race_outcome:
  "\<exists>w. play stale_race (two_processes\<lparr>lw_file := Some \<lparr>lf_inode = 7, lf_content = show_nat 99, lf_mtime = 900\<rparr>, lw_next_inode := 8\<rparr>) = Some w
    \<and> lw_held w 1 \<and> lw_held w 2 \<and> lw_clock w = 1000"
  by (simp add: stale_race_def two_processes_def begin_acquire_def call_at pid_in_def parse_trim_show fresh_def STALE_TIMEOUT_MS_def
      isProcessAlive_def)

text \<open>Also without overlap, a holder that works for two minutes loses the lock to the next process.\<close>

lemma slow_holder_loses:
  "\<exists>w. play [Acquire 1, Call 1, Call 1, Call 1, Wait 120000, Acquire 2, Call 2, Call 2, Call 2, Call 2, Call 2, Call 2] two_processes = Some w
    \<and> lw_held w 1 \<and> lw_held w 2"
  by (simp add: two_processes_def begin_acquire_def call_at pid_in_def parse_trim_show fresh_def STALE_TIMEOUT_MS_def isProcessAlive_def)

text \<open>A process that may not be signalled (it belongs to another user) counts as dead.\<close>

lemma foreign_lock_is_stale:
  assumes "lw_file w = Some f" and "pid_in f = Some (int q)" and "0 < q" and "\<not> lw_permitted w p q"
  shows "\<not> occupied p w"
  using assms by (simp add: occupied_def isProcessAlive_def)

theorem filelock_excludes_witness:
  "\<not> (lw_held (acquire 2 (acquire 1 two_processes)) 1 \<and> lw_held (acquire 2 (acquire 1 two_processes)) 2
      \<and> (1::nat) \<noteq> 2 \<and> \<not> expired (acquire 2 (acquire 1 two_processes)) 1 \<and> \<not> expired (acquire 2 (acquire 1 two_processes)) 2)"
proof -
  have 1: "reach one_user_start serial_step (acquire 1 two_processes)"
    by (rule reach_step, rule reach_start, rule two_processes_start, rule serial_acquire) (simp add: two_processes_def)
  have "2 \<in> lw_running (acquire 1 two_processes)"
    by (simp add: acquire_exact two_processes_def)
  from filelock_excludes [OF reach_step [OF 1 serial_acquire [OF this]], of 1 2] show ?thesis .
qed

end
