(* ===== verification/Mutex.thy ===== *)
theory Mutex
  imports Steps
begin

text \<open>
  The class \<open>Mutex\<close> of \<open>utils.ts\<close>, a lock between the asynchronous tasks of one process. Code between
  two \<open>await\<close>s runs without interruption: a task that calls \<open>acquire\<close> either gets the lock at once or
  puts its \<open>resolve\<close> function into the queue; \<open>release\<close> frees the lock and resolves the first promise,
  whose task becomes a microtask; when it runs it tests the lock again. Microtasks run in the order in
  which they were scheduled, and other tasks may call \<open>acquire\<close> before them. A task is a number.
\<close>

section \<open>The class\<close>

record mutex =
  mx_locked :: bool
  mx_waitQueue :: "nat list"

definition new_mutex :: mutex where
  "new_mutex = \<lparr>mx_locked = False, mx_waitQueue = []\<rparr>"

text \<open>The test of the loop, on the first call and after each wake-up: whether the task has the lock.\<close>

definition try_lock :: "nat \<Rightarrow> mutex \<Rightarrow> bool \<times> mutex" where
  "try_lock t m =
     (if mx_locked m then (False, m\<lparr>mx_waitQueue := mx_waitQueue m @ [t]\<rparr>)
      else (True, m\<lparr>mx_locked := True\<rparr>))"

text \<open>The function that \<open>acquire\<close> returns: the task whose promise it resolves.\<close>

definition release_lock :: "mutex \<Rightarrow> nat option \<times> mutex" where
  "release_lock m =
     (case mx_waitQueue m of
        [] \<Rightarrow> (None, m\<lparr>mx_locked := False\<rparr>)
      | t # ts \<Rightarrow> (Some t, m\<lparr>mx_locked := False, mx_waitQueue := ts\<rparr>))"

definition isLocked :: "mutex \<Rightarrow> bool" where
  "isLocked m = mx_locked m"

section \<open>Tasks\<close>

text \<open>The mutex, the microtasks, and the tasks that are in the body of \<open>withLock\<close>.\<close>

record tasks =
  tk_mutex :: mutex
  tk_woken :: "nat list"
  tk_inside :: "nat set"

definition waiting :: "tasks \<Rightarrow> nat list" where
  "waiting s = tk_woken s @ mx_waitQueue (tk_mutex s)"

definition enter :: "nat \<Rightarrow> tasks \<Rightarrow> tasks" where
  "enter t s =
     (case try_lock t (tk_mutex s) of
        (got, m) \<Rightarrow> s\<lparr>tk_mutex := m, tk_inside := (if got then insert t (tk_inside s) else tk_inside s)\<rparr>)"

definition leave :: "nat \<Rightarrow> tasks \<Rightarrow> tasks" where
  "leave t s =
     (case release_lock (tk_mutex s) of
        (nxt, m) \<Rightarrow> s\<lparr>tk_mutex := m, tk_inside := tk_inside s - {t},
          tk_woken := tk_woken s @ (case nxt of Some u \<Rightarrow> [u] | None \<Rightarrow> [])\<rparr>)"

text \<open>The steps of tasks that use \<open>withLock\<close>: one that is running or waiting does not call it again.\<close>

inductive progress_step :: "tasks \<Rightarrow> tasks \<Rightarrow> bool" where
  wake: "tk_woken s = t # ts \<Longrightarrow> progress_step s (enter t (s\<lparr>tk_woken := ts\<rparr>))"
| finish: "t \<in> tk_inside s \<Longrightarrow> progress_step s (leave t s)"

inductive task_step :: "tasks \<Rightarrow> tasks \<Rightarrow> bool" where
  request: "t \<notin> tk_inside s \<Longrightarrow> t \<notin> set (waiting s) \<Longrightarrow> task_step s (enter t s)"
| progress: "progress_step s s' \<Longrightarrow> task_step s s'"

definition no_tasks :: "tasks \<Rightarrow> bool" where
  "no_tasks s \<longleftrightarrow> s = \<lparr>tk_mutex = new_mutex, tk_woken = [], tk_inside = {}\<rparr>"

section \<open>Exclusion\<close>

text \<open>
  The flag says whether a task is inside, no two are, and a queue is never left behind: while tasks wait,
  one is inside or a microtask of one is scheduled.
\<close>

definition mutex_inv :: "tasks \<Rightarrow> bool" where
  "mutex_inv s \<longleftrightarrow>
     (if mx_locked (tk_mutex s) then \<exists>t. tk_inside s = {t} else tk_inside s = {})
     \<and> distinct (waiting s) \<and> set (waiting s) \<inter> tk_inside s = {}
     \<and> (mx_waitQueue (tk_mutex s) = [] \<or> mx_locked (tk_mutex s) \<or> tk_woken s \<noteq> [])"

lemmas mutex_defs = mutex_inv_def waiting_def enter_def leave_def try_lock_def release_lock_def

lemma enter_inv:
  assumes "mutex_inv s" and "t \<notin> tk_inside s" and "t \<notin> set (waiting s)"
  shows "mutex_inv (enter t s)"
  using assms by (auto simp: mutex_defs)

lemma progress_inv: "progress_step s s' \<Longrightarrow> mutex_inv s \<Longrightarrow> mutex_inv s'"
proof (induction rule: progress_step.induct)
  case (wake s t ts)
  then show ?case
    by (auto simp: mutex_defs split: if_splits)
next
  case (finish t s)
  then show ?case
    by (auto simp: mutex_defs split: if_splits list.splits)
qed

interpretation mx: invariant_of no_tasks task_step mutex_inv
proof
  show "mutex_inv s" if "no_tasks s" for s
    using that by (simp add: no_tasks_def mutex_defs new_mutex_def)
  show "mutex_inv t" if "mutex_inv s" "task_step s t" for s t
    using that(2,1) by cases (auto intro: enter_inv progress_inv)
qed

text \<open>
  C29: at most one task is in the body of \<open>withLock\<close>, whatever the order in which tasks call it and
  microtasks run, and the lock reports itself locked exactly when one is.
\<close>

theorem mutex_excludes:
  assumes "reach no_tasks task_step s"
  shows "\<not> (t \<in> tk_inside s \<and> u \<in> tk_inside s \<and> t \<noteq> u) \<and> isLocked (tk_mutex s) = (tk_inside s \<noteq> {})"
  using mx.reach_inv [OF assms] by (auto simp: mutex_inv_def isLocked_def split: if_splits)

section \<open>Progress\<close>

text \<open>When the lock is free, the first of the waiting tasks is the next one inside.\<close>

lemma free_next:
  assumes "mutex_inv s" and "\<not> mx_locked (tk_mutex s)" and "waiting s = t # ts"
  shows "\<exists>s'. progress_step s s' \<and> tk_inside s' = {t} \<and> waiting s' = ts"
proof -
  obtain us where us: "tk_woken s = t # us"
    using assms by (cases "tk_woken s") (auto simp: mutex_inv_def waiting_def)
  have "progress_step s (enter t (s\<lparr>tk_woken := us\<rparr>))"
    using us by (rule wake)
  moreover have "tk_inside (enter t (s\<lparr>tk_woken := us\<rparr>)) = {t}" "waiting (enter t (s\<lparr>tk_woken := us\<rparr>)) = ts"
    using assms us by (auto simp: mutex_defs)
  ultimately show ?thesis by blast
qed

lemma leave_waiting: "waiting (leave t s) = waiting s" "\<not> mx_locked (tk_mutex (leave t s))"
  by (simp_all add: waiting_def leave_def release_lock_def split: list.splits)

text \<open>A round: whoever is inside leaves, and the first of the waiting tasks enters.\<close>

lemma round_next:
  assumes inv: "mutex_inv s" and "waiting s = t # ts"
  shows "\<exists>s'. progress_step\<^sup>*\<^sup>* s s' \<and> tk_inside s' = {t} \<and> waiting s' = ts"
proof (cases "mx_locked (tk_mutex s)")
  case True
  then obtain h where h: "tk_inside s = {h}"
    using inv by (auto simp: mutex_inv_def)
  then have left: "progress_step s (leave h s)"
    by (auto intro: finish)
  then have "mutex_inv (leave h s)"
    using inv by (rule progress_inv)
  from free_next [OF this] obtain s' where "progress_step (leave h s) s'" "tk_inside s' = {t}" "waiting s' = ts"
    using assms(2) by (auto simp: leave_waiting)
  then show ?thesis
    using left by (intro exI [of _ s'] conjI converse_rtranclp_into_rtranclp [of progress_step s "leave h s"] r_into_rtranclp)
next
  case False
  then show ?thesis
    using free_next [OF inv False assms(2)] by blast
qed

lemma waiting_served:
  assumes "mutex_inv s" and "waiting s = us @ t # ts"
  shows "\<exists>s'. progress_step\<^sup>*\<^sup>* s s' \<and> tk_inside s' = {t} \<and> waiting s' = ts"
  using assms
proof (induction us arbitrary: s)
  case Nil
  then show ?case
    using round_next by simp
next
  case (Cons u us)
  obtain s1 where s1: "progress_step\<^sup>*\<^sup>* s s1" "waiting s1 = us @ t # ts"
    using round_next [OF Cons.prems(1), of u "us @ t # ts"] Cons.prems(2) by auto
  have "mutex_inv s1"
    using s1(1) Cons.prems(1) by (induction rule: rtranclp_induct) (auto intro: progress_inv)
  then show ?case
    using Cons.IH [OF _ s1(2)] s1(1) by (meson rtranclp_trans)
qed

text \<open>
  C30: no wake-up is lost: from every reachable state, when the tasks inside finish and the scheduled
  microtasks run, every waiting task gets the lock, and those that waited behind it are still waiting.
\<close>

theorem mutex_no_lost_wakeup:
  assumes "reach no_tasks task_step s" and "waiting s = us @ t # ts"
  shows "\<exists>s'. progress_step\<^sup>*\<^sup>* s s' \<and> tk_inside s' = {t} \<and> waiting s' = ts"
  using waiting_served [OF mx.reach_inv [OF assms(1)] assms(2)] .

text \<open>The lock is not fair: a task that calls \<open>acquire\<close> before the woken task runs overtakes it.\<close>

lemma overtaking:
  assumes "mutex_inv s" and "mx_locked (tk_mutex s)" and "tk_inside s = {h}" and "tk_woken s = []"
    and "mx_waitQueue (tk_mutex s) = t # ts" and "u \<notin> set (waiting s)" and "u \<noteq> h"
  shows "\<exists>s'. task_step\<^sup>*\<^sup>* s s' \<and> tk_inside s' = {u} \<and> waiting s' = ts @ [t]"
proof -
  let ?s1 = "leave h s"
  let ?s2 = "enter u ?s1"
  let ?s3 = "enter t (?s2\<lparr>tk_woken := []\<rparr>)"
  have s1: "tk_woken ?s1 = [t]" "mx_waitQueue (tk_mutex ?s1) = ts" "\<not> mx_locked (tk_mutex ?s1)" "tk_inside ?s1 = {}"
    using assms by (simp_all add: leave_def release_lock_def)
  have "task_step s ?s1"
    using assms(3) by (auto intro: progress finish)
  moreover have "task_step ?s1 ?s2"
    using s1 assms(6) by (intro request) (simp_all add: leave_waiting)
  moreover have "task_step ?s2 ?s3"
    using s1 by (intro progress wake) (simp add: enter_def try_lock_def)
  moreover have "tk_inside ?s3 = {u}" "waiting ?s3 = ts @ [t]"
    using s1 by (simp_all add: enter_def try_lock_def waiting_def)
  ultimately show ?thesis
    by (meson converse_rtranclp_into_rtranclp r_into_rtranclp)
qed

text \<open>Two tasks: the second one waits while the first one is inside.\<close>

definition two_tasks :: tasks where
  "two_tasks = enter 2 (enter 1 \<lparr>tk_mutex = new_mutex, tk_woken = [], tk_inside = {}\<rparr>)"

lemma two_tasks_reached: "reach no_tasks task_step two_tasks"
proof -
  let ?s0 = "\<lparr>tk_mutex = new_mutex, tk_woken = [], tk_inside = {}\<rparr>"
  have "reach no_tasks task_step (enter 1 ?s0)"
    by (rule reach_step [where s = ?s0], rule reach_start, simp add: no_tasks_def, rule request)
      (simp_all add: mutex_defs new_mutex_def)
  moreover have "task_step (enter 1 ?s0) two_tasks"
    unfolding two_tasks_def by (rule request) (simp_all add: mutex_defs new_mutex_def)
  ultimately show ?thesis
    by (rule reach_step)
qed

theorem mutex_excludes_witness:
  "\<not> (1 \<in> tk_inside two_tasks \<and> 2 \<in> tk_inside two_tasks \<and> (1::nat) \<noteq> 2)
    \<and> isLocked (tk_mutex two_tasks) = (tk_inside two_tasks \<noteq> {})"
  by (rule mutex_excludes [OF two_tasks_reached])

theorem mutex_no_lost_wakeup_witness:
  "\<exists>s'. progress_step\<^sup>*\<^sup>* two_tasks s' \<and> tk_inside s' = {2} \<and> waiting s' = []"
  by (rule mutex_no_lost_wakeup [OF two_tasks_reached, of "[]"]) (simp add: two_tasks_def mutex_defs new_mutex_def)

end
