(* ===== verification/SourceFiles.thy ===== *)
theory SourceFiles
  imports Types NameMatcher Captures
begin

text \<open>
  Which files are indexed and as what: the tables and tests of \<open>extraction/grammars.ts\<close>. The entries
  of a table are read with \<open>map_of\<close>; the names that every JavaScript object inherits
  (\<open>constructor\<close>, \<open>toString\<close> and the like) are no extensions and are left out.
\<close>

section \<open>Tables\<close>

definition EXTENSION_MAP :: "(string \<times> language) list" where
  "EXTENSION_MAP =
     [(''.ts'', L_typescript), (''.tsx'', L_tsx), (''.mts'', L_typescript), (''.cts'', L_typescript),
      (''.js'', L_javascript), (''.mjs'', L_javascript), (''.cjs'', L_javascript), (''.xsjs'', L_javascript),
      (''.xsjslib'', L_javascript), (''.jsx'', L_jsx), (''.py'', L_python), (''.pyw'', L_python), (''.go'', L_go),
      (''.rs'', L_rust), (''.java'', L_java), (''.c'', L_c), (''.h'', L_c), (''.cpp'', L_cpp), (''.cc'', L_cpp),
      (''.cxx'', L_cpp), (''.hpp'', L_cpp), (''.hxx'', L_cpp), (''.cs'', L_csharp), (''.cshtml'', L_razor),
      (''.razor'', L_razor), (''.php'', L_php), (''.module'', L_php), (''.install'', L_php), (''.theme'', L_php),
      (''.inc'', L_php), (''.yml'', L_yaml), (''.yaml'', L_yaml), (''.twig'', L_twig), (''.rb'', L_ruby),
      (''.rake'', L_ruby), (''.swift'', L_swift), (''.kt'', L_kotlin), (''.kts'', L_kotlin), (''.dart'', L_dart),
      (''.liquid'', L_liquid), (''.svelte'', L_svelte), (''.vue'', L_vue), (''.pas'', L_pascal),
      (''.dpr'', L_pascal), (''.dpk'', L_pascal), (''.lpr'', L_pascal), (''.dfm'', L_pascal), (''.fmx'', L_pascal),
      (''.scala'', L_scala), (''.sc'', L_scala), (''.lua'', L_lua), (''.luau'', L_luau), (''.m'', L_objc),
      (''.mm'', L_objc), (''.xml'', L_xml), (''.properties'', L_properties)]"

definition WASM_GRAMMAR_FILES :: "(language \<times> string) list" where
  "WASM_GRAMMAR_FILES =
     [(L_typescript, ''tree-sitter-typescript.wasm''), (L_tsx, ''tree-sitter-tsx.wasm''),
      (L_javascript, ''tree-sitter-javascript.wasm''), (L_jsx, ''tree-sitter-javascript.wasm''),
      (L_python, ''tree-sitter-python.wasm''), (L_go, ''tree-sitter-go.wasm''), (L_rust, ''tree-sitter-rust.wasm''),
      (L_java, ''tree-sitter-java.wasm''), (L_c, ''tree-sitter-c.wasm''), (L_cpp, ''tree-sitter-cpp.wasm''),
      (L_csharp, ''tree-sitter-c_sharp.wasm''), (L_php, ''tree-sitter-php.wasm''),
      (L_ruby, ''tree-sitter-ruby.wasm''), (L_swift, ''tree-sitter-swift.wasm''),
      (L_kotlin, ''tree-sitter-kotlin.wasm''), (L_dart, ''tree-sitter-dart.wasm''),
      (L_pascal, ''tree-sitter-pascal.wasm''), (L_scala, ''tree-sitter-scala.wasm''),
      (L_lua, ''tree-sitter-lua.wasm''), (L_luau, ''tree-sitter-luau.wasm''), (L_objc, ''tree-sitter-objc.wasm'')]"

section \<open>Files\<close>

definition isPlayRoutesFile :: "string \<Rightarrow> bool" where
  "isPlayRoutesFile filePath \<longleftrightarrow>
     filePath = ''conf/routes'' \<or> ends_with filePath ''/conf/routes'' \<or> ends_with filePath ''.routes''"

definition shopify_json_re :: re where
  "shopify_json_re =
     re_seq [Alt Bol (re_chr CHR ''/''), re_alt [re_nocase ''templates'', re_nocase ''sections''], re_chr CHR ''/'',
       re_plus (Cls (\<lambda>c. c \<notin> {newline, CHR 0x0D})), re_nocase ''.json'', Eol]"

definition isShopifyLiquidJson :: "string \<Rightarrow> bool" where
  "isShopifyLiquidJson filePath = re_test shopify_json_re filePath"

definition extension_of :: "string \<Rightarrow> nat \<Rightarrow> string" where
  "extension_of filePath dot = to_lower (drop dot filePath)"

definition isSourceFile :: "string \<Rightarrow> bool" where
  "isSourceFile filePath =
     (if isPlayRoutesFile filePath then True
      else if isShopifyLiquidJson filePath then True
      else (case last_index_of filePath ''.'' of
              None \<Rightarrow> False
            | Some dot \<Rightarrow> map_of EXTENSION_MAP (extension_of filePath dot) \<noteq> None))"

section \<open>Languages\<close>

definition cpp_header_re :: re where
  "cpp_header_re =
     re_alt
       [re_seq [Wordb, re_str ''namespace'', Wordb],
        re_seq [Wordb, re_str ''class'', spaces1, word, spaces, re_any '':{''],
        re_seq [Wordb, re_str ''template'', spaces, re_chr CHR ''<''],
        re_seq [Wordb, re_alt [re_str ''public'', re_str ''private'', re_str ''protected''], spaces, re_chr CHR '':''],
        re_seq [Wordb, re_str ''virtual'', Wordb],
        re_seq [Wordb, re_str ''using'', spaces1,
          Alt (Seq (re_str ''namespace'') Wordb) (re_seq [word, spaces, re_chr CHR ''=''])]]"

definition looksLikeCpp :: "string \<Rightarrow> bool" where
  "looksLikeCpp source = re_test cpp_header_re (take 8192 source)"

definition objc_header_re :: re where
  "objc_header_re =
     re_seq [re_chr CHR ''@'',
       re_alt [re_str ''interface'', re_str ''implementation'', re_str ''protocol'', re_str ''synthesize''], Wordb]"

definition looksLikeObjc :: "string \<Rightarrow> bool" where
  "looksLikeObjc source = re_test objc_header_re (take 8192 source)"

definition detectLanguage :: "string \<Rightarrow> string option \<Rightarrow> language" where
  "detectLanguage filePath source =
     (if isPlayRoutesFile filePath then L_yaml
      else (let ext = extension_of filePath (case last_index_of filePath ''.'' of Some dot \<Rightarrow> dot | None \<Rightarrow> 0) in
        if isShopifyLiquidJson filePath then L_liquid
        else (let lang = (case map_of EXTENSION_MAP ext of Some l \<Rightarrow> l | None \<Rightarrow> L_unknown) in
          case source of
            Some src \<Rightarrow>
              if lang = L_c \<and> ext = ''.h'' \<and> src \<noteq> ''''
              then (if looksLikeCpp src then L_cpp else if looksLikeObjc src then L_objc else lang)
              else lang
          | None \<Rightarrow> lang)))"

definition isLanguageSupported :: "language \<Rightarrow> bool" where
  "isLanguageSupported l \<longleftrightarrow>
     l \<in> {L_svelte, L_vue, L_liquid, L_razor, L_yaml, L_twig, L_xml, L_properties}
     \<or> (l \<noteq> L_unknown \<and> map_of WASM_GRAMMAR_FILES l \<noteq> None)"

text \<open>The argument is the set of languages whose grammar has been loaded.\<close>

definition isGrammarLoaded :: "language set \<Rightarrow> language \<Rightarrow> bool" where
  "isGrammarLoaded cache l \<longleftrightarrow>
     l \<in> {L_svelte, L_vue, L_liquid, L_razor} \<or> l \<in> {L_yaml, L_twig} \<or> l \<in> {L_xml, L_properties} \<or> l \<in> cache"

definition isFileLevelOnlyLanguage :: "language \<Rightarrow> bool" where
  "isFileLevelOnlyLanguage l \<longleftrightarrow> l = L_yaml \<or> l = L_twig \<or> l = L_properties"

definition getSupportedLanguages :: "language list" where
  "getSupportedLanguages = map fst WASM_GRAMMAR_FILES @ [L_svelte, L_vue, L_liquid]"

fun getLanguageDisplayName :: "language \<Rightarrow> string" where
  "getLanguageDisplayName L_typescript = ''TypeScript''"
| "getLanguageDisplayName L_javascript = ''JavaScript''"
| "getLanguageDisplayName L_tsx = ''TypeScript (TSX)''"
| "getLanguageDisplayName L_jsx = ''JavaScript (JSX)''"
| "getLanguageDisplayName L_python = ''Python''"
| "getLanguageDisplayName L_go = ''Go''"
| "getLanguageDisplayName L_rust = ''Rust''"
| "getLanguageDisplayName L_java = ''Java''"
| "getLanguageDisplayName L_c = ''C''"
| "getLanguageDisplayName L_cpp = ''C++''"
| "getLanguageDisplayName L_csharp = ''C#''"
| "getLanguageDisplayName L_razor = ''Razor/Blazor''"
| "getLanguageDisplayName L_php = ''PHP''"
| "getLanguageDisplayName L_ruby = ''Ruby''"
| "getLanguageDisplayName L_swift = ''Swift''"
| "getLanguageDisplayName L_kotlin = ''Kotlin''"
| "getLanguageDisplayName L_dart = ''Dart''"
| "getLanguageDisplayName L_svelte = ''Svelte''"
| "getLanguageDisplayName L_vue = ''Vue''"
| "getLanguageDisplayName L_liquid = ''Liquid''"
| "getLanguageDisplayName L_pascal = ''Pascal / Delphi''"
| "getLanguageDisplayName L_scala = ''Scala''"
| "getLanguageDisplayName L_lua = ''Lua''"
| "getLanguageDisplayName L_luau = ''Luau''"
| "getLanguageDisplayName L_objc = ''Objective-C''"
| "getLanguageDisplayName L_yaml = ''YAML''"
| "getLanguageDisplayName L_twig = ''Twig''"
| "getLanguageDisplayName L_xml = ''XML''"
| "getLanguageDisplayName L_properties = ''Java properties''"
| "getLanguageDisplayName L_unknown = ''Unknown''"

section \<open>The tables agree\<close>

text \<open>Extensions start with a dot, so a text without one is none.\<close>

lemma extension_known:
  "map_of EXTENSION_MAP ext = Some l \<Longrightarrow> l \<noteq> L_unknown \<and> CHR ''.'' \<in> set ext"
  by (auto simp: EXTENSION_MAP_def split: if_splits)

lemma supported: "isLanguageSupported l \<longleftrightarrow> l \<noteq> L_unknown"
  by (cases l) (simp_all add: isLanguageSupported_def WASM_GRAMMAR_FILES_def)

lemma no_dot: "last_index_of s ''.'' = None \<Longrightarrow> CHR ''.'' \<notin> set s"
proof -
  assume "last_index_of s ''.'' = None"
  then have "\<not> str_includes (rev s) ''.''"
    by (simp add: last_index_of_def index_of_None split: option.splits)
  moreover have "str_includes (rev s) ''.''" if "CHR ''.'' \<in> set s"
  proof -
    from that have "CHR ''.'' \<in> set (rev s)"
      by simp
    then obtain a b where "rev s = a @ CHR ''.'' # b"
      by (meson split_list)
    then have "rev s = a @ ''.'' @ b"
      by simp
    then show ?thesis
      unfolding sublist_def by blast
  qed
  ultimately show ?thesis
    by blast
qed

lemma lower_char_dot: "lower_char c = CHR ''.'' \<Longrightarrow> c = CHR ''.''"
proof (rule ccontr)
  assume h: "lower_char c = CHR ''.''" "c \<noteq> CHR ''.''"
  then have u: "is_upper c" "char_of (char_code c + 32) = CHR ''.''"
    by (auto simp: lower_char_def split: if_splits)
  then have "char_code (char_of (char_code c + 32)) = char_code c + 32"
    by (intro char_code_char_of) (simp add: is_upper_def)
  then have "char_code c + 32 = 46"
    unfolding u(2) by (simp add: char_code_def)
  then show False
    using u(1) by (simp add: is_upper_def)
qed

lemma lower_keeps_dot: "CHR ''.'' \<in> set (to_lower s) \<Longrightarrow> CHR ''.'' \<in> set s"
  by (auto simp: to_lower_def dest!: lower_char_dot [OF sym])

text \<open>
  The files that are indexed are exactly those for which a language is detected, whatever they contain,
  and every such language is a supported one.
\<close>

theorem indexed_files_have_language:
  "isSourceFile filePath = isLanguageSupported (detectLanguage filePath source)"
proof (cases "isPlayRoutesFile filePath \<or> isShopifyLiquidJson filePath")
  case True
  then show ?thesis
    by (auto simp: isSourceFile_def detectLanguage_def supported)
next
  case False
  show ?thesis
  proof (cases "last_index_of filePath ''.''")
    case None
    have "map_of EXTENSION_MAP (extension_of filePath 0) = None"
      using no_dot [OF None] extension_known [of "to_lower filePath"] lower_keeps_dot [of filePath]
      by (cases "map_of EXTENSION_MAP (to_lower filePath)") (auto simp: extension_of_def)
    then show ?thesis
      using False None by (simp add: isSourceFile_def detectLanguage_def supported split: option.splits)
  next
    case (Some dot)
    show ?thesis
      using False Some extension_known [of "extension_of filePath dot"]
      by (auto simp: isSourceFile_def detectLanguage_def supported Let_def split: option.splits)
  qed
qed

end
