(* ===== verification/Watcher.thy ===== *)
theory Watcher
  imports SourceFiles Paths Steps Numerals ImportResolver
begin

text \<open>
  The file watcher (\<open>sync/watcher.ts\<close>), the policy that switches it off (\<open>sync/watch-policy.ts\<close>) and the
  name of the data directory (\<open>directory.ts\<close>). The methods of \<open>FileWatcher\<close> are functions of its state;
  what they read of the operating system is the record \<open>watch_env\<close>, which may be another one at every
  call. The ignore matcher is a value of the package \<open>ignore\<close>, a parameter. Times are those of
  \<open>Date.now()\<close>; a timer is the time at which it is due. The two parts of \<open>flush\<close>, before and after the
  \<open>await\<close> of the sync, are \<open>flush\<close> and \<open>sync_done\<close>. Logging is left out.
\<close>

section \<open>The data directory and the watch policy\<close>

datatype entry_kind = Entry_dir | Entry_file | Entry_other

record watch_env =
  we_platform :: string
  we_vars :: "string \<Rightarrow> string option"
  we_procVersion :: "string option"
  we_ignores :: "string \<Rightarrow> bool"
  we_readdir :: "string \<Rightarrow> (string \<times> entry_kind) list option"
  we_isDir :: "string \<Rightarrow> bool"
  we_watch :: "string \<Rightarrow> bool"

definition DEFAULT_CODEGRAPH_DIR :: string where
  "DEFAULT_CODEGRAPH_DIR = ''.codegraph''"

definition codeGraphDirName :: "(string \<Rightarrow> string option) \<Rightarrow> string" where
  "codeGraphDirName vars =
     (case truthy (map_option trim (vars ''CODEGRAPH_DIR'')) of
        None \<Rightarrow> DEFAULT_CODEGRAPH_DIR
      | Some raw \<Rightarrow>
          if raw = ''.'' \<or> str_includes raw ''..'' \<or> str_includes raw ''/'' \<or> str_includes raw [CHR 0x5C] \<or> is_absolute raw
          then DEFAULT_CODEGRAPH_DIR else raw)"

definition isCodeGraphDataDir :: "(string \<Rightarrow> string option) \<Rightarrow> string \<Rightarrow> bool" where
  "isCodeGraphDataDir vars name \<longleftrightarrow>
     name = DEFAULT_CODEGRAPH_DIR \<or> name = codeGraphDirName vars \<or> starts_with name (DEFAULT_CODEGRAPH_DIR @ ''-'')"

definition detectWsl :: "watch_env \<Rightarrow> bool" where
  "detectWsl env =
     (if we_platform env \<noteq> ''linux'' then False
      else if truthy (we_vars env ''WSL_DISTRO_NAME'') \<noteq> None \<or> truthy (we_vars env ''WSL_INTEROP'') \<noteq> None then True
      else (case we_procVersion env of
              Some v \<Rightarrow> str_includes (to_lower v) ''microsoft'' \<or> str_includes (to_lower v) ''wsl''
            | None \<Rightarrow> False))"

definition drive_mount_re :: re where
  "drive_mount_re =
     re_seq [Bol, re_nocase ''/mnt/'', Cls (\<lambda>c. is_lower (lower_char c)), Alt (re_chr CHR ''/'') Eol]"

definition isWindowsDriveMount :: "string \<Rightarrow> bool" where
  "isWindowsDriveMount projectRoot = re_test drive_mount_re (slash_path projectRoot)"

definition watchDisabledReason :: "string \<Rightarrow> watch_env \<Rightarrow> string option" where
  "watchDisabledReason projectRoot env =
     (if we_vars env ''CODEGRAPH_NO_WATCH'' = Some ''1'' then Some ''CODEGRAPH_NO_WATCH=1 is set''
      else if we_vars env ''CODEGRAPH_FORCE_WATCH'' = Some ''1'' then None
      else if detectWsl env \<and> isWindowsDriveMount projectRoot
      then Some ''project is on a WSL2 /mnt/ drive, where recursive fs.watch is too slow to be reliable''
      else None)"

section \<open>State\<close>

definition supportsRecursiveWatch :: "watch_env \<Rightarrow> bool" where
  "supportsRecursiveWatch env \<longleftrightarrow> we_platform env = ''darwin'' \<or> we_platform env = ''win32''"

definition DEFAULT_MAX_DIR_WATCHES :: nat where
  "DEFAULT_MAX_DIR_WATCHES = 50000"

definition maxDirWatches :: "(string \<Rightarrow> string option) \<Rightarrow> nat" where
  "maxDirWatches vars =
     (case vars ''CODEGRAPH_MAX_DIR_WATCHES'' of
        Some raw \<Rightarrow>
          if raw \<noteq> '''' \<and> list_all is_digit raw
          then (case parse_int raw of Some n \<Rightarrow> if 0 < n then nat n else DEFAULT_MAX_DIR_WATCHES | None \<Rightarrow> DEFAULT_MAX_DIR_WATCHES)
          else DEFAULT_MAX_DIR_WATCHES
      | None \<Rightarrow> DEFAULT_MAX_DIR_WATCHES)"

text \<open>
  The last three fields are not in the code: the number of syncs begun, the last change of each file that
  the watcher took up since it was started, as its time and the number of syncs begun before it, and the last
  successful sync, as the time at which it began and its number.
\<close>

record watcher =
  wt_projectRoot :: string
  wt_debounceMs :: nat
  wt_inertForTests :: bool
  wt_recursive :: bool
  wt_dirs :: "string list"
  wt_capWarned :: bool
  wt_inert :: bool
  wt_timer :: "nat option"
  wt_pending :: "(string, nat \<times> nat) jmap"
  wt_syncStarted :: nat
  wt_syncing :: bool
  wt_stopped :: bool
  wt_ready :: bool
  wt_waiters :: "nat list"
  wt_ignore :: "(string \<Rightarrow> bool) option"
  wt_round :: nat
  wt_edits :: "string \<Rightarrow> (nat \<times> nat) option"
  wt_synced :: "(nat \<times> nat) option"

definition new_watcher :: "string \<Rightarrow> nat option \<Rightarrow> bool option \<Rightarrow> watcher" where
  "new_watcher projectRoot debounceMs inertForTests =
     \<lparr>wt_projectRoot = projectRoot, wt_debounceMs = (case debounceMs of Some ms \<Rightarrow> ms | None \<Rightarrow> 2000),
      wt_inertForTests = (case inertForTests of Some b \<Rightarrow> b | None \<Rightarrow> False), wt_recursive = False, wt_dirs = [],
      wt_capWarned = False, wt_inert = False, wt_timer = None, wt_pending = [], wt_syncStarted = 0,
      wt_syncing = False, wt_stopped = False, wt_ready = False, wt_waiters = [], wt_ignore = None,
      wt_round = 0, wt_edits = (\<lambda>_. None), wt_synced = None\<rparr>"

section \<open>Changes\<close>

definition scheduleSync :: "nat \<Rightarrow> watcher \<Rightarrow> watcher" where
  "scheduleSync now w = w\<lparr>wt_timer := Some (now + wt_debounceMs w)\<rparr>"

definition isAlwaysIgnored :: "watch_env \<Rightarrow> string \<Rightarrow> bool" where
  "isAlwaysIgnored env rel \<longleftrightarrow>
     isCodeGraphDataDir (we_vars env) (hd (segments rel)) \<or> rel = ''.git'' \<or> starts_with rel ''.git/''"

definition accepted :: "watch_env \<Rightarrow> watcher \<Rightarrow> string \<Rightarrow> bool" where
  "accepted env w rel =
     (if rel = '''' \<or> rel = ''.'' \<or> starts_with rel ''..'' then False
      else if isAlwaysIgnored env rel then False
      else if (case wt_ignore w of Some ignores \<Rightarrow> ignores rel | None \<Rightarrow> False) then False
      else isSourceFile rel)"

definition record_change :: "nat \<Rightarrow> string \<Rightarrow> watcher \<Rightarrow> watcher" where
  "record_change now rel w =
     (if wt_ready w then
        w\<lparr>wt_pending := map_set rel
            ((case map_get (wt_pending w) rel of Some (firstSeen, _) \<Rightarrow> firstSeen | None \<Rightarrow> now), now) (wt_pending w),
          wt_edits := (wt_edits w)(rel \<mapsto> (now, wt_round w))\<rparr>
      else w)"

definition handleChange :: "watch_env \<Rightarrow> nat \<Rightarrow> string \<Rightarrow> watcher \<Rightarrow> watcher" where
  "handleChange env now rel w =
     (if accepted env w rel then scheduleSync now (record_change now rel w) else w)"

section \<open>Watched directories\<close>

definition rel_path :: "watcher \<Rightarrow> string \<Rightarrow> string" where
  "rel_path w full = slash_path (path_relative (wt_projectRoot w) full)"

definition shouldIgnoreDir :: "watch_env \<Rightarrow> watcher \<Rightarrow> string \<Rightarrow> bool" where
  "shouldIgnoreDir env w dirPath =
     (let rel = rel_path w dirPath in
      if rel = '''' \<or> rel = ''.'' \<or> starts_with rel ''..'' then False
      else if isAlwaysIgnored env rel then True
      else (case wt_ignore w of None \<Rightarrow> False | Some ignores \<Rightarrow> ignores (rel @ ''/'')))"

text \<open>One entry of a directory; the first argument is the recursive call.\<close>

definition visit_entry :: "(string \<Rightarrow> watcher \<Rightarrow> watcher) \<Rightarrow> watch_env \<Rightarrow> nat \<Rightarrow> bool \<Rightarrow> string \<Rightarrow> string \<times> entry_kind
    \<Rightarrow> watcher \<Rightarrow> watcher" where
  "visit_entry watch env now markExisting dir entry w =
     (let child = path_join [dir, fst entry] in
      case snd entry of
        Entry_dir \<Rightarrow> if shouldIgnoreDir env w child then w else watch child w
      | Entry_file \<Rightarrow> if markExisting then handleChange env now (rel_path w child) w else w
      | Entry_other \<Rightarrow> w)"

text \<open>
  \<open>watchTree\<close>. Every level of the recursion has added a directory, and none is added beyond the cap, so
  the recursion is at most as deep as directories are left below the cap; the first argument counts
  these levels down.
\<close>

primrec watch_levels :: "nat \<Rightarrow> watch_env \<Rightarrow> nat \<Rightarrow> bool \<Rightarrow> string \<Rightarrow> watcher \<Rightarrow> watcher" where
  "watch_levels 0 env now markExisting dir w = w"
| "watch_levels (Suc k) env now markExisting dir w =
     (if dir \<in> set (wt_dirs w) then w
      else if maxDirWatches (we_vars env) \<le> length (wt_dirs w) then w\<lparr>wt_capWarned := True\<rparr>
      else if \<not> we_watch env dir then w
      else fold (visit_entry (watch_levels k env now markExisting) env now markExisting dir)
             (case we_readdir env dir of None \<Rightarrow> [] | Some entries \<Rightarrow> entries)
             (w\<lparr>wt_dirs := wt_dirs w @ [dir]\<rparr>))"

definition watchTree :: "watch_env \<Rightarrow> nat \<Rightarrow> bool \<Rightarrow> string \<Rightarrow> watcher \<Rightarrow> watcher" where
  "watchTree env now markExisting dir w =
     watch_levels (Suc (maxDirWatches (we_vars env))) env now markExisting dir w"

definition unwatchDir :: "string \<Rightarrow> watcher \<Rightarrow> watcher" where
  "unwatchDir dir w = w\<lparr>wt_dirs := removeAll dir (wt_dirs w)\<rparr>"

definition handleDirEvent :: "watch_env \<Rightarrow> nat \<Rightarrow> string \<Rightarrow> string option \<Rightarrow> watcher \<Rightarrow> watcher" where
  "handleDirEvent env now dir filename w =
     (case filename of
        None \<Rightarrow> w
      | Some name \<Rightarrow>
          if wt_stopped w then w
          else (let full = path_join [dir, name] in
            if we_isDir env full then (if shouldIgnoreDir env w full then w else watchTree env now True full w)
            else handleChange env now (rel_path w full) w))"

definition recursiveEvent :: "watch_env \<Rightarrow> nat \<Rightarrow> string option \<Rightarrow> watcher \<Rightarrow> watcher" where
  "recursiveEvent env now filename w =
     (case filename of
        None \<Rightarrow> w
      | Some name \<Rightarrow> if wt_stopped w then w else handleChange env now (slash_path name) w)"

section \<open>Start and stop\<close>

definition stop :: "watcher \<Rightarrow> watcher" where
  "stop w =
     w\<lparr>wt_stopped := True, wt_timer := None, wt_recursive := False, wt_dirs := [], wt_capWarned := False,
       wt_inert := False, wt_pending := [], wt_ready := False, wt_ignore := None, wt_edits := (\<lambda>_. None)\<rparr>"

text \<open>The installation of the watch set: \<open>None\<close> when \<open>fs.watch\<close> throws for the one recursive watch.\<close>

definition install :: "watch_env \<Rightarrow> nat \<Rightarrow> watcher \<Rightarrow> watcher option" where
  "install env now w =
     (if wt_inertForTests w then Some (w\<lparr>wt_inert := True\<rparr>)
      else if supportsRecursiveWatch env then
        (if we_watch env (wt_projectRoot w) then Some (w\<lparr>wt_recursive := True\<rparr>) else None)
      else Some (watchTree env now False (wt_projectRoot w) w))"

definition start :: "watch_env \<Rightarrow> nat \<Rightarrow> watcher \<Rightarrow> bool \<times> watcher" where
  "start env now w =
     (if wt_recursive w \<or> wt_dirs w \<noteq> [] \<or> wt_inert w then (True, w)
      else (let w1 = w\<lparr>wt_stopped := False\<rparr> in
        if watchDisabledReason (wt_projectRoot w) env \<noteq> None then (False, w1)
        else (let w2 = w1\<lparr>wt_ignore := Some (we_ignores env)\<rparr> in
          case install env now w2 of
            Some w3 \<Rightarrow> (True, w3\<lparr>wt_pending := [], wt_ready := True, wt_waiters := [], wt_edits := (\<lambda>_. None)\<rparr>)
          | None \<Rightarrow> (False, stop w2))))"

definition isActive :: "watcher \<Rightarrow> bool" where
  "isActive w \<longleftrightarrow> (wt_recursive w \<or> wt_dirs w \<noteq> [] \<or> wt_inert w) \<and> \<not> wt_stopped w"

text \<open>\<open>waitUntilReady\<close>: whether the promise is resolved at once; the waiter is a number.\<close>

definition waitUntilReady :: "nat \<Rightarrow> watcher \<Rightarrow> bool \<times> watcher" where
  "waitUntilReady handler w =
     (if wt_ready w then (True, w) else (False, w\<lparr>wt_waiters := wt_waiters w @ [handler]\<rparr>))"

definition wait_timeout :: "nat \<Rightarrow> watcher \<Rightarrow> watcher" where
  "wait_timeout handler w = w\<lparr>wt_waiters := remove1 handler (wt_waiters w)\<rparr>"

section \<open>Syncs\<close>

text \<open>The timer fires: whether a sync begins.\<close>

definition flush :: "nat \<Rightarrow> watcher \<Rightarrow> watcher" where
  "flush now w =
     (let w1 = w\<lparr>wt_timer := None\<rparr> in
      if wt_syncing w1 \<or> wt_stopped w1 then w1 else w1\<lparr>wt_syncStarted := now, wt_syncing := True, wt_round := wt_round w + 1\<rparr>)"

datatype sync_outcome = Sync_done | Sync_lock_unavailable | Sync_failed

definition sync_done :: "nat \<Rightarrow> sync_outcome \<Rightarrow> watcher \<Rightarrow> watcher" where
  "sync_done now outcome w =
     (let w1 = (case outcome of
            Sync_done \<Rightarrow> w\<lparr>wt_pending := filter (\<lambda>(f, info). \<not> snd info \<le> wt_syncStarted w) (wt_pending w),
                           wt_synced := Some (wt_syncStarted w, wt_round w)\<rparr>
          | Sync_lock_unavailable \<Rightarrow> w
          | Sync_failed \<Rightarrow> w);
          w2 = w1\<lparr>wt_syncing := False\<rparr>
      in if wt_pending w2 \<noteq> [] \<and> \<not> wt_stopped w2 then scheduleSync now w2 else w2)"

record pending_file =
  pf_path :: string
  pf_firstSeenMs :: nat
  pf_lastSeenMs :: nat
  pf_indexing :: bool

definition getPendingFiles :: "watcher \<Rightarrow> pending_file list" where
  "getPendingFiles w =
     map (\<lambda>(f, info). \<lparr>pf_path = f, pf_firstSeenMs = fst info, pf_lastSeenMs = snd info,
         pf_indexing = (wt_syncing w \<and> snd info \<le> wt_syncStarted w)\<rparr>) (wt_pending w)"

section \<open>The recursion of \<open>watchTree\<close>\<close>

lemma record_change_fields [simp]:
  "wt_dirs (record_change now rel w) = wt_dirs w" "wt_ignore (record_change now rel w) = wt_ignore w"
  "wt_projectRoot (record_change now rel w) = wt_projectRoot w" "wt_ready (record_change now rel w) = wt_ready w"
  "wt_stopped (record_change now rel w) = wt_stopped w" "wt_synced (record_change now rel w) = wt_synced w"
  "wt_syncStarted (record_change now rel w) = wt_syncStarted w" "wt_debounceMs (record_change now rel w) = wt_debounceMs w"
  by (simp_all add: record_change_def)

lemma handleChange_fields [simp]:
  "wt_dirs (handleChange env now rel w) = wt_dirs w" "wt_ignore (handleChange env now rel w) = wt_ignore w"
  "wt_projectRoot (handleChange env now rel w) = wt_projectRoot w" "wt_ready (handleChange env now rel w) = wt_ready w"
  "wt_stopped (handleChange env now rel w) = wt_stopped w" "wt_synced (handleChange env now rel w) = wt_synced w"
  "wt_syncStarted (handleChange env now rel w) = wt_syncStarted w"
  by (simp_all add: handleChange_def scheduleSync_def)

text \<open>What every entry keeps, the entries of a directory keep.\<close>

lemma visit_entry_keeps:
  assumes "\<And>child v. Q v \<Longrightarrow> \<not> shouldIgnoreDir env v child \<Longrightarrow> Q (watch child v)"
    and "\<And>rel v. Q v \<Longrightarrow> Q (handleChange env now rel v)" and "Q w"
  shows "Q (visit_entry watch env now m dir entry w)"
  using assms by (cases "snd entry") (auto simp: visit_entry_def Let_def)

lemma fold_keeps:
  assumes "\<And>x v. Q v \<Longrightarrow> Q (f x v)" and "Q w"
  shows "Q (fold f xs w)"
  using assms(2) by (induction xs arbitrary: w) (auto intro: assms(1))

lemma fold_both:
  assumes "\<And>x v. Q v \<Longrightarrow> f x v = g x v" and "\<And>x v. Q v \<Longrightarrow> Q (g x v)" and "Q w"
  shows "fold f xs w = fold g xs w"
  using assms(3) by (induction xs arbitrary: w) (auto simp: assms(1,2))

lemma watch_levels_grows: "length (wt_dirs w) \<le> length (wt_dirs (watch_levels k env now m dir w))"
proof (induction k arbitrary: dir w)
  case (Suc k)
  have "n \<le> length (wt_dirs (fold (visit_entry (watch_levels k env now m) env now m dir) entries v))"
    if "n \<le> length (wt_dirs v)" for entries v n
    using that
  proof (rule fold_keeps [where Q = "\<lambda>v. n \<le> length (wt_dirs v)", rotated])
    show "n \<le> length (wt_dirs (visit_entry (watch_levels k env now m) env now m dir x v))" if "n \<le> length (wt_dirs v)" for x v
      using that Suc.IH order_trans by (intro visit_entry_keeps [where Q = "\<lambda>v. n \<le> length (wt_dirs v)"]) (auto intro: order_trans)
  qed
  from this [of "length (wt_dirs w)" "w\<lparr>wt_dirs := wt_dirs w @ [dir]\<rparr>"] show ?case
    by simp
qed simp

text \<open>The number of levels does not matter once it exceeds the number of directories left below the cap.\<close>

lemma watch_levels_enough:
  "maxDirWatches (we_vars env) - length (wt_dirs w) < k \<Longrightarrow> maxDirWatches (we_vars env) - length (wt_dirs w) < k' \<Longrightarrow>
    watch_levels k env now m dir w = watch_levels k' env now m dir w"
proof (induction k arbitrary: k' dir w)
  case (Suc k)
  obtain j where j: "k' = Suc j"
    using Suc.prems(2) by (cases k') auto
  let ?cap = "maxDirWatches (we_vars env)"
  let ?f = "\<lambda>k. visit_entry (watch_levels k env now m) env now m dir"
  let ?P = "\<lambda>v :: watcher. ?cap - length (wt_dirs v) < k \<and> ?cap - length (wt_dirs v) < j"
  have same: "?f k x v = ?f j x v" if "?P v" for x v
    using that Suc.IH [of v j] by (cases "snd x") (simp_all add: visit_entry_def Let_def)
  have kept: "?P (?f j x v)" if "?P v" for x v
  proof (rule visit_entry_keeps [where Q = ?P, OF _ _ that])
    fix child u
    assume "?P u"
    moreover have "length (wt_dirs u) \<le> length (wt_dirs (watch_levels j env now m child u))"
      by (rule watch_levels_grows)
    ultimately show "?P (watch_levels j env now m child u)"
      by linarith
  qed simp
  show ?case
  proof (cases "length (wt_dirs w) < ?cap")
    case True
    then have P0: "?P (w\<lparr>wt_dirs := wt_dirs w @ [dir]\<rparr>)"
      using Suc.prems unfolding j by simp linarith
    have "fold (?f k) entries (w\<lparr>wt_dirs := wt_dirs w @ [dir]\<rparr>) = fold (?f j) entries (w\<lparr>wt_dirs := wt_dirs w @ [dir]\<rparr>)" for entries
      by (rule fold_both [where Q = ?P]) (use same kept P0 in blast)+
    then show ?thesis
      unfolding j by simp
  qed (simp add: j)
qed simp

text \<open>So the function satisfies the recursive equation of the code.\<close>

lemma watchTree_eq:
  "watchTree env now m dir w =
     (if dir \<in> set (wt_dirs w) then w
      else if maxDirWatches (we_vars env) \<le> length (wt_dirs w) then w\<lparr>wt_capWarned := True\<rparr>
      else if \<not> we_watch env dir then w
      else fold (visit_entry (watchTree env now m) env now m dir)
             (case we_readdir env dir of None \<Rightarrow> [] | Some entries \<Rightarrow> entries)
             (w\<lparr>wt_dirs := wt_dirs w @ [dir]\<rparr>))"
proof -
  let ?cap = "maxDirWatches (we_vars env)"
  have one_more: "watch_levels (Suc (Suc ?cap)) env now m d v = watchTree env now m d v" for d v
    unfolding watchTree_def by (rule watch_levels_enough) simp_all
  have tree: "watch_levels (Suc ?cap) env now m = watchTree env now m"
    by (rule ext, rule ext) (simp only: watchTree_def)
  have "watchTree env now m dir w = watch_levels (Suc (Suc ?cap)) env now m dir w"
    by (rule one_more [symmetric])
  also note watch_levels.simps(2)
  finally show ?thesis
    unfolding tree .
qed

section \<open>Runs\<close>

record watch_run =
  wr_now :: nat
  wr_watcher :: watcher

text \<open>
  The steps of a watcher: its methods, the events that the operating system delivers while a watch is
  installed, the timer, the end of the sync, and time that passes. The environment variables are those
  of the process; everything else of the environment may differ from step to step.
\<close>

inductive watch_step :: "(string \<Rightarrow> string option) \<Rightarrow> watch_run \<Rightarrow> watch_run \<Rightarrow> bool"
  for vars :: "string \<Rightarrow> string option" where
  time_passes: "watch_step vars r (r\<lparr>wr_now := wr_now r + ms\<rparr>)"
| started: "we_vars env = vars \<Longrightarrow> watch_step vars r (r\<lparr>wr_watcher := snd (start env (wr_now r) (wr_watcher r))\<rparr>)"
| stopped: "watch_step vars r (r\<lparr>wr_watcher := stop (wr_watcher r)\<rparr>)"
| recursive_event: "we_vars env = vars \<Longrightarrow> wt_recursive (wr_watcher r) \<Longrightarrow>
    watch_step vars r (r\<lparr>wr_watcher := recursiveEvent env (wr_now r) filename (wr_watcher r)\<rparr>)"
| dir_event: "we_vars env = vars \<Longrightarrow> dir \<in> set (wt_dirs (wr_watcher r)) \<Longrightarrow>
    watch_step vars r (r\<lparr>wr_watcher := handleDirEvent env (wr_now r) dir filename (wr_watcher r)\<rparr>)"
| dir_error: "dir \<in> set (wt_dirs (wr_watcher r)) \<Longrightarrow> watch_step vars r (r\<lparr>wr_watcher := unwatchDir dir (wr_watcher r)\<rparr>)"
| timer: "wt_timer (wr_watcher r) = Some due \<Longrightarrow> due \<le> wr_now r \<Longrightarrow>
    watch_step vars r (r\<lparr>wr_watcher := flush (wr_now r) (wr_watcher r)\<rparr>)"
| sync_ends: "wt_syncing (wr_watcher r) \<Longrightarrow>
    watch_step vars r (r\<lparr>wr_watcher := sync_done (wr_now r) outcome (wr_watcher r)\<rparr>)"

definition new_run :: "watch_run \<Rightarrow> bool" where
  "new_run r \<longleftrightarrow> (\<exists>projectRoot ms. wr_watcher r = new_watcher projectRoot ms None)"

section \<open>The invariant\<close>

text \<open>
  A change is covered when a sync that began after it has succeeded, or the file is pending with its time. The
  exception is a change in the very millisecond in which the successful sync began.
\<close>

definition covered :: "watcher \<Rightarrow> string \<Rightarrow> nat \<Rightarrow> nat \<Rightarrow> bool" where
  "covered w f t k \<longleftrightarrow>
     (\<exists>s m. wt_synced w = Some (s, m) \<and> (k < m \<or> t = s)) \<or> (\<exists>a. map_get (wt_pending w) f = Some (a, t))"

definition ignored_dir :: "(string \<Rightarrow> string option) \<Rightarrow> string \<Rightarrow> (string \<Rightarrow> bool) option \<Rightarrow> string \<Rightarrow> bool" where
  "ignored_dir vars projectRoot ignores dirPath =
     (let rel = slash_path (path_relative projectRoot dirPath) in
      rel \<noteq> '''' \<and> rel \<noteq> ''.'' \<and> \<not> starts_with rel ''..''
      \<and> (isCodeGraphDataDir vars (hd (segments rel)) \<or> rel = ''.git'' \<or> starts_with rel ''.git/''
         \<or> (case ignores of None \<Rightarrow> False | Some g \<Rightarrow> g (rel @ ''/''))))"

lemma shouldIgnoreDir_eq: "shouldIgnoreDir env w d = ignored_dir (we_vars env) (wt_projectRoot w) (wt_ignore w) d"
  by (auto simp: shouldIgnoreDir_def ignored_dir_def isAlwaysIgnored_def rel_path_def Let_def split: option.splits)

definition dirs_ok :: "(string \<Rightarrow> string option) \<Rightarrow> watcher \<Rightarrow> bool" where
  "dirs_ok vars w \<longleftrightarrow>
     length (wt_dirs w) \<le> maxDirWatches vars \<and> distinct (wt_dirs w)
     \<and> list_all (\<lambda>d. \<not> ignored_dir vars (wt_projectRoot w) (wt_ignore w) d) (wt_dirs w)"

definition edits_covered :: "watcher \<Rightarrow> bool" where
  "edits_covered w \<longleftrightarrow> (\<forall>f t k. wt_edits w f = Some (t, k) \<longrightarrow> covered w f t k)"

text \<open>A change after the last sync has begun is not earlier than its beginning.\<close>

definition edits_timed :: "watcher \<Rightarrow> bool" where
  "edits_timed w \<longleftrightarrow>
     (\<forall>f t k. wt_edits w f = Some (t, k) \<longrightarrow> k \<le> wt_round w \<and> (k = wt_round w \<longrightarrow> wt_syncStarted w \<le> t))
     \<and> (\<forall>s m. wt_synced w = Some (s, m) \<longrightarrow> s \<le> wt_syncStarted w \<and> m \<le> wt_round w)"

definition changes_ok :: "nat \<Rightarrow> watcher \<Rightarrow> bool" where
  "changes_ok now w \<longleftrightarrow>
     edits_covered w
     \<and> (wt_pending w = [] \<or> wt_timer w \<noteq> None \<or> wt_syncing w)
     \<and> (wt_ready w \<or> wt_pending w = [] \<and> wt_edits w = (\<lambda>_. None))
     \<and> \<not> (wt_stopped w \<and> wt_ready w)
     \<and> edits_timed w \<and> wt_syncStarted w \<le> now
     \<and> distinct (map_keys (wt_pending w))"

definition watch_inv :: "(string \<Rightarrow> string option) \<Rightarrow> watch_run \<Rightarrow> bool" where
  "watch_inv vars r \<longleftrightarrow> dirs_ok vars (wr_watcher r) \<and> changes_ok (wr_now r) (wr_watcher r)"

subsection \<open>Changes\<close>

text \<open>Whether the edits are covered depends on three fields only.\<close>

lemma edits_covered_cong:
  "wt_edits v = wt_edits w \<Longrightarrow> wt_synced v = wt_synced w \<Longrightarrow> wt_pending v = wt_pending w \<Longrightarrow>
    edits_covered v = edits_covered w"
  by (simp add: edits_covered_def covered_def)

lemma edits_covered_updates [simp]:
  "edits_covered (w\<lparr>wt_timer := x\<rparr>) = edits_covered w" "edits_covered (w\<lparr>wt_syncing := b\<rparr>) = edits_covered w"
  "edits_covered (w\<lparr>wt_syncStarted := n\<rparr>) = edits_covered w" "edits_covered (w\<lparr>wt_dirs := ds\<rparr>) = edits_covered w"
  "edits_covered (w\<lparr>wt_capWarned := b\<rparr>) = edits_covered w" "edits_covered (w\<lparr>wt_stopped := b\<rparr>) = edits_covered w"
  "edits_covered (w\<lparr>wt_ready := b\<rparr>) = edits_covered w" "edits_covered (w\<lparr>wt_ignore := g\<rparr>) = edits_covered w"
  "edits_covered (w\<lparr>wt_inert := b\<rparr>) = edits_covered w" "edits_covered (w\<lparr>wt_recursive := b\<rparr>) = edits_covered w"
  "edits_covered (w\<lparr>wt_round := n\<rparr>) = edits_covered w"
  by (rule edits_covered_cong; simp)+

lemma edits_timed_cong:
  "wt_edits v = wt_edits w \<Longrightarrow> wt_synced v = wt_synced w \<Longrightarrow> wt_round v = wt_round w \<Longrightarrow>
    wt_syncStarted v = wt_syncStarted w \<Longrightarrow> edits_timed v = edits_timed w"
  by (simp add: edits_timed_def)

lemma edits_timed_updates [simp]:
  "edits_timed (w\<lparr>wt_timer := x\<rparr>) = edits_timed w" "edits_timed (w\<lparr>wt_syncing := b\<rparr>) = edits_timed w"
  "edits_timed (w\<lparr>wt_pending := m\<rparr>) = edits_timed w" "edits_timed (w\<lparr>wt_dirs := ds\<rparr>) = edits_timed w"
  "edits_timed (w\<lparr>wt_capWarned := b\<rparr>) = edits_timed w" "edits_timed (w\<lparr>wt_stopped := b\<rparr>) = edits_timed w"
  "edits_timed (w\<lparr>wt_ready := b\<rparr>) = edits_timed w" "edits_timed (w\<lparr>wt_ignore := g\<rparr>) = edits_timed w"
  "edits_timed (w\<lparr>wt_inert := b\<rparr>) = edits_timed w" "edits_timed (w\<lparr>wt_recursive := b\<rparr>) = edits_timed w"
  "edits_timed (w\<lparr>wt_waiters := ws\<rparr>) = edits_timed w"
  by (rule edits_timed_cong; simp)+

lemma edits_timed_none:
  "edits_timed w \<Longrightarrow> wt_edits v = (\<lambda>_. None) \<Longrightarrow> wt_synced v = wt_synced w \<Longrightarrow> wt_round v = wt_round w \<Longrightarrow>
    wt_syncStarted v = wt_syncStarted w \<Longrightarrow> edits_timed v"
  by (simp add: edits_timed_def)

lemma edits_timed_change: "edits_timed w \<Longrightarrow> wt_syncStarted w \<le> now \<Longrightarrow> edits_timed (record_change now rel w)"
  by (simp add: edits_timed_def record_change_def)

lemma edits_timed_begun:
  "edits_timed w \<Longrightarrow> wt_syncStarted w \<le> now \<Longrightarrow> wt_edits v = wt_edits w \<Longrightarrow> wt_synced v = wt_synced w \<Longrightarrow>
    wt_round v = Suc (wt_round w) \<Longrightarrow> wt_syncStarted v = now \<Longrightarrow> edits_timed v"
  by (fastforce simp: edits_timed_def)
lemma edits_covered_none [simp]: "wt_edits w = (\<lambda>_. None) \<Longrightarrow> edits_covered w"
  by (simp add: edits_covered_def)

lemma edits_covered_change: "edits_covered w \<Longrightarrow> edits_covered (record_change now rel w)"
  by (auto simp: edits_covered_def covered_def record_change_def)

lemma schedule_changes: "changes_ok now w \<Longrightarrow> changes_ok now (scheduleSync now' w)"
  by (simp add: changes_ok_def scheduleSync_def)

lemma handleChange_changes: "changes_ok now w \<Longrightarrow> changes_ok now (handleChange env now rel w)"
  using edits_covered_change [of w now rel] edits_timed_change [of w now rel]
  by (cases "wt_ready w"; simp add: changes_ok_def handleChange_def scheduleSync_def)
    (simp_all add: record_change_def distinct_keys_set)

lemma flush_changes: "changes_ok now w \<Longrightarrow> wt_timer w = Some due \<Longrightarrow> changes_ok now (flush now w)"
  by (auto simp: changes_ok_def flush_def Let_def intro: edits_timed_begun [of w now])

text \<open>A sync that ends well takes away exactly the entries whose last change it has seen.\<close>

lemma map_of_filter_value:
  "distinct (map_keys m) \<Longrightarrow>
    map_of (filter (\<lambda>(k, v). P v) m) k = (case map_of m k of Some v \<Rightarrow> if P v then Some v else None | None \<Rightarrow> None)"
  by (induction m) (auto split: option.splits simp: map_of_eq_None_iff rev_image_eqI)

definition left_pending :: "watcher \<Rightarrow> (string, nat \<times> nat) jmap" where
  "left_pending w = filter (\<lambda>(f, info). \<not> snd info \<le> wt_syncStarted w) (wt_pending w)"

lemma edits_covered_synced:
  assumes "edits_covered w" and d: "distinct (map_keys (wt_pending w))" and timed: "edits_timed w"
  shows "edits_covered (w\<lparr>wt_pending := left_pending w, wt_synced := Some (wt_syncStarted w, wt_round w)\<rparr>)"
  unfolding edits_covered_def
proof (intro allI impI)
  let ?w = "w\<lparr>wt_pending := left_pending w, wt_synced := Some (wt_syncStarted w, wt_round w)\<rparr>"
  fix f t k
  assume "wt_edits ?w f = Some (t, k)"
  then have e: "wt_edits w f = Some (t, k)"
    by simp
  then have cov: "covered w f t k" and k: "k < wt_round w \<or> k = wt_round w \<and> wt_syncStarted w \<le> t"
    using assms(1) timed unfolding edits_covered_def edits_timed_def by (blast, metis le_neq_implies_less)
  have old: "s \<le> wt_syncStarted w \<and> m \<le> wt_round w" if "wt_synced w = Some (s, m)" for s m
    using timed that by (simp add: edits_timed_def)
  have kept: "map_get (left_pending w) f = Some (a, t)" if "map_get (wt_pending w) f = Some (a, t)" "\<not> t \<le> wt_syncStarted w" for a
    unfolding left_pending_def using map_of_filter_value [OF d, of "\<lambda>info. \<not> snd info \<le> wt_syncStarted w" f] that by simp
  show "covered ?w f t k"
  proof (cases "t \<le> wt_syncStarted w")
    case True
    then show ?thesis
      using k by (auto simp: covered_def)
  next
    case False
    then show ?thesis
      using cov old kept by (auto simp: covered_def dest: order.strict_trans2)
  qed
qed

lemma left_pending_distinct: "distinct (map_keys (wt_pending w)) \<Longrightarrow> distinct (map_keys (left_pending w))"
  by (simp add: left_pending_def distinct_map_filter)

lemma sync_done_changes: "changes_ok now w \<Longrightarrow> changes_ok now (sync_done now outcome w)"
proof (cases "outcome = Sync_done")
  case True
  assume ok: "changes_ok now w"
  let ?w = "w\<lparr>wt_pending := left_pending w, wt_synced := Some (wt_syncStarted w, wt_round w)\<rparr>"
  have d: "distinct (map_keys (wt_pending w))"
    using ok by (simp add: changes_ok_def)
  have "edits_covered ?w"
    by (rule edits_covered_synced) (use ok in \<open>simp_all add: changes_ok_def\<close>)
  moreover have "edits_timed ?w"
    using ok by (simp add: changes_ok_def edits_timed_def)
  moreover have "distinct (map_keys (left_pending w))"
    using d by (rule left_pending_distinct)
  moreover have "left_pending w = []" if "wt_pending w = []"
    using that by (simp add: left_pending_def)
  ultimately show ?thesis
    using ok True by (auto simp: changes_ok_def sync_done_def scheduleSync_def Let_def left_pending_def [symmetric])
next
  case False
  assume "changes_ok now w"
  moreover have "sync_done now outcome w =
      (if wt_pending w \<noteq> [] \<and> \<not> wt_stopped w then scheduleSync now (w\<lparr>wt_syncing := False\<rparr>) else w\<lparr>wt_syncing := False\<rparr>)"
    using False by (cases outcome) (simp_all add: sync_done_def Let_def)
  ultimately show ?thesis
    by (auto simp: changes_ok_def scheduleSync_def)
qed

lemma stop_changes: "changes_ok now w \<Longrightarrow> changes_ok now (stop w)"
  by (auto simp: changes_ok_def stop_def intro: edits_timed_none [of w])

subsection \<open>Directories\<close>

definition same_scope :: "watcher \<Rightarrow> watcher \<Rightarrow> bool" where
  "same_scope w v \<longleftrightarrow> wt_projectRoot v = wt_projectRoot w \<and> wt_ignore v = wt_ignore w \<and> wt_ready v = wt_ready w
     \<and> wt_stopped v = wt_stopped w"

text \<open>A walk adds directories one by one, and changes.\<close>

lemma watch_levels_keeps:
  assumes add: "\<And>v d. Q v \<Longrightarrow> same_scope w v \<Longrightarrow> d \<notin> set (wt_dirs v) \<Longrightarrow> length (wt_dirs v) < maxDirWatches (we_vars env) \<Longrightarrow>
      \<not> shouldIgnoreDir env w d \<Longrightarrow> Q (v\<lparr>wt_dirs := wt_dirs v @ [d]\<rparr>)"
    and cap: "\<And>v. Q v \<Longrightarrow> Q (v\<lparr>wt_capWarned := True\<rparr>)"
    and change: "\<And>v rel. Q v \<Longrightarrow> Q (handleChange env now rel v)"
  shows "Q v \<Longrightarrow> same_scope w v \<Longrightarrow> \<not> shouldIgnoreDir env w dir \<Longrightarrow>
    Q (watch_levels k env now m dir v) \<and> same_scope w (watch_levels k env now m dir v)"
proof (induction k arbitrary: dir v)
  case (Suc k)
  let ?Q = "\<lambda>v. Q v \<and> same_scope w v"
  have scope: "shouldIgnoreDir env v d = shouldIgnoreDir env w d" if "same_scope w v" for v d
    using that by (simp add: shouldIgnoreDir_eq same_scope_def)
  have entry: "?Q (visit_entry (watch_levels k env now m) env now m dir e v)" if "?Q v" for e v
    using that
  proof (rule visit_entry_keeps [where Q = ?Q, rotated 2])
    show "?Q (watch_levels k env now m child u)" if "?Q u" "\<not> shouldIgnoreDir env u child" for child u
      using that Suc.IH [of u child] scope [of u child] by blast
    show "?Q (handleChange env now rel u)" if "?Q u" for rel u
      using that change by (simp add: same_scope_def)
  qed
  show ?case
  proof (cases "dir \<in> set (wt_dirs v) \<or> maxDirWatches (we_vars env) \<le> length (wt_dirs v) \<or> \<not> we_watch env dir")
    case True
    then show ?thesis
      using Suc.prems cap by (auto simp: same_scope_def)
  next
    case False
    have added: "?Q (v\<lparr>wt_dirs := wt_dirs v @ [dir]\<rparr>)"
      using False Suc.prems add by (simp add: same_scope_def)
    have "?Q (fold (visit_entry (watch_levels k env now m) env now m dir) entries (v\<lparr>wt_dirs := wt_dirs v @ [dir]\<rparr>))" for entries
      by (rule fold_keeps [where Q = ?Q]) (use entry added in blast)+
    then show ?thesis
      using False by simp
  qed
qed simp

lemma watchTree_ok:
  assumes "dirs_ok (we_vars env) w" and "changes_ok now w" and "\<not> shouldIgnoreDir env w dir"
  shows "dirs_ok (we_vars env) (watchTree env now m dir w) \<and> changes_ok now (watchTree env now m dir w)
    \<and> same_scope w (watchTree env now m dir w)"
proof -
  let ?Q = "\<lambda>v. dirs_ok (we_vars env) v \<and> changes_ok now v"
  have "?Q (watch_levels k env now m dir w) \<and> same_scope w (watch_levels k env now m dir w)" for k
  proof (rule watch_levels_keeps [where Q = ?Q])
    show "?Q (v\<lparr>wt_dirs := wt_dirs v @ [d]\<rparr>)"
      if "?Q v" "same_scope w v" "d \<notin> set (wt_dirs v)" "length (wt_dirs v) < maxDirWatches (we_vars env)"
        "\<not> shouldIgnoreDir env w d" for v d
      using that by (simp add: dirs_ok_def changes_ok_def same_scope_def shouldIgnoreDir_eq)
    show "?Q (v\<lparr>wt_capWarned := True\<rparr>)" if "?Q v" for v
      using that by (simp add: dirs_ok_def changes_ok_def)
    show "?Q (handleChange env now rel v)" if "?Q v" for v rel
      using that handleChange_changes by (simp add: dirs_ok_def)
  qed (use assms in \<open>simp_all add: same_scope_def\<close>)
  then show ?thesis
    unfolding watchTree_def by blast
qed

subsection \<open>Every step keeps the invariant\<close>

lemma root_not_ignored: "\<not> shouldIgnoreDir env w (wt_projectRoot w)"
proof -
  have "common_segs segs segs = length segs" for segs :: "string list"
    by (induction segs) simp_all
  then have "relative_segs segs segs = []" for segs
    by (simp add: relative_segs_def)
  then show ?thesis
    by (simp add: shouldIgnoreDir_eq ignored_dir_def path_relative_def slash_path_def)
qed

lemma install_ok:
  assumes "install env now w = Some v" and "wt_dirs w = []" and "changes_ok now w"
  shows "dirs_ok (we_vars env) v \<and> changes_ok now v \<and> wt_stopped v = wt_stopped w"
proof -
  have "dirs_ok (we_vars env) w"
    using assms(2) by (simp add: dirs_ok_def)
  from watchTree_ok [OF this assms(3) root_not_ignored]
  have "?thesis" if "v = watchTree env now False (wt_projectRoot w) w"
    using that by (simp add: same_scope_def)
  then show ?thesis
    using assms by (auto simp: install_def dirs_ok_def changes_ok_def split: if_splits)
qed

lemma start_ok:
  assumes "dirs_ok (we_vars env) w" and "changes_ok now w"
  shows "dirs_ok (we_vars env) (snd (start env now w)) \<and> changes_ok now (snd (start env now w))"
proof (cases "wt_recursive w \<or> wt_dirs w \<noteq> [] \<or> wt_inert w")
  case True
  then show ?thesis
    using assms by (simp add: start_def)
next
  case False
  let ?w1 = "w\<lparr>wt_stopped := False\<rparr>"
  let ?w2 = "?w1\<lparr>wt_ignore := Some (we_ignores env)\<rparr>"
  have ok: "changes_ok now ?w1" "changes_ok now ?w2"
    using assms(2) by (simp_all add: changes_ok_def)
  show ?thesis
  proof (cases "install env now ?w2")
    case None
    then show ?thesis
      using False ok stop_changes [OF ok(2)] by (simp add: start_def Let_def dirs_ok_def stop_def)
  next
    case (Some v)
    from install_ok [OF this _ ok(2)] have "dirs_ok (we_vars env) v" "changes_ok now v" "\<not> wt_stopped v"
      using False by simp_all
    then show ?thesis
      using False Some ok by (auto simp: start_def Let_def dirs_ok_def changes_ok_def intro: edits_timed_none [of v])
  qed
qed

lemma handleDirEvent_ok:
  assumes "dirs_ok (we_vars env) w" and "changes_ok now w"
  shows "dirs_ok (we_vars env) (handleDirEvent env now dir filename w) \<and> changes_ok now (handleDirEvent env now dir filename w)"
proof -
  have "dirs_ok (we_vars env) (handleChange env now rel w)" for rel
    using assms(1) by (simp add: dirs_ok_def)
  then show ?thesis
    using assms watchTree_ok [OF assms] handleChange_changes [OF assms(2)]
    by (simp add: handleDirEvent_def Let_def split: option.split)
qed

lemma recursiveEvent_ok:
  assumes "dirs_ok (we_vars env) w" and "changes_ok now w"
  shows "dirs_ok (we_vars env) (recursiveEvent env now filename w) \<and> changes_ok now (recursiveEvent env now filename w)"
  using assms handleChange_changes [OF assms(2)]
  by (simp add: recursiveEvent_def dirs_ok_def split: option.split)

lemma dirs_ok_same: "wt_dirs v = wt_dirs w \<Longrightarrow> wt_projectRoot v = wt_projectRoot w \<Longrightarrow> wt_ignore v = wt_ignore w \<Longrightarrow>
    dirs_ok vars v = dirs_ok vars w"
  by (simp add: dirs_ok_def)

lemma watch_step_inv: "watch_step vars r r' \<Longrightarrow> watch_inv vars r \<Longrightarrow> watch_inv vars r'"
proof (induction rule: watch_step.induct)
  case (time_passes r ms)
  then show ?case
    by (simp add: watch_inv_def changes_ok_def)
next
  case (started env r)
  then show ?case
    using start_ok [of env "wr_watcher r" "wr_now r"] by (simp add: watch_inv_def)
next
  case (stopped r)
  then show ?case
    using stop_changes by (simp add: watch_inv_def) (simp add: stop_def dirs_ok_def)
next
  case (recursive_event env r filename)
  then show ?case
    using recursiveEvent_ok [of env "wr_watcher r" "wr_now r" filename] by (simp add: watch_inv_def)
next
  case (dir_event env dir r filename)
  then show ?case
    using handleDirEvent_ok [of env "wr_watcher r" "wr_now r" dir filename] by (simp add: watch_inv_def)
next
  case (dir_error dir r)
  let ?w = "wr_watcher r"
  have "length (removeAll dir (wt_dirs ?w)) \<le> length (wt_dirs ?w)"
    by (simp add: removeAll_filter_not_eq)
  then have "dirs_ok vars (unwatchDir dir ?w)" if "dirs_ok vars ?w"
    using that order_trans [of "length (removeAll dir (wt_dirs ?w))" "length (wt_dirs ?w)" "maxDirWatches vars"]
    by (simp add: dirs_ok_def unwatchDir_def list_all_iff distinct_removeAll)
  moreover have "changes_ok (wr_now r) (unwatchDir dir ?w)" if "changes_ok (wr_now r) ?w"
    using that by (simp add: changes_ok_def unwatchDir_def)
  ultimately show ?case
    using dir_error by (simp add: watch_inv_def)
next
  case (timer r due)
  then show ?case
    using flush_changes [of "wr_now r" "wr_watcher r" due] dirs_ok_same [of "flush (wr_now r) (wr_watcher r)" "wr_watcher r"]
    by (simp add: watch_inv_def) (simp add: flush_def Let_def)
next
  case (sync_ends r outcome)
  have "dirs_ok vars (sync_done (wr_now r) outcome (wr_watcher r)) = dirs_ok vars (wr_watcher r)"
    by (rule dirs_ok_same) (cases outcome; simp add: sync_done_def scheduleSync_def Let_def)+
  then show ?case
    using sync_ends sync_done_changes by (simp add: watch_inv_def)
qed

interpretation watch: invariant_of new_run "watch_step vars" "watch_inv vars" for vars
proof
  show "watch_inv vars r" if "new_run r" for r
    using that by (auto simp: new_run_def new_watcher_def watch_inv_def dirs_ok_def changes_ok_def edits_timed_def)
  show "watch_inv vars r'" if "watch_inv vars r" "watch_step vars r r'" for r r'
    using that by (blast intro: watch_step_inv)
qed

section \<open>What a watcher promises\<close>

text \<open>
  C18: no change that the watcher took up since it was started is lost: a sync that began after the change has
  succeeded, or the file is reported as pending with the time of that change. The one exception, which the code
  does not handle, is a change in the very millisecond in which a sync that succeeded began. While any file is
  pending a timer is armed or a sync runs, so that it will be synced.
\<close>

theorem watcher_no_lost_edit:
  assumes "reach new_run (watch_step vars) r" and "wr_watcher r = w" and "wt_edits w f = Some (t, k)"
  shows "((\<exists>s m. wt_synced w = Some (s, m) \<and> (k < m \<or> t = s))
      \<or> (\<exists>p \<in> set (getPendingFiles w). pf_path p = f \<and> pf_lastSeenMs p = t))
    \<and> (getPendingFiles w = [] \<or> wt_timer w \<noteq> None \<or> wt_syncing w)"
proof -
  have "changes_ok (wr_now r) w"
    using watch.reach_inv [OF assms(1)] assms(2) by (simp add: watch_inv_def)
  then have "covered w f t k" "wt_pending w = [] \<or> wt_timer w \<noteq> None \<or> wt_syncing w"
    using assms(3) by (simp_all add: changes_ok_def edits_covered_def)
  then show ?thesis
    by (auto simp: covered_def getPendingFiles_def dest!: map_of_SomeD intro: bexI [rotated])
qed

text \<open>
  A watcher never watches more directories than the cap, none twice, and none that is the data
  directory, the git directory or ignored.
\<close>

theorem watcher_dirs_bounded:
  assumes "reach new_run (watch_step vars) r" and "wr_watcher r = w"
  shows "length (wt_dirs w) \<le> maxDirWatches vars \<and> distinct (wt_dirs w)
    \<and> list_all (\<lambda>d. \<not> ignored_dir vars (wt_projectRoot w) (wt_ignore w) d) (wt_dirs w)"
  using watch.reach_inv [OF assms(1)] assms(2) by (simp add: watch_inv_def dirs_ok_def)

section \<open>Examples\<close>

text \<open>A project on a Mac, on which a source file is edited after the start.\<close>

definition mac_env :: watch_env where
  "mac_env = \<lparr>we_platform = ''darwin'', we_vars = (\<lambda>_. None), we_procVersion = None, we_ignores = (\<lambda>_. False),
     we_readdir = (\<lambda>_. None), we_isDir = (\<lambda>_. False), we_watch = (\<lambda>_. True)\<rparr>"

definition fresh_run :: watch_run where
  "fresh_run = \<lparr>wr_now = 5000, wr_watcher = new_watcher ''/p'' None None\<rparr>"

definition started_run :: watch_run where
  "started_run = fresh_run\<lparr>wr_watcher := snd (start mac_env 5000 (wr_watcher fresh_run))\<rparr>"

definition edited_run :: watch_run where
  "edited_run = started_run\<lparr>wr_watcher := recursiveEvent mac_env 5000 (Some ''a.ts'') (wr_watcher started_run)\<rparr>"

lemma source_example: "isSourceFile ''a.ts''" "isPlayRoutesFile ''a.ts'' = False"
  by code_simp+

lemma started_example: "wr_watcher started_run =
    (new_watcher ''/p'' None None)\<lparr>wt_recursive := True, wt_ignore := Some (\<lambda>_. False), wt_ready := True\<rparr>"
  by (simp add: started_run_def fresh_run_def start_def new_watcher_def watchDisabledReason_def mac_env_def detectWsl_def
      install_def supportsRecursiveWatch_def Let_def)

lemma accepted_example: "wt_ignore w = Some (\<lambda>_. False) \<Longrightarrow> accepted mac_env w ''a.ts''"
proof -
  have "\<not> isAlwaysIgnored mac_env ''a.ts''"
    by code_simp
  then show "wt_ignore w = Some (\<lambda>_. False) \<Longrightarrow> ?thesis"
    using source_example by (simp add: accepted_def)
qed

lemma edited_example: "wr_watcher edited_run =
    scheduleSync 5000 (record_change 5000 ''a.ts'' (wr_watcher started_run))"
proof -
  have "slash_path ''a.ts'' = ''a.ts''"
    by code_simp
  moreover have "wt_ignore (wr_watcher started_run) = Some (\<lambda>_. False)" "\<not> wt_stopped (wr_watcher started_run)"
    by (simp_all add: started_example new_watcher_def)
  ultimately show ?thesis
    using accepted_example by (simp add: edited_run_def recursiveEvent_def handleChange_def)
qed

lemma edited_run_reached: "reach new_run (watch_step (\<lambda>_. None)) edited_run"
proof -
  have vars: "we_vars mac_env = (\<lambda>_. None)"
    by (simp add: mac_env_def)
  have now: "wr_now fresh_run = 5000" "wr_now started_run = 5000"
    by (simp_all add: fresh_run_def started_run_def)
  have "new_run fresh_run"
    by (auto simp: new_run_def fresh_run_def)
  then have "reach new_run (watch_step (\<lambda>_. None)) fresh_run"
    by (rule reach_start)
  moreover have "watch_step (\<lambda>_. None) fresh_run started_run"
    using started [OF vars, of fresh_run] by (simp add: started_run_def now)
  ultimately have "reach new_run (watch_step (\<lambda>_. None)) started_run"
    by (rule reach_step)
  moreover have "wt_recursive (wr_watcher started_run)"
    by (simp add: started_example)
  then have "watch_step (\<lambda>_. None) started_run edited_run"
    using recursive_event [OF vars, of started_run "Some ''a.ts''"] by (simp add: edited_run_def now)
  ultimately show ?thesis
    by (rule reach_step)
qed

lemma edited_fields: "wt_edits (wr_watcher edited_run) ''a.ts'' = Some (5000, 0)"
  by (simp add: edited_example scheduleSync_def record_change_def started_example new_watcher_def)

theorem watcher_no_lost_edit_witness:
  "((\<exists>s m. wt_synced (wr_watcher edited_run) = Some (s, m) \<and> (0 < m \<or> 5000 = s))
      \<or> (\<exists>p \<in> set (getPendingFiles (wr_watcher edited_run)). pf_path p = ''a.ts'' \<and> pf_lastSeenMs p = 5000))
    \<and> (getPendingFiles (wr_watcher edited_run) = [] \<or> wt_timer (wr_watcher edited_run) \<noteq> None
      \<or> wt_syncing (wr_watcher edited_run))"
  by (rule watcher_no_lost_edit [OF edited_run_reached refl edited_fields])

theorem watcher_dirs_bounded_witness:
  "length (wt_dirs (wr_watcher edited_run)) \<le> maxDirWatches (\<lambda>_. None) \<and> distinct (wt_dirs (wr_watcher edited_run))
    \<and> list_all (\<lambda>d. \<not> ignored_dir (\<lambda>_. None) (wt_projectRoot (wr_watcher edited_run)) (wt_ignore (wr_watcher edited_run)) d)
        (wt_dirs (wr_watcher edited_run))"
  by (rule watcher_dirs_bounded [OF edited_run_reached refl])

lemma accepted_same: "wt_ignore v = wt_ignore w \<Longrightarrow> accepted env v rel = accepted env w rel"
  by (simp add: accepted_def)

text \<open>An edit in the millisecond in which a sync begins, after it has begun, is forgotten when the sync ends.\<close>

lemma same_millisecond_forgotten:
  assumes "accepted env w f" and "wt_ready w" and "\<not> wt_stopped w" and "\<not> wt_syncing w" and "wt_pending w = []"
    and "mid = handleChange env now f (flush now w)"
  shows "map_get (wt_pending mid) f = Some (now, now) \<and> getPendingFiles (sync_done later Sync_done mid) = []"
proof -
  have "accepted env (w\<lparr>wt_timer := None, wt_syncStarted := now, wt_syncing := True, wt_round := wt_round w + 1\<rparr>) f"
    using assms(1) by (subst accepted_same [of _ w]) simp_all
  then show ?thesis
    using assms(2-)
    by (simp add: handleChange_def flush_def scheduleSync_def record_change_def sync_done_def getPendingFiles_def Let_def)
qed

text \<open>Without a recursive watch, \<open>start\<close> reports success although no watch could be installed.\<close>

lemma start_without_watch:
  assumes "\<not> supportsRecursiveWatch env" and "\<not> we_watch env (wt_projectRoot w)" and "\<not> wt_recursive w" and "wt_dirs w = []"
    and "\<not> wt_inert w" and "\<not> wt_inertForTests w" and "watchDisabledReason (wt_projectRoot w) env = None"
    and "0 < maxDirWatches (we_vars env)"
  shows "fst (start env now w) \<and> \<not> isActive (snd (start env now w))"
  using assms by (simp add: start_def install_def watchTree_eq isActive_def Let_def)

end
