(* ===== verification/SafePaths.thy ===== *)
theory SafePaths
  imports Paths NameMatcher
begin

text \<open>
  The path checks of \<open>utils.ts\<close>. The file system is two functions: \<open>realpath\<close>, which fails with
  \<open>ENOENT\<close> or with another error, and the type of a path. Paths are POSIX paths and roots are absolute;
  the platform only decides whether letter case matters.
\<close>

section \<open>Containment\<close>

datatype fs_error = ENOENT | Other_error

definition isWithinDir :: "string \<Rightarrow> string \<Rightarrow> string \<Rightarrow> bool" where
  "isWithinDir platform child parent =
     (let c = (if platform = ''win32'' then to_lower child else child);
          p = (if platform = ''win32'' then to_lower parent else parent)
      in c = p \<or> starts_with c (p @ ''/''))"

definition validatePathWithinRoot :: "string \<Rightarrow> (string \<Rightarrow> fs_error + string) \<Rightarrow> string \<Rightarrow> string \<Rightarrow> string option" where
  "validatePathWithinRoot platform realpath projectRoot filePath =
     (let resolved = path_resolve projectRoot filePath;
          normalizedRoot = abs_path (abs_segs projectRoot)
      in if \<not> isWithinDir platform resolved normalizedRoot then None
         else (case realpath normalizedRoot of
             Inl e \<Rightarrow> if e = ENOENT then Some resolved else None
           | Inr realRoot \<Rightarrow>
               (case realpath resolved of
                  Inl e \<Rightarrow> if e = ENOENT then Some resolved else None
                | Inr realResolved \<Rightarrow> if isWithinDir platform realResolved realRoot then Some realResolved else None)))"

section \<open>Project roots\<close>

definition SENSITIVE_PATHS :: "string list" where
  "SENSITIVE_PATHS =
     [''/'', ''/etc'', ''/usr'', ''/bin'', ''/sbin'', ''/var'', ''/tmp'', ''/dev'', ''/proc'', ''/sys'', ''/root'',
      ''/boot'', ''/lib'', ''/lib64'', ''/opt'', ''c:'' @ [CHR 0x5C], ''c:'' @ [CHR 0x5C] @ ''windows'',
      ''c:'' @ [CHR 0x5C] @ ''windows'' @ [CHR 0x5C] @ ''system32'']"

text \<open>The type of a path: \<open>None\<close> when it cannot be read, otherwise whether it is a directory.\<close>

definition validateProjectPath :: "string \<Rightarrow> (string \<Rightarrow> bool option) \<Rightarrow> string \<Rightarrow> string option" where
  "validateProjectPath homeDir isDirectory dirPath =
     (let resolved = abs_path (abs_segs dirPath) in
      if resolved \<in> set SENSITIVE_PATHS \<or> to_lower resolved \<in> set SENSITIVE_PATHS
      then Some (''Refusing to operate on sensitive system directory: '' @ resolved)
      else if list_ex (\<lambda>dir. let sensitivePath = path_join [homeDir, dir] in
               resolved = sensitivePath \<or> starts_with resolved (sensitivePath @ ''/''))
             [''.ssh'', ''.gnupg'', ''.aws'', ''.config'']
      then Some (''Refusing to operate on sensitive directory: '' @ resolved)
      else (case isDirectory resolved of
          None \<Rightarrow> Some (''Path does not exist or is not accessible: '' @ resolved)
        | Some dir \<Rightarrow> if dir then None else Some (''Path is not a directory: '' @ resolved)))"

definition isConfigLeafNode :: "node_kind \<Rightarrow> language option \<Rightarrow> bool" where
  "isConfigLeafNode kind lang \<longleftrightarrow> kind = NK_constant \<and> (lang = Some L_yaml \<or> lang = Some L_properties)"

definition clamp :: "int \<Rightarrow> int \<Rightarrow> int \<Rightarrow> int" where
  "clamp v lo hi = max lo (min hi v)"

lemma clamp_bounds: "lo \<le> hi \<Longrightarrow> lo \<le> clamp v lo hi \<and> clamp v lo hi \<le> hi"
  by (simp add: clamp_def)

lemma clamp_inside: "lo \<le> v \<Longrightarrow> v \<le> hi \<Longrightarrow> clamp v lo hi = v"
  by (simp add: clamp_def)

section \<open>What the checks guarantee\<close>

text \<open>On absolute normal paths, being within a directory is to extend its segments.\<close>

lemma join_segments_prefix:
  assumes "list_all plain_seg xs" and "list_all plain_seg ys" and "ys \<noteq> []"
    and "join_with ''/'' xs = join_with ''/'' ys @ CHR ''/'' # r"
  shows "prefix ys xs"
proof -
  have "segments (join_with ''/'' ys @ CHR ''/'' # r) = ys @ segments r"
    using assms(2,3)
  proof (induction ys)
    case (Cons y ys)
    then show ?case
      by (cases ys) (simp_all add: split_by_append plain_seg_def)
  qed simp
  moreover have "xs \<noteq> []"
    using assms(4) by (cases xs) auto
  then have "segments (join_with ''/'' xs) = xs"
    using assms(1) segments_join plain_no_slash by blast
  ultimately show ?thesis
    using assms(4) by (metis prefixI)
qed

lemma join_inj:
  assumes "list_all plain_seg xs" and "list_all plain_seg ys" and "join_with ''/'' xs = join_with ''/'' ys"
  shows "xs = ys"
proof (cases "xs = [] \<or> ys = []")
  case True
  have "join_with ''/'' zs \<noteq> []" if "list_all plain_seg zs" "zs \<noteq> []" for zs :: "string list"
    using that by (cases zs rule: list.exhaust; cases "tl zs") (auto simp: plain_seg_def)
  then show ?thesis
    using True assms by (metis join_with.simps(1))
next
  case False
  then show ?thesis
    using assms segments_join plain_no_slash by metis
qed

lemma within_segments:
  assumes "list_all plain_seg xs" and "list_all plain_seg ys" and "ys \<noteq> []" and "platform \<noteq> ''win32''"
  shows "isWithinDir platform (abs_path xs) (abs_path ys) = prefix ys xs"
proof
  assume "isWithinDir platform (abs_path xs) (abs_path ys)"
  then consider "join_with ''/'' xs = join_with ''/'' ys"
    | r where "join_with ''/'' xs = join_with ''/'' ys @ CHR ''/'' # r"
    using assms(4) by (auto simp: isWithinDir_def abs_path_def prefix_def)
  then show "prefix ys xs"
    using assms join_inj join_segments_prefix by cases blast+
next
  assume "prefix ys xs"
  then obtain zs where zs: "xs = ys @ zs"
    by (auto simp: prefix_def)
  have "join_with ''/'' (ys @ z # zs) = join_with ''/'' ys @ ''/'' @ join_with ''/'' (z # zs)" if "ys \<noteq> []" for ys z and zs :: "string list"
    using that
  proof (induction ys)
    case (Cons a ys)
    then show ?case
      by (cases ys) simp_all
  qed simp
  then show "isWithinDir platform (abs_path xs) (abs_path ys)"
    using assms zs by (cases zs) (auto simp: isWithinDir_def abs_path_def)
qed

lemma abs_segs_root: "path_resolve projectRoot filePath = abs_path (abs_segs (path_resolve projectRoot filePath))"
  by (simp only: abs_segs_resolve) (simp add: path_resolve_def)

text \<open>
  C24: a path is accepted only if its segments, with every \<open>..\<close> resolved, extend those of the project root, so
  that no text of the path leads out of the root; and when both the root and the path exist, only if the
  real path is within the real root, and the real path is what is returned.
\<close>

theorem validatePath_confined:
  assumes "platform \<noteq> ''win32''" and "abs_segs projectRoot \<noteq> []"
    and "validatePathWithinRoot platform realpath projectRoot filePath = Some p"
  shows "prefix (abs_segs projectRoot) (abs_segs (path_resolve projectRoot filePath))
    \<and> (case (realpath (abs_path (abs_segs projectRoot)), realpath (path_resolve projectRoot filePath)) of
         (Inr realRoot, Inr realResolved) \<Rightarrow> p = realResolved \<and> isWithinDir platform p realRoot
       | _ \<Rightarrow> p = path_resolve projectRoot filePath)"
proof -
  let ?r = "path_resolve projectRoot filePath"
  have "isWithinDir platform ?r (abs_path (abs_segs projectRoot))"
    using assms(3) by (simp add: validatePathWithinRoot_def Let_def split: if_splits)
  then have "isWithinDir platform (abs_path (abs_segs ?r)) (abs_path (abs_segs projectRoot))"
    using abs_segs_root by simp
  then have "prefix (abs_segs projectRoot) (abs_segs ?r)"
    using within_segments [OF abs_segs_plain abs_segs_plain assms(2,1)] by blast
  then show ?thesis
    using assms(3) by (auto simp: validatePathWithinRoot_def Let_def split: if_splits sum.splits)
qed

text \<open>The walk through \<open>..\<close> of a hostile path is refused, one inside the root is not.\<close>

theorem validatePath_confined_witness:
  "prefix (abs_segs ''/p'') (abs_segs (path_resolve ''/p'' ''a/../b.ts''))
    \<and> (case (Inr ''/p'' :: fs_error + string, Inr ''/p/b.ts'' :: fs_error + string) of
         (Inr realRoot, Inr realResolved) \<Rightarrow> ''/p/b.ts'' = realResolved \<and> isWithinDir ''linux'' ''/p/b.ts'' realRoot
       | _ \<Rightarrow> ''/p/b.ts'' = path_resolve ''/p'' ''a/../b.ts'')"
proof -
  have "abs_segs ''/p'' = [''p'']"
    by code_simp
  moreover have "abs_path [''p''] = ''/p''" "path_resolve ''/p'' ''a/../b.ts'' = ''/p/b.ts''"
    by code_simp+
  moreover have "isWithinDir ''linux'' ''/p/b.ts'' ''/p''"
    by code_simp
  ultimately show ?thesis
    using validatePath_confined [of "''linux''" "''/p''" "\<lambda>p. Inr p" "''a/../b.ts''" "''/p/b.ts''"]
    by (simp add: validatePathWithinRoot_def Let_def)
qed

text \<open>
  A file that does not exist is accepted although a link on its way leads out of the root: only the whole
  path is passed to \<open>realpath\<close>, which fails.
\<close>

lemma missing_file_escapes:
  assumes "realpath ''/p'' = Inr ''/p''" and "realpath ''/p/link'' = Inr ''/etc''" and "realpath ''/p/link/new'' = Inl ENOENT"
  shows "validatePathWithinRoot ''linux'' realpath ''/p'' ''link/new'' = Some ''/p/link/new''
    \<and> validatePathWithinRoot ''linux'' realpath ''/p'' ''link'' = None"
proof -
  have "abs_path (abs_segs ''/p'') = ''/p''" "path_resolve ''/p'' ''link/new'' = ''/p/link/new''"
    "path_resolve ''/p'' ''link'' = ''/p/link''"
    by code_simp+
  then show ?thesis
    using assms by (simp add: validatePathWithinRoot_def isWithinDir_def)
qed

end
