(* ===== verification/FileScan.thy ===== *)
theory FileScan
  imports SafePaths Watcher
begin

text \<open>
  Which files of a project are looked at: the scans of \<open>extraction/index.ts\<close>, by git or by a walk of the
  file system. What the scans ask the system is the record \<open>scan_env\<close>: the output of a git command (or
  its failure), the file system, and the matcher of the package \<open>ignore\<close>, which takes the patterns that
  were added and a path and may throw. A matcher is the list of the texts added to it. Progress reports
  and logging are left out.
\<close>

section \<open>The system\<close>

datatype scan_kind = Scan_dir | Scan_file | Scan_symlink | Scan_other

record scan_env =
  sc_vars :: "string \<Rightarrow> string option"
  sc_git :: "string list \<Rightarrow> string \<Rightarrow> string option"
  sc_ignores :: "string list \<Rightarrow> string \<Rightarrow> bool option"
  sc_exists :: "string \<Rightarrow> bool"
  sc_readFile :: "string \<Rightarrow> string option"
  sc_realpath :: "string \<Rightarrow> string option"
  sc_readdir :: "string \<Rightarrow> (string \<times> scan_kind) list option"
  sc_stat :: "string \<Rightarrow> scan_kind option"
  sc_repoDepth :: nat
  sc_dirCount :: nat

section \<open>Ignore rules\<close>

definition DEFAULT_IGNORE_DIRS :: "string list" where
  "DEFAULT_IGNORE_DIRS =
     [''node_modules'', ''bower_components'', ''jspm_packages'', ''web_modules'', ''.yarn'', ''.pnpm-store'',
      ''.next'', ''.nuxt'', ''.svelte-kit'', ''.turbo'', ''.vite'', ''.parcel-cache'', ''.angular'', ''.docusaurus'',
      ''storybook-static'', ''.vinxi'', ''.nitro'', ''out-tsc'', ''.vercel'', ''.netlify'', ''.wrangler'',
      ''dist'', ''build'', ''out'', ''.output'', ''coverage'', ''.nyc_output'',
      ''__pycache__'', ''__pypackages__'', ''.venv'', ''venv'', ''.pixi'', ''.pdm-build'', ''.mypy_cache'',
      ''.pytest_cache'', ''.ruff_cache'', ''.tox'', ''.nox'', ''.hypothesis'', ''.ipynb_checkpoints'', ''.eggs'',
      ''target'', ''.gradle'', ''obj'', ''vendor'', ''.build'', ''Pods'', ''Carthage'', ''DerivedData'', ''.swiftpm'',
      ''.dart_tool'', ''.pub-cache'', ''.cxx'', ''.externalNativeBuild'', ''vcpkg_installed'', ''.bloop'', ''.metals'',
      ''lua_modules'', ''.luarocks'', ''__history'', ''__recovery'', ''.cache'']"

definition DEFAULT_IGNORE_PATTERNS :: "string list" where
  "DEFAULT_IGNORE_PATTERNS =
     map (\<lambda>d. d @ ''/'') DEFAULT_IGNORE_DIRS @ [''*.egg-info/'', ''cmake-build-*/'', ''bazel-*/'']"

text \<open>The bytes of a text that decodes as strict UTF-8.\<close>

definition in_bytes :: "nat \<Rightarrow> nat \<Rightarrow> char \<Rightarrow> bool" where
  "in_bytes lo hi c \<longleftrightarrow> lo \<le> char_code c \<and> char_code c \<le> hi"

text \<open>The ranges that the bytes behind a first byte must have.\<close>

definition utf8_tail :: "char \<Rightarrow> (nat \<times> nat) list option" where
  "utf8_tail c =
     (let b = char_code c in
      if b < 0x80 then Some []
      else if 0xC2 \<le> b \<and> b \<le> 0xDF then Some [(0x80, 0xBF)]
      else if b = 0xE0 then Some [(0xA0, 0xBF), (0x80, 0xBF)]
      else if b = 0xED then Some [(0x80, 0x9F), (0x80, 0xBF)]
      else if 0xE1 \<le> b \<and> b \<le> 0xEF then Some [(0x80, 0xBF), (0x80, 0xBF)]
      else if b = 0xF0 then Some [(0x90, 0xBF), (0x80, 0xBF), (0x80, 0xBF)]
      else if 0xF1 \<le> b \<and> b \<le> 0xF3 then Some [(0x80, 0xBF), (0x80, 0xBF), (0x80, 0xBF)]
      else if b = 0xF4 then Some [(0x80, 0x8F), (0x80, 0xBF), (0x80, 0xBF)]
      else None)"

fun utf8_run :: "(nat \<times> nat) list \<Rightarrow> string \<Rightarrow> bool" where
  "utf8_run [] [] = True"
| "utf8_run (_ # _) [] = False"
| "utf8_run [] (c # cs) = (case utf8_tail c of Some rs \<Rightarrow> utf8_run rs cs | None \<Rightarrow> False)"
| "utf8_run (r # rs) (c # cs) = (in_bytes (fst r) (snd r) c \<and> utf8_run rs cs)"

definition isValidUtf8 :: "string \<Rightarrow> bool" where
  "isValidUtf8 buf = utf8_run [] buf"

fun crlf_lines :: "string \<Rightarrow> string list" where
  "crlf_lines [] = [[]]"
| "crlf_lines (c # cs) =
     (if c = CHR 0x0A then [] # crlf_lines cs
      else if c = CHR 0x0D \<and> cs \<noteq> [] \<and> hd cs = CHR 0x0A then crlf_lines cs
      else (case crlf_lines cs of l # ls \<Rightarrow> (c # l) # ls | [] \<Rightarrow> [[c]]))"

definition readGitignorePatterns :: "scan_env \<Rightarrow> string \<Rightarrow> string" where
  "readGitignorePatterns env giPath =
     (case sc_readFile env giPath of
        None \<Rightarrow> ''''
      | Some content \<Rightarrow>
          if CHR 0x00 \<in> set content \<or> \<not> isValidUtf8 content then ''''
          else if sc_ignores env [content] ''.codegraph-probe'' \<noteq> None then content
          else join_with [newline] (filter (\<lambda>line. sc_ignores env [line] ''.codegraph-probe'' \<noteq> None) (crlf_lines content)))"

definition buildDefaultIgnore :: "scan_env \<Rightarrow> string \<Rightarrow> string list" where
  "buildDefaultIgnore env rootDir =
     (let rootGitignore = path_join [rootDir, ''.gitignore''] in
      DEFAULT_IGNORE_PATTERNS @ (if sc_exists env rootGitignore then [readGitignorePatterns env rootGitignore] else []))"

section \<open>Files that git knows\<close>

datatype git_stop = Git_failed | Too_deep

definition git_entries :: "string \<Rightarrow> string list" where
  "git_entries out = filter (\<lambda>rel. rel \<noteq> '''') (split_by (\<lambda>c. c = CHR 0x00) out)"

text \<open>
  An untracked entry of \<open>git ls-files\<close>; the first argument is the recursive call for an embedded
  repository.
\<close>

definition git_entry :: "(string \<Rightarrow> string \<Rightarrow> string list \<Rightarrow> git_stop + string list) \<Rightarrow> scan_env \<Rightarrow> string \<Rightarrow> string
    \<Rightarrow> string \<Rightarrow> git_stop + string list \<Rightarrow> git_stop + string list" where
  "git_entry collect env repoDir pre rel acc =
     (case acc of
        Inl why \<Rightarrow> Inl why
      | Inr files \<Rightarrow>
          if ends_with rel ''/'' then
            (let childDir = path_join [repoDir, rel] in
             if sc_exists env (path_join [childDir, ''.git'']) then collect childDir (pre @ rel) files else Inr files)
          else Inr (set_add (slash_path (pre @ rel)) files))"

text \<open>The first argument bounds the depth to which repositories are embedded in each other.\<close>

primrec collectGitFiles :: "nat \<Rightarrow> scan_env \<Rightarrow> string \<Rightarrow> string \<Rightarrow> string list \<Rightarrow> git_stop + string list" where
  "collectGitFiles 0 env repoDir pre files = Inl Too_deep"
| "collectGitFiles (Suc k) env repoDir pre files =
     (case sc_git env [''ls-files'', ''-z'', ''-c'', ''--recurse-submodules''] repoDir of
        None \<Rightarrow> Inl Git_failed
      | Some tracked \<Rightarrow>
          (let files1 = fold (\<lambda>rel. set_add (slash_path (pre @ rel))) (git_entries tracked) files in
           case sc_git env [''ls-files'', ''-z'', ''-o'', ''--exclude-standard''] repoDir of
             None \<Rightarrow> Inl Git_failed
           | Some untracked \<Rightarrow>
               fold (git_entry (collectGitFiles k env) env repoDir pre) (git_entries untracked) (Inr files1)))"

definition getGitVisibleFiles :: "scan_env \<Rightarrow> string \<Rightarrow> string list option" where
  "getGitVisibleFiles env rootDir =
     (case sc_git env [''rev-parse'', ''--show-toplevel''] rootDir of
        None \<Rightarrow> None
      | Some out \<Rightarrow>
          (let absRoot = abs_path (abs_segs rootDir) in
           if abs_path (abs_segs (trim out)) \<noteq> absRoot \<and> sc_git env [''check-ignore'', ''-q'', absRoot] rootDir \<noteq> None
           then None
           else (case collectGitFiles (Suc (sc_repoDepth env)) env rootDir '''' [] of
               Inl _ \<Rightarrow> None
             | Inr files \<Rightarrow>
                 (let ig = buildDefaultIgnore env rootDir in
                  if list_all (\<lambda>f. sc_ignores env ig f \<noteq> None) files
                  then Some (filter (\<lambda>f. sc_ignores env ig f = Some False) files) else None))))"

record git_changes =
  gc_modified :: "string list"
  gc_added :: "string list"
  gc_deleted :: "string list"

definition status_line :: "string \<Rightarrow> git_changes \<Rightarrow> git_changes" where
  "status_line line ch =
     (if length line < 4 then ch
      else (let statusCode = take 2 line; filePath = slash_path (drop 3 line) in
        if \<not> isSourceFile filePath then ch
        else if statusCode = ''??'' then ch\<lparr>gc_added := gc_added ch @ [filePath]\<rparr>
        else if str_includes statusCode ''D'' then ch\<lparr>gc_deleted := gc_deleted ch @ [filePath]\<rparr>
        else ch\<lparr>gc_modified := gc_modified ch @ [filePath]\<rparr>))"

definition getGitChangedFiles :: "scan_env \<Rightarrow> string \<Rightarrow> git_changes option" where
  "getGitChangedFiles env rootDir =
     map_option (\<lambda>out. fold status_line (split_by (\<lambda>c. c = newline) out) \<lparr>gc_modified = [], gc_added = [], gc_deleted = []\<rparr>)
       (sc_git env [''status'', ''--porcelain'', ''--no-renames''] rootDir)"

section \<open>The walk of the file system\<close>

record walk_state =
  ws_files :: "string list"
  ws_visited :: "string list"

definition loadIgnore :: "scan_env \<Rightarrow> string \<Rightarrow> (string \<times> string list) option" where
  "loadIgnore env dir =
     (let giPath = path_join [dir, ''.gitignore''] in
      if \<not> sc_exists env giPath then None
      else (let patterns = readGitignorePatterns env giPath in if patterns \<noteq> '''' then Some (dir, [patterns]) else None))"

text \<open>\<open>None\<close> when a matcher throws.\<close>

fun isIgnored :: "scan_env \<Rightarrow> string \<Rightarrow> bool \<Rightarrow> (string \<times> string list) list \<Rightarrow> bool option" where
  "isIgnored env fullPath isDir [] = Some False"
| "isIgnored env fullPath isDir ((dir, ig) # matchers) =
     (let rel = slash_path (path_relative dir fullPath) in
      if rel = '''' \<or> starts_with rel ''..'' then isIgnored env fullPath isDir matchers
      else (case sc_ignores env ig (if isDir then rel @ ''/'' else rel) of
          None \<Rightarrow> None
        | Some b \<Rightarrow> if b then Some True else isIgnored env fullPath isDir matchers))"

definition push_file :: "string \<Rightarrow> walk_state \<Rightarrow> walk_state" where
  "push_file relativePath st =
     (if isSourceFile relativePath then st\<lparr>ws_files := ws_files st @ [relativePath]\<rparr> else st)"

text \<open>
  One entry of a directory; the first argument is the recursive call. The Boolean of a result says that no
  exception has been thrown: the entry of a symbolic link catches it, with the files found so far.
\<close>

definition scan_entry :: "(string \<Rightarrow> walk_state \<Rightarrow> bool \<times> walk_state) \<Rightarrow> scan_env \<Rightarrow> string \<Rightarrow> string
    \<Rightarrow> (string \<times> string list) list \<Rightarrow> string \<times> scan_kind \<Rightarrow> bool \<times> walk_state \<Rightarrow> bool \<times> walk_state" where
  "scan_entry walk env rootDir dir active entry acc =
     (case acc of (ok, st) \<Rightarrow>
        if \<not> ok then acc
        else if fst entry = ''.git'' \<or> isCodeGraphDataDir (sc_vars env) (fst entry) then acc
        else (let fullPath = path_join [dir, fst entry];
                  relativePath = slash_path (path_relative rootDir fullPath) in
          case snd entry of
            Scan_symlink \<Rightarrow>
              (case sc_realpath env fullPath of
                 None \<Rightarrow> (True, st)
               | Some realTarget \<Rightarrow>
                   (case sc_stat env realTarget of
                      Some Scan_dir \<Rightarrow>
                        if isIgnored env fullPath True active = Some False then (True, snd (walk fullPath st)) else (True, st)
                    | Some Scan_file \<Rightarrow>
                        if isIgnored env fullPath False active = Some False then (True, push_file relativePath st) else (True, st)
                    | _ \<Rightarrow> (True, st)))
          | Scan_dir \<Rightarrow>
              (case isIgnored env fullPath True active of
                 None \<Rightarrow> (False, st)
               | Some b \<Rightarrow> if b then (True, st) else walk fullPath st)
          | Scan_file \<Rightarrow>
              (case isIgnored env fullPath False active of
                 None \<Rightarrow> (False, st)
               | Some b \<Rightarrow> if b then (True, st) else (True, push_file relativePath st))
          | Scan_other \<Rightarrow> (True, st)))"

text \<open>The own \<open>.gitignore\<close> of a directory applies below it; that of the root is part of the base matcher.\<close>

definition active_matchers :: "scan_env \<Rightarrow> string \<Rightarrow> (string \<times> string list) list \<Rightarrow> string \<Rightarrow> (string \<times> string list) list" where
  "active_matchers env rootDir matchers dir =
     (if dir = rootDir then matchers
      else (case loadIgnore env dir of Some own \<Rightarrow> matchers @ [own] | None \<Rightarrow> matchers))"

text \<open>The body of \<open>walk\<close>; the first argument is the recursive call.\<close>

definition walk_body :: "((string \<times> string list) list \<Rightarrow> string \<Rightarrow> walk_state \<Rightarrow> bool \<times> walk_state) \<Rightarrow> scan_env \<Rightarrow> string
    \<Rightarrow> (string \<times> string list) list \<Rightarrow> string \<Rightarrow> walk_state \<Rightarrow> bool \<times> walk_state" where
  "walk_body walk env rootDir matchers dir st =
     (case sc_realpath env dir of
        None \<Rightarrow> (True, st)
      | Some realDir \<Rightarrow>
          if realDir \<in> set (ws_visited st) then (True, st)
          else (let st1 = st\<lparr>ws_visited := ws_visited st @ [realDir]\<rparr>;
                    active = active_matchers env rootDir matchers dir in
            case sc_readdir env dir of
              None \<Rightarrow> (True, st1)
            | Some entries \<Rightarrow> fold (scan_entry (walk active) env rootDir dir active) entries (True, st1)))"

text \<open>
  The walk. Every level of the recursion has visited another real directory, so the first argument, which
  counts the levels down, suffices when it exceeds their number.
\<close>

primrec walk_levels :: "nat \<Rightarrow> scan_env \<Rightarrow> string \<Rightarrow> (string \<times> string list) list \<Rightarrow> string \<Rightarrow> walk_state \<Rightarrow> bool \<times> walk_state" where
  "walk_levels 0 env rootDir matchers dir st = (True, st)"
| "walk_levels (Suc k) env rootDir matchers dir st = walk_body (walk_levels k env rootDir) env rootDir matchers dir st"

definition walk_dir :: "scan_env \<Rightarrow> string \<Rightarrow> (string \<times> string list) list \<Rightarrow> string \<Rightarrow> walk_state \<Rightarrow> bool \<times> walk_state" where
  "walk_dir env = walk_levels (Suc (sc_dirCount env)) env"

text \<open>\<open>None\<close> when the walk ends with an exception.\<close>

definition scanDirectoryWalk :: "scan_env \<Rightarrow> string \<Rightarrow> string list option" where
  "scanDirectoryWalk env rootDir =
     (case walk_dir env rootDir [(rootDir, buildDefaultIgnore env rootDir)] rootDir \<lparr>ws_files = [], ws_visited = []\<rparr> of
        (ok, st) \<Rightarrow> if ok then Some (ws_files st) else None)"

definition scanDirectory :: "scan_env \<Rightarrow> string \<Rightarrow> string list option" where
  "scanDirectory env rootDir =
     (case getGitVisibleFiles env rootDir of
        Some gitFiles \<Rightarrow> Some (filter isSourceFile gitFiles)
      | None \<Rightarrow> scanDirectoryWalk env rootDir)"

section \<open>The recursion of the walk\<close>

lemma scan_entry_cong:
  assumes "walk (path_join [dir, fst entry]) st = walk' (path_join [dir, fst entry]) st"
  shows "scan_entry walk env rootDir dir active entry (ok, st) = scan_entry walk' env rootDir dir active entry (ok, st)"
  using assms by (simp add: scan_entry_def Let_def split: scan_kind.split option.split)

lemma scan_entry_keeps:
  assumes "\<And>child st. Q st \<Longrightarrow> Q (snd (walk child st))"
    and "\<And>full st. isIgnored env full False active = Some False \<Longrightarrow> Q st \<Longrightarrow>
      Q (push_file (slash_path (path_relative rootDir full)) st)"
    and "Q (snd acc)"
  shows "Q (snd (scan_entry walk env rootDir dir active entry acc))"
  using assms by (cases acc) (auto simp: scan_entry_def Let_def split: scan_kind.split option.split)

lemma scan_entries_keep:
  assumes "\<And>child st. Q st \<Longrightarrow> Q (snd (walk child st))"
    and "\<And>full st. isIgnored env full False active = Some False \<Longrightarrow> Q st \<Longrightarrow>
      Q (push_file (slash_path (path_relative rootDir full)) st)"
    and "Q (snd acc)"
  shows "Q (snd (fold (scan_entry walk env rootDir dir active) entries acc))"
  using assms(3)
proof (induction entries arbitrary: acc)
  case (Cons e entries)
  then show ?case
    using scan_entry_keeps [of Q walk env active rootDir acc] assms(1,2) by simp
qed simp

lemma push_file_visited [simp]: "ws_visited (push_file rel st) = ws_visited st"
  by (simp add: push_file_def)

text \<open>What the entry of a directory, the entries and the files found keep, the walk keeps.\<close>

lemma walk_body_keeps:
  assumes "\<And>child st. Q st \<Longrightarrow> Q (snd (walk (active_matchers env rootDir matchers dir) child st))"
    and "\<And>full st. isIgnored env full False (active_matchers env rootDir matchers dir) = Some False \<Longrightarrow> Q st \<Longrightarrow>
      Q (push_file (slash_path (path_relative rootDir full)) st)"
    and "\<And>rd. Q (st\<lparr>ws_visited := ws_visited st @ [rd]\<rparr>)" and "Q st"
  shows "Q (snd (walk_body walk env rootDir matchers dir st))"
proof -
  let ?active = "active_matchers env rootDir matchers dir"
  have "Q (snd (fold (scan_entry (walk ?active) env rootDir dir ?active) entries (True, st\<lparr>ws_visited := ws_visited st @ [rd]\<rparr>)))"
    for entries rd
    by (rule scan_entries_keep) (simp_all add: assms)
  then show ?thesis
    using assms(3,4) by (simp add: walk_body_def Let_def split: option.split)
qed

lemma walk_grows: "V \<subseteq> set (ws_visited st) \<Longrightarrow> V \<subseteq> set (ws_visited (snd (walk_levels k env rootDir matchers dir st)))"
proof (induction k arbitrary: matchers dir st)
  case (Suc k)
  have "V \<subseteq> set (ws_visited (snd (walk_body (walk_levels k env rootDir) env rootDir matchers dir st)))"
    by (rule walk_body_keeps) (use Suc in auto)
  then show ?case
    by simp
qed simp

text \<open>The number of levels does not matter once it exceeds the number of directories not yet visited.\<close>

lemma walk_levels_enough:
  assumes real: "\<And>p rd. sc_realpath env p = Some rd \<Longrightarrow> rd \<in> D" and "finite D"
  shows "card (D - set (ws_visited st)) < k \<Longrightarrow> card (D - set (ws_visited st)) < k' \<Longrightarrow>
    walk_levels k env rootDir matchers dir st = walk_levels k' env rootDir matchers dir st"
proof (induction k arbitrary: k' matchers dir st)
  case (Suc k)
  obtain j where j: "k' = Suc j"
    using Suc.prems(2) by (cases k') auto
  let ?P = "\<lambda>st. card (D - set (ws_visited st)) < k \<and> card (D - set (ws_visited st)) < j"
  let ?f = "\<lambda>k active. scan_entry (walk_levels k env rootDir active) env rootDir dir active"
  have less: "?P v" if "?P u" "set (ws_visited u) \<subseteq> set (ws_visited v)" for u v
    using that card_mono [of "D - set (ws_visited u)" "D - set (ws_visited v)"] assms(2) by (auto intro: le_less_trans)
  have same: "?f k active e acc = ?f j active e acc" if "?P (snd acc)" for active e acc
    using that Suc.IH [of "snd acc" j] by (cases acc) (auto intro: scan_entry_cong)
  have kept: "?P (snd (?f j active e acc))" if "?P (snd acc)" for active e acc
  proof (rule less [OF that])
    show "set (ws_visited (snd acc)) \<subseteq> set (ws_visited (snd (?f j active e acc)))"
      by (rule scan_entry_keeps [where Q = "\<lambda>st. set (ws_visited (snd acc)) \<subseteq> set (ws_visited st)"]) (simp_all add: walk_grows)
  qed
  have all: "fold (?f k active) entries acc = fold (?f j active) entries acc" if "?P (snd acc)" for active entries acc
    by (rule fold_both [where Q = "\<lambda>acc. ?P (snd acc)"]) (use same kept that in blast)+
  show ?case
  proof (cases "sc_realpath env dir")
    case (Some rd)
    show ?thesis
    proof (cases "rd \<in> set (ws_visited st)")
      case False
      have "D - set (ws_visited (st\<lparr>ws_visited := ws_visited st @ [rd]\<rparr>)) \<subset> D - set (ws_visited st)"
        using False real [OF Some] by auto
      then have "card (D - set (ws_visited (st\<lparr>ws_visited := ws_visited st @ [rd]\<rparr>))) < card (D - set (ws_visited st))"
        using assms(2) by (intro psubset_card_mono) auto
      then have "?P (snd (True, st\<lparr>ws_visited := ws_visited st @ [rd]\<rparr>))"
        using Suc.prems unfolding j by simp
      from all [OF this] show ?thesis
        using Some False by (simp add: j walk_body_def Let_def split: option.split)
    qed (simp add: Some j walk_body_def)
  qed (simp add: j walk_body_def)
qed simp

text \<open>So in a file system of at most \<open>sc_dirCount\<close> directories the function satisfies the equation of the code.\<close>

lemma walk_dir_eq:
  assumes "\<And>p rd. sc_realpath env p = Some rd \<Longrightarrow> rd \<in> D" and "finite D" and "card D \<le> sc_dirCount env"
  shows "walk_dir env rootDir matchers dir st = walk_body (walk_dir env rootDir) env rootDir matchers dir st"
proof -
  have few: "card (D - V) < Suc (sc_dirCount env)" for V
    using card_mono [OF assms(2), of "D - V"] assms(3) by auto
  have one_more: "walk_levels (Suc (Suc (sc_dirCount env))) env rootDir ms d v = walk_dir env rootDir ms d v" for ms d v
    unfolding walk_dir_def using few by (intro walk_levels_enough [OF assms(1,2)]) (auto intro: less_SucI)
  have tree: "walk_levels (Suc (sc_dirCount env)) env rootDir = walk_dir env rootDir"
    by (simp only: walk_dir_def)
  have "walk_dir env rootDir matchers dir st = walk_levels (Suc (Suc (sc_dirCount env))) env rootDir matchers dir st"
    by (rule one_more [symmetric])
  also note walk_levels.simps(2)
  finally show ?thesis
    unfolding tree .
qed

section \<open>What a scan returns\<close>

definition base_matcher :: "scan_env \<Rightarrow> string \<Rightarrow> string \<times> string list" where
  "base_matcher env rootDir = (rootDir, buildDefaultIgnore env rootDir)"

definition scan_ok :: "scan_env \<Rightarrow> string \<Rightarrow> string \<Rightarrow> bool" where
  "scan_ok env rootDir f \<longleftrightarrow>
     isSourceFile f \<and> (starts_with f ''..'' \<or> sc_ignores env (buildDefaultIgnore env rootDir) f = Some False)"

lemma no_source_empty: "\<not> isSourceFile ''''"
  by code_simp

lemma push_file_ok:
  assumes "isIgnored env full False (base_matcher env rootDir # ms) = Some False" and "list_all (scan_ok env rootDir) (ws_files st)"
  shows "list_all (scan_ok env rootDir) (ws_files (push_file (slash_path (path_relative rootDir full)) st))"
  using assms no_source_empty
  by (auto simp: push_file_def scan_ok_def base_matcher_def Let_def split: if_splits option.splits bool.splits)

lemma active_base: "\<exists>ms'. active_matchers env rootDir (m # ms) dir = m # ms'"
  by (simp add: active_matchers_def split: option.split)

lemma walk_ok:
  "list_all (scan_ok env rootDir) (ws_files st) \<Longrightarrow>
    list_all (scan_ok env rootDir) (ws_files (snd (walk_levels k env rootDir (base_matcher env rootDir # ms) dir st)))"
proof (induction k arbitrary: ms dir st)
  case (Suc k)
  obtain ms' where ms': "active_matchers env rootDir (base_matcher env rootDir # ms) dir = base_matcher env rootDir # ms'"
    using active_base by blast
  have "list_all (scan_ok env rootDir) (ws_files (snd (walk_body (walk_levels k env rootDir) env rootDir
      (base_matcher env rootDir # ms) dir st)))"
    by (rule walk_body_keeps) (use Suc ms' push_file_ok in simp_all)
  then show ?case
    by simp
qed simp

text \<open>
  C26: a scan returns source files only, whether git lists the files or the file system is walked; and of these
  none that the default rules or the project's \<open>.gitignore\<close> exclude, but for names that start with two dots,
  which the walk does not test.
\<close>

theorem scan_sound:
  assumes "scanDirectory env rootDir = Some files"
  shows "list_all (\<lambda>f. isSourceFile f
    \<and> (starts_with f ''..'' \<or> sc_ignores env (buildDefaultIgnore env rootDir) f = Some False)) files"
proof -
  have "list_all (scan_ok env rootDir) files"
  proof (cases "getGitVisibleFiles env rootDir")
    case None
    then show ?thesis
      using assms walk_ok [of env rootDir "\<lparr>ws_files = [], ws_visited = []\<rparr>" "Suc (sc_dirCount env)" "[]" rootDir]
      by (auto simp: scanDirectory_def scanDirectoryWalk_def walk_dir_def base_matcher_def simp del: walk_levels.simps
          split: prod.splits if_splits)
  next
    case (Some gitFiles)
    then have "list_all (\<lambda>f. sc_ignores env (buildDefaultIgnore env rootDir) f = Some False) gitFiles"
      by (auto simp: getGitVisibleFiles_def Let_def list_all_iff split: option.splits sum.splits if_splits)
    then show ?thesis
      using assms Some by (auto simp: scanDirectory_def list_all_iff scan_ok_def)
  qed
  then show ?thesis
    by (simp add: scan_ok_def list_all_iff)
qed

section \<open>Examples\<close>

text \<open>A directory without git, with a source file, a text and a dependency directory.\<close>

definition small_project :: scan_env where
  "small_project =
     \<lparr>sc_vars = (\<lambda>_. None), sc_git = (\<lambda>_ _. None), sc_ignores = (\<lambda>_ p. Some (starts_with p ''vendor/'')),
      sc_exists = (\<lambda>_. False), sc_readFile = (\<lambda>_. None),
      sc_realpath = (\<lambda>p. if p = ''/p'' \<or> p = ''/p/vendor'' then Some p else None),
      sc_readdir = (\<lambda>p. if p = ''/p'' then Some [(''vendor'', Scan_dir), (''a.ts'', Scan_file), (''b.txt'', Scan_file)] else None),
      sc_stat = (\<lambda>_. None), sc_repoDepth = 0, sc_dirCount = 2\<rparr>"

lemma small_scan: "scanDirectory small_project ''/p'' = Some [''a.ts'']"
  by code_simp

theorem scan_sound_witness:
  "list_all (\<lambda>f. isSourceFile f
    \<and> (starts_with f ''..'' \<or> sc_ignores small_project (buildDefaultIgnore small_project ''/p'') f = Some False)) [''a.ts'']"
  by (rule scan_sound [OF small_scan])

text \<open>
  \<open>git status\<close> without \<open>-z\<close> quotes a path with other than ASCII characters, and names a directory of
  untracked files once: neither is a source file, so such changes are not reported.
\<close>

lemma quoted_change_missed:
  assumes "sc_git env [''status'', ''--porcelain'', ''--no-renames''] r =
    Some ('' M '' @ [CHR 0x22] @ ''caf'' @ [CHR 0x5C] @ ''303'' @ [CHR 0x5C] @ ''251.ts'' @ [CHR 0x22, CHR 0x0A])"
  shows "getGitChangedFiles env r = Some \<lparr>gc_modified = [], gc_added = [], gc_deleted = []\<rparr>"
proof -
  have "fold status_line (split_by (\<lambda>c. c = newline)
      ('' M '' @ [CHR 0x22] @ ''caf'' @ [CHR 0x5C] @ ''303'' @ [CHR 0x5C] @ ''251.ts'' @ [CHR 0x22, CHR 0x0A]))
      \<lparr>gc_modified = [], gc_added = [], gc_deleted = []\<rparr> = \<lparr>gc_modified = [], gc_added = [], gc_deleted = []\<rparr>"
    by code_simp
  then show ?thesis
    unfolding getGitChangedFiles_def assms by simp
qed

lemma untracked_directory_missed:
  assumes "sc_git env [''status'', ''--porcelain'', ''--no-renames''] r = Some (''?? new/'' @ [newline])"
  shows "getGitChangedFiles env r = Some \<lparr>gc_modified = [], gc_added = [], gc_deleted = []\<rparr>"
proof -
  have "fold status_line (split_by (\<lambda>c. c = newline) (''?? new/'' @ [newline]))
      \<lparr>gc_modified = [], gc_added = [], gc_deleted = []\<rparr> = \<lparr>gc_modified = [], gc_added = [], gc_deleted = []\<rparr>"
    by code_simp
  then show ?thesis
    unfolding getGitChangedFiles_def assms by simp
qed

text \<open>A name that starts with two dots is found although the rules exclude it.\<close>

lemma dotted_name_escapes:
  "scanDirectory (small_project\<lparr>sc_ignores := \<lambda>_ _. Some True, sc_readdir := \<lambda>_. Some [(''..gen.ts'', Scan_file)]\<rparr>) ''/p''
    = Some [''..gen.ts'']"
  by code_simp

text \<open>
  The package compiles a rule when it comes to it, and not every test comes to every rule. A rule that the test
  of its file does not reach, here one that throws for one path only, makes the walk of the project throw.
\<close>

lemma lazy_rule_escapes:
  "scanDirectory (small_project\<lparr>sc_exists := \<lambda>p. p = ''/p/.gitignore'', sc_readFile := \<lambda>_. Some ''x'',
     sc_ignores := \<lambda>ig p. if ''x'' \<in> set ig \<and> p = ''a.ts'' then None else Some False\<rparr>) ''/p'' = None"
  by code_simp

end
