(* ===== verification/Indexer.thy ===== *)
theory Indexer
  imports FileScan GraphStore
begin

text \<open>
  The class \<open>ExtractionOrchestrator\<close> of \<open>extraction/index.ts\<close>: indexing, synchronisation and change
  detection over the graph store. The file system is part of the record \<open>index_env\<close>, which also holds the
  functions that other parts of the program supply: the extractor \<open>extractFromSource\<close>, which throws the memory
  errors of the parser on, the requests to the parse worker (which may fail, differently at every attempt), the
  detection of frameworks and the content hash of \<open>crypto\<close>. An exception is a value of \<open>index_error\<close>. Times are whole milliseconds. Progress
  reports, logging, the loading of grammars and durations are left out.
\<close>

section \<open>Environment and results\<close>

record extraction_error =
  xe_message :: string
  xe_filePath :: "string option"
  xe_isError :: bool
  xe_code :: "string option"

record extraction_result =
  xr_nodes :: "node list"
  xr_edges :: "edge list"
  xr_unresolvedReferences :: "unresolved_reference list"
  xr_errors :: "extraction_error list"

record file_stats =
  fs_size :: nat
  fs_mtimeMs :: nat

text \<open>The points at which \<open>indexAll\<close> asks the abort signal.\<close>

datatype poll = Poll_scanned | Poll_batch nat | Poll_file nat | Poll_retry nat | Poll_strip nat

record index_env =
  ix_scan :: scan_env
  ix_platform :: string
  ix_realpath :: "string \<Rightarrow> fs_error + string"
  ix_read :: "string \<Rightarrow> string option"
  ix_stat :: "string \<Rightarrow> file_stats option"
  ix_hash :: "string \<Rightarrow> string"
  ix_extract :: "string \<Rightarrow> string \<Rightarrow> language \<Rightarrow> string list \<Rightarrow> string + extraction_result"
  ix_parse :: "nat \<Rightarrow> string \<Rightarrow> string \<Rightarrow> string list \<Rightarrow> string + extraction_result"
  ix_useWorker :: bool
  ix_detect :: "string list \<Rightarrow> string list"
  ix_aborted :: "poll \<Rightarrow> bool"
  ix_now :: nat

datatype index_error = Scan_threw | Stat_threw string | Extract_threw string | Store_error db_error

record orchestrator =
  oc_rootDir :: string
  oc_frameworks :: "string list option"
  oc_queries :: query_builder

definition new_orchestrator :: "string \<Rightarrow> query_builder \<Rightarrow> orchestrator" where
  "new_orchestrator rootDir queries = \<lparr>oc_rootDir = rootDir, oc_frameworks = None, oc_queries = queries\<rparr>"

type_synonym 'a ix = "orchestrator \<Rightarrow> (index_error + 'a) \<times> orchestrator"

definition ix_then :: "'a ix \<Rightarrow> ('a \<Rightarrow> 'b ix) \<Rightarrow> 'b ix" where
  "ix_then m f oc = (case m oc of (Inl e, oc1) \<Rightarrow> (Inl e, oc1) | (Inr x, oc1) \<Rightarrow> f x oc1)"

definition ix_return :: "'a \<Rightarrow> 'a ix" where
  "ix_return x oc = (Inr x, oc)"

definition ix_store :: "'a act \<Rightarrow> 'a ix" where
  "ix_store m oc =
     (case m (oc_queries oc) of (r, s) \<Rightarrow> (map_sum Store_error id r, oc\<lparr>oc_queries := s\<rparr>))"

fun ix_each :: "('a \<Rightarrow> 'b \<Rightarrow> 'b ix) \<Rightarrow> 'a list \<Rightarrow> 'b \<Rightarrow> 'b ix" where
  "ix_each f [] acc = ix_return acc"
| "ix_each f (x # xs) acc = ix_then (f x acc) (ix_each f xs)"

definition MAX_FILE_SIZE :: nat where
  "MAX_FILE_SIZE = 1024 * 1024"

definition FILE_IO_BATCH_SIZE :: nat where
  "FILE_IO_BATCH_SIZE = 10"

section \<open>Storing the result of an extraction\<close>

definition error_json :: "extraction_error \<Rightarrow> json" where
  "error_json e =
     JObj ([(''message'', JStr (xe_message e))]
       @ (case xe_filePath e of Some p \<Rightarrow> [(''filePath'', JStr p)] | None \<Rightarrow> [])
       @ [(''severity'', JStr (if xe_isError e then ''error'' else ''warning''))]
       @ (case xe_code e of Some c \<Rightarrow> [(''code'', JStr c)] | None \<Rightarrow> []))"

definition validNodes :: "extraction_result \<Rightarrow> node list" where
  "validNodes result = filter (\<lambda>n. \<not> node_incomplete n) (xr_nodes result)"

definition validEdges :: "extraction_result \<Rightarrow> edge list" where
  "validEdges result =
     (let insertedIds = n_id ` set (validNodes result)
      in filter (\<lambda>e. e_source e \<in> insertedIds \<and> e_target e \<in> insertedIds) (xr_edges result))"

definition refsWithContext :: "string \<Rightarrow> language \<Rightarrow> extraction_result \<Rightarrow> unresolved_reference list" where
  "refsWithContext filePath lang result =
     (let insertedIds = n_id ` set (validNodes result)
      in map (\<lambda>ref. ref\<lparr>u_filePath := Some (case u_filePath ref of Some p \<Rightarrow> p | None \<Rightarrow> filePath),
                 u_language := Some (case u_language ref of Some l \<Rightarrow> l | None \<Rightarrow> lang)\<rparr>)
          (filter (\<lambda>ref. u_fromNodeId ref \<in> insertedIds) (xr_unresolvedReferences result)))"

definition fileRecord :: "index_env \<Rightarrow> string \<Rightarrow> string \<Rightarrow> language \<Rightarrow> file_stats \<Rightarrow> extraction_result \<Rightarrow> file_record" where
  "fileRecord env filePath contentHash lang stats result =
     \<lparr>f_path = filePath, f_contentHash = contentHash, f_language = lang, f_size = fs_size stats,
      f_modifiedAt = fs_mtimeMs stats, f_indexedAt = ix_now env, f_nodeCount = length (xr_nodes result),
      f_errors = (if xr_errors result = [] then None else Some (JArr (map error_json (xr_errors result))))\<rparr>"

definition unless_empty :: "('a list \<Rightarrow> unit act) \<Rightarrow> 'a list \<Rightarrow> unit act" where
  "unless_empty f xs s = (if xs = [] then (Inr (), s) else f xs s)"

definition storeExtractionResult :: "index_env \<Rightarrow> string \<Rightarrow> string \<Rightarrow> language \<Rightarrow> file_stats \<Rightarrow> extraction_result \<Rightarrow> unit act" where
  "storeExtractionResult env filePath content lang stats result s =
     (let contentHash = ix_hash env content;
          existingFile = getFileByPath filePath (qb_db s)
      in if map_option f_contentHash existingFile = Some contentHash then (Inr (), s)
         else for_each (\<lambda>step. step)
           [if existingFile = None then (\<lambda>s. (Inr (), s)) else deleteFile filePath,
            unless_empty insertNodes (validNodes result),
            unless_empty insertEdges (validEdges result),
            unless_empty insertUnresolvedRefsBatch (refsWithContext filePath lang result),
            upsertFile (fileRecord env filePath contentHash lang stats result)] s)"

section \<open>Single files\<close>

definition ensureDetectedFrameworks :: "index_env \<Rightarrow> string list option \<Rightarrow> string list ix" where
  "ensureDetectedFrameworks env files oc =
     (case oc_frameworks oc of
        Some names \<Rightarrow> (Inr names, oc)
      | None \<Rightarrow>
          (case (case files of Some fs \<Rightarrow> Some fs | None \<Rightarrow> scanDirectory (ix_scan env) (oc_rootDir oc)) of
             None \<Rightarrow> (Inl Scan_threw, oc)
           | Some fileList \<Rightarrow> (Inr (ix_detect env fileList), oc\<lparr>oc_frameworks := Some (ix_detect env fileList)\<rparr>)))"

definition failed :: "string \<Rightarrow> string \<Rightarrow> bool \<Rightarrow> string \<Rightarrow> extraction_result" where
  "failed filePath msg isError code =
     \<lparr>xr_nodes = [], xr_edges = [], xr_unresolvedReferences = [],
      xr_errors = [\<lparr>xe_message = msg, xe_filePath = Some filePath, xe_isError = isError, xe_code = Some code\<rparr>]\<rparr>"

definition no_result :: extraction_result where
  "no_result = \<lparr>xr_nodes = [], xr_edges = [], xr_unresolvedReferences = [], xr_errors = []\<rparr>"

definition validated :: "index_env \<Rightarrow> orchestrator \<Rightarrow> string \<Rightarrow> string option" where
  "validated env oc filePath = validatePathWithinRoot (ix_platform env) (ix_realpath env) (oc_rootDir oc) filePath"

definition size_message :: "nat \<Rightarrow> string" where
  "size_message n = ''File exceeds max size ('' @ show_nat n @ '' > '' @ show_nat MAX_FILE_SIZE @ '')''"

definition storable :: "extraction_result \<Rightarrow> bool" where
  "storable result \<longleftrightarrow> xr_nodes result \<noteq> [] \<or> xr_errors result = []"

definition indexFileWithContent :: "index_env \<Rightarrow> string \<Rightarrow> string \<Rightarrow> file_stats \<Rightarrow> extraction_result ix" where
  "indexFileWithContent env relativePath content stats oc =
     (if validated env oc relativePath = None
      then (Inr (failed relativePath ''Path traversal blocked'' True ''path_traversal''), oc)
      else if MAX_FILE_SIZE < fs_size stats
      then (Inr (failed relativePath (size_message (fs_size stats)) False ''size_exceeded''), oc)
      else (let lang = detectLanguage relativePath (Some content) in
        if \<not> isLanguageSupported lang then (Inr no_result, oc)
        else ix_then (ensureDetectedFrameworks env None) (\<lambda>frameworkNames oc1.
          case ix_extract env relativePath content lang frameworkNames of
            Inl _ \<Rightarrow> (Inl (Extract_threw relativePath), oc1)
          | Inr result \<Rightarrow>
              (if storable result
               then ix_then (ix_store (storeExtractionResult env relativePath content lang stats result)) (\<lambda>_. ix_return result)
               else ix_return result) oc1) oc))"

text \<open>The text of the error message of a failed read is that of the operating system and left out.\<close>

definition indexFile :: "index_env \<Rightarrow> string \<Rightarrow> extraction_result ix" where
  "indexFile env relativePath oc =
     (case validated env oc relativePath of
        None \<Rightarrow> (Inr (failed relativePath (''Path traversal blocked: '' @ relativePath) True ''path_traversal''), oc)
      | Some fullPath \<Rightarrow>
          (case (ix_stat env fullPath, ix_read env fullPath) of
             (Some stats, Some content) \<Rightarrow> indexFileWithContent env relativePath content stats oc
           | _ \<Rightarrow> (Inr (failed relativePath ''Failed to read file: '' True ''read_error''), oc)))"

section \<open>Lists of files\<close>

record index_result =
  ir_filesIndexed :: int
  ir_filesSkipped :: int
  ir_filesErrored :: int
  ir_nodesCreated :: int
  ir_edgesCreated :: int
  ir_errors :: "extraction_error list"

definition no_files :: index_result where
  "no_files = \<lparr>ir_filesIndexed = 0, ir_filesSkipped = 0, ir_filesErrored = 0, ir_nodesCreated = 0, ir_edgesCreated = 0, ir_errors = []\<rparr>"

definition index_success :: "index_result \<Rightarrow> bool" where
  "index_success r \<longleftrightarrow> 0 < ir_filesIndexed r \<or> filter xe_isError (ir_errors r) = []"

definition add_errors :: "extraction_error list \<Rightarrow> index_result \<Rightarrow> index_result" where
  "add_errors es r = r\<lparr>ir_errors := ir_errors r @ es\<rparr>"

definition count_indexed :: "extraction_result \<Rightarrow> index_result \<Rightarrow> index_result" where
  "count_indexed result r =
     r\<lparr>ir_filesIndexed := ir_filesIndexed r + 1, ir_nodesCreated := ir_nodesCreated r + int (length (xr_nodes result)),
       ir_edgesCreated := ir_edgesCreated r + int (length (xr_edges result))\<rparr>"

text \<open>How a result is counted; the first argument says whether a file without symbols counts as indexed.\<close>

definition count_result :: "bool \<Rightarrow> extraction_result \<Rightarrow> index_result \<Rightarrow> index_result" where
  "count_result fileLevel result r =
     (if xr_nodes result \<noteq> [] then count_indexed result r
      else if list_ex xe_isError (xr_errors result) then r\<lparr>ir_filesErrored := ir_filesErrored r + 1\<rparr>
      else if fileLevel then r\<lparr>ir_filesIndexed := ir_filesIndexed r + 1\<rparr>
      else r\<lparr>ir_filesSkipped := ir_filesSkipped r + 1\<rparr>)"

definition index_one :: "index_env \<Rightarrow> string \<Rightarrow> index_result \<Rightarrow> index_result ix" where
  "index_one env filePath r =
     ix_then (indexFile env filePath) (\<lambda>result oc.
       let tracked = getFileByPath filePath (qb_db (oc_queries oc));
           fileLevel = (case tracked of Some f \<Rightarrow> isFileLevelOnlyLanguage (f_language f) | None \<Rightarrow> False)
       in (Inr (count_result fileLevel result (add_errors (xr_errors result) r)), oc))"

definition indexFiles :: "index_env \<Rightarrow> string list \<Rightarrow> index_result ix" where
  "indexFiles env filePaths = ix_each (index_one env) filePaths no_files"

section \<open>The whole project\<close>

definition requestParse :: "index_env \<Rightarrow> nat \<Rightarrow> string \<Rightarrow> string \<Rightarrow> string list \<Rightarrow> string + extraction_result" where
  "requestParse env attempt filePath content frameworkNames =
     (if ix_useWorker env then ix_parse env attempt filePath content frameworkNames
      else ix_extract env filePath content (detectLanguage filePath (Some content)) frameworkNames)"

definition count_error :: "string \<Rightarrow> string \<Rightarrow> string \<Rightarrow> index_result \<Rightarrow> index_result" where
  "count_error filePath msg code r =
     add_errors (xr_errors (failed filePath msg True code)) (r\<lparr>ir_filesErrored := ir_filesErrored r + 1\<rparr>)"

definition count_skipped :: "string \<Rightarrow> nat \<Rightarrow> index_result \<Rightarrow> index_result" where
  "count_skipped filePath bytes r =
     add_errors (xr_errors (failed filePath (size_message bytes) False ''size_exceeded'')) (r\<lparr>ir_filesSkipped := ir_filesSkipped r + 1\<rparr>)"

definition with_path :: "string \<Rightarrow> extraction_error \<Rightarrow> extraction_error" where
  "with_path filePath e = (if truthy (xe_filePath e) = None then e\<lparr>xe_filePath := Some filePath\<rparr> else e)"

text \<open>A file of the main loop.\<close>

definition index_in_bulk :: "index_env \<Rightarrow> string list \<Rightarrow> string \<Rightarrow> index_result \<Rightarrow> index_result ix" where
  "index_in_bulk env frameworkNames filePath r oc =
     (case validated env oc filePath of
        None \<Rightarrow> (Inr (count_error filePath ''Failed to read file: Path traversal blocked'' ''read_error'' r), oc)
      | Some fullPath \<Rightarrow>
          (case (ix_read env fullPath, ix_stat env fullPath) of
             (Some content, Some stats) \<Rightarrow>
               if MAX_FILE_SIZE < fs_size stats then (Inr (count_skipped filePath (fs_size stats) r), oc)
               else (case requestParse env 0 filePath content frameworkNames of
                   Inl msg \<Rightarrow> (Inr (count_error filePath msg ''parse_error'' r), oc)
                 | Inr result \<Rightarrow>
                     (let lang = detectLanguage filePath (Some content) in
                      ix_then (if storable result then ix_store (storeExtractionResult env filePath content lang stats result) else ix_return ())
                        (\<lambda>_. ix_return (count_result (isFileLevelOnlyLanguage lang) result
                          (add_errors (map (with_path filePath) (xr_errors result)) r))) oc))
           | _ \<Rightarrow> (Inr (count_error filePath ''Failed to read file: '' ''read_error'' r), oc)))"

text \<open>The main loop: whether it was aborted, and the counts.\<close>

fun index_loop :: "index_env \<Rightarrow> string list \<Rightarrow> nat \<Rightarrow> string list \<Rightarrow> index_result \<Rightarrow> (bool \<times> index_result) ix" where
  "index_loop env frameworkNames i [] r = ix_return (False, r)"
| "index_loop env frameworkNames i (f # fs) r =
     (if (i mod FILE_IO_BATCH_SIZE = 0 \<and> ix_aborted env (Poll_batch i)) \<or> ix_aborted env (Poll_file i) then ix_return (True, r)
      else ix_then (index_in_bulk env frameworkNames f r) (index_loop env frameworkNames (Suc i) fs))"

definition retryable :: "extraction_error \<Rightarrow> bool" where
  "retryable e \<longleftrightarrow>
     xe_code e = Some ''parse_error'' \<and> truthy (xe_filePath e) \<noteq> None
     \<and> (str_includes (xe_message e) ''Worker exited'' \<or> str_includes (xe_message e) ''memory access out of bounds'')"

definition count_retried :: "extraction_error \<Rightarrow> extraction_result \<Rightarrow> index_result \<Rightarrow> index_result" where
  "count_retried e result r =
     count_indexed result (r\<lparr>ir_errors := remove1 e (ir_errors r), ir_filesErrored := ir_filesErrored r - 1\<rparr>)"

definition stripped :: "string \<Rightarrow> string" where
  "stripped content =
     join_with [newline] (map (\<lambda>line. if starts_with (trim_start line) ''//'' then '''' else line)
       (split_by (\<lambda>c. c = newline) content))"

text \<open>
  One attempt to parse a file again, the first with its content and the second without comment lines: the
  counts, and whether the parser failed again.
\<close>

definition retry_one :: "index_env \<Rightarrow> string list \<Rightarrow> nat \<Rightarrow> extraction_error \<Rightarrow> index_result \<Rightarrow> (bool \<times> index_result) ix" where
  "retry_one env frameworkNames attempt e r oc =
     (let filePath = the (xe_filePath e) in
      case validated env oc filePath of
        None \<Rightarrow> (Inr (False, r), oc)
      | Some fullPath \<Rightarrow>
          (case ix_read env fullPath of
             None \<Rightarrow> (Inr (False, r), oc)
           | Some content \<Rightarrow>
               (case requestParse env attempt filePath (if attempt = 1 then content else stripped content) frameworkNames of
                  Inl _ \<Rightarrow> (Inr (True, r), oc)
                | Inr result \<Rightarrow>
                    if storable result then
                      (case ix_stat env (path_join [oc_rootDir oc, filePath]) of
                         None \<Rightarrow> (Inl (Stat_threw filePath), oc)
                       | Some stats \<Rightarrow>
                           ix_then (ix_store (storeExtractionResult env filePath content (detectLanguage filePath (Some content)) stats result))
                             (\<lambda>_. ix_return (False, count_retried e result r)) oc)
                    else (Inr (False, r), oc))))"

fun retry_loop :: "index_env \<Rightarrow> string list \<Rightarrow> nat \<Rightarrow> nat \<Rightarrow> extraction_error list \<Rightarrow> extraction_error list \<times> index_result
    \<Rightarrow> (extraction_error list \<times> index_result) ix" where
  "retry_loop env frameworkNames attempt k [] acc = ix_return acc"
| "retry_loop env frameworkNames attempt k (e # es) (stillFailing, r) =
     (if ix_aborted env ((if attempt = 1 then Poll_retry else Poll_strip) k) then ix_return (stillFailing, r)
      else ix_then (retry_one env frameworkNames attempt e r)
        (\<lambda>(again, r'). retry_loop env frameworkNames attempt (Suc k) es (if again then stillFailing @ [e] else stillFailing, r')))"

definition retry_pass :: "index_env \<Rightarrow> string list \<Rightarrow> index_result \<Rightarrow> index_result ix" where
  "retry_pass env frameworkNames r =
     (let retryableErrors = filter retryable (ir_errors r) in
      if retryableErrors \<noteq> [] \<and> ix_useWorker env
      then ix_then (retry_loop env frameworkNames 1 0 retryableErrors ([], r)) (\<lambda>(stillFailing, r1).
             ix_then (retry_loop env frameworkNames 2 0 stillFailing ([], r1)) (\<lambda>(_, r2). ix_return r2))
      else ix_return r)"

definition aborted_error :: extraction_error where
  "aborted_error = \<lparr>xe_message = ''Aborted'', xe_filePath = None, xe_isError = True, xe_code = None\<rparr>"

definition aborted_result :: "index_result \<Rightarrow> index_result" where
  "aborted_result r = r\<lparr>ir_errors := aborted_error # ir_errors r\<rparr>"

text \<open>\<open>indexAll\<close>: the field \<open>success\<close> and the counts.\<close>

definition indexAll :: "index_env \<Rightarrow> (bool \<times> index_result) ix" where
  "indexAll env oc =
     (case scanDirectory (ix_scan env) (oc_rootDir oc) of
        None \<Rightarrow> (Inl Scan_threw, oc)
      | Some files \<Rightarrow>
          ix_then (ensureDetectedFrameworks env (Some files)) (\<lambda>frameworkNames.
            if ix_aborted env Poll_scanned then ix_return (False, aborted_result no_files)
            else ix_then (index_loop env frameworkNames 0 files no_files) (\<lambda>(aborted, r).
              if aborted then ix_return (False, aborted_result r)
              else ix_then (retry_pass env frameworkNames r) (\<lambda>r'. ix_return (index_success r', r'))))
            (oc\<lparr>oc_frameworks := None\<rparr>))"

section \<open>Synchronisation\<close>

record sync_result =
  sy_filesChecked :: nat
  sy_filesAdded :: nat
  sy_filesModified :: nat
  sy_filesRemoved :: nat
  sy_nodesUpdated :: nat
  sy_changedFilePaths :: "string list option"

datatype change = Unchanged | Added | Modified

text \<open>An unreadable file counts as unchanged, and so does one whose size and time are those of the record.\<close>

definition classify_file :: "index_env \<Rightarrow> string \<Rightarrow> file_record option \<Rightarrow> string \<Rightarrow> change" where
  "classify_file env rootDir tracked filePath =
     (let fullPath = path_join [rootDir, filePath] in
      case tracked of
        None \<Rightarrow> (case ix_read env fullPath of None \<Rightarrow> Unchanged | Some _ \<Rightarrow> Added)
      | Some t \<Rightarrow>
          (case ix_stat env fullPath of
             None \<Rightarrow> Unchanged
           | Some st \<Rightarrow>
               if fs_size st = f_size t \<and> fs_mtimeMs st = f_modifiedAt t then Unchanged
               else (case ix_read env fullPath of
                   None \<Rightarrow> Unchanged
                 | Some content \<Rightarrow> if f_contentHash t \<noteq> ix_hash env content then Modified else Unchanged)))"

definition tracked_in :: "file_record list \<Rightarrow> string \<Rightarrow> file_record option" where
  "tracked_in trackedFiles filePath = find (\<lambda>f. f_path f = filePath) (rev trackedFiles)"

definition remove_gone :: "index_env \<Rightarrow> string \<Rightarrow> string list \<Rightarrow> file_record \<Rightarrow> nat \<Rightarrow> nat ix" where
  "remove_gone env rootDir currentFiles tracked n =
     (if f_path tracked \<notin> set currentFiles \<or> \<not> sc_exists (ix_scan env) (path_join [rootDir, f_path tracked])
      then ix_then (ix_store (deleteFile (f_path tracked))) (\<lambda>_. ix_return (n + 1))
      else ix_return n)"

definition sync_one :: "index_env \<Rightarrow> string \<Rightarrow> nat \<Rightarrow> nat ix" where
  "sync_one env filePath n = ix_then (indexFile env filePath) (\<lambda>result. ix_return (n + length (xr_nodes result)))"

definition sync :: "index_env \<Rightarrow> sync_result ix" where
  "sync env oc =
     (case scanDirectory (ix_scan env) (oc_rootDir oc) of
        None \<Rightarrow> (Inl Scan_threw, oc)
      | Some currentFiles \<Rightarrow>
          (let rootDir = oc_rootDir oc;
               trackedFiles = getAllFiles (qb_db (oc_queries oc));
               kind = (\<lambda>f. classify_file env rootDir (tracked_in trackedFiles f) f);
               filesToIndex = filter (\<lambda>f. kind f \<noteq> Unchanged) currentFiles in
           ix_then (ix_each (remove_gone env rootDir currentFiles) trackedFiles 0) (\<lambda>filesRemoved.
             ix_then (ix_each (sync_one env) filesToIndex 0) (\<lambda>nodesUpdated.
               ix_return
                 \<lparr>sy_filesChecked = length currentFiles, sy_filesAdded = length (filter (\<lambda>f. kind f = Added) currentFiles),
                  sy_filesModified = length (filter (\<lambda>f. kind f = Modified) currentFiles), sy_filesRemoved = filesRemoved,
                  sy_nodesUpdated = nodesUpdated,
                  sy_changedFilePaths = (if filesToIndex = [] then None else Some filesToIndex)\<rparr>)) oc))"

record changed_files =
  cf_added :: "string list"
  cf_modified :: "string list"
  cf_removed :: "string list"

text \<open>The files that are not tracked, and those whose content has another hash than the record.\<close>

definition by_hash :: "index_env \<Rightarrow> string \<Rightarrow> (string \<Rightarrow> file_record option) \<Rightarrow> string list \<Rightarrow> string list \<times> string list" where
  "by_hash env rootDir tracked files =
     (let readable = filter (\<lambda>f. ix_read env (path_join [rootDir, f]) \<noteq> None) files;
          hash = (\<lambda>f. ix_hash env (the (ix_read env (path_join [rootDir, f]))))
      in (filter (\<lambda>f. tracked f = None) readable,
          filter (\<lambda>f. case tracked f of Some t \<Rightarrow> f_contentHash t \<noteq> hash f | None \<Rightarrow> False) readable))"

text \<open>\<open>None\<close> when the scan of the fallback throws.\<close>

definition getChangedFiles :: "index_env \<Rightarrow> orchestrator \<Rightarrow> changed_files option" where
  "getChangedFiles env oc =
     (let d = qb_db (oc_queries oc); rootDir = oc_rootDir oc in
      case getGitChangedFiles (ix_scan env) rootDir of
        Some ch \<Rightarrow>
          (case by_hash env rootDir (\<lambda>f. getFileByPath f d) (gc_modified ch @ gc_added ch) of
             (added, modified) \<Rightarrow> Some \<lparr>cf_added = added, cf_modified = modified,
               cf_removed = filter (\<lambda>f. getFileByPath f d \<noteq> None) (gc_deleted ch)\<rparr>)
      | None \<Rightarrow>
          map_option (\<lambda>files.
            (let currentFiles = set_of_list files; trackedFiles = getAllFiles d in
             case by_hash env rootDir (tracked_in trackedFiles) currentFiles of
               (added, modified) \<Rightarrow> \<lparr>cf_added = added, cf_modified = modified,
                 cf_removed = filter (\<lambda>p. p \<notin> set currentFiles) (map f_path trackedFiles)\<rparr>))
            (scanDirectory (ix_scan env) rootDir))"

end
