(* ===== verification/IndexerLaws.thy ===== *)
theory IndexerLaws
  imports Indexer
begin

text \<open>
  What the extraction orchestrator guarantees: its operations keep the invariant of the store, the result
  of an extraction is stored whole and without a violation of the foreign keys, a synchronisation brings the
  index up to date with the files that can be indexed, and a full index counts its files by their outcomes.
\<close>

section \<open>Sequences of store operations\<close>

text \<open>An operation on a good store succeeds and leaves a good store, related to the first by \<open>R\<close>.\<close>

definition good :: "query_builder \<Rightarrow> bool" where
  "good s \<longleftrightarrow> qb_inv s \<and> \<not> qb_inTransaction s"

lemma good_safe: "good s \<Longrightarrow> safe_step s s' \<Longrightarrow> good s'"
  by (simp add: good_def safe_step_def)

definition does :: "unit act \<Rightarrow> query_builder \<Rightarrow> (db \<Rightarrow> bool) \<Rightarrow> bool" where
  "does act s P \<longleftrightarrow> fst (act s) = Inr () \<and> good (snd (act s)) \<and> P (qb_db (snd (act s)))"

lemma does_mono: "does act s P \<Longrightarrow> (\<And>d. P d \<Longrightarrow> Q d) \<Longrightarrow> does act s Q"
  by (simp add: does_def)

lemma does_nothing: "good s \<Longrightarrow> P (qb_db s) \<Longrightarrow> does (\<lambda>s. (Inr (), s)) s P"
  by (simp add: does_def)

lemma does_steps_Nil: "good s \<Longrightarrow> P (qb_db s) \<Longrightarrow> does (for_each (\<lambda>step. step) []) s P"
  by (simp add: does_def)

lemma does_steps_Cons:
  assumes "does f s P" and "\<And>s'. good s' \<Longrightarrow> P (qb_db s') \<Longrightarrow> does (for_each (\<lambda>step. step) fs) s' Q"
  shows "does (for_each (\<lambda>step. step) (f # fs)) s Q"
proof -
  obtain s' where "f s = (Inr (), s')" "good s'" "P (qb_db s')"
    using assms(1) by (cases "f s") (simp add: does_def)
  then show ?thesis
    using assms(2) [of s'] by (simp add: does_def)
qed

definition without_file :: "string \<Rightarrow> db \<Rightarrow> db" where
  "without_file p d = (sql_delete_nodes (\<lambda>r. r_file_path r = p) d)\<lparr>t_files := filter (\<lambda>r. fr_path r \<noteq> p) (t_files d)\<rparr>"

lemma does_deleteFile: "good s \<Longrightarrow> does (deleteFile p) s (\<lambda>d. d = without_file p (qb_db s))"
  using deleteFile_result [of s p] good_safe [OF _ safe_delete_file, of s p]
  by (simp add: does_def without_file_def good_def)

definition with_nodes :: "node list \<Rightarrow> db \<Rightarrow> db" where
  "with_nodes ns = fold (\<lambda>n. sql_replace_node (nodeParams n)) ns"

lemma insert_each_node:
  "list_all (\<lambda>n. \<not> node_incomplete n) ns \<Longrightarrow>
    fst (for_each insertNode ns s) = Inr () \<and> qb_db (snd (for_each insertNode ns s)) = with_nodes ns (qb_db s)"
proof (induction ns arbitrary: s)
  case (Cons n ns)
  then show ?case
    by (simp add: insertNode_def with_nodes_def)
qed (simp add: with_nodes_def)

lemma does_insertNodes:
  assumes "good s" and "list_all (\<lambda>n. \<not> node_incomplete n) ns"
  shows "does (insertNodes ns) s (\<lambda>d. d = with_nodes ns (qb_db s))"
proof -
  obtain s' where "for_each insertNode ns (s\<lparr>qb_inTransaction := True\<rparr>) = (Inr (), s')" "qb_db s' = with_nodes ns (qb_db s)"
    using insert_each_node [OF assms(2), of "s\<lparr>qb_inTransaction := True\<rparr>"]
    by (cases "for_each insertNode ns (s\<lparr>qb_inTransaction := True\<rparr>)") simp
  moreover have "safe_step s (snd (insertNodes ns s))"
    unfolding insertNodes_def using assms(1) node_batch.batch_safe by (simp add: good_def)
  ultimately show ?thesis
    using assms(1) good_safe by (simp add: does_def insertNodes_def transaction_def good_def safe_step_def)
qed

lemma does_insertEdges:
  assumes "good s"
  shows "does (insertEdges es) s (\<lambda>d. d = fold sql_insert_edge (filter (edge_insertable (qb_db s)) es) (qb_db s))"
  using assms insertEdges_result [of s es] good_safe [OF assms safe_insert_edges [of s es]]
  by (simp add: does_def good_def)

definition with_refs :: "unresolved_reference list \<Rightarrow> db \<Rightarrow> db" where
  "with_refs us = fold (\<lambda>u d. d\<lparr>t_unresolved_seq := t_unresolved_seq d + 1,
     t_unresolved := t_unresolved d @ [unresolvedParams (t_unresolved_seq d + 1) u]\<rparr>) us"

lemma insert_each_ref:
  "list_all (\<lambda>u. u_fromNodeId u \<in> node_ids (qb_db s)) us \<Longrightarrow>
    fst (for_each insertUnresolvedRef us s) = Inr () \<and> qb_db (snd (for_each insertUnresolvedRef us s)) = with_refs us (qb_db s)"
proof (induction us arbitrary: s)
  case (Cons u us)
  then show ?case
    by (simp add: insertUnresolvedRef_def with_refs_def Let_def)
qed (simp add: with_refs_def)

lemma does_insertRefs:
  assumes "good s" and "list_all (\<lambda>u. u_fromNodeId u \<in> node_ids (qb_db s)) us" and "us \<noteq> []"
  shows "does (insertUnresolvedRefsBatch us) s (\<lambda>d. d = with_refs us (qb_db s))"
proof -
  obtain s' where "for_each insertUnresolvedRef us (s\<lparr>qb_inTransaction := True\<rparr>) = (Inr (), s')" "qb_db s' = with_refs us (qb_db s)"
    using insert_each_ref [of "s\<lparr>qb_inTransaction := True\<rparr>" us] assms(2)
    by (cases "for_each insertUnresolvedRef us (s\<lparr>qb_inTransaction := True\<rparr>)") simp
  moreover have "safe_step s (snd (insertUnresolvedRefsBatch us s))"
    unfolding insertUnresolvedRefsBatch_def using assms(1,3) ref_batch.batch_safe by (simp add: good_def)
  ultimately show ?thesis
    using assms good_safe by (simp add: does_def insertUnresolvedRefsBatch_def transaction_def good_def safe_step_def)
qed

definition with_file :: "file_record \<Rightarrow> db \<Rightarrow> db" where
  "with_file f d = d\<lparr>t_files :=
     (if f_path f \<in> fr_path ` set (t_files d)
      then map (\<lambda>r. if fr_path r = f_path f then fileParams f else r) (t_files d)
      else t_files d @ [fileParams f])\<rparr>"

lemma does_upsertFile: "good s \<Longrightarrow> does (upsertFile f) s (\<lambda>d. d = with_file f (qb_db s))"
  using good_safe [OF _ safe_upsert_file, of s f]
  by (simp add: does_def good_def upsertFile_def with_file_def Let_def)

lemma does_unless_empty:
  assumes "good s" and "xs = [] \<Longrightarrow> P (qb_db s)" and "xs \<noteq> [] \<Longrightarrow> does (f xs) s P"
  shows "does (unless_empty f xs) s P"
  using assms by (cases "xs = []") (simp_all add: does_def unless_empty_def)

section \<open>Storing an extraction\<close>

text \<open>The database after an extraction has been stored.\<close>

definition stored_db :: "index_env \<Rightarrow> string \<Rightarrow> string \<Rightarrow> language \<Rightarrow> file_stats \<Rightarrow> extraction_result \<Rightarrow> db \<Rightarrow> db" where
  "stored_db env filePath content lang stats result d =
     (let d1 = (if getFileByPath filePath d = None then d else without_file filePath d);
          d2 = with_nodes (validNodes result) d1;
          d3 = fold sql_insert_edge (validEdges result) d2;
          d4 = with_refs (refsWithContext filePath lang result) d3
      in with_file (fileRecord env filePath (ix_hash env content) lang stats result) d4)"

lemma with_nodes_ids: "node_ids (with_nodes ns d) = node_ids d \<union> n_id ` set ns"
proof (induction ns arbitrary: d)
  case (Cons n ns)
  have "node_ids (sql_replace_node (nodeParams n) d) = insert (n_id n) (node_ids d)"
    by (auto simp: sql_replace_node_def sql_delete_nodes_def Let_def nodeParams_def)
  then show ?case
    using Cons [of "sql_replace_node (nodeParams n) d"] by (simp add: with_nodes_def)
qed (simp add: with_nodes_def)

lemma insert_edges_nodes [simp]: "t_nodes (fold sql_insert_edge es d) = t_nodes d"
  by (induction es arbitrary: d) (simp_all add: sql_insert_edge_def)

lemma with_refs_fields [simp]:
  "t_nodes (with_refs us d) = t_nodes d" "t_edges (with_refs us d) = t_edges d" "t_files (with_refs us d) = t_files d"
  unfolding with_refs_def by (induction us arbitrary: d) simp_all

lemma insert_edges_files [simp]: "t_files (fold sql_insert_edge es d) = t_files d"
  by (induction es arbitrary: d) (simp_all add: sql_insert_edge_def)

lemma with_nodes_files [simp]: "t_files (with_nodes ns d) = t_files d"
  unfolding with_nodes_def by (induction ns arbitrary: d) simp_all

lemma validNodes_complete: "list_all (\<lambda>n. \<not> node_incomplete n) (validNodes result)"
  by (simp add: validNodes_def list_all_iff)

lemma does_store:
  assumes "good s" and "map_option f_contentHash (getFileByPath filePath (qb_db s)) \<noteq> Some (ix_hash env content)"
  shows "does (storeExtractionResult env filePath content lang stats result) s
    (\<lambda>d. d = stored_db env filePath content lang stats result (qb_db s))"
proof -
  let ?d1 = "if getFileByPath filePath (qb_db s) = None then qb_db s else without_file filePath (qb_db s)"
  let ?d2 = "with_nodes (validNodes result) ?d1"
  let ?d3 = "fold sql_insert_edge (validEdges result) ?d2"
  let ?d4 = "with_refs (refsWithContext filePath lang result) ?d3"
  have ids: "n_id ` set (validNodes result) \<subseteq> node_ids ?d2"
    by (simp only: with_nodes_ids) simp
  have edges: "filter (edge_insertable ?d2) (validEdges result) = validEdges result"
    by (rule filter_True) (use ids in \<open>auto simp: validEdges_def Let_def edge_insertable_def\<close>)
  have refs: "list_all (\<lambda>u. u_fromNodeId u \<in> node_ids ?d3) (refsWithContext filePath lang result)"
    using ids by (auto simp: refsWithContext_def Let_def list_all_iff)
  let ?entry = "fileRecord env filePath (ix_hash env content) lang stats result"
  have step1: "does (if getFileByPath filePath (qb_db s) = None then (\<lambda>s. (Inr (), s)) else deleteFile filePath) s (\<lambda>d. d = ?d1)"
    using assms(1) does_nothing does_deleteFile by simp
  have step2: "does (unless_empty insertNodes (validNodes result)) s1 (\<lambda>d. d = ?d2)" if "good s1" "qb_db s1 = ?d1" for s1
    using does_insertNodes [OF that(1) validNodes_complete] that by (intro does_unless_empty) (simp_all add: with_nodes_def)
  have step3: "does (unless_empty insertEdges (validEdges result)) s2 (\<lambda>d. d = ?d3)" if "good s2" "qb_db s2 = ?d2" for s2
    using does_insertEdges [OF that(1), of "validEdges result"] that edges by (intro does_unless_empty) simp_all
  have step4: "does (unless_empty insertUnresolvedRefsBatch (refsWithContext filePath lang result)) s3 (\<lambda>d. d = ?d4)"
    if "good s3" "qb_db s3 = ?d3" for s3
    using does_insertRefs [OF that(1), of "refsWithContext filePath lang result"] that refs
    by (intro does_unless_empty) (simp_all add: with_refs_def)
  have step5: "does (for_each (\<lambda>step. step) [upsertFile ?entry]) s4 (\<lambda>d. d = with_file ?entry ?d4)"
    if "good s4" "qb_db s4 = ?d4" for s4
    using that by (intro does_steps_Cons [OF does_upsertFile]) (simp_all add: does_steps_Nil)
  have "does (for_each (\<lambda>step. step)
           [if getFileByPath filePath (qb_db s) = None then (\<lambda>s. (Inr (), s)) else deleteFile filePath,
            unless_empty insertNodes (validNodes result), unless_empty insertEdges (validEdges result),
            unless_empty insertUnresolvedRefsBatch (refsWithContext filePath lang result), upsertFile ?entry]) s
    (\<lambda>d. d = with_file ?entry ?d4)"
    by (rule does_steps_Cons [OF step1], rule does_steps_Cons [OF step2], assumption+,
        rule does_steps_Cons [OF step3], assumption+, rule does_steps_Cons [OF step4], assumption+, rule step5)
  then show ?thesis
    unfolding does_def storeExtractionResult_def stored_db_def Let_def if_not_P [OF assms(2)] .
qed

section \<open>File records\<close>

definition stored_record :: "file_record \<Rightarrow> file_record" where
  "stored_record f = f\<lparr>f_errors := stored_json (f_errors f)\<rparr>"

lemma getFile_with_file:
  "getFileByPath q (with_file f d) = (if q = f_path f then Some (stored_record f) else getFileByPath q d)"
proof -
  have path: "fr_path (fileParams f) = f_path f"
    by (simp add: fileParams_def)
  have "find (\<lambda>r. fr_path r = q) (map (\<lambda>r. if fr_path r = f_path f then fileParams f else r) rs) =
      (if q = f_path f \<and> q \<in> fr_path ` set rs then Some (fileParams f) else find (\<lambda>r. fr_path r = q) rs)" for rs
    using path by (induction rs) auto
  moreover have "find (\<lambda>r. fr_path r = q) (rs @ [fileParams f]) =
      (if q = f_path f \<and> q \<notin> fr_path ` set rs then Some (fileParams f) else find (\<lambda>r. fr_path r = q) rs)" for rs
    using path by (induction rs) auto
  ultimately show ?thesis
    by (auto simp: getFileByPath_def with_file_def rowToFileRecord_params stored_record_def)
qed

lemma getFile_without_file: "getFileByPath q (without_file p d) = (if q = p then None else getFileByPath q d)"
  by (simp add: getFileByPath_def without_file_def find_filter_other)

lemma getFile_same_files: "t_files d' = t_files d \<Longrightarrow> getFileByPath q d' = getFileByPath q d"
  by (simp add: getFileByPath_def)

lemma getFile_stored_db:
  "getFileByPath q (stored_db env filePath content lang stats result d) =
     (if q = filePath then Some (stored_record (fileRecord env filePath (ix_hash env content) lang stats result))
      else getFileByPath q d)"
proof -
  let ?d1 = "if getFileByPath filePath d = None then d else without_file filePath d"
  have "getFileByPath q (with_refs us (fold sql_insert_edge es (with_nodes ns ?d1))) = getFileByPath q ?d1" for us es ns
    by (rule getFile_same_files) simp
  moreover have "getFileByPath q ?d1 = getFileByPath q d" if "q \<noteq> filePath"
    using that by (simp add: getFile_without_file)
  moreover have "f_path (fileRecord env filePath (ix_hash env content) lang stats result) = filePath"
    by (simp add: fileRecord_def)
  ultimately show ?thesis
    by (simp add: stored_db_def Let_def getFile_with_file)
qed

abbreviation recorded :: "orchestrator \<Rightarrow> string \<Rightarrow> file_record option" where
  "recorded oc p \<equiv> getFileByPath p (qb_db (oc_queries oc))"

text \<open>
  A file that can be indexed: its path is inside the root and reads as the file there, it is no larger than
  the limit, and the extractor, whatever the frameworks, returns symbols or no errors.
\<close>

definition indexable :: "index_env \<Rightarrow> string \<Rightarrow> string \<Rightarrow> string \<Rightarrow> file_stats \<Rightarrow> bool" where
  "indexable env rootDir f content stats \<longleftrightarrow>
     (case validatePathWithinRoot (ix_platform env) (ix_realpath env) rootDir f of
        None \<Rightarrow> False
      | Some full \<Rightarrow> ix_read env full = Some content \<and> ix_stat env full = Some stats)
     \<and> ix_read env (path_join [rootDir, f]) = Some content \<and> ix_stat env (path_join [rootDir, f]) = Some stats
     \<and> sc_exists (ix_scan env) (path_join [rootDir, f]) \<and> isSourceFile f \<and> fs_size stats \<le> MAX_FILE_SIZE
     \<and> (\<forall>names. case ix_extract env f content (detectLanguage f (Some content)) names of
          Inl _ \<Rightarrow> False | Inr result \<Rightarrow> storable result)"

definition can_index :: "index_env \<Rightarrow> string \<Rightarrow> string \<Rightarrow> bool" where
  "can_index env rootDir f \<longleftrightarrow> (\<exists>content stats. indexable env rootDir f content stats)"

text \<open>The extractor throws on some content of the file, as it does when the parser runs out of memory.\<close>

definition extractor_throws :: "index_env \<Rightarrow> string \<Rightarrow> bool" where
  "extractor_throws env f \<longleftrightarrow> (\<exists>content names msg. ix_extract env f content (detectLanguage f (Some content)) names = Inl msg)"

text \<open>What an operation of the orchestrator leaves alone.\<close>

definition steady :: "index_env \<Rightarrow> orchestrator \<Rightarrow> bool" where
  "steady env oc \<longleftrightarrow> good (oc_queries oc) \<and> scanDirectory (ix_scan env) (oc_rootDir oc) \<noteq> None"

lemma storeExtractionResult_ix:
  assumes "good (oc_queries oc)"
  obtains oc' where "ix_store (storeExtractionResult env f content lang stats result) oc = (Inr (), oc')"
    and "good (oc_queries oc')" and "oc_rootDir oc' = oc_rootDir oc"
    and "\<And>q. q \<noteq> f \<Longrightarrow> recorded oc' q = recorded oc q"
    and "map_option f_contentHash (recorded oc' f) = Some (ix_hash env content)"
proof (cases "map_option f_contentHash (recorded oc f) = Some (ix_hash env content)")
  case True
  then have "ix_store (storeExtractionResult env f content lang stats result) oc = (Inr (), oc)"
    by (simp add: ix_store_def storeExtractionResult_def Let_def)
  then show ?thesis
    using that assms True by blast
next
  case False
  from does_store [OF assms this, of lang stats result] obtain s' where s':
    "storeExtractionResult env f content lang stats result (oc_queries oc) = (Inr (), s')" "good s'"
    "qb_db s' = stored_db env f content lang stats result (qb_db (oc_queries oc))"
    unfolding does_def by (cases "storeExtractionResult env f content lang stats result (oc_queries oc)") simp
  then show ?thesis
    using that [of "oc\<lparr>oc_queries := s'\<rparr>"]
    by (simp add: ix_store_def getFile_stored_db stored_record_def fileRecord_def)
qed

text \<open>The records after an attempt to index a file: only its own may differ, and it is current if the file can be indexed.\<close>

definition indexed_to :: "index_env \<Rightarrow> string list \<Rightarrow> orchestrator \<Rightarrow> orchestrator \<Rightarrow> bool" where
  "indexed_to env fs oc oc' \<longleftrightarrow>
     steady env oc' \<and> oc_rootDir oc' = oc_rootDir oc
     \<and> (\<forall>p. p \<notin> set fs \<longrightarrow> recorded oc' p = recorded oc p)
     \<and> (\<forall>f content stats. f \<in> set fs \<longrightarrow> indexable env (oc_rootDir oc) f content stats \<longrightarrow>
          map_option f_contentHash (recorded oc' f) = Some (ix_hash env content))"

text \<open>An operation that indexes files either does so, or ends with an exception of the extractor on one of them.\<close>

definition indexes :: "index_env \<Rightarrow> string list \<Rightarrow> orchestrator \<Rightarrow> (index_error + 'a) \<times> orchestrator \<Rightarrow> bool" where
  "indexes env fs oc res \<longleftrightarrow>
     (case res of
        (Inl e, oc') \<Rightarrow> steady env oc' \<and> oc_rootDir oc' = oc_rootDir oc \<and> (\<exists>f \<in> set fs. e = Extract_threw f \<and> extractor_throws env f
          \<and> \<not> can_index env (oc_rootDir oc) f)
      | (Inr _, oc') \<Rightarrow> indexed_to env fs oc oc')"

lemma steady_names:
  assumes "steady env oc"
  obtains names oc1 where "ensureDetectedFrameworks env None oc = (Inr names, oc1)" "oc_queries oc1 = oc_queries oc"
    "oc_rootDir oc1 = oc_rootDir oc" "steady env oc1"
  using assms by (cases "oc_frameworks oc") (auto simp: ensureDetectedFrameworks_def steady_def)

lemma left_alone:
  assumes "steady env oc" and "\<not> can_index env (oc_rootDir oc) f"
  shows "indexed_to env [f] oc oc"
  using assms by (auto simp: indexed_to_def can_index_def)

lemma indexFile_ix:
  assumes "steady env oc"
  shows "indexes env [f] oc (indexFile env f oc)"
proof (cases "validated env oc f")
  case None
  then have "\<not> can_index env (oc_rootDir oc) f"
    by (simp add: can_index_def indexable_def validated_def)
  then show ?thesis
    using None left_alone [OF assms] by (simp add: indexes_def indexFile_def)
next
  case full: (Some full)
  show ?thesis
  proof (cases "(ix_stat env full, ix_read env full)")
    case (Pair st rd)
    show ?thesis
    proof (cases "st = None \<or> rd = None")
      case True
      then have "\<not> can_index env (oc_rootDir oc) f"
        using full Pair by (auto simp: can_index_def indexable_def validated_def)
      then show ?thesis
        using full Pair True left_alone [OF assms] by (auto simp: indexes_def indexFile_def split: option.splits)
    next
      case False
      then obtain stats content where seen: "ix_stat env full = Some stats" "ix_read env full = Some content"
        using Pair by auto
      have this_file: "c = content \<and> s = stats" if "indexable env (oc_rootDir oc) f c s" for c s
        using that full seen by (simp add: indexable_def validated_def)
      let ?lang = "detectLanguage f (Some content)"
      show ?thesis
      proof (cases "MAX_FILE_SIZE < fs_size stats \<or> \<not> isLanguageSupported ?lang")
        case True
        then have "\<not> can_index env (oc_rootDir oc) f"
          using this_file indexed_files_have_language [of f "Some content"]
          by (fastforce simp: can_index_def indexable_def)
        then show ?thesis
          using full seen True left_alone [OF assms]
          by (auto simp: indexes_def indexFile_def indexFileWithContent_def Let_def)
      next
        case False
        obtain names oc1 where names: "ensureDetectedFrameworks env None oc = (Inr names, oc1)" "oc_queries oc1 = oc_queries oc"
            "oc_rootDir oc1 = oc_rootDir oc" "steady env oc1"
          using steady_names [OF assms] .
        have run: "indexFile env f oc =
            (case ix_extract env f content ?lang names of
               Inl _ \<Rightarrow> (Inl (Extract_threw f), oc1)
             | Inr result \<Rightarrow> (if storable result
                 then ix_then (ix_store (storeExtractionResult env f content ?lang stats result)) (\<lambda>_. ix_return result)
                 else ix_return result) oc1)"
          using full seen False names(1)
          by (simp add: indexFile_def indexFileWithContent_def ix_then_def Let_def)
        have blocked: "\<not> can_index env (oc_rootDir oc) f"
          if bad: "\<And>result. ix_extract env f content ?lang names = Inr result \<Longrightarrow> \<not> storable result"
        proof
          assume "can_index env (oc_rootDir oc) f"
          then obtain c s where i: "indexable env (oc_rootDir oc) f c s"
            by (auto simp: can_index_def)
          then have "case ix_extract env f content ?lang names of Inl _ \<Rightarrow> False | Inr result \<Rightarrow> storable result"
            using this_file [OF i] unfolding indexable_def by blast
          then show False
            using bad by (auto split: sum.splits)
        qed
        show ?thesis
        proof (cases "ix_extract env f content ?lang names")
          case (Inl msg)
          have "\<not> can_index env (oc_rootDir oc) f"
            using Inl by (intro blocked) simp
          moreover have "extractor_throws env f"
            using Inl by (auto simp: extractor_throws_def)
          ultimately show ?thesis
            using run Inl names by (simp add: indexes_def)
        next
          case (Inr result)
          show ?thesis
          proof (cases "storable result")
            case True
            have "good (oc_queries oc1)"
              using names(4) by (simp add: steady_def)
            then obtain oc' where oc': "ix_store (storeExtractionResult env f content ?lang stats result) oc1 = (Inr (), oc')"
                "good (oc_queries oc')" "oc_rootDir oc' = oc_rootDir oc1" "\<And>q. q \<noteq> f \<Longrightarrow> recorded oc' q = recorded oc1 q"
                "map_option f_contentHash (recorded oc' f) = Some (ix_hash env content)"
              using storeExtractionResult_ix [of oc1 env f content ?lang stats result] by blast
            then have "indexed_to env [f] oc oc'"
              using names this_file assms by (auto simp: indexed_to_def steady_def)
            then show ?thesis
              using run Inr True oc'(1) by (simp add: indexes_def ix_then_def ix_return_def)
          next
            case False
            then have "\<not> can_index env (oc_rootDir oc) f"
              using Inr by (intro blocked) simp
            then have "indexed_to env [f] oc oc1"
              using names by (auto simp: indexed_to_def can_index_def)
            then show ?thesis
              using run Inr False by (simp add: indexes_def ix_return_def)
          qed
        qed
      qed
    qed
  qed
qed

section \<open>Synchronisation\<close>

lemma tracked_in_getAllFiles:
  assumes "wf_db d"
  shows "tracked_in (getAllFiles d) p = getFileByPath p d"
proof -
  have keyed: "find (\<lambda>r. fr_path r = p) rs = Some r" if "distinct (map fr_path rs)" "r \<in> set rs" "fr_path r = p" for rs r
    using that by (induction rs) (auto simp: rev_image_eqI)
  have mapped: "find (\<lambda>f. f_path f = p) (map rowToFileRecord rs) = map_option rowToFileRecord (find (\<lambda>r. fr_path r = p) rs)" for rs
    by (induction rs) (simp_all add: rowToFileRecord_def)
  have none: "find (\<lambda>r. fr_path r = p) rs = None" if "p \<notin> fr_path ` set rs" for rs
    using that by (auto simp: find_None_iff)
  let ?sorted = "rev (sort_key fr_path (t_files d))"
  have d: "distinct (map fr_path (t_files d))" "distinct (map fr_path ?sorted)"
    using assms by (auto simp: wf_db_def distinct_map)
  have "find (\<lambda>r. fr_path r = p) ?sorted = find (\<lambda>r. fr_path r = p) (t_files d)"
  proof (cases "p \<in> fr_path ` set (t_files d)")
    case True
    then obtain r where r: "r \<in> set (t_files d)" "fr_path r = p"
      by auto
    then show ?thesis
      using keyed [OF d(1)] keyed [OF d(2), of r] by simp
  next
    case False
    then show ?thesis
      using none [of "t_files d"] none [of ?sorted] by simp
  qed
  moreover have "find (\<lambda>f. f_path f = p) (rev (map rowToFileRecord rs)) = map_option rowToFileRecord (find (\<lambda>r. fr_path r = p) (rev rs))" for rs
    by (simp add: rev_map mapped)
  ultimately show ?thesis
    by (simp add: tracked_in_def getAllFiles_def getFileByPath_def)
qed

lemma recorded_path: "getFileByPath p d = Some rec \<Longrightarrow> f_path rec = p"
  by (auto simp: getFileByPath_def rowToFileRecord_def find_Some_iff)

lemma tracked_paths: "f \<in> set (getAllFiles d) \<Longrightarrow> getFileByPath (f_path f) d \<noteq> None"
  by (auto simp: getAllFiles_def getFileByPath_def find_None_iff rowToFileRecord_def)

lemma tracked_member: "getFileByPath p d = Some rec \<Longrightarrow> rec \<in> set (getAllFiles d)"
  by (auto simp: getAllFiles_def getFileByPath_def find_Some_iff)

definition gone :: "index_env \<Rightarrow> string \<Rightarrow> string list \<Rightarrow> string \<Rightarrow> bool" where
  "gone env rootDir currentFiles p \<longleftrightarrow> p \<notin> set currentFiles \<or> \<not> sc_exists (ix_scan env) (path_join [rootDir, p])"

text \<open>The effect of the removals and that of indexing files, on the file records.\<close>

definition gone_removed :: "index_env \<Rightarrow> string list \<Rightarrow> file_record list \<Rightarrow> orchestrator \<Rightarrow> orchestrator \<Rightarrow> bool" where
  "gone_removed env currentFiles fs oc oc' \<longleftrightarrow>
     steady env oc' \<and> oc_rootDir oc' = oc_rootDir oc
     \<and> (\<forall>p. recorded oc' p = (if p \<in> f_path ` set fs \<and> gone env (oc_rootDir oc) currentFiles p then None else recorded oc p))
     \<and> (list_all (\<lambda>f. \<not> gone env (oc_rootDir oc) currentFiles (f_path f)) fs \<longrightarrow> oc' = oc)"

lemma remove_gone_ix:
  "steady env oc \<Longrightarrow>
    \<exists>n' oc'. ix_each (remove_gone env (oc_rootDir oc) currentFiles) fs n oc = (Inr n', oc') \<and> gone_removed env currentFiles fs oc oc'
      \<and> (list_all (\<lambda>f. \<not> gone env (oc_rootDir oc) currentFiles (f_path f)) fs \<longrightarrow> n' = n)"
proof (induction fs arbitrary: n oc)
  case (Cons f fs)
  show ?case
  proof (cases "gone env (oc_rootDir oc) currentFiles (f_path f)")
    case True
    from does_deleteFile [of "oc_queries oc" "f_path f"] Cons.prems obtain s' where s':
      "deleteFile (f_path f) (oc_queries oc) = (Inr (), s')" "good s'" "qb_db s' = without_file (f_path f) (qb_db (oc_queries oc))"
      by (cases "deleteFile (f_path f) (oc_queries oc)") (auto simp: does_def steady_def)
    let ?oc1 = "oc\<lparr>oc_queries := s'\<rparr>"
    have "steady env ?oc1"
      using Cons.prems s'(2) by (simp add: steady_def)
    from Cons.IH [OF this, of "n + 1"] obtain n' oc' where oc':
      "ix_each (remove_gone env (oc_rootDir oc) currentFiles) fs (n + 1) ?oc1 = (Inr n', oc')"
      "gone_removed env currentFiles fs ?oc1 oc'"
      by auto
    have "ix_each (remove_gone env (oc_rootDir oc) currentFiles) (f # fs) n oc = (Inr n', oc')"
      using True s'(1) oc'(1) by (simp add: remove_gone_def gone_def ix_then_def ix_store_def ix_return_def)
    moreover have "gone_removed env currentFiles (f # fs) oc oc'"
      using oc'(2) True s'(3) by (simp add: gone_removed_def getFile_without_file)
    ultimately show ?thesis
      using True by auto
  next
    case False
    from Cons.IH [OF Cons.prems, of n] obtain n' oc' where oc':
      "ix_each (remove_gone env (oc_rootDir oc) currentFiles) fs n oc = (Inr n', oc')" "gone_removed env currentFiles fs oc oc'"
      "list_all (\<lambda>f. \<not> gone env (oc_rootDir oc) currentFiles (f_path f)) fs \<longrightarrow> n' = n"
      by auto
    have "ix_each (remove_gone env (oc_rootDir oc) currentFiles) (f # fs) n oc = (Inr n', oc')"
      using False oc'(1) by (simp add: remove_gone_def gone_def ix_then_def ix_return_def)
    moreover have "gone_removed env currentFiles (f # fs) oc oc'"
      using oc'(2) False by (auto simp: gone_removed_def)
    ultimately show ?thesis
      using oc'(3) by auto
  qed
qed (simp add: ix_return_def gone_removed_def)

lemma indexed_to_Cons:
  assumes "indexed_to env [f] oc oc1" and "indexed_to env fs oc1 oc'"
  shows "indexed_to env (f # fs) oc oc'"
proof -
  have "map_option f_contentHash (recorded oc' g) = Some (ix_hash env c)"
    if "g \<in> set (f # fs)" "indexable env (oc_rootDir oc) g c st" for g c st
  proof (cases "g \<in> set fs")
    case True
    then show ?thesis
      using assms that(2) unfolding indexed_to_def by metis
  next
    case False
    then show ?thesis
      using assms that unfolding indexed_to_def by (metis list.set_intros(1) set_ConsD)
  qed
  then show ?thesis
    using assms by (simp add: indexed_to_def)
qed

lemma sync_one_ix: "steady env oc \<Longrightarrow> indexes env [f] oc (sync_one env f n oc)"
  using indexFile_ix [of env oc f]
  by (auto simp: sync_one_def ix_then_def ix_return_def indexes_def split: prod.splits sum.splits)

lemma sync_each_ix: "steady env oc \<Longrightarrow> indexes env fs oc (ix_each (sync_one env) fs n oc)"
proof (induction fs arbitrary: n oc)
  case (Cons f fs)
  have first: "indexes env [f] oc (sync_one env f n oc)"
    using Cons.prems by (rule sync_one_ix)
  show ?case
  proof (cases "sync_one env f n oc")
    case (Pair r oc1)
    show ?thesis
    proof (cases r)
      case (Inl e)
      then show ?thesis
        using Pair first by (simp add: ix_then_def indexes_def)
    next
      case (Inr n1)
      then have one: "indexed_to env [f] oc oc1"
        using Pair first by (simp add: indexes_def)
      then have "steady env oc1" "oc_rootDir oc1 = oc_rootDir oc"
        by (simp_all add: indexed_to_def)
      with Cons.IH [OF this(1), of n1] one show ?thesis
        using Pair Inr indexed_to_Cons [OF one] by (auto simp: ix_then_def indexes_def split: prod.splits sum.splits)
    qed
  qed
qed (simp add: ix_return_def indexes_def indexed_to_def)

text \<open>
  The record of a file is up to date when it has the hash of the content, or is the record of before with
  the size and the time that the file still has.
\<close>

definition up_to_date :: "index_env \<Rightarrow> db \<Rightarrow> string \<Rightarrow> file_stats \<Rightarrow> string \<Rightarrow> db \<Rightarrow> bool" where
  "up_to_date env before content stats f d \<longleftrightarrow>
     (case getFileByPath f d of
        None \<Rightarrow> False
      | Some rec \<Rightarrow> f_contentHash rec = ix_hash env content
          \<or> getFileByPath f before = Some rec \<and> f_size rec = fs_size stats \<and> f_modifiedAt rec = fs_mtimeMs stats)"

lemma classified:
  assumes "indexable env rootDir f content stats"
  shows "classify_file env rootDir t f =
    (case t of None \<Rightarrow> Added
     | Some r \<Rightarrow> if fs_size stats = f_size r \<and> fs_mtimeMs stats = f_modifiedAt r \<or> f_contentHash r = ix_hash env content
                 then Unchanged else Modified)"
  using assms by (simp add: classify_file_def indexable_def Let_def split: option.split)

lemma record_gone: "recorded oc f \<noteq> None \<longleftrightarrow> f \<in> f_path ` set (getAllFiles (qb_db (oc_queries oc)))"
  using tracked_member [of f "qb_db (oc_queries oc)"] recorded_path [of f "qb_db (oc_queries oc)"] tracked_paths
  by (cases "recorded oc f") force+

text \<open>What a synchronisation decides to do with a file.\<close>

definition decided :: "index_env \<Rightarrow> orchestrator \<Rightarrow> string \<Rightarrow> change" where
  "decided env oc f = classify_file env (oc_rootDir oc) (tracked_in (getAllFiles (qb_db (oc_queries oc))) f) f"

lemma decided_exact:
  assumes "steady env oc" and "indexable env (oc_rootDir oc) f content stats"
  shows "decided env oc f = (case recorded oc f of None \<Rightarrow> Added
     | Some r \<Rightarrow> if fs_size stats = f_size r \<and> fs_mtimeMs stats = f_modifiedAt r \<or> f_contentHash r = ix_hash env content
                 then Unchanged else Modified)"
proof -
  have "wf_db (qb_db (oc_queries oc))"
    using assms(1) by (simp add: steady_def good_def qb_inv_def)
  from tracked_in_getAllFiles [OF this] show ?thesis
    unfolding decided_def by (simp only: classified [OF assms(2)])
qed

lemma sync_eq:
  assumes "scanDirectory (ix_scan env) (oc_rootDir oc) = Some currentFiles"
    and "ix_each (remove_gone env (oc_rootDir oc) currentFiles) (getAllFiles (qb_db (oc_queries oc))) 0 oc = (Inr n1, oc1)"
    and "ix_each (sync_one env) (filter (\<lambda>f. decided env oc f \<noteq> Unchanged) currentFiles) 0 oc1 = (Inr n2, oc2)"
  shows "sync env oc =
    (Inr \<lparr>sy_filesChecked = length currentFiles, sy_filesAdded = length (filter (\<lambda>f. decided env oc f = Added) currentFiles),
       sy_filesModified = length (filter (\<lambda>f. decided env oc f = Modified) currentFiles), sy_filesRemoved = n1, sy_nodesUpdated = n2,
       sy_changedFilePaths = (case filter (\<lambda>f. decided env oc f \<noteq> Unchanged) currentFiles of [] \<Rightarrow> None | fs \<Rightarrow> Some fs)\<rparr>, oc2)"
  using assms by (simp add: sync_def ix_then_def ix_return_def Let_def decided_def split: list.split)

text \<open>What a synchronisation does: it ends with an exception of the extractor, or the records are current.\<close>

definition synced_to :: "index_env \<Rightarrow> string list \<Rightarrow> orchestrator \<Rightarrow> orchestrator \<Rightarrow> bool" where
  "synced_to env currentFiles oc oc' \<longleftrightarrow>
     (\<forall>f. f \<notin> set currentFiles \<longrightarrow> recorded oc' f = None)
     \<and> (\<forall>f \<in> set currentFiles. \<forall>content stats. indexable env (oc_rootDir oc) f content stats \<longrightarrow>
          up_to_date env (qb_db (oc_queries oc)) content stats f (qb_db (oc_queries oc')))"

lemma sync_effect:
  assumes "steady env oc" and scan: "scanDirectory (ix_scan env) (oc_rootDir oc) = Some currentFiles"
  shows "case sync env oc of (r, oc') \<Rightarrow> steady env oc' \<and> oc_rootDir oc' = oc_rootDir oc
    \<and> (case r of
         Inl e \<Rightarrow> \<exists>f \<in> set currentFiles. e = Extract_threw f \<and> extractor_throws env f \<and> \<not> can_index env (oc_rootDir oc) f
       | Inr _ \<Rightarrow> synced_to env currentFiles oc oc')"
proof -
  let ?d = "qb_db (oc_queries oc)"
  define todo where "todo = filter (\<lambda>f. decided env oc f \<noteq> Unchanged) currentFiles"
  obtain n1 oc1 where oc1: "ix_each (remove_gone env (oc_rootDir oc) currentFiles) (getAllFiles ?d) 0 oc = (Inr n1, oc1)"
      "gone_removed env currentFiles (getAllFiles ?d) oc oc1"
    using remove_gone_ix [OF assms(1)] by blast
  then have oc1': "steady env oc1" "oc_rootDir oc1 = oc_rootDir oc"
    by (simp_all add: gone_removed_def)
  have kept: "recorded oc1 f = (if gone env (oc_rootDir oc) currentFiles f then None else recorded oc f)" for f
    using oc1(2) record_gone [of f oc] by (auto simp: gone_removed_def)
  obtain r2 oc2 where run2: "ix_each (sync_one env) todo 0 oc1 = (r2, oc2)"
    by (cases "ix_each (sync_one env) todo 0 oc1")
  have each: "indexes env todo oc1 (r2, oc2)"
    using sync_each_ix [OF oc1'(1), of todo 0] run2 by simp
  show ?thesis
  proof (cases r2)
    case (Inl e)
    then have "sync env oc = (Inl e, oc2)"
      using scan oc1(1) run2 by (simp add: sync_def ix_then_def Let_def decided_def todo_def)
    moreover have "set todo \<subseteq> set currentFiles"
      by (auto simp: todo_def)
    ultimately show ?thesis
      using each Inl oc1' by (auto simp: indexes_def)
  next
    case (Inr n2)
    then have oc2: "indexed_to env todo oc1 oc2"
      using each by (simp add: indexes_def)
    have "up_to_date env ?d content stats f (qb_db (oc_queries oc2))"
      if f: "f \<in> set currentFiles" "indexable env (oc_rootDir oc) f content stats" for f content stats
    proof (cases "f \<in> set todo")
      case True
      then have "map_option f_contentHash (recorded oc2 f) = Some (ix_hash env content)"
        using oc2 f(2) oc1'(2) unfolding indexed_to_def by metis
      then show ?thesis
        by (auto simp: up_to_date_def split: option.split)
    next
      case False
      have "\<not> gone env (oc_rootDir oc) currentFiles f"
        using f by (simp add: gone_def indexable_def)
      then have "recorded oc2 f = recorded oc f" "decided env oc f = Unchanged"
        using False oc2 kept f(1) by (auto simp: indexed_to_def todo_def)
      then show ?thesis
        using decided_exact [OF assms(1) f(2)] by (auto simp: up_to_date_def split: option.splits if_splits)
    qed
    moreover have "recorded oc2 f = None" if "f \<notin> set currentFiles" for f
      using oc2 kept that by (auto simp: indexed_to_def todo_def gone_def)
    ultimately have "synced_to env currentFiles oc oc2"
      by (simp add: synced_to_def)
    then show ?thesis
      using sync_eq [OF scan oc1(1) run2 [unfolded todo_def Inr]] oc2 oc1'(2) by (simp add: indexed_to_def)
  qed
qed

text \<open>
  A synchronisation of files that can all be indexed does not fail; exactly these files are recorded, and the
  record of each is up to date.
\<close>

lemma sync_brings_up_to_date:
  assumes "good (oc_queries oc)" and "scanDirectory (ix_scan env) (oc_rootDir oc) = Some currentFiles"
    and "\<And>f. f \<in> set currentFiles \<Longrightarrow> indexable env (oc_rootDir oc) f (cont f) (st f)"
  shows "\<exists>res oc'. sync env oc = (Inr res, oc') \<and> good (oc_queries oc')
    \<and> (\<forall>f. (recorded oc' f \<noteq> None) = (f \<in> set currentFiles))
    \<and> (\<forall>f \<in> set currentFiles. up_to_date env (qb_db (oc_queries oc)) (cont f) (st f) f (qb_db (oc_queries oc')))"
proof -
  have "steady env oc"
    using assms(1,2) by (simp add: steady_def)
  from sync_effect [OF this assms(2)] obtain res oc' where oc': "sync env oc = (Inr res, oc')" "steady env oc'"
      "synced_to env currentFiles oc oc'"
    using assms(3) by (fastforce simp: can_index_def split: prod.splits sum.splits)
  then show ?thesis
    using assms(3) by (fastforce simp: synced_to_def steady_def up_to_date_def split: option.splits)
qed

text \<open>
  C6: synchronising twice. When the first synchronisation has ended without an exception, the second, of the same
  files, indexes again none of the files that can be indexed (those inside the root, readable, within the size
  limit, from which the extractor gets symbols or no errors), and throws on none of them; and when all files can
  be indexed, it does nothing: it indexes and removes no file and leaves the store as it is.
\<close>

theorem sync_idempotent:
  assumes "good (oc_queries oc)" and "scanDirectory (ix_scan env) (oc_rootDir oc) = Some currentFiles"
    and "sync env oc = (Inr r, oc')"
  shows "(case fst (sync env oc') of
       Inl e \<Rightarrow> \<exists>f \<in> set currentFiles. e = Extract_threw f \<and> \<not> can_index env (oc_rootDir oc) f
     | Inr res \<Rightarrow> case sy_changedFilePaths res of None \<Rightarrow> True
         | Some fs \<Rightarrow> set fs \<subseteq> {f \<in> set currentFiles. \<not> can_index env (oc_rootDir oc) f})
    \<and> (\<not> list_all (can_index env (oc_rootDir oc)) currentFiles \<or> sync env oc' =
        (Inr \<lparr>sy_filesChecked = length currentFiles, sy_filesAdded = 0, sy_filesModified = 0, sy_filesRemoved = 0,
           sy_nodesUpdated = 0, sy_changedFilePaths = None\<rparr>, oc'))"
proof -
  have "steady env oc"
    using assms(1,2) by (simp add: steady_def)
  from sync_effect [OF this assms(2)] assms(3) have oc': "steady env oc'" "oc_rootDir oc' = oc_rootDir oc"
      "synced_to env currentFiles oc oc'"
    by auto
  have unchanged: "decided env oc' f = Unchanged" if f: "f \<in> set currentFiles" "can_index env (oc_rootDir oc) f" for f
  proof -
    from f(2) obtain content stats where i: "indexable env (oc_rootDir oc') f content stats"
      using oc'(2) by (auto simp: can_index_def)
    then have "up_to_date env (qb_db (oc_queries oc)) content stats f (qb_db (oc_queries oc'))"
      using oc'(2,3) f(1) by (auto simp: synced_to_def)
    with decided_exact [OF oc'(1) i] show ?thesis
      by (auto simp: up_to_date_def split: option.splits)
  qed
  have scan: "scanDirectory (ix_scan env) (oc_rootDir oc') = Some currentFiles"
    using assms(2) oc'(2) by simp
  have changed: "sy_changedFilePaths res = (case filter (\<lambda>f. decided env oc' f \<noteq> Unchanged) currentFiles of [] \<Rightarrow> None | fs \<Rightarrow> Some fs)"
    if "fst (sync env oc') = Inr res" for res
    using that scan by (auto simp: sync_def ix_then_def ix_return_def Let_def decided_def split: prod.splits sum.splits list.splits)
  have "case fst (sync env oc') of
       Inl e \<Rightarrow> \<exists>f \<in> set currentFiles. e = Extract_threw f \<and> \<not> can_index env (oc_rootDir oc) f
     | Inr res \<Rightarrow> case sy_changedFilePaths res of None \<Rightarrow> True
         | Some fs \<Rightarrow> set fs \<subseteq> {f \<in> set currentFiles. \<not> can_index env (oc_rootDir oc) f}"
  proof (cases "fst (sync env oc')")
    case (Inl e)
    then show ?thesis
      using sync_effect [OF oc'(1) scan] oc'(2) by (auto split: prod.splits)
  next
    case (Inr res)
    moreover have "set (filter (\<lambda>f. decided env oc' f \<noteq> Unchanged) currentFiles) \<subseteq> {f \<in> set currentFiles. \<not> can_index env (oc_rootDir oc) f}"
      using unchanged by auto
    ultimately show ?thesis
      using changed [OF Inr] Inr by (cases "filter (\<lambda>f. decided env oc' f \<noteq> Unchanged) currentFiles") (simp_all only: list.case option.case sum.case)
  qed
  moreover have "sync env oc' =
        (Inr \<lparr>sy_filesChecked = length currentFiles, sy_filesAdded = 0, sy_filesModified = 0, sy_filesRemoved = 0,
           sy_nodesUpdated = 0, sy_changedFilePaths = None\<rparr>, oc')" if all: "list_all (can_index env (oc_rootDir oc)) currentFiles"
  proof -
    have none: "filter (\<lambda>f. decided env oc' f \<noteq> Unchanged) currentFiles = []"
        "filter (\<lambda>f. decided env oc' f = Added) currentFiles = []" "filter (\<lambda>f. decided env oc' f = Modified) currentFiles = []"
      using unchanged all by (auto simp: filter_empty_conv list_all_iff)
    have "\<not> gone env (oc_rootDir oc') currentFiles f" if "recorded oc' f \<noteq> None" for f
      using that all oc'(2,3) by (fastforce simp: gone_def synced_to_def list_all_iff can_index_def indexable_def)
    then have "list_all (\<lambda>f. \<not> gone env (oc_rootDir oc') currentFiles (f_path f)) (getAllFiles (qb_db (oc_queries oc')))"
      using tracked_paths by (auto simp: list_all_iff)
    with remove_gone_ix [OF oc'(1), of currentFiles "getAllFiles (qb_db (oc_queries oc'))" 0]
    have "ix_each (remove_gone env (oc_rootDir oc') currentFiles) (getAllFiles (qb_db (oc_queries oc'))) 0 oc' = (Inr 0, oc')"
      by (auto simp: gone_removed_def)
    from sync_eq [OF scan this, where ?n2.0 = 0 and ?oc2.0 = oc'] show ?thesis
      using none by (simp add: ix_return_def)
  qed
  ultimately show ?thesis
    by blast
qed

section \<open>Indexing lists of files\<close>

text \<open>
  An operation that ends with a good store in the same directory, and with an error only if the path it
  asks for is missing.
\<close>

definition ends_well :: "index_env \<Rightarrow> 'a ix \<Rightarrow> orchestrator \<Rightarrow> ('a \<Rightarrow> bool) \<Rightarrow> bool" where
  "ends_well env m oc P \<longleftrightarrow>
     (case m oc of (r, oc') \<Rightarrow> good (oc_queries oc') \<and> oc_rootDir oc' = oc_rootDir oc
       \<and> (case r of Inl e \<Rightarrow> (case e of Stat_threw f \<Rightarrow> ix_stat env (path_join [oc_rootDir oc, f]) = None | _ \<Rightarrow> False)
          | Inr x \<Rightarrow> P x))"

lemma ends_well_return: "good (oc_queries oc) \<Longrightarrow> P x \<Longrightarrow> ends_well env (ix_return x) oc P"
  by (simp add: ends_well_def ix_return_def)

lemma ends_well_then:
  assumes "ends_well env m oc P"
    and "\<And>x oc'. P x \<Longrightarrow> good (oc_queries oc') \<Longrightarrow> oc_rootDir oc' = oc_rootDir oc \<Longrightarrow> ends_well env (f x) oc' Q"
  shows "ends_well env (ix_then m f) oc Q"
proof (cases "m oc")
  case (Pair r oc1)
  show ?thesis
  proof (cases r)
    case (Inr x)
    with Pair assms(1) have "P x" "good (oc_queries oc1)" "oc_rootDir oc1 = oc_rootDir oc"
      by (simp_all add: ends_well_def)
    from assms(2) [OF this] this(3) Pair Inr show ?thesis
      by (auto simp: ends_well_def ix_then_def split: prod.splits sum.splits index_error.splits)
  qed (use Pair assms(1) in \<open>simp add: ends_well_def ix_then_def\<close>)
qed

lemma ends_well_mono: "ends_well env m oc P \<Longrightarrow> (\<And>x. P x \<Longrightarrow> Q x) \<Longrightarrow> ends_well env m oc Q"
  by (auto simp: ends_well_def split: prod.splits sum.splits)

lemma ends_well_store:
  assumes "good (oc_queries oc)"
  shows "ends_well env (ix_store (storeExtractionResult env f content lang stats result)) oc (\<lambda>_. True)"
  by (rule storeExtractionResult_ix [OF assms, of env f content lang stats result]) (simp add: ends_well_def)

subsection \<open>What the files count as\<close>

text \<open>
  The outcome of a file in the main loop, as a function of the environment alone: what can be indexed, what
  has neither symbols nor errors, what fails.
\<close>

datatype outcome = Out_indexed | Out_skipped | Out_errored

definition result_outcome :: "bool \<Rightarrow> extraction_result \<Rightarrow> outcome" where
  "result_outcome fileLevel result =
     (if xr_nodes result \<noteq> [] then Out_indexed
      else if list_ex xe_isError (xr_errors result) then Out_errored
      else if fileLevel then Out_indexed else Out_skipped)"

definition within_root :: "index_env \<Rightarrow> string \<Rightarrow> string \<Rightarrow> string option" where
  "within_root env rootDir f = validatePathWithinRoot (ix_platform env) (ix_realpath env) rootDir f"

definition file_outcome :: "index_env \<Rightarrow> string list \<Rightarrow> string \<Rightarrow> string \<Rightarrow> outcome" where
  "file_outcome env names rootDir f =
     (case within_root env rootDir f of
        None \<Rightarrow> Out_errored
      | Some full \<Rightarrow>
          (case (ix_read env full, ix_stat env full) of
             (Some content, Some stats) \<Rightarrow>
               if MAX_FILE_SIZE < fs_size stats then Out_skipped
               else (case requestParse env 0 f content names of
                   Inl _ \<Rightarrow> Out_errored
                 | Inr result \<Rightarrow> result_outcome (isFileLevelOnlyLanguage (detectLanguage f (Some content))) result)
           | _ \<Rightarrow> Out_errored))"

text \<open>The reports of a crash of the parser that a file adds to the errors, which the retry pass takes up.\<close>

definition crash_reports :: "index_env \<Rightarrow> string list \<Rightarrow> string \<Rightarrow> string \<Rightarrow> extraction_error list" where
  "crash_reports env names rootDir f =
     (case within_root env rootDir f of
        None \<Rightarrow> []
      | Some full \<Rightarrow>
          (case (ix_read env full, ix_stat env full) of
             (Some content, Some stats) \<Rightarrow>
               if MAX_FILE_SIZE < fs_size stats then []
               else filter retryable (case requestParse env 0 f content names of
                   Inl msg \<Rightarrow> xr_errors (failed f msg True ''parse_error'')
                 | Inr result \<Rightarrow> map (with_path f) (xr_errors result))
           | _ \<Rightarrow> []))"

text \<open>The request that an attempt makes for the file of a report, and what becomes of the report.\<close>

definition retried :: "index_env \<Rightarrow> string list \<Rightarrow> string \<Rightarrow> nat \<Rightarrow> extraction_error \<Rightarrow> (string + extraction_result) option" where
  "retried env names rootDir attempt e =
     (let f = the (xe_filePath e) in
      case within_root env rootDir f of
        None \<Rightarrow> None
      | Some full \<Rightarrow> map_option (\<lambda>content. requestParse env attempt f (if attempt = 1 then content else stripped content) names)
          (ix_read env full))"

definition crashes_again :: "index_env \<Rightarrow> string list \<Rightarrow> string \<Rightarrow> nat \<Rightarrow> extraction_error \<Rightarrow> bool" where
  "crashes_again env names rootDir attempt e \<longleftrightarrow> (case retried env names rootDir attempt e of Some (Inl _) \<Rightarrow> True | _ \<Rightarrow> False)"

definition parsed_again :: "index_env \<Rightarrow> string list \<Rightarrow> string \<Rightarrow> nat \<Rightarrow> extraction_error \<Rightarrow> bool" where
  "parsed_again env names rootDir attempt e \<longleftrightarrow>
     (case retried env names rootDir attempt e of Some (Inr result) \<Rightarrow> storable result | _ \<Rightarrow> False)"

definition recovers :: "index_env \<Rightarrow> string list \<Rightarrow> string \<Rightarrow> extraction_error \<Rightarrow> bool" where
  "recovers env names rootDir e \<longleftrightarrow>
     parsed_again env names rootDir 1 e \<or> crashes_again env names rootDir 1 e \<and> parsed_again env names rootDir 2 e"

subsection \<open>The counts\<close>

definition of_outcome :: "outcome \<Rightarrow> outcome list \<Rightarrow> int" where
  "of_outcome x os = int (length (filter (\<lambda>y. y = x) os))"

lemma of_outcome_simps [simp]:
  "of_outcome x [] = 0" "of_outcome x (y # os) = (if y = x then 1 else 0) + of_outcome x os"
  by (simp_all add: of_outcome_def)

lemma of_outcome_total: "of_outcome Out_indexed os + of_outcome Out_skipped os + of_outcome Out_errored os = int (length os)"
proof (induction os)
  case (Cons x os)
  then show ?case
    by (cases x) simp_all
qed simp

text \<open>The counts grow by these outcomes, the crash reports by these.\<close>

definition tallies :: "outcome list \<Rightarrow> extraction_error list \<Rightarrow> index_result \<Rightarrow> index_result \<Rightarrow> bool" where
  "tallies os cs r r' \<longleftrightarrow>
     ir_filesIndexed r' = ir_filesIndexed r + of_outcome Out_indexed os
     \<and> ir_filesSkipped r' = ir_filesSkipped r + of_outcome Out_skipped os
     \<and> ir_filesErrored r' = ir_filesErrored r + of_outcome Out_errored os
     \<and> filter retryable (ir_errors r') = filter retryable (ir_errors r) @ cs"

lemma tallies_none: "tallies [] [] r r"
  by (simp add: tallies_def)

lemma tallies_Cons: "tallies [x] cs r r1 \<Longrightarrow> tallies os cs' r1 r2 \<Longrightarrow> tallies (x # os) (cs @ cs') r r2"
  by (simp add: tallies_def)

text \<open>So many files have moved from failed to indexed.\<close>

definition shifted :: "nat \<Rightarrow> index_result \<Rightarrow> index_result \<Rightarrow> bool" where
  "shifted m r r' \<longleftrightarrow>
     ir_filesIndexed r' = ir_filesIndexed r + int m \<and> ir_filesSkipped r' = ir_filesSkipped r
     \<and> ir_filesErrored r' = ir_filesErrored r - int m"

lemma shifted_none: "shifted 0 r r"
  by (simp add: shifted_def)

lemma shifted_add: "shifted m r r1 \<Longrightarrow> shifted n r1 r2 \<Longrightarrow> shifted (m + n) r r2"
  by (simp add: shifted_def)

lemma shifted_retried: "shifted 1 r (count_retried e result r)"
  by (simp add: shifted_def count_retried_def count_indexed_def)

lemma tallies_result: "tallies [result_outcome fileLevel result] (filter retryable es) r (count_result fileLevel result (add_errors es r))"
  by (simp add: tallies_def result_outcome_def count_result_def count_indexed_def add_errors_def)

lemma tallies_error:
  "tallies [Out_errored] (filter retryable (xr_errors (failed f msg True code))) r (count_error f msg code r)"
  by (simp add: tallies_def count_error_def add_errors_def)

lemma not_retryable_code: "code \<noteq> ''parse_error'' \<Longrightarrow> filter retryable (xr_errors (failed f msg isError code)) = []"
  by (simp add: failed_def retryable_def)

lemma tallies_skipped: "tallies [Out_skipped] [] r (count_skipped f n r)"
  using not_retryable_code [of "''size_exceeded''" f "size_message n" False]
  by (simp add: tallies_def count_skipped_def add_errors_def)

lemma tallies_unread: "tallies [Out_errored] [] r (count_error f msg ''read_error'' r)"
  using tallies_error [of f msg "''read_error''" r] by (simp add: not_retryable_code)

subsection \<open>The main loop\<close>

lemma ends_well_bulk:
  assumes "good (oc_queries oc)"
  shows "ends_well env (index_in_bulk env names f r) oc
    (tallies [file_outcome env names (oc_rootDir oc) f] (crash_reports env names (oc_rootDir oc) f) r)"
proof -
  have stored: "ends_well env (ix_then (if storable result then ix_store (storeExtractionResult env f content lang stats result) else ix_return ())
      (\<lambda>_. ix_return (count_result b result (add_errors es r)))) oc (tallies [result_outcome b result] (filter retryable es) r)"
    for result content lang stats b es
  proof (rule ends_well_then [where P = "\<lambda>_. True"])
    show "ends_well env (if storable result then ix_store (storeExtractionResult env f content lang stats result) else ix_return ()) oc (\<lambda>_. True)"
      using assms by (simp add: ends_well_store ends_well_return)
  qed (simp add: ends_well_return tallies_result)
  show ?thesis
  proof (cases "validated env oc f")
    case None
    then show ?thesis
      using assms by (simp add: ends_well_def index_in_bulk_def file_outcome_def crash_reports_def within_root_def validated_def tallies_unread)
  next
    case full: (Some full)
    then have inside: "within_root env (oc_rootDir oc) f = Some full"
      by (simp add: within_root_def validated_def)
    show ?thesis
    proof (cases "\<exists>content stats. ix_read env full = Some content \<and> ix_stat env full = Some stats \<and> fs_size stats \<le> MAX_FILE_SIZE")
      case True
      then obtain content stats where seen: "ix_read env full = Some content" "ix_stat env full = Some stats" "\<not> MAX_FILE_SIZE < fs_size stats"
        by fastforce
      show ?thesis
      proof (cases "requestParse env 0 f content names")
        case (Inl msg)
        with full inside seen have "index_in_bulk env names f r oc = ix_return (count_error f msg ''parse_error'' r) oc"
          "file_outcome env names (oc_rootDir oc) f = Out_errored"
          "crash_reports env names (oc_rootDir oc) f = filter retryable (xr_errors (failed f msg True ''parse_error''))"
          by (simp_all add: index_in_bulk_def file_outcome_def crash_reports_def ix_return_def)
        then show ?thesis
          using assms tallies_error [of f msg "''parse_error''" r] by (simp add: ends_well_def ix_return_def)
      next
        case (Inr result)
        let ?lang = "detectLanguage f (Some content)"
        from Inr full inside seen have "index_in_bulk env names f r oc =
            ix_then (if storable result then ix_store (storeExtractionResult env f content ?lang stats result) else ix_return ())
              (\<lambda>_. ix_return (count_result (isFileLevelOnlyLanguage ?lang) result (add_errors (map (with_path f) (xr_errors result)) r))) oc"
          "file_outcome env names (oc_rootDir oc) f = result_outcome (isFileLevelOnlyLanguage ?lang) result"
          "crash_reports env names (oc_rootDir oc) f = filter retryable (map (with_path f) (xr_errors result))"
          by (simp_all add: index_in_bulk_def file_outcome_def crash_reports_def Let_def)
        then show ?thesis
          using stored [of result content ?lang stats] by (simp only: ends_well_def)
      qed
    next
      case False
      then show ?thesis
        using assms full inside tallies_unread tallies_skipped
        by (auto simp: ends_well_def index_in_bulk_def file_outcome_def crash_reports_def not_le split: option.split)
    qed
  qed
qed

definition looped :: "index_env \<Rightarrow> string list \<Rightarrow> string \<Rightarrow> string list \<Rightarrow> index_result \<Rightarrow> bool \<times> index_result \<Rightarrow> bool" where
  "looped env names rootDir fs r res \<longleftrightarrow>
     (\<exists>n \<le> length fs. tallies (map (file_outcome env names rootDir) (take n fs))
        (concat (map (crash_reports env names rootDir) (take n fs))) r (snd res)
      \<and> (if fst res then \<exists>p. ix_aborted env p else n = length fs))"

lemma ends_well_loop:
  "good (oc_queries oc) \<Longrightarrow> ends_well env (index_loop env names i fs r) oc (looped env names (oc_rootDir oc) fs r)"
proof (induction fs arbitrary: i r oc)
  case Nil
  then show ?case
    by (simp add: ends_well_return looped_def tallies_none)
next
  case (Cons f fs)
  show ?case
  proof (cases "(i mod FILE_IO_BATCH_SIZE = 0 \<and> ix_aborted env (Poll_batch i)) \<or> ix_aborted env (Poll_file i)")
    case True
    then have "looped env names (oc_rootDir oc) (f # fs) r (True, r)"
      unfolding looped_def by (intro exI [of _ 0]) (auto simp: tallies_none)
    with True Cons.prems show ?thesis
      by (simp only: index_loop.simps if_True ends_well_return)
  next
    case False
    have "ends_well env (ix_then (index_in_bulk env names f r) (index_loop env names (Suc i) fs)) oc (looped env names (oc_rootDir oc) (f # fs) r)"
    proof (rule ends_well_then [OF ends_well_bulk [OF Cons.prems]])
      fix r1 and oc1 :: orchestrator
      assume r1: "tallies [file_outcome env names (oc_rootDir oc) f] (crash_reports env names (oc_rootDir oc) f) r r1"
        "good (oc_queries oc1)" "oc_rootDir oc1 = oc_rootDir oc"
      have more: "looped env names (oc_rootDir oc) (f # fs) r res" if "looped env names (oc_rootDir oc) fs r1 res" for res
      proof -
        from that obtain n where "n \<le> length fs" and n: "tallies (map (file_outcome env names (oc_rootDir oc)) (take n fs))
            (concat (map (crash_reports env names (oc_rootDir oc)) (take n fs))) r1 (snd res)"
            "if fst res then \<exists>p. ix_aborted env p else n = length fs"
          unfolding looped_def by blast
        then show ?thesis
          using tallies_Cons [OF r1(1) n(1)] unfolding looped_def by (intro exI [of _ "Suc n"]) simp
      qed
      show "ends_well env (index_loop env names (Suc i) fs r1) oc1 (looped env names (oc_rootDir oc) (f # fs) r)"
        using Cons.IH [OF r1(2), of "Suc i" r1] r1(3) by (intro ends_well_mono [OF _ more]) simp_all
    qed
    then show ?thesis
      by (simp only: index_loop.simps False if_False)
  qed
qed

subsection \<open>The retries\<close>

lemma ends_well_retry:
  assumes "good (oc_queries oc)"
  shows "ends_well env (retry_one env names attempt e r) oc
    (\<lambda>(again, r'). again = crashes_again env names (oc_rootDir oc) attempt e
      \<and> shifted (if parsed_again env names (oc_rootDir oc) attempt e then 1 else 0) r r')"
proof -
  have stored: "ends_well env (ix_then (ix_store (storeExtractionResult env f content lang stats result))
      (\<lambda>_. ix_return (False, count_retried e result r))) oc (\<lambda>(again, r'). \<not> again \<and> shifted 1 r r')" for f result content lang stats
    using assms by (intro ends_well_then [OF ends_well_store]) (auto intro!: ends_well_return shifted_retried [unfolded One_nat_def])
  let ?f = "the (xe_filePath e)"
  show ?thesis
  proof (cases "\<exists>full content. validated env oc ?f = Some full \<and> ix_read env full = Some content")
    case True
    then obtain full content where seen: "validated env oc ?f = Some full" "ix_read env full = Some content"
      by blast
    let ?again = "requestParse env attempt ?f (if attempt = 1 then content else stripped content) names"
    have request: "retried env names (oc_rootDir oc) attempt e = Some ?again"
      using seen by (simp add: retried_def within_root_def validated_def Let_def)
    show ?thesis
    proof (cases ?again)
      case (Inl msg)
      with request seen have "retry_one env names attempt e r oc = (Inr (True, r), oc)"
        "crashes_again env names (oc_rootDir oc) attempt e" "\<not> parsed_again env names (oc_rootDir oc) attempt e"
        by (simp_all add: retry_one_def Let_def crashes_again_def parsed_again_def)
      then show ?thesis
        using assms by (simp add: ends_well_def shifted_none)
    next
      case (Inr result)
      with request have known: "\<not> crashes_again env names (oc_rootDir oc) attempt e"
        "parsed_again env names (oc_rootDir oc) attempt e = storable result"
        by (simp_all add: crashes_again_def parsed_again_def)
      show ?thesis
      proof (cases "storable result")
        case True
        with Inr seen have "retry_one env names attempt e r oc =
            (case ix_stat env (path_join [oc_rootDir oc, ?f]) of
               None \<Rightarrow> (Inl (Stat_threw ?f), oc)
             | Some stats \<Rightarrow>
                 ix_then (ix_store (storeExtractionResult env ?f content (detectLanguage ?f (Some content)) stats result))
                   (\<lambda>_. ix_return (False, count_retried e result r)) oc)"
          by (simp add: retry_one_def Let_def)
        then show ?thesis
          using known True assms stored [of ?f content "detectLanguage ?f (Some content)" _ result]
          by (auto simp: ends_well_def split: option.split)
      next
        case False
        with Inr seen have "retry_one env names attempt e r oc = (Inr (False, r), oc)"
          by (simp add: retry_one_def Let_def)
        then show ?thesis
          using known False assms by (simp add: ends_well_def shifted_none)
      qed
    qed
  next
    case False
    then have "retried env names (oc_rootDir oc) attempt e = None" "retry_one env names attempt e r oc = (Inr (False, r), oc)"
      by (auto simp: retried_def within_root_def validated_def retry_one_def Let_def split: option.split)
    then show ?thesis
      using assms by (simp add: ends_well_def shifted_none crashes_again_def parsed_again_def)
  qed
qed

definition retried_all :: "index_env \<Rightarrow> string list \<Rightarrow> string \<Rightarrow> nat \<Rightarrow> extraction_error list \<Rightarrow> extraction_error list \<times> index_result
    \<Rightarrow> extraction_error list \<times> index_result \<Rightarrow> bool" where
  "retried_all env names rootDir attempt es acc res \<longleftrightarrow>
     (\<exists>n \<le> length es. fst res = fst acc @ filter (crashes_again env names rootDir attempt) (take n es)
        \<and> shifted (length (filter (parsed_again env names rootDir attempt) (take n es))) (snd acc) (snd res)
        \<and> (n = length es \<or> (\<exists>p. ix_aborted env p)))"

lemma ends_well_retry_loop:
  "good (oc_queries oc) \<Longrightarrow>
    ends_well env (retry_loop env names attempt k es acc) oc (retried_all env names (oc_rootDir oc) attempt es acc)"
proof (induction es arbitrary: k acc oc)
  case Nil
  then show ?case
    by (simp add: ends_well_return retried_all_def shifted_none)
next
  case (Cons e es)
  obtain again r where acc: "acc = (again, r)"
    by (cases acc)
  show ?case
  proof (cases "ix_aborted env ((if attempt = 1 then Poll_retry else Poll_strip) k)")
    case True
    then have "retried_all env names (oc_rootDir oc) attempt (e # es) acc (again, r)"
      unfolding retried_all_def acc by (intro exI [of _ 0]) (auto simp: shifted_none)
    with True show ?thesis
      using Cons.prems by (auto simp: acc intro!: ends_well_return)
  next
    case False
    have "ends_well env (ix_then (retry_one env names attempt e r)
        (\<lambda>(fails, r'). retry_loop env names attempt (Suc k) es (if fails then again @ [e] else again, r'))) oc
        (retried_all env names (oc_rootDir oc) attempt (e # es) acc)"
    proof (rule ends_well_then [OF ends_well_retry [OF Cons.prems]], clarify)
      fix r1 and oc1 :: orchestrator
      let ?fails = "crashes_again env names (oc_rootDir oc) attempt e"
      assume r1: "shifted (if parsed_again env names (oc_rootDir oc) attempt e then 1 else 0) r r1"
        and oc1: "good (oc_queries oc1)" "oc_rootDir oc1 = oc_rootDir oc"
      have more: "retried_all env names (oc_rootDir oc) attempt (e # es) acc res"
        if "retried_all env names (oc_rootDir oc) attempt es (if ?fails then again @ [e] else again, r1) res" for res
      proof -
        from that obtain n where n: "n \<le> length es"
            "fst res = (if ?fails then again @ [e] else again) @ filter (crashes_again env names (oc_rootDir oc) attempt) (take n es)"
            "shifted (length (filter (parsed_again env names (oc_rootDir oc) attempt) (take n es))) r1 (snd res)"
            "n = length es \<or> (\<exists>p. ix_aborted env p)"
          by (auto simp: retried_all_def)
        from n(1,2,4) shifted_add [OF r1 n(3)] show ?thesis
          unfolding retried_all_def acc by (intro exI [of _ "Suc n"]) auto
      qed
      show "ends_well env (retry_loop env names attempt (Suc k) es (if ?fails then again @ [e] else again, r1)) oc1
          (retried_all env names (oc_rootDir oc) attempt (e # es) acc)"
        using Cons.IH [OF oc1(1), of "Suc k" "(if ?fails then again @ [e] else again, r1)"] oc1(2)
        by (intro ends_well_mono [OF _ more]) simp_all
    qed
    then show ?thesis
      using False by (simp add: acc)
  qed
qed

lemma recovers_count:
  "length (filter (recovers env names rootDir) es) =
     length (filter (parsed_again env names rootDir 1) es)
     + length (filter (parsed_again env names rootDir 2) (filter (crashes_again env names rootDir 1) es))"
proof (induction es)
  case (Cons e es)
  have "\<not> (parsed_again env names rootDir 1 e \<and> crashes_again env names rootDir 1 e)"
    by (auto simp: parsed_again_def crashes_again_def split: option.splits sum.splits)
  with Cons show ?case
    by (auto simp: recovers_def)
qed simp

lemma filter_take_le: "length (filter P (take n xs)) \<le> length (filter P xs)"
  by (subst (2) append_take_drop_id [symmetric, of xs n]) (simp only: filter_append length_append le_add1)

text \<open>At most those reports are recovered that can be, and all of them unless the index is aborted.\<close>

definition moved :: "index_env \<Rightarrow> string list \<Rightarrow> string \<Rightarrow> extraction_error list \<Rightarrow> nat \<Rightarrow> bool" where
  "moved env names rootDir crashes m \<longleftrightarrow>
     (let most = (if ix_useWorker env then length (filter (recovers env names rootDir) crashes) else 0)
      in m \<le> most \<and> (m = most \<or> (\<exists>p. ix_aborted env p)))"

lemma ends_well_retry_pass:
  assumes "good (oc_queries oc)"
  shows "ends_well env (retry_pass env names r) oc
    (\<lambda>r'. \<exists>m. moved env names (oc_rootDir oc) (filter retryable (ir_errors r)) m \<and> shifted m r r')"
proof -
  let ?es = "filter retryable (ir_errors r)"
  let ?done = "\<lambda>r'. \<exists>m. moved env names (oc_rootDir oc) ?es m \<and> shifted m r r'"
  have "ends_well env (ix_then (retry_loop env names 1 0 ?es ([], r)) (\<lambda>(stillFailing, r1).
          ix_then (retry_loop env names 2 0 stillFailing ([], r1)) (\<lambda>(_, r2). ix_return r2))) oc ?done" if worker: "ix_useWorker env"
  proof (rule ends_well_then [OF ends_well_retry_loop [OF assms]], clarify)
    fix still r1 and oc1 :: orchestrator
    assume "retried_all env names (oc_rootDir oc) 1 ?es ([], r) (still, r1)"
      and oc1: "good (oc_queries oc1)" "oc_rootDir oc1 = oc_rootDir oc"
    then obtain n where n: "still = filter (crashes_again env names (oc_rootDir oc) 1) (take n ?es)"
        "shifted (length (filter (parsed_again env names (oc_rootDir oc) 1) (take n ?es))) r r1"
        "n = length ?es \<or> (\<exists>p. ix_aborted env p)"
      by (auto simp: retried_all_def)
    have "?done r2" if "retried_all env names (oc_rootDir oc) 2 still ([], r1) (xs, r2)" for xs r2
    proof -
      from that obtain k where k: "shifted (length (filter (parsed_again env names (oc_rootDir oc) 2) (take k still))) r1 r2"
          "k = length still \<or> (\<exists>p. ix_aborted env p)"
        by (auto simp: retried_all_def)
      let ?m = "length (filter (parsed_again env names (oc_rootDir oc) 1) (take n ?es))
        + length (filter (parsed_again env names (oc_rootDir oc) 2) (take k still))"
      have "length (filter (parsed_again env names (oc_rootDir oc) 2) (take k still)) \<le>
          length (filter (parsed_again env names (oc_rootDir oc) 2) still)"
        by (rule filter_take_le)
      moreover have "?m = length (filter (recovers env names (oc_rootDir oc)) ?es)" if "n = length ?es" "k = length still"
        using that n(1) recovers_count [of env names "oc_rootDir oc" ?es] by simp
      moreover have "length (filter (recovers env names (oc_rootDir oc)) (take n ?es)) \<le> length (filter (recovers env names (oc_rootDir oc)) ?es)"
        by (rule filter_take_le)
      ultimately have "moved env names (oc_rootDir oc) ?es ?m"
        using n(1,3) k(2) worker recovers_count [of env names "oc_rootDir oc" "take n ?es"] unfolding moved_def Let_def by auto
      with shifted_add [OF n(2) k(1)] show ?thesis
        by blast
    qed
    then show "ends_well env (ix_then (retry_loop env names 2 0 still ([], r1)) (\<lambda>(_, r2). ix_return r2)) oc1 ?done"
      using oc1 by (intro ends_well_then [OF ends_well_retry_loop [OF oc1(1)]]) (auto intro!: ends_well_return)
  qed
  moreover have "?done r" if "\<not> (?es \<noteq> [] \<and> ix_useWorker env)"
    using that by (intro exI [of _ 0]) (auto simp only: moved_def shifted_none Let_def filter.simps list.size if_cancel if_False)
  ultimately show ?thesis
    using assms by (simp add: retry_pass_def Let_def ends_well_return)
qed

subsection \<open>The whole index\<close>

text \<open>
  The counts of an index of these files: those of the outcomes of the files, all of them unless the index was
  aborted, of which as many are moved from failed to indexed as crash reports were recovered.
\<close>

definition counts_of :: "index_env \<Rightarrow> string list \<Rightarrow> string \<Rightarrow> string list \<Rightarrow> index_result \<Rightarrow> bool" where
  "counts_of env names rootDir files r \<longleftrightarrow>
     (\<exists>n m. n \<le> length files \<and> (n = length files \<or> (\<exists>p. ix_aborted env p))
       \<and> moved env names rootDir (concat (map (crash_reports env names rootDir) (take n files))) m
       \<and> (let outcomes = map (file_outcome env names rootDir) (take n files) in
          ir_filesIndexed r = of_outcome Out_indexed outcomes + int m
          \<and> ir_filesSkipped r = of_outcome Out_skipped outcomes
          \<and> ir_filesErrored r = of_outcome Out_errored outcomes - int m))"

lemma moved_none: "\<exists>p. ix_aborted env p \<Longrightarrow> moved env names rootDir cs 0"
  by (simp add: moved_def Let_def)

lemma indexAll_counts:
  assumes "good (oc_queries oc)" and "scanDirectory (ix_scan env) (oc_rootDir oc) = Some files"
  shows "ends_well env (indexAll env) oc (\<lambda>res. counts_of env (ix_detect env files) (oc_rootDir oc) files (snd res))"
proof -
  let ?oc = "oc\<lparr>oc_frameworks := Some (ix_detect env files)\<rparr>"
  let ?names = "ix_detect env files"
  let ?good = "\<lambda>res. counts_of env ?names (oc_rootDir oc) files (snd res)"
  let ?rest = "\<lambda>(aborted, r). if aborted then ix_return (False, aborted_result r)
              else ix_then (retry_pass env ?names r) (\<lambda>r'. ix_return (index_success r', r'))"
  have "ends_well env (ix_then (index_loop env ?names 0 files no_files) ?rest) ?oc ?good"
  proof (rule ends_well_then [OF ends_well_loop])
    fix x and oc1 :: orchestrator
    assume x: "looped env ?names (oc_rootDir ?oc) files no_files x" "good (oc_queries oc1)" "oc_rootDir oc1 = oc_rootDir ?oc"
    obtain aborted r where [simp]: "x = (aborted, r)"
      by (cases x)
    from x(1) obtain n where n: "n \<le> length files" "if aborted then \<exists>p. ix_aborted env p else n = length files"
      and t: "tallies (map (file_outcome env ?names (oc_rootDir oc)) (take n files))
        (concat (map (crash_reports env ?names (oc_rootDir oc)) (take n files))) no_files r"
      by (auto simp: looped_def)
    have counts: "counts_of env ?names (oc_rootDir oc) files r'"
      if "shifted m r r'" "moved env ?names (oc_rootDir oc) (filter retryable (ir_errors r)) m" for r' m
      using that n t unfolding counts_of_def Let_def
      by (intro exI [of _ n] exI [of _ m]) (auto simp: tallies_def shifted_def no_files_def split: if_splits)
    have "shifted 0 r (aborted_result r)"
      by (simp add: shifted_def aborted_result_def)
    then have "aborted \<Longrightarrow> counts_of env ?names (oc_rootDir oc) files (aborted_result r)"
      using counts moved_none n(2) by auto
    moreover have "ends_well env (ix_then (retry_pass env ?names r) (\<lambda>r'. ix_return (index_success r', r'))) oc1 ?good"
      by (rule ends_well_then [OF ends_well_retry_pass [OF x(2)]])
         (use counts x(3) in \<open>auto intro!: ends_well_return\<close>)
    ultimately show "ends_well env (?rest x) oc1 ?good"
      using x(2) by (auto intro!: ends_well_return)
  qed (use assms in simp)
  moreover have "ends_well env (ix_return (False, aborted_result no_files)) ?oc ?good" if "ix_aborted env Poll_scanned"
  proof -
    have "counts_of env ?names (oc_rootDir oc) files (aborted_result no_files)"
      unfolding counts_of_def Let_def using that moved_none [of env]
      by (intro exI [of _ 0]) (auto simp: aborted_result_def no_files_def)
    then show ?thesis
      using assms(1) by (auto intro!: ends_well_return)
  qed
  moreover have "indexAll env oc =
      (if ix_aborted env Poll_scanned then ix_return (False, aborted_result no_files)
       else ix_then (index_loop env ?names 0 files no_files) ?rest) ?oc"
    using assms(2) by (simp add: indexAll_def ix_then_def [of "ensureDetectedFrameworks env (Some files)"] ensureDetectedFrameworks_def)
  ultimately show ?thesis
    unfolding ends_well_def by (auto split: if_splits sum.splits index_error.splits)
qed

text \<open>The sum of the counts is the number of files.\<close>

definition counted :: "index_result \<Rightarrow> int" where
  "counted r = ir_filesIndexed r + ir_filesSkipped r + ir_filesErrored r"

definition all_counted :: "index_env \<Rightarrow> nat \<Rightarrow> bool \<times> index_result \<Rightarrow> bool" where
  "all_counted env n res \<longleftrightarrow>
     counted (snd res) \<le> n \<and> (counted (snd res) = n \<or> (\<exists>p. ix_aborted env p))"

lemma counts_counted:
  assumes "counts_of env names rootDir files r"
  shows "counted r \<le> length files \<and> (counted r = length files \<or> (\<exists>p. ix_aborted env p))"
proof -
  from assms obtain n m where n: "n \<le> length files" "n = length files \<or> (\<exists>p. ix_aborted env p)"
    and r: "ir_filesIndexed r = of_outcome Out_indexed (map (file_outcome env names rootDir) (take n files)) + int m"
      "ir_filesSkipped r = of_outcome Out_skipped (map (file_outcome env names rootDir) (take n files))"
      "ir_filesErrored r = of_outcome Out_errored (map (file_outcome env names rootDir) (take n files)) - int m"
    unfolding counts_of_def Let_def by blast
  have "counted r = int n"
    using of_outcome_total [of "map (file_outcome env names rootDir) (take n files)"] n(1) by (simp add: counted_def r)
  then show ?thesis
    using n by auto
qed

lemma indexAll_ends_well:
  assumes "good (oc_queries oc)" and "scanDirectory (ix_scan env) (oc_rootDir oc) = Some files"
  shows "ends_well env (indexAll env) oc (all_counted env (length files))"
  by (rule ends_well_mono [OF indexAll_counts [OF assms]]) (simp only: all_counted_def counts_counted)


section \<open>What a stored file is linked with\<close>

text \<open>The last of the nodes with an id is the one that is stored.\<close>

definition last_with_id :: "node list \<Rightarrow> string \<Rightarrow> node option" where
  "last_with_id ns i = find (\<lambda>n. n_id n = i) (rev ns)"

lemma with_nodes_at:
  "node_at (with_nodes ns d) i = (case last_with_id ns i of Some n \<Rightarrow> Some (stored_node n) | None \<Rightarrow> node_at d i)"
proof (induction ns rule: rev_induct)
  case (snoc n ns)
  have "with_nodes (ns @ [n]) d = sql_replace_node (nodeParams n) (with_nodes ns d)"
    by (simp add: with_nodes_def)
  moreover have "r_id (nodeParams n) = n_id n"
    by (simp add: nodeParams_def)
  ultimately show ?case
    using snoc by (simp add: node_at_replace rowToNode_params last_with_id_def)
qed (simp add: with_nodes_def last_with_id_def)

lemma replaced_links:
  assumes "wf_db d"
  shows "t_edges (sql_replace_node (nodeParams n) d) = filter (\<lambda>e. er_source e \<noteq> n_id n \<and> er_target e \<noteq> n_id n) (t_edges d)"
    and "t_unresolved (sql_replace_node (nodeParams n) d) = filter (\<lambda>u. ur_from_node_id u \<noteq> n_id n) (t_unresolved d)"
proof -
  have "r_id (nodeParams n) = n_id n"
    by (simp add: nodeParams_def)
  then show "t_edges (sql_replace_node (nodeParams n) d) = filter (\<lambda>e. er_source e \<noteq> n_id n \<and> er_target e \<noteq> n_id n) (t_edges d)"
    and "t_unresolved (sql_replace_node (nodeParams n) d) = filter (\<lambda>u. ur_from_node_id u \<noteq> n_id n) (t_unresolved d)"
    using assms by (auto simp: sql_replace_node_def sql_delete_nodes_def Let_def wf_db_def intro!: filter_cong)
qed

lemma with_nodes_links:
  "wf_db d \<Longrightarrow> list_all (\<lambda>n. n_id n \<noteq> '''') ns \<Longrightarrow>
    t_edges (with_nodes ns d) = filter (\<lambda>e. er_source e \<notin> n_id ` set ns \<and> er_target e \<notin> n_id ` set ns) (t_edges d)
    \<and> t_unresolved (with_nodes ns d) = filter (\<lambda>u. ur_from_node_id u \<notin> n_id ` set ns) (t_unresolved d)"
proof (induction ns arbitrary: d)
  case (Cons n ns)
  have "r_id (nodeParams n) = n_id n"
    by (simp add: nodeParams_def)
  then have "wf_db (sql_replace_node (nodeParams n) d)"
    using Cons.prems wf_replace_node by simp
  then show ?case
    using Cons.IH [of "sql_replace_node (nodeParams n) d"] Cons.prems replaced_links [OF Cons.prems(1), of n]
    by (auto simp: with_nodes_def intro!: filter_cong)
qed (simp add: with_nodes_def)

lemma insert_edges_unresolved [simp]: "t_unresolved (fold sql_insert_edge es d) = t_unresolved d"
  by (induction es arbitrary: d) (simp_all add: sql_insert_edge_def)

lemma with_refs_rows:
  "map rowToUnresolved (t_unresolved (with_refs us d)) = map rowToUnresolved (t_unresolved d) @ map stored_ref us"
  unfolding with_refs_def by (induction us arbitrary: d) (simp_all add: rowToUnresolved_params)

definition linked_inside :: "string set \<Rightarrow> db \<Rightarrow> bool" where
  "linked_inside ids d \<longleftrightarrow> list_all (\<lambda>e. (er_source e \<in> ids) = (er_target e \<in> ids)) (t_edges d)"

text \<open>The tables of nodes, edges and references after these have been stored over another database.\<close>

definition stored_over :: "node list \<Rightarrow> edge list \<Rightarrow> unresolved_reference list \<Rightarrow> db \<Rightarrow> db \<Rightarrow> bool" where
  "stored_over ns es us d d' \<longleftrightarrow>
     (let ids = n_id ` set ns in
      (\<forall>i. node_at d' i = (case last_with_id ns i of Some n \<Rightarrow> Some (stored_node n) | None \<Rightarrow> node_at d i))
      \<and> map rowToEdge (t_edges d') = map rowToEdge (filter (\<lambda>e. er_source e \<notin> ids \<and> er_target e \<notin> ids) (t_edges d))
          @ map (\<lambda>e. e\<lparr>e_metadata := stored_json (e_metadata e)\<rparr>) es
      \<and> getUnresolvedReferences d' = map rowToUnresolved (filter (\<lambda>u. ur_from_node_id u \<notin> ids) (t_unresolved d)) @ map stored_ref us)"

lemma rows_linked_inside:
  assumes "stored_over ns es us d d'" and "list_all (\<lambda>e. e_source e \<in> n_id ` set ns \<and> e_target e \<in> n_id ` set ns) es"
  shows "linked_inside (n_id ` set ns) d'"
proof -
  have row: "e_source (rowToEdge r) = er_source r" "e_target (rowToEdge r) = er_target r" for r
    by (simp_all add: rowToEdge_def)
  have "list_all (\<lambda>e. (e_source e \<in> n_id ` set ns) = (e_target e \<in> n_id ` set ns)) (map rowToEdge (t_edges d'))"
    using assms row unfolding stored_over_def Let_def list_all_iff by auto
  then show ?thesis
    using row by (simp add: linked_inside_def list_all_iff)
qed

text \<open>
  C5: storing the extraction of a new or changed file never fails and leaves the store consistent. The record
  reads back. Over the database without the old nodes of the file: the node read under an id is the one
  extracted (the last, if the id occurs twice) with the stored form of its optional columns, and under any
  other id the node of before; the edges are those of before that touch no new node, followed by the
  extracted edges between stored nodes; and the same for the unresolved references. So every edge that touches
  one of the new nodes joins two of them: what other files had to say about them is gone.
\<close>

theorem stored_file_isolated:
  assumes "good s" and "map_option f_contentHash (getFileByPath filePath (qb_db s)) \<noteq> Some (ix_hash env content)"
  shows "case storeExtractionResult env filePath content lang stats result s of (r, s') \<Rightarrow>
    r = Inr () \<and> good s'
    \<and> getFileByPath filePath (qb_db s') = Some (stored_record (fileRecord env filePath (ix_hash env content) lang stats result))
    \<and> stored_over (validNodes result) (validEdges result) (refsWithContext filePath lang result)
        (if getFileByPath filePath (qb_db s) = None then qb_db s else without_file filePath (qb_db s)) (qb_db s')
    \<and> linked_inside (n_id ` set (validNodes result)) (qb_db s')"
proof -
  let ?d = "if getFileByPath filePath (qb_db s) = None then qb_db s else without_file filePath (qb_db s)"
  let ?ns = "validNodes result"
  let ?d2 = "fold sql_insert_edge (validEdges result) (with_nodes ?ns ?d)"
  obtain s' where s': "storeExtractionResult env filePath content lang stats result s = (Inr (), s')" "good s'"
      "qb_db s' = stored_db env filePath content lang stats result (qb_db s)"
    using does_store [OF assms, of lang stats result] unfolding does_def
    by (cases "storeExtractionResult env filePath content lang stats result s") simp
  have same: "t_nodes (with_file f d) = t_nodes d" "t_edges (with_file f d) = t_edges d" "t_unresolved (with_file f d) = t_unresolved d" for f d
    by (simp_all add: with_file_def)
  have rows: "t_nodes (qb_db s') = t_nodes (with_nodes ?ns ?d)" "t_edges (qb_db s') = t_edges ?d2"
      "t_unresolved (qb_db s') = t_unresolved (with_refs (refsWithContext filePath lang result) ?d2)"
    unfolding s'(3) stored_db_def Let_def same by simp_all
  have "wf_db (qb_db s)"
    using assms(1) by (simp add: good_def qb_inv_def)
  then have wf: "wf_db ?d"
    using does_deleteFile [OF assms(1), of filePath] by (auto simp: does_def good_def qb_inv_def)
  have "list_all (\<lambda>n. n_id n \<noteq> '''') ?ns"
    using validNodes_complete [of result] by (auto simp: list_all_iff node_incomplete_def)
  note links = with_nodes_links [OF wf this]
  have "node_at (qb_db s') = node_at (with_nodes ?ns ?d)"
    by (simp add: fun_eq_iff node_at_def node_row_of_def rows(1))
  then have over: "stored_over ?ns (validEdges result) (refsWithContext filePath lang result) ?d (qb_db s')"
    unfolding stored_over_def Let_def getUnresolvedReferences_def rows(2,3) fold_insert_edges with_refs_rows insert_edges_unresolved
    using links with_nodes_at by simp
  then have "linked_inside (n_id ` set ?ns) (qb_db s')"
    by (rule rows_linked_inside) (simp add: validEdges_def Let_def list_all_iff)
  with over show ?thesis
    using s' getFile_stored_db [of filePath env filePath content lang stats result "qb_db s"] by (auto simp: s'(3))
qed

section \<open>Examples\<close>

text \<open>The project of one source file, whose extraction is one function.\<close>

definition tiny_node :: node where
  "tiny_node = \<lparr>n_id = ''n1'', n_kind = NK_function, n_name = ''f'', n_qualifiedName = ''f'', n_filePath = ''a.ts'',
      n_language = L_typescript, n_startLine = 1, n_endLine = 2, n_startColumn = 0, n_endColumn = 0,
      n_docstring = None, n_signature = None, n_visibility = None, n_isExported = Some True,
      n_isAsync = None, n_isStatic = None, n_isAbstract = None, n_decorators = None,
      n_typeParameters = None, n_returnType = None, n_updatedAt = 7\<rparr>"

definition tiny_env :: index_env where
  "tiny_env =
     \<lparr>ix_scan = small_project\<lparr>sc_exists := \<lambda>p. p = ''/p/a.ts''\<rparr>, ix_platform = ''linux'', ix_realpath = Inr,
      ix_read = (\<lambda>p. if p = ''/p/a.ts'' then Some ''f()'' else None),
      ix_stat = (\<lambda>p. if p = ''/p/a.ts'' then Some \<lparr>fs_size = 3, fs_mtimeMs = 5\<rparr> else None),
      ix_hash = id, ix_extract = (\<lambda>_ _ _ _. Inr \<lparr>xr_nodes = [tiny_node], xr_edges = [], xr_unresolvedReferences = [], xr_errors = []\<rparr>),
      ix_parse = (\<lambda>_ _ _ _. Inl ''Worker exited''), ix_useWorker = False, ix_detect = (\<lambda>_. []), ix_aborted = (\<lambda>_. False), ix_now = 9\<rparr>"

abbreviation tiny :: orchestrator where
  "tiny \<equiv> new_orchestrator ''/p'' (new_query_builder empty_db)"

lemma tiny_good: "good (oc_queries tiny)"
  using reached_inv [of "[]"] by (simp add: new_orchestrator_def good_def store_run_def)

lemma tiny_scan: "scanDirectory (ix_scan tiny_env) (oc_rootDir tiny) = Some [''a.ts'']"
  by code_simp

lemma tiny_paths:
  "validatePathWithinRoot (ix_platform tiny_env) (ix_realpath tiny_env) ''/p'' ''a.ts'' = Some ''/p/a.ts''"
  "path_join [''/p'', ''a.ts''] = ''/p/a.ts''" "isSourceFile ''a.ts''"
  by code_simp+

lemma tiny_indexable:
  assumes "f \<in> set [''a.ts'']"
  shows "indexable tiny_env (oc_rootDir tiny) f ''f()'' \<lparr>fs_size = 3, fs_mtimeMs = 5\<rparr>"
  using assms tiny_paths by (simp add: indexable_def tiny_env_def new_orchestrator_def storable_def MAX_FILE_SIZE_def)

lemma tiny_can_index: "list_all (can_index tiny_env (oc_rootDir tiny)) [''a.ts'']"
  using tiny_indexable by (auto simp: can_index_def)

lemma tiny_synced: "\<exists>res. sync tiny_env tiny = (Inr res, snd (sync tiny_env tiny))"
proof -
  from sync_brings_up_to_date [OF tiny_good tiny_scan tiny_indexable] obtain res oc' where "sync tiny_env tiny = (Inr res, oc')"
    by blast
  then show ?thesis
    by simp
qed

theorem sync_idempotent_witness:
  "sync tiny_env (snd (sync tiny_env tiny)) =
    (Inr \<lparr>sy_filesChecked = 1, sy_filesAdded = 0, sy_filesModified = 0, sy_filesRemoved = 0,
       sy_nodesUpdated = 0, sy_changedFilePaths = None\<rparr>, snd (sync tiny_env tiny))"
proof -
  obtain res where "sync tiny_env tiny = (Inr res, snd (sync tiny_env tiny))"
    using tiny_synced by blast
  from sync_idempotent [OF tiny_good tiny_scan this] tiny_can_index show ?thesis
    by simp
qed



text \<open>A function that contains another.\<close>

definition tiny_pair :: extraction_result where
  "tiny_pair = \<lparr>xr_nodes = [tiny_node, tiny_node\<lparr>n_id := ''n2'', n_name := ''g''\<rparr>],
     xr_edges = [\<lparr>e_source = ''n1'', e_target = ''n2'', e_kind = EK_contains, e_metadata = None, e_line = Some 2, e_column = None,
       e_provenance = None\<rparr>], xr_unresolvedReferences = [], xr_errors = []\<rparr>"

lemma tiny_pair_valid: "validNodes tiny_pair = xr_nodes tiny_pair" "validEdges tiny_pair = xr_edges tiny_pair"
  by code_simp+

theorem stored_file_isolated_witness:
  "case storeExtractionResult tiny_env ''a.ts'' ''f()'' L_typescript \<lparr>fs_size = 3, fs_mtimeMs = 5\<rparr> tiny_pair (oc_queries tiny) of (r, s') \<Rightarrow>
    node_at (qb_db s') ''n2'' = Some (stored_node (tiny_node\<lparr>n_id := ''n2'', n_name := ''g''\<rparr>))
    \<and> map rowToEdge (t_edges (qb_db s')) = xr_edges tiny_pair \<and> linked_inside {''n1'', ''n2''} (qb_db s')"
proof -
  have "getFileByPath ''a.ts'' (qb_db (oc_queries tiny)) = None" "t_edges (qb_db (oc_queries tiny)) = []"
    by (simp_all add: new_orchestrator_def new_query_builder_def empty_db_def getFileByPath_def)
  moreover have "last_with_id (xr_nodes tiny_pair) ''n2'' = Some (tiny_node\<lparr>n_id := ''n2'', n_name := ''g''\<rparr>)"
    "n_id ` set (xr_nodes tiny_pair) = {''n1'', ''n2''}"
    by (simp_all add: last_with_id_def tiny_pair_def tiny_node_def)
  moreover have "map (\<lambda>e. e\<lparr>e_metadata := stored_json (e_metadata e)\<rparr>) (xr_edges tiny_pair) = xr_edges tiny_pair"
    by (simp add: tiny_pair_def stored_json_def)
  ultimately show ?thesis
    using stored_file_isolated [OF tiny_good, of "''a.ts''" tiny_env "''f()''" L_typescript "\<lparr>fs_size = 3, fs_mtimeMs = 5\<rparr>" tiny_pair]
    by (auto simp: stored_over_def Let_def tiny_pair_valid split: prod.splits)
qed

text \<open>
  A result with symbols that also reports a crash of the parser, as a component file does whose script block
  crashes it: the file is counted as indexed, and once more when the retry succeeds.
\<close>

definition svelte_crash :: extraction_error where
  "svelte_crash = \<lparr>xe_message = ''Svelte extraction error: memory access out of bounds'', xe_filePath = None,
     xe_isError = True, xe_code = Some ''parse_error''\<rparr>"

definition crash_env :: index_env where
  "crash_env = tiny_env\<lparr>ix_useWorker := True, ix_parse := (\<lambda>attempt f _ _. Inr
     \<lparr>xr_nodes = [tiny_node], xr_edges = [], xr_unresolvedReferences = [], xr_errors = (if attempt = 0 then [svelte_crash] else [])\<rparr>)\<rparr>"

lemma svelte_crash_retryable: "retryable (with_path ''a.ts'' svelte_crash)" "the (xe_filePath (with_path ''a.ts'' svelte_crash)) = ''a.ts''"
  by code_simp+

lemma crash_env_fields:
  "ix_useWorker crash_env" "ix_scan crash_env = ix_scan tiny_env" "ix_platform crash_env = ix_platform tiny_env"
  "ix_realpath crash_env = ix_realpath tiny_env" "ix_read crash_env = ix_read tiny_env" "ix_stat crash_env = ix_stat tiny_env"
  "\<not> ix_aborted crash_env p" "ix_detect crash_env fs = []"
  "requestParse crash_env attempt f c names = Inr \<lparr>xr_nodes = [tiny_node], xr_edges = [], xr_unresolvedReferences = [],
     xr_errors = (if attempt = 0 then [svelte_crash] else [])\<rparr>"
  by (simp_all add: crash_env_def tiny_env_def requestParse_def)

lemma crash_outcome:
  "file_outcome crash_env [] ''/p'' ''a.ts'' = Out_indexed"
  "crash_reports crash_env [] ''/p'' ''a.ts'' = [with_path ''a.ts'' svelte_crash]"
  "recovers crash_env [] ''/p'' (with_path ''a.ts'' svelte_crash)"
proof -
  have seen: "within_root crash_env ''/p'' ''a.ts'' = Some ''/p/a.ts''" "ix_read crash_env ''/p/a.ts'' = Some ''f()''"
      "ix_stat crash_env ''/p/a.ts'' = Some \<lparr>fs_size = 3, fs_mtimeMs = 5\<rparr>"
    using tiny_paths(1) by (simp_all add: within_root_def crash_env_fields) (simp_all add: tiny_env_def)
  then show "file_outcome crash_env [] ''/p'' ''a.ts'' = Out_indexed"
      "crash_reports crash_env [] ''/p'' ''a.ts'' = [with_path ''a.ts'' svelte_crash]"
    by (simp_all add: file_outcome_def crash_reports_def crash_env_fields result_outcome_def MAX_FILE_SIZE_def svelte_crash_retryable)
  show "recovers crash_env [] ''/p'' (with_path ''a.ts'' svelte_crash)"
    using seen by (simp add: recovers_def parsed_again_def retried_def svelte_crash_retryable crash_env_fields storable_def)
qed

lemma crash_report_counted_twice:
  "case fst (indexAll crash_env tiny) of
     Inl e \<Rightarrow> (case e of Stat_threw f \<Rightarrow> ix_stat crash_env (path_join [''/p'', f]) = None | _ \<Rightarrow> False)
   | Inr (ok, r) \<Rightarrow> ir_filesIndexed r = 2 \<and> ir_filesErrored r = - 1"
proof -
  have "scanDirectory (ix_scan crash_env) (oc_rootDir tiny) = Some [''a.ts'']" "oc_rootDir tiny = ''/p''"
    using tiny_scan by (simp_all add: crash_env_fields new_orchestrator_def)
  with indexAll_counts [OF tiny_good, of crash_env "[''a.ts'']"] show ?thesis
    by (auto simp: ends_well_def counts_of_def moved_def crash_outcome crash_env_fields Let_def split: prod.splits sum.splits index_error.splits)
qed

text \<open>
  A tracked file that has grown beyond the size limit is reported as modified by every synchronisation and
  keeps the nodes and the record it had.
\<close>

lemma oversized_file_stays:
  assumes "recorded oc f = Some rec" and "validated env oc f = Some full" and "ix_stat env full = Some stats"
    and "ix_read env full = Some content" and "MAX_FILE_SIZE < fs_size stats"
  shows "indexFile env f oc = (Inr (failed f (size_message (fs_size stats)) False ''size_exceeded''), oc)"
    and "ix_stat env (path_join [oc_rootDir oc, f]) = Some stats \<Longrightarrow> ix_read env (path_join [oc_rootDir oc, f]) = Some content
      \<Longrightarrow> f_size rec \<noteq> fs_size stats \<Longrightarrow> f_contentHash rec \<noteq> ix_hash env content
      \<Longrightarrow> classify_file env (oc_rootDir oc) (recorded oc f) f = Modified"
  using assms by (simp_all add: indexFile_def indexFileWithContent_def classify_file_def Let_def)

end
