(* ===== verification/Directory.thy ===== *)
theory Directory
  imports FileScan SafePaths Numerals
begin

text \<open>
  The data directory of a project, \<open>directory.ts\<close>: where it is, how it is found from a directory below the
  project, created, checked and removed. The file system is a record of questions, answered through
  symbolic links but for \<open>de_lstat\<close> and \<open>de_readdir\<close>; what an operation does to it is a list of effects.
  Paths are POSIX paths.
\<close>

record dir_env =
  de_vars :: "string \<Rightarrow> string option"
  de_exists :: "string \<Rightarrow> bool"
  de_stat :: "string \<Rightarrow> scan_kind option"
  de_lstat :: "string \<Rightarrow> scan_kind option"
  de_readdir :: "string \<Rightarrow> (string \<times> scan_kind) list option"
  de_size :: "string \<Rightarrow> nat option"
  de_writable :: "string \<Rightarrow> bool"
  de_depth :: nat

datatype dir_effect = Make_dirs string | Write_file string string | Unlink string | Remove_tree string

datatype dir_error = Already_initialized string | Invalid_subdirectory string | System_error

section \<open>Operations\<close>

definition getCodeGraphDir :: "dir_env \<Rightarrow> string \<Rightarrow> string" where
  "getCodeGraphDir env projectRoot = path_join [projectRoot, codeGraphDirName (de_vars env)]"

definition isInitialized :: "dir_env \<Rightarrow> string \<Rightarrow> bool" where
  "isInitialized env projectRoot =
     (let codegraphDir = getCodeGraphDir env projectRoot in
      if \<not> de_exists env codegraphDir \<or> de_stat env codegraphDir \<noteq> Some Scan_dir then False
      else de_exists env (path_join [codegraphDir, ''codegraph.db'']))"

text \<open>The loop of \<open>findNearestCodeGraphRoot\<close>, on the segments of the current directory.\<close>

function climb :: "(string list \<Rightarrow> bool) \<Rightarrow> string list \<Rightarrow> string list option" where
  "climb ok current =
     (if current \<noteq> [] then (if ok current then Some current else climb ok (butlast current))
      else if ok current then Some current else None)"
  by pat_completeness auto
termination
  by (relation "measure (\<lambda>(ok, current). length current)") simp_all

declare climb.simps [simp del]

definition findNearestCodeGraphRoot :: "dir_env \<Rightarrow> string \<Rightarrow> string \<Rightarrow> string option" where
  "findNearestCodeGraphRoot env cwd startPath =
     map_option abs_path (climb (\<lambda>segs. isInitialized env (abs_path segs)) (abs_segs (path_resolve cwd startPath)))"

definition gitignoreContent :: string where
  "gitignoreContent = join_with [newline]
     [''# CodeGraph data files '' @ [CHR 0xE2, CHR 0x80, CHR 0x94] @ '' local to each machine, not for committing.'',
      ''# Ignore everything in .codegraph/ except this file itself, so transient'',
      ''# files (the database, daemon.pid, sockets, logs) never show up in git.'', ''*'', ''!.gitignore'', '''']"

definition createDirectory :: "dir_env \<Rightarrow> string \<Rightarrow> (dir_error + unit) \<times> dir_effect list" where
  "createDirectory env projectRoot =
     (let codegraphDir = getCodeGraphDir env projectRoot;
          gitignorePath = path_join [codegraphDir, ''.gitignore''] in
      if de_exists env (path_join [codegraphDir, ''codegraph.db'']) then (Inl (Already_initialized projectRoot), [])
      else if \<not> de_writable env codegraphDir then (Inl System_error, [])
      else if de_exists env gitignorePath then (Inr (), [Make_dirs codegraphDir])
      else if \<not> de_writable env gitignorePath then (Inl System_error, [Make_dirs codegraphDir])
      else (Inr (), [Make_dirs codegraphDir, Write_file gitignorePath gitignoreContent]))"

definition removeDirectory :: "dir_env \<Rightarrow> string \<Rightarrow> (dir_error + unit) \<times> dir_effect list" where
  "removeDirectory env projectRoot =
     (let codegraphDir = getCodeGraphDir env projectRoot in
      if \<not> de_exists env codegraphDir then (Inr (), [])
      else (case de_lstat env codegraphDir of
          None \<Rightarrow> (Inl System_error, [])
        | Some Scan_symlink \<Rightarrow> (Inr (), [Unlink codegraphDir])
        | Some Scan_dir \<Rightarrow> (Inr (), [Remove_tree codegraphDir])
        | Some _ \<Rightarrow> (Inr (), [Unlink codegraphDir])))"

text \<open>
  The recursive listing; the first argument bounds the depth of directories, which are finitely many since
  symbolic links are not followed. \<open>None\<close> is an exception of \<open>readdirSync\<close>.
\<close>

primrec list_levels :: "nat \<Rightarrow> dir_env \<Rightarrow> string \<Rightarrow> string \<Rightarrow> string list option" where
  "list_levels 0 env dir pre = None"
| "list_levels (Suc k) env dir pre =
     (case de_readdir env dir of
        None \<Rightarrow> None
      | Some entries \<Rightarrow>
          fold (\<lambda>(name, kind) acc. case acc of None \<Rightarrow> None | Some files \<Rightarrow>
            let relativePath = (if pre = '''' then name else pre @ ''/'' @ name) in
            if kind = Scan_symlink then Some files
            else if kind = Scan_dir then map_option ((@) files) (list_levels k env (path_join [dir, name]) relativePath)
            else Some (files @ [relativePath])) entries (Some []))"

definition listDirectoryContents :: "dir_env \<Rightarrow> string \<Rightarrow> string list option" where
  "listDirectoryContents env projectRoot =
     (let codegraphDir = getCodeGraphDir env projectRoot in
      if \<not> de_exists env codegraphDir then Some [] else list_levels (Suc (de_depth env)) env codegraphDir '''')"

primrec size_levels :: "nat \<Rightarrow> dir_env \<Rightarrow> string \<Rightarrow> nat option" where
  "size_levels 0 env dir = None"
| "size_levels (Suc k) env dir =
     (case de_readdir env dir of
        None \<Rightarrow> None
      | Some entries \<Rightarrow>
          fold (\<lambda>(name, kind) acc. case acc of None \<Rightarrow> None | Some totalSize \<Rightarrow>
            let fullPath = path_join [dir, name] in
            if kind = Scan_symlink then Some totalSize
            else if kind = Scan_dir then map_option ((+) totalSize) (size_levels k env fullPath)
            else map_option ((+) totalSize) (de_size env fullPath)) entries (Some 0))"

definition getDirectorySize :: "dir_env \<Rightarrow> string \<Rightarrow> nat option" where
  "getDirectorySize env projectRoot =
     (let codegraphDir = getCodeGraphDir env projectRoot in
      if \<not> de_exists env codegraphDir then Some 0 else size_levels (Suc (de_depth env)) env codegraphDir)"

definition ensureSubdirectory :: "dir_env \<Rightarrow> string \<Rightarrow> string \<Rightarrow> (dir_error + string) \<times> dir_effect list" where
  "ensureSubdirectory env projectRoot subdirName =
     (if str_includes subdirName ''..'' \<or> str_includes subdirName ''/'' then (Inl (Invalid_subdirectory subdirName), [])
      else (let subdirPath = path_join [getCodeGraphDir env projectRoot, subdirName] in
        if de_exists env subdirPath then (Inr subdirPath, [])
        else if de_writable env subdirPath then (Inr subdirPath, [Make_dirs subdirPath]) else (Inl System_error, [])))"

text \<open>The errors that make a directory invalid, and the repair of the \<open>.gitignore\<close> file.\<close>

definition validateDirectory :: "dir_env \<Rightarrow> string \<Rightarrow> (bool \<times> string list) \<times> dir_effect list" where
  "validateDirectory env projectRoot =
     (let codegraphDir = getCodeGraphDir env projectRoot;
          gitignorePath = path_join [codegraphDir, ''.gitignore''] in
      if \<not> de_exists env codegraphDir then ((False, [''CodeGraph directory does not exist'']), [])
      else if de_stat env codegraphDir \<noteq> Some Scan_dir then ((False, [''.codegraph exists but is not a directory'']), [])
      else if de_exists env gitignorePath then ((True, []), [])
      else if de_writable env gitignorePath then ((True, []), [Write_file gitignorePath gitignoreContent])
      else ((False, [''.gitignore missing in .codegraph directory and could not be created'']), []))"

section \<open>Where the data directory is\<close>

lemma no_slash_plain: "\<not> str_includes s ''/'' \<Longrightarrow> CHR ''/'' \<notin> set s"
  by (auto simp: sublist_def in_set_conv_decomp)

lemma codeGraphDirName_plain: "plain_seg (codeGraphDirName vars)"
  by (auto simp: codeGraphDirName_def plain_seg_def DEFAULT_CODEGRAPH_DIR_def truthy_def no_slash_plain
      split: option.splits if_splits)

lemma join_below:
  assumes "is_absolute base" and "CHR ''/'' \<notin> set name" and "name \<noteq> []" and "name \<noteq> ''..''"
  shows "path_join [base, name] = abs_path (abs_segs base @ (if name = ''.'' then [] else [name]))"
proof -
  have base: "base \<noteq> []"
    using assms(1) by auto
  have segs: "segments (base @ CHR ''/'' # name) = segments base @ [name]"
  proof (induction base)
    case Nil
    then show ?case
      using assms(2) by (simp add: split_by_word)
  qed (auto split: list.split)
  have "\<not> ends_with (base @ CHR ''/'' # name) ''/''"
    using assms(2,3) by (cases name rule: rev_cases) (auto simp: suffix_def)
  moreover have "norm_segs False (segments base @ [name]) = abs_segs base @ (if name = ''.'' then [] else [name])"
    using assms(3,4) by (simp add: norm_segs_append abs_segs_def push_seg_def)
  moreover have "is_absolute (base @ CHR ''/'' # name)"
    using assms(1) by (auto simp: prefix_def)
  ultimately show ?thesis
    using segs base assms(3) by (simp add: path_join_def path_normalize_def abs_path_def Let_def)
qed

lemma getCodeGraphDir_below:
  assumes "is_absolute projectRoot"
  shows "getCodeGraphDir env projectRoot = abs_path (abs_segs projectRoot @ [codeGraphDirName (de_vars env)])"
  using join_below [OF assms, of "codeGraphDirName (de_vars env)"] codeGraphDirName_plain [of "de_vars env"]
  by (simp add: getCodeGraphDir_def plain_seg_def)

definition effect_path :: "dir_effect \<Rightarrow> string" where
  "effect_path e = (case e of Make_dirs p \<Rightarrow> p | Write_file p _ \<Rightarrow> p | Unlink p \<Rightarrow> p | Remove_tree p \<Rightarrow> p)"

text \<open>An effect on the data directory or on a path below it; whole trees are removed only where a directory is.\<close>

definition confined :: "dir_env \<Rightarrow> string \<Rightarrow> dir_effect \<Rightarrow> bool" where
  "confined env projectRoot e \<longleftrightarrow>
     prefix (abs_segs projectRoot @ [codeGraphDirName (de_vars env)]) (abs_segs (effect_path e))
     \<and> (case e of Remove_tree p \<Rightarrow> de_lstat env p = Some Scan_dir | _ \<Rightarrow> True)"

lemma join_with_snoc: "xs \<noteq> [] \<Longrightarrow> join_with sep (xs @ [s]) = join_with sep xs @ sep @ s"
proof (induction xs)
  case (Cons x xs)
  then show ?case
    by (cases xs) simp_all
qed simp

lemma data_dir_segs:
  assumes "is_absolute projectRoot"
  shows "abs_segs (getCodeGraphDir env projectRoot) = abs_segs projectRoot @ [codeGraphDirName (de_vars env)]"
  unfolding getCodeGraphDir_below [OF assms]
  by (rule abs_segs_path) (simp add: abs_segs_plain codeGraphDirName_plain)

lemma below_data_dir:
  assumes "is_absolute projectRoot" and "CHR ''/'' \<notin> set name" and "name \<noteq> ''..''"
  shows "prefix (abs_segs projectRoot @ [codeGraphDirName (de_vars env)]) (abs_segs (path_join [getCodeGraphDir env projectRoot, name]))"
proof -
  let ?segs = "abs_segs projectRoot @ [codeGraphDirName (de_vars env)]"
  have plain: "list_all plain_seg ?segs"
    using abs_segs_plain codeGraphDirName_plain by simp
  have dir: "is_absolute (getCodeGraphDir env projectRoot)"
    unfolding getCodeGraphDir_below [OF assms(1)] by (simp add: abs_path_def)
  show ?thesis
  proof (cases "name = []")
    case True
    have "path_join [getCodeGraphDir env projectRoot, []] = abs_path ?segs"
    proof -
      have "segments (abs_path ?segs) = [] # ?segs"
        using segments_join [OF plain_no_slash [OF plain]] by (simp add: abs_path_def)
      then have "norm_segs False (segments (abs_path ?segs)) = ?segs"
        using fold_push_plain_id [OF plain, of False "[]"] by (simp add: norm_segs_def)
      moreover have "\<not> ends_with (abs_path ?segs) ''/''"
      proof -
        obtain body where body: "abs_path ?segs = body @ codeGraphDirName (de_vars env)"
          by (cases "abs_segs projectRoot = []") (auto simp: abs_path_def join_with_snoc append_assoc [symmetric] simp del: append_assoc)
        show ?thesis
          using codeGraphDirName_plain [of "de_vars env"] unfolding body plain_seg_def
          by (cases "codeGraphDirName (de_vars env)" rule: rev_cases) (auto simp: suffix_def)
      qed
      ultimately show ?thesis
        unfolding getCodeGraphDir_below [OF assms(1)]
        by (auto simp: path_join_def path_normalize_def abs_path_def Let_def)
    qed
    then show ?thesis
      using True abs_segs_path [OF plain] by simp
  next
    case False
    then have "list_all plain_seg (?segs @ (if name = ''.'' then [] else [name]))"
      using plain assms(2,3) by (simp add: plain_seg_def)
    from abs_segs_path [OF this] join_below [OF dir assms(2) False assms(3)] data_dir_segs [OF assms(1), of env] show ?thesis
      by simp
  qed
qed

text \<open>
  C25: whatever the environment variable \<open>CODEGRAPH_DIR\<close> says, the paths that creating, checking, extending and
  removing the data directory touch are, read as paths, a child of the project root and paths below it; the
  directory is removed only when it is itself no symbolic link. (The other three operations do not look at links.)
\<close>

theorem data_dir_confined:
  assumes "is_absolute projectRoot"
  shows "list_all (confined env projectRoot)
    (snd (createDirectory env projectRoot) @ snd (validateDirectory env projectRoot)
     @ snd (ensureSubdirectory env projectRoot subdirName) @ snd (removeDirectory env projectRoot))"
proof -
  let ?pre = "abs_segs projectRoot @ [codeGraphDirName (de_vars env)]"
  have dir: "prefix ?pre (abs_segs (getCodeGraphDir env projectRoot))"
    unfolding data_dir_segs [OF assms] by simp
  have ignore: "prefix ?pre (abs_segs (path_join [getCodeGraphDir env projectRoot, ''.gitignore'']))"
    by (rule below_data_dir [OF assms]) simp_all
  have sub: "prefix ?pre (abs_segs (path_join [getCodeGraphDir env projectRoot, subdirName]))"
    if "\<not> str_includes subdirName ''..''" "\<not> str_includes subdirName ''/''"
    by (rule below_data_dir [OF assms]) (use that in \<open>auto simp: no_slash_plain\<close>)
  have "list_all (confined env projectRoot) (snd (createDirectory env projectRoot))"
    using dir ignore by (simp add: createDirectory_def confined_def effect_path_def Let_def)
  moreover have "list_all (confined env projectRoot) (snd (validateDirectory env projectRoot))"
    using ignore by (simp add: validateDirectory_def confined_def effect_path_def Let_def)
  moreover have "list_all (confined env projectRoot) (snd (ensureSubdirectory env projectRoot subdirName))"
    using sub by (simp add: ensureSubdirectory_def confined_def effect_path_def Let_def)
  moreover have "list_all (confined env projectRoot) (snd (removeDirectory env projectRoot))"
    using dir by (simp add: removeDirectory_def confined_def effect_path_def Let_def split: option.split scan_kind.split)
  ultimately show ?thesis
    by simp
qed

section \<open>The nearest project\<close>

lemma climb_prefixes: "climb ok segs = find ok (rev (prefixes segs))"
proof (induction segs rule: rev_induct)
  case Nil
  then show ?case
    by (subst climb.simps) simp
next
  case (snoc x xs)
  then show ?case
    by (subst climb.simps) (simp add: prefixes_snoc)
qed

text \<open>The search for a project finds the initialised directory closest to the given path, among it and its parents.\<close>

theorem nearest_root_closest:
  "findNearestCodeGraphRoot env cwd startPath =
     map_option abs_path (find (\<lambda>segs. isInitialized env (abs_path segs)) (rev (prefixes (abs_segs (path_resolve cwd startPath)))))"
  by (simp add: findNearestCodeGraphRoot_def climb_prefixes)

text \<open>
  A missing \<open>.gitignore\<close> that cannot be written makes the directory invalid, so that the project cannot be
  opened, although the source calls the failure not fatal.
\<close>

lemma unwritable_gitignore_blocks:
  assumes "de_exists env (getCodeGraphDir env r)" and "de_stat env (getCodeGraphDir env r) = Some Scan_dir"
    and "\<not> de_exists env (path_join [getCodeGraphDir env r, ''.gitignore''])"
    and "\<not> de_writable env (path_join [getCodeGraphDir env r, ''.gitignore''])"
  shows "fst (fst (validateDirectory env r)) = False"
  using assms by (simp add: validateDirectory_def Let_def)

text \<open>A project whose environment variable tries to lead out of the root.\<close>

definition small_dir :: dir_env where
  "small_dir = \<lparr>de_vars = (\<lambda>_. Some ''../elsewhere''), de_exists = (\<lambda>p. p = ''/p/.codegraph''),
     de_stat = (\<lambda>_. Some Scan_dir), de_lstat = (\<lambda>_. Some Scan_dir), de_readdir = (\<lambda>_. Some []),
     de_size = (\<lambda>_. None), de_writable = (\<lambda>_. True), de_depth = 1\<rparr>"

theorem data_dir_confined_witness: "list_all (confined small_dir ''/p'') (snd (removeDirectory small_dir ''/p''))"
  using data_dir_confined [of "''/p''" small_dir "''cache''"] by simp

end
