(* ===== verification/Facade.thy ===== *)
theory Facade
  imports IndexerLaws Resolver Watcher Directory
begin

text \<open>
  The class \<open>CodeGraph\<close> of \<open>codegraph/src/index.ts\<close>: how indexing, synchronisation, the resolution of
  references and the file watcher work together on one store. Whether the file lock was taken is an
  argument (\<open>FileLock\<close> models the lock itself), as is the time a synchronisation took. The synthesis of
  callback edges and the maintenance of the database are left out.
\<close>

section \<open>State and environment\<close>

record facade_env =
  fa_index :: index_env
  fa_dir :: dir_env
  fa_cwd :: string
  fa_detect :: "resolution_context \<Rightarrow> framework list"
  fa_version :: string
  fa_now :: nat

record codegraph =
  cg_orchestrator :: orchestrator
  cg_resolver :: resolver

abbreviation cg_store :: "codegraph \<Rightarrow> query_builder" where
  "cg_store cg \<equiv> oc_queries (cg_orchestrator cg)"

abbreviation cg_db :: "codegraph \<Rightarrow> db" where
  "cg_db cg \<equiv> qb_db (cg_store cg)"

definition with_store :: "query_builder \<Rightarrow> codegraph \<Rightarrow> codegraph" where
  "with_store s cg = cg\<lparr>cg_orchestrator := (cg_orchestrator cg)\<lparr>oc_queries := s\<rparr>\<rparr>"

type_synonym 'a cg = "codegraph \<Rightarrow> (index_error + 'a) \<times> codegraph"

definition cg_then :: "'a cg \<Rightarrow> ('a \<Rightarrow> 'b cg) \<Rightarrow> 'b cg" where
  "cg_then m f g = (case m g of (Inl e, g1) \<Rightarrow> (Inl e, g1) | (Inr x, g1) \<Rightarrow> f x g1)"

definition cg_return :: "'a \<Rightarrow> 'a cg" where
  "cg_return x g = (Inr x, g)"

definition on_orchestrator :: "'a ix \<Rightarrow> 'a cg" where
  "on_orchestrator m g = (case m (cg_orchestrator g) of (r, oc) \<Rightarrow> (r, g\<lparr>cg_orchestrator := oc\<rparr>))"

definition on_resolver :: "(rstate \<Rightarrow> (db_error + 'a) \<times> rstate) \<Rightarrow> 'a cg" where
  "on_resolver m g =
     (case m (cg_resolver g, cg_store g) of
        (r, (rs, s)) \<Rightarrow> (map_sum Store_error id r, with_store s g\<lparr>cg_resolver := rs\<rparr>))"

section \<open>Opening a project\<close>

datatype open_error = Already_there string | Not_initialized string | Invalid_directory "string list" | Cannot_create

definition new_codegraph :: "facade_env \<Rightarrow> string \<Rightarrow> project \<Rightarrow> string list \<Rightarrow> query_builder \<Rightarrow> codegraph" where
  "new_codegraph env projectRoot project tokens queries =
     (let s = queries\<lparr>qb_projectNameTokens := tokens\<rparr> in
      \<lparr>cg_orchestrator = new_orchestrator projectRoot s, cg_resolver = createResolver (fa_detect env) project (qb_db s)\<rparr>)"

definition initSync :: "facade_env \<Rightarrow> string \<Rightarrow> project \<Rightarrow> string list \<Rightarrow> query_builder \<Rightarrow> (open_error + codegraph) \<times> dir_effect list" where
  "initSync env projectRoot project tokens created =
     (let resolvedRoot = path_resolve (fa_cwd env) projectRoot in
      if isInitialized (fa_dir env) resolvedRoot then (Inl (Already_there resolvedRoot), [])
      else (case createDirectory (fa_dir env) resolvedRoot of
          (Inl (Already_initialized r), es) \<Rightarrow> (Inl (Already_there r), es)
        | (Inl _, es) \<Rightarrow> (Inl Cannot_create, es)
        | (Inr _, es) \<Rightarrow> (Inr (new_codegraph env resolvedRoot project tokens created), es)))"

definition openSync :: "facade_env \<Rightarrow> string \<Rightarrow> project \<Rightarrow> string list \<Rightarrow> query_builder \<Rightarrow> (open_error + codegraph) \<times> dir_effect list" where
  "openSync env projectRoot project tokens stored =
     (let resolvedRoot = path_resolve (fa_cwd env) projectRoot in
      if \<not> isInitialized (fa_dir env) resolvedRoot then (Inl (Not_initialized resolvedRoot), [])
      else (case validateDirectory (fa_dir env) resolvedRoot of
          ((valid, errors), es) \<Rightarrow>
            if \<not> valid then (Inl (Invalid_directory errors), es)
            else (Inr (new_codegraph env resolvedRoot project tokens stored), es)))"

section \<open>The version stamp\<close>





section \<open>Indexing\<close>

definition lock_refused :: index_result where
  "lock_refused =
     no_files\<lparr>ir_errors := [\<lparr>xe_message = ''Could not acquire file lock - another process may be indexing'',
       xe_filePath = None, xe_isError = True, xe_code = None\<rparr>]\<rparr>"




definition indexFiles_cg :: "facade_env \<Rightarrow> bool \<Rightarrow> string list \<Rightarrow> index_result cg" where
  "indexFiles_cg env acquired filePaths g =
     (if \<not> acquired then (Inr lock_refused, g) else on_orchestrator (indexFiles (fa_index env) filePaths) g)"

definition nothing_synced :: sync_result where
  "nothing_synced = \<lparr>sy_filesChecked = 0, sy_filesAdded = 0, sy_filesModified = 0, sy_filesRemoved = 0,
     sy_nodesUpdated = 0, sy_changedFilePaths = None\<rparr>"

text \<open>The references of the changed files, or all of them when the changed files are unknown.\<close>

definition resolve_changes :: "string list option \<Rightarrow> unit cg" where
  "resolve_changes changed g =
     (case changed of
        Some fs \<Rightarrow> cg_then (on_resolver (resolveAndPersist (getUnresolvedReferencesByFiles fs (cg_db g)))) (\<lambda>_. cg_return ()) g
      | None \<Rightarrow> cg_then (on_resolver (resolveAndPersistBatched 5000)) (\<lambda>_. cg_return ()) g)"

text \<open>\<open>sync\<close>, with the time it took as part of its result.\<close>

definition sync_cg :: "facade_env \<Rightarrow> bool \<Rightarrow> nat \<Rightarrow> (sync_result \<times> nat) cg" where
  "sync_cg env acquired took g =
     (if \<not> acquired then (Inr (nothing_synced, 0), g)
      else cg_then (on_orchestrator (sync (fa_index env))) (\<lambda>result.
        if 0 < sy_filesAdded result \<or> 0 < sy_filesModified result
        then cg_then (on_resolver (\<lambda>st. case runPostExtract st of (n, st') \<Rightarrow> (Inr n, st'))) (\<lambda>_.
               cg_then (resolve_changes (sy_changedFilePaths result)) (\<lambda>_.
                 cg_then (on_resolver resolveChainedCallsViaConformance) (\<lambda>_. cg_return (result, took))))
        else cg_return (result, took)) g)"

text \<open>What the file watcher is told by the function it runs.\<close>

definition watch_outcome :: "index_error + sync_result \<times> nat \<Rightarrow> sync_outcome" where
  "watch_outcome r =
     (case r of
        Inl e \<Rightarrow> Sync_failed
      | Inr (result, durationMs) \<Rightarrow>
          if sy_filesChecked result = 0 \<and> durationMs = 0 then Sync_lock_unavailable else Sync_done)"

section \<open>The operations of the resolver on a good store\<close>

text \<open>A step that keeps the store good and the file records as they are.\<close>

definition quiet :: "query_builder \<Rightarrow> query_builder \<Rightarrow> bool" where
  "quiet s s' \<longleftrightarrow> good s' \<and> t_files (qb_db s') = t_files (qb_db s)"

lemma quiet_refl: "good s \<Longrightarrow> quiet s s"
  by (simp add: quiet_def)

lemma quiet_trans: "quiet s s' \<Longrightarrow> quiet s' s'' \<Longrightarrow> quiet s s''"
  by (simp add: quiet_def)

lemma quiet_updateNode:
  assumes "good s"
  shows "quiet s (snd (updateNode n s))"
proof -
  have "t_files (qb_db (snd (updateNode n s))) = t_files (qb_db s)"
    by (simp add: updateNode_def Let_def)
  then show ?thesis
    using assms good_safe [OF assms safe_update_node] by (simp add: quiet_def good_def)
qed

lemma quiet_update_nodes: "good s \<Longrightarrow> quiet s (fst (update_nodes ns (s, n)))"
proof (induction ns "(s, n)" arbitrary: s n rule: update_nodes.induct)
  case (2 m ms s updated)
  have step: "quiet s (snd (updateNode m s))"
    using quiet_updateNode [OF 2(2)] .
  then have "good (snd (updateNode m s))"
    by (simp add: quiet_def)
  with 2(1) step show ?case
    by (cases "updateNode m s") (auto split: sum.split intro: quiet_trans)
qed (simp add: quiet_refl)

lemma quiet_runPostExtract:
  assumes "good s" and "runPostExtract (rs, s) = (n, (rs', s'))"
  shows "quiet s s' \<and> rs_frameworks rs' = rs_frameworks rs"
proof -
  have each: "quiet s (fst (fold (\<lambda>fw (s, updated).
      case fw_postExtract fw (createContext (qb_db s) rs1) of
        Some nodes \<Rightarrow> update_nodes nodes (s, updated)
      | None \<Rightarrow> (s, updated)) fws (s, k)))" if "good s" for fws k rs1 s
    using that
  proof (induction fws arbitrary: s k)
    case (Cons fw fws)
    show ?case
    proof (cases "fw_postExtract fw (createContext (qb_db s) rs1)")
      case (Some nodes)
      obtain s1 k1 where step: "update_nodes nodes (s, k) = (s1, k1)"
        by (cases "update_nodes nodes (s, k)")
      then have "quiet s s1"
        using quiet_update_nodes [OF Cons.prems, of nodes k] by simp
      moreover from this have "good s1"
        by (simp add: quiet_def)
      ultimately show ?thesis
        using Cons.IH [of s1 k1] Some step by (auto intro: quiet_trans)
    qed (use Cons in simp)
  qed (simp add: quiet_refl)
  show ?thesis
    using assms(2) each [OF assms(1), of "clearCaches rs" "rs_frameworks (clearCaches rs)" 0]
    by (auto simp: runPostExtract_def Let_def clearCaches_def split: prod.splits if_splits)
qed

lemma quiet_insertEdges:
  assumes "good s"
  shows "fst (insertEdges es s) = Inr () \<and> quiet s (snd (insertEdges es s))"
  using does_insertEdges [OF assms, of es] by (auto simp: does_def quiet_def)

lemma quiet_deleteSpecific:
  assumes "good s"
  shows "fst (deleteSpecificResolvedReferences ks s) = Inr () \<and> quiet s (snd (deleteSpecificResolvedReferences ks s))"
proof -
  have "qb_inv (snd (deleteSpecificResolvedReferences ks s))"
  proof (cases "ks = []")
    case False
    then show ?thesis
      using unref_batch.batch_safe [of s ks] assms by (simp add: deleteSpecificResolvedReferences_def safe_step_def good_def)
  qed (use assms in \<open>simp add: deleteSpecificResolvedReferences_def good_def\<close>)
  then show ?thesis
    using deleteSpecific_result [of s ks] assms by (simp add: good_def quiet_def)
qed

text \<open>An operation of the resolver that cannot fail on a good store and is quiet.\<close>

definition settles :: "(rstate \<Rightarrow> (db_error + 'a) \<times> rstate) \<Rightarrow> resolver \<Rightarrow> query_builder \<Rightarrow> bool" where
  "settles m rs s \<longleftrightarrow>
     (case m (rs, s) of (r, (rs', s')) \<Rightarrow> (\<exists>x. r = Inr x) \<and> quiet s s' \<and> rs_frameworks rs' = rs_frameworks rs)"

lemma settles_post: "good s \<Longrightarrow> settles (\<lambda>st. case runPostExtract st of (n, st') \<Rightarrow> (Inr n, st')) rs s"
  using quiet_runPostExtract [of s rs] by (auto simp: settles_def split: prod.split)

lemma clearCaches_frameworks [simp]: "rs_frameworks (clearCaches rs) = rs_frameworks rs"
  by (simp add: clearCaches_def)

lemma resolve_loop_frameworks: "resolve_loop d refs rs = (res, rs') \<Longrightarrow> rs_frameworks rs' = rs_frameworks rs"
proof (induction refs arbitrary: rs res rs')
  case (Cons ref refs)
  obtain m rs1 where one: "resolveOne d ref rs = (m, rs1)"
    by (cases "resolveOne d ref rs")
  obtain good bad rs2 where rest: "resolve_loop d refs rs1 = ((good, bad), rs2)"
    by (metis prod.collapse)
  have "rs' = rs2"
    using Cons.prems one rest by (simp split: option.splits)
  then show ?case
    using Cons.IH [OF rest] resolveOne_frameworks [of d ref rs] one by simp
qed simp

lemma resolveAll_frameworks: "resolveAll refs d rs = (result, rs') \<Longrightarrow> rs_frameworks rs' = rs_frameworks rs"
  using resolve_loop_frameworks [of d "map (to_unresolved_ref d) refs" "warmCaches d rs"]
  by (auto simp: resolveAll_def split: prod.splits)

lemma settles_resolveAndPersist:
  assumes "good s"
  shows "settles (resolveAndPersist refs) rs s"
proof -
  obtain result rs' where all: "resolveAll refs (qb_db s) rs = (result, rs')"
    by (cases "resolveAll refs (qb_db s) rs")
  let ?es = "createEdges (qb_db s) (rr_resolved result)"
  let ?ks = "map (\<lambda>r. ref_key_of (m_original r)) (rr_resolved result)"
  obtain s1 where s1: "insertEdges ?es s = (Inr (), s1)" "quiet s s1"
    using quiet_insertEdges [OF assms, of ?es] by (cases "insertEdges ?es s") simp
  then have "good s1"
    by (simp add: quiet_def)
  then obtain s2 where s2: "deleteSpecificResolvedReferences ?ks s1 = (Inr (), s2)" "quiet s1 s2"
    using quiet_deleteSpecific [of s1 ?ks] by (cases "deleteSpecificResolvedReferences ?ks s1") simp
  show ?thesis
    using s1 s2 all resolveAll_frameworks [OF all]
    by (simp add: settles_def resolveAndPersist_def on_store_def quiet_def)
qed

lemma settles_conformance:
  assumes "good s"
  shows "settles resolveChainedCallsViaConformance rs s"
proof -
  define stored where "stored es = snd (insertEdges es s)" for es
  have stored: "insertEdges es s = (Inr (), stored es)" "quiet s (stored es)" for es
    using quiet_insertEdges [OF assms, of es] by (simp_all add: stored_def prod_eq_iff)
  show ?thesis
    using quiet_refl [OF assms] stored
    by (simp add: settles_def resolveChainedCallsViaConformance_def Let_def)
qed


section \<open>The operations of the facade\<close>

text \<open>How an operation on a project ends: with a good store and the given outcome.\<close>

definition brings :: "'a cg \<Rightarrow> codegraph \<Rightarrow> ('a \<Rightarrow> codegraph \<Rightarrow> bool) \<Rightarrow> bool" where
  "brings m g P \<longleftrightarrow> (case m g of (Inr x, g') \<Rightarrow> good (cg_store g') \<and> P x g' | (Inl _, _) \<Rightarrow> False)"

lemma brings_then:
  assumes "brings m g P" and "\<And>x g'. good (cg_store g') \<Longrightarrow> P x g' \<Longrightarrow> brings (f x) g' Q"
  shows "brings (cg_then m f) g Q"
  using assms by (fastforce simp: brings_def cg_then_def split: prod.splits sum.splits)

lemma brings_return: "good (cg_store g) \<Longrightarrow> P x g \<Longrightarrow> brings (cg_return x) g P"
  by (simp add: brings_def cg_return_def)

lemma brings_mono: "brings m g P \<Longrightarrow> (\<And>x g'. P x g' \<Longrightarrow> Q x g') \<Longrightarrow> brings m g Q"
  by (auto simp: brings_def split: prod.splits sum.splits)

lemma with_store_fields [simp]:
  "cg_store (with_store s g) = s" "cg_resolver (with_store s g) = cg_resolver g"
  by (simp_all add: with_store_def)

lemma brings_settles:
  assumes "settles m (cg_resolver g) (cg_store g)"
  shows "brings (on_resolver m) g (\<lambda>_ g'. t_files (cg_db g') = t_files (cg_db g)
    \<and> rs_frameworks (cg_resolver g') = rs_frameworks (cg_resolver g))"
  using assms by (auto simp: settles_def brings_def on_resolver_def quiet_def split: prod.splits)



lemma sync_changed_known:
  assumes "sync env oc = (Inr res, oc')" and "0 < sy_filesAdded res \<or> 0 < sy_filesModified res"
  shows "sy_changedFilePaths res \<noteq> None"
proof -
  obtain files where files: "scanDirectory (ix_scan env) (oc_rootDir oc) = Some files"
    using assms(1) by (cases "scanDirectory (ix_scan env) (oc_rootDir oc)") (simp_all add: sync_def)
  let ?kind = "\<lambda>f. classify_file env (oc_rootDir oc) (tracked_in (getAllFiles (qb_db (oc_queries oc))) f) f"
  have res: "sy_filesAdded res = length (filter (\<lambda>f. ?kind f = Added) files)"
      "sy_filesModified res = length (filter (\<lambda>f. ?kind f = Modified) files)"
      "sy_changedFilePaths res = (if filter (\<lambda>f. ?kind f \<noteq> Unchanged) files = [] then None else Some (filter (\<lambda>f. ?kind f \<noteq> Unchanged) files))"
    using assms(1) files by (auto simp: sync_def ix_then_def ix_return_def Let_def split: prod.splits sum.splits)
  have "filter (\<lambda>f. ?kind f \<noteq> Unchanged) files \<noteq> []"
    using assms(2) unfolding res(1,2) by (fastforce simp: filter_empty_conv)
  then show ?thesis
    unfolding res(3) by simp
qed

lemma brings_changes:
  assumes "good (cg_store g)" and "changed \<noteq> None"
  shows "brings (resolve_changes changed) g (\<lambda>_ g'. t_files (cg_db g') = t_files (cg_db g))"
proof -
  obtain fs where fs: "changed = Some fs"
    using assms(2) by blast
  have "brings (cg_then (on_resolver (resolveAndPersist refs)) (\<lambda>_. cg_return ())) g (\<lambda>_ g'. t_files (cg_db g') = t_files (cg_db g))" for refs
    by (rule brings_then [OF brings_settles [OF settles_resolveAndPersist [OF assms(1)]]]) (simp add: brings_return)
  then show ?thesis
    by (simp add: resolve_changes_def fs brings_def)
qed

text \<open>What runs after the orchestrator has synchronised changes no file record.\<close>

lemma resolution_after_sync:
  assumes g: "good (cg_store g)" and "sync env oc = (Inr res, oc')"
  shows "brings (if 0 < sy_filesAdded res \<or> 0 < sy_filesModified res
        then cg_then (on_resolver (\<lambda>st. case runPostExtract st of (n, st') \<Rightarrow> (Inr n, st'))) (\<lambda>_.
               cg_then (resolve_changes (sy_changedFilePaths res)) (\<lambda>_.
                 cg_then (on_resolver resolveChainedCallsViaConformance) (\<lambda>_. cg_return (res, took))))
        else cg_return (res, took)) g (\<lambda>x g'. x = (res, took) \<and> t_files (cg_db g') = t_files (cg_db g))"
proof (cases "0 < sy_filesAdded res \<or> 0 < sy_filesModified res")
  case True
  let ?same = "\<lambda>x g'. x = (res, took) \<and> t_files (cg_db g') = t_files (cg_db g)"
  from True have known: "sy_changedFilePaths res \<noteq> None"
    by (rule sync_changed_known [OF assms(2)])
  have last: "brings (cg_then (on_resolver resolveChainedCallsViaConformance) (\<lambda>_. cg_return (res, took))) g1 ?same"
    if "good (cg_store g1)" "t_files (cg_db g1) = t_files (cg_db g)" for g1
    by (rule brings_then [OF brings_settles [OF settles_conformance [OF that(1)]]]) (use that(2) in \<open>simp add: brings_return\<close>)
  have "brings (cg_then (resolve_changes (sy_changedFilePaths res)) (\<lambda>_.
      cg_then (on_resolver resolveChainedCallsViaConformance) (\<lambda>_. cg_return (res, took)))) g1 ?same"
    if "good (cg_store g1)" "t_files (cg_db g1) = t_files (cg_db g)" for g1
    by (rule brings_then [OF brings_changes [OF that(1) known]]) (use that(2) last in simp)
  then have "brings (cg_then (on_resolver (\<lambda>st. case runPostExtract st of (n, st') \<Rightarrow> (Inr n, st'))) (\<lambda>_.
             cg_then (resolve_changes (sy_changedFilePaths res)) (\<lambda>_.
               cg_then (on_resolver resolveChainedCallsViaConformance) (\<lambda>_. cg_return (res, took))))) g ?same"
    by (intro brings_then [OF brings_settles [OF settles_post [OF g]]]) simp
  then show ?thesis
    using True by simp
qed (use g in \<open>simp add: brings_return\<close>)

text \<open>
  The records after a synchronisation: none for a file that is not there, and an up to date one for every
  present file that can be indexed. Nothing is said of a present file that cannot be, such as one beyond the size
  limit, which keeps what it had.
\<close>

definition records_current :: "index_env \<Rightarrow> string \<Rightarrow> string list \<Rightarrow> db \<Rightarrow> db \<Rightarrow> bool" where
  "records_current env rootDir currentFiles d d' \<longleftrightarrow>
     (\<forall>f. f \<notin> set currentFiles \<longrightarrow> getFileByPath f d' = None)
     \<and> (\<forall>f \<in> set currentFiles. \<forall>content stats. indexable env rootDir f content stats \<longrightarrow> up_to_date env d content stats f d')"

lemma synced_records:
  "synced_to env currentFiles oc oc' \<Longrightarrow> t_files d' = t_files (qb_db (oc_queries oc')) \<Longrightarrow>
    records_current env (oc_rootDir oc) currentFiles (qb_db (oc_queries oc)) d'"
  by (simp add: records_current_def synced_to_def up_to_date_def getFile_same_files [of d' "qb_db (oc_queries oc')"])

text \<open>
  C4: a synchronisation through the facade, with the lock and of a directory that can be scanned. It fails only
  with an exception of the extractor on one of the present files, which cannot be indexed (the extractor throws
  the memory errors of the parser on). Otherwise, and after the resolution passes it runs, no file is recorded
  that is not there, and the record of every present file that can be indexed is up to date. The store is
  consistent in either case.
\<close>

theorem sync_through_facade:
  assumes "good (cg_store g)" and "scanDirectory (ix_scan (fa_index env)) (oc_rootDir (cg_orchestrator g)) = Some currentFiles"
  shows "case sync_cg env True took g of (r, g') \<Rightarrow> good (cg_store g') \<and>
    (case r of
       Inl e \<Rightarrow> \<exists>f \<in> set currentFiles. e = Extract_threw f \<and> extractor_throws (fa_index env) f
         \<and> \<not> can_index (fa_index env) (oc_rootDir (cg_orchestrator g)) f
     | Inr (result, ms) \<Rightarrow> ms = took \<and>
         records_current (fa_index env) (oc_rootDir (cg_orchestrator g)) currentFiles (cg_db g) (cg_db g'))"
proof -
  let ?ix = "fa_index env" and ?oc = "cg_orchestrator g"
  have "steady ?ix ?oc"
    using assms(1,2) by (simp add: steady_def)
  from sync_effect [OF this assms(2)] obtain r oc' where oc': "sync ?ix ?oc = (r, oc')" "steady ?ix oc'"
      "case r of Inl e \<Rightarrow> \<exists>f \<in> set currentFiles. e = Extract_threw f \<and> extractor_throws ?ix f \<and> \<not> can_index ?ix (oc_rootDir ?oc) f
       | Inr _ \<Rightarrow> synced_to ?ix currentFiles ?oc oc'"
    by (auto split: prod.splits)
  let ?g = "g\<lparr>cg_orchestrator := oc'\<rparr>"
  have g: "good (cg_store ?g)"
    using oc'(2) by (simp add: steady_def)
  show ?thesis
  proof (cases r)
    case (Inl e)
    then have "sync_cg env True took g = (Inl e, ?g)"
      using oc'(1) by (simp add: sync_cg_def cg_then_def on_orchestrator_def)
    then show ?thesis
      using Inl oc'(3) g by simp
  next
    case (Inr res)
    from resolution_after_sync [OF g oc'(1) [unfolded Inr], where ?took = took] obtain g' where g':
      "sync_cg env True took g = (Inr (res, took), g')" "good (cg_store g')" "t_files (cg_db g') = t_files (qb_db (oc_queries oc'))"
      using oc'(1) Inr by (auto simp: sync_cg_def cg_then_def on_orchestrator_def brings_def split: prod.splits sum.splits)
    then show ?thesis
      using Inr oc'(3) synced_records by simp
  qed
qed

text \<open>The branch of \<open>sync\<close> that resolves all references in batches is never taken.\<close>

lemma sync_never_batched:
  "sync env oc = (Inr res, oc') \<Longrightarrow> 0 < sy_filesAdded res \<or> 0 < sy_filesModified res \<Longrightarrow>
    \<exists>fs. resolve_changes (sy_changedFilePaths res) g =
      cg_then (on_resolver (resolveAndPersist (getUnresolvedReferencesByFiles fs (cg_db g)))) (\<lambda>_. cg_return ()) g"
  using sync_changed_known [of env oc res oc'] by (auto simp: resolve_changes_def)

section \<open>A full index\<close>




section \<open>The watcher's view\<close>

lemma refused_sync_locked: "watch_outcome (fst (sync_cg env False took g)) = Sync_lock_unavailable"
  by (simp add: watch_outcome_def sync_cg_def nothing_synced_def)

text \<open>
  An empty result is taken for a refused lock: a quick synchronisation of a project without source files, for
  instance after the last one was deleted, is reported to the watcher as a lock that was not available.
\<close>

lemma empty_project_reported_locked:
  assumes "good (cg_store g)" and "scanDirectory (ix_scan (fa_index env)) (oc_rootDir (cg_orchestrator g)) = Some []"
  shows "watch_outcome (fst (sync_cg env True 0 g)) = Sync_lock_unavailable"
proof -
  have "steady (fa_index env) (cg_orchestrator g)"
    using assms by (simp add: steady_def)
  from remove_gone_ix [OF this] obtain n oc1 where
    "ix_each (remove_gone (fa_index env) (oc_rootDir (cg_orchestrator g)) []) (getAllFiles (cg_db g)) 0 (cg_orchestrator g) = (Inr n, oc1)"
    by blast
  then show ?thesis
    using assms(2)
    by (simp add: watch_outcome_def sync_cg_def cg_then_def on_orchestrator_def sync_def Let_def ix_then_def ix_return_def cg_return_def)
qed

section \<open>Examples\<close>

definition tiny_facade :: facade_env where
  "tiny_facade = \<lparr>fa_index = tiny_env, fa_dir = small_dir, fa_cwd = ''/'', fa_detect = (\<lambda>_. []), fa_version = ''1.0.0'', fa_now = 5\<rparr>"

definition tiny_codegraph :: codegraph where
  "tiny_codegraph = \<lparr>cg_orchestrator = tiny, cg_resolver = new_resolver widget_project\<rparr>"

lemma tiny_fields: "cg_orchestrator tiny_codegraph = tiny" "fa_index tiny_facade = tiny_env" "fa_detect tiny_facade = (\<lambda>_. [])"
  by (simp_all add: tiny_codegraph_def tiny_facade_def)

theorem sync_through_facade_witness:
  "case sync_cg tiny_facade True 7 tiny_codegraph of (r, g') \<Rightarrow>
    (case r of Inl _ \<Rightarrow> False | Inr (result, ms) \<Rightarrow> ms = 7 \<and> getFileByPath ''a.ts'' (cg_db g') \<noteq> None)"
proof -
  have "good (cg_store tiny_codegraph)"
    unfolding tiny_fields by (rule tiny_good)
  moreover have "scanDirectory (ix_scan (fa_index tiny_facade)) (oc_rootDir (cg_orchestrator tiny_codegraph)) = Some [''a.ts'']"
    unfolding tiny_fields by (rule tiny_scan)
  ultimately have "case sync_cg tiny_facade True 7 tiny_codegraph of (r, g') \<Rightarrow> good (cg_store g') \<and>
    (case r of
       Inl e \<Rightarrow> \<exists>f \<in> set [''a.ts'']. e = Extract_threw f \<and> extractor_throws (fa_index tiny_facade) f
         \<and> \<not> can_index (fa_index tiny_facade) (oc_rootDir (cg_orchestrator tiny_codegraph)) f
     | Inr (result, ms) \<Rightarrow> ms = 7 \<and>
         records_current (fa_index tiny_facade) (oc_rootDir (cg_orchestrator tiny_codegraph)) [''a.ts''] (cg_db tiny_codegraph) (cg_db g'))"
    by (rule sync_through_facade)
  then show ?thesis
    using tiny_can_index tiny_indexable [of "''a.ts''"] unfolding tiny_fields records_current_def
    by (fastforce simp: up_to_date_def split: prod.splits sum.splits option.splits)
qed


end
