(* ===== verification/ContextSearch.thy ===== *)
theory ContextSearch
  imports Search TraversalLaws
begin

text \<open>
  The retrieval of the context builder, \<open>context/index.ts\<close>: the symbols that a question names, the search
  channels (exact names, definitions by prefix, terms, camel-case boundaries, compounds), and how their
  results are merged and ranked. Scores are rationals, sorting is stable, and where the source changes the
  score of a shared result object, the list of results is rebuilt.
\<close>

section \<open>Symbols of a question\<close>

abbreviation up_re :: re where
  "up_re \<equiv> Cls is_upper"

abbreviation low_re :: re where
  "low_re \<equiv> Cls is_lower"

definition letter :: "char \<Rightarrow> bool" where
  "letter c \<longleftrightarrow> is_upper c \<or> is_lower c"

definition letter_digit :: "char \<Rightarrow> bool" where
  "letter_digit c \<longleftrightarrow> letter c \<or> is_digit c"

definition word_of :: "re \<Rightarrow> re" where
  "word_of r = re_seq [Wordb, r, Wordb]"

definition camelCasePattern :: re where
  "camelCasePattern = word_of
     (Alt (re_seq [up_re, re_plus low_re, Star (Seq up_re (Star low_re))])
          (Seq (re_plus low_re) (re_plus (Seq up_re (Star low_re)))))"

definition snakeCasePattern :: re where
  "snakeCasePattern = word_of (re_seq [Cls letter, Star (Cls letter_digit),
     re_plus (Seq (re_chr CHR ''_'') (re_plus (Cls letter_digit)))])"

definition screamingPattern :: re where
  "screamingPattern = word_of (re_seq [up_re, Star (Cls (\<lambda>c. is_upper c \<or> is_digit c)),
     re_plus (Seq (re_chr CHR ''_'') (re_plus (Cls (\<lambda>c. is_upper c \<or> is_digit c))))])"

definition acronymPattern :: re where
  "acronymPattern = word_of (Seq up_re (re_plus up_re))"

definition dotPattern :: re where
  "dotPattern = word_of (re_seq [Cls letter, Star (Cls letter_digit),
     re_plus (re_seq [re_chr CHR ''.'', Cls letter, Star (Cls letter_digit)])])"

definition lowercasePattern :: re where
  "lowercasePattern = word_of (re_seq [low_re, Cls (\<lambda>c. is_lower c \<or> is_digit c), re_plus (Cls (\<lambda>c. is_lower c \<or> is_digit c))])"

definition commonWords :: "string list" where
  "commonWords =
     [''the'', ''and'', ''for'', ''with'', ''from'', ''this'', ''that'', ''have'', ''been'',
      ''will'', ''would'', ''could'', ''should'', ''does'', ''done'', ''make'', ''made'',
      ''use'', ''used'', ''using'', ''work'', ''works'', ''find'', ''found'', ''show'',
      ''call'', ''called'', ''calling'', ''get'', ''set'', ''add'', ''all'', ''any'',
      ''how'', ''what'', ''when'', ''where'', ''which'', ''who'', ''why'',
      ''not'', ''but'', ''are'', ''was'', ''were'', ''has'', ''had'', ''its'',
      ''can'', ''did'', ''may'', ''also'', ''into'', ''than'', ''then'', ''them'',
      ''each'', ''other'', ''some'', ''such'', ''only'', ''same'', ''about'',
      ''after'', ''before'', ''between'', ''through'', ''during'', ''without'',
      ''again'', ''further'', ''once'', ''here'', ''there'', ''both'', ''just'',
      ''more'', ''most'', ''very'', ''being'', ''having'', ''doing'',
      ''system'', ''need'', ''needs'', ''want'', ''wants'', ''like'', ''look'',
      ''change'', ''changes'', ''changed'', ''changing'',
      ''layer'', ''handle'', ''handles'', ''handling'', ''incoming'', ''outgoing'',
      ''data'', ''flow'', ''flows'', ''level'', ''levels'', ''request'', ''requests'',
      ''response'', ''responses'', ''implement'', ''implements'', ''implementation'',
      ''interface'', ''interfaces'', ''class'', ''classes'', ''method'', ''methods'',
      ''trigger'', ''triggers'', ''affected'', ''affect'', ''affects'',
      ''else'', ''code'', ''failing'', ''failed'', ''silently'', ''decide'', ''decides'',
      ''return'', ''returns'', ''returned'', ''take'', ''takes'', ''taken'',
      ''check'', ''checks'', ''checked'', ''create'', ''creates'', ''created'',
      ''read'', ''reads'', ''write'', ''writes'', ''written'',
      ''start'', ''starts'', ''stop'', ''stops'', ''run'', ''runs'', ''running'']"

definition dot_symbols :: "string \<Rightarrow> string list" where
  "dot_symbols m = m # filter (\<lambda>part. 2 \<le> length part) (split_by (\<lambda>c. c = CHR ''.'') m)"

definition extractSymbolsFromQuery :: "string \<Rightarrow> string list" where
  "extractSymbolsFromQuery query =
     (let symbols = set_of_list
        (filter (\<lambda>m. 2 \<le> length m) (re_matches camelCasePattern query 0)
         @ filter (\<lambda>m. 3 \<le> length m) (re_matches snakeCasePattern query 0)
         @ re_matches screamingPattern query 0
         @ re_matches acronymPattern query 0
         @ concat (map dot_symbols (re_matches dotPattern query 0))
         @ re_matches lowercasePattern query 0)
      in filter (\<lambda>s. to_lower s \<notin> set commonWords) symbols)"

section \<open>Options\<close>

definition HIGH_VALUE_NODE_KINDS :: "node_kind list" where
  "HIGH_VALUE_NODE_KINDS =
     [NK_function, NK_method, NK_class, NK_interface, NK_type_alias, NK_struct, NK_trait,
      NK_component, NK_route, NK_variable, NK_constant, NK_enum, NK_module, NK_namespace]"

record find_options =
  fo_searchLimit :: nat
  fo_traversalDepth :: nat
  fo_maxNodes :: nat
  fo_minScore :: rat
  fo_edgeKinds :: "edge_kind list"
  fo_nodeKinds :: "node_kind list"

definition DEFAULT_FIND_OPTIONS :: find_options where
  "DEFAULT_FIND_OPTIONS =
     \<lparr>fo_searchLimit = 3, fo_traversalDepth = 1, fo_maxNodes = 20, fo_minScore = 3 / 10,
      fo_edgeKinds = [], fo_nodeKinds = HIGH_VALUE_NODE_KINDS\<rparr>"

definition half_up :: "nat \<Rightarrow> nat" where
  "half_up n = (n + 1) div 2"

section \<open>Search channels\<close>

abbreviation by_score :: "search_result list \<Rightarrow> search_result list" where
  "by_score \<equiv> sort_key (\<lambda>r. - sr_score r)"

definition add_score :: "rat \<Rightarrow> search_result \<Rightarrow> search_result" where
  "add_score x r = r\<lparr>sr_score := sr_score r + x\<rparr>"

definition scale_score :: "rat \<Rightarrow> search_result \<Rightarrow> search_result" where
  "scale_score x r = r\<lparr>sr_score := sr_score r * x\<rparr>"

definition limited :: "nat \<Rightarrow> node_kind list \<Rightarrow> search_options" where
  "limited limit kinds = \<lparr>so_kinds = kinds, so_languages = [], so_limit = Some limit, so_offset = None\<rparr>"

text \<open>The names of a file among the matches, without case, and the boost for files with more than one.\<close>

definition fileSymbolCount :: "search_result list \<Rightarrow> string \<Rightarrow> nat" where
  "fileSymbolCount matches file =
     length (set_of_list (map (\<lambda>r. to_lower (n_name (sr_node r))) (filter (\<lambda>r. n_filePath (sr_node r) = file) matches)))"

definition co_located :: "search_result list \<Rightarrow> search_result list" where
  "co_located matches =
     map (\<lambda>r. let symbolCount = fileSymbolCount matches (n_filePath (sr_node r)) in
            if 1 < symbolCount then add_score (of_nat (symbolCount - 1) * 20) r else r) matches"

definition exact_matches :: "find_options \<Rightarrow> string list \<Rightarrow> db \<Rightarrow> search_result list" where
  "exact_matches opts symbols d =
     (if symbols = [] then []
      else (let found = findNodesByExactName symbols (limited (fo_searchLimit opts * 5) (fo_nodeKinds opts)) d in
        take (fo_searchLimit opts * 2) (if 1 < length found then by_score (co_located found) else found)))"

definition definitionKinds :: "node_kind list" where
  "definitionKinds = [NK_class, NK_interface, NK_struct, NK_trait, NK_protocol, NK_enum, NK_type_alias]"

definition title_cased :: "string \<Rightarrow> string" where
  "title_cased s = (case s of [] \<Rightarrow> [] | c # cs \<Rightarrow> upper_char c # to_lower cs)"

definition push_unless_known :: "search_result \<Rightarrow> search_result list \<Rightarrow> search_result list" where
  "push_unless_known r acc = (if result_id r \<in> result_id ` set acc then acc else acc @ [r])"

definition prefix_matches :: "fts_index \<Rightarrow> query_builder \<Rightarrow> string \<Rightarrow> search_result list" where
  "prefix_matches fts s titleCased =
     by_score (map (\<lambda>r. add_score (15 + max 0 (10 - (of_nat (length (n_name (sr_node r))) - of_nat (length titleCased)) / 3)) r)
       (filter (\<lambda>r. starts_with (to_lower (n_name (sr_node r))) (to_lower titleCased))
         (searchNodes fts titleCased (limited 30 definitionKinds) s)))"

definition definition_matches :: "fts_index \<Rightarrow> find_options \<Rightarrow> string list \<Rightarrow> query_builder \<Rightarrow> search_result list \<Rightarrow> search_result list" where
  "definition_matches fts opts symbols s exactMatches =
     (if symbols = [] then exactMatches
      else (let expandedSymbols = set_of_list (symbols @ concat (map getStemVariants symbols)) in
        take (fo_searchLimit opts * 3) (by_score
          (fold (\<lambda>symb acc.
             let titleCased = title_cased symb in
             if titleCased = symb then acc
             else fold push_unless_known (take (fo_searchLimit opts) (prefix_matches fts s titleCased)) acc)
            expandedSymbols exactMatches))))"

definition searchKinds :: "find_options \<Rightarrow> node_kind list" where
  "searchKinds opts =
     (if fo_nodeKinds opts \<noteq> [] then fo_nodeKinds opts
      else [NK_file, NK_module, NK_class, NK_struct, NK_interface, NK_trait, NK_protocol, NK_function, NK_method,
            NK_property, NK_field, NK_variable, NK_constant, NK_enum, NK_enum_member, NK_type_alias, NK_namespace,
            NK_export, NK_route, NK_component])"

text \<open>A result of a term, into the map from ids to results and the number of terms that hit them.\<close>

definition add_term_result :: "search_result \<Rightarrow> (string, search_result \<times> nat) jmap \<Rightarrow> (string, search_result \<times> nat) jmap" where
  "add_term_result r m =
     (case map_get m (result_id r) of
        Some (result, hits) \<Rightarrow> map_set (result_id r) (result\<lparr>sr_score := max (sr_score result) (sr_score r)\<rparr>, hits + 1) m
      | None \<Rightarrow> map_set (result_id r) (r, 1) m)"

definition text_results :: "fts_index \<Rightarrow> find_options \<Rightarrow> string \<Rightarrow> query_builder \<Rightarrow> search_result list" where
  "text_results fts opts query s =
     (let searchTerms = extractSearchTerms query True in
      if searchTerms = [] then []
      else (let m = fold (\<lambda>term. fold add_term_result
                (searchNodes fts term (limited (fo_searchLimit opts * 2) (searchKinds opts)) s)) searchTerms []
            in take (fo_searchLimit opts * 2)
                 (by_score (map (\<lambda>(_, result, hits). add_score (of_nat (hits - 1) * 5) result) m))))"

text \<open>Merging the channels: a node keeps its best score and its first place.\<close>

definition merge_result :: "search_result \<Rightarrow> search_result list \<Rightarrow> search_result list" where
  "merge_result r acc =
     (if result_id r \<in> result_id ` set acc
      then map (\<lambda>e. if result_id e = result_id r then e\<lparr>sr_score := max (sr_score e) (sr_score r)\<rparr> else e) acc
      else acc @ [r])"

definition merged_results :: "search_result list \<Rightarrow> search_result list \<Rightarrow> search_result list" where
  "merged_results exactMatches textResults = fold merge_result (exactMatches @ textResults) []"

section \<open>Ranking\<close>

definition isTestQuery :: "string \<Rightarrow> bool" where
  "isTestQuery query \<longleftrightarrow> str_includes (to_lower query) ''test'' \<or> str_includes (to_lower query) ''spec''"

definition demote_tests :: "string \<Rightarrow> search_result list \<Rightarrow> search_result list" where
  "demote_tests query results =
     (if isTestQuery query then results
      else map (\<lambda>r. if isTestFile (n_filePath (sr_node r)) then scale_score (3 / 10) r else r) results)"

definition boost_core :: "db \<Rightarrow> search_result list \<Rightarrow> search_result list" where
  "boost_core d results =
     (case getDominantFile d of
        None \<Rightarrow> results
      | Some (filePath, edgeCount, nextEdgeCount) \<Rightarrow>
          if 3 * nextEdgeCount \<le> edgeCount
          then (case last_index_of filePath ''/'' of
                  Some slash \<Rightarrow>
                    if 0 < slash
                    then map (\<lambda>r. if starts_with (n_filePath (sr_node r)) (take (slash + 1) filePath) then add_score 25 r else r) results
                    else results
                | None \<Rightarrow> results)
          else results)"

text \<open>Terms that contain one another form a group; longer terms come first.\<close>

fun term_groups :: "nat \<Rightarrow> string list \<Rightarrow> string list list" where
  "term_groups 0 ts = []"
| "term_groups (Suc k) [] = []"
| "term_groups (Suc k) (t # ts) =
     (t # filter (\<lambda>u. str_includes t u \<or> str_includes u t) ts)
     # term_groups k (filter (\<lambda>u. \<not> (str_includes t u \<or> str_includes u t)) ts)"

definition termGroups :: "string list \<Rightarrow> string list list" where
  "termGroups queryTerms =
     (let sorted = sort_key (\<lambda>t. - int (length t)) queryTerms in term_groups (length sorted) sorted)"

definition dir_segments :: "string \<Rightarrow> string list" where
  "dir_segments filePath = split_by (\<lambda>c. c = CHR ''/'') (to_lower (path_dirname filePath))"

definition groups_matched :: "string list list \<Rightarrow> node \<Rightarrow> nat" where
  "groups_matched groups n =
     length (filter (\<lambda>group. list_ex (\<lambda>term. str_includes (to_lower (n_name n)) term \<or> term \<in> set (dir_segments (n_filePath n))) group)
       groups)"

definition distinctive_tokens :: "string list \<Rightarrow> string list" where
  "distinctive_tokens symbols = map to_lower (filter isDistinctiveIdentifier symbols)"

definition rerank :: "string list \<Rightarrow> string list \<Rightarrow> search_result list \<Rightarrow> search_result list \<Rightarrow> search_result list" where
  "rerank queryTerms symbols exactMatches results =
     (if length queryTerms < 2 then results
      else (let groups = termGroups queryTerms;
                exactMatchIds = result_id ` set exactMatches;
                distinctiveIds = result_id ` set (filter (\<lambda>r. to_lower (n_name (sr_node r)) \<in> set (distinctive_tokens symbols)) exactMatches)
            in by_score (map (\<lambda>r.
                 let matchCount = groups_matched groups (sr_node r) in
                 if 2 \<le> matchCount then scale_score (1 + of_nat matchCount / 2) r
                 else if result_id r \<in> distinctiveIds then r
                 else if result_id r \<in> exactMatchIds then scale_score (3 / 10) r
                 else scale_score (6 / 10) r) results)))"

section \<open>Camel-case boundaries and compounds\<close>

text \<open>The candidates of one symbol.\<close>

definition camel_candidate :: "string \<Rightarrow> string \<Rightarrow> string set \<Rightarrow> search_result \<Rightarrow> search_result option" where
  "camel_candidate query titleCased known r =
     (let name = n_name (sr_node r) in
      case index_of name titleCased of
        None \<Rightarrow> None
      | Some idx \<Rightarrow>
          if idx = 0 \<or> \<not> letter (name ! (idx - 1)) \<or> result_id r \<in> known
             \<or> (isTestFile (n_filePath (sr_node r)) \<and> \<not> isTestQuery query) then None
          else Some \<lparr>sr_node = sr_node r,
                 sr_score = 8 + max 0 (6 - (of_nat (length name) - of_nat (length titleCased)) / 4)
                   + of_int (scorePathRelevance (n_filePath (sr_node r)) query [])\<rparr>)"

definition camel_round :: "find_options \<Rightarrow> string \<Rightarrow> db \<Rightarrow> string set \<Rightarrow> string
    \<Rightarrow> string list \<times> (string, search_result \<times> nat) jmap \<Rightarrow> string list \<times> (string, search_result \<times> nat) jmap" where
  "camel_round opts query d known symb st =
     (case st of (searched, m) \<Rightarrow>
        (let titleCased = title_cased symb; termKey = to_lower titleCased in
         if length titleCased < 3 \<or> termKey \<in> set searched then st
         else (let likeResults = findNodesByNameSubstring titleCased (limited 200 definitionKinds) True d;
                   candidates = by_score (List.map_filter (camel_candidate query titleCased known) likeResults)
               in (termKey # searched,
                   fold (\<lambda>r m. case map_get m (result_id r) of
                          Some (result, termCount) \<Rightarrow> map_set (result_id r) (result, termCount + 1) m
                        | None \<Rightarrow> map_set (result_id r) (r, 1) m)
                     (take (half_up (fo_searchLimit opts) * 4) candidates) m))))"

definition camel_results :: "find_options \<Rightarrow> string \<Rightarrow> db \<Rightarrow> string list \<Rightarrow> string set \<Rightarrow> search_result list" where
  "camel_results opts query d symbols known =
     take (fo_searchLimit opts)
       (by_score (map (\<lambda>(_, result, termCount).
            result\<lparr>sr_score := sr_score result * of_nat (1 + termCount) + of_nat (termCount - 1) * 30\<rparr>)
          (snd (fold (camel_round opts query d known) symbols ([], [])))))"

definition compound_round :: "string \<Rightarrow> db \<Rightarrow> string set \<Rightarrow> string
    \<Rightarrow> (string, node \<times> string list) jmap \<Rightarrow> (string, node \<times> string list) jmap" where
  "compound_round query d known symb m =
     (let titleCased = title_cased symb in
      if length titleCased < 3 then m
      else fold (\<lambda>r m.
             if result_id r \<in> known \<or> (isTestFile (n_filePath (sr_node r)) \<and> \<not> isTestQuery query) then m
             else (case map_get m (result_id r) of
                     Some (n, terms) \<Rightarrow> map_set (result_id r) (n, set_add titleCased terms) m
                   | None \<Rightarrow> map_set (result_id r) (sr_node r, [titleCased]) m))
           (findNodesByNameSubstring titleCased (limited 200 definitionKinds) False d) m)"

definition compound_results :: "find_options \<Rightarrow> string \<Rightarrow> db \<Rightarrow> string list \<Rightarrow> string set \<Rightarrow> search_result list" where
  "compound_results opts query d symbols known =
     (if length symbols < 2 then []
      else take (half_up (fo_searchLimit opts)) (by_score
        (map (\<lambda>(_, n, terms). \<lparr>sr_node = n,
            sr_score = 10 + of_nat (length terms - 1) * 20 + of_int (scorePathRelevance (n_filePath n) query [])
              + max 0 (6 - of_nat (length (n_name n)) / 8)\<rparr>)
          (filter (\<lambda>(_, n, terms). 2 \<le> length terms) (fold (compound_round query d known) symbols [])))))"

section \<open>Imports and the whole search\<close>

text \<open>An import or export is replaced by what it refers to, or dropped.\<close>

definition definitions_of :: "db \<Rightarrow> search_result \<Rightarrow> search_result list \<times> string list \<Rightarrow> search_result list \<times> string list" where
  "definitions_of d r st =
     (if n_kind (sr_node r) \<noteq> NK_import \<and> n_kind (sr_node r) \<noteq> NK_export
      then (if result_id r \<in> set (snd st) then st else (fst st @ [r], result_id r # snd st))
      else fold (\<lambda>e (resolved, seen).
             case node_at d (e_target e) of
               Some n \<Rightarrow> if n_id n \<in> set seen then (resolved, seen)
                         else (resolved @ [\<lparr>sr_node = n, sr_score = sr_score r\<rparr>], n_id n # seen)
             | None \<Rightarrow> (resolved, seen))
           (getOutgoingEdges (result_id r) [if n_kind (sr_node r) = NK_import then EK_imports else EK_exports] None d) st)"

definition resolveImportsToDefinitions :: "db \<Rightarrow> search_result list \<Rightarrow> search_result list" where
  "resolveImportsToDefinitions d results = fst (fold (definitions_of d) results ([], []))"

text \<open>The results that become entry points.\<close>

definition entry_results :: "fts_index \<Rightarrow> find_options \<Rightarrow> string \<Rightarrow> query_builder \<Rightarrow> search_result list" where
  "entry_results fts opts query s =
     (let d = qb_db s;
          symbols = extractSymbolsFromQuery query;
          exactMatches = definition_matches fts opts symbols s (exact_matches opts symbols d);
          merged = merged_results exactMatches (text_results fts opts query s);
          ranked = rerank (extractSearchTerms query True) symbols exactMatches (boost_core d (demote_tests query merged));
          camel = (if symbols = [] then [] else camel_results opts query d symbols (result_id ` set ranked));
          compound = (if symbols = [] then [] else compound_results opts query d symbols (result_id ` set (ranked @ camel)));
          best = take (fo_searchLimit opts * 3) (by_score (ranked @ camel @ compound));
          good = filter (\<lambda>r. fo_minScore opts \<le> sr_score r) best
      in take (fo_searchLimit opts) (resolveImportsToDefinitions d good))"

datatype confidence = Conf_high | Conf_low

definition corroborated :: "string list \<Rightarrow> string list \<Rightarrow> search_result \<Rightarrow> bool" where
  "corroborated confTerms distinctive r \<longleftrightarrow>
     to_lower (n_name (sr_node r)) \<in> set distinctive
     \<or> 2 \<le> length (filter (\<lambda>t. str_includes (to_lower (n_name (sr_node r))) t \<or> t \<in> set (dir_segments (n_filePath (sr_node r)))) confTerms)"

definition confidence_of :: "string \<Rightarrow> search_result list \<Rightarrow> confidence" where
  "confidence_of query results =
     (let confTerms = filter (\<lambda>t. 3 \<le> length t) (extractSearchTerms query False);
          distinctive = distinctive_tokens (extractSymbolsFromQuery query)
      in if 2 \<le> length confTerms \<and> results \<noteq> [] \<and> \<not> list_ex (corroborated confTerms distinctive) results
         then Conf_low else Conf_high)"

end
