(* ===== verification/ContextBuilder.thy ===== *)
theory ContextBuilder
  imports ContextSearch SafePaths Numerals "HOL-Library.List_Lexorder" "HOL-Library.Char_ord"
begin

text \<open>
  The class \<open>ContextBuilder\<close> of \<open>context/index.ts\<close>: the subgraph around the entry points of a question, its
  caps, the code blocks, the call paths and the assembled context, and the Markdown of \<open>formatter.ts\<close>. The
  file system is a record; texts are strings of UTF-8 code units.
\<close>

section \<open>The subgraph\<close>

record context_graph =
  kg_nodes :: "(string, node) jmap"
  kg_edges :: "edge list"
  kg_roots :: "string list"
  kg_confidence :: "confidence option"

definition edge_key :: "edge \<Rightarrow> string \<times> string \<times> edge_kind" where
  "edge_key e = (e_source e, e_target e, e_kind e)"

definition add_edge :: "edge \<Rightarrow> edge list \<Rightarrow> edge list" where
  "add_edge e es = (if list_ex (\<lambda>x. edge_key x = edge_key e) es then es else es @ [e])"

definition add_node :: "string \<times> node \<Rightarrow> (string, node) jmap \<Rightarrow> (string, node) jmap" where
  "add_node p nodes = (if map_has nodes (fst p) then nodes else map_set (fst p) (snd p) nodes)"

definition typeHierarchyKinds :: "node_kind list" where
  "typeHierarchyKinds = [NK_class, NK_interface, NK_struct, NK_trait, NK_protocol]"

text \<open>Nodes, edges and the number of nodes that the hierarchies added.\<close>

type_synonym gathering = "(string, node) jmap \<times> edge list \<times> nat"

definition quarter_up :: "nat \<Rightarrow> nat" where
  "quarter_up n = (n + 3) div 4"

definition hierarchy_round :: "db \<Rightarrow> nat \<Rightarrow> node \<Rightarrow> gathering \<Rightarrow> gathering" where
  "hierarchy_round d maxHierarchyNodes n st =
     (case st of (nodes, edges, added) \<Rightarrow>
        if maxHierarchyNodes \<le> added \<or> n_kind n \<notin> set typeHierarchyKinds then st
        else (let hierarchy = getTypeHierarchy d (n_id n);
                  (nodes', added') = fold (\<lambda>p (ns, k). if map_has ns (fst p) then (ns, k) else (map_set (fst p) (snd p) ns, k + 1))
                    (g_nodes hierarchy) (nodes, added)
              in (nodes', fold add_edge (g_edges hierarchy) edges, added')))"

definition sibling_round :: "db \<Rightarrow> nat \<Rightarrow> node \<Rightarrow> gathering \<Rightarrow> gathering" where
  "sibling_round d maxHierarchyNodes n st =
     (case st of (nodes, edges, added) \<Rightarrow>
        if maxHierarchyNodes \<le> added then st
        else (let hierarchy = getTypeHierarchy d (n_id n);
                  (nodes', added') = fold (\<lambda>p (ns, k). if map_has ns (fst p) \<or> maxHierarchyNodes \<le> k then (ns, k)
                      else (map_set (fst p) (snd p) ns, k + 1)) (g_nodes hierarchy) (nodes, added);
                  edges' = fold (\<lambda>e es. if map_has nodes' (e_source e) \<and> map_has nodes' (e_target e) then add_edge e es else es)
                    (g_edges hierarchy) edges
              in (nodes', edges', added')))"

definition expand_hierarchies :: "db \<Rightarrow> nat \<Rightarrow> node list \<Rightarrow> (string, node) jmap \<times> edge list \<Rightarrow> (string, node) jmap \<times> edge list" where
  "expand_hierarchies d maxNodes entries st =
     (let maxHierarchyNodes = quarter_up maxNodes;
          (nodes1, edges1, added1) = fold (hierarchy_round d maxHierarchyNodes) entries (fst st, snd st, 0);
          pass2Candidates = filter (\<lambda>n. n_kind n \<in> set typeHierarchyKinds \<and> n_id n \<notin> n_id ` set entries) (map snd nodes1);
          (nodes2, edges2, added2) =
            (if 0 < added1 then fold (sibling_round d maxHierarchyNodes) pass2Candidates (nodes1, edges1, added1)
             else (nodes1, edges1, added1))
      in (nodes2, edges2))"

definition entry_options :: "find_options \<Rightarrow> nat \<Rightarrow> traversal_options" where
  "entry_options opts entries =
     \<lparr>o_maxDepth = Some (fo_traversalDepth opts), o_edgeKinds = fo_edgeKinds opts, o_nodeKinds = fo_nodeKinds opts,
      o_direction = Both, o_limit = (fo_maxNodes opts + max 1 entries - 1) div max 1 entries, o_includeStart = True\<rparr>"

definition traverse_entry :: "db \<Rightarrow> find_options \<Rightarrow> nat \<Rightarrow> node
    \<Rightarrow> (string, node) jmap \<times> edge list \<Rightarrow> (string, node) jmap \<times> edge list" where
  "traverse_entry d opts entries n st =
     (let found = traverseBFS d (n_id n) (entry_options opts entries)
      in (fold add_node (g_nodes found) (fst st), fold add_edge (g_edges found) (snd st)))"

section \<open>Caps\<close>

definition priority_ids :: "string list \<Rightarrow> edge list \<Rightarrow> string list" where
  "priority_ids roots edges =
     fold (\<lambda>e ids.
       let ids1 = (if e_source e \<in> set ids then set_add (e_target e) ids else ids)
       in if e_target e \<in> set ids1 then set_add (e_source e) ids1 else ids1) edges (set_of_list roots)"

definition keep_node :: "nat \<Rightarrow> string \<times> node \<Rightarrow> (string, node) jmap \<Rightarrow> (string, node) jmap" where
  "keep_node maxNodes p kept = (if length kept < maxNodes then add_node p kept else kept)"

definition trim_nodes :: "nat \<Rightarrow> string list \<Rightarrow> (string, node) jmap \<times> edge list \<Rightarrow> (string, node) jmap \<times> edge list" where
  "trim_nodes maxNodes roots st =
     (case st of (nodes, edges) \<Rightarrow>
        if length nodes \<le> maxNodes then st
        else (let first = fold (keep_node maxNodes)
                    (List.map_filter (\<lambda>i. map_option (Pair i) (map_get nodes i)) (priority_ids roots edges)) [];
                  finalNodes = fold (keep_node maxNodes) nodes first
              in (finalNodes, filter (\<lambda>e. map_has finalNodes (e_source e) \<and> map_has finalNodes (e_target e)) edges)))"

definition kind_priority :: "node_kind \<Rightarrow> nat" where
  "kind_priority k =
     (if k \<in> {NK_class, NK_interface, NK_struct, NK_trait, NK_protocol, NK_enum} then 3
      else if k \<in> {NK_method, NK_function} then 1 else 0)"

definition node_priority :: "string list \<Rightarrow> (string, node) jmap \<Rightarrow> string \<Rightarrow> nat" where
  "node_priority roots nodes i =
     (if i \<in> set roots then 10 else 0) + (case map_get nodes i of Some n \<Rightarrow> kind_priority (n_kind n) | None \<Rightarrow> 0)"

definition max_per_file :: "nat \<Rightarrow> nat" where
  "max_per_file maxNodes = max 5 ((maxNodes + 4) div 5)"

definition max_non_prod :: "nat \<Rightarrow> nat" where
  "max_non_prod maxNodes = max 3 ((3 * maxNodes + 19) div 20)"

abbreviation delete_all :: "string list \<Rightarrow> (string, node) jmap \<Rightarrow> (string, node) jmap" where
  "delete_all ids nodes \<equiv> fold map_delete ids nodes"

definition ids_of_file :: "(string, node) jmap \<Rightarrow> string \<Rightarrow> string list" where
  "ids_of_file nodes file = map fst (filter (\<lambda>(i, n). n_filePath n = file) nodes)"

definition cap_file :: "nat \<Rightarrow> string list \<Rightarrow> (string, node) jmap \<Rightarrow> string \<Rightarrow> (string, node) jmap \<Rightarrow> (string, node) jmap" where
  "cap_file maxPerFile roots nodes file final =
     (let nodeIds = ids_of_file nodes file in
      if length nodeIds \<le> maxPerFile then final
      else delete_all (drop maxPerFile (sort_key (\<lambda>i. - int (node_priority roots final i)) nodeIds)) final)"

definition cap_files :: "nat \<Rightarrow> string list \<Rightarrow> (string, node) jmap \<Rightarrow> (string, node) jmap" where
  "cap_files maxPerFile roots nodes =
     fold (cap_file maxPerFile roots nodes) (set_of_list (map (\<lambda>(i, n). n_filePath n) nodes)) nodes"

definition non_prod_ids :: "(string, node) jmap \<Rightarrow> string list" where
  "non_prod_ids nodes = map fst (filter (\<lambda>(i, n). isTestFile (n_filePath n)) nodes)"

definition cap_tests :: "nat \<Rightarrow> (string, node) jmap \<times> string list \<Rightarrow> (string, node) jmap \<times> string list" where
  "cap_tests maxNonProd st =
     (case st of (nodes, roots) \<Rightarrow>
        (let excess = drop maxNonProd (non_prod_ids nodes)
         in (delete_all excess nodes, fold remove1 excess roots)))"

definition recoveryKinds :: "edge_kind list" where
  "recoveryKinds = [EK_calls, EK_extends, EK_implements, EK_references, EK_overrides]"

definition inside :: "(string, node) jmap \<Rightarrow> edge \<Rightarrow> bool" where
  "inside nodes e \<longleftrightarrow> map_has nodes (e_source e) \<and> map_has nodes (e_target e)"

definition recover_edges :: "db \<Rightarrow> (string, node) jmap \<Rightarrow> edge list \<Rightarrow> edge list" where
  "recover_edges d nodes edges =
     fold add_edge (findEdgesBetweenNodes (map_keys nodes) recoveryKinds d) edges"

section \<open>The relevant context of a question\<close>

definition findRelevantContext :: "fts_index \<Rightarrow> string \<Rightarrow> find_options \<Rightarrow> query_builder \<Rightarrow> context_graph" where
  "findRelevantContext fts query opts s =
     (if trim query = [] then \<lparr>kg_nodes = [], kg_edges = [], kg_roots = [], kg_confidence = None\<rparr>
      else (let d = qb_db s;
                results = entry_results fts opts query s;
                entries = map sr_node results;
                roots = map n_id entries;
                nodes0 = fold (\<lambda>n. map_set (n_id n) n) entries [];
                gathered = fold (traverse_entry d opts (length results)) entries
                  (expand_hierarchies d (fo_maxNodes opts) entries (nodes0, []));
                (nodes1, edges1) = trim_nodes (fo_maxNodes opts) roots gathered;
                nodes2 = cap_files (max_per_file (fo_maxNodes opts)) roots nodes1;
                (nodes3, roots3) = (if isTestQuery query then (nodes2, roots) else cap_tests (max_non_prod (fo_maxNodes opts)) (nodes2, roots));
                edges3 = recover_edges d nodes3 (filter (inside nodes3) edges1)
            in \<lparr>kg_nodes = nodes3, kg_edges = edges3, kg_roots = roots3, kg_confidence = Some (confidence_of query results)\<rparr>))"

section \<open>Source code\<close>

record file_env =
  fe_platform :: string
  fe_realpath :: "string \<Rightarrow> fs_error + string"
  fe_read :: "string \<Rightarrow> string option"

definition node_lines :: "node \<Rightarrow> string \<Rightarrow> string" where
  "node_lines n content =
     (let lines = split_by (\<lambda>c. c = newline) content
      in join_with [newline] (slice (n_startLine n - 1) (min (length lines) (n_endLine n)) lines))"

text \<open>A configuration leaf is never read: its line holds a value.\<close>

definition extractNodeCode :: "file_env \<Rightarrow> string \<Rightarrow> node \<Rightarrow> string option" where
  "extractNodeCode env projectRoot n =
     (if isConfigLeafNode (n_kind n) (Some (n_language n))
      then Some (case truthy (n_signature n) of Some sg \<Rightarrow> sg
                 | None \<Rightarrow> if n_qualifiedName n \<noteq> [] then n_qualifiedName n else n_name n)
      else (case validatePathWithinRoot (fe_platform env) (fe_realpath env) projectRoot (n_filePath n) of
              None \<Rightarrow> None
            | Some filePath \<Rightarrow> map_option (node_lines n) (fe_read env filePath)))"

definition getCode :: "file_env \<Rightarrow> string \<Rightarrow> string \<Rightarrow> db \<Rightarrow> string option" where
  "getCode env projectRoot nodeId d =
     (case node_at d nodeId of None \<Rightarrow> None | Some n \<Rightarrow> extractNodeCode env projectRoot n)"

record code_block =
  cb_content :: string
  cb_node :: node

definition truncated_marker :: string where
  "truncated_marker = newline # ''... (truncated) ...''"

definition priority_nodes :: "context_graph \<Rightarrow> node list" where
  "priority_nodes g =
     (let others = filter (\<lambda>n. n_id n \<notin> set (kg_roots g)) (map snd (kg_nodes g))
      in List.map_filter (map_get (kg_nodes g)) (kg_roots g)
         @ filter (\<lambda>n. n_kind n = NK_function \<or> n_kind n = NK_method) others
         @ filter (\<lambda>n. n_kind n = NK_class) others)"

fun code_blocks :: "(node \<Rightarrow> string option) \<Rightarrow> nat \<Rightarrow> nat \<Rightarrow> node list \<Rightarrow> code_block list \<Rightarrow> code_block list" where
  "code_blocks extract maxBlocks maxBlockSize [] blocks = blocks"
| "code_blocks extract maxBlocks maxBlockSize (n # ns) blocks =
     (if maxBlocks \<le> length blocks then blocks
      else (case truthy (extract n) of
              None \<Rightarrow> code_blocks extract maxBlocks maxBlockSize ns blocks
            | Some code \<Rightarrow> code_blocks extract maxBlocks maxBlockSize ns
                (blocks @ [\<lparr>cb_content = (if maxBlockSize < length code then take maxBlockSize code @ truncated_marker else code),
                   cb_node = n\<rparr>])))"

definition extractCodeBlocks :: "file_env \<Rightarrow> string \<Rightarrow> context_graph \<Rightarrow> nat \<Rightarrow> nat \<Rightarrow> code_block list" where
  "extractCodeBlocks env projectRoot g maxBlocks maxBlockSize =
     code_blocks (extractNodeCode env projectRoot) maxBlocks maxBlockSize (priority_nodes g) []"

definition getEntryPoints :: "context_graph \<Rightarrow> node list" where
  "getEntryPoints g = List.map_filter (map_get (kg_nodes g)) (kg_roots g)"

definition getRelatedFiles :: "context_graph \<Rightarrow> string list" where
  "getRelatedFiles g = sort (set_of_list (map (\<lambda>(i, n). n_filePath n) (kg_nodes g)))"

definition generateSummary :: "context_graph \<Rightarrow> node list \<Rightarrow> string" where
  "generateSummary g entryPoints =
     ''Found '' @ show_nat (length (kg_nodes g)) @ '' relevant code symbols across '' @ show_nat (length (getRelatedFiles g))
     @ '' files. Key entry points: '' @ join_with '', '' (map n_name (take 3 entryPoints))
     @ (if 3 < length entryPoints then '' and '' @ show_nat (length entryPoints - 3) @ '' more'' else [])
     @ ''. '' @ show_nat (length (kg_edges g)) @ '' relationships identified.''"

section \<open>Call paths\<close>

text \<open>The targets of the calls of each node, in the order of the edges.\<close>

definition call_targets :: "context_graph \<Rightarrow> (string, string list) jmap" where
  "call_targets g =
     fold (\<lambda>e adj. if e_kind e = EK_calls \<and> inside (kg_nodes g) e
                   then map_set (e_source e) ((case map_get adj (e_source e) of Some ts \<Rightarrow> ts | None \<Rightarrow> []) @ [e_target e]) adj
                   else adj) (kg_edges g) []"

definition MAX_HOPS :: nat where
  "MAX_HOPS = 6"

definition end_chain :: "string list \<Rightarrow> string list list \<Rightarrow> string list list" where
  "end_chain path found_chains = (if 3 \<le> length path then found_chains @ [path] else found_chains)"

text \<open>
  The search for chains; the first argument is the number of hops left. The state is the budget and the
  chains, and the nodes of the path are those that have been seen.
\<close>

primrec chains_from :: "nat \<Rightarrow> (string, string list) jmap \<Rightarrow> string \<Rightarrow> string list \<Rightarrow> nat \<times> string list list \<Rightarrow> nat \<times> string list list" where
  "chains_from 0 adj i path st =
     (case st of (budget, found_chains) \<Rightarrow> if budget = 0 then st else (budget - 1, end_chain path found_chains))"
| "chains_from (Suc k) adj i path st =
     (case st of (budget, found_chains) \<Rightarrow>
        if budget = 0 then st
        else (let next = filter (\<lambda>t. t \<notin> set path) (case map_get adj i of Some ts \<Rightarrow> ts | None \<Rightarrow> []) in
          if next = [] then (budget - 1, end_chain path found_chains)
          else fold (\<lambda>t. chains_from k adj t (path @ [t])) next (budget - 1, found_chains)))"

definition call_chains :: "context_graph \<Rightarrow> string list list" where
  "call_chains g =
     (let adj = call_targets g;
          starts = take 5 (if kg_roots g \<noteq> [] then filter (map_has adj) (kg_roots g) else map_keys adj)
      in snd (fold (\<lambda>s. chains_from (MAX_HOPS - 1) adj s [s]) starts (2000, [])))"

definition root_count :: "string list \<Rightarrow> string list \<Rightarrow> nat" where
  "root_count roots c = length (filter (\<lambda>i. i \<in> set roots) c)"

definition keep_chain :: "string list \<Rightarrow> string list list \<Rightarrow> string list list" where
  "keep_chain c kept =
     (if 3 \<le> length kept \<or> list_ex (\<lambda>k. str_includes (join_with ''>'' k) (join_with ''>'' c)) kept then kept else kept @ [c])"

definition kept_chains :: "context_graph \<Rightarrow> string list list" where
  "kept_chains g =
     (let roots = kg_roots g;
          relevant = sort_key (\<lambda>c. - int (root_count roots c))
            (sort_key (\<lambda>c. - int (length c)) (filter (\<lambda>c. 2 \<le> root_count roots c) (call_chains g)))
      in fold keep_chain relevant [])"

text \<open>The label of a hop that was synthesised. The fields are strings, as the synthesiser writes them.\<close>

definition meta_field :: "json option \<Rightarrow> string \<Rightarrow> json option" where
  "meta_field m key = (case m of Some (JObj fs) \<Rightarrow> map_of fs key | _ \<Rightarrow> None)"

definition meta_str :: "json option \<Rightarrow> string \<Rightarrow> string option" where
  "meta_str m key = (case meta_field m key of Some (JStr s) \<Rightarrow> Some s | _ \<Rightarrow> None)"

definition backticked :: "string \<Rightarrow> string" where
  "backticked s = ''`'' @ s @ ''`''"

definition synth_label :: "json option \<Rightarrow> string option" where
  "synth_label m =
     (case meta_field m ''synthesizedBy'' of
        None \<Rightarrow> None
      | Some by_ \<Rightarrow>
          if \<not> json_truthy by_ then None
          else (let reg = (case meta_str m ''registeredAt'' of Some s \<Rightarrow> '' @'' @ s | None \<Rightarrow> []);
                    via = truthy (meta_str m ''via''); event = truthy (meta_str m ''event'') in
            Some (if by_ = JStr ''callback'' then ''callback via '' @ (case via of Some v \<Rightarrow> backticked v | None \<Rightarrow> ''registrar'') @ reg
                  else if by_ = JStr ''react-render'' then ''React re-render via setState'' @ reg
                  else if by_ = JStr ''jsx-render'' then ''renders <'' @ (case via of Some v \<Rightarrow> v | None \<Rightarrow> ''child'') @ ''>''
                  else if by_ = JStr ''vue-handler'' then ''Vue @'' @ (case event of Some v \<Rightarrow> v | None \<Rightarrow> ''event'') @ '' handler''
                  else ''event '' @ (case event of Some v \<Rightarrow> backticked v | None \<Rightarrow> []) @ reg)))"

definition synth_pairs :: "context_graph \<Rightarrow> (string, string) jmap" where
  "synth_pairs g =
     fold (\<lambda>e m. if e_kind e = EK_calls \<and> e_provenance e = Some P_heuristic
                 then (case synth_label (e_metadata e) of Some l \<Rightarrow> map_set (e_source e @ ''>'' @ e_target e) l m | None \<Rightarrow> m)
                 else m) (kg_edges g) []"

definition arrow :: string where
  "arrow = [CHR 0xE2, CHR 0x86, CHR 0x92]"

definition symbol_name :: "context_graph \<Rightarrow> string \<Rightarrow> string" where
  "symbol_name g i = (case map_get (kg_nodes g) i of Some n \<Rightarrow> n_name n | None \<Rightarrow> i)"

fun render_hops :: "context_graph \<Rightarrow> string list \<Rightarrow> string" where
  "render_hops g (a # b # c) =
     (case truthy (map_get (synth_pairs g) (a @ ''>'' @ b)) of
        Some label \<Rightarrow> '' '' @ arrow @ ''['' @ label @ ''] '' @ symbol_name g b
      | None \<Rightarrow> '' '' @ arrow @ '' '' @ symbol_name g b) @ render_hops g (b # c)"
| "render_hops g _ = []"

definition render_chain :: "context_graph \<Rightarrow> string list \<Rightarrow> string" where
  "render_chain g c = (case c of [] \<Rightarrow> [] | i # _ \<Rightarrow> symbol_name g i @ render_hops g c)"

definition has_synth :: "context_graph \<Rightarrow> string list \<Rightarrow> bool" where
  "has_synth g c \<longleftrightarrow> list_ex (\<lambda>(a, b). map_has (synth_pairs g) (a @ ''>'' @ b)) (zip c (tl c))"

definition buildCallPathsSection :: "context_graph \<Rightarrow> string" where
  "buildCallPathsSection g =
     (let kept = kept_chains g in
      if kept = [] then []
      else [newline] @ join_with [newline]
        ([[], ''## Call paths'', [], ''Execution flow among the key symbols (traced through the call graph):'', []]
         @ map (\<lambda>c. ''- '' @ render_chain g c) kept
         @ [[], if list_ex (has_synth g) kept
                then ''_Hops marked `[callback/event '' @ [CHR 0xE2, CHR 0x80, CHR 0xA6]
                  @ '']` are dynamic dispatch bridged by codegraph (with the registration site); the rest are direct calls. codegraph_node any symbol for its body._''
                else ''_codegraph_node any symbol above for its source + its own callers/callees._''])
        @ [newline])"

section \<open>The assembled context\<close>

definition LOW_CONFIDENCE_MARKER :: string where
  "LOW_CONFIDENCE_MARKER = ''### '' @ [CHR 0xE2, CHR 0x9A, CHR 0xA0, CHR 0xEF, CHR 0xB8, CHR 0x8F] @ '' Low-confidence match''"

definition entry_dirs :: "node list \<Rightarrow> string list" where
  "entry_dirs entryPoints =
     take 4 (set_of_list (map (\<lambda>n.
       case last_index_of (n_filePath n) ''/'' of
         Some slash \<Rightarrow> if 0 < slash then take slash (n_filePath n) else n_filePath n
       | None \<Rightarrow> n_filePath n) entryPoints))"

definition buildLowConfidenceNote :: "node list \<Rightarrow> string" where
  "buildLowConfidenceNote entryPoints =
     (let dirs = entry_dirs entryPoints; nl = [newline]; dash = [CHR 0xE2, CHR 0x80, CHR 0x94] in
      nl @ nl @ LOW_CONFIDENCE_MARKER @ nl @ nl
      @ ''This query matched mostly on common words, so the entry points above may ''
      @ ''be off-target '' @ dash @ '' treat them as a starting point, not a complete answer. ''
      @ ''For a reliable result:'' @ nl
      @ ''- `codegraph_explore` with the **exact symbol names** you are after ''
      @ ''(class / function / method names), or'' @ nl
      @ ''- `codegraph_search <name>` for one specific symbol''
      @ (if dirs \<noteq> [] then nl @ ''- `codegraph_files` a likely area: '' @ join_with '', '' (map backticked dirs) else [])
      @ nl @ nl @ ''Do not assume the list above is comprehensive.'')"

record context_stats =
  cs_nodeCount :: nat
  cs_edgeCount :: nat
  cs_fileCount :: nat
  cs_codeBlockCount :: nat
  cs_totalCodeSize :: nat

record task_context =
  tc_query :: string
  tc_subgraph :: context_graph
  tc_entryPoints :: "node list"
  tc_codeBlocks :: "code_block list"
  tc_relatedFiles :: "string list"
  tc_summary :: string
  tc_stats :: context_stats

definition location :: "node \<Rightarrow> string" where
  "location n = (if n_startLine n \<noteq> 0 then '':'' @ show_nat (n_startLine n) else [])"

definition generated_last :: "('a \<Rightarrow> string) \<Rightarrow> 'a list \<Rightarrow> 'a list" where
  "generated_last file xs = sort_key (\<lambda>x. if isGeneratedFile (file x) then 1 else 0 :: nat) xs"

definition entry_lines :: "node \<Rightarrow> string list" where
  "entry_lines n =
     (''- **'' @ n_name n @ ''** ('' @ kind_str (n_kind n) @ '') - '' @ n_filePath n @ location n)
     # (case truthy (n_signature n) of Some sg \<Rightarrow> [''  `'' @ sg @ ''`''] | None \<Rightarrow> [])"

definition other_symbols :: "task_context \<Rightarrow> node list" where
  "other_symbols ctx =
     take 10 (filter (\<lambda>n. \<not> isGeneratedFile (n_filePath n))
       (filter (\<lambda>n. n_id n \<notin> n_id ` set (tc_entryPoints ctx)) (map snd (kg_nodes (tc_subgraph ctx)))))"

definition related_lines :: "node list \<Rightarrow> string list" where
  "related_lines ns =
     map (\<lambda>file. ''- '' @ file @ '': '' @ join_with '', ''
         (map (\<lambda>n. n_name n @ '':'' @ show_nat (n_startLine n)) (filter (\<lambda>n. n_filePath n = file) ns)))
       (set_of_list (map n_filePath ns))"

definition block_lines :: "code_block \<Rightarrow> string list" where
  "block_lines b =
     (let n = cb_node b in
      [''#### '' @ n_name n @ '' ('' @ n_filePath n @ '':'' @ show_nat (n_startLine n) @ '')'' @ [newline],
       ''```'' @ language_str (n_language n), cb_content b, ''```'' @ [newline]])"

definition formatContextAsMarkdown :: "task_context \<Rightarrow> string" where
  "formatContextAsMarkdown ctx =
     (let entries = generated_last n_filePath (tc_entryPoints ctx);
          others = other_symbols ctx;
          blocks = generated_last (\<lambda>b. n_filePath (cb_node b)) (tc_codeBlocks ctx)
      in join_with [newline]
        ([''## Code Context'' @ [newline], ''**Query:** '' @ tc_query ctx @ [newline]]
         @ (if entries \<noteq> [] then [''### Entry Points'' @ [newline]] @ concat (map entry_lines entries) @ [[]] else [])
         @ (if others \<noteq> [] then [''### Related Symbols'' @ [newline]] @ related_lines others @ [[]] else [])
         @ (if blocks \<noteq> [] then [''### Code'' @ [newline]] @ concat (map block_lines blocks) else [])))"

text \<open>The JSON value that \<open>formatContextAsJson\<close> prints; an absent field is left out, as \<open>JSON.stringify\<close> does.\<close>

definition edge_kind_str :: "edge_kind \<Rightarrow> string" where
  "edge_kind_str k =
     (case k of EK_contains \<Rightarrow> ''contains'' | EK_calls \<Rightarrow> ''calls'' | EK_imports \<Rightarrow> ''imports'' | EK_exports \<Rightarrow> ''exports''
      | EK_extends \<Rightarrow> ''extends'' | EK_implements \<Rightarrow> ''implements'' | EK_references \<Rightarrow> ''references''
      | EK_type_of \<Rightarrow> ''type_of'' | EK_returns \<Rightarrow> ''returns'' | EK_instantiates \<Rightarrow> ''instantiates''
      | EK_overrides \<Rightarrow> ''overrides'' | EK_decorates \<Rightarrow> ''decorates'')"

definition visibility_str :: "visibility \<Rightarrow> string" where
  "visibility_str v =
     (case v of V_public \<Rightarrow> ''public'' | V_private \<Rightarrow> ''private'' | V_protected \<Rightarrow> ''protected'' | V_internal \<Rightarrow> ''internal'')"

definition optional :: "string \<Rightarrow> ('a \<Rightarrow> json) \<Rightarrow> 'a option \<Rightarrow> (string \<times> json) list" where
  "optional key f v = (case v of Some x \<Rightarrow> [(key, f x)] | None \<Rightarrow> [])"

abbreviation JNat :: "nat \<Rightarrow> json" where
  "JNat n \<equiv> JNum (of_nat n)"

definition serializeNode :: "node \<Rightarrow> json" where
  "serializeNode n = JObj
     ([(''id'', JStr (n_id n)), (''kind'', JStr (kind_str (n_kind n))), (''name'', JStr (n_name n)),
       (''qualifiedName'', JStr (n_qualifiedName n)), (''filePath'', JStr (n_filePath n)),
       (''language'', JStr (language_str (n_language n))),
       (''startLine'', JNat (n_startLine n)), (''endLine'', JNat (n_endLine n))]
      @ optional ''signature'' JStr (n_signature n) @ optional ''docstring'' JStr (n_docstring n)
      @ optional ''visibility'' (JStr \<circ> visibility_str) (n_visibility n)
      @ optional ''isExported'' JBool (n_isExported n) @ optional ''isAsync'' JBool (n_isAsync n)
      @ optional ''isStatic'' JBool (n_isStatic n))"

definition serializeEdge :: "edge \<Rightarrow> json" where
  "serializeEdge e = JObj
     ([(''source'', JStr (e_source e)), (''target'', JStr (e_target e)), (''kind'', JStr (edge_kind_str (e_kind e)))]
      @ optional ''line'' JNat (e_line e) @ optional ''column'' JNat (e_column e))"

definition formatContextAsJson :: "task_context \<Rightarrow> json" where
  "formatContextAsJson ctx = JObj
     [(''query'', JStr (tc_query ctx)), (''summary'', JStr (tc_summary ctx)),
      (''entryPoints'', JArr (map serializeNode (tc_entryPoints ctx))),
      (''nodes'', JArr (map (serializeNode \<circ> snd) (kg_nodes (tc_subgraph ctx)))),
      (''edges'', JArr (map serializeEdge (kg_edges (tc_subgraph ctx)))),
      (''codeBlocks'', JArr (map (\<lambda>b. let n = cb_node b in JObj
         [(''filePath'', JStr (n_filePath n)), (''startLine'', JNat (n_startLine n)), (''endLine'', JNat (n_endLine n)),
          (''language'', JStr (language_str (n_language n))), (''content'', JStr (cb_content b)),
          (''nodeName'', JStr (n_name n)), (''nodeKind'', JStr (kind_str (n_kind n)))]) (tc_codeBlocks ctx))),
      (''relatedFiles'', JArr (map JStr (tc_relatedFiles ctx))),
      (''stats'', let st = tc_stats ctx in JObj
         [(''nodeCount'', JNat (cs_nodeCount st)), (''edgeCount'', JNat (cs_edgeCount st)), (''fileCount'', JNat (cs_fileCount st)),
          (''codeBlockCount'', JNat (cs_codeBlockCount st)), (''totalCodeSize'', JNat (cs_totalCodeSize st))])]"

text \<open>
  The subgraph as a tree. A node is printed with its outgoing edges by kind; the recursion goes one level
  down, along the first three of its edges. The state is the set of printed nodes and the lines.
\<close>

definition truncate :: "string \<Rightarrow> nat \<Rightarrow> string" where
  "truncate str maxLength = (if length str \<le> maxLength then str else take (maxLength - 3) str @ ''...'')"

definition treeKinds :: "edge_kind list" where
  "treeKinds = [EK_calls, EK_extends, EK_implements, EK_imports, EK_references]"

definition branch :: "bool \<Rightarrow> string" where
  "branch is_last =
     (if is_last then [CHR 0xE2, CHR 0x94, CHR 0x94, CHR 0xE2, CHR 0x94, CHR 0x80, CHR 0xE2, CHR 0x94, CHR 0x80]
      else [CHR 0xE2, CHR 0x94, CHR 0x9C, CHR 0xE2, CHR 0x94, CHR 0x80, CHR 0xE2, CHR 0x94, CHR 0x80])"

definition target_name :: "context_graph \<Rightarrow> edge \<Rightarrow> string" where
  "target_name g e = (case map_get (kg_nodes g) (e_target e) of Some n \<Rightarrow> n_name n | None \<Rightarrow> ''unknown'')"

definition kind_lines :: "context_graph \<Rightarrow> string \<Rightarrow> edge_kind \<Rightarrow> edge list \<Rightarrow> string list" where
  "kind_lines g newPrefix kind kindEdges =
     (if 3 < length kindEdges
      then [newPrefix @ branch False @ '' '' @ edge_kind_str kind @ '': '' @ join_with '', '' (map (target_name g) (take 3 kindEdges))
              @ '' and '' @ show_nat (length kindEdges - 3) @ '' more'']
      else map (\<lambda>(i, e). newPrefix @ branch (i + 1 = length kindEdges) @ '' '' @ edge_kind_str kind @ '' '' @ arrow @ '' '' @ target_name g e)
             (enumerate 0 kindEdges))"

definition node_header :: "string \<Rightarrow> node \<Rightarrow> string" where
  "node_header pre n =
     pre @ kind_str (n_kind n) @ '': '' @ n_name n @ '' ('' @ n_filePath n @ location n @ '')''
     @ (case truthy (n_signature n) of Some sg \<Rightarrow> '' - '' @ truncate sg 50 | None \<Rightarrow> [])"

definition tree_edges :: "context_graph \<Rightarrow> string \<Rightarrow> edge list" where
  "tree_edges g i = filter (\<lambda>e. e_source e = i \<and> e_kind e \<in> set treeKinds) (kg_edges g)"

definition own_lines :: "context_graph \<Rightarrow> string \<Rightarrow> node \<Rightarrow> string list" where
  "own_lines g pre n =
     (let es = tree_edges g (n_id n) in
      node_header pre n
      # concat (map (\<lambda>k. kind_lines g (pre @ ''  '') k (filter (\<lambda>e. e_kind e = k) es)) (set_of_list (map e_kind es))))"

primrec formatNodeTree :: "nat \<Rightarrow> context_graph \<Rightarrow> string \<Rightarrow> node \<Rightarrow> string list \<times> string list \<Rightarrow> string list \<times> string list" where
  "formatNodeTree 0 g pre n st =
     (if n_id n \<in> set (fst st) then st else (n_id n # fst st, snd st @ own_lines g pre n))"
| "formatNodeTree (Suc levels) g pre n st =
     (if n_id n \<in> set (fst st) then st
      else fold (\<lambda>e st. case map_get (kg_nodes g) (e_target e) of
               Some t \<Rightarrow> formatNodeTree levels g (pre @ ''  '') t st
             | None \<Rightarrow> st)
           (take 3 (tree_edges g (n_id n))) (n_id n # fst st, snd st @ own_lines g pre n))"

definition formatSubgraphTree :: "context_graph \<Rightarrow> node list \<Rightarrow> string" where
  "formatSubgraphTree g entryPoints =
     (let (printed, lines) = fold (\<lambda>n st. case formatNodeTree 1 g [] n st of (p, ls) \<Rightarrow> (p, ls @ [[]])) entryPoints ([], []);
          remaining = filter (\<lambda>n. n_id n \<notin> set printed) (map snd (kg_nodes g))
      in trim (join_with [newline] (lines
        @ (if remaining = [] then []
           else if length remaining \<le> 10
           then ''Other relevant symbols:'' # map (\<lambda>n. ''  '' @ kind_str (n_kind n) @ '': '' @ n_name n @ '' ('' @ n_filePath n @ location n @ '')'') remaining
           else [''... and '' @ show_nat (length remaining) @ '' more related symbols'']))))"

datatype context_format = Format_markdown | Format_json | Format_structured

datatype built_context = Built_context task_context | Built_text string | Built_json json

datatype task_input = Question string | Titled string "string option"

record build_options =
  bo_maxNodes :: nat
  bo_maxCodeBlocks :: nat
  bo_maxCodeBlockSize :: nat
  bo_includeCode :: bool
  bo_format :: context_format
  bo_searchLimit :: nat
  bo_traversalDepth :: nat
  bo_minScore :: rat

definition DEFAULT_BUILD_OPTIONS :: build_options where
  "DEFAULT_BUILD_OPTIONS =
     \<lparr>bo_maxNodes = 20, bo_maxCodeBlocks = 5, bo_maxCodeBlockSize = 1500, bo_includeCode = True, bo_format = Format_markdown,
      bo_searchLimit = 3, bo_traversalDepth = 1, bo_minScore = 3 / 10\<rparr>"

definition input_query :: "task_input \<Rightarrow> string" where
  "input_query input =
     (case input of Question q \<Rightarrow> q
      | Titled title description \<Rightarrow> title @ (case truthy description of Some t \<Rightarrow> '': '' @ t | None \<Rightarrow> []))"

definition task_context_of :: "file_env \<Rightarrow> fts_index \<Rightarrow> string \<Rightarrow> task_input \<Rightarrow> build_options \<Rightarrow> query_builder \<Rightarrow> task_context" where
  "task_context_of env fts projectRoot input opts s =
     (let query = input_query input;
          subgraph = findRelevantContext fts query
            (DEFAULT_FIND_OPTIONS\<lparr>fo_searchLimit := bo_searchLimit opts, fo_traversalDepth := bo_traversalDepth opts,
               fo_maxNodes := bo_maxNodes opts, fo_minScore := bo_minScore opts\<rparr>) s;
          entryPoints = getEntryPoints subgraph;
          codeBlocks = (if bo_includeCode opts
            then extractCodeBlocks env projectRoot subgraph (bo_maxCodeBlocks opts) (bo_maxCodeBlockSize opts) else []);
          relatedFiles = getRelatedFiles subgraph
      in \<lparr>tc_query = query, tc_subgraph = subgraph, tc_entryPoints = entryPoints,
          tc_codeBlocks = codeBlocks, tc_relatedFiles = relatedFiles, tc_summary = generateSummary subgraph entryPoints,
          tc_stats = \<lparr>cs_nodeCount = length (kg_nodes subgraph), cs_edgeCount = length (kg_edges subgraph),
            cs_fileCount = length relatedFiles, cs_codeBlockCount = length codeBlocks,
            cs_totalCodeSize = sum_list (map (\<lambda>b. length (cb_content b)) codeBlocks)\<rparr>\<rparr>)"

definition buildContext :: "file_env \<Rightarrow> fts_index \<Rightarrow> string \<Rightarrow> task_input \<Rightarrow> build_options \<Rightarrow> query_builder \<Rightarrow> built_context" where
  "buildContext env fts projectRoot input opts s =
     (let ctx = task_context_of env fts projectRoot input opts s in
      case bo_format opts of
        Format_markdown \<Rightarrow> Built_text (formatContextAsMarkdown ctx @ buildCallPathsSection (tc_subgraph ctx)
             @ (if kg_confidence (tc_subgraph ctx) = Some Conf_low then buildLowConfidenceNote (tc_entryPoints ctx) else []))
      | Format_json \<Rightarrow> Built_json (formatContextAsJson ctx)
      | Format_structured \<Rightarrow> Built_context ctx)"

end
