(* ===== verification/ContextLaws.thy ===== *)
theory ContextLaws
  imports ContextBuilder "HOL-Library.Multiset"
begin

text \<open>
  What the context builder guarantees: the graph it returns is made of stored nodes and closed under its
  edges, it keeps the caps, its call paths are paths of calls, and the values of configuration files are
  never read into it.
\<close>

section \<open>Results are stored nodes\<close>

definition stored_result :: "db \<Rightarrow> search_result \<Rightarrow> bool" where
  "stored_result d r \<longleftrightarrow> node_at d (result_id r) = Some (sr_node r)"

lemma stored_scores [simp]:
  "stored_result d (add_score x r) = stored_result d r" "stored_result d (scale_score x r) = stored_result d r"
  "stored_result d (r\<lparr>sr_score := x\<rparr>) = stored_result d r" "stored_result d \<lparr>sr_node = sr_node r, sr_score = x\<rparr> = stored_result d r"
  by (simp_all add: stored_result_def add_score_def scale_score_def)

text \<open>What a search needs of the store: the ids of the rows are distinct, and the index returns rows.\<close>

definition searchable :: "fts_index \<Rightarrow> query_builder \<Rightarrow> bool" where
  "searchable fts s \<longleftrightarrow> fts_ok fts (qb_db s) \<and> distinct (map r_id (t_nodes (qb_db s)))"

lemma stored_row: "distinct (map r_id (t_nodes d)) \<Longrightarrow> r \<in> set (t_nodes d) \<Longrightarrow> stored_result d (row_result x r)"
  using node_at_row by (simp add: stored_result_def)

lemma stored_search:
  assumes "searchable fts s"
  shows "list_all (stored_result (qb_db s)) (searchNodes fts q options s)"
proof -
  have "list_all (from_table (merge_filters (so_kinds options) (q_kinds (parseQuery q)))
      (merge_filters (so_languages options) (q_languages (parseQuery q))) (qb_db s)) (searchNodes fts q options s)"
    using searchNodes_results [of fts s options q] assms by (simp add: searchable_def results_ok_def)
  then show ?thesis
    using assms node_at_row [of "qb_db s"]
    by (fastforce simp: list_all_iff from_table_def list_ex_iff stored_result_def searchable_def)
qed

lemma stored_exact_round:
  assumes "distinct (map r_id (t_nodes d))" and "list_all (stored_result d) (fst st)"
  shows "list_all (stored_result d) (fst (exact_name_round kinds languages d distinctive k name st))"
  using assms stored_row [OF assms(1)]
  by (auto simp: exact_name_round_def Let_def list_all_iff split: prod.split dest!: in_set_takeD)

lemma stored_exact:
  assumes "distinct (map r_id (t_nodes d))"
  shows "list_all (stored_result d) (findNodesByExactName names options d)"
proof -
  have round: "list_all (stored_result d) (fst (fold (exact_name_round k l d ds n) names st))" if "list_all (stored_result d) (fst st)" for k l ds n names st
    using that by (induction names arbitrary: st) (simp_all add: stored_exact_round [OF assms])
  have "list_all (stored_result d) (fst (fold (exact_name_round k l d ds n) names ([], [])))" for k l ds n names
    by (rule round) simp
  then show ?thesis
    by (auto simp: findNodesByExactName_def Let_def list_all_iff dest!: in_set_takeD)
qed

lemma stored_substring:
  assumes "distinct (map r_id (t_nodes d))"
  shows "list_all (stored_result d) (findNodesByNameSubstring q options ex d)"
  using stored_row [OF assms] by (auto simp: findNodesByNameSubstring_def list_all_iff dest!: in_set_takeD)

lemma list_all_take: "list_all P xs \<Longrightarrow> list_all P (take n xs)"
  by (auto simp: list_all_iff dest: in_set_takeD)

lemma list_all_sort [simp]: "list_all P (sort_key f xs) = list_all P xs"
  by (simp add: list_all_iff)

lemma list_all_fold:
  assumes "\<And>x acc. x \<in> set xs \<Longrightarrow> list_all P acc \<Longrightarrow> list_all P (f x acc)" and "list_all P acc"
  shows "list_all P (fold f xs acc)"
  using assms by (induction xs arbitrary: acc) auto

lemma stored_exact_matches:
  assumes "distinct (map r_id (t_nodes d))"
  shows "list_all (stored_result d) (exact_matches opts symbols d)"
proof -
  have "list_all (stored_result d) (co_located rs)" if "list_all (stored_result d) rs" for rs
    using that by (auto simp: co_located_def Let_def list_all_iff)
  then show ?thesis
    using stored_exact [OF assms] by (auto simp: exact_matches_def Let_def intro!: list_all_take)
qed

lemma stored_definition_matches:
  assumes "searchable fts s" and "list_all (stored_result (qb_db s)) rs"
  shows "list_all (stored_result (qb_db s)) (definition_matches fts opts symbols s rs)"
proof -
  have prefixes: "list_all (stored_result (qb_db s)) (take n (prefix_matches fts s w))" for n w
    using stored_search [OF assms(1)] by (intro list_all_take) (auto simp: prefix_matches_def list_all_iff)
  have push: "list_all (stored_result (qb_db s)) (fold push_unless_known xs acc)"
    if "list_all (stored_result (qb_db s)) xs" "list_all (stored_result (qb_db s)) acc" for xs acc
    using that by (intro list_all_fold) (auto simp: push_unless_known_def list_all_iff)
  have "list_all (stored_result (qb_db s)) (fold (\<lambda>symb acc.
             let titleCased = title_cased symb in
             if titleCased = symb then acc
             else fold push_unless_known (take (fo_searchLimit opts) (prefix_matches fts s titleCased)) acc) ws rs)" for ws
    using prefixes push assms(2) by (intro list_all_fold) (simp_all add: Let_def)
  then show ?thesis
    using assms(2) by (simp add: definition_matches_def Let_def list_all_take)
qed

lemma update_mem: "p \<in> set (map_set k v m) \<Longrightarrow> p \<in> set m \<or> p = (k, v)"
  by (induction m) (auto split: if_splits)

lemma stored_term_result:
  assumes "stored_result d r" and "list_all (\<lambda>(i, result, hits). stored_result d result) m"
  shows "list_all (\<lambda>(i, result, hits). stored_result d result) (add_term_result r m)"
proof (cases "map_get m (result_id r)")
  case None
  then show ?thesis
    using assms by (fastforce simp: add_term_result_def list_all_iff dest!: update_mem)
next
  case (Some p)
  then have "stored_result d (fst p)"
    using assms(2) map_of_SomeD [OF Some] by (auto simp: list_all_iff)
  then show ?thesis
    using assms Some by (cases p) (fastforce simp: add_term_result_def list_all_iff dest!: update_mem)
qed

lemma stored_text_results:
  assumes "searchable fts s"
  shows "list_all (stored_result (qb_db s)) (text_results fts opts query s)"
proof -
  let ?ok = "\<lambda>(i, result, hits). stored_result (qb_db s) result"
  have terms: "list_all ?ok (fold add_term_result rs m)" if "list_all (stored_result (qb_db s)) rs" "list_all ?ok m" for rs m
    using that by (intro list_all_fold stored_term_result) (auto simp: list_all_iff)
  have "list_all ?ok (fold (\<lambda>term. fold add_term_result (searchNodes fts term (opt term) s)) ts [])" for ts opt
    by (rule list_all_fold) (simp_all add: terms stored_search [OF assms])
  then show ?thesis
    by (fastforce simp: text_results_def Let_def list_all_iff dest!: in_set_takeD)
qed

lemma stored_merged:
  assumes "list_all (stored_result d) xs" and "list_all (stored_result d) ys"
  shows "list_all (stored_result d) (merged_results xs ys)"
  unfolding merged_results_def
proof (rule list_all_fold)
  fix r acc
  assume "r \<in> set (xs @ ys)" "list_all (stored_result d) acc"
  then show "list_all (stored_result d) (merge_result r acc)"
    using assms by (auto simp: merge_result_def list_all_iff)
qed simp

lemma stored_ranking:
  assumes "list_all (stored_result d) rs"
  shows "list_all (stored_result d) (rerank terms symbols exact (boost_core d (demote_tests query rs)))"
proof -
  have "list_all (stored_result d) (demote_tests query rs)"
    using assms by (auto simp: demote_tests_def list_all_iff)
  then have "list_all (stored_result d) (boost_core d (demote_tests query rs))"
    by (auto simp: boost_core_def list_all_iff split: option.splits prod.splits)
  then show ?thesis
    by (auto simp: rerank_def Let_def list_all_iff)
qed

lemma stored_camel:
  assumes "distinct (map r_id (t_nodes d))"
  shows "list_all (stored_result d) (camel_results opts query d symbols known)"
proof -
  let ?ok = "\<lambda>(i, result, count). stored_result d result"
  have candidate: "stored_result d c" if "camel_candidate query w known r = Some c" "stored_result d r" for w r c
    using that by (auto simp: camel_candidate_def Let_def split: option.splits if_splits)
  have round: "list_all ?ok (snd (camel_round opts query d known symb st))" if "list_all ?ok (snd st)" for symb st
  proof -
    have put: "list_all ?ok (fold (\<lambda>r m. case map_get m (result_id r) of
                          Some (result, termCount) \<Rightarrow> map_set (result_id r) (result, termCount + 1) m
                        | None \<Rightarrow> map_set (result_id r) (r, 1) m) rs m)"
      if "list_all (stored_result d) rs" "list_all ?ok m" for rs and m :: "(string, search_result \<times> nat) jmap"
    proof (rule list_all_fold)
      fix r and m :: "(string, search_result \<times> nat) jmap"
      assume "r \<in> set rs" "list_all ?ok m"
      then show "list_all ?ok (case map_get m (result_id r) of
                          Some (result, termCount) \<Rightarrow> map_set (result_id r) (result, termCount + 1) m
                        | None \<Rightarrow> map_set (result_id r) (r, 1) m)"
        using that(1) by (fastforce simp: list_all_iff split: option.splits dest!: update_mem map_of_SomeD)
    qed (rule that(2))
    have "list_all (stored_result d) (List.map_filter (camel_candidate query w known) (findNodesByNameSubstring w options b d))" for w options b
      using stored_substring [OF assms, of w options b] candidate
      by (auto simp: list_all_iff List.map_filter_def)
    then show ?thesis
      using that put by (auto simp: camel_round_def Let_def list_all_take split: prod.split)
  qed
  have "list_all ?ok (snd (fold (camel_round opts query d known) ws st))" if "list_all ?ok (snd st)" for ws st
    using that by (induction ws arbitrary: st) (auto simp: round)
  from this [of "([], [])" symbols] show ?thesis
    by (fastforce simp: camel_results_def list_all_iff dest!: in_set_takeD)
qed

lemma stored_compound:
  assumes "distinct (map r_id (t_nodes d))"
  shows "list_all (stored_result d) (compound_results opts query d symbols known)"
proof -
  let ?ok = "\<lambda>(i, n, terms). node_at d (n_id n) = Some n"
  have round: "list_all ?ok (compound_round query d known symb m)" if "list_all ?ok m" for symb and m :: "(string, node \<times> string list) jmap"
  proof (cases "length (title_cased symb) < 3")
    case False
    show ?thesis
      unfolding compound_round_def Let_def if_not_P [OF False]
  proof (rule list_all_fold)
    fix r and m :: "(string, node \<times> string list) jmap"
    assume r: "r \<in> set (findNodesByNameSubstring (title_cased symb) (limited 200 definitionKinds) False d)" and m: "list_all ?ok m"
    have "node_at d (result_id r) = Some (sr_node r)"
      using stored_substring [OF assms] r by (auto simp: list_all_iff stored_result_def)
    then show "list_all ?ok (if result_id r \<in> known \<or> (isTestFile (n_filePath (sr_node r)) \<and> \<not> isTestQuery query) then m
             else (case map_get m (result_id r) of
                     Some (n, terms) \<Rightarrow> map_set (result_id r) (n, set_add (title_cased symb) terms) m
                   | None \<Rightarrow> map_set (result_id r) (sr_node r, [title_cased symb]) m))"
      using m by (fastforce simp: list_all_iff split: option.splits dest!: update_mem map_of_SomeD)
  qed (rule that)
  qed (use that in \<open>simp add: compound_round_def\<close>)
  have "list_all ?ok (fold (compound_round query d known) symbols [])"
    using round by (intro list_all_fold) auto
  then show ?thesis
    by (fastforce simp: compound_results_def list_all_iff stored_result_def dest!: in_set_takeD)
qed

lemma stored_definitions:
  "list_all (stored_result d) rs \<Longrightarrow> list_all (stored_result d) (resolveImportsToDefinitions d rs)"
proof -
  have hop: "list_all (stored_result d) (fst (fold (\<lambda>e (resolved, seen).
             case node_at d (e_target e) of
               Some n \<Rightarrow> if n_id n \<in> set seen then (resolved, seen)
                         else (resolved @ [\<lparr>sr_node = n, sr_score = x\<rparr>], n_id n # seen)
             | None \<Rightarrow> (resolved, seen)) es st))" if "list_all (stored_result d) (fst st)" for x es st
    using that node_at_id [of d]
    by (induction es arbitrary: st) (auto simp: stored_result_def split: option.split prod.split)
  have round: "list_all (stored_result d) (fst (definitions_of d r st))"
    if "list_all (stored_result d) (fst st)" "stored_result d r" for r st
    using that hop [OF that(1)] by (auto simp: definitions_of_def)
  have "list_all (stored_result d) (fst (fold (definitions_of d) rs st))"
    if "list_all (stored_result d) (fst st)" "list_all (stored_result d) rs" for rs st
    using that by (induction rs arbitrary: st) (auto simp: round)
  then show "list_all (stored_result d) rs \<Longrightarrow> ?thesis"
    by (simp add: resolveImportsToDefinitions_def)
qed

lemma stored_entries:
  assumes "searchable fts s"
  shows "list_all (stored_result (qb_db s)) (entry_results fts opts query s)"
proof -
  let ?d = "qb_db s"
  have ids: "distinct (map r_id (t_nodes ?d))"
    using assms by (simp add: searchable_def)
  have keep: "list_all (stored_result ?d) rs \<Longrightarrow> list_all (stored_result ?d) (filter P (take n (by_score rs)))" for P n rs
    by (auto simp: list_all_iff dest!: in_set_takeD)
  note parts = stored_definition_matches [OF assms stored_exact_matches [OF ids]] stored_text_results [OF assms]
    stored_camel [OF ids] stored_compound [OF ids]
  show ?thesis
    unfolding entry_results_def Let_def
    by (intro list_all_take stored_definitions keep) (simp add: parts stored_ranking stored_merged)
qed

section \<open>The subgraph is real\<close>

definition stored_edge :: "db \<Rightarrow> edge \<Rightarrow> bool" where
  "stored_edge d e \<longleftrightarrow> e \<in> rowToEdge ` set (t_edges d)"

text \<open>A map of stored nodes under their ids, and a list of stored edges without repetition.\<close>

definition real_nodes :: "db \<Rightarrow> (string, node) jmap \<Rightarrow> bool" where
  "real_nodes d m \<longleftrightarrow> distinct (map_keys m) \<and> list_all (\<lambda>(i, n). node_at d i = Some n) m"

definition real_edges :: "db \<Rightarrow> edge list \<Rightarrow> bool" where
  "real_edges d es \<longleftrightarrow> distinct (map edge_key es) \<and> list_all (stored_edge d) es"

lemma real_Nil [simp]: "real_nodes d []" "real_edges d []"
  by (simp_all add: real_nodes_def real_edges_def)

lemma real_nodes_get: "real_nodes d m \<Longrightarrow> map_get m i = Some n \<Longrightarrow> node_at d i = Some n"
  by (auto simp: real_nodes_def list_all_iff dest: map_of_SomeD)

lemma real_nodes_set: "real_nodes d m \<Longrightarrow> node_at d i = Some n \<Longrightarrow> real_nodes d (map_set i n m)"
  by (auto simp: real_nodes_def list_all_iff distinct_keys_set dest: update_mem)

lemma real_nodes_delete: "real_nodes d m \<Longrightarrow> real_nodes d (map_delete i m)"
  by (auto simp: real_nodes_def list_all_iff distinct_map_filter AList.delete_eq)

lemma real_nodes_fold:
  assumes "real_nodes d m" and "\<And>p acc. p \<in> set ps \<Longrightarrow> real_nodes d acc \<Longrightarrow> real_nodes d (f p acc)"
  shows "real_nodes d (fold f ps m)"
  using assms by (induction ps arbitrary: m) auto

lemma real_add_node: "real_nodes d m \<Longrightarrow> node_at d (fst p) = Some (snd p) \<Longrightarrow> real_nodes d (add_node p m)"
  by (simp add: add_node_def real_nodes_set)

lemma real_nodes_mem: "real_nodes d m \<Longrightarrow> p \<in> set m \<Longrightarrow> node_at d (fst p) = Some (snd p)"
  by (auto simp: real_nodes_def list_all_iff)

lemma real_add_nodes: "real_nodes d m \<Longrightarrow> real_nodes d ps \<Longrightarrow> real_nodes d (fold add_node ps m)"
  by (intro real_nodes_fold) (auto intro: real_add_node dest: real_nodes_mem)

lemma nodes_are_real:
  assumes "nodes_are d m N"
  shows "real_nodes d m"
proof -
  have "node_at d i = Some n" if "(i, n) \<in> set m" for i n
    using that assms map_of_is_SomeI [of m i n] by (auto simp: nodes_are_def split: if_splits)
  then show ?thesis
    using assms by (auto simp: real_nodes_def nodes_are_def list_all_iff)
qed

lemma real_add_edge: "real_edges d es \<Longrightarrow> stored_edge d e \<Longrightarrow> real_edges d (add_edge e es)"
  by (auto simp: real_edges_def add_edge_def list_ex_iff)

lemma real_add_edges: "real_edges d es \<Longrightarrow> list_all (stored_edge d) xs \<Longrightarrow> real_edges d (fold add_edge xs es)"
  by (induction xs arbitrary: es) (simp_all add: real_add_edge)

lemma real_filter: "real_edges d es \<Longrightarrow> real_edges d (filter P es)"
  by (auto simp: real_edges_def list_all_iff distinct_map inj_on_def)

text \<open>The edges of the traversals are stored edges.\<close>

lemma stored_outgoing: "list_all (stored_edge d) (getOutgoingEdges i kinds prov d)"
  by (auto simp: getOutgoingEdges_def list_all_iff stored_edge_def)

lemma stored_incoming: "list_all (stored_edge d) (getIncomingEdges i kinds d)"
  by (auto simp: getIncomingEdges_def list_all_iff stored_edge_def)

lemma stored_adjacent: "list_all (stored_edge d) (getAdjacentEdges d i direction kinds)"
  using stored_outgoing [of d] stored_incoming [of d] by (auto simp: getAdjacentEdges_def list_all_iff split: direction.splits)

lemma stored_steps:
  assumes "x \<in> set (expand_steps d opts n depth V)"
  shows "\<exists>e. s_edge x = Some e \<and> stored_edge d e"
proof -
  obtain e where "e \<in> set (getAdjacentEdges d (n_id n) (o_direction opts) (o_edgeKinds opts))" "s_edge x = Some e"
    using assms unfolding expand_steps_def Let_def set_map_filter
    by (auto simp: next_step_def split: if_splits option.splits)
  then show ?thesis
    using stored_adjacent [of d] by (auto simp: list_all_iff)
qed

definition stored_walk :: "db \<Rightarrow> bfs_state \<Rightarrow> bool" where
  "stored_walk d st \<longleftrightarrow> list_all (stored_edge d) (b_edges st)
     \<and> (\<forall>x \<in> set (b_queue st). case s_edge x of None \<Rightarrow> True | Some e \<Rightarrow> stored_edge d e)"

lemma stored_walk_visit:
  assumes "stored_walk d st" and "b_queue st = x # q"
  shows "stored_walk d (bfs_visit d opts x (st\<lparr>b_queue := q\<rparr>))"
  using assms stored_steps [of _ d opts "s_node x" "s_depth x"]
  by (fastforce simp: stored_walk_def bfs_visit_def bfs_expand_eq push_edge_def Let_def split: option.splits)

lemma stored_walk_loop: "stored_walk d st \<Longrightarrow> stored_walk d (bfs_loop d opts st)"
proof (induction d opts st rule: bfs_loop.induct)
  case (1 d opts st)
  then show ?case
    using stored_walk_visit [of d st]
    by (cases "b_queue st") (simp_all add: bfs_loop.simps [of d opts st])
qed

lemma stored_bfs: "list_all (stored_edge d) (g_edges (traverseBFS d i opts))"
proof (cases "node_at d i")
  case (Some n)
  have "stored_walk d (bfs_start opts n)"
    by (simp add: stored_walk_def bfs_start_def)
  from stored_walk_loop [OF this, of opts] Some show ?thesis
    by (simp add: traverseBFS_def bfs_start_def stored_walk_def Let_def)
qed (simp add: traverseBFS_def empty_subgraph_def)

lemma stored_ancestors:
  "list_all (stored_edge d) (tv_edges st) \<Longrightarrow> list_all (stored_edge d) (tv_edges (getTypeAncestors d i st))"
  "list_all (stored_edge d) (tv_edges st) \<Longrightarrow> list_all (stored_edge d) es \<Longrightarrow>
     list_all (stored_edge d) (tv_edges (ancestors_loop d ids es st))"
proof (induction d i st and d ids es st rule: getTypeAncestors_ancestors_loop.induct)
  case (1 d i st)
  then show ?case
    using stored_outgoing by (simp add: getTypeAncestors.simps [of d i st] Let_def)
next
  case (3 d ids e es st)
  then show ?case
    by (auto simp: tv_record_def split: option.split)
qed simp

lemma stored_descendants:
  "list_all (stored_edge d) (tv_edges st) \<Longrightarrow> list_all (stored_edge d) (tv_edges (getTypeDescendants d i st))"
  "list_all (stored_edge d) (tv_edges st) \<Longrightarrow> list_all (stored_edge d) es \<Longrightarrow>
     list_all (stored_edge d) (tv_edges (descendants_loop d ids es st))"
proof (induction d i st and d ids es st rule: getTypeDescendants_descendants_loop.induct)
  case (1 d i st)
  then show ?case
    using stored_incoming by (simp add: getTypeDescendants.simps [of d i st] Let_def)
next
  case (3 d ids e es st)
  then show ?case
    by (auto simp: tv_record_def split: option.split)
qed simp

lemma real_hierarchy:
  "real_nodes d (g_nodes (getTypeHierarchy d i))" "list_all (stored_edge d) (g_edges (getTypeHierarchy d i))"
proof -
  show "real_nodes d (g_nodes (getTypeHierarchy d i))"
    using nodes_are_real [OF getTypeHierarchy_are [of d i]]
    by (cases "node_at d i") (simp_all add: getTypeHierarchy_def [of d i] empty_subgraph_def)
  show "list_all (stored_edge d) (g_edges (getTypeHierarchy d i))"
    by (auto simp: getTypeHierarchy_def empty_subgraph_def Let_def stored_descendants stored_ancestors split: option.split)
qed

lemma real_bfs: "real_nodes d (g_nodes (traverseBFS d i opts))"
proof (cases "node_at d i")
  case (Some n)
  from traverseBFS_state [OF this, of opts] show ?thesis
    by (auto simp: bfs_inv_def intro: nodes_are_real)
qed (simp add: traverseBFS_def empty_subgraph_def)

text \<open>So are those that the subgraph gathers.\<close>

lemma real_counted_nodes:
  assumes "real_nodes d (fst st)" and "list_all (\<lambda>p. node_at d (fst p) = Some (snd p)) ps"
  shows "real_nodes d (fst (fold (\<lambda>p (ns, k). if P p ns k then (ns, k) else (map_set (fst p) (snd p) ns, k + 1 :: nat)) ps st))"
  using assms
proof (induction ps arbitrary: st)
  case (Cons p ps)
  then have "real_nodes d (fst (case st of (ns, k) \<Rightarrow> if P p ns k then (ns, k) else (map_set (fst p) (snd p) ns, k + 1)))"
    by (auto simp: real_nodes_set split: prod.split)
  from Cons.IH [OF this] Cons.prems show ?case
    by simp
qed simp

definition real_gathering :: "db \<Rightarrow> gathering \<Rightarrow> bool" where
  "real_gathering d st \<longleftrightarrow> real_nodes d (fst st) \<and> real_edges d (fst (snd st))"

lemma real_hierarchy_nodes: "list_all (\<lambda>p. node_at d (fst p) = Some (snd p)) (g_nodes (getTypeHierarchy d i))"
  using real_nodes_mem [OF real_hierarchy(1)] by (auto simp: list_all_iff)

lemma real_hierarchy_round: "real_gathering d st \<Longrightarrow> real_gathering d (hierarchy_round d m n st)"
  using real_counted_nodes [OF _ real_hierarchy_nodes, of d "(fst st, snd (snd st))" "\<lambda>p ns k. map_has ns (fst p)" "n_id n"]
    real_hierarchy(2) [of d "n_id n"]
  by (auto simp: hierarchy_round_def real_gathering_def Let_def real_add_edges split: prod.splits)

lemma real_sibling_round: "real_gathering d st \<Longrightarrow> real_gathering d (sibling_round d m n st)"
proof -
  assume st: "real_gathering d st"
  have "real_edges d (fold (\<lambda>e es. if P e then add_edge e es else es) xs es)"
    if "real_edges d es" "list_all (stored_edge d) xs" for P xs es
    using that by (induction xs arbitrary: es) (simp_all add: real_add_edge)
  with st show ?thesis
    using real_counted_nodes [OF _ real_hierarchy_nodes, of d "(fst st, snd (snd st))" "\<lambda>p ns k. map_has ns (fst p) \<or> m \<le> k" "n_id n"]
      real_hierarchy(2) [of d "n_id n"]
    by (auto simp: sibling_round_def real_gathering_def Let_def split: prod.splits)
qed

lemma real_expand:
  assumes "real_nodes d (fst st)" and "real_edges d (snd st)"
  shows "real_nodes d (fst (expand_hierarchies d k ns st)) \<and> real_edges d (snd (expand_hierarchies d k ns st))"
proof -
  have rounds: "real_gathering d (fold (hierarchy_round d m) ns x)" "real_gathering d (fold (sibling_round d m) ns x)"
    if "real_gathering d x" for m ns x
    using that by (induction ns arbitrary: x) (simp_all add: real_hierarchy_round real_sibling_round)
  have "real_gathering d (fst st, snd st, 0)"
    using assms by (simp add: real_gathering_def)
  note first = rounds(1) [OF this, of "quarter_up k" ns]
  obtain nodes1 edges1 added1 where 1: "fold (hierarchy_round d (quarter_up k)) ns (fst st, snd st, 0) = (nodes1, edges1, added1)"
    by (rule prod_cases3)
  obtain nodes2 edges2 added2 where 2: "fold (sibling_round d (quarter_up k))
      (filter (\<lambda>n. n_kind n \<in> set typeHierarchyKinds \<and> n_id n \<notin> n_id ` set ns) (map snd nodes1)) (nodes1, edges1, added1) = (nodes2, edges2, added2)"
    by (rule prod_cases3)
  have "real_gathering d (nodes1, edges1, added1)" "real_gathering d (nodes2, edges2, added2)"
    using first rounds(2) [of "(nodes1, edges1, added1)"] unfolding 1 2 [symmetric] by blast+
  moreover have "expand_hierarchies d k ns st = (if 0 < added1 then (nodes2, edges2) else (nodes1, edges1))"
    unfolding expand_hierarchies_def Let_def 1 using 2 by simp
  ultimately show ?thesis
    by (simp add: real_gathering_def)
qed

lemma real_traverse_entry:
  "real_nodes d (fst st) \<and> real_edges d (snd st) \<Longrightarrow>
     real_nodes d (fst (traverse_entry d opts k n st)) \<and> real_edges d (snd (traverse_entry d opts k n st))"
  by (simp add: traverse_entry_def Let_def real_add_nodes real_bfs real_add_edges stored_bfs)

lemma real_keep_node:
  "real_nodes d m \<Longrightarrow> node_at d (fst p) = Some (snd p) \<Longrightarrow> real_nodes d (keep_node k p m)"
  by (simp add: keep_node_def real_add_node)

lemma real_trim:
  assumes "real_nodes d (fst st)" and "real_edges d (snd st)"
  shows "real_nodes d (fst (trim_nodes k roots st)) \<and> real_edges d (snd (trim_nodes k roots st))"
proof -
  obtain nodes edges where st: "st = (nodes, edges)"
    by fastforce
  let ?ps = "List.map_filter (\<lambda>i. map_option (Pair i) (map_get nodes i)) (priority_ids roots edges)"
  have "real_nodes d (fold (keep_node k) ?ps [])"
    using assms real_nodes_get [of d nodes] by (intro real_nodes_fold) (auto simp: st set_map_filter intro!: real_keep_node)
  then have "real_nodes d (fold (keep_node k) nodes (fold (keep_node k) ?ps []))"
    by (rule real_nodes_fold) (use assms real_nodes_mem [of d nodes] in \<open>auto simp: st intro!: real_keep_node\<close>)
  then show ?thesis
    using assms by (simp add: st trim_nodes_def Let_def real_filter)
qed

lemma real_delete_all: "real_nodes d m \<Longrightarrow> real_nodes d (delete_all ids m)"
  by (induction ids arbitrary: m) (simp_all add: real_nodes_delete)

lemma real_cap_files: "real_nodes d m \<Longrightarrow> real_nodes d (cap_files k roots m)"
  unfolding cap_files_def by (rule real_nodes_fold) (auto simp: cap_file_def Let_def real_delete_all)

lemma real_cap_tests: "real_nodes d (fst st) \<Longrightarrow> real_nodes d (fst (cap_tests k st))"
  by (auto simp: cap_tests_def Let_def real_delete_all split: prod.split)

lemma stored_between: "list_all (\<lambda>e. stored_edge d e \<and> e_source e \<in> set ids \<and> e_target e \<in> set ids) (findEdgesBetweenNodes ids kinds d)"
  by (auto simp: findEdgesBetweenNodes_def list_all_iff stored_edge_def rowToEdge_def)

definition graph_real :: "db \<Rightarrow> context_graph \<Rightarrow> bool" where
  "graph_real d g \<longleftrightarrow> real_nodes d (kg_nodes g) \<and> real_edges d (kg_edges g) \<and> list_all (inside (kg_nodes g)) (kg_edges g)"

lemma real_recover:
  assumes "real_edges d es" and "list_all (inside m) es"
  shows "real_edges d (recover_edges d m es) \<and> list_all (inside m) (recover_edges d m es)"
proof -
  let ?xs = "findEdgesBetweenNodes (map_keys m) recoveryKinds d"
  have xs: "list_all (stored_edge d) ?xs" "list_all (inside m) ?xs"
    using stored_between [of d "map_keys m" recoveryKinds] by (auto simp: list_all_iff inside_def map_has_iff)
  have "list_all (inside m) (fold add_edge ys zs)" if "list_all (inside m) ys" "list_all (inside m) zs" for ys zs
    using that by (intro list_all_fold) (auto simp: add_edge_def list_all_iff)
  with assms xs show ?thesis
    by (simp add: recover_edges_def real_add_edges)
qed

lemma findRelevantContext_real:
  assumes "searchable fts s"
  shows "graph_real (qb_db s) (findRelevantContext fts query opts s)"
proof (cases "trim query = []")
  case False
  let ?d = "qb_db s" and ?results = "entry_results fts opts query s"
  let ?entries = "map sr_node ?results"
  let ?roots = "map n_id ?entries"
  have "node_at ?d (n_id n) = Some n" if "n \<in> set ?entries" for n
    using that stored_entries [OF assms, of opts query] by (auto simp: list_all_iff stored_result_def)
  then have start: "real_nodes ?d (fold (\<lambda>n. map_set (n_id n) n) ?entries [])"
    by (intro real_nodes_fold) (auto intro: real_nodes_set)
  let ?gathered = "fold (traverse_entry ?d opts (length ?results)) ?entries
                  (expand_hierarchies ?d (fo_maxNodes opts) ?entries (fold (\<lambda>n. map_set (n_id n) n) ?entries [], []))"
  have traversed: "real_nodes ?d (fst (fold (traverse_entry ?d opts k) ns st)) \<and> real_edges ?d (snd (fold (traverse_entry ?d opts k) ns st))"
    if "real_nodes ?d (fst st) \<and> real_edges ?d (snd st)" for k ns st
    using that by (induction ns arbitrary: st) (simp_all add: real_traverse_entry)
  have "real_nodes ?d (fst ?gathered) \<and> real_edges ?d (snd ?gathered)"
    using real_expand start by (intro traversed) auto
  then have trimmed: "real_nodes ?d (fst (trim_nodes (fo_maxNodes opts) ?roots ?gathered))"
      "real_edges ?d (snd (trim_nodes (fo_maxNodes opts) ?roots ?gathered))"
    using real_trim by blast+
  obtain nodes1 edges1 where 1: "trim_nodes (fo_maxNodes opts) ?roots ?gathered = (nodes1, edges1)"
    by fastforce
  let ?nodes2 = "cap_files (max_per_file (fo_maxNodes opts)) ?roots nodes1"
  obtain nodes3 roots3 where 3: "(if isTestQuery query then (?nodes2, ?roots)
      else cap_tests (max_non_prod (fo_maxNodes opts)) (?nodes2, ?roots)) = (nodes3, roots3)"
    by fastforce
  have "real_nodes ?d ?nodes2"
    using trimmed 1 by (simp add: real_cap_files)
  then have "real_nodes ?d nodes3"
    using 3 real_cap_tests [of ?d "(?nodes2, ?roots)"] by (metis fst_conv)
  moreover have "real_edges ?d (filter (inside nodes3) edges1)"
    using trimmed 1 by (simp add: real_filter)
  ultimately show ?thesis
    using False 1 3 real_recover [of ?d "filter (inside nodes3) edges1" nodes3]
    by (simp add: findRelevantContext_def Let_def graph_real_def list_all_iff)
qed (simp add: findRelevantContext_def graph_real_def)

section \<open>The caps hold\<close>

lemma delete_all_eq: "delete_all ids m = filter (\<lambda>p. fst p \<notin> set ids) m"
  by (induction ids arbitrary: m) (auto simp: AList.delete_eq intro!: filter_cong)

lemma length_set_le: "length (map_set k v m) \<le> length m + 1"
  by (induction m) auto

lemma length_keep_nodes: "length m \<le> k \<Longrightarrow> length (fold (keep_node k) ps m) \<le> k"
proof (induction ps arbitrary: m)
  case (Cons p ps)
  have "length (keep_node k p m) \<le> k"
    using Cons.prems length_set_le [of "fst p" "snd p" m] by (auto simp: keep_node_def add_node_def)
  with Cons.IH show ?case
    by simp
qed simp

lemma length_trim: "length (fst (trim_nodes k roots st)) \<le> k"
  using length_keep_nodes [of "[]" k] length_keep_nodes
  by (auto simp: trim_nodes_def Let_def split: prod.split)

text \<open>The file caps delete, for every file, whatever is beyond the cap in some order of its nodes.\<close>

lemma cap_file_eq:
  "\<exists>xs. mset xs = mset (ids_of_file nodes file) \<and> cap_file k roots nodes file final = delete_all (drop k xs) final"
  by (intro exI [of _ "sort_key (\<lambda>i. - int (node_priority roots final i)) (ids_of_file nodes file)"])
    (simp add: cap_file_def Let_def)

lemma cap_files_eq:
  "\<exists>D. fold (cap_file k roots nodes) fs final = filter (\<lambda>p. fst p \<notin> D) final \<and>
     (\<forall>f \<in> set fs. \<exists>xs. mset xs = mset (ids_of_file nodes f) \<and> set (drop k xs) \<subseteq> D)"
proof (induction fs arbitrary: final)
  case (Cons path fs)
  obtain xs where xs: "mset xs = mset (ids_of_file nodes path)" "cap_file k roots nodes path final = delete_all (drop k xs) final"
    using cap_file_eq by blast
  obtain D where D: "fold (cap_file k roots nodes) fs (delete_all (drop k xs) final) = filter (\<lambda>p. fst p \<notin> D) (delete_all (drop k xs) final)"
      "\<forall>f \<in> set fs. \<exists>ys. mset ys = mset (ids_of_file nodes f) \<and> set (drop k ys) \<subseteq> D"
    using Cons.IH by blast
  show ?case
  proof (intro exI [of _ "D \<union> set (drop k xs)"] conjI ballI)
    show "fold (cap_file k roots nodes) (path # fs) final = filter (\<lambda>p. fst p \<notin> D \<union> set (drop k xs)) final"
      using D(1) xs(2) by (auto simp: delete_all_eq intro!: filter_cong)
    fix f
    assume "f \<in> set (path # fs)"
    then show "\<exists>ys. mset ys = mset (ids_of_file nodes f) \<and> set (drop k ys) \<subseteq> D \<union> set (drop k xs)"
      using D(2) xs(1) by (metis Un_upper2 le_supI1 set_ConsD)
  qed
qed (auto intro: exI [of _ "{}"])

lemma length_filter_drop: "length (filter (\<lambda>x. x \<notin> set (drop k xs)) xs) \<le> k"
proof -
  have "filter (\<lambda>x. x \<notin> set (drop k xs)) xs = filter (\<lambda>x. x \<notin> set (drop k xs)) (take k xs)"
    by (subst append_take_drop_id [of k xs, symmetric], subst filter_append) simp
  then show ?thesis
    by (metis length_filter_le length_take min.bounded_iff order_refl order_trans min.cobounded2)
qed

lemma length_filter_mono: "(\<And>x. P x \<Longrightarrow> Q x) \<Longrightarrow> length (filter P xs) \<le> length (filter Q xs)"
  by (induction xs) auto

lemma ids_of_file_filter: "ids_of_file (filter (\<lambda>p. fst p \<notin> D) m) file = filter (\<lambda>i. i \<notin> D) (ids_of_file m file)"
  by (induction m) (auto simp: ids_of_file_def)

lemma length_cap_files: "length (ids_of_file (cap_files k roots nodes) file) \<le> k"
proof -
  let ?files = "set_of_list (map (\<lambda>(i, n). n_filePath n) nodes)"
  obtain D where D: "cap_files k roots nodes = filter (\<lambda>p. fst p \<notin> D) nodes"
      "\<forall>f \<in> set ?files. \<exists>xs. mset xs = mset (ids_of_file nodes f) \<and> set (drop k xs) \<subseteq> D"
    using cap_files_eq unfolding cap_files_def by blast
  show ?thesis
  proof (cases "file \<in> set ?files")
    case True
    then obtain xs where xs: "mset xs = mset (ids_of_file nodes file)" "set (drop k xs) \<subseteq> D"
      using D(2) by blast
    have "length (filter (\<lambda>i. i \<notin> D) (ids_of_file nodes file)) = length (filter (\<lambda>i. i \<notin> D) xs)"
      using xs(1) by (metis mset_filter size_mset)
    also have "\<dots> \<le> length (filter (\<lambda>x. x \<notin> set (drop k xs)) xs)"
      using xs(2) by (intro length_filter_mono) auto
    also have "\<dots> \<le> k"
      by (rule length_filter_drop)
    finally show ?thesis
      by (simp add: D(1) ids_of_file_filter)
  next
    case False
    then have "ids_of_file nodes file = []"
      by (force simp: ids_of_file_def filter_empty_conv)
    then show ?thesis
      by (simp add: D(1) ids_of_file_filter)
  qed
qed

lemma length_cap_tests: "length (non_prod_ids (fst (cap_tests k st))) \<le> k"
proof -
  have "non_prod_ids (filter (\<lambda>p. fst p \<notin> D) m) = filter (\<lambda>i. i \<notin> D) (non_prod_ids m)" for D m
    by (induction m) (auto simp: non_prod_ids_def)
  then show ?thesis
    using length_filter_drop [of k "non_prod_ids (fst st)"]
    by (cases st) (simp add: cap_tests_def delete_all_eq Let_def)
qed

lemma length_remove1_le: "length (remove1 x xs) \<le> length xs"
  by (induction xs) auto

lemma cap_tests_smaller:
  "length (fst (cap_tests k st)) \<le> length (fst st)" "length (snd (cap_tests k st)) \<le> length (snd st)"
  "length (ids_of_file (fst (cap_tests k st)) file) \<le> length (ids_of_file (fst st) file)"
proof -
  have "length (fold remove1 xs ys) \<le> length ys" for xs ys :: "string list"
    by (induction xs arbitrary: ys) (auto intro: order_trans length_remove1_le)
  then show "length (snd (cap_tests k st)) \<le> length (snd st)"
    by (simp add: cap_tests_def Let_def split: prod.split)
qed (simp_all add: cap_tests_def delete_all_eq ids_of_file_filter Let_def split: prod.split)

lemma length_entries: "length (entry_results fts opts query s) \<le> fo_searchLimit opts"
  by (simp add: entry_results_def Let_def)

lemma findRelevantContext_caps:
  "length (kg_nodes (findRelevantContext fts query opts s)) \<le> fo_maxNodes opts \<and>
   length (ids_of_file (kg_nodes (findRelevantContext fts query opts s)) file) \<le> max_per_file (fo_maxNodes opts) \<and>
   (isTestQuery query \<or> length (non_prod_ids (kg_nodes (findRelevantContext fts query opts s))) \<le> max_non_prod (fo_maxNodes opts)) \<and>
   length (kg_roots (findRelevantContext fts query opts s)) \<le> fo_searchLimit opts"
proof (cases "trim query = []")
  case False
  let ?k = "fo_maxNodes opts"
  define results where "results = entry_results fts opts query s"
  define gathered where "gathered = fold (traverse_entry (qb_db s) opts (length results)) (map sr_node results)
      (expand_hierarchies (qb_db s) ?k (map sr_node results) (fold (\<lambda>n. map_set (n_id n) n) (map sr_node results) [], []))"
  define roots where "roots = map n_id (map sr_node results)"
  obtain nodes1 edges1 where 1: "trim_nodes ?k roots gathered = (nodes1, edges1)"
    by fastforce
  define nodes2 where "nodes2 = cap_files (max_per_file ?k) roots nodes1"
  define capped where "capped = (if isTestQuery query then (nodes2, roots) else cap_tests (max_non_prod ?k) (nodes2, roots))"
  have "kg_nodes (findRelevantContext fts query opts s) = fst capped" "kg_roots (findRelevantContext fts query opts s) = snd capped"
    using False 1 unfolding findRelevantContext_def Let_def results_def [symmetric] gathered_def [symmetric] roots_def [symmetric]
    by (simp_all add: nodes2_def capped_def split: prod.splits)
  moreover have "length nodes1 \<le> ?k"
    using length_trim [of ?k roots gathered] 1 by simp
  moreover have "length nodes2 \<le> length nodes1"
    using cap_files_eq [of "max_per_file ?k" roots nodes1] by (metis cap_files_def length_filter_le nodes2_def)
  moreover have "length (ids_of_file nodes2 file) \<le> max_per_file ?k"
    unfolding nodes2_def by (rule length_cap_files)
  moreover have "length roots \<le> fo_searchLimit opts"
    using length_entries by (simp add: roots_def results_def)
  ultimately show ?thesis
    using cap_tests_smaller [of "max_non_prod ?k" "(nodes2, roots)"] length_cap_tests [of "max_non_prod ?k" "(nodes2, roots)"]
    by (auto simp: capped_def intro: order_trans)
qed (simp add: findRelevantContext_def non_prod_ids_def ids_of_file_def)

section \<open>Call paths are paths of calls\<close>

definition is_call :: "context_graph \<Rightarrow> string \<Rightarrow> string \<Rightarrow> bool" where
  "is_call g a b \<longleftrightarrow> list_ex (\<lambda>e. e_kind e = EK_calls \<and> e_source e = a \<and> e_target e = b) (kg_edges g)"

definition call_path :: "context_graph \<Rightarrow> string list \<Rightarrow> bool" where
  "call_path g c \<longleftrightarrow> distinct c \<and> successively (is_call g) c"

lemma call_targets_are_calls:
  assumes "map_get (call_targets g) a = Some ts" and "b \<in> set ts"
  shows "is_call g a b"
proof -
  have "b \<in> (case map_get (fold (\<lambda>e adj. if e_kind e = EK_calls \<and> inside (kg_nodes g) e
                   then map_set (e_source e) ((case map_get adj (e_source e) of Some ts \<Rightarrow> ts | None \<Rightarrow> []) @ [e_target e]) adj
                   else adj) es m) a of None \<Rightarrow> {} | Some ts \<Rightarrow> set ts) \<Longrightarrow>
      b \<in> (case map_get m a of None \<Rightarrow> {} | Some ts \<Rightarrow> set ts) \<or> (\<exists>e \<in> set es. e_kind e = EK_calls \<and> e_source e = a \<and> e_target e = b)"
    for es m
  proof (induction es arbitrary: m)
    case (Cons e es)
    from Cons.IH [OF Cons.prems [unfolded fold_Cons comp_def]] show ?case
      by (auto simp: update_conv' split: if_splits option.splits)
  qed simp
  from this [of "kg_edges g" "[]"] show ?thesis
    using assms by (auto simp: call_targets_def is_call_def list_ex_iff)
qed

lemma next_is_call: "b \<in> set (case map_get (call_targets g) a of Some ts \<Rightarrow> ts | None \<Rightarrow> []) \<Longrightarrow> is_call g a b"
  using call_targets_are_calls by (cases "map_get (call_targets g) a") auto

definition chain_ok :: "context_graph \<Rightarrow> string list \<Rightarrow> bool" where
  "chain_ok g c \<longleftrightarrow> call_path g c \<and> 3 \<le> length c \<and> length c \<le> MAX_HOPS"

lemma chain_ok_end:
  "call_path g path \<Longrightarrow> length path \<le> MAX_HOPS \<Longrightarrow> list_all (chain_ok g) cs \<Longrightarrow> list_all (chain_ok g) (end_chain path cs)"
  by (simp add: end_chain_def chain_ok_def)

lemma call_path_extend:
  assumes "call_path g path" "path \<noteq> []" "last path = i" "t \<notin> set path" "is_call g i t"
  shows "call_path g (path @ [t])"
  using assms by (auto simp: call_path_def successively_append_iff)

lemma chains_from_ok:
  assumes "call_path g path" "path \<noteq> []" "last path = i" "length path + k \<le> MAX_HOPS" "list_all (chain_ok g) (snd st)"
  shows "list_all (chain_ok g) (snd (chains_from k (call_targets g) i path st))"
  using assms
proof (induction k arbitrary: i path st)
  case 0
  then show ?case
    by (auto simp: chain_ok_end split: prod.split)
next
  case (Suc k)
  obtain budget cs where st: "st = (budget, cs)"
    by fastforce
  let ?next = "filter (\<lambda>t. t \<notin> set path) (case map_get (call_targets g) i of Some ts \<Rightarrow> ts | None \<Rightarrow> [])"
  have next_ok: "call_path g (path @ [t])" if "t \<in> set ?next" for t
    using that Suc.prems by (intro call_path_extend next_is_call) auto
  have "list_all (chain_ok g) (snd (fold (\<lambda>t. chains_from k (call_targets g) t (path @ [t])) ts x))"
    if "set ts \<subseteq> set ?next" "list_all (chain_ok g) (snd x)" for ts x
    using that
  proof (induction ts arbitrary: x)
    case (Cons t ts)
    have "list_all (chain_ok g) (snd (chains_from k (call_targets g) t (path @ [t]) x))"
      using Cons.prems Suc.prems(4) by (intro Suc.IH next_ok) auto
    with Cons show ?case
      by simp
  qed simp
  from this [of ?next "(budget - 1, cs)"] show ?case
    using Suc.prems by (auto simp: st Let_def intro: chain_ok_end)
qed

lemma call_chains_ok: "list_all (chain_ok g) (call_chains g)"
proof -
  have "list_all (chain_ok g) (snd (fold (\<lambda>s. chains_from (MAX_HOPS - 1) (call_targets g) s [s]) ss x))"
    if "list_all (chain_ok g) (snd x)" for ss x
    using that
  proof (induction ss arbitrary: x)
    case (Cons s ss)
    have "list_all (chain_ok g) (snd (chains_from (MAX_HOPS - 1) (call_targets g) s [s] x))"
      using Cons.prems by (intro chains_from_ok) (simp_all add: call_path_def MAX_HOPS_def)
    with Cons.IH show ?case
      by simp
  qed simp
  then show ?thesis
    by (simp add: call_chains_def Let_def)
qed

lemma keep_chains:
  assumes "list_all P cs" and "list_all P kept" and "length kept \<le> 3"
  shows "list_all P (fold keep_chain cs kept) \<and> length (fold keep_chain cs kept) \<le> 3"
  using assms
proof (induction cs arbitrary: kept)
  case (Cons c cs)
  have "list_all P (keep_chain c kept)" "length (keep_chain c kept) \<le> 3"
    using Cons.prems by (auto simp: keep_chain_def)
  with Cons show ?case
    by simp
qed simp

lemma kept_chains_ok:
  "list_all (\<lambda>c. chain_ok g c \<and> 2 \<le> root_count (kg_roots g) c) (kept_chains g) \<and> length (kept_chains g) \<le> 3"
  unfolding kept_chains_def Let_def
  by (rule keep_chains) (use call_chains_ok [of g] in \<open>auto simp: list_all_iff\<close>)

section \<open>Which files are read\<close>

text \<open>The files of the nodes of a subgraph that are no configuration leaves.\<close>

definition code_files :: "file_env \<Rightarrow> string \<Rightarrow> context_graph \<Rightarrow> string set" where
  "code_files env projectRoot g =
     {p. \<exists>n \<in> snd ` set (kg_nodes g). \<not> isConfigLeafNode (n_kind n) (Some (n_language n)) \<and>
           validatePathWithinRoot (fe_platform env) (fe_realpath env) projectRoot (n_filePath n) = Some p}"

definition restrict_reads :: "string set \<Rightarrow> file_env \<Rightarrow> file_env" where
  "restrict_reads A env = env\<lparr>fe_read := \<lambda>p. if p \<in> A then fe_read env p else None\<rparr>"

lemma extractNodeCode_restricted:
  "n \<in> snd ` set (kg_nodes g) \<Longrightarrow>
     extractNodeCode (restrict_reads (code_files env projectRoot g) env) projectRoot n = extractNodeCode env projectRoot n"
  by (auto simp: extractNodeCode_def restrict_reads_def code_files_def split: option.split)

lemma code_blocks_cong:
  "(\<And>n. n \<in> set ns \<Longrightarrow> f n = f' n) \<Longrightarrow> code_blocks f k m ns bs = code_blocks f' k m ns bs"
  by (induction ns arbitrary: bs) (auto split: option.split)

lemma priority_nodes_in: "n \<in> set (priority_nodes g) \<Longrightarrow> n \<in> snd ` set (kg_nodes g)"
  by (force simp: priority_nodes_def Let_def set_map_filter dest: map_of_SomeD)

lemma extractCodeBlocks_restricted:
  "extractCodeBlocks (restrict_reads (code_files env projectRoot g) env) projectRoot g k m = extractCodeBlocks env projectRoot g k m"
  unfolding extractCodeBlocks_def
  by (rule code_blocks_cong) (simp add: extractNodeCode_restricted priority_nodes_in)

lemma task_context_restricted:
  "task_context_of (restrict_reads (code_files env projectRoot (tc_subgraph (task_context_of env fts projectRoot input opts s))) env)
     fts projectRoot input opts s = task_context_of env fts projectRoot input opts s"
  by (simp add: task_context_of_def Let_def extractCodeBlocks_restricted)

section \<open>Properties\<close>

text \<open>
  C20: The subgraph of a question consists of stored nodes, each under its own id and once, and of stored
  edges between them, no two of the same kind between the same nodes.
\<close>

theorem context_wellformed:
  assumes "fts_ok fts (qb_db s)" and "distinct (map r_id (t_nodes (qb_db s)))"
  shows "graph_real (qb_db s) (findRelevantContext fts query opts s)"
  using assms by (intro findRelevantContext_real) (simp add: searchable_def)

definition question_store :: query_builder where
  "question_store = new_query_builder (empty_db
     \<lparr>t_nodes := [sample_row ''runMain'' NK_function, sample_row ''parseArgs'' NK_function, sample_row ''readFile'' NK_function],
      t_edges := [sample_edge 1 ''runMain'' EK_calls ''parseArgs'', sample_edge 2 ''parseArgs'' EK_calls ''readFile''],
      t_edge_seq := 2\<rparr>)"

theorem context_wellformed_witness:
  "graph_real (qb_db question_store) (findRelevantContext no_fts ''runMain readFile'' DEFAULT_FIND_OPTIONS question_store)"
  by (rule context_wellformed) (simp_all add: fts_ok_def no_fts_def question_store_def new_query_builder_def sample_row_def)

text \<open>
  C21: A subgraph has at most \<open>maxNodes\<close> nodes, at most a fifth of them (or five) of one file, for a
  question that is not about tests at most three twentieths (or three) of test files, and at most
  \<open>searchLimit\<close> entry points.
\<close>

theorem context_caps:
  "length (kg_nodes (findRelevantContext fts query opts s)) \<le> fo_maxNodes opts
   \<and> length (ids_of_file (kg_nodes (findRelevantContext fts query opts s)) file) \<le> max_per_file (fo_maxNodes opts)
   \<and> (isTestQuery query \<or> length (non_prod_ids (kg_nodes (findRelevantContext fts query opts s))) \<le> max_non_prod (fo_maxNodes opts))
   \<and> length (kg_roots (findRelevantContext fts query opts s)) \<le> fo_searchLimit opts"
  by (rule findRelevantContext_caps)

text \<open>
  C23: The call paths are at most three; each is a path of three to six different nodes along calls of
  the subgraph, and at least two of its nodes are entry points.
\<close>

theorem call_paths_sound:
  "list_all (\<lambda>c. distinct c \<and> successively (is_call g) c \<and> 3 \<le> length c \<and> length c \<le> 6 \<and> 2 \<le> root_count (kg_roots g) c) (kept_chains g)
   \<and> length (kept_chains g) \<le> 3"
  using kept_chains_ok [of g] by (simp add: chain_ok_def call_path_def MAX_HOPS_def list_all_iff)

text \<open>
  C22: Building a context reads no file but those of nodes of the subgraph that are no configuration
  leaves, at paths that validation admits: hiding every other file does not change the result.
\<close>

theorem config_values_unread:
  "buildContext (restrict_reads (code_files env projectRoot (tc_subgraph (task_context_of env fts projectRoot input opts s))) env)
     fts projectRoot input opts s = buildContext env fts projectRoot input opts s"
  by (simp add: buildContext_def task_context_restricted)

text \<open>
  The nodes that a trim keeps first are not only the entry points and their direct neighbours: the set grows
  while the edges are scanned.
\<close>

lemma priority_beyond_neighbours:
  "priority_ids [''a''] [\<lparr>e_source = ''a'', e_target = ''b'', e_kind = EK_calls, e_metadata = None, e_line = None, e_column = None, e_provenance = None\<rparr>,
      \<lparr>e_source = ''b'', e_target = ''c'', e_kind = EK_calls, e_metadata = None, e_line = None, e_column = None, e_provenance = None\<rparr>]
    = [''a'', ''b'', ''c'']"
  by code_simp

end
