(* ===== verification/SyntaxTree.thy ===== *)
theory SyntaxTree
  imports Types Regex Numerals
begin

text \<open>
  Syntax trees as the binding \<open>web-tree-sitter\<close> presents them, and the helpers of
  \<open>extraction/tree-sitter-helpers.ts\<close>. A tree is plain data: the type of a node, its extent in the text,
  and its children, each with the name of its field, if any. A cursor is a node with its place in the tree,
  so that \<open>parent\<close> and the siblings can be asked for. The grammars that produce the trees are not part of
  the program.
\<close>

section \<open>Trees and cursors\<close>

datatype snode = SNode
  (sn_type: string) (sn_isNamed: bool)
  (sn_startIndex: nat) (sn_endIndex: nat)
  (sn_startRow: nat) (sn_startColumn: nat) (sn_endRow: nat) (sn_endColumn: nat)
  (sn_children: "(string option \<times> snode) list")

text \<open>The second component is the way up: the index among the children of each ancestor, and the ancestor.\<close>

datatype cursor = Cursor (here: snode) (way_up: "(nat \<times> snode) list")

definition top_cursor :: "snode \<Rightarrow> cursor" where
  "top_cursor n = Cursor n []"

abbreviation type_of :: "cursor \<Rightarrow> string" where
  "type_of c \<equiv> sn_type (here c)"

text \<open>\<open>children\<close>, \<open>namedChildren\<close>, \<open>namedChild(i)\<close>, \<open>childForFieldName\<close>, \<open>fieldNameForNamedChild(i)\<close>.\<close>

definition child_at :: "cursor \<Rightarrow> nat \<Rightarrow> cursor" where
  "child_at c i = Cursor (snd (sn_children (here c) ! i)) ((i, here c) # way_up c)"

definition all_children :: "cursor \<Rightarrow> cursor list" where
  "all_children c = map (child_at c) [0..<length (sn_children (here c))]"

definition namedChildren :: "cursor \<Rightarrow> cursor list" where
  "namedChildren c = filter (\<lambda>k. sn_isNamed (here k)) (all_children c)"

definition namedChild :: "cursor \<Rightarrow> nat \<Rightarrow> cursor option" where
  "namedChild c i = (if i < length (namedChildren c) then Some (namedChildren c ! i) else None)"

definition getChildByField :: "cursor \<Rightarrow> string \<Rightarrow> cursor option" where
  "getChildByField c f =
     map_option (child_at c) (find (\<lambda>i. fst (sn_children (here c) ! i) = Some f) [0..<length (sn_children (here c))])"

definition field_name :: "cursor \<Rightarrow> string option" where
  "field_name c = (case way_up c of [] \<Rightarrow> None | (i, p) # _ \<Rightarrow> fst (sn_children p ! i))"

definition child_of_type :: "string list \<Rightarrow> cursor \<Rightarrow> cursor option" where
  "child_of_type types c = find (\<lambda>k. type_of k \<in> set types) (namedChildren c)"

definition parent_node :: "cursor \<Rightarrow> cursor option" where
  "parent_node c = (case way_up c of [] \<Rightarrow> None | (i, p) # up \<Rightarrow> Some (Cursor p up))"

text \<open>The named siblings before a node, the nearest first, and those after it.\<close>

definition previous_siblings :: "cursor \<Rightarrow> cursor list" where
  "previous_siblings c =
     (case way_up c of
        [] \<Rightarrow> []
      | (i, p) # up \<Rightarrow> rev (filter (\<lambda>k. sn_isNamed (here k)) (take i (all_children (Cursor p up)))))"

definition next_siblings :: "cursor \<Rightarrow> cursor list" where
  "next_siblings c =
     (case way_up c of
        [] \<Rightarrow> []
      | (i, p) # up \<Rightarrow> filter (\<lambda>k. sn_isNamed (here k)) (drop (Suc i) (all_children (Cursor p up))))"

definition previousNamedSibling :: "cursor \<Rightarrow> cursor option" where
  "previousNamedSibling c = (case previous_siblings c of [] \<Rightarrow> None | k # _ \<Rightarrow> Some k)"

definition nextNamedSibling :: "cursor \<Rightarrow> cursor option" where
  "nextNamedSibling c = (case next_siblings c of [] \<Rightarrow> None | k # _ \<Rightarrow> Some k)"

abbreviation line_of :: "cursor \<Rightarrow> nat" where
  "line_of c \<equiv> sn_startRow (here c) + 1"

abbreviation column_of :: "cursor \<Rightarrow> nat" where
  "column_of c \<equiv> sn_startColumn (here c)"

text \<open>The first of several alternatives that is there: \<open>a ?? b\<close>, and \<open>a || b\<close> on nodes.\<close>

definition given_or :: "'a option \<Rightarrow> 'a option \<Rightarrow> 'a option" where
  "given_or a b = (case a of None \<Rightarrow> b | Some x \<Rightarrow> Some x)"

lemma given_or_simps [simp]: "given_or None b = b" "given_or (Some x) b = Some x"
  by (simp_all add: given_or_def)

section \<open>Size and place\<close>

lemma size_child: "i < length (sn_children n) \<Longrightarrow> size (snd (sn_children n ! i)) < size n"
proof -
  assume i: "i < length (sn_children n)"
  have "size (snd p) < size_list (size_prod (\<lambda>_. 0) size) ps" if "p \<in> set ps" for p :: "string option \<times> snode" and ps
    using that by (induction ps) (auto simp: size_prod_def split: prod.splits)
  from this [OF nth_mem [OF i]] show ?thesis
    by (cases n) (auto simp: size_prod_def option.size_gen_o_map)
qed

lemma child_size: "k \<in> set (all_children c) \<Longrightarrow> size (here k) < size (here c)"
  by (auto simp: all_children_def child_at_def size_child)

lemma named_in_all: "k \<in> set (namedChildren c) \<Longrightarrow> k \<in> set (all_children c)"
  by (simp add: namedChildren_def)

lemma named_size [simp]: "k \<in> set (namedChildren c) \<Longrightarrow> size (here k) < size (here c)"
  by (simp add: child_size named_in_all)

lemma field_in_all: "getChildByField c f = Some k \<Longrightarrow> k \<in> set (all_children c)"
  by (auto simp: getChildByField_def all_children_def find_Some_iff)

lemma field_size [simp]: "getChildByField c f = Some k \<Longrightarrow> size (here k) < size (here c)"
  by (simp add: child_size field_in_all)

lemma find_in: "find P xs = Some x \<Longrightarrow> x \<in> set xs \<and> P x"
  by (auto simp: find_Some_iff)

lemma typed_child_in: "child_of_type ts c = Some k \<Longrightarrow> k \<in> set (namedChildren c) \<and> type_of k \<in> set ts"
  by (auto simp: child_of_type_def dest: find_in)

lemma named_child_in: "namedChild c i = Some k \<Longrightarrow> k \<in> set (namedChildren c)"
  by (auto simp: namedChild_def split: if_splits)

lemma named_child_size [simp]: "namedChild c i = Some k \<Longrightarrow> size (here k) < size (here c)"
  using named_child_in by auto

section \<open>Helpers\<close>

definition getNodeText :: "cursor \<Rightarrow> string \<Rightarrow> string" where
  "getNodeText c source = slice (sn_startIndex (here c)) (sn_endIndex (here c)) source"

text \<open>The hexadecimal digest of a text, cut to 32 characters, is a parameter.\<close>

definition generateNodeId :: "(string \<Rightarrow> string) \<Rightarrow> string \<Rightarrow> node_kind \<Rightarrow> string \<Rightarrow> nat \<Rightarrow> string" where
  "generateNodeId digest filePath kind name line =
     kind_str kind @ '':'' @ digest (filePath @ '':'' @ kind_str kind @ '':'' @ name @ '':'' @ show_nat line)"

definition comment_types :: "string list" where
  "comment_types = [''comment'', ''line_comment'', ''block_comment'', ''documentation_comment'']"

abbreviation space_re :: re where
  "space_re \<equiv> Cls is_space"

definition comment_ends_re :: re where
  "comment_ends_re = Alt (re_seq [Bol, re_str ''/*'', re_opt (re_chr CHR ''*'')]) (re_seq [re_str ''*/'', Eol])"

definition line_comment_start_re :: re where
  "line_comment_start_re = re_seq [Mbol, re_str ''//'', re_opt space_re]"

definition star_re :: re where
  "star_re = re_seq [Mbol, Star space_re, re_chr CHR ''*'', re_opt space_re]"

definition clean_comment :: "string \<Rightarrow> string" where
  "clean_comment c =
     trim (re_replace star_re [] (re_replace line_comment_start_re [] (re_replace comment_ends_re [] c 0) 0) 0)"

definition getPrecedingDocstring :: "cursor \<Rightarrow> string \<Rightarrow> string option" where
  "getPrecedingDocstring c source =
     (let comments = rev (takeWhile (\<lambda>k. type_of k \<in> set comment_types) (previous_siblings c)) in
      if comments = [] then None
      else Some (trim (join_with [newline] (map (\<lambda>k. clean_comment (getNodeText k source)) comments))))"

end
