(* ===== verification/ExtractorCore.thy ===== *)
theory ExtractorCore
  imports SyntaxTree Paths
begin

text \<open>
  The state of the class \<open>TreeSitterExtractor\<close> (\<open>extraction/tree-sitter.ts\<close>), the interface
  \<open>LanguageExtractor\<close> (\<open>extraction/tree-sitter-types.ts\<close>) through which it is configured for a language,
  and the creation of nodes. The stack of scopes is a list whose head is the top.
\<close>

section \<open>State\<close>

record ext_state =
  xs_nodes :: "node list"
  xs_edges :: "edge list"
  xs_refs :: "unresolved_reference list"
  xs_stack :: "string list"
  xs_methodIndex :: "(string, string) jmap option"

definition push_scope :: "string \<Rightarrow> ext_state \<Rightarrow> ext_state" where
  "push_scope i st = st\<lparr>xs_stack := i # xs_stack st\<rparr>"

definition pop_scope :: "ext_state \<Rightarrow> ext_state" where
  "pop_scope st = st\<lparr>xs_stack := tl (xs_stack st)\<rparr>"

definition add_refs :: "unresolved_reference list \<Rightarrow> ext_state \<Rightarrow> ext_state" where
  "add_refs rs st = st\<lparr>xs_refs := xs_refs st @ rs\<rparr>"

definition contains_edge :: "string \<Rightarrow> string \<Rightarrow> edge" where
  "contains_edge source target =
     \<lparr>e_source = source, e_target = target, e_kind = EK_contains, e_metadata = None, e_line = None,
      e_column = None, e_provenance = None\<rparr>"

definition ref_from :: "string \<Rightarrow> string \<Rightarrow> edge_kind \<Rightarrow> nat \<Rightarrow> nat \<Rightarrow> unresolved_reference" where
  "ref_from fromId name kind line column =
     \<lparr>u_fromNodeId = fromId, u_referenceName = name, u_referenceKind = kind, u_line = line, u_column = column,
      u_filePath = None, u_language = None, u_candidates = None\<rparr>"

text \<open>A reference at the start of a syntax node.\<close>

definition ref_at :: "string \<Rightarrow> string \<Rightarrow> edge_kind \<Rightarrow> cursor \<Rightarrow> unresolved_reference" where
  "ref_at fromId name kind c = ref_from fromId name kind (line_of c) (column_of c)"

text \<open>The top of the stack; an empty id counts as none.\<close>

definition top_scope :: "ext_state \<Rightarrow> string option" where
  "top_scope st = (case xs_stack st of [] \<Rightarrow> None | i # _ \<Rightarrow> if i = [] then None else Some i)"

section \<open>The language interface\<close>

text \<open>The optional properties of a node, \<open>Partial<Node>\<close>, as far as the extractor sets them.\<close>

record node_extra =
  ne_docstring :: "string option"
  ne_signature :: "string option"
  ne_visibility :: "visibility option"
  ne_isExported :: "bool option"
  ne_isAsync :: "bool option"
  ne_isStatic :: "bool option"
  ne_returnType :: "string option"
  ne_qualifiedName :: "string option"

definition no_extra :: node_extra where
  "no_extra = \<lparr>ne_docstring = None, ne_signature = None, ne_visibility = None, ne_isExported = None,
     ne_isAsync = None, ne_isStatic = None, ne_returnType = None, ne_qualifiedName = None\<rparr>"

record import_info =
  ii_moduleName :: string
  ii_signature :: string
  ii_handledRefs :: bool

text \<open>
  What a hook may call back. Adding a reference and moving in the stack of scopes are functions on the state.
\<close>

record extractor_context =
  ctx_createNode :: "node_kind \<Rightarrow> string \<Rightarrow> cursor \<Rightarrow> node_extra \<Rightarrow> ext_state \<Rightarrow> node option \<times> ext_state"
  ctx_visitNode :: "cursor \<Rightarrow> ext_state \<Rightarrow> ext_state"
  ctx_visitFunctionBody :: "cursor \<Rightarrow> ext_state \<Rightarrow> ext_state"
  ctx_filePath :: string
  ctx_source :: string

datatype class_kind = Ck_class | Ck_struct | Ck_enum | Ck_interface | Ck_trait

text \<open>
  A configuration. An absent list of types is empty, an absent hook returns \<open>None\<close>; only for \<open>extractImport\<close>
  and \<open>isExported\<close> it matters whether the hook is there.
\<close>

record lang_extractor =
  le_preParse :: "string \<Rightarrow> string"
  le_functionTypes :: "string list"
  le_classTypes :: "string list"
  le_methodTypes :: "string list"
  le_interfaceTypes :: "string list"
  le_structTypes :: "string list"
  le_enumTypes :: "string list"
  le_enumMemberTypes :: "string list"
  le_typeAliasTypes :: "string list"
  le_importTypes :: "string list"
  le_callTypes :: "string list"
  le_variableTypes :: "string list"
  le_fieldTypes :: "string list"
  le_propertyTypes :: "string list"
  le_nameField :: string
  le_bodyField :: string
  le_paramsField :: string
  le_returnField :: "string option"
  le_resolveName :: "cursor \<Rightarrow> string \<Rightarrow> string option"
  le_extractPropertyName :: "cursor \<Rightarrow> string \<Rightarrow> string option"
  le_getSignature :: "cursor \<Rightarrow> string \<Rightarrow> string option"
  le_getVisibility :: "cursor \<Rightarrow> visibility option"
  le_isExported :: "cursor \<Rightarrow> string \<Rightarrow> bool option"
  le_isAsync :: "cursor \<Rightarrow> bool option"
  le_isStatic :: "cursor \<Rightarrow> bool option"
  le_isConst :: "cursor \<Rightarrow> bool option"
  le_extractModifiers :: "cursor \<Rightarrow> string list"
  le_extraClassNodeTypes :: "string list"
  le_methodsAreTopLevel :: bool
  le_interfaceKind :: "node_kind option"
  le_visitNode :: "extractor_context \<Rightarrow> cursor \<Rightarrow> ext_state \<Rightarrow> bool \<times> ext_state"
  le_classifyClassNode :: "cursor \<Rightarrow> class_kind"
  le_resolveBody :: "cursor \<Rightarrow> string \<Rightarrow> cursor option"
  le_extractImport :: "(cursor \<Rightarrow> string \<Rightarrow> import_info option) option"
  le_getReceiverType :: "cursor \<Rightarrow> string \<Rightarrow> string option"
  le_getReturnType :: "cursor \<Rightarrow> string \<Rightarrow> string option"
  le_resolveTypeAliasKind :: "cursor \<Rightarrow> string \<Rightarrow> node_kind option"
  le_isMisparsedFunction :: "string \<Rightarrow> cursor \<Rightarrow> bool"
  le_extractBareCall :: "cursor \<Rightarrow> string \<Rightarrow> string option"
  le_packageTypes :: "string list"
  le_extractPackage :: "cursor \<Rightarrow> string \<Rightarrow> string option"

text \<open>A configuration with no types and no hooks, from which the languages are built.\<close>

definition plain_extractor :: lang_extractor where
  "plain_extractor = \<lparr>le_preParse = (\<lambda>s. s),
     le_functionTypes = [], le_classTypes = [], le_methodTypes = [], le_interfaceTypes = [], le_structTypes = [],
     le_enumTypes = [], le_enumMemberTypes = [], le_typeAliasTypes = [], le_importTypes = [], le_callTypes = [],
     le_variableTypes = [], le_fieldTypes = [], le_propertyTypes = [],
     le_nameField = ''name'', le_bodyField = ''body'', le_paramsField = ''parameters'', le_returnField = None,
     le_resolveName = (\<lambda>_ _. None), le_extractPropertyName = (\<lambda>_ _. None), le_getSignature = (\<lambda>_ _. None),
     le_getVisibility = (\<lambda>_. None), le_isExported = (\<lambda>_ _. None), le_isAsync = (\<lambda>_. None), le_isStatic = (\<lambda>_. None),
     le_isConst = (\<lambda>_. None), le_extractModifiers = (\<lambda>_. []), le_extraClassNodeTypes = [], le_methodsAreTopLevel = False,
     le_interfaceKind = None, le_visitNode = (\<lambda>_ _ st. (False, st)), le_classifyClassNode = (\<lambda>_. Ck_class),
     le_resolveBody = (\<lambda>_ _. None), le_extractImport = None, le_getReceiverType = (\<lambda>_ _. None),
     le_getReturnType = (\<lambda>_ _. None), le_resolveTypeAliasKind = (\<lambda>_ _. None), le_isMisparsedFunction = (\<lambda>_ _. False),
     le_extractBareCall = (\<lambda>_ _. None), le_packageTypes = [], le_extractPackage = (\<lambda>_ _. None)\<rparr>"

text \<open>What an extraction is about; \<open>x_digest\<close> is the hash of \<open>crypto\<close>, \<open>x_now\<close> is \<open>Date.now()\<close>.\<close>

record x_env =
  x_filePath :: string
  x_language :: language
  x_source :: string
  x_extractor :: lang_extractor
  x_digest :: "string \<Rightarrow> string"
  x_now :: nat

abbreviation text_at :: "x_env \<Rightarrow> cursor \<Rightarrow> string" where
  "text_at E c \<equiv> getNodeText c (x_source E)"

definition body_of :: "x_env \<Rightarrow> cursor \<Rightarrow> cursor option" where
  "body_of E c = given_or (le_resolveBody (x_extractor E) c (le_bodyField (x_extractor E)))
     (getChildByField c (le_bodyField (x_extractor E)))"

section \<open>Names\<close>

text \<open>The loop that unwraps pointer declarators.\<close>

function unwrap_pointer :: "cursor \<Rightarrow> cursor" where
  "unwrap_pointer c =
     (if type_of c = ''pointer_declarator''
      then (case given_or (getChildByField c ''declarator'') (namedChild c 0) of
              None \<Rightarrow> c
            | Some inner \<Rightarrow> unwrap_pointer inner)
      else c)"
  by pat_completeness auto
termination
  by (relation "measure (\<lambda>c. size (here c))") (auto simp: given_or_def split: option.splits)

declare unwrap_pointer.simps [simp del]

definition anonymous :: string where
  "anonymous = ''<anonymous>''"

definition signature_types :: "string list" where
  "signature_types = [''function_signature'', ''getter_signature'', ''setter_signature'', ''constructor_signature'',
     ''factory_constructor_signature'']"

text \<open>The name of a node that has a name field.\<close>

definition declared_name :: "cursor \<Rightarrow> string \<Rightarrow> string" where
  "declared_name nameNode source =
     (let resolved = unwrap_pointer nameNode;
          inner = (if type_of resolved = ''dot_index_expression'' then getChildByField resolved ''field''
                   else if type_of resolved = ''method_index_expression'' then getChildByField resolved ''method''
                   else None)
      in if type_of resolved = ''function_declarator'' \<or> type_of resolved = ''declarator''
         then (case given_or (getChildByField resolved ''declarator'') (namedChild resolved 0) of
                 Some n \<Rightarrow> getNodeText n source
               | None \<Rightarrow> getNodeText resolved source)
         else (case inner of Some n \<Rightarrow> getNodeText n source | None \<Rightarrow> getNodeText resolved source))"

text \<open>The first identifier inside the signatures of a Dart method signature.\<close>

definition inner_signature_name :: "cursor \<Rightarrow> cursor option" where
  "inner_signature_name c =
     first_some (\<lambda>k. if type_of k \<in> set signature_types then find (\<lambda>i. type_of i = ''identifier'') (namedChildren k) else None)
       (namedChildren c)"

definition extractName :: "cursor \<Rightarrow> string \<Rightarrow> lang_extractor \<Rightarrow> string" where
  "extractName c source ext =
     (case truthy (le_resolveName ext c source) of
        Some hookName \<Rightarrow> hookName
      | None \<Rightarrow>
          (case getChildByField c (le_nameField ext) of
             Some nameNode \<Rightarrow> declared_name nameNode source
           | None \<Rightarrow>
               (case (if type_of c = ''method_signature'' then inner_signature_name c else None) of
                  Some n \<Rightarrow> getNodeText n source
                | None \<Rightarrow>
                    if type_of c = ''arrow_function'' \<or> type_of c = ''function_expression'' then anonymous
                    else (case child_of_type [''identifier'', ''type_identifier'', ''simple_identifier'', ''constant''] c of
                            Some n \<Rightarrow> getNodeText n source
                          | None \<Rightarrow> anonymous))))"

section \<open>Creating nodes\<close>

definition node_with_id :: "ext_state \<Rightarrow> string \<Rightarrow> node option" where
  "node_with_id st i = find (\<lambda>n. n_id n = i) (xs_nodes st)"

definition buildQualifiedName :: "string \<Rightarrow> ext_state \<Rightarrow> string" where
  "buildQualifiedName name st =
     join_with ''::''
       (List.map_filter (\<lambda>i. case node_with_id st i of
            Some n \<Rightarrow> if n_kind n \<noteq> NK_file then Some (n_name n) else None
          | None \<Rightarrow> None) (rev (xs_stack st)) @ [name])"

definition isInsideClassLikeNode :: "ext_state \<Rightarrow> bool" where
  "isInsideClassLikeNode st =
     (case top_scope st of
        None \<Rightarrow> False
      | Some i \<Rightarrow> (case node_with_id st i of
                    None \<Rightarrow> False
                  | Some n \<Rightarrow> n_kind n \<in> {NK_class, NK_struct, NK_interface, NK_trait, NK_enum, NK_module}))"

definition end_line :: "x_env \<Rightarrow> node_kind \<Rightarrow> cursor \<Rightarrow> nat" where
  "end_line E kind c =
     (let own = sn_endRow (here c) + 1 in
      if kind = NK_function \<or> kind = NK_method
      then (case le_resolveBody (x_extractor E) c (le_bodyField (x_extractor E)) of
              Some body \<Rightarrow> max own (sn_endRow (here body) + 1)
            | None \<Rightarrow> own)
      else own)"

definition new_node :: "x_env \<Rightarrow> node_kind \<Rightarrow> string \<Rightarrow> cursor \<Rightarrow> node_extra \<Rightarrow> ext_state \<Rightarrow> node" where
  "new_node E kind name c extra st =
     \<lparr>n_id = generateNodeId (x_digest E) (x_filePath E) kind name (line_of c), n_kind = kind, n_name = name,
      n_qualifiedName = (case ne_qualifiedName extra of Some q \<Rightarrow> q | None \<Rightarrow> buildQualifiedName name st),
      n_filePath = x_filePath E, n_language = x_language E,
      n_startLine = line_of c, n_endLine = end_line E kind c,
      n_startColumn = column_of c, n_endColumn = sn_endColumn (here c),
      n_docstring = ne_docstring extra, n_signature = ne_signature extra, n_visibility = ne_visibility extra,
      n_isExported = ne_isExported extra, n_isAsync = ne_isAsync extra, n_isStatic = ne_isStatic extra, n_isAbstract = None,
      n_decorators = (let mods = le_extractModifiers (x_extractor E) c
                      in if mods = [] then None else Some (JArr (map JStr mods))),
      n_typeParameters = None, n_returnType = ne_returnType extra, n_updatedAt = x_now E\<rparr>"

definition createNode :: "x_env \<Rightarrow> node_kind \<Rightarrow> string \<Rightarrow> cursor \<Rightarrow> node_extra \<Rightarrow> ext_state \<Rightarrow> node option \<times> ext_state" where
  "createNode E kind name c extra st =
     (if name = [] then (None, st)
      else (let n = new_node E kind name c extra st in
        (Some n, st\<lparr>xs_nodes := xs_nodes st @ [n],
                   xs_edges := xs_edges st @ (case top_scope st of Some p \<Rightarrow> [contains_edge p (n_id n)] | None \<Rightarrow> [])\<rparr>)))"

text \<open>A node is created and the rest of the work done for its id; nothing when the name is empty.\<close>

definition with_node :: "x_env \<Rightarrow> node_kind \<Rightarrow> string \<Rightarrow> cursor \<Rightarrow> node_extra \<Rightarrow> (string \<Rightarrow> ext_state \<Rightarrow> ext_state) \<Rightarrow> ext_state \<Rightarrow> ext_state" where
  "with_node E kind name c extra f st =
     (case createNode E kind name c extra st of (None, st') \<Rightarrow> st' | (Some n, st') \<Rightarrow> f (n_id n) st')"

definition in_scope :: "string \<Rightarrow> (ext_state \<Rightarrow> ext_state) \<Rightarrow> ext_state \<Rightarrow> ext_state" where
  "in_scope i f st = pop_scope (f (push_scope i st))"

definition create :: "x_env \<Rightarrow> node_kind \<Rightarrow> string \<Rightarrow> cursor \<Rightarrow> node_extra \<Rightarrow> ext_state \<Rightarrow> ext_state" where
  "create E kind name c extra = with_node E kind name c extra (\<lambda>_ st. st)"

definition findNodeByName :: "string \<Rightarrow> ext_state \<Rightarrow> string option" where
  "findNodeByName name st =
     map_option n_id (find (\<lambda>n. n_name n = name \<and> n_kind n \<in> {NK_struct, NK_enum, NK_class}) (xs_nodes st))"

definition extractFilePackage :: "x_env \<Rightarrow> cursor \<Rightarrow> ext_state \<Rightarrow> string option \<times> ext_state" where
  "extractFilePackage E rootNode st =
     (case child_of_type (le_packageTypes (x_extractor E)) rootNode of
        None \<Rightarrow> (None, st)
      | Some pkgNode \<Rightarrow>
          (case truthy (le_extractPackage (x_extractor E) pkgNode (x_source E)) of
             None \<Rightarrow> (None, st)
           | Some pkgName \<Rightarrow>
               (case createNode E NK_namespace pkgName pkgNode no_extra st of (n, st') \<Rightarrow> (map_option n_id n, st'))))"

end
