(* ===== verification/ExtractTypes.thy ===== *)
theory ExtractTypes
  imports ExtractorCore
begin

text \<open>
  The references that declarations make: types in annotations, decorators and supertypes. A method of the
  extractor that only pushes references from a fixed node is a function to the list of what it pushes, in
  order.
\<close>

section \<open>Types\<close>

definition TYPE_ANNOTATION_LANGUAGES :: "language list" where
  "TYPE_ANNOTATION_LANGUAGES =
     [L_typescript, L_tsx, L_dart, L_kotlin, L_swift, L_rust, L_go, L_java, L_csharp, L_scala, L_php]"

definition PHP_PSEUDO_TYPES :: "string list" where
  "PHP_PSEUDO_TYPES =
     [''self'', ''static'', ''parent'', ''mixed'', ''object'', ''iterable'', ''callable'', ''void'',
      ''null'', ''false'', ''true'', ''never'', ''array'', ''int'', ''float'', ''string'', ''bool'']"

definition BUILTIN_TYPES :: "string list" where
  "BUILTIN_TYPES =
     [''string'', ''number'', ''boolean'', ''void'', ''null'', ''undefined'', ''never'', ''any'', ''unknown'',
      ''object'', ''symbol'', ''bigint'', ''true'', ''false'',
      ''str'', ''bool'', ''i8'', ''i16'', ''i32'', ''i64'', ''i128'', ''isize'',
      ''u8'', ''u16'', ''u32'', ''u64'', ''u128'', ''usize'', ''f32'', ''f64'', ''char'',
      ''int'', ''long'', ''short'', ''byte'', ''float'', ''double'', ''char'',
      ''int8'', ''int16'', ''int32'', ''int64'', ''uint8'', ''uint16'', ''uint32'', ''uint64'',
      ''float32'', ''float64'', ''complex64'', ''complex128'', ''rune'', ''error'',
      ''Int'', ''Long'', ''Short'', ''Byte'', ''Float'', ''Double'', ''Boolean'', ''Char'', ''Unit'',
      ''String'', ''Any'', ''AnyRef'', ''AnyVal'', ''Nothing'', ''Null'']"

definition PHP_TYPE_NODES :: "string list" where
  "PHP_TYPE_NODES =
     [''named_type'', ''optional_type'', ''nullable_type'', ''union_type'', ''intersection_type'',
      ''disjunctive_normal_form_type'', ''primitive_type'']"

text \<open>A reference to a name that is neither empty nor in a list of names to skip.\<close>

definition type_ref :: "string list \<Rightarrow> string \<Rightarrow> string \<Rightarrow> cursor \<Rightarrow> unresolved_reference list" where
  "type_ref skip fromId name c = (if name = [] \<or> name \<in> set skip then [] else [ref_at fromId name EK_references c])"

function extractTypeRefsFromSubtree :: "x_env \<Rightarrow> string \<Rightarrow> cursor \<Rightarrow> unresolved_reference list" where
  "extractTypeRefsFromSubtree E fromId c =
     (if type_of c = ''type_identifier'' then type_ref BUILTIN_TYPES fromId (text_at E c) c
      else concat (map (extractTypeRefsFromSubtree E fromId) (namedChildren c)))"
  by pat_completeness auto
termination
  by (relation "measure (\<lambda>(E, i, c). size (here c))") auto

function walkCsharpTypePosition :: "x_env \<Rightarrow> string \<Rightarrow> cursor \<Rightarrow> unresolved_reference list" where
  "walkCsharpTypePosition E fromId c =
     (if type_of c = ''predefined_type'' then []
      else if type_of c = ''identifier'' then type_ref BUILTIN_TYPES fromId (text_at E c) c
      else if type_of c = ''qualified_name''
      then type_ref BUILTIN_TYPES fromId (last (split_by (\<lambda>x. x = CHR ''.'') (text_at E c))) c
      else if type_of c = ''tuple_element''
      then (case getChildByField c ''type'' of None \<Rightarrow> [] | Some t \<Rightarrow> walkCsharpTypePosition E fromId t)
      else concat (map (walkCsharpTypePosition E fromId) (namedChildren c)))"
  by pat_completeness auto
termination
  by (relation "measure (\<lambda>(E, i, c). size (here c))") auto

function walkPhpTypePosition :: "x_env \<Rightarrow> string \<Rightarrow> cursor \<Rightarrow> unresolved_reference list" where
  "walkPhpTypePosition E fromId c =
     (if type_of c = ''primitive_type'' then []
      else if type_of c = ''name'' then type_ref PHP_PSEUDO_TYPES fromId (text_at E c) c
      else if type_of c = ''qualified_name''
      then type_ref PHP_PSEUDO_TYPES fromId (last (split_by (\<lambda>x. x = CHR 0x5C) (text_at E c))) c
      else concat (map (walkPhpTypePosition E fromId) (namedChildren c)))"
  by pat_completeness auto
termination
  by (relation "measure (\<lambda>(E, i, c). size (here c))") auto

declare extractTypeRefsFromSubtree.simps [simp del] walkCsharpTypePosition.simps [simp del] walkPhpTypePosition.simps [simp del]

text \<open>What a walk gives for a node that may be missing.\<close>

definition maybe :: "('a \<Rightarrow> 'b list) \<Rightarrow> 'a option \<Rightarrow> 'b list" where
  "maybe f c = (case c of None \<Rightarrow> [] | Some k \<Rightarrow> f k)"

definition parameter_types :: "x_env \<Rightarrow> string \<Rightarrow> cursor \<Rightarrow> unresolved_reference list" where
  "parameter_types E fromId params =
     concat (map (\<lambda>p. if type_of p = ''parameter'' then maybe (walkCsharpTypePosition E fromId) (getChildByField p ''type'') else [])
       (namedChildren params))"

definition extractCsharpTypeRefs :: "x_env \<Rightarrow> string \<Rightarrow> cursor \<Rightarrow> unresolved_reference list" where
  "extractCsharpTypeRefs E fromId c =
     maybe (walkCsharpTypePosition E fromId) (given_or (getChildByField c ''type'') (getChildByField c ''returns''))
     @ maybe (\<lambda>v. maybe (walkCsharpTypePosition E fromId) (getChildByField v ''type'')) (child_of_type [''variable_declaration''] c)
     @ maybe (parameter_types E fromId) (getChildByField c ''parameters'')"

definition extractCsharpPrimaryCtorParamRefs :: "x_env \<Rightarrow> string \<Rightarrow> cursor \<Rightarrow> unresolved_reference list" where
  "extractCsharpPrimaryCtorParamRefs E ownerId c =
     (if x_language E \<noteq> L_csharp then [] else maybe (parameter_types E ownerId) (child_of_type [''parameter_list''] c))"

definition php_types_in :: "x_env \<Rightarrow> string \<Rightarrow> cursor \<Rightarrow> unresolved_reference list" where
  "php_types_in E fromId c =
     concat (map (\<lambda>k. if type_of k \<in> set PHP_TYPE_NODES then walkPhpTypePosition E fromId k else []) (namedChildren c))"

definition extractPhpTypeRefs :: "x_env \<Rightarrow> string \<Rightarrow> cursor \<Rightarrow> unresolved_reference list" where
  "extractPhpTypeRefs E fromId c =
     maybe (\<lambda>params. concat (map (php_types_in E fromId) (namedChildren params))) (child_of_type [''formal_parameters''] c)
     @ php_types_in E fromId c"

definition dart_signature :: "cursor \<Rightarrow> cursor" where
  "dart_signature c =
     (if type_of c = ''method_signature''
      then (case child_of_type signature_types c of Some sig \<Rightarrow> sig | None \<Rightarrow> c)
      else c)"

definition extractVariableTypeAnnotation :: "x_env \<Rightarrow> string \<Rightarrow> cursor \<Rightarrow> unresolved_reference list" where
  "extractVariableTypeAnnotation E fromId c =
     (if x_language E \<notin> set TYPE_ANNOTATION_LANGUAGES then []
      else maybe (extractTypeRefsFromSubtree E fromId) (child_of_type [''type_annotation''] c))"

definition nonempty_or :: "string \<Rightarrow> string \<Rightarrow> string" where
  "nonempty_or s t = (if s = [] then t else s)"

definition extractTypeAnnotations :: "x_env \<Rightarrow> string \<Rightarrow> cursor \<Rightarrow> unresolved_reference list" where
  "extractTypeAnnotations E fromId c =
     (let ext = x_extractor E; walk = extractTypeRefsFromSubtree E fromId; scala = (x_language E = L_scala) in
      if x_language E \<notin> set TYPE_ANNOTATION_LANGUAGES then []
      else if x_language E = L_csharp then extractCsharpTypeRefs E fromId c
      else if x_language E = L_php then extractPhpTypeRefs E fromId c
      else if x_language E = L_dart then walk (dart_signature c)
      else (if scala then concat (map walk (filter (\<lambda>k. type_of k = ''parameters'') (namedChildren c)))
            else maybe walk (getChildByField c (nonempty_or (le_paramsField ext) ''parameters'')))
        @ maybe walk (getChildByField c (nonempty_or (case le_returnField ext of Some f \<Rightarrow> f | None \<Rightarrow> []) ''return_type''))
        @ (if scala then maybe walk (child_of_type [''type_parameters''] c) else [])
        @ maybe walk (child_of_type [''type_annotation''] c))"

section \<open>Decorators\<close>

text \<open>A name without type arguments and qualifiers.\<close>

definition last_separator :: "string \<Rightarrow> nat option" where
  "last_separator s =
     (case (last_index_of s ''.'', last_index_of s ''::'') of
        (None, b) \<Rightarrow> b | (a, None) \<Rightarrow> a | (Some i, Some j) \<Rightarrow> Some (max i j))"

definition drop_mark :: "string \<Rightarrow> string" where
  "drop_mark s = (case s of c # t \<Rightarrow> if c = CHR '':'' \<or> c = CHR ''.'' then t else s | [] \<Rightarrow> [])"

definition cut_at :: "string \<Rightarrow> string \<Rightarrow> string" where
  "cut_at mark s = (case index_of s mark of Some i \<Rightarrow> if 0 < i then take i s else s | None \<Rightarrow> s)"

definition simple_name :: "string \<Rightarrow> string" where
  "simple_name raw =
     (let s = cut_at ''<'' raw
      in trim (case last_separator s of Some i \<Rightarrow> drop_mark (drop (i + 1) s) | None \<Rightarrow> s))"

definition decorator_types :: "string list" where
  "decorator_types = [''decorator'', ''annotation'', ''marker_annotation'']"

definition decorator_target :: "cursor \<Rightarrow> cursor option" where
  "decorator_target c =
     first_some (\<lambda>k. case (if type_of k = ''call_expression'' then given_or (getChildByField k ''function'') (namedChild k 0) else None) of
         Some fn \<Rightarrow> Some fn
       | None \<Rightarrow> if type_of k \<in> {''identifier'', ''member_expression'', ''scoped_identifier'', ''navigation_expression'',
                   ''user_type'', ''type_identifier''} then Some k else None)
       (namedChildren c)"

definition consider_decorator :: "x_env \<Rightarrow> string \<Rightarrow> cursor \<Rightarrow> unresolved_reference list" where
  "consider_decorator E fromId c =
     (if type_of c \<notin> set decorator_types \<and> type_of c \<noteq> ''attribute'' then []
      else maybe (\<lambda>target. let name = simple_name (text_at E target) in
             if name = [] then [] else [ref_at fromId name EK_decorates c]) (decorator_target c))"

text \<open>The siblings in front of a declaration, which is found among them by where it starts.\<close>

definition leading_siblings :: "cursor \<Rightarrow> cursor list" where
  "leading_siblings c =
     (case parent_node c of
        None \<Rightarrow> []
      | Some p \<Rightarrow>
          (let earlier = takeWhile (\<lambda>k. sn_startIndex (here k) \<noteq> sn_startIndex (here c)) (namedChildren p)
           in if length earlier < length (namedChildren p) then rev earlier else []))"

definition extractDecoratorsFor :: "x_env \<Rightarrow> string \<Rightarrow> cursor \<Rightarrow> unresolved_reference list" where
  "extractDecoratorsFor E fromId c =
     concat (map (\<lambda>k. consider_decorator E fromId k
         @ (if type_of k = ''modifiers'' then concat (map (consider_decorator E fromId) (namedChildren k)) else [])) (namedChildren c))
     @ concat (map (consider_decorator E fromId) (takeWhile (\<lambda>k. type_of k \<in> set decorator_types) (leading_siblings c)))"

section \<open>Supertypes\<close>

function scalaBaseTypeName :: "x_env \<Rightarrow> cursor \<Rightarrow> string option" where
  "scalaBaseTypeName E c =
     (if type_of c = ''type_identifier'' \<or> type_of c = ''identifier'' then Some (text_at E c)
      else if type_of c = ''generic_type''
      then (case namedChild c 0 of None \<Rightarrow> None | Some b \<Rightarrow> scalaBaseTypeName E b)
      else if type_of c = ''stable_type_identifier'' \<or> type_of c = ''stable_identifier''
      then (let ids = filter (\<lambda>k. type_of k = ''type_identifier'' \<or> type_of k = ''identifier'') (namedChildren c)
            in if ids = [] then None else Some (text_at E (last ids)))
      else map_option (text_at E) (child_of_type [''type_identifier''] c))"
  by pat_completeness auto
termination
  by (relation "measure (\<lambda>(E, c). size (here c))") auto

declare scalaBaseTypeName.simps [simp del]

definition named_ref :: "x_env \<Rightarrow> string \<Rightarrow> edge_kind \<Rightarrow> cursor \<Rightarrow> unresolved_reference" where
  "named_ref E fromId kind c = ref_at fromId (text_at E c) kind c"

definition objc_supertypes :: "x_env \<Rightarrow> string \<Rightarrow> cursor \<Rightarrow> unresolved_reference list" where
  "objc_supertypes E fromId c =
     maybe (\<lambda>s. [named_ref E fromId EK_extends s]) (getChildByField c ''superclass'')
     @ concat (map (\<lambda>args. if type_of args \<noteq> ''parameterized_arguments'' then []
         else concat (map (\<lambda>t. maybe (\<lambda>i. [named_ref E fromId EK_implements i])
                (child_of_type [''type_identifier'', ''identifier''] t)) (namedChildren args))) (namedChildren c))"

definition extends_types :: "string list" where
  "extends_types = [''extends_clause'', ''superclass'', ''base_clause'', ''extends_interfaces'']"

definition implements_types :: "string list" where
  "implements_types = [''implements_clause'', ''class_interface_clause'', ''super_interfaces'', ''interfaces'']"

definition extends_refs :: "x_env \<Rightarrow> string \<Rightarrow> cursor \<Rightarrow> unresolved_reference list" where
  "extends_refs E fromId k =
     (if x_language E = L_scala
      then concat (map (\<lambda>t. case truthy (scalaBaseTypeName E t) of
               Some name \<Rightarrow> [ref_at fromId name EK_extends t] | None \<Rightarrow> []) (namedChildren k))
      else if x_language E = L_dart \<and> type_of k = ''superclass''
      then concat (map (\<lambda>t.
             if type_of t = ''mixins''
             then map (named_ref E fromId EK_implements) (filter (\<lambda>m. type_of m = ''type_identifier'') (namedChildren t))
             else if type_of t = ''type_identifier'' then [named_ref E fromId EK_extends t] else []) (namedChildren k))
      else map (named_ref E fromId EK_extends)
             (case child_of_type [''type_list''] k of
                Some typeList \<Rightarrow> namedChildren typeList | None \<Rightarrow> take 1 (namedChildren k)))"

definition bound_type :: "cursor \<Rightarrow> cursor option" where
  "bound_type b =
     (if type_of b = ''type_identifier'' then Some b
      else if type_of b = ''generic_type'' then child_of_type [''type_identifier''] b
      else if type_of b = ''higher_ranked_trait_bound''
      then given_or (Option.bind (child_of_type [''generic_type''] b) (child_of_type [''type_identifier'']))
             (child_of_type [''type_identifier''] b)
      else None)"

definition kotlin_supertype :: "cursor \<Rightarrow> cursor option" where
  "kotlin_supertype k =
     map_option (\<lambda>target.
         if type_of target = ''user_type''
         then (case child_of_type [''type_identifier''] target of Some i \<Rightarrow> i | None \<Rightarrow> target)
         else (let userType = child_of_type [''user_type''] target in
               case given_or (Option.bind userType (child_of_type [''type_identifier''])) userType of
                 Some i \<Rightarrow> i | None \<Rightarrow> target))
       (given_or (child_of_type [''user_type''] k) (child_of_type [''constructor_invocation''] k))"

text \<open>The references for one child of the declaration; \<open>parentType\<close> is the type of the declaration.\<close>

definition supertypes_in :: "x_env \<Rightarrow> string \<Rightarrow> string \<Rightarrow> cursor \<Rightarrow> unresolved_reference list" where
  "supertypes_in E parentType fromId k =
     (let t = type_of k; extending = named_ref E fromId EK_extends in
      if t \<in> set extends_types then extends_refs E fromId k
      else if t = ''base_class_clause''
      then map extending (filter (\<lambda>b. type_of b \<in> {''type_identifier'', ''qualified_identifier'', ''template_type''}) (namedChildren k))
      else if t \<in> set implements_types
      then map (named_ref E fromId EK_implements)
             (case child_of_type [''type_list''] k of Some typeList \<Rightarrow> namedChildren typeList | None \<Rightarrow> namedChildren k)
      else if t = ''argument_list'' \<and> parentType = ''class_definition''
      then map extending (filter (\<lambda>a. type_of a = ''identifier'' \<or> type_of a = ''attribute'') (namedChildren k))
      else if t = ''constraint_elem'' then maybe (\<lambda>i. [extending i]) (child_of_type [''type_identifier''] k)
      else if t = ''field_declaration''
      then (if child_of_type [''field_identifier''] k \<noteq> None then []
            else maybe (\<lambda>i. [extending i]) (child_of_type [''type_identifier''] k))
      else if t = ''trait_bounds''
      then concat (map (\<lambda>b. maybe (\<lambda>i. if text_at E i = [] then [] else [extending i]) (bound_type b)) (namedChildren k))
      else if t = ''base_list''
      then map (\<lambda>b. ref_at fromId
               (if type_of b = ''generic_name''
                then (case child_of_type [''identifier''] b of Some i \<Rightarrow> text_at E i | None \<Rightarrow> text_at E b)
                else text_at E b) EK_extends b) (namedChildren k)
      else if t = ''delegation_specifier'' then maybe (\<lambda>i. [extending i]) (kotlin_supertype k)
      else if t = ''inheritance_specifier''
      then maybe (\<lambda>i. [extending i]) (Option.bind (child_of_type [''user_type''] k) (child_of_type [''type_identifier'']))
      else if (t = ''identifier'' \<or> t = ''type_identifier'') \<and> parentType = ''class_heritage'' then [extending k]
      else [])"

function extractInheritance :: "x_env \<Rightarrow> string \<Rightarrow> cursor \<Rightarrow> unresolved_reference list" where
  "extractInheritance E fromId c =
     (if type_of c = ''class_interface'' then objc_supertypes E fromId c
      else concat (map (\<lambda>k. supertypes_in E (type_of c) fromId k
               @ (if type_of k = ''field_declaration_list'' \<or> type_of k = ''class_heritage''
                  then extractInheritance E fromId k else [])) (namedChildren c)))"
  by pat_completeness auto
termination
  by (relation "measure (\<lambda>(E, i, c). size (here c))") auto

declare extractInheritance.simps [simp del]

text \<open>\<open>impl Trait for Type\<close> in Rust: from the type, when it is known already.\<close>

definition extractRustImplItem :: "x_env \<Rightarrow> cursor \<Rightarrow> ext_state \<Rightarrow> unresolved_reference list" where
  "extractRustImplItem E c st =
     (let typeIdents = filter (\<lambda>k. type_of k \<in> {''type_identifier'', ''generic_type'', ''scoped_type_identifier''}) (namedChildren c) in
      if \<not> list_ex (\<lambda>k. type_of k = ''for'' \<and> \<not> sn_isNamed (here k)) (all_children c) \<or> length typeIdents < 2 then []
      else (let typeNode = last typeIdents;
                typeName = (case (if type_of typeNode = ''generic_type'' then child_of_type [''type_identifier''] typeNode else None) of
                  Some inner \<Rightarrow> text_at E inner | None \<Rightarrow> text_at E typeNode)
            in case truthy (findNodeByName typeName st) of
                 Some i \<Rightarrow> [named_ref E i EK_implements (hd typeIdents)]
               | None \<Rightarrow> []))"

end
