(* ===== verification/ExtractCalls.thy ===== *)
theory ExtractCalls
  imports ExtractTypes
begin

text \<open>
  The references that bodies make: calls, instantiations, static members and the route macros of Rocket,
  and the bindings of imports.
\<close>

section \<open>Calls\<close>

definition capital_start :: "string \<Rightarrow> bool" where
  "capital_start s \<longleftrightarrow> s \<noteq> [] \<and> is_upper (hd s)"

definition type_like :: "string \<Rightarrow> bool" where
  "type_like s \<longleftrightarrow> capital_start s \<and> list_all is_word s"

definition no_spaces :: "string \<Rightarrow> string" where
  "no_spaces s = filter (\<lambda>x. \<not> is_space x) s"

definition drop_dollar :: "string \<Rightarrow> string" where
  "drop_dollar s = (case s of x # t \<Rightarrow> if x = CHR ''$'' then t else s | [] \<Rightarrow> [])"

definition chained :: "string \<Rightarrow> string \<Rightarrow> string" where
  "chained inner methodName = inner @ ''().'' @ methodName"

definition receiver_types :: "string list" where
  "receiver_types = [''method_invocation'', ''member_call_expression'', ''scoped_call_expression'']"

text \<open>A call with an explicit receiver in Java or PHP; the empty name stands for no call.\<close>

definition receiver_name :: "x_env \<Rightarrow> cursor \<Rightarrow> string" where
  "receiver_name E objectField =
     drop_dollar
       (case (if type_of objectField = ''field_access''
              then (case (getChildByField objectField ''object'', getChildByField objectField ''field'') of
                      (Some inner, Some fld) \<Rightarrow> if type_of inner = ''this'' \<or> type_of inner = ''this_expression'' then Some fld else None
                    | _ \<Rightarrow> None)
              else None) of
          Some fld \<Rightarrow> text_at E fld
        | None \<Rightarrow> text_at E objectField)"

definition receiver_call :: "x_env \<Rightarrow> string \<Rightarrow> cursor \<Rightarrow> string" where
  "receiver_call E methodName objectField =
     (if methodName = [] then []
      else if receiver_name E objectField \<in> {''self'', ''this'', ''cls'', ''super'', ''parent'', ''static''} then methodName
      else receiver_name E objectField @ ''.'' @ methodName)"

text \<open>The three cases of such a call: \<open>Inl\<close> is a name that is final, \<open>Inr\<close> one that may still be a conversion.\<close>

definition invocation_name :: "x_env \<Rightarrow> cursor \<Rightarrow> cursor \<Rightarrow> string + string" where
  "invocation_name E nameField objectField =
     (let methodName = text_at E nameField in
      if methodName \<noteq> [] \<and> x_language E = L_php \<and> type_of objectField = ''scoped_call_expression''
      then Inl (case (getChildByField objectField ''scope'', getChildByField objectField ''name'') of
             (Some innerScope, Some innerName) \<Rightarrow> chained (text_at E innerScope @ ''::'' @ text_at E innerName) methodName
           | _ \<Rightarrow> methodName)
      else if methodName \<noteq> [] \<and> x_language E = L_java \<and> type_of objectField = ''method_invocation''
      then (case (getChildByField objectField ''object'', getChildByField objectField ''name'') of
             (Some innerObj, Some innerName) \<Rightarrow> Inl (chained (text_at E innerObj @ ''.'' @ text_at E innerName) methodName)
           | _ \<Rightarrow> Inr (receiver_call E methodName objectField))
      else Inr (receiver_call E methodName objectField))"

text \<open>A message of Objective-C: the selector, and a reference to the class when the receiver looks like one.\<close>

definition message_selector :: "x_env \<Rightarrow> cursor \<Rightarrow> string option" where
  "message_selector E c =
     (let keywords = map (text_at E) (filter (\<lambda>k. field_name k = Some ''method'') (namedChildren c)) in
      if keywords = [] then None
      else if list_ex (\<lambda>k. type_of k = '':'') (all_children c)
      then Some (concat (map (\<lambda>k. k @ '':'') keywords)) else Some (hd keywords))"

definition message_call :: "x_env \<Rightarrow> string \<Rightarrow> cursor \<Rightarrow> unresolved_reference list \<times> string" where
  "message_call E callerId c =
     (case message_selector E c of
        None \<Rightarrow> ([], [])
      | Some methodName \<Rightarrow>
          (case getChildByField c ''receiver'' of
             None \<Rightarrow> ([], methodName)
           | Some r \<Rightarrow>
               (let receiverName = text_at E r in
                if type_of r = ''message_expression'' \<or> receiverName = [] \<or> receiverName \<in> {''self'', ''super''} then ([], methodName)
                else (if type_like receiverName then [ref_at callerId receiverName EK_references r] else [],
                      receiverName @ ''.'' @ methodName))))"

text \<open>A call through member access.\<close>

definition member_types :: "string list" where
  "member_types = [''member_expression'', ''attribute'', ''selector_expression'', ''navigation_expression'', ''field_expression'']"

definition called_property :: "cursor \<Rightarrow> cursor option" where
  "called_property func =
     (case given_or (getChildByField func ''property'') (getChildByField func ''field'') of
        Some p \<Rightarrow> Some p
      | None \<Rightarrow>
          (case namedChild func 1 of
             None \<Rightarrow> None
           | Some child1 \<Rightarrow>
               if type_of child1 = ''navigation_suffix''
               then given_or (child_of_type [''simple_identifier''] child1) (Some child1) else Some child1))"

definition chain_languages :: "language list" where
  "chain_languages = [L_cpp, L_c, L_kotlin, L_swift, L_rust, L_go, L_scala]"

definition inner_callee :: "x_env \<Rightarrow> cursor \<Rightarrow> string \<times> bool" where
  "inner_callee E receiver =
     (if x_language E = L_kotlin \<or> x_language E = L_swift
      then (let inner = (case namedChild receiver 0 of Some n \<Rightarrow> no_spaces (text_at E n) | None \<Rightarrow> [])
            in (inner, capital_start inner))
      else (let innerFn = getChildByField receiver ''function'';
                inner = (case innerFn of Some f \<Rightarrow> no_spaces (join_with ''.'' (split_str ''->'' (text_at E f))) | None \<Rightarrow> [])
            in (inner,
                if x_language E = L_rust then (case innerFn of Some f \<Rightarrow> type_of f = ''scoped_identifier'' | None \<Rightarrow> False)
                else if x_language E = L_go then (case innerFn of Some f \<Rightarrow> type_of f = ''identifier'' | None \<Rightarrow> False)
                else if x_language E = L_scala then capital_start inner
                else inner \<noteq> [])))"

definition member_receiver :: "cursor \<Rightarrow> cursor option" where
  "member_receiver func =
     given_or (getChildByField func ''object'')
       (given_or (getChildByField func ''operand'') (given_or (getChildByField func ''argument'') (namedChild func 0)))"

definition member_call :: "x_env \<Rightarrow> cursor \<Rightarrow> string" where
  "member_call E func =
     (case called_property func of
        None \<Rightarrow> []
      | Some property \<Rightarrow>
          (let methodName = text_at E property in
           case member_receiver func of
             None \<Rightarrow> methodName
           | Some receiver \<Rightarrow>
               if type_of receiver \<in> {''identifier'', ''simple_identifier'', ''field_identifier''}
               then (if text_at E receiver \<in> {''self'', ''this'', ''cls'', ''super''} then methodName
                     else text_at E receiver @ ''.'' @ methodName)
               else if x_language E \<in> set chain_languages \<and> type_of receiver = ''call_expression''
               then (case inner_callee E receiver of (inner, reencode) \<Rightarrow> if reencode then chained inner methodName else methodName)
               else methodName))"

definition csharp_member_call :: "x_env \<Rightarrow> cursor \<Rightarrow> string" where
  "csharp_member_call E func =
     (let methodName = (case getChildByField func ''name'' of Some n \<Rightarrow> text_at E n | None \<Rightarrow> []) in
      case getChildByField func ''expression'' of
        Some recv \<Rightarrow>
          if type_of recv = ''invocation_expression'' \<and> methodName \<noteq> []
          then (let inner = (case getChildByField recv ''function'' of Some f \<Rightarrow> no_spaces (text_at E f) | None \<Rightarrow> [])
                in if inner \<noteq> [] then chained inner methodName else methodName)
          else text_at E func
      | None \<Rightarrow> text_at E func)"

definition function_call :: "x_env \<Rightarrow> cursor \<Rightarrow> string" where
  "function_call E func =
     (if type_of func \<in> set member_types then member_call E func
      else if type_of func = ''scoped_identifier'' \<or> type_of func = ''scoped_call_expression'' then text_at E func
      else if x_language E = L_csharp \<and> type_of func = ''member_access_expression'' then csharp_member_call E func
      else text_at E func)"

text \<open>\<open>^\(\s*\*?\s*([A-Za-z_][\w.]*)\s*\)$\<close>: a conversion to a type in parentheses.\<close>

definition conversion_target :: "string \<Rightarrow> string option" where
  "conversion_target s =
     re_group (re_seq [Bol, re_chr CHR ''('', Star space_re, re_opt (re_chr CHR ''*''), Star space_re])
       (Seq (Cls (\<lambda>x. is_upper x \<or> is_lower x \<or> x = CHR ''_'')) (Star (Cls (\<lambda>x. is_word x \<or> x = CHR ''.''))))
       (re_seq [Star space_re, re_chr CHR '')'', Eol]) s"

definition converted :: "string \<Rightarrow> string" where
  "converted name = (case conversion_target name of Some t \<Rightarrow> t | None \<Rightarrow> name)"

definition call_ref :: "string \<Rightarrow> string \<Rightarrow> cursor \<Rightarrow> unresolved_reference list" where
  "call_ref callerId name c = (if name = [] then [] else [ref_at callerId name EK_calls c])"

definition extractCall :: "x_env \<Rightarrow> string \<Rightarrow> cursor \<Rightarrow> unresolved_reference list" where
  "extractCall E callerId c =
     (case (getChildByField c ''name'', given_or (getChildByField c ''object'') (getChildByField c ''scope''),
            type_of c \<in> set receiver_types) of
        (Some nameField, Some objectField, True) \<Rightarrow>
          (case invocation_name E nameField objectField of
             Inl name \<Rightarrow> call_ref callerId name c
           | Inr name \<Rightarrow> call_ref callerId (converted name) c)
      | _ \<Rightarrow>
          if type_of c = ''message_expression''
          then (case message_call E callerId c of (rs, name) \<Rightarrow> rs @ call_ref callerId (converted name) c)
          else (case given_or (getChildByField c ''function'') (namedChild c 0) of
                  Some func \<Rightarrow> call_ref callerId (converted (function_call E func)) c
                | None \<Rightarrow> []))"

section \<open>Instantiations and anonymous classes\<close>

definition INSTANTIATION_KINDS :: "string list" where
  "INSTANTIATION_KINDS =
     [''new_expression'', ''object_creation_expression'', ''instance_creation_expression'', ''composite_literal'',
      ''struct_expression'', ''instance_expression'']"

definition constructor_node :: "cursor \<Rightarrow> cursor option" where
  "constructor_node c =
     given_or (getChildByField c ''constructor'')
       (given_or (getChildByField c ''type'') (given_or (getChildByField c ''name'') (namedChild c 0)))"

definition cut_trimmed :: "string \<Rightarrow> string \<Rightarrow> string" where
  "cut_trimmed mark s = (case index_of s mark of Some i \<Rightarrow> if 0 < i then trim (take i s) else s | None \<Rightarrow> s)"

definition instantiated :: "x_env \<Rightarrow> cursor \<Rightarrow> cursor \<Rightarrow> string" where
  "instantiated E c ctor =
     (if type_of c = ''composite_literal''
      then (if type_of ctor = ''type_identifier'' \<or> type_of ctor = ''qualified_type''
            then cut_trimmed ''['' (trim (text_at E ctor)) else [])
      else if type_of c = ''instance_expression''
      then (case scalaBaseTypeName E ctor of Some name \<Rightarrow> name | None \<Rightarrow> [])
      else simple_name (text_at E ctor))"

definition extractInstantiation :: "x_env \<Rightarrow> string \<Rightarrow> cursor \<Rightarrow> unresolved_reference list" where
  "extractInstantiation E fromId c =
     maybe (\<lambda>ctor. let name = instantiated E c ctor in
         if name = [] then [] else [ref_at fromId name EK_instantiates c]) (constructor_node c)"

definition findAnonymousClassBody :: "cursor \<Rightarrow> cursor option" where
  "findAnonymousClassBody c = child_of_type [''class_body'', ''declaration_list''] c"

definition anonymous_type :: "x_env \<Rightarrow> cursor \<Rightarrow> string" where
  "anonymous_type E c =
     nonempty_or (simple_name (case constructor_node c of Some t \<Rightarrow> text_at E t | None \<Rightarrow> ''Object'')) ''Object''"

definition anonymous_class_name :: "x_env \<Rightarrow> cursor \<Rightarrow> string" where
  "anonymous_class_name E c = ''<'' @ anonymous_type E c @ ''$anon@'' @ show_nat (line_of c) @ ''>''"

text \<open>The reference to the type; its line is the row of the binding, which counts from zero.\<close>

definition anonymous_extends :: "x_env \<Rightarrow> string \<Rightarrow> cursor \<Rightarrow> unresolved_reference" where
  "anonymous_extends E classId c =
     (let p = (case constructor_node c of Some t \<Rightarrow> t | None \<Rightarrow> c)
      in ref_from classId (anonymous_type E c) EK_extends (sn_startRow (here p)) (column_of p))"

section \<open>Static members\<close>

definition MEMBER_ACCESS_TYPES :: "string list" where
  "MEMBER_ACCESS_TYPES =
     [''field_access'', ''member_access_expression'', ''navigation_expression'', ''field_expression'',
      ''class_constant_access_expression'', ''scoped_property_access_expression'', ''qualified_identifier'']"

definition STATIC_MEMBER_LANGS :: "language list" where
  "STATIC_MEMBER_LANGS = [L_java, L_csharp, L_kotlin, L_swift, L_scala, L_dart, L_php, L_cpp]"

definition pushStaticMemberRef :: "string \<Rightarrow> string \<Rightarrow> cursor \<Rightarrow> unresolved_reference" where
  "pushStaticMemberRef name ownerId c = ref_at ownerId name EK_references c"

definition is_callee :: "x_env \<Rightarrow> cursor \<Rightarrow> bool" where
  "is_callee E c =
     (case parent_node c of
        None \<Rightarrow> False
      | Some p \<Rightarrow>
          type_of p \<in> set (le_callTypes (x_extractor E)) \<and>
          (case given_or (getChildByField p ''function'') (given_or (getChildByField p ''method'') (namedChild p 0)) of
             None \<Rightarrow> False
           | Some callee \<Rightarrow> sn_startIndex (here callee) = sn_startIndex (here c)))"

definition static_receiver :: "x_env \<Rightarrow> cursor \<Rightarrow> cursor option" where
  "static_receiver E c =
     (if x_language E = L_dart
      then (if type_of c \<noteq> ''selector'' \<or> child_of_type [''argument_part''] c \<noteq> None then None
            else (case previousNamedSibling c of
                    Some p \<Rightarrow> if type_of p = ''identifier'' then Some p else None | None \<Rightarrow> None))
      else if type_of c \<notin> set MEMBER_ACCESS_TYPES \<or> is_callee E c then None
      else (case given_or (getChildByField c ''object'') (given_or (getChildByField c ''expression'')
                  (given_or (getChildByField c ''scope'') (namedChild c 0))) of
              None \<Rightarrow> None
            | Some recv \<Rightarrow> if type_of recv \<in> {''identifier'', ''type_identifier'', ''simple_identifier'', ''name'', ''scoped_type_identifier''}
                           then Some recv else None))"

definition extractStaticMemberRef :: "x_env \<Rightarrow> string \<Rightarrow> cursor \<Rightarrow> unresolved_reference list" where
  "extractStaticMemberRef E ownerId c =
     (if x_language E \<notin> set STATIC_MEMBER_LANGS then []
      else maybe (\<lambda>r. if type_like (text_at E r) then [pushStaticMemberRef (text_at E r) ownerId r] else []) (static_receiver E c))"

text \<open>The walk through the arguments of a Swift attribute.\<close>

function walkAttrArgs :: "x_env \<Rightarrow> string \<Rightarrow> cursor \<Rightarrow> unresolved_reference list" where
  "walkAttrArgs E ownerId c =
     extractStaticMemberRef E ownerId c @ concat (map (walkAttrArgs E ownerId) (namedChildren c))"
  by pat_completeness auto
termination
  by (relation "measure (\<lambda>(E, i, c). size (here c))") auto

declare walkAttrArgs.simps [simp del]

section \<open>Route macros\<close>

text \<open>The paths in a token tree: the parts collected and the place of the first one.\<close>

definition flush_path :: "string \<Rightarrow> string list \<times> nat \<times> nat \<Rightarrow> unresolved_reference list" where
  "flush_path fromId p =
     (case p of (parts, line, column) \<Rightarrow>
        if parts = [] then [] else [ref_from fromId (join_with ''::'' parts) EK_references line column])"

fun token_paths :: "x_env \<Rightarrow> string \<Rightarrow> cursor list \<Rightarrow> string list \<times> nat \<times> nat \<Rightarrow> unresolved_reference list" where
  "token_paths E fromId [] p = flush_path fromId p"
| "token_paths E fromId (t # ts) (parts, line, column) =
     (if type_of t = ''identifier''
      then token_paths E fromId ts
             (if parts = [] then ([text_at E t], line_of t, column_of t) else (parts @ [text_at E t], line, column))
      else if type_of t = '','' then flush_path fromId (parts, line, column) @ token_paths E fromId ts ([], line, column)
      else token_paths E fromId ts (parts, line, column))"

definition extractRustRouteMacro :: "x_env \<Rightarrow> string \<Rightarrow> cursor \<Rightarrow> unresolved_reference list" where
  "extractRustRouteMacro E fromId c =
     (if x_language E \<noteq> L_rust then []
      else maybe (\<lambda>macroName.
             if text_at E macroName = ''routes'' \<or> text_at E macroName = ''catchers''
             then maybe (\<lambda>tokenTree. token_paths E fromId (all_children tokenTree) ([], 0, 0)) (child_of_type [''token_tree''] c)
             else []) (namedChild c 0))"

end
