(* ===== verification/ExtractImports.thy ===== *)
theory ExtractImports
  imports ExtractCalls
begin

text \<open>
  Imports (\<open>extraction/tree-sitter.ts\<close>): the node of an import statement and the references to what it binds,
  language by language.
\<close>

section \<open>References to bindings\<close>

definition import_ref :: "string \<Rightarrow> string \<Rightarrow> cursor \<Rightarrow> unresolved_reference list" where
  "import_ref fromId name c = (if name = [] then [] else [ref_at fromId name EK_imports c])"

definition binding_nodes :: "cursor \<Rightarrow> cursor option list" where
  "binding_nodes c =
     (if type_of c = ''identifier'' then [Some c]
      else if type_of c = ''named_imports''
      then map (\<lambda>spec. given_or (getChildByField spec ''alias'') (given_or (getChildByField spec ''name'') (namedChild spec 0)))
             (filter (\<lambda>spec. type_of spec = ''import_specifier'') (namedChildren c))
      else if type_of c = ''namespace_import'' then [given_or (child_of_type [''identifier''] c) (namedChild c 0)]
      else [])"

definition emitImportBindingRefs :: "x_env \<Rightarrow> string \<Rightarrow> cursor \<Rightarrow> unresolved_reference list" where
  "emitImportBindingRefs E fromId c =
     maybe (\<lambda>clause. concat (map (maybe (\<lambda>n. import_ref fromId (text_at E n) n))
               (concat (map binding_nodes (namedChildren clause)))))
       (child_of_type [''import_clause''] c)"

definition emitReExportRefs :: "x_env \<Rightarrow> string \<Rightarrow> cursor \<Rightarrow> unresolved_reference list" where
  "emitReExportRefs E fromId c =
     maybe (\<lambda>clause. concat (map (\<lambda>spec.
               maybe (\<lambda>n. if text_at E n = ''default'' then [] else import_ref fromId (text_at E n) n)
                 (given_or (getChildByField spec ''name'') (namedChild spec 0)))
             (filter (\<lambda>spec. type_of spec = ''export_specifier'') (namedChildren clause))))
       (child_of_type [''export_clause''] c)"

text \<open>The paths of a Rust \<open>use\<close> tree, each with its node.\<close>

definition join_path :: "string \<Rightarrow> string \<Rightarrow> string" where
  "join_path pre seg = (if pre = [] then seg else pre @ ''::'' @ seg)"

function use_paths :: "x_env \<Rightarrow> string \<Rightarrow> cursor \<Rightarrow> (string \<times> cursor) list" where
  "use_paths E pre c =
     (let t = type_of c in
      if t = ''identifier'' then [(join_path pre (text_at E c), c)]
      else if t = ''scoped_identifier'' then [(join_path pre (trim (text_at E c)), c)]
      else if t = ''scoped_use_list''
      then (let seg = (case getChildByField c ''path'' of Some p \<Rightarrow> trim (text_at E p) | None \<Rightarrow> []) in
            case given_or (getChildByField c ''list'') (child_of_type [''use_list''] c) of
              None \<Rightarrow> []
            | Some l \<Rightarrow> use_paths E (if seg = [] then pre else join_path pre seg) l)
      else if t = ''use_list'' then concat (map (use_paths E pre) (namedChildren c))
      else if t = ''use_as_clause''
      then (case given_or (getChildByField c ''path'') (namedChild c 0) of None \<Rightarrow> [] | Some p \<Rightarrow> use_paths E pre p)
      else [])"
  by pat_completeness auto
termination
  by (relation "measure (\<lambda>(E, pre, c). size (here c))")
    (auto simp: given_or_def dest: typed_child_in split: option.splits)

declare use_paths.simps [simp del]

definition emitRustUseBindingRefs :: "x_env \<Rightarrow> string \<Rightarrow> cursor \<Rightarrow> unresolved_reference list" where
  "emitRustUseBindingRefs E fromId c =
     List.map_filter (\<lambda>(path, n).
         if last (split_str ''::'' path) \<in> {[], ''self'', ''super'', ''crate'', ''*''} then None
         else Some (ref_at fromId path EK_imports n))
       (concat (map (use_paths E []) (namedChildren c)))"

definition pushPhpUseRef :: "string \<Rightarrow> string \<Rightarrow> cursor \<Rightarrow> unresolved_reference list" where
  "pushPhpUseRef fqn fromId c =
     (let clean = (case fqn of x # t \<Rightarrow> if x = CHR 0x5C then t else fqn | [] \<Rightarrow> []) in
      case last_index_of clean [CHR 0x5C] of
        None \<Rightarrow> []
      | Some i \<Rightarrow> [ref_at fromId (take i clean @ ''::'' @ drop (i + 1) clean) EK_imports c])"

definition emitPhpUseRefs :: "x_env \<Rightarrow> string \<Rightarrow> cursor \<Rightarrow> unresolved_reference list" where
  "emitPhpUseRefs E fromId c =
     maybe (\<lambda>clause. maybe (\<lambda>qn. pushPhpUseRef (text_at E qn) fromId c)
              (given_or (child_of_type [''qualified_name''] clause) (child_of_type [''name''] clause)))
       (child_of_type [''namespace_use_clause''] c)"

text \<open>\<open>require\<close> and \<open>require_relative\<close> of Ruby.\<close>

definition required_path :: "x_env \<Rightarrow> string \<Rightarrow> string \<Rightarrow> string" where
  "required_path E mname req =
     (if mname = ''require_relative''
      then (let dir = (case last_index_of (x_filePath E) ''/'' of Some i \<Rightarrow> take i (x_filePath E) | None \<Rightarrow> [])
            in path_normalize (if dir = [] then req else dir @ ''/'' @ req))
      else req)"

definition emitRubyRequireRefs :: "x_env \<Rightarrow> string \<Rightarrow> cursor \<Rightarrow> unresolved_reference list" where
  "emitRubyRequireRefs E fromId c =
     (let mname = (case child_of_type [''identifier''] c of Some m \<Rightarrow> text_at E m | None \<Rightarrow> []) in
      if mname \<notin> {''require'', ''require_relative''} then []
      else maybe (\<lambda>argList. maybe (\<lambda>str. maybe (\<lambda>content.
             let req = trim (text_at E content); p = required_path E mname req in
             if req = [] \<or> CHR ''/'' \<notin> set p then []
             else [ref_at fromId (if ends_with p ''.rb'' then p else p @ ''.rb'') EK_imports c])
           (child_of_type [''string_content''] str)) (child_of_type [''string''] argList)) (child_of_type [''argument_list''] c))"

text \<open>The names of \<open>from module import \<dots>\<close> of Python.\<close>

definition imported_name :: "cursor \<Rightarrow> cursor option" where
  "imported_name c =
     (if type_of c = ''aliased_import''
      then given_or (getChildByField c ''alias'') (given_or (getChildByField c ''name'') (namedChild c 0))
      else if type_of c = ''dotted_name'' then Some c else None)"

definition emitPyFromImportRefs :: "x_env \<Rightarrow> string \<Rightarrow> cursor \<Rightarrow> unresolved_reference list" where
  "emitPyFromImportRefs E fromId c =
     (let is_module = (\<lambda>k. case getChildByField c ''module_name'' of
            None \<Rightarrow> False
          | Some m \<Rightarrow> sn_startIndex (here k) = sn_startIndex (here m) \<and> sn_endIndex (here k) = sn_endIndex (here m)) in
      concat (map (\<lambda>k. maybe (\<lambda>n. import_ref fromId (last (split_str ''.'' (text_at E n))) n) (imported_name k))
        (filter (\<lambda>k. \<not> is_module k \<and> type_of k \<noteq> ''wildcard_import'') (namedChildren c))))"

section \<open>Import statements\<close>

definition signed :: "string \<Rightarrow> node_extra" where
  "signed s = no_extra\<lparr>ne_signature := Some s\<rparr>"

definition from_top :: "(string \<Rightarrow> unresolved_reference list) \<Rightarrow> ext_state \<Rightarrow> ext_state" where
  "from_top f st = (case top_scope st of None \<Rightarrow> st | Some p \<Rightarrow> add_refs (f p) st)"

definition binding_refs :: "x_env \<Rightarrow> cursor \<Rightarrow> string \<Rightarrow> unresolved_reference list" where
  "binding_refs E c parentId =
     (let l = x_language E; t = type_of c in
      if l \<in> {L_typescript, L_tsx, L_javascript, L_jsx} then emitImportBindingRefs E parentId c
      else if l = L_python \<and> t = ''import_from_statement'' then emitPyFromImportRefs E parentId c
      else if l = L_rust \<and> t = ''use_declaration'' then emitRustUseBindingRefs E parentId c
      else if l = L_php \<and> t = ''namespace_use_declaration'' then emitPhpUseRefs E parentId c
      else if l = L_ruby \<and> t = ''call'' then emitRubyRequireRefs E parentId c
      else [])"

definition import_hook_result :: "x_env \<Rightarrow> cursor \<Rightarrow> import_info \<Rightarrow> ext_state \<Rightarrow> ext_state" where
  "import_hook_result E c info st =
     from_top (\<lambda>p. (if ii_handledRefs info then [] else import_ref p (ii_moduleName info) c) @ binding_refs E c p)
       (create E NK_import (ii_moduleName info) c (signed (ii_signature info)) st)"

text \<open>One import of a Python \<open>import\<close> statement, one specification of Go, one item of a PHP group.\<close>

definition python_import :: "x_env \<Rightarrow> cursor \<Rightarrow> cursor \<Rightarrow> ext_state \<Rightarrow> ext_state" where
  "python_import E c child st =
     (case (if type_of child = ''dotted_name'' then Some child
            else if type_of child = ''aliased_import'' then child_of_type [''dotted_name''] child else None) of
        None \<Rightarrow> st
      | Some dotted \<Rightarrow>
          from_top (\<lambda>p. [ref_at p (text_at E dotted) EK_imports dotted])
            (create E NK_import (text_at E dotted) c (signed (trim (text_at E c))) st))"

definition go_importing :: "x_env \<Rightarrow> cursor \<Rightarrow> ext_state \<Rightarrow> ext_state" where
  "go_importing E spec st =
     (case child_of_type [''interpreted_string_literal''] spec of
        None \<Rightarrow> st
      | Some lit \<Rightarrow>
          (let importPath = filter (\<lambda>x. x \<noteq> CHR 0x27 \<and> x \<noteq> CHR 0x22) (text_at E lit) in
           if importPath = [] then st
           else from_top (\<lambda>p. [ref_at p importPath EK_imports spec])
                  (create E NK_import importPath spec (signed (trim (text_at E spec))) st)))"

definition go_import_specs :: "cursor \<Rightarrow> cursor list" where
  "go_import_specs c =
     (case child_of_type [''import_spec_list''] c of
        Some l \<Rightarrow> filter (\<lambda>k. type_of k = ''import_spec'') (namedChildren l)
      | None \<Rightarrow> (case child_of_type [''import_spec''] c of Some spec \<Rightarrow> [spec] | None \<Rightarrow> []))"

definition php_import :: "x_env \<Rightarrow> cursor \<Rightarrow> string \<Rightarrow> cursor \<Rightarrow> ext_state \<Rightarrow> ext_state" where
  "php_import E c pre clause st =
     (case (case child_of_type [''namespace_name''] clause of
              Some ns \<Rightarrow> child_of_type [''name''] ns | None \<Rightarrow> child_of_type [''name''] clause) of
        None \<Rightarrow> st
      | Some n \<Rightarrow>
          (let fullPath = pre @ [CHR 0x5C] @ text_at E n in
           from_top (\<lambda>p. pushPhpUseRef fullPath p c)
             (create E NK_import fullPath c (signed (trim (text_at E c))) st)))"

definition unhandled_import :: "x_env \<Rightarrow> cursor \<Rightarrow> ext_state \<Rightarrow> ext_state" where
  "unhandled_import E c st =
     (if le_extractImport (x_extractor E) \<noteq> None then st
      else create E NK_import (trim (text_at E c)) c (signed (trim (text_at E c))) st)"

definition extractImport :: "x_env \<Rightarrow> cursor \<Rightarrow> ext_state \<Rightarrow> ext_state" where
  "extractImport E c st =
     (case (case le_extractImport (x_extractor E) of None \<Rightarrow> None | Some hook \<Rightarrow> hook c (x_source E)) of
        Some info \<Rightarrow> import_hook_result E c info st
      | None \<Rightarrow>
          if x_language E = L_python \<and> type_of c = ''import_statement''
          then fold (python_import E c) (namedChildren c) st
          else if x_language E = L_go then fold (go_importing E) (go_import_specs c) st
          else (case (x_language E = L_php, child_of_type [''namespace_name''] c, child_of_type [''namespace_use_group''] c) of
                  (True, Some pre, Some useGroup) \<Rightarrow>
                    fold (php_import E c (text_at E pre))
                      (filter (\<lambda>k. type_of k \<in> {''namespace_use_group_clause'', ''namespace_use_clause''}) (namedChildren useGroup)) st
                | _ \<Rightarrow> unhandled_import E c st))"

end
