(* ===== verification/ExtractDecls.thy ===== *)
theory ExtractDecls
  imports ExtractImports
begin

text \<open>
  The declarations of a file (\<open>extraction/tree-sitter.ts\<close>): each operation creates nodes, emits their
  references and walks the body within the scope of the node. Bodies are walked by the two visitors, which are
  arguments here: \<open>vn\<close> for \<open>visitNode\<close> and \<open>vb\<close> for \<open>visitFunctionBody\<close>. The theory of the visitors closes
  the recursion.
\<close>

type_synonym visitor = "cursor \<Rightarrow> ext_state \<Rightarrow> ext_state"

definition visit_all :: "visitor \<Rightarrow> cursor \<Rightarrow> ext_state \<Rightarrow> ext_state" where
  "visit_all vn c st = fold vn (namedChildren c) st"

definition visit_body :: "x_env \<Rightarrow> visitor \<Rightarrow> cursor \<Rightarrow> ext_state \<Rightarrow> ext_state" where
  "visit_body E vb c st = (case body_of E c of None \<Rightarrow> st | Some b \<Rightarrow> vb b st)"

section \<open>Functions and methods\<close>

definition declared_extra :: "x_env \<Rightarrow> cursor \<Rightarrow> node_extra" where
  "declared_extra E c =
     no_extra\<lparr>ne_docstring := getPrecedingDocstring c (x_source E),
       ne_isExported := le_isExported (x_extractor E) c (x_source E)\<rparr>"

definition method_extra :: "x_env \<Rightarrow> cursor \<Rightarrow> node_extra" where
  "method_extra E c =
     no_extra\<lparr>ne_docstring := getPrecedingDocstring c (x_source E),
       ne_signature := le_getSignature (x_extractor E) c (x_source E),
       ne_visibility := le_getVisibility (x_extractor E) c,
       ne_isAsync := le_isAsync (x_extractor E) c,
       ne_isStatic := le_isStatic (x_extractor E) c,
       ne_returnType := le_getReturnType (x_extractor E) c (x_source E)\<rparr>"

definition function_extra :: "x_env \<Rightarrow> cursor \<Rightarrow> node_extra" where
  "function_extra E c = (method_extra E c)\<lparr>ne_isExported := le_isExported (x_extractor E) c (x_source E)\<rparr>"

text \<open>The types and decorators of a callable, then its body in its scope.\<close>

definition callable_body :: "x_env \<Rightarrow> visitor \<Rightarrow> cursor \<Rightarrow> string \<Rightarrow> ext_state \<Rightarrow> ext_state" where
  "callable_body E vb c i st =
     in_scope i (visit_body E vb c)
       (add_refs (extractTypeAnnotations E i c @ extractDecoratorsFor E i c) st)"

definition receiver_type :: "x_env \<Rightarrow> cursor \<Rightarrow> string option" where
  "receiver_type E c = truthy (le_getReceiverType (x_extractor E) c (x_source E))"

text \<open>The edge from the type that owns a method with a receiver, outside the body of a type.\<close>

definition add_edges :: "edge list \<Rightarrow> ext_state \<Rightarrow> ext_state" where
  "add_edges es st = st\<lparr>xs_edges := xs_edges st @ es\<rparr>"

definition owner_edge :: "x_env \<Rightarrow> string option \<Rightarrow> string \<Rightarrow> ext_state \<Rightarrow> edge list" where
  "owner_edge E receiver methodId st =
     (case receiver of
        None \<Rightarrow> []
      | Some r \<Rightarrow>
          if isInsideClassLikeNode st then []
          else (case find (\<lambda>n. n_name n = r \<and> n_filePath n = x_filePath E \<and>
                            n_kind n \<in> {NK_struct, NK_class, NK_enum, NK_trait}) (xs_nodes st) of
                  None \<Rightarrow> []
                | Some owner \<Rightarrow> [contains_edge (n_id owner) methodId]))"

definition method_core :: "x_env \<Rightarrow> visitor \<Rightarrow> cursor \<Rightarrow> ext_state \<Rightarrow> ext_state" where
  "method_core E vb c st =
     (let name = extractName c (x_source E) (x_extractor E) in
      if le_isMisparsedFunction (x_extractor E) name c then visit_body E vb c st
      else with_node E NK_method name c
             (case receiver_type E c of
                None \<Rightarrow> method_extra E c
              | Some r \<Rightarrow> (method_extra E c)\<lparr>ne_qualifiedName := Some (r @ ''::'' @ name)\<rparr>)
             (\<lambda>i st. callable_body E vb c i (add_edges (owner_edge E (receiver_type E c) i st) st)) st)"

definition function_name :: "x_env \<Rightarrow> string option \<Rightarrow> cursor \<Rightarrow> string" where
  "function_name E nameOverride c =
     (case nameOverride of
        Some n \<Rightarrow> n
      | None \<Rightarrow>
          (let name = extractName c (x_source E) (x_extractor E) in
           if name = anonymous \<and> type_of c \<in> {''arrow_function'', ''function_expression''}
           then (case parent_node c of
                   None \<Rightarrow> name
                 | Some p \<Rightarrow>
                     if type_of p = ''variable_declarator''
                     then (case getChildByField p ''name'' of Some n \<Rightarrow> text_at E n | None \<Rightarrow> name)
                     else name)
           else name))"

definition function_core :: "x_env \<Rightarrow> visitor \<Rightarrow> string option \<Rightarrow> cursor \<Rightarrow> ext_state \<Rightarrow> ext_state" where
  "function_core E vb nameOverride c st =
     (let name = function_name E nameOverride c in
      if name = anonymous \<or> le_isMisparsedFunction (x_extractor E) name c then visit_body E vb c st
      else with_node E NK_function name c (function_extra E c) (callable_body E vb c) st)"

text \<open>
  Each of the two hands over to the other: a function with a receiver is a method, a method outside a type is
  a function.
\<close>

definition extractFunction :: "x_env \<Rightarrow> visitor \<Rightarrow> string option \<Rightarrow> cursor \<Rightarrow> ext_state \<Rightarrow> ext_state" where
  "extractFunction E vb nameOverride c st =
     (if receiver_type E c \<noteq> None then method_core E vb c st else function_core E vb nameOverride c st)"

definition extractMethod :: "x_env \<Rightarrow> visitor \<Rightarrow> cursor \<Rightarrow> ext_state \<Rightarrow> ext_state" where
  "extractMethod E vb c st =
     (if \<not> isInsideClassLikeNode st \<and> \<not> le_methodsAreTopLevel (x_extractor E) \<and> receiver_type E c = None
      then (case parent_node c of
              Some p \<Rightarrow> if type_of p \<in> {''object'', ''object_expression''} then visit_body E vb c st
                        else extractFunction E vb None c st
            | None \<Rightarrow> extractFunction E vb None c st)
      else method_core E vb c st)"

section \<open>Types\<close>

definition type_extra :: "x_env \<Rightarrow> cursor \<Rightarrow> node_extra" where
  "type_extra E c = (declared_extra E c)\<lparr>ne_visibility := le_getVisibility (x_extractor E) c\<rparr>"

definition body_or_self :: "x_env \<Rightarrow> cursor \<Rightarrow> cursor" where
  "body_or_self E c = (case body_of E c of Some b \<Rightarrow> b | None \<Rightarrow> c)"

definition extractClass :: "x_env \<Rightarrow> visitor \<Rightarrow> node_kind \<Rightarrow> cursor \<Rightarrow> ext_state \<Rightarrow> ext_state" where
  "extractClass E vn kind c st =
     with_node E kind (extractName c (x_source E) (x_extractor E)) c (type_extra E c)
       (\<lambda>i st. in_scope i (visit_all vn (body_or_self E c))
          (add_refs (extractInheritance E i c @ extractCsharpPrimaryCtorParamRefs E i c @ extractDecoratorsFor E i c) st)) st"

definition interface_kind :: "x_env \<Rightarrow> node_kind" where
  "interface_kind E = (case le_interfaceKind (x_extractor E) of Some k \<Rightarrow> k | None \<Rightarrow> NK_interface)"

definition extractInterface :: "x_env \<Rightarrow> visitor \<Rightarrow> cursor \<Rightarrow> ext_state \<Rightarrow> ext_state" where
  "extractInterface E vn c st =
     with_node E (interface_kind E) (extractName c (x_source E) (x_extractor E)) c (declared_extra E c)
       (\<lambda>i st. in_scope i (visit_all vn (body_or_self E c)) (add_refs (extractInheritance E i c) st)) st"

definition extractStruct :: "x_env \<Rightarrow> visitor \<Rightarrow> cursor \<Rightarrow> ext_state \<Rightarrow> ext_state" where
  "extractStruct E vn c st =
     (case getChildByField c (le_bodyField (x_extractor E)) of
        None \<Rightarrow> st
      | Some body \<Rightarrow>
          with_node E NK_struct (extractName c (x_source E) (x_extractor E)) c (type_extra E c)
            (\<lambda>i st. in_scope i (visit_all vn body)
               (add_refs (extractInheritance E i c @ extractCsharpPrimaryCtorParamRefs E i c) st)) st)"

definition extractEnumMembers :: "x_env \<Rightarrow> cursor \<Rightarrow> ext_state \<Rightarrow> ext_state" where
  "extractEnumMembers E c st =
     (case getChildByField c ''name'' of
        Some nameNode \<Rightarrow> create E NK_enum_member (text_at E nameNode) c no_extra st
      | None \<Rightarrow>
          (let members = filter (\<lambda>k. type_of k \<in> {''simple_identifier'', ''identifier'', ''property_identifier''}) (namedChildren c) in
           if members = [] \<and> namedChildren c = [] then create E NK_enum_member (text_at E c) c no_extra st
           else fold (\<lambda>k. create E NK_enum_member (text_at E k) k no_extra) members st))"

definition visit_members :: "x_env \<Rightarrow> visitor \<Rightarrow> cursor \<Rightarrow> ext_state \<Rightarrow> ext_state" where
  "visit_members E vn body st =
     fold (\<lambda>k. if type_of k \<in> set (le_enumMemberTypes (x_extractor E)) then extractEnumMembers E k else vn k)
       (namedChildren body) st"

definition extractEnum :: "x_env \<Rightarrow> visitor \<Rightarrow> cursor \<Rightarrow> ext_state \<Rightarrow> ext_state" where
  "extractEnum E vn c st =
     (case body_of E c of
        None \<Rightarrow> st
      | Some body \<Rightarrow>
          with_node E NK_enum (extractName c (x_source E) (x_extractor E)) c (type_extra E c)
            (\<lambda>i st. in_scope i (visit_members E vn body) (add_refs (extractInheritance E i c) st)) st)"

definition extractAnonymousClass :: "x_env \<Rightarrow> visitor \<Rightarrow> cursor \<Rightarrow> cursor \<Rightarrow> ext_state \<Rightarrow> ext_state" where
  "extractAnonymousClass E vn c body st =
     with_node E NK_class (anonymous_class_name E c) c no_extra
       (\<lambda>i st. in_scope i (visit_all vn body) (add_refs [anonymous_extends E i c] st)) st"

text \<open>The class-like node that a class declaration stands for.\<close>

definition extractClassified :: "x_env \<Rightarrow> visitor \<Rightarrow> cursor \<Rightarrow> ext_state \<Rightarrow> ext_state" where
  "extractClassified E vn c st =
     (case le_classifyClassNode (x_extractor E) c of
        Ck_struct \<Rightarrow> extractStruct E vn c st
      | Ck_enum \<Rightarrow> extractEnum E vn c st
      | Ck_interface \<Rightarrow> extractInterface E vn c st
      | Ck_trait \<Rightarrow> extractClass E vn NK_trait c st
      | Ck_class \<Rightarrow> extractClass E vn NK_class c st)"

section \<open>Properties and fields\<close>

definition or_false :: "bool option \<Rightarrow> bool option" where
  "or_false b = (case b of None \<Rightarrow> Some False | Some x \<Rightarrow> Some x)"

definition member_extra :: "x_env \<Rightarrow> cursor \<Rightarrow> node_extra" where
  "member_extra E c =
     no_extra\<lparr>ne_docstring := getPrecedingDocstring c (x_source E), ne_visibility := le_getVisibility (x_extractor E) c,
       ne_isStatic := or_false (le_isStatic (x_extractor E) c)\<rparr>"

definition child_not_of :: "string list \<Rightarrow> cursor \<Rightarrow> cursor option" where
  "child_not_of types c = find (\<lambda>k. type_of k \<notin> set types) (namedChildren c)"

text \<open>A declaration \<open>type name\<close>; the type is left out when there is none.\<close>

definition typed_signature :: "x_env \<Rightarrow> cursor option \<Rightarrow> string \<Rightarrow> string" where
  "typed_signature E typeNode name =
     (case typeNode of None \<Rightarrow> name | Some t \<Rightarrow> if text_at E t = [] then name else text_at E t @ '' '' @ name)"

definition identifier_of :: "cursor \<Rightarrow> cursor option" where
  "identifier_of c = given_or (getChildByField c ''name'') (child_of_type [''identifier''] c)"

definition property_name :: "x_env \<Rightarrow> cursor \<Rightarrow> string" where
  "property_name E c =
     (case le_extractPropertyName (x_extractor E) c (x_source E) of
        Some h \<Rightarrow> h
      | None \<Rightarrow> (case identifier_of c of Some n \<Rightarrow> text_at E n | None \<Rightarrow> []))"

definition extractProperty :: "x_env \<Rightarrow> cursor \<Rightarrow> ext_state \<Rightarrow> ext_state" where
  "extractProperty E c st =
     (let name = property_name E c;
          typeNode = child_not_of [''modifier'', ''modifiers'', ''identifier'', ''accessor_list'', ''accessors'',
                       ''equals_value_clause''] c
      in with_node E NK_property name c ((member_extra E c)\<lparr>ne_signature := Some (typed_signature E typeNode name)\<rparr>)
           (\<lambda>i. add_refs (extractDecoratorsFor E i c @ extractTypeAnnotations E i c)) st)"

definition declarators_in :: "cursor \<Rightarrow> cursor list" where
  "declarators_in c = filter (\<lambda>k. type_of k = ''variable_declarator'') (namedChildren c)"

definition declarators_of :: "cursor \<Rightarrow> cursor list" where
  "declarators_of c =
     (if declarators_in c = []
      then (case child_of_type [''variable_declaration''] c of Some d \<Rightarrow> declarators_in d | None \<Rightarrow> [])
      else declarators_in c)"

text \<open>The three shapes of a field: an element of PHP, a declarator, and a node that is its own declaration.\<close>

definition php_field :: "x_env \<Rightarrow> cursor \<Rightarrow> cursor \<Rightarrow> ext_state \<Rightarrow> ext_state" where
  "php_field E c elem st =
     (case (case child_of_type [''variable_name''] elem of Some v \<Rightarrow> child_of_type [''name''] v | None \<Rightarrow> None) of
        None \<Rightarrow> st
      | Some nameNode \<Rightarrow>
          (let typeNode = child_not_of [''visibility_modifier'', ''static_modifier'', ''readonly_modifier'',
                            ''property_element'', ''var_modifier''] c
           in create E NK_field (text_at E nameNode) elem
                ((member_extra E c)\<lparr>ne_signature := Some (typed_signature E typeNode (''$'' @ text_at E nameNode))\<rparr>) st))"

definition declared_field :: "x_env \<Rightarrow> cursor \<Rightarrow> cursor \<Rightarrow> ext_state \<Rightarrow> ext_state" where
  "declared_field E c decl st =
     (case identifier_of decl of
        None \<Rightarrow> st
      | Some nameNode \<Rightarrow>
          (let typeNode = child_not_of [''modifiers'', ''modifier'', ''variable_declarator'', ''variable_declaration'',
                            ''marker_annotation'', ''annotation'']
                            (case child_of_type [''variable_declaration''] c of Some d \<Rightarrow> d | None \<Rightarrow> c)
           in with_node E NK_field (text_at E nameNode) decl
                ((member_extra E c)\<lparr>ne_signature := Some (typed_signature E typeNode (text_at E nameNode))\<rparr>)
                (\<lambda>i. add_refs (extractDecoratorsFor E i c @ extractTypeAnnotations E i c)) st))"

definition plain_field :: "x_env \<Rightarrow> cursor \<Rightarrow> ext_state \<Rightarrow> ext_state" where
  "plain_field E c st =
     (case identifier_of c of
        None \<Rightarrow> st
      | Some nameNode \<Rightarrow> create E NK_field (text_at E nameNode) c (member_extra E c) st)"

definition extractField :: "x_env \<Rightarrow> cursor \<Rightarrow> ext_state \<Rightarrow> ext_state" where
  "extractField E c st =
     (let declarators = declarators_of c;
          elements = filter (\<lambda>k. type_of k = ''property_element'') (namedChildren c)
      in if declarators = [] \<and> elements \<noteq> [] then fold (php_field E c) elements st
         else if declarators \<noteq> [] then fold (declared_field E c) declarators st
         else plain_field E c st)"

end
