(* ===== verification/ExtractVariables.thy ===== *)
theory ExtractVariables
  imports ExtractDecls
begin

text \<open>
  Variables, objects of functions and type aliases (\<open>extraction/tree-sitter.ts\<close>), on the conventions of the
  theory of declarations.
\<close>

section \<open>Objects of functions\<close>

definition function_values :: "string list" where
  "function_values = [''arrow_function'', ''function_expression'']"

definition object_types :: "string list" where
  "object_types = [''object'', ''object_expression'']"

definition is_quote :: "char \<Rightarrow> bool" where
  "is_quote x \<longleftrightarrow> x = CHR 0x27 \<or> x = CHR 0x22 \<or> x = CHR 0x60"

definition strip_quotes :: "string \<Rightarrow> string" where
  "strip_quotes s =
     (let t = (case s of x # r \<Rightarrow> if is_quote x then r else s | [] \<Rightarrow> [])
      in if t \<noteq> [] \<and> is_quote (last t) then butlast t else t)"

definition objectKeyName :: "x_env \<Rightarrow> cursor \<Rightarrow> string" where
  "objectKeyName E key = strip_quotes (text_at E key)"

definition object_function :: "x_env \<Rightarrow> visitor \<Rightarrow> cursor \<Rightarrow> ext_state \<Rightarrow> ext_state" where
  "object_function E vb member st =
     (if type_of member = ''pair''
      then (case (getChildByField member ''key'', getChildByField member ''value'') of
              (Some key, Some val) \<Rightarrow>
                if type_of val \<in> set function_values then extractFunction E vb (Some (objectKeyName E key)) val st else st
            | _ \<Rightarrow> st)
      else if type_of member = ''method_definition''
      then (case getChildByField member ''name'' of
              Some key \<Rightarrow> extractFunction E vb (Some (objectKeyName E key)) member st
            | None \<Rightarrow> st)
      else st)"

definition extractObjectLiteralFunctions :: "x_env \<Rightarrow> visitor \<Rightarrow> cursor \<Rightarrow> ext_state \<Rightarrow> ext_state" where
  "extractObjectLiteralFunctions E vb obj st = fold (object_function E vb) (namedChildren obj) st"

function as_object :: "cursor \<Rightarrow> cursor option" where
  "as_object c =
     (if type_of c \<in> set object_types then Some c
      else if type_of c = ''parenthesized_expression'' then first_some as_object (namedChildren c)
      else None)"
  by pat_completeness auto
termination
  by (relation "measure (\<lambda>c. size (here c))") auto

declare as_object.simps [simp del]

definition functionReturnedObject :: "cursor \<Rightarrow> cursor option" where
  "functionReturnedObject fnNode =
     (case getChildByField fnNode ''body'' of
        None \<Rightarrow> None
      | Some body \<Rightarrow>
          given_or (as_object body)
            (if type_of body = ''statement_block''
             then first_some (\<lambda>stmt. first_some as_object (namedChildren stmt))
                    (filter (\<lambda>k. type_of k = ''return_statement'') (namedChildren body))
             else None))"

text \<open>The first argument is the number of levels left.\<close>

primrec returned_object :: "nat \<Rightarrow> cursor \<Rightarrow> cursor option" where
  "returned_object 0 callNode = None"
| "returned_object (Suc d) callNode =
     (case getChildByField callNode ''arguments'' of
        None \<Rightarrow> None
      | Some args \<Rightarrow>
          first_some (\<lambda>arg. if type_of arg \<in> set function_values then functionReturnedObject arg
                            else if type_of arg = ''call_expression'' then returned_object d arg
                            else None) (namedChildren args))"

definition findInitializerReturnedObject :: "cursor \<Rightarrow> cursor option" where
  "findInitializerReturnedObject = returned_object 5"

section \<open>Variables\<close>

definition init_signature :: "x_env \<Rightarrow> cursor option \<Rightarrow> string option" where
  "init_signature E valueNode =
     (case valueNode of
        None \<Rightarrow> None
      | Some v \<Rightarrow>
          (let initValue = take 100 (text_at E v) in
           if initValue = [] then None
           else Some (''= '' @ initValue @ (if 100 \<le> length initValue then ''...'' else []))))"

definition variable_extra :: "x_env \<Rightarrow> cursor \<Rightarrow> string option \<Rightarrow> bool option \<Rightarrow> node_extra" where
  "variable_extra E c signature isExported =
     no_extra\<lparr>ne_docstring := getPrecedingDocstring c (x_source E), ne_signature := signature, ne_isExported := isExported\<rparr>"

definition variable_exported :: "x_env \<Rightarrow> cursor \<Rightarrow> bool" where
  "variable_exported E c = (le_isExported (x_extractor E) c (x_source E) = Some True)"

definition object_of_functions :: "cursor \<Rightarrow> cursor option" where
  "object_of_functions v =
     (if type_of v \<in> set object_types then Some v
      else if type_of v = ''call_expression'' then findInitializerReturnedObject v else None)"

text \<open>
  The initializer of a declarator: the body walker for what is neither an object literal nor the factory call
  of an exported store, and the functions of an exported object.
\<close>

definition walk_initializer :: "x_env \<Rightarrow> visitor \<Rightarrow> bool \<Rightarrow> cursor \<Rightarrow> ext_state \<Rightarrow> ext_state" where
  "walk_initializer E vb exported v st =
     (let methods = (if exported then object_of_functions v else None);
          st1 = (if type_of v \<notin> set object_types \<and> \<not> (methods \<noteq> None \<and> type_of v = ''call_expression'') then vb v st else st)
      in case methods of None \<Rightarrow> st1 | Some obj \<Rightarrow> extractObjectLiteralFunctions E vb obj st1)"

definition ts_declarator :: "x_env \<Rightarrow> visitor \<Rightarrow> node_kind \<Rightarrow> cursor \<Rightarrow> cursor \<Rightarrow> ext_state \<Rightarrow> ext_state" where
  "ts_declarator E vb kind c child st =
     (case (getChildByField child ''name'', getChildByField child ''value'') of
        (None, _) \<Rightarrow> st
      | (Some nameNode, val) \<Rightarrow>
          if type_of nameNode \<in> {''object_pattern'', ''array_pattern''} then st
          else (case val of
                  None \<Rightarrow>
                    with_node E kind (text_at E nameNode) child
                      (variable_extra E c None (Some (variable_exported E c)))
                      (\<lambda>i. add_refs (extractVariableTypeAnnotation E i child)) st
                | Some v \<Rightarrow>
                    if type_of v \<in> set function_values then extractFunction E vb None v st
                    else walk_initializer E vb (variable_exported E c) v
                           (with_node E kind (text_at E nameNode) child
                              (variable_extra E c (init_signature E val) (Some (variable_exported E c)))
                              (\<lambda>i. add_refs (extractVariableTypeAnnotation E i child)) st)))"

definition assigned_variable :: "x_env \<Rightarrow> node_kind \<Rightarrow> cursor \<Rightarrow> ext_state \<Rightarrow> ext_state" where
  "assigned_variable E kind c st =
     (case given_or (getChildByField c ''left'') (namedChild c 0) of
        None \<Rightarrow> st
      | Some left \<Rightarrow>
          if type_of left = ''identifier''
          then create E kind (text_at E left) c
                 (variable_extra E c (init_signature E (given_or (getChildByField c ''right'') (namedChild c 1))) None) st
          else st)"

text \<open>A specification of Go: the initializer is walked within the variable, when there is one.\<close>

definition go_spec :: "x_env \<Rightarrow> visitor \<Rightarrow> cursor \<Rightarrow> cursor \<Rightarrow> ext_state \<Rightarrow> ext_state" where
  "go_spec E vb c spec st =
     (let n = length (namedChildren spec);
          valueNode = (if 1 < n then namedChild spec (n - 1) else None);
          created = (case namedChild spec 0 of
                       Some nameNode \<Rightarrow>
                         if type_of nameNode = ''identifier''
                         then createNode E (if type_of c = ''const_declaration'' then NK_constant else NK_variable)
                                (text_at E nameNode) spec (variable_extra E c (init_signature E valueNode) None) st
                         else (None, st)
                     | None \<Rightarrow> (None, st))
      in case (getChildByField spec ''value'', created) of
           (None, _, st1) \<Rightarrow> st1
         | (Some v, None, st1) \<Rightarrow> vb v st1
         | (Some v, Some varNode, st1) \<Rightarrow> in_scope (n_id varNode) (vb v) st1)"

definition go_short_variables :: "x_env \<Rightarrow> cursor \<Rightarrow> ext_state \<Rightarrow> ext_state" where
  "go_short_variables E c st =
     (case getChildByField c ''left'' of
        None \<Rightarrow> st
      | Some left \<Rightarrow>
          fold (\<lambda>i. create E NK_variable (text_at E i) c
                      (variable_extra E c (init_signature E (getChildByField c ''right'')) None))
            (if type_of left = ''expression_list'' then filter (\<lambda>k. type_of k = ''identifier'') (namedChildren left) else [left]) st)"

definition lua_variables :: "x_env \<Rightarrow> node_kind \<Rightarrow> cursor \<Rightarrow> ext_state \<Rightarrow> ext_state" where
  "lua_variables E kind c st =
     (let assign = (case child_of_type [''assignment_statement''] c of Some a \<Rightarrow> a | None \<Rightarrow> c);
          vals = (case child_of_type [''expression_list''] assign of Some l \<Rightarrow> namedChildren l | None \<Rightarrow> []);
          names = (case child_of_type [''variable_list''] assign of
                     Some l \<Rightarrow> filter (\<lambda>k. type_of k = ''identifier'') (namedChildren l) | None \<Rightarrow> [])
      in fold (\<lambda>(i, n). create E kind (text_at E n) n
                 (variable_extra E c (init_signature E (if i < length vals then Some (vals ! i) else None))
                    (Some (variable_exported E c))))
           (enumerate 0 names) st)"

definition other_variable :: "x_env \<Rightarrow> node_kind \<Rightarrow> cursor \<Rightarrow> cursor \<Rightarrow> ext_state \<Rightarrow> ext_state" where
  "other_variable E kind c child st =
     (let name = (if type_of child = ''identifier'' then text_at E child
                  else extractName child (x_source E) (x_extractor E))
      in if type_of child \<notin> {''identifier'', ''variable_declarator''} \<or> name = anonymous then st
         else create E kind name child (variable_extra E c None (Some (variable_exported E c))) st)"

definition extractVariable :: "x_env \<Rightarrow> visitor \<Rightarrow> cursor \<Rightarrow> ext_state \<Rightarrow> ext_state" where
  "extractVariable E vb c st =
     (let l = x_language E;
          kind = (if le_isConst (x_extractor E) c = Some True then NK_constant else NK_variable)
      in if l \<in> {L_typescript, L_javascript, L_tsx, L_jsx}
         then fold (ts_declarator E vb kind c) (declarators_in c) st
         else if l = L_python \<or> l = L_ruby then assigned_variable E kind c st
         else if l = L_go
         then (let st1 = fold (go_spec E vb c) (filter (\<lambda>k. type_of k \<in> {''var_spec'', ''const_spec''}) (namedChildren c)) st
               in if type_of c = ''short_var_declaration'' then go_short_variables E c st1 else st1)
         else if l = L_lua \<or> l = L_luau then lua_variables E kind c st
         else fold (other_variable E kind c) (namedChildren c) st)"

section \<open>Type aliases\<close>

text \<open>The members of a type literal, each with the function-typed ones as methods.\<close>

definition isTsFunctionTypedProperty :: "cursor \<Rightarrow> bool" where
  "isTsFunctionTypedProperty c =
     (case getChildByField c ''type'' of None \<Rightarrow> False | Some t \<Rightarrow> child_of_type [''function_type''] t \<noteq> None)"

definition alias_member :: "x_env \<Rightarrow> string \<Rightarrow> string \<Rightarrow> cursor \<Rightarrow> ext_state \<Rightarrow> ext_state" where
  "alias_member E aliasId aliasName k st =
     (let name = (case getChildByField k ''name'' of Some n \<Rightarrow> text_at E n | None \<Rightarrow> []);
          kind = (if type_of k = ''method_signature'' \<or> isTsFunctionTypedProperty k then NK_method else NK_property)
      in if type_of k \<notin> {''property_signature'', ''method_signature''} \<or> name = [] then st
         else add_refs (extractTypeAnnotations E aliasId k)
                (create E kind name k
                   (no_extra\<lparr>ne_docstring := getPrecedingDocstring k (x_source E), ne_signature := Some (text_at E k),
                      ne_qualifiedName := Some (aliasName @ ''::'' @ name)\<rparr>) st))"

definition object_operands :: "cursor \<Rightarrow> cursor list" where
  "object_operands v =
     (if type_of v = ''object_type'' then [v]
      else if type_of v = ''intersection_type'' then filter (\<lambda>k. type_of k = ''object_type'') (namedChildren v)
      else [])"

definition extractTsTypeAliasMembers :: "x_env \<Rightarrow> string \<Rightarrow> string \<Rightarrow> cursor \<Rightarrow> ext_state \<Rightarrow> ext_state" where
  "extractTsTypeAliasMembers E aliasId aliasName v st =
     in_scope aliasId (fold (alias_member E aliasId aliasName) (concat (map namedChildren (object_operands v)))) st"

text \<open>The names that tag the entries of a tuple of contracts.\<close>

primrec tuples_in :: "nat \<Rightarrow> cursor \<Rightarrow> cursor list" where
  "tuples_in 0 c = []"
| "tuples_in (Suc d) c =
     (if type_of c = ''tuple_type'' then [c] else []) @ concat (map (tuples_in d) (namedChildren c))"

definition contract_name :: "x_env \<Rightarrow> cursor \<Rightarrow> string option" where
  "contract_name E arg =
     (case (if type_of arg = ''literal_type'' then namedChild arg 0 else None) of
        None \<Rightarrow> None
      | Some strNode \<Rightarrow>
          (let name = strip_quotes (trim (text_at E strNode));
               initial = (\<lambda>x. is_upper x \<or> is_lower x \<or> x = CHR ''_'' \<or> x = CHR ''$'')
           in if type_of strNode = ''string'' \<and> name \<noteq> [] \<and> initial (hd name)
                 \<and> list_all (\<lambda>x. initial x \<or> is_digit x) name
              then Some name else None))"

definition contract_entry :: "x_env \<Rightarrow> string \<Rightarrow> cursor \<Rightarrow> ext_state \<Rightarrow> ext_state" where
  "contract_entry E aliasName entry st =
     (case (if type_of entry = ''generic_type'' then getChildByField entry ''type_arguments'' else None) of
        None \<Rightarrow> st
      | Some typeArgs \<Rightarrow>
          fold (\<lambda>name. create E NK_method name entry
                  (no_extra\<lparr>ne_signature := Some (take 120 (trim (re_replace (re_plus space_re) '' '' (text_at E entry) 0))),
                     ne_qualifiedName := Some (aliasName @ ''::'' @ name)\<rparr>))
            (List.map_filter (contract_name E) (namedChildren typeArgs)) st)"

definition extractTsTupleContractNames :: "x_env \<Rightarrow> string \<Rightarrow> string \<Rightarrow> cursor \<Rightarrow> ext_state \<Rightarrow> ext_state" where
  "extractTsTupleContractNames E aliasId aliasName v st =
     in_scope aliasId (fold (contract_entry E aliasName) (concat (map namedChildren (tuples_in 7 v)))) st"

definition go_interface_method :: "x_env \<Rightarrow> cursor \<Rightarrow> ext_state \<Rightarrow> ext_state" where
  "go_interface_method E m st =
     (case (if type_of m \<in> {''method_elem'', ''method_spec''}
            then given_or (getChildByField m ''name'') (namedChild m 0) else None) of
        None \<Rightarrow> st
      | Some nameNode \<Rightarrow>
          create E NK_method (text_at E nameNode) m
            (no_extra\<lparr>ne_signature := le_getSignature (x_extractor E) m (x_source E)\<rparr>) st)"

definition extractGoInterfaceMethods :: "x_env \<Rightarrow> string \<Rightarrow> cursor \<Rightarrow> ext_state \<Rightarrow> ext_state" where
  "extractGoInterfaceMethods E ifaceId interfaceType st =
     in_scope ifaceId (fold (go_interface_method E) (namedChildren interfaceType)) st"

text \<open>What is done once the node of an alias exists, by the kind that it resolves to.\<close>

definition alias_struct :: "x_env \<Rightarrow> visitor \<Rightarrow> cursor \<Rightarrow> string \<Rightarrow> ext_state \<Rightarrow> ext_state" where
  "alias_struct E vn c i st =
     (case given_or (getChildByField c ''type'') (child_of_type (le_structTypes (x_extractor E)) c) of
        None \<Rightarrow> st
      | Some t \<Rightarrow>
          in_scope i (visit_all vn (case getChildByField t (le_bodyField (x_extractor E)) of Some b \<Rightarrow> b | None \<Rightarrow> t))
            (add_refs (extractInheritance E i t) st))"

definition alias_enum :: "x_env \<Rightarrow> visitor \<Rightarrow> cursor \<Rightarrow> string \<Rightarrow> ext_state \<Rightarrow> ext_state" where
  "alias_enum E vn c i st =
     (case child_of_type (le_enumTypes (x_extractor E)) c of
        None \<Rightarrow> st
      | Some innerEnum \<Rightarrow>
          (let st1 = add_refs (extractInheritance E i innerEnum) st in
           case body_of E innerEnum of None \<Rightarrow> st1 | Some body \<Rightarrow> in_scope i (visit_members E vn body) st1))"

definition alias_interface :: "x_env \<Rightarrow> cursor \<Rightarrow> string \<Rightarrow> ext_state \<Rightarrow> ext_state" where
  "alias_interface E c i st =
     (case getChildByField c ''type'' of
        None \<Rightarrow> st
      | Some t \<Rightarrow>
          (let st1 = add_refs (extractInheritance E i t) st
           in if x_language E = L_go then extractGoInterfaceMethods E i t st1 else st1))"

definition alias_value :: "x_env \<Rightarrow> string \<Rightarrow> cursor \<Rightarrow> string \<Rightarrow> ext_state \<Rightarrow> ext_state" where
  "alias_value E name c i st =
     (case (if x_language E \<in> set TYPE_ANNOTATION_LANGUAGES then getChildByField c ''value'' else None) of
        None \<Rightarrow> st
      | Some v \<Rightarrow>
          (let st1 = add_refs (extractTypeRefsFromSubtree E i v) st
           in if x_language E = L_typescript \<or> x_language E = L_tsx
              then extractTsTupleContractNames E i name v (extractTsTypeAliasMembers E i name v st1)
              else st1))"

text \<open>The flag says whether the children are to be skipped.\<close>

definition extractTypeAlias :: "x_env \<Rightarrow> visitor \<Rightarrow> cursor \<Rightarrow> ext_state \<Rightarrow> bool \<times> ext_state" where
  "extractTypeAlias E vn c st =
     (let name = extractName c (x_source E) (x_extractor E); extra = declared_extra E c;
          resolvedKind = le_resolveTypeAliasKind (x_extractor E) c (x_source E)
      in if name = anonymous then (False, st)
         else if resolvedKind = Some NK_struct then (True, with_node E NK_struct name c extra (alias_struct E vn c) st)
         else if resolvedKind = Some NK_enum then (True, with_node E NK_enum name c extra (alias_enum E vn c) st)
         else if resolvedKind = Some NK_interface
         then (True, with_node E (interface_kind E) name c extra (alias_interface E c) st)
         else (False, with_node E NK_type_alias name c extra (alias_value E name c) st))"

end
