(* ===== verification/ExtractPascal.thy ===== *)
theory ExtractPascal
  imports ExtractDecls QueryUtils
begin

text \<open>The part of the extractor that handles Pascal (\<open>extraction/tree-sitter.ts\<close>).\<close>

section \<open>Calls\<close>

definition pascal_callee :: "x_env \<Rightarrow> cursor \<Rightarrow> string" where
  "pascal_callee E firstChild =
     (if type_of firstChild = ''exprDot''
      then join_with ''.'' (map (text_at E) (filter (\<lambda>k. type_of k = ''identifier'') (namedChildren firstChild)))
      else if type_of firstChild = ''identifier'' then text_at E firstChild else [])"

lemma grandchild_size: "k \<in> set (namedChildren c) \<Longrightarrow> g \<in> set (namedChildren k) \<Longrightarrow> size (here g) < size (here c)"
  by (rule less_trans [OF named_size named_size])

text \<open>
  The references of a call and of a block. A call is given to \<open>pascal_refs\<close> with the flag set, a node whose
  children are visited without it.
\<close>

function pascal_refs :: "x_env \<Rightarrow> string \<Rightarrow> bool \<Rightarrow> cursor \<Rightarrow> unresolved_reference list" where
  "pascal_refs E callerId True c =
     (case namedChild c 0 of
        None \<Rightarrow> []
      | Some firstChild \<Rightarrow>
          call_ref callerId (pascal_callee E firstChild) c @
          (case child_of_type [''exprArgs''] c of None \<Rightarrow> [] | Some args \<Rightarrow> pascal_refs E callerId False args))"
| "pascal_refs E callerId False c =
     concat (map (\<lambda>k. if type_of k = ''exprCall'' then pascal_refs E callerId True k
                      else if type_of k = ''exprDot''
                      then concat (map (\<lambda>g. if type_of g = ''exprCall'' then pascal_refs E callerId True g else [])
                             (namedChildren k))
                      else pascal_refs E callerId False k) (namedChildren c))"
  by pat_completeness auto
termination
  by (relation "measure (\<lambda>(E, i, b, c). size (here c))") (auto dest: typed_child_in intro: grandchild_size)

declare pascal_refs.simps [simp del]

definition extractPascalCall :: "x_env \<Rightarrow> cursor \<Rightarrow> ext_state \<Rightarrow> ext_state" where
  "extractPascalCall E c = from_top (\<lambda>p. pascal_refs E p True c)"

definition visitPascalBlock :: "x_env \<Rightarrow> cursor \<Rightarrow> ext_state \<Rightarrow> ext_state" where
  "visitPascalBlock E c = from_top (\<lambda>p. pascal_refs E p False c)"

section \<open>Declarations\<close>

definition pascal_inherits :: "x_env \<Rightarrow> string \<Rightarrow> cursor \<Rightarrow> unresolved_reference list" where
  "pascal_inherits E classId declClass =
     map (\<lambda>(i, r). ref_at classId (text_at E r) (if i = 0 then EK_extends else EK_implements) r)
       (enumerate 0 (filter (\<lambda>k. type_of k = ''typeref'') (namedChildren declClass)))"

definition pascal_enum_member :: "x_env \<Rightarrow> cursor \<Rightarrow> ext_state \<Rightarrow> ext_state" where
  "pascal_enum_member E k st =
     (case (if type_of k = ''declEnumValue'' then getChildByField k ''name'' else None) of
        None \<Rightarrow> st | Some n \<Rightarrow> create E NK_enum_member (text_at E n) k no_extra st)"

definition extractPascalDeclType :: "x_env \<Rightarrow> visitor \<Rightarrow> cursor \<Rightarrow> ext_state \<Rightarrow> ext_state" where
  "extractPascalDeclType E vn c st =
     (case getChildByField c ''name'' of
        None \<Rightarrow> st
      | Some nameNode \<Rightarrow>
          (let name = text_at E nameNode in
           case (child_of_type [''declClass''] c, child_of_type [''declIntf''] c, child_of_type [''type''] c) of
             (Some declClass, _, _) \<Rightarrow>
               with_node E NK_class name c no_extra
                 (\<lambda>i st. in_scope i (visit_all vn declClass) (add_refs (pascal_inherits E i declClass) st)) st
           | (None, Some declIntf, _) \<Rightarrow>
               with_node E NK_interface name c no_extra (\<lambda>i. in_scope i (visit_all vn declIntf)) st
           | (None, None, Some typeChild) \<Rightarrow>
               (case child_of_type [''declEnum''] typeChild of
                  Some declEnum \<Rightarrow>
                    with_node E NK_enum name c no_extra
                      (\<lambda>i. in_scope i (fold (pascal_enum_member E) (namedChildren declEnum))) st
                | None \<Rightarrow> create E NK_type_alias name c no_extra st)
           | (None, None, None) \<Rightarrow> create E NK_type_alias name c no_extra st))"

definition pascal_use :: "x_env \<Rightarrow> string \<Rightarrow> cursor \<Rightarrow> ext_state \<Rightarrow> ext_state" where
  "pascal_use E importText k st =
     from_top (\<lambda>p. [ref_at p (text_at E k) EK_imports k])
       (create E NK_import (text_at E k) k (signed importText) st)"

definition extractPascalUses :: "x_env \<Rightarrow> cursor \<Rightarrow> ext_state \<Rightarrow> ext_state" where
  "extractPascalUses E c st =
     fold (pascal_use E (trim (text_at E c))) (filter (\<lambda>k. type_of k = ''moduleName'') (namedChildren c)) st"

definition extractPascalConst :: "x_env \<Rightarrow> cursor \<Rightarrow> ext_state \<Rightarrow> ext_state" where
  "extractPascalConst E c st =
     (case getChildByField c ''name'' of
        None \<Rightarrow> st
      | Some nameNode \<Rightarrow>
          create E NK_constant (text_at E nameNode) c
            (no_extra\<lparr>ne_signature := map_option (text_at E) (child_of_type [''defaultValue''] c)\<rparr>) st)"

section \<open>Implementations\<close>

text \<open>The index from the lower-case names of methods and functions to their ids, built on its first use.\<close>

definition index_method :: "node \<Rightarrow> (string, string) jmap \<Rightarrow> (string, string) jmap" where
  "index_method n m =
     (if n_kind n \<in> {NK_method, NK_function}
      then (let nameKey = to_lower (n_name n);
                m1 = (if map_has m nameKey then m else map_set nameKey (n_id n) m);
                parts = split_str ''::'' (n_qualifiedName n)
            in if n_kind n = NK_method \<and> 2 \<le> length parts
               then fold (\<lambda>i. map_set (to_lower (join_with ''.'' (drop i parts))) (n_id n)) [0..<length parts - 1] m1
               else m1)
      else m)"

definition build_method_index :: "node list \<Rightarrow> (string, string) jmap" where
  "build_method_index nodes = fold index_method nodes []"

definition method_index :: "ext_state \<Rightarrow> (string, string) jmap" where
  "method_index st = (case xs_methodIndex st of Some m \<Rightarrow> m | None \<Rightarrow> build_method_index (xs_nodes st))"

definition extractPascalDefProc :: "x_env \<Rightarrow> cursor \<Rightarrow> ext_state \<Rightarrow> ext_state" where
  "extractPascalDefProc E c st =
     (case (case child_of_type [''declProc''] c of None \<Rightarrow> None | Some d \<Rightarrow> getChildByField d ''name'') of
        None \<Rightarrow> st
      | Some nameNode \<Rightarrow>
          (let fullName = trim (text_at E nameNode);
               shortName = last (split_str ''.'' fullName);
               m = method_index st;
               st1 = st\<lparr>xs_methodIndex := Some m\<rparr>
           in case given_or (truthy (map_get m (to_lower fullName)))
                     (given_or (truthy (map_get m (to_lower shortName))) (top_scope st1)) of
                None \<Rightarrow> st1
              | Some parentId \<Rightarrow>
                  (case child_of_type [''block''] c of
                     None \<Rightarrow> st1
                   | Some block \<Rightarrow> in_scope parentId (visitPascalBlock E block) st1)))"

text \<open>The name of a unit; the name of the file without its extension when there is none.\<close>

definition drop_extension :: "string \<Rightarrow> string" where
  "drop_extension s =
     (case last_index_of s ''.'' of Some i \<Rightarrow> if i + 1 < length s then take i s else s | None \<Rightarrow> s)"

definition pascal_module_name :: "x_env \<Rightarrow> cursor \<Rightarrow> string" where
  "pascal_module_name E c =
     nonempty_or (case child_of_type [''moduleName''] c of Some m \<Rightarrow> text_at E m | None \<Rightarrow> [])
       (drop_extension (path_basename (x_filePath E)))"

definition pascal_declared :: "x_env \<Rightarrow> node_kind \<Rightarrow> node_extra \<Rightarrow> cursor \<Rightarrow> ext_state \<Rightarrow> ext_state" where
  "pascal_declared E kind extra c st =
     (case getChildByField c ''name'' of None \<Rightarrow> st | Some n \<Rightarrow> create E kind (text_at E n) c extra st)"

definition visited_sections :: "string list" where
  "visited_sections = [''declTypes'', ''declSection'', ''interface'', ''implementation'']"

text \<open>\<open>None\<close>: the node is none of Pascal's own.\<close>

definition visitPascalNode :: "x_env \<Rightarrow> visitor \<Rightarrow> cursor \<Rightarrow> ext_state \<Rightarrow> ext_state option" where
  "visitPascalNode E vn c st =
     (let t = type_of c; shown = no_extra\<lparr>ne_visibility := le_getVisibility (x_extractor E) c\<rparr> in
      if t \<in> {''unit'', ''program'', ''library''}
      then Some (visit_all vn c (create E NK_module (pascal_module_name E c) c no_extra st))
      else if t = ''declType'' then Some (extractPascalDeclType E vn c st)
      else if t = ''declUses'' then Some (extractPascalUses E c st)
      else if t = ''declConsts''
      then Some (fold (extractPascalConst E) (filter (\<lambda>k. type_of k = ''declConst'') (namedChildren c)) st)
      else if t = ''declConst'' then Some (extractPascalConst E c st)
      else if t = ''declVars''
      then Some (fold (pascal_declared E NK_variable no_extra) (filter (\<lambda>k. type_of k = ''declVar'') (namedChildren c)) st)
      else if t = ''defProc'' then Some (extractPascalDefProc E c st)
      else if t = ''declProp'' then Some (pascal_declared E NK_property shown c st)
      else if t = ''declField'' then Some (pascal_declared E NK_field shown c st)
      else if t = ''exprCall'' then Some (extractPascalCall E c st)
      else if t \<in> set visited_sections then Some (visit_all vn c st)
      else if t = ''block'' then Some (visitPascalBlock E c st)
      else None)"

end
