(* ===== verification/ExtractVisit.thy ===== *)
theory ExtractVisit
  imports ExtractVariables ExtractPascal
begin

text \<open>
  The two visitors of the extractor (\<open>extraction/tree-sitter.ts\<close>). Each step is a definition over the
  visitors that it calls; the visitors themselves are their iteration, bounded by a number of levels, and the
  theory of termination shows that the bound never shows.
\<close>

section \<open>The steps\<close>

definition makeExtractorContext :: "x_env \<Rightarrow> visitor \<Rightarrow> visitor \<Rightarrow> extractor_context" where
  "makeExtractorContext E vn vb =
     \<lparr>ctx_createNode = createNode E, ctx_visitNode = vn, ctx_visitFunctionBody = vb,
      ctx_filePath = x_filePath E, ctx_source = x_source E\<rparr>"

definition script_languages :: "language list" where
  "script_languages = [L_typescript, L_tsx, L_javascript, L_jsx]"

definition swift_property_refs :: "x_env \<Rightarrow> cursor \<Rightarrow> string \<Rightarrow> unresolved_reference list" where
  "swift_property_refs E c ownerId =
     extractDecoratorsFor E ownerId c @ extractVariableTypeAnnotation E ownerId c
     @ maybe (walkAttrArgs E ownerId) (child_of_type [''modifiers''] c)"

text \<open>An instantiation and, if it has a body, its anonymous class; the flag says that there was one.\<close>

definition instantiation_step :: "x_env \<Rightarrow> visitor \<Rightarrow> cursor \<Rightarrow> ext_state \<Rightarrow> bool \<times> ext_state" where
  "instantiation_step E vn c st =
     (let st1 = from_top (\<lambda>p. extractInstantiation E p c) st in
      case findAnonymousClassBody c of
        None \<Rightarrow> (False, st1)
      | Some body \<Rightarrow> (True, extractAnonymousClass E vn c body st1))"

text \<open>The chain of cases of \<open>visitNode\<close>; the flag says whether the children are skipped.\<close>

definition dispatch_declaration :: "x_env \<Rightarrow> visitor \<Rightarrow> visitor \<Rightarrow> cursor \<Rightarrow> ext_state \<Rightarrow> (bool \<times> ext_state) option" where
  "dispatch_declaration E vn vb c st =
     (let t = type_of c; X = x_extractor E; inside = isInsideClassLikeNode st in
      if t \<in> set (le_functionTypes X)
      then Some (True, if inside \<and> t \<in> set (le_methodTypes X) then extractMethod E vb c st else extractFunction E vb None c st)
      else if t \<in> set (le_classTypes X) then Some (True, extractClassified E vn c st)
      else if t \<in> set (le_extraClassNodeTypes X) then Some (True, extractClass E vn NK_class c st)
      else if t \<in> set (le_methodTypes X) then Some (True, extractMethod E vb c st)
      else if t \<in> set (le_interfaceTypes X) then Some (True, extractInterface E vn c st)
      else if t \<in> set (le_structTypes X) then Some (True, extractStruct E vn c st)
      else if t \<in> set (le_enumTypes X) then Some (True, extractEnum E vn c st)
      else if t \<in> set (le_typeAliasTypes X) then Some (extractTypeAlias E vn c st)
      else if t \<in> set (le_propertyTypes X) \<and> inside then Some (True, extractProperty E c st)
      else if t \<in> set (le_fieldTypes X) \<and> inside then Some (True, extractField E c st)
      else if t \<in> set (le_variableTypes X) \<and> \<not> inside then Some (True, extractVariable E vb c st)
      else None)"

definition dispatch_reference :: "x_env \<Rightarrow> visitor \<Rightarrow> cursor \<Rightarrow> ext_state \<Rightarrow> bool \<times> ext_state" where
  "dispatch_reference E vn c st =
     (let t = type_of c; X = x_extractor E; inside = isInsideClassLikeNode st in
      if x_language E = L_swift \<and> t = ''property_declaration'' \<and> inside
      then (False, from_top (swift_property_refs E c) st)
      else if t \<in> set (le_importTypes X) then (False, extractImport E c st)
      else if t = ''export_statement'' \<and> x_language E \<in> set script_languages \<and> getChildByField c ''source'' \<noteq> None
      then (False, from_top (\<lambda>p. emitReExportRefs E p c) st)
      else if t \<in> set (le_callTypes X) then (False, from_top (\<lambda>p. extractCall E p c) st)
      else if t \<in> set INSTANTIATION_KINDS then instantiation_step E vn c st
      else if t = ''impl_item'' then (False, add_refs (extractRustImplItem E c st) st)
      else if t \<in> {''property_signature'', ''method_signature''} \<and> inside \<and> x_language E \<in> set TYPE_ANNOTATION_LANGUAGES
      then (False, from_top (\<lambda>p. extractTypeAnnotations E p c) st)
      else (False, st))"

definition dispatch_node :: "x_env \<Rightarrow> visitor \<Rightarrow> visitor \<Rightarrow> cursor \<Rightarrow> ext_state \<Rightarrow> bool \<times> ext_state" where
  "dispatch_node E vn vb c st =
     (case dispatch_declaration E vn vb c st of Some r \<Rightarrow> r | None \<Rightarrow> dispatch_reference E vn c st)"

definition visit_default :: "x_env \<Rightarrow> visitor \<Rightarrow> visitor \<Rightarrow> cursor \<Rightarrow> ext_state \<Rightarrow> ext_state" where
  "visit_default E vn vb c st =
     (case dispatch_node E vn vb c st of (skipChildren, st') \<Rightarrow> if skipChildren then st' else visit_all vn c st')"

definition visit_step :: "x_env \<Rightarrow> visitor \<Rightarrow> visitor \<Rightarrow> cursor \<Rightarrow> ext_state \<Rightarrow> ext_state" where
  "visit_step E vn vb c st =
     (case le_visitNode (x_extractor E) (makeExtractorContext E vn vb) c st of
        (True, st') \<Rightarrow> st'
      | (False, st') \<Rightarrow>
          (case (if x_language E = L_pascal then visitPascalNode E vn c st' else None) of
             Some st'' \<Rightarrow> st''
           | None \<Rightarrow> visit_default E vn vb c st'))"

text \<open>The step of \<open>visitFunctionBody\<close>: the references of a node, then the structure that it declares.\<close>

definition body_calls :: "x_env \<Rightarrow> visitor \<Rightarrow> cursor \<Rightarrow> ext_state \<Rightarrow> bool \<times> ext_state" where
  "body_calls E vn c st =
     (if type_of c \<in> set (le_callTypes (x_extractor E)) then (False, from_top (\<lambda>p. extractCall E p c) st)
      else if type_of c \<in> set INSTANTIATION_KINDS then instantiation_step E vn c st
      else (False, from_top (\<lambda>p. case le_extractBareCall (x_extractor E) c (x_source E) of
                                   Some name \<Rightarrow> call_ref p name c | None \<Rightarrow> []) st))"

definition body_refs :: "x_env \<Rightarrow> cursor \<Rightarrow> string \<Rightarrow> unresolved_reference list" where
  "body_refs E c ownerId =
     extractStaticMemberRef E ownerId c
     @ (if type_of c = ''variable_declarator'' \<and> x_language E \<in> set TYPE_ANNOTATION_LANGUAGES
        then extractVariableTypeAnnotation E ownerId c else [])"

definition body_structure :: "x_env \<Rightarrow> visitor \<Rightarrow> visitor \<Rightarrow> cursor \<Rightarrow> ext_state \<Rightarrow> ext_state" where
  "body_structure E vn vb c st =
     (let t = type_of c; X = x_extractor E in
      if t \<in> set (le_functionTypes X) \<and> extractName c (x_source E) X \<notin> {[], anonymous} then extractFunction E vb None c st
      else if t \<in> set (le_classTypes X) then extractClassified E vn c st
      else if t \<in> set (le_structTypes X) then extractStruct E vn c st
      else if t \<in> set (le_enumTypes X) then extractEnum E vn c st
      else if t \<in> set (le_interfaceTypes X) then extractInterface E vn c st
      else visit_all vb c st)"

definition body_step :: "x_env \<Rightarrow> visitor \<Rightarrow> visitor \<Rightarrow> cursor \<Rightarrow> ext_state \<Rightarrow> ext_state" where
  "body_step E vn vb c st =
     (let st1 = (if type_of c = ''macro_invocation'' then from_top (\<lambda>p. extractRustRouteMacro E p c) st else st) in
      case body_calls E vn c st1 of
        (True, st2) \<Rightarrow> st2
      | (False, st2) \<Rightarrow> body_structure E vn vb c (from_top (body_refs E c) st2))"

section \<open>The visitors\<close>

text \<open>Both visitors to a number of levels; \<open>False\<close> selects \<open>visitFunctionBody\<close>.\<close>

primrec visit_levels :: "nat \<Rightarrow> x_env \<Rightarrow> bool \<Rightarrow> visitor" where
  "visit_levels 0 E b c st = st"
| "visit_levels (Suc n) E b c st =
     (if b then visit_step E (visit_levels n E True) (visit_levels n E False) c st
      else body_step E (visit_levels n E True) (visit_levels n E False) c st)"

text \<open>
  The levels below a cursor: a child is below its parent, and a node without declared type is below the
  declarations among its siblings, which may have it as their body.
\<close>

definition room :: "cursor \<Rightarrow> nat" where
  "room c = (case way_up c of [] \<Rightarrow> Suc (size (here c)) | (i, p) # up \<Rightarrow> size p)"

definition plain_node :: "lang_extractor \<Rightarrow> cursor \<Rightarrow> bool" where
  "plain_node X c \<longleftrightarrow> type_of c \<notin> set (le_functionTypes X) \<union> set (le_classTypes X)
     \<union> set (le_extraClassNodeTypes X) \<union> set (le_methodTypes X)
     \<union> set (le_interfaceTypes X) \<union> set (le_enumTypes X)"

definition rank :: "lang_extractor \<Rightarrow> cursor \<Rightarrow> nat" where
  "rank X c = 2 * room c + (if plain_node X c then 0 else 1)"

definition visitNode :: "x_env \<Rightarrow> cursor \<Rightarrow> ext_state \<Rightarrow> ext_state" where
  "visitNode E c = visit_levels (Suc (rank (x_extractor E) c)) E True c"

definition visitFunctionBody :: "x_env \<Rightarrow> cursor \<Rightarrow> ext_state \<Rightarrow> ext_state" where
  "visitFunctionBody E c = visit_levels (Suc (rank (x_extractor E) c)) E False c"

end
