(* ===== verification/ExtractSources.thy ===== *)
theory ExtractSources
  imports ExtractPascal ExtractVariables
begin

text \<open>
  Where the references of the extractor start: each operation that emits references for a node emits them from
  that node, and from no other.
\<close>

definition refs_from :: "string \<Rightarrow> unresolved_reference list \<Rightarrow> bool" where
  "refs_from i rs \<longleftrightarrow> (\<forall>r\<in>set rs. u_fromNodeId r = i)"

named_theorems emitted

lemma refs_from_basics [emitted]:
  "refs_from i []"
  "refs_from i (r # rs) \<longleftrightarrow> u_fromNodeId r = i \<and> refs_from i rs"
  "refs_from i (xs @ ys) \<longleftrightarrow> refs_from i xs \<and> refs_from i ys"
  by (auto simp: refs_from_def)

lemma from_ref [emitted]:
  "u_fromNodeId (ref_from i name kind l col) = i"
  "u_fromNodeId (ref_at i name kind c) = i"
  "u_fromNodeId (named_ref E i kind c) = i"
  "u_fromNodeId (pushStaticMemberRef name i c) = i"
  "u_fromNodeId (anonymous_extends E i c) = i"
  by (simp_all add: ref_from_def ref_at_def named_ref_def pushStaticMemberRef_def anonymous_extends_def Let_def)

lemma from_concat: "(\<And>x. x \<in> set xs \<Longrightarrow> refs_from i (f x)) \<Longrightarrow> refs_from i (concat (map f xs))"
  by (auto simp: refs_from_def)

lemma from_map: "(\<And>x. x \<in> set xs \<Longrightarrow> u_fromNodeId (f x) = i) \<Longrightarrow> refs_from i (map f xs)"
  by (auto simp: refs_from_def)

lemma from_map_filter: "(\<And>x r. x \<in> set xs \<Longrightarrow> f x = Some r \<Longrightarrow> u_fromNodeId r = i) \<Longrightarrow> refs_from i (List.map_filter f xs)"
  by (auto simp: refs_from_def List.map_filter_def)

lemma from_maybe: "(\<And>x. c = Some x \<Longrightarrow> refs_from i (f x)) \<Longrightarrow> refs_from i (maybe f c)"
  by (simp add: maybe_def refs_from_basics split: option.split)

lemma from_if: "(b \<Longrightarrow> refs_from i xs) \<Longrightarrow> (\<not> b \<Longrightarrow> refs_from i ys) \<Longrightarrow> refs_from i (if b then xs else ys)"
  by simp

lemma from_option: "(c = None \<Longrightarrow> refs_from i xs) \<Longrightarrow> (\<And>x. c = Some x \<Longrightarrow> refs_from i (f x)) \<Longrightarrow>
    refs_from i (case c of None \<Rightarrow> xs | Some x \<Rightarrow> f x)"
  by (simp split: option.split)

lemmas from_rules = from_concat from_map from_map_filter from_maybe from_if from_option

lemma type_ref_from [emitted]: "refs_from i (type_ref skip i name c)"
  by (simp add: type_ref_def emitted)

section \<open>Types\<close>

lemma extractTypeRefsFromSubtree_from [emitted]: "refs_from i (extractTypeRefsFromSubtree E i c)"
  by (induction E i c rule: extractTypeRefsFromSubtree.induct)
    (subst extractTypeRefsFromSubtree.simps, auto simp: emitted intro!: from_rules)

lemma walkCsharpTypePosition_from [emitted]: "refs_from i (walkCsharpTypePosition E i c)"
  by (induction E i c rule: walkCsharpTypePosition.induct)
    (subst walkCsharpTypePosition.simps, auto simp: emitted intro!: from_rules)

lemma walkPhpTypePosition_from [emitted]: "refs_from i (walkPhpTypePosition E i c)"
  by (induction E i c rule: walkPhpTypePosition.induct)
    (subst walkPhpTypePosition.simps, auto simp: emitted intro!: from_rules)

lemma type_lists_from [emitted]:
  "refs_from i (parameter_types E i c)"
  "refs_from i (php_types_in E i c)"
  by (auto simp: parameter_types_def php_types_in_def emitted intro!: from_rules)

lemma extractCsharpTypeRefs_from [emitted]:
  "refs_from i (extractCsharpTypeRefs E i c)"
  "refs_from i (extractCsharpPrimaryCtorParamRefs E i c)"
  by (auto simp: extractCsharpTypeRefs_def extractCsharpPrimaryCtorParamRefs_def emitted intro!: from_rules)

lemma extractPhpTypeRefs_from [emitted]: "refs_from i (extractPhpTypeRefs E i c)"
  by (auto simp: extractPhpTypeRefs_def emitted intro!: from_rules)

lemma annotations_from [emitted]:
  "refs_from i (extractVariableTypeAnnotation E i c)"
  "refs_from i (extractTypeAnnotations E i c)"
  by (auto simp: extractVariableTypeAnnotation_def extractTypeAnnotations_def Let_def emitted intro!: from_rules)

section \<open>Decorators and supertypes\<close>

lemma consider_decorator_from [emitted]: "refs_from i (consider_decorator E i c)"
  by (auto simp: consider_decorator_def Let_def emitted intro!: from_rules)

lemma extractDecoratorsFor_from [emitted]: "refs_from i (extractDecoratorsFor E i c)"
  by (auto simp: extractDecoratorsFor_def emitted intro!: from_rules)

lemma supertype_lists_from [emitted]:
  "refs_from i (objc_supertypes E i c)"
  "refs_from i (extends_refs E i c)"
  by (auto simp: objc_supertypes_def extends_refs_def emitted intro!: from_rules)

lemma supertypes_in_from [emitted]: "refs_from i (supertypes_in E t i c)"
  unfolding supertypes_in_def Let_def
  by (intro from_rules) (auto simp: emitted intro!: from_rules)

lemma extractInheritance_from [emitted]: "refs_from i (extractInheritance E i c)"
  by (induction E i c rule: extractInheritance.induct)
    (subst extractInheritance.simps, auto simp: emitted intro!: from_rules)

section \<open>Bodies\<close>

lemma call_ref_from [emitted]: "refs_from i (call_ref i name c)"
  by (simp add: call_ref_def emitted)

lemma message_call_from: "message_call E i c = (rs, name) \<Longrightarrow> refs_from i rs"
  by (auto simp: message_call_def Let_def emitted split: option.splits if_splits)

lemma extractCall_from [emitted]: "refs_from i (extractCall E i c)"
  by (auto simp: extractCall_def emitted intro: message_call_from split: option.split sum.split prod.split bool.split)

lemma extractInstantiation_from [emitted]: "refs_from i (extractInstantiation E i c)"
  by (auto simp: extractInstantiation_def Let_def emitted intro!: from_rules)

lemma extractStaticMemberRef_from [emitted]: "refs_from i (extractStaticMemberRef E i c)"
  by (auto simp: extractStaticMemberRef_def emitted intro!: from_rules)

lemma walkAttrArgs_from [emitted]: "refs_from i (walkAttrArgs E i c)"
  by (induction E i c rule: walkAttrArgs.induct)
    (subst walkAttrArgs.simps, auto simp: emitted intro!: from_rules)

lemma flush_path_from [emitted]: "refs_from i (flush_path i p)"
  by (simp add: flush_path_def emitted split: prod.split)

lemma token_paths_from [emitted]: "refs_from i (token_paths E i ts p)"
  by (induction E i ts p rule: token_paths.induct) (simp_all add: emitted)

lemma extractRustRouteMacro_from [emitted]: "refs_from i (extractRustRouteMacro E i c)"
  by (auto simp: extractRustRouteMacro_def emitted intro!: from_rules)

section \<open>Imports and Pascal\<close>

lemma import_ref_from [emitted]: "refs_from i (import_ref i name c)"
  by (simp add: import_ref_def emitted)

lemma emitImportBindingRefs_from [emitted]: "refs_from i (emitImportBindingRefs E i c)"
  by (auto simp: emitImportBindingRefs_def emitted intro!: from_rules)

lemma emitReExportRefs_from [emitted]: "refs_from i (emitReExportRefs E i c)"
  by (auto simp: emitReExportRefs_def emitted intro!: from_rules)

lemma emitRustUseBindingRefs_from [emitted]: "refs_from i (emitRustUseBindingRefs E i c)"
  by (auto simp: emitRustUseBindingRefs_def emitted intro!: from_rules split: if_splits)

lemma pushPhpUseRef_from [emitted]: "refs_from i (pushPhpUseRef fqn i c)"
  by (auto simp: pushPhpUseRef_def Let_def emitted split: option.split)

lemma emitPhpUseRefs_from [emitted]: "refs_from i (emitPhpUseRefs E i c)"
  by (auto simp: emitPhpUseRefs_def emitted intro!: from_rules)

lemma emitRubyRequireRefs_from [emitted]: "refs_from i (emitRubyRequireRefs E i c)"
  unfolding emitRubyRequireRefs_def Let_def by (intro from_rules) (simp_all add: emitted)

lemma emitPyFromImportRefs_from [emitted]: "refs_from i (emitPyFromImportRefs E i c)"
  unfolding emitPyFromImportRefs_def Let_def by (intro from_rules) (simp_all add: emitted)

lemma binding_refs_from [emitted]: "refs_from i (binding_refs E c i)"
  by (simp add: binding_refs_def Let_def emitted)

lemma pascal_refs_from [emitted]: "refs_from i (pascal_refs E i b c)"
proof (induction E i b c rule: pascal_refs.induct)
  case (1 E i c)
  then have "refs_from i (pascal_refs E i False x)" if "namedChild c 0 = Some y" "child_of_type [''exprArgs''] c = Some x" for x y
    using that by blast
  then show ?case
    by (subst pascal_refs.simps(1)) (auto simp only: emitted split: option.split)
next
  case (2 E i c)
  show ?case
    by (subst pascal_refs.simps(2)) (intro from_rules; simp add: emitted 2)
qed

lemma pascal_inherits_from [emitted]: "refs_from i (pascal_inherits E i c)"
  by (auto simp: pascal_inherits_def emitted intro!: from_rules)

end
