(* ===== verification/ExtractLaws.thy ===== *)
theory ExtractLaws
  imports ExtractVisit ExtractSources
begin

text \<open>
  The invariant of the extractor: ids are not empty, edges join nodes of the file, references start at them,
  the stack of scopes holds nodes and is never empty, and every node but that of the file is contained in
  another. Each operation keeps it, leaves the stack as it found it and only adds nodes.
\<close>

section \<open>The invariant\<close>

definition ids :: "ext_state \<Rightarrow> string set" where
  "ids st = n_id ` set (xs_nodes st)"

definition contained :: "ext_state \<Rightarrow> bool" where
  "contained st \<longleftrightarrow> (\<forall>n\<in>set (xs_nodes st). n_kind n = NK_file \<or>
     (\<exists>e\<in>set (xs_edges st). e_kind e = EK_contains \<and> e_target e = n_id n))"

definition well_formed :: "x_env \<Rightarrow> ext_state \<Rightarrow> bool" where
  "well_formed E st \<longleftrightarrow>
     (\<forall>n\<in>set (xs_nodes st). n_id n \<noteq> [] \<and> n_name n \<noteq> [] \<and> n_filePath n = x_filePath E) \<and>
     (\<forall>e\<in>set (xs_edges st). e_source e \<in> ids st \<and> e_target e \<in> ids st) \<and>
     (\<forall>r\<in>set (xs_refs st). u_fromNodeId r \<in> ids st) \<and>
     set (xs_stack st) \<subseteq> ids st \<and> xs_stack st \<noteq> [] \<and>
     (\<forall>m. xs_methodIndex st = Some m \<longrightarrow> (\<forall>k i. (k, i) \<in> set m \<longrightarrow> i \<in> ids st)) \<and>
     contained st"

text \<open>What an operation does to a state.\<close>

definition grows :: "x_env \<Rightarrow> ext_state \<Rightarrow> ext_state \<Rightarrow> bool" where
  "grows E st st' \<longleftrightarrow> well_formed E st' \<and> xs_stack st' = xs_stack st \<and> prefix (xs_nodes st) (xs_nodes st')"

definition keeps :: "x_env \<Rightarrow> (ext_state \<Rightarrow> ext_state) \<Rightarrow> bool" where
  "keeps E f \<longleftrightarrow> (\<forall>st. well_formed E st \<longrightarrow> grows E st (f st))"

lemma keepsI: "(\<And>st. well_formed E st \<Longrightarrow> grows E st (f st)) \<Longrightarrow> keeps E f"
  by (simp add: keeps_def)

lemma keepsD: "keeps E f \<Longrightarrow> well_formed E st \<Longrightarrow> grows E st (f st)"
  by (simp add: keeps_def)

lemma grows_refl: "well_formed E st \<Longrightarrow> grows E st st"
  by (simp add: grows_def)

lemma grows_trans: "grows E s1 s2 \<Longrightarrow> grows E s2 s3 \<Longrightarrow> grows E s1 s3"
  by (auto simp: grows_def)

lemma grows_wf: "grows E st st' \<Longrightarrow> well_formed E st'"
  by (simp add: grows_def)

lemma grows_ids: "grows E st st' \<Longrightarrow> i \<in> ids st \<Longrightarrow> i \<in> ids st'"
  by (auto simp: grows_def ids_def prefix_def)

lemma grows_then: "grows E st st1 \<Longrightarrow> (well_formed E st1 \<Longrightarrow> grows E st1 st2) \<Longrightarrow> grows E st st2"
  using grows_trans grows_wf by blast

lemma fold_grows:
  "(\<And>x st. x \<in> set xs \<Longrightarrow> well_formed E st \<Longrightarrow> grows E st (f x st)) \<Longrightarrow> well_formed E st \<Longrightarrow> grows E st (fold f xs st)"
proof (induction xs arbitrary: st)
  case Nil
  then show ?case by (simp add: grows_refl)
next
  case (Cons x xs)
  then have one: "grows E st (f x st)" by simp
  show ?case
    using grows_trans [OF one Cons.IH [OF _ grows_wf [OF one]]] Cons.prems(1) by simp
qed

lemma keeps_fold: "(\<And>x. x \<in> set xs \<Longrightarrow> keeps E (f x)) \<Longrightarrow> keeps E (fold f xs)"
  by (auto simp: keeps_def intro: fold_grows)

section \<open>The building blocks\<close>

lemma add_refs_grows: "well_formed E st \<Longrightarrow> refs_from i rs \<Longrightarrow> i \<in> ids st \<Longrightarrow> grows E st (add_refs rs st)"
  by (auto simp: grows_def well_formed_def add_refs_def ids_def contained_def refs_from_def)

lemma add_edges_grows:
  "well_formed E st \<Longrightarrow> (\<And>e. e \<in> set es \<Longrightarrow> e_source e \<in> ids st \<and> e_target e \<in> ids st) \<Longrightarrow> grows E st (add_edges es st)"
  by (auto simp: grows_def well_formed_def add_edges_def ids_def contained_def)

lemma top_scope_in: "well_formed E st \<Longrightarrow> top_scope st = Some p \<Longrightarrow> p \<in> ids st"
  by (auto simp: well_formed_def top_scope_def split: list.splits if_splits)

lemma ids_nonempty: "well_formed E st \<Longrightarrow> i \<in> ids st \<Longrightarrow> i \<noteq> []"
  by (auto simp: well_formed_def ids_def)

lemma top_scope_some: "well_formed E st \<Longrightarrow> \<exists>p. top_scope st = Some p \<and> p \<in> ids st"
proof -
  assume wf: "well_formed E st"
  then obtain p up where "xs_stack st = p # up" "p \<in> ids st"
    by (cases "xs_stack st") (auto simp: well_formed_def)
  then show ?thesis
    using ids_nonempty [OF wf] by (simp add: top_scope_def)
qed

lemma from_top_grows: "well_formed E st \<Longrightarrow> (\<And>p. refs_from p (f p)) \<Longrightarrow> grows E st (from_top f st)"
  by (auto simp: from_top_def grows_refl intro: add_refs_grows top_scope_in split: option.split)

lemma new_node_simps [simp]:
  "n_name (new_node E kind name c extra st) = name"
  "n_kind (new_node E kind name c extra st) = kind"
  "n_filePath (new_node E kind name c extra st) = x_filePath E"
  "n_id (new_node E kind name c extra st) \<noteq> []"
  by (simp_all add: new_node_def generateNodeId_def)

lemma createNode_grows:
  assumes "well_formed E st" "createNode E kind name c extra st = (r, st')"
  shows "grows E st st'" "r = Some n \<Longrightarrow> n_id n \<in> ids st' \<and> n_name n = name"
proof -
  obtain p where p: "top_scope st = Some p" "p \<in> ids st"
    using top_scope_some [OF assms(1)] by blast
  show "grows E st st'"
    using assms p by (auto simp: createNode_def Let_def grows_def well_formed_def ids_def contained_def contains_edge_def split: if_splits)
  show "r = Some n \<Longrightarrow> n_id n \<in> ids st' \<and> n_name n = name"
    using assms(2) by (auto simp: createNode_def Let_def ids_def split: if_splits)
qed

lemma with_node_grows:
  assumes "well_formed E st" "\<And>i st'. well_formed E st' \<Longrightarrow> i \<in> ids st' \<Longrightarrow> grows E st' (f i st')"
  shows "grows E st (with_node E kind name c extra f st)"
proof (cases "createNode E kind name c extra st")
  case (Pair r st')
  show ?thesis
  proof (cases r)
    case None
    then show ?thesis
      using Pair createNode_grows(1) [OF assms(1) Pair] by (simp add: with_node_def)
  next
    case (Some n)
    have "grows E st' (f (n_id n) st')"
      using createNode_grows [OF assms(1) Pair] Some assms(2) grows_wf by blast
    then show ?thesis
      using Pair Some grows_trans [OF createNode_grows(1) [OF assms(1) Pair]] by (simp add: with_node_def)
  qed
qed

lemma create_grows: "well_formed E st \<Longrightarrow> grows E st (create E kind name c extra st)"
  unfolding create_def by (rule with_node_grows) (simp_all add: grows_refl)

lemma push_wf: "well_formed E st \<Longrightarrow> i \<in> ids st \<Longrightarrow> well_formed E (push_scope i st)"
  by (auto simp: well_formed_def push_scope_def ids_def contained_def)

lemma in_scope_grows:
  assumes "well_formed E st" "i \<in> ids st" "keeps E f"
  shows "grows E st (in_scope i f st)"
proof -
  have "grows E (push_scope i st) (f (push_scope i st))"
    using assms push_wf keepsD by blast
  then show ?thesis
    using assms(1) by (auto simp: in_scope_def grows_def pop_scope_def push_scope_def well_formed_def ids_def contained_def)
qed

text \<open>References first, then the body in the scope of the node.\<close>

lemma refs_then_scope:
  "well_formed E st \<Longrightarrow> i \<in> ids st \<Longrightarrow> refs_from i rs \<Longrightarrow> keeps E f \<Longrightarrow> grows E st (in_scope i f (add_refs rs st))"
  by (rule grows_then [OF add_refs_grows]) (auto intro: in_scope_grows grows_ids [OF add_refs_grows])

lemma with_refs_grows:
  "well_formed E st \<Longrightarrow> (\<And>i. refs_from i (f i)) \<Longrightarrow> grows E st (with_node E kind name c x (\<lambda>i. add_refs (f i)) st)"
  by (intro with_node_grows add_refs_grows) simp_all

lemma if_grows: "(b \<Longrightarrow> grows E st x) \<Longrightarrow> (\<not> b \<Longrightarrow> grows E st y) \<Longrightarrow> grows E st (if b then x else y)"
  by simp

lemmas growth = add_refs_grows from_top_grows with_node_grows create_grows in_scope_grows refs_then_scope fold_grows
  grows_refl

section \<open>Declarations\<close>

text \<open>Two visitors that keep the invariant.\<close>

locale visitors =
  fixes E :: x_env and vn vb :: visitor
  assumes vn: "keeps E (vn c)" and vb: "keeps E (vb c)"
begin

lemma visit_all_grows: "well_formed E st \<Longrightarrow> grows E st (visit_all vn c st)"
  unfolding visit_all_def by (rule fold_grows) (auto intro: keepsD vn)

lemma visit_all_keeps: "keeps E (visit_all vn c)"
  by (rule keepsI) (rule visit_all_grows)

lemma visit_all_body_grows: "well_formed E st \<Longrightarrow> grows E st (visit_all vb c st)"
  unfolding visit_all_def by (rule fold_grows) (auto intro: keepsD vb)

lemma visit_body_grows: "well_formed E st \<Longrightarrow> grows E st (visit_body E vb c st)"
  using vb by (auto simp: keeps_def visit_body_def grows_refl split: option.split)

lemma callable_body_grows: "well_formed E st \<Longrightarrow> i \<in> ids st \<Longrightarrow> grows E st (callable_body E vb c i st)"
  unfolding callable_body_def by (rule refs_then_scope) (simp_all add: emitted keepsI visit_body_grows)

lemma owner_edge_in: "i \<in> ids st \<Longrightarrow> \<forall>e\<in>set (owner_edge E r i st). e_source e \<in> ids st \<and> e_target e \<in> ids st"
  unfolding owner_edge_def by (auto simp: contains_edge_def ids_def dest: find_in [OF sym] split: option.split)

lemma method_body_grows:
  assumes "well_formed E st" "i \<in> ids st"
  shows "grows E st (callable_body E vb c i (add_edges (owner_edge E r i st) st))"
proof -
  have "grows E st (add_edges (owner_edge E r i st) st)"
    using assms using owner_edge_in by (intro add_edges_grows) blast+
  then show ?thesis
    using callable_body_grows grows_ids grows_then assms by meson
qed

lemma method_core_grows: "well_formed E st \<Longrightarrow> grows E st (method_core E vb c st)"
  unfolding method_core_def Let_def by (auto intro: visit_body_grows with_node_grows method_body_grows)

lemma function_core_grows: "well_formed E st \<Longrightarrow> grows E st (function_core E vb n c st)"
  unfolding function_core_def Let_def by (auto intro: visit_body_grows with_node_grows callable_body_grows)

lemma extractFunction_grows: "well_formed E st \<Longrightarrow> grows E st (extractFunction E vb n c st)"
  unfolding extractFunction_def by (simp add: method_core_grows function_core_grows)

lemma extractMethod_grows: "well_formed E st \<Longrightarrow> grows E st (extractMethod E vb c st)"
  unfolding extractMethod_def
  by (auto intro: visit_body_grows extractFunction_grows method_core_grows split: option.split)

lemma extractClass_grows: "well_formed E st \<Longrightarrow> grows E st (extractClass E vn kind c st)"
  unfolding extractClass_def by (intro with_node_grows refs_then_scope visit_all_keeps) (simp_all add: emitted)

lemma extractInterface_grows: "well_formed E st \<Longrightarrow> grows E st (extractInterface E vn c st)"
  unfolding extractInterface_def by (intro with_node_grows refs_then_scope visit_all_keeps) (simp_all add: emitted)

lemma extractStruct_grows: "well_formed E st \<Longrightarrow> grows E st (extractStruct E vn c st)"
  unfolding extractStruct_def
  by (auto intro!: with_node_grows refs_then_scope visit_all_keeps simp: emitted grows_refl split: option.split)

lemma extractEnumMembers_grows: "well_formed E st \<Longrightarrow> grows E st (extractEnumMembers E c st)"
  unfolding extractEnumMembers_def Let_def by (auto intro!: create_grows fold_grows split: option.split)

lemma visit_members_grows: "well_formed E st \<Longrightarrow> grows E st (visit_members E vn c st)"
  unfolding visit_members_def by (rule fold_grows) (auto intro: extractEnumMembers_grows keepsD vn)

lemma extractEnum_grows: "well_formed E st \<Longrightarrow> grows E st (extractEnum E vn c st)"
  unfolding extractEnum_def
  by (auto intro!: with_node_grows refs_then_scope keepsI visit_members_grows simp: emitted grows_refl split: option.split)

lemma extractAnonymousClass_grows: "well_formed E st \<Longrightarrow> grows E st (extractAnonymousClass E vn c b st)"
  unfolding extractAnonymousClass_def by (intro with_node_grows refs_then_scope visit_all_keeps) (simp_all add: emitted)

lemma extractClassified_grows: "well_formed E st \<Longrightarrow> grows E st (extractClassified E vn c st)"
  unfolding extractClassified_def
  by (auto intro: extractStruct_grows extractEnum_grows extractInterface_grows extractClass_grows split: class_kind.split)

lemma extractProperty_grows: "well_formed E st \<Longrightarrow> grows E st (extractProperty E c st)"
  unfolding extractProperty_def Let_def by (intro with_node_grows add_refs_grows) (simp_all add: emitted)

lemma php_field_grows: "well_formed E st \<Longrightarrow> grows E st (php_field E c d st)"
  unfolding php_field_def Let_def by (auto intro: create_grows grows_refl split: option.split)

lemma declared_field_grows: "well_formed E st \<Longrightarrow> grows E st (declared_field E c d st)"
  unfolding declared_field_def Let_def
  by (auto intro!: with_refs_grows simp: grows_refl emitted split: option.split)

lemma plain_field_grows: "well_formed E st \<Longrightarrow> grows E st (plain_field E c st)"
  unfolding plain_field_def by (auto intro: create_grows grows_refl split: option.split)

lemma extractField_grows: "well_formed E st \<Longrightarrow> grows E st (extractField E c st)"
  unfolding extractField_def Let_def
  by (simp add: fold_grows php_field_grows declared_field_grows plain_field_grows)

section \<open>Variables and aliases\<close>

lemma object_function_grows: "well_formed E st \<Longrightarrow> grows E st (object_function E vb c st)"
  unfolding object_function_def by (auto intro: extractFunction_grows grows_refl split: option.split)

lemma extractObjectLiteralFunctions_grows: "well_formed E st \<Longrightarrow> grows E st (extractObjectLiteralFunctions E vb c st)"
  unfolding extractObjectLiteralFunctions_def by (intro fold_grows object_function_grows)

lemma walk_initializer_grows:
  assumes "well_formed E st"
  shows "grows E st (walk_initializer E vb x v st)"
proof -
  have obj: "grows E st1 (case m of None \<Rightarrow> st1 | Some obj \<Rightarrow> extractObjectLiteralFunctions E vb obj st1)"
    if "well_formed E st1" for st1 m
    using that extractObjectLiteralFunctions_grows by (simp add: grows_refl split: option.split)
  have "grows E st (if b then vb v st else st)" for b
    using assms keepsD [OF vb] by (simp add: grows_refl)
  then show ?thesis
    unfolding walk_initializer_def Let_def using grows_then obj by meson
qed

lemma ts_declared_grows: "well_formed E st \<Longrightarrow>
    grows E st (with_node E kind name d x (\<lambda>i. add_refs (extractVariableTypeAnnotation E i d)) st)"
  by (intro with_refs_grows) (simp_all add: emitted)

lemma ts_declarator_grows: "well_formed E st \<Longrightarrow> grows E st (ts_declarator E vb kind c d st)"
  unfolding ts_declarator_def
  using grows_then [OF ts_declared_grows walk_initializer_grows]
  by (auto simp: grows_refl extractFunction_grows ts_declared_grows split: option.split)

lemma go_spec_walk:
  assumes "grows E st (snd created)" "\<And>n. fst created = Some n \<Longrightarrow> n_id n \<in> ids (snd created)"
  shows "grows E st (case (v, created) of (None, _, st1) \<Rightarrow> st1 | (Some x, None, st1) \<Rightarrow> vb x st1
      | (Some x, Some n, st1) \<Rightarrow> in_scope (n_id n) (vb x) st1)"
  using assms(2) grows_then [OF assms(1)] assms(1) keepsD [OF vb] in_scope_grows vb
  by (auto split: option.split prod.split)

lemma go_spec_grows:
  assumes "well_formed E st"
  shows "grows E st (go_spec E vb c d st)"
proof -
  let ?C = "\<lambda>r. grows E st (snd r) \<and> (\<forall>n. fst r = Some n \<longrightarrow> n_id n \<in> ids (snd r))"
  have created: "?C (createNode E kind name e x st)" for kind name e x
    using createNode_grows [OF assms prod.collapse [symmetric], of kind name e x] by simp
  have "?C (case n of Some n \<Rightarrow> if type_of n = ''identifier'' then createNode E kind (name n) e x st else (None, st)
      | None \<Rightarrow> (None, st))" for n kind name e x
    using created assms by (simp add: grows_refl split: option.split)
  note started = this
  show ?thesis
    unfolding go_spec_def Let_def
    by (rule go_spec_walk, rule started [THEN conjunct1], rule started [THEN conjunct2, rule_format])
qed

lemma single_variables_grow:
  assumes "well_formed E st"
  shows "grows E st (assigned_variable E kind c st)" "grows E st (go_short_variables E c st)"
    "grows E st (lua_variables E kind c st)" "grows E st (other_variable E kind c d st)"
  using assms
  by (auto simp: assigned_variable_def go_short_variables_def lua_variables_def other_variable_def Let_def grows_refl
      create_grows intro!: fold_grows split: option.split)

lemma extractVariable_grows: "well_formed E st \<Longrightarrow> grows E st (extractVariable E vb c st)"
proof -
  assume wf: "well_formed E st"
  have "grows E st (fold (go_spec E vb c) xs st)" "grows E st (fold (ts_declarator E vb k c) xs st)"
    "grows E st (fold (other_variable E k c) xs st)" for xs k
    using wf by (auto intro!: fold_grows go_spec_grows ts_declarator_grows single_variables_grow)
  note folds = this
  show ?thesis
    unfolding extractVariable_def Let_def
    by (intro if_grows folds single_variables_grow [OF wf] grows_then [OF folds(1) single_variables_grow(2)])
qed

lemma create_refs_grows:
  assumes "well_formed E st" "i \<in> ids st" "refs_from i rs"
  shows "grows E st (add_refs rs (create E kind n c x st))"
proof -
  note made = create_grows [OF assms(1), of kind n c x]
  show ?thesis
    using grows_trans [OF made add_refs_grows [OF grows_wf [OF made] assms(3) grows_ids [OF made assms(2)]]] .
qed

lemma alias_member_grows: "well_formed E st \<Longrightarrow> i \<in> ids st \<Longrightarrow> grows E st (alias_member E i n k st)"
  unfolding alias_member_def Let_def by (intro if_grows grows_refl create_refs_grows [where i = i]) (simp_all add: emitted)

text \<open>A scope whose work needs its node: the node stays known while the work goes on.\<close>

lemma scoped_fold_grows:
  assumes "well_formed E st" "i \<in> ids st"
    "\<And>x st. x \<in> set xs \<Longrightarrow> well_formed E st \<Longrightarrow> i \<in> ids st \<Longrightarrow> grows E st (f x st)"
  shows "grows E st (in_scope i (fold f xs) st)"
proof -
  have known: "well_formed E s \<Longrightarrow> i \<in> ids s \<Longrightarrow> grows E s (fold f xs s)" for s
    using assms(3)
  proof (induction xs arbitrary: s)
    case (Cons x xs)
    have one: "grows E s (f x s)"
      using Cons.prems by simp
    show ?case
      using grows_trans [OF one Cons.IH [OF grows_wf [OF one] grows_ids [OF one]]] Cons.prems by simp
  qed (simp add: grows_refl)
  have "grows E (push_scope i st) (fold f xs (push_scope i st))"
    using known [of "push_scope i st"] push_wf [OF assms(1,2)] assms(2) by (simp add: push_scope_def ids_def)
  then show ?thesis
    using assms(1) by (auto simp: in_scope_def grows_def pop_scope_def push_scope_def well_formed_def ids_def contained_def)
qed

lemma extractTsTypeAliasMembers_grows:
  "well_formed E st \<Longrightarrow> i \<in> ids st \<Longrightarrow> grows E st (extractTsTypeAliasMembers E i n v st)"
  unfolding extractTsTypeAliasMembers_def by (intro scoped_fold_grows alias_member_grows)

lemma contract_entry_grows: "well_formed E st \<Longrightarrow> grows E st (contract_entry E n e st)"
  unfolding contract_entry_def by (auto intro!: fold_grows create_grows grows_refl split: option.split)

lemma extractTsTupleContractNames_grows:
  "well_formed E st \<Longrightarrow> i \<in> ids st \<Longrightarrow> grows E st (extractTsTupleContractNames E i n v st)"
  unfolding extractTsTupleContractNames_def by (intro scoped_fold_grows contract_entry_grows)

lemma extractGoInterfaceMethods_grows:
  "well_formed E st \<Longrightarrow> i \<in> ids st \<Longrightarrow> grows E st (extractGoInterfaceMethods E i c st)"
  unfolding extractGoInterfaceMethods_def go_interface_method_def
  by (intro scoped_fold_grows) (auto intro: create_grows grows_refl split: option.split)

lemma alias_bodies_grow:
  assumes "well_formed E st" "i \<in> ids st"
  shows "grows E st (alias_struct E vn c i st)" "grows E st (alias_enum E vn c i st)"
    "grows E st (alias_interface E c i st)" "grows E st (alias_value E n c i st)"
proof -
  have inh: "grows E st (add_refs (extractInheritance E i t) st)" for t
    using assms by (intro add_refs_grows) (simp_all add: emitted)
  have subtree: "grows E st (add_refs (extractTypeRefsFromSubtree E i t) st)" for t
    using assms by (intro add_refs_grows) (simp_all add: emitted)
  show "grows E st (alias_struct E vn c i st)"
    unfolding alias_struct_def using assms
    by (auto intro!: refs_then_scope visit_all_keeps simp: grows_refl emitted split: option.split)
  show "grows E st (alias_enum E vn c i st)"
    unfolding alias_enum_def Let_def using assms inh
    by (auto intro!: refs_then_scope keepsI visit_members_grows simp: grows_refl emitted split: option.split)
  show "grows E st (alias_interface E c i st)"
    unfolding alias_interface_def Let_def
    using assms inh grows_then [OF inh extractGoInterfaceMethods_grows] grows_ids [OF inh]
    by (simp add: grows_refl split: option.split)
  have members: "grows E st (extractTsTupleContractNames E i n v
      (extractTsTypeAliasMembers E i n v (add_refs (extractTypeRefsFromSubtree E i v) st)))" for v
  proof -
    note g1 = subtree [of v]
    note g2 = grows_trans [OF g1 extractTsTypeAliasMembers_grows [OF grows_wf [OF g1] grows_ids [OF g1 assms(2)], of n v]]
    show ?thesis
      using grows_trans [OF g2 extractTsTupleContractNames_grows [OF grows_wf [OF g2] grows_ids [OF g2 assms(2)]]] .
  qed
  show "grows E st (alias_value E n c i st)"
    unfolding alias_value_def Let_def using assms subtree members by (simp add: grows_refl split: option.split)
qed

lemma extractTypeAlias_grows: "well_formed E st \<Longrightarrow> grows E st (snd (extractTypeAlias E vn c st))"
  unfolding extractTypeAlias_def Let_def
  by (simp add: grows_refl with_node_grows alias_bodies_grow)

section \<open>Anonymous classes and the cases of the visitors\<close>

lemma instantiation_step_grows: "well_formed E st \<Longrightarrow> grows E st (snd (instantiation_step E vn c st))"
proof -
  assume wf: "well_formed E st"
  have "grows E st (from_top (\<lambda>p. extractInstantiation E p c) st)"
    using wf by (intro from_top_grows) (simp_all add: emitted)
  then show ?thesis
    unfolding instantiation_step_def Let_def
    using grows_then extractAnonymousClass_grows by (auto split: option.split)
qed

lemma dispatch_declaration_grows:
  "well_formed E st \<Longrightarrow> dispatch_declaration E vn vb c st = Some r \<Longrightarrow> grows E st (snd r)"
  unfolding dispatch_declaration_def Let_def
  by (auto intro: extractFunction_grows extractMethod_grows extractClassified_grows extractClass_grows extractInterface_grows
      extractStruct_grows extractEnum_grows extractTypeAlias_grows extractProperty_grows extractField_grows
      extractVariable_grows split: if_splits)

end

section \<open>Imports\<close>

lemma create_top_grows:
  assumes "well_formed E st" "\<And>p. refs_from p (f p)"
  shows "grows E st (from_top f (create E kind n c x st))"
proof -
  note made = create_grows [OF assms(1), of kind n c x]
  show ?thesis
    by (rule grows_trans [OF made from_top_grows [OF grows_wf [OF made] assms(2)]])
qed

lemma import_parts_grow:
  assumes "well_formed E st"
  shows "grows E st (import_hook_result E c info st)" "grows E st (python_import E c d st)"
    "grows E st (go_importing E c st)" "grows E st (php_import E c pre d st)" "grows E st (unhandled_import E c st)"
proof -
  show "grows E st (import_hook_result E c info st)"
    unfolding import_hook_result_def using assms by (intro create_top_grows) (simp_all add: emitted)
  show "grows E st (python_import E c d st)"
    unfolding python_import_def using assms by (auto intro!: create_top_grows simp: emitted grows_refl split: option.split)
  show "grows E st (go_importing E c st)"
    unfolding go_importing_def Let_def using assms by (auto intro!: create_top_grows simp: emitted grows_refl split: option.split)
  show "grows E st (php_import E c pre d st)"
    unfolding php_import_def Let_def using assms by (auto intro!: create_top_grows simp: emitted grows_refl split: option.split)
  show "grows E st (unhandled_import E c st)"
    unfolding unhandled_import_def using assms by (simp add: grows_refl create_grows)
qed

lemma extractImport_grows: "well_formed E st \<Longrightarrow> grows E st (extractImport E c st)"
proof -
  assume wf: "well_formed E st"
  have folds: "grows E st (fold (python_import E c) xs st)" "grows E st (fold (go_importing E) xs st)"
    "grows E st (fold (php_import E c pre) xs st)" for xs pre
    using wf by (auto intro!: fold_grows import_parts_grow)
  show ?thesis
    unfolding extractImport_def using folds import_parts_grow [OF wf] by (simp split: option.split bool.split)
qed

section \<open>Pascal\<close>

lemma map_set_values: "snd ` set (map_set a b m) \<subseteq> insert b (snd ` set m)"
  by (induction m) auto

lemma map_set_all_values: "snd ` set (fold (\<lambda>j. map_set (f j) b) js m) \<subseteq> insert b (snd ` set m)"
proof (induction js arbitrary: m)
  case (Cons j js)
  then show ?case using Cons.IH [of "map_set (f j) b m"] map_set_values [of "f j" b m] by auto
qed auto

lemma index_method_values: "snd ` set (index_method n m) \<subseteq> insert (n_id n) (snd ` set m)"
proof -
  let ?m1 = "if map_has m (to_lower (n_name n)) then m else map_set (to_lower (n_name n)) (n_id n) m"
  have "snd ` set ?m1 \<subseteq> insert (n_id n) (snd ` set m)"
    by (simp add: subset_insertI map_set_values)
  moreover have "snd ` set (index_method n m) \<subseteq> insert (n_id n) (snd ` set ?m1) \<or> index_method n m = m"
    by (simp add: index_method_def Let_def subset_insertI map_set_all_values)
  ultimately show ?thesis
    by (elim disjE) (blast, simp add: subset_insertI)
qed

lemma build_method_index_values: "snd ` set (fold index_method ns m) \<subseteq> n_id ` set ns \<union> snd ` set m"
proof (induction ns arbitrary: m)
  case (Cons n ns)
  show ?case using Cons.IH [of "index_method n m"] index_method_values [of n m] by simp blast
qed auto

lemma method_index_known:
  assumes "well_formed E st" "(k, i) \<in> set (method_index st)"
  shows "i \<in> ids st"
proof (cases "xs_methodIndex st")
  case None
  then have "i \<in> snd ` set (fold index_method (xs_nodes st) [])"
    using assms(2) by (force simp: method_index_def build_method_index_def)
  then show ?thesis
    using build_method_index_values [of "xs_nodes st" "[]"] by (auto simp: ids_def)
qed (use assms in \<open>auto simp: well_formed_def method_index_def\<close>)

lemma set_index_grows: "well_formed E st \<Longrightarrow> grows E st (st\<lparr>xs_methodIndex := Some (method_index st)\<rparr>)"
  using method_index_known [of E st] by (auto simp: grows_def well_formed_def ids_def contained_def)

lemma extractPascalDefProc_grows:
  assumes wf: "well_formed E st"
  shows "grows E st (extractPascalDefProc E c st)"
proof -
  note one = set_index_grows [OF wf]
  let ?st = "st\<lparr>xs_methodIndex := Some (method_index st)\<rparr>"
  have known: "p \<in> ids ?st" if "given_or (truthy (map_get (method_index st) a))
      (given_or (truthy (map_get (method_index st) b)) (top_scope ?st)) = Some p" for a b p
    using that method_index_known [OF wf] top_scope_in [OF grows_wf [OF one]]
    by (auto simp: given_or_def truthy_def ids_def dest!: map_of_SomeD split: option.splits if_splits)
  have block: "keeps E (visitPascalBlock E b)" for b
    by (rule keepsI) (simp add: visitPascalBlock_def from_top_grows emitted)
  have "grows E st (in_scope p (visitPascalBlock E b) ?st)" if "p \<in> ids ?st" for p b
    by (rule grows_trans [OF one in_scope_grows [OF grows_wf [OF one] that block]])
  then show ?thesis
    unfolding extractPascalDefProc_def Let_def using one wf known by (auto simp: grows_refl split: option.split)
qed

context visitors
begin

lemma extractPascalDeclType_grows: "well_formed E st \<Longrightarrow> grows E st (extractPascalDeclType E vn c st)"
proof -
  assume wf: "well_formed E st"
  have members: "well_formed E s \<Longrightarrow> grows E s (fold (pascal_enum_member E) xs s)" for s xs
    unfolding pascal_enum_member_def by (auto intro!: fold_grows create_grows grows_refl split: option.split)
  show ?thesis
    unfolding extractPascalDeclType_def Let_def using wf
    by (auto intro!: with_node_grows refs_then_scope in_scope_grows visit_all_keeps create_grows keepsI members
        simp: grows_refl emitted split: option.split)
qed

lemma pascal_leaves_grow:
  assumes "well_formed E st"
  shows "grows E st (extractPascalUses E c st)" "grows E st (extractPascalConst E c st)"
    "grows E st (pascal_declared E kind x c st)" "grows E st (extractPascalCall E c st)"
    "grows E st (visitPascalBlock E c st)"
  using assms
  by (auto simp: extractPascalUses_def pascal_use_def extractPascalConst_def pascal_declared_def extractPascalCall_def
      visitPascalBlock_def grows_refl emitted intro!: fold_grows create_top_grows from_top_grows create_grows split: option.split)

lemma visitPascalNode_grows:
  assumes "well_formed E st" "visitPascalNode E vn c st = Some st'"
  shows "grows E st st'"
proof -
  have folds: "grows E st (fold (extractPascalConst E) xs st)" "grows E st (fold (pascal_declared E k x) xs st)" for xs k x
    using assms(1) by (auto intro!: fold_grows pascal_leaves_grow)
  have unit: "grows E st (visit_all vn c (create E k n d x st))" for k n d x
    using grows_then [OF create_grows visit_all_grows] assms(1) by blast
  show ?thesis
    using assms(2) folds unit visit_all_grows [OF assms(1)] extractPascalDeclType_grows [OF assms(1)]
      pascal_leaves_grow [OF assms(1)] extractPascalDefProc_grows [OF assms(1)]
    by (auto simp: visitPascalNode_def Let_def split: if_splits)
qed

section \<open>The steps\<close>

lemma extractRustImplItem_grows: "well_formed E st \<Longrightarrow> grows E st (add_refs (extractRustImplItem E c st) st)"
proof -
  assume wf: "well_formed E st"
  have known: "findNodeByName n st = Some i \<Longrightarrow> i \<in> ids st" for n i
    by (auto simp: findNodeByName_def ids_def dest: find_in)
  have "\<exists>i. i \<in> ids st \<and> refs_from i (extractRustImplItem E c st)"
    using known top_scope_some [OF wf]
    by (fastforce simp: extractRustImplItem_def Let_def truthy_def emitted split: option.splits if_splits)
  then show ?thesis
    using add_refs_grows [OF wf] by blast
qed

lemma dispatch_reference_grows: "well_formed E st \<Longrightarrow> grows E st (snd (dispatch_reference E vn c st))"
proof -
  assume wf: "well_formed E st"
  have tops: "grows E st (from_top (swift_property_refs E c) st)" "grows E st (from_top (\<lambda>p. emitReExportRefs E p c) st)"
    "grows E st (from_top (\<lambda>p. extractCall E p c) st)" "grows E st (from_top (\<lambda>p. extractTypeAnnotations E p c) st)"
    using wf by (auto intro!: from_top_grows from_rules simp: swift_property_refs_def emitted)
  show ?thesis
    unfolding dispatch_reference_def Let_def
    using tops wf extractImport_grows [OF wf] instantiation_step_grows [OF wf] extractRustImplItem_grows [OF wf]
    by (simp add: grows_refl)
qed

lemma visit_default_grows: "well_formed E st \<Longrightarrow> grows E st (visit_default E vn vb c st)"
proof -
  assume wf: "well_formed E st"
  have "grows E st (snd (dispatch_node E vn vb c st))"
    unfolding dispatch_node_def
    using dispatch_declaration_grows [OF wf] dispatch_reference_grows [OF wf] by (simp split: option.split)
  then show ?thesis
    unfolding visit_default_def using grows_then visit_all_grows by (auto split: prod.split)
qed

lemma visit_step_grows:
  assumes "well_formed E st" "grows E st (snd (le_visitNode (x_extractor E) (makeExtractorContext E vn vb) c st))"
  shows "grows E st (visit_step E vn vb c st)"
  using assms(2) grows_then [OF assms(2)] visit_default_grows visitPascalNode_grows
  by (auto simp: visit_step_def split: prod.split bool.split option.split)

lemma body_structure_grows: "well_formed E st \<Longrightarrow> grows E st (body_structure E vn vb c st)"
  unfolding body_structure_def Let_def
  by (simp add: extractFunction_grows extractClassified_grows extractStruct_grows extractEnum_grows extractInterface_grows
      visit_all_body_grows)

lemma body_step_grows: "well_formed E st \<Longrightarrow> grows E st (body_step E vn vb c st)"
proof -
  assume wf: "well_formed E st"
  have macro: "grows E st (if t then from_top (\<lambda>p. extractRustRouteMacro E p c) st else st)" for t
    using wf by (simp add: from_top_grows emitted grows_refl)
  have calls: "grows E s (snd (body_calls E vn c s))" if "well_formed E s" for s
    unfolding body_calls_def using that instantiation_step_grows
    by (auto intro!: from_top_grows simp: emitted split: option.split)
  have own: "grows E s (from_top (body_refs E c) s)" if "well_formed E s" for s
    using that by (intro from_top_grows) (simp_all add: body_refs_def emitted)
  let ?st1 = "if type_of c = ''macro_invocation'' then from_top (\<lambda>p. extractRustRouteMacro E p c) st else st"
  obtain b s2 where two: "body_calls E vn c ?st1 = (b, s2)"
    by fastforce
  then have "grows E st s2"
    using grows_then [OF macro calls] by (metis snd_conv)
  then have "grows E st (if b then s2 else body_structure E vn vb c (from_top (body_refs E c) s2))"
    using grows_then [OF _ grows_then [OF own body_structure_grows]] by simp
  then show ?thesis
    unfolding body_step_def Let_def two by (cases b) simp_all
qed

end

section \<open>The visitors\<close>

text \<open>The contract of a language hook: with visitors that keep the invariant, the hook keeps it.\<close>

locale language_hook =
  fixes E :: x_env
  assumes hook: "visitors E vn vb \<Longrightarrow> well_formed E st \<Longrightarrow>
      grows E st (snd (le_visitNode (x_extractor E) (makeExtractorContext E vn vb) c st))"
begin

lemma levels_keep: "keeps E (visit_levels n E b c)"
proof (induction n arbitrary: b c)
  case 0
  then show ?case by (simp add: keeps_def grows_refl)
next
  case (Suc n)
  then have v: "visitors E (visit_levels n E True) (visit_levels n E False)"
    by unfold_locales
  show ?case
    by (rule keepsI) (simp add: visitors.visit_step_grows [OF v _ hook [OF v]] visitors.body_step_grows [OF v])
qed

lemma visitNode_grows: "well_formed E st \<Longrightarrow> grows E st (visitNode E c st)"
  unfolding visitNode_def by (rule keepsD [OF levels_keep])

lemma visitFunctionBody_grows: "well_formed E st \<Longrightarrow> grows E st (visitFunctionBody E c st)"
  unfolding visitFunctionBody_def by (rule keepsD [OF levels_keep])

end

end
