(* ===== verification/LangScript.thy ===== *)
theory LangScript
  imports ExtractVisit
begin

text \<open>
  The configurations of the scripting languages (\<open>extraction/languages/\<close>): TypeScript, JavaScript, Python,
  Lua, Luau, Ruby and PHP, and the helpers shared by all languages. A configuration takes the text that the
  tree was parsed from, which \<open>text\<close> of a syntax node reads.
\<close>

section \<open>Shared helpers\<close>

definition has_child :: "string \<Rightarrow> cursor \<Rightarrow> bool" where
  "has_child t c \<longleftrightarrow> list_ex (\<lambda>k. type_of k = t) (all_children c)"

primrec ancestors_of :: "(nat \<times> snode) list \<Rightarrow> cursor list" where
  "ancestors_of [] = []"
| "ancestors_of (s # up) = Cursor (snd s) up # ancestors_of up"

definition ancestors :: "cursor \<Rightarrow> cursor list" where
  "ancestors c = ancestors_of (way_up c)"

definition previousSibling :: "cursor \<Rightarrow> cursor option" where
  "previousSibling c =
     (case way_up c of [] \<Rightarrow> None | (i, p) # up \<Rightarrow> if i = 0 then None else Some (child_at (Cursor p up) (i - 1)))"

definition nextSibling :: "cursor \<Rightarrow> cursor option" where
  "nextSibling c =
     (case way_up c of
        [] \<Rightarrow> None
      | (i, p) # up \<Rightarrow> if i + 1 < length (sn_children p) then Some (child_at (Cursor p up) (i + 1)) else None)"

text \<open>The child that a modifier is read from, and the first of some words that its text contains.\<close>

definition child_text :: "string \<Rightarrow> string list \<Rightarrow> cursor \<Rightarrow> string list" where
  "child_text src types c = map (\<lambda>k. getNodeText k src) (filter (\<lambda>k. type_of k \<in> set types) (all_children c))"

definition word_in :: "(string \<times> 'a) list \<Rightarrow> string \<Rightarrow> 'a option" where
  "word_in table s = map_option snd (find (\<lambda>(w, v). str_includes s w) table)"

definition word_is :: "(string \<times> 'a) list \<Rightarrow> string \<Rightarrow> 'a option" where
  "word_is table s = map_of table s"

definition access_words :: "(string \<times> visibility) list" where
  "access_words = [(''public'', V_public), (''private'', V_private), (''protected'', V_protected)]"

definition identifier_like :: "string \<Rightarrow> bool" where
  "identifier_like s \<longleftrightarrow> s \<noteq> [] \<and> (is_upper (hd s) \<or> is_lower (hd s) \<or> hd s = CHR ''_'') \<and> list_all is_word s"

definition strip_brackets :: "char \<Rightarrow> char \<Rightarrow> string \<Rightarrow> string" where
  "strip_brackets a b s = re_replace (re_seq [re_chr a, Star (Cls (\<lambda>x. x \<noteq> b)), re_chr b]) [] s 0"

abbreviation strip_angles :: "string \<Rightarrow> string" where
  "strip_angles \<equiv> strip_brackets CHR ''<'' CHR ''>''"

abbreviation strip_squares :: "string \<Rightarrow> string" where
  "strip_squares \<equiv> strip_brackets CHR ''['' CHR '']''"

definition if_identifier :: "string \<Rightarrow> string option" where
  "if_identifier s = (if identifier_like s then Some s else None)"

definition last_dotted :: "string \<Rightarrow> string" where
  "last_dotted s = last (split_str ''.'' s)"

definition drop_quotes :: "string \<Rightarrow> string" where
  "drop_quotes s = filter (\<lambda>x. x \<noteq> CHR 0x27 \<and> x \<noteq> CHR 0x22) s"

definition import_of :: "string \<Rightarrow> cursor \<Rightarrow> string \<Rightarrow> import_info" where
  "import_of name c source = \<lparr>ii_moduleName = name, ii_signature = trim (getNodeText c source), ii_handledRefs = False\<rparr>"

text \<open>A signature made of the parameters and, after a mark, the return type.\<close>

definition arrow_signature :: "string \<Rightarrow> string \<Rightarrow> string \<Rightarrow> cursor \<Rightarrow> string \<Rightarrow> string option" where
  "arrow_signature paramsField mark returnField c source =
     map_option (\<lambda>params. getNodeText params source
         @ (case getChildByField c returnField of Some r \<Rightarrow> mark @ getNodeText r source | None \<Rightarrow> []))
       (getChildByField c paramsField)"

text \<open>A search through the descendants, breadth first, that does not enter some of them.\<close>

lemma children_sum: "sum_list (map (\<lambda>k. size (here k)) (namedChildren c)) < size (here c)"
proof -
  have le: "sum_list (map (size \<circ> snd) xs) \<le> size_list (size_prod (\<lambda>_. 0) size) xs" for xs :: "(string option \<times> snode) list"
    by (induction xs) (auto simp: size_prod_def split: prod.splits)
  have all: "map (\<lambda>k. size (here k)) (all_children c) = map (size \<circ> snd) (sn_children (here c))"
    by (rule nth_equalityI) (simp_all add: all_children_def child_at_def)
  have "sum_list (map (\<lambda>k. size (here k)) (namedChildren c)) \<le> sum_list (map (\<lambda>k. size (here k)) (all_children c))"
    unfolding namedChildren_def by (rule sum_list_filter_le_nat)
  also have "\<dots> < size (here c)"
    unfolding all using le [of "sn_children (here c)"]
    by (cases "here c") (auto simp: size_prod_def option.size_gen_o_map)
  finally show ?thesis .
qed

lemma filtered_sum: "sum_list (map f (filter P xs)) \<le> sum_list (map f xs)" for f :: "'a \<Rightarrow> nat"
  by (rule sum_list_filter_le_nat)

function breadth_first :: "(cursor \<Rightarrow> bool) \<Rightarrow> string list \<Rightarrow> cursor list \<Rightarrow> cursor option" where
  "breadth_first P skipped [] = None"
| "breadth_first P skipped (c # queue) =
     (if P c then Some c
      else breadth_first P skipped (queue @ filter (\<lambda>k. type_of k \<notin> set skipped) (namedChildren c)))"
  by pat_completeness auto
termination
  by (relation "measure (\<lambda>(P, s, q). sum_list (map (\<lambda>k. size (here k)) q))")
    (auto intro: le_less_trans [OF filtered_sum children_sum])

section \<open>TypeScript and JavaScript\<close>

text \<open>The function among the children of a class field, perhaps wrapped in a call.\<close>

definition field_function :: "cursor \<Rightarrow> cursor option" where
  "field_function c =
     first_some (\<lambda>k.
         if type_of k \<in> set function_values then Some k
         else if type_of k = ''call_expression''
         then Option.bind (getChildByField k ''arguments'') (child_of_type function_values)
         else None) (namedChildren c)"

definition script_resolveBody :: "string \<Rightarrow> cursor \<Rightarrow> string \<Rightarrow> cursor option" where
  "script_resolveBody fieldType c bodyField =
     (if type_of c = fieldType then Option.bind (field_function c) (\<lambda>f. getChildByField f bodyField) else None)"

definition ts_signature :: "cursor \<Rightarrow> string \<Rightarrow> string option" where
  "ts_signature c source =
     map_option (\<lambda>params. getNodeText params source
         @ (case getChildByField c ''return_type'' of
              Some r \<Rightarrow> '': '' @ (case getNodeText r source of x # t \<Rightarrow> if x = CHR '':'' then trim_start t else x # t | [] \<Rightarrow> [])
            | None \<Rightarrow> []))
       (getChildByField c ''parameters'')"

definition script_isExported :: "cursor \<Rightarrow> bool option" where
  "script_isExported c = Some (list_ex (\<lambda>p. type_of p = ''export_statement'') (ancestors c))"

definition script_isConst :: "cursor \<Rightarrow> bool option" where
  "script_isConst c = Some (type_of c = ''lexical_declaration'' \<and> has_child ''const'' c)"

definition script_import :: "cursor \<Rightarrow> string \<Rightarrow> import_info option" where
  "script_import c source =
     (case getChildByField c ''source'' of
        None \<Rightarrow> None
      | Some s \<Rightarrow> (let m = drop_quotes (getNodeText s source) in if m = [] then None else Some (import_of m c source)))"

definition typescriptExtractor :: "string \<Rightarrow> lang_extractor" where
  "typescriptExtractor src = plain_extractor\<lparr>
     le_functionTypes := [''function_declaration'', ''arrow_function'', ''function_expression''],
     le_classTypes := [''class_declaration'', ''abstract_class_declaration''],
     le_methodTypes := [''method_definition'', ''public_field_definition''],
     le_interfaceTypes := [''interface_declaration''],
     le_enumTypes := [''enum_declaration''],
     le_enumMemberTypes := [''property_identifier'', ''enum_assignment''],
     le_typeAliasTypes := [''type_alias_declaration''],
     le_importTypes := [''import_statement''],
     le_callTypes := [''call_expression''],
     le_variableTypes := [''lexical_declaration'', ''variable_declaration''],
     le_resolveBody := script_resolveBody ''public_field_definition'',
     le_returnField := Some ''return_type'',
     le_getSignature := ts_signature,
     le_getVisibility := (\<lambda>c. first_some (word_is access_words) (child_text src [''accessibility_modifier''] c)),
     le_isExported := (\<lambda>c _. script_isExported c),
     le_isAsync := (\<lambda>c. Some (has_child ''async'' c)),
     le_isStatic := (\<lambda>c. Some (has_child ''static'' c)),
     le_isConst := script_isConst,
     le_extractImport := Some script_import\<rparr>"

definition javascriptExtractor :: "string \<Rightarrow> lang_extractor" where
  "javascriptExtractor src = plain_extractor\<lparr>
     le_functionTypes := [''function_declaration'', ''arrow_function'', ''function_expression''],
     le_classTypes := [''class_declaration''],
     le_methodTypes := [''method_definition'', ''field_definition''],
     le_importTypes := [''import_statement''],
     le_callTypes := [''call_expression''],
     le_variableTypes := [''lexical_declaration'', ''variable_declaration''],
     le_resolveBody := script_resolveBody ''field_definition'',
     le_getSignature := (\<lambda>c source. map_option (\<lambda>p. getNodeText p source) (getChildByField c ''parameters'')),
     le_isExported := (\<lambda>c _. script_isExported c),
     le_isAsync := (\<lambda>c. Some (has_child ''async'' c)),
     le_isConst := script_isConst,
     le_extractImport := Some script_import\<rparr>"

section \<open>Python\<close>

definition python_import_hook :: "cursor \<Rightarrow> string \<Rightarrow> import_info option" where
  "python_import_hook c source =
     (case (if type_of c = ''import_from_statement'' then getChildByField c ''module_name'' else None) of
        None \<Rightarrow> None | Some m \<Rightarrow> Some (import_of (getNodeText m source) c source))"

definition pythonExtractor :: "string \<Rightarrow> lang_extractor" where
  "pythonExtractor src = plain_extractor\<lparr>
     le_functionTypes := [''function_definition''],
     le_classTypes := [''class_definition''],
     le_methodTypes := [''function_definition''],
     le_importTypes := [''import_statement'', ''import_from_statement''],
     le_callTypes := [''call''],
     le_variableTypes := [''assignment''],
     le_returnField := Some ''return_type'',
     le_getSignature := arrow_signature ''parameters'' '' -> '' ''return_type'',
     le_isAsync := (\<lambda>c. Some (case previousSibling c of Some p \<Rightarrow> type_of p = ''async'' | None \<Rightarrow> False)),
     le_isStatic := (\<lambda>c. Some (case previousNamedSibling c of
         Some p \<Rightarrow> type_of p = ''decorator'' \<and> str_includes (getNodeText p src) ''staticmethod'' | None \<Rightarrow> False)),
     le_extractImport := Some python_import_hook\<rparr>"

section \<open>Lua and Luau\<close>

definition findDescendant :: "string \<Rightarrow> cursor \<Rightarrow> cursor option" where
  "findDescendant t c = breadth_first (\<lambda>k. type_of k = t) [] (namedChildren c)"

text \<open>\<open>[[\<dots>]]\<close> and the quotes of a Lua string.\<close>

definition lua_string :: "string \<Rightarrow> string" where
  "lua_string text =
     (let s = trim text;
          s1 = (if starts_with s ''[['' then drop 2 s else s);
          s2 = (if ends_with s1 '']]'' then take (length s1 - 2) s1 else s1);
          quote = (\<lambda>x. x = CHR 0x27 \<or> x = CHR 0x22);
          s3 = (if s2 \<noteq> [] \<and> quote (hd s2) then tl s2 else s2)
      in if s3 \<noteq> [] \<and> quote (last s3) then butlast s3 else s3)"

definition required_instance :: "cursor \<Rightarrow> string \<Rightarrow> string option" where
  "required_instance args source =
     (case given_or (findDescendant ''dot_index_expression'' args) (findDescendant ''method_index_expression'' args) of
        None \<Rightarrow> None
      | Some idx \<Rightarrow>
          Option.bind (given_or (getChildByField idx ''field'') (getChildByField idx ''method''))
            (\<lambda>f. truthy (Some (trim (getNodeText f source)))))"

definition requireModule :: "cursor \<Rightarrow> string \<Rightarrow> string option" where
  "requireModule callNode source =
     (case (getChildByField callNode ''name'', getChildByField callNode ''arguments'') of
        (Some n, Some args) \<Rightarrow>
          if type_of n \<noteq> ''identifier'' \<or> getNodeText n source \<noteq> ''require'' then None
          else (case findDescendant ''string_content'' args of
                  Some content \<Rightarrow> truthy (Some (trim (getNodeText content source)))
                | None \<Rightarrow>
                    (case Option.bind (findDescendant ''string'' args) (\<lambda>s. truthy (Some (lua_string (getNodeText s source)))) of
                       Some m \<Rightarrow> Some m
                     | None \<Rightarrow> required_instance args source))
      | _ \<Rightarrow> None)"

definition lua_emit :: "extractor_context \<Rightarrow> cursor \<Rightarrow> ext_state \<Rightarrow> ext_state" where
  "lua_emit ctx callNode st =
     (case requireModule callNode (ctx_source ctx) of
        None \<Rightarrow> st
      | Some m \<Rightarrow>
          (case ctx_createNode ctx NK_import m callNode (signed (take 100 (trim (getNodeText callNode (ctx_source ctx))))) st of
             (None, st') \<Rightarrow> st'
           | (Some imp, st') \<Rightarrow> from_top (\<lambda>p. [ref_at p m EK_imports callNode]) st'))"

definition lua_visit :: "extractor_context \<Rightarrow> cursor \<Rightarrow> ext_state \<Rightarrow> bool \<times> ext_state" where
  "lua_visit ctx c st =
     (if type_of c = ''function_call''
      then (if requireModule c (ctx_source ctx) \<noteq> None then (True, lua_emit ctx c st) else (False, st))
      else if type_of c = ''variable_declaration''
      then (False, (case Option.bind (child_of_type [''assignment_statement''] c) (child_of_type [''expression_list'']) of
                      None \<Rightarrow> st
                    | Some l \<Rightarrow> fold (lua_emit ctx) (filter (\<lambda>k. type_of k = ''function_call'') (namedChildren l)) st))
      else (False, st))"

definition lua_receiver :: "cursor \<Rightarrow> string \<Rightarrow> string option" where
  "lua_receiver c source =
     (case getChildByField c ''name'' of
        None \<Rightarrow> None
      | Some n \<Rightarrow>
          if type_of n = ''dot_index_expression'' \<or> type_of n = ''method_index_expression''
          then map_option (\<lambda>t. getNodeText t source) (getChildByField n ''table'') else None)"

definition luaExtractor :: "string \<Rightarrow> lang_extractor" where
  "luaExtractor src = plain_extractor\<lparr>
     le_functionTypes := [''function_declaration''],
     le_callTypes := [''function_call''],
     le_variableTypes := [''variable_declaration''],
     le_getSignature := (\<lambda>c source. map_option (\<lambda>p. getNodeText p source) (getChildByField c ''parameters'')),
     le_getReceiverType := lua_receiver,
     le_visitNode := lua_visit\<rparr>"

definition luau_signature :: "cursor \<Rightarrow> string \<Rightarrow> string option" where
  "luau_signature c source =
     map_option (\<lambda>params. getNodeText params source
         @ (case drop 1 (dropWhile (\<lambda>k. sn_startIndex (here k) \<noteq> sn_startIndex (here params)) (namedChildren c)) of
              ret # _ \<Rightarrow> if type_of ret = ''block'' then [] else '': '' @ getNodeText ret source
            | [] \<Rightarrow> []))
       (getChildByField c ''parameters'')"

definition luauExtractor :: "string \<Rightarrow> lang_extractor" where
  "luauExtractor src = (luaExtractor src)\<lparr>
     le_typeAliasTypes := [''type_definition''],
     le_isExported := (\<lambda>c source. Some (slice (sn_startIndex (here c)) (sn_startIndex (here c) + 7) source = ''export '')),
     le_getSignature := luau_signature\<rparr>"

end
