(* ===== verification/LangDynamic.thy ===== *)
theory LangDynamic
  imports LangScript
begin

text \<open>The configurations of Ruby, PHP, Swift and Pascal (\<open>extraction/languages/\<close>).\<close>

section \<open>Ruby\<close>

definition mixin_words :: "string list" where
  "mixin_words = [''include'', ''extend'', ''prepend'']"

definition field_text :: "cursor \<Rightarrow> string \<Rightarrow> string \<Rightarrow> string" where
  "field_text c field source = (case getChildByField c field of Some k \<Rightarrow> getNodeText k source | None \<Rightarrow> [])"

text \<open>The arguments of a mixin call, when the call is one.\<close>

definition ruby_mixin :: "string \<Rightarrow> cursor \<Rightarrow> cursor option" where
  "ruby_mixin source c =
     (if type_of c = ''call'' \<and> getChildByField c ''receiver'' = None \<and> field_text c ''method'' source \<in> set mixin_words
      then given_or (getChildByField c ''arguments'') (child_of_type [''argument_list''] c) else None)"

definition implements_here :: "extractor_context \<Rightarrow> cursor \<Rightarrow> string \<Rightarrow> cursor \<Rightarrow> unresolved_reference" where
  "implements_here ctx c fromId nameNode =
     (ref_at fromId (getNodeText nameNode (ctx_source ctx)) EK_implements c)\<lparr>u_filePath := Some (ctx_filePath ctx)\<rparr>"

definition ruby_module :: "extractor_context \<Rightarrow> cursor \<Rightarrow> ext_state \<Rightarrow> bool \<times> ext_state" where
  "ruby_module ctx c st =
     (case (if type_of c = ''module'' then getChildByField c ''name'' else None) of
        None \<Rightarrow> (False, st)
      | Some nameNode \<Rightarrow>
          (case ctx_createNode ctx NK_module (getNodeText nameNode (ctx_source ctx)) c no_extra st of
             (None, st') \<Rightarrow> (False, st')
           | (Some m, st') \<Rightarrow>
               (True, in_scope (n_id m)
                  (case getChildByField c ''body'' of None \<Rightarrow> (\<lambda>s. s) | Some b \<Rightarrow> visit_all (ctx_visitNode ctx) b) st')))"

definition ruby_visit :: "extractor_context \<Rightarrow> cursor \<Rightarrow> ext_state \<Rightarrow> bool \<times> ext_state" where
  "ruby_visit ctx c st =
     (case (ruby_mixin (ctx_source ctx) c, top_scope st) of
        (Some args, Some parentId) \<Rightarrow>
          (True, add_refs (map (implements_here ctx c parentId)
             (filter (\<lambda>k. type_of k \<in> {''constant'', ''scope_resolution''}) (namedChildren args))) st)
      | _ \<Rightarrow> ruby_module ctx c st)"

definition ruby_block_parents :: "string list" where
  "ruby_block_parents = [''body_statement'', ''then'', ''else'', ''do'', ''begin'', ''rescue'', ''ensure'', ''when'']"

definition ruby_no_calls :: "string list" where
  "ruby_no_calls = [''true'', ''false'', ''nil'', ''self'', ''super'', ''__FILE__'', ''__LINE__'', ''__dir__'']"

definition ruby_bare_call :: "string \<Rightarrow> cursor \<Rightarrow> string option" where
  "ruby_bare_call src c =
     (case parent_node c of
        None \<Rightarrow> None
      | Some p \<Rightarrow>
          (let name = getNodeText c src in
           if type_of c \<noteq> ''identifier'' \<or> type_of p \<notin> set ruby_block_parents \<or> name \<in> set ruby_no_calls \<or> capital_start name
           then None else Some name))"

definition ruby_visibility :: "string \<Rightarrow> cursor \<Rightarrow> visibility option" where
  "ruby_visibility src c =
     Some (case first_some (\<lambda>k. if type_of k = ''call'' then word_is access_words (field_text k ''method'' src) else None)
                 (previous_siblings c) of
             Some v \<Rightarrow> v | None \<Rightarrow> V_public)"

definition ruby_import :: "cursor \<Rightarrow> string \<Rightarrow> import_info option" where
  "ruby_import c source =
     (case child_of_type [''identifier''] c of
        None \<Rightarrow> None
      | Some i \<Rightarrow>
          if getNodeText i source \<notin> {''require'', ''require_relative''} then None
          else map_option (\<lambda>content. import_of (getNodeText content source) c source)
                 (Option.bind (Option.bind (child_of_type [''argument_list''] c) (child_of_type [''string'']))
                    (child_of_type [''string_content''])))"

definition rubyExtractor :: "string \<Rightarrow> lang_extractor" where
  "rubyExtractor src = plain_extractor\<lparr>
     le_functionTypes := [''method''],
     le_classTypes := [''class''],
     le_methodTypes := [''method'', ''singleton_method''],
     le_importTypes := [''call''],
     le_callTypes := [''call'', ''method_call''],
     le_variableTypes := [''assignment''],
     le_visitNode := ruby_visit,
     le_extractBareCall := (\<lambda>c _. ruby_bare_call src c),
     le_getVisibility := ruby_visibility src,
     le_extractImport := Some ruby_import\<rparr>"

section \<open>PHP\<close>

definition PHP_INCLUDE_TYPES :: "string list" where
  "PHP_INCLUDE_TYPES = [''include_expression'', ''include_once_expression'', ''require_expression'', ''require_once_expression'']"

definition phpStaticIncludePath :: "cursor \<Rightarrow> string \<Rightarrow> string option" where
  "phpStaticIncludePath c source =
     (case Option.bind (namedChild c 0) (\<lambda>a. if type_of a = ''parenthesized_expression'' then namedChild a 0 else Some a) of
        None \<Rightarrow> None
      | Some arg \<Rightarrow>
          if type_of arg \<notin> {''string'', ''encapsed_string''} \<or> list_ex (\<lambda>k. type_of k \<noteq> ''string_content'') (namedChildren arg)
          then None
          else map_option (\<lambda>k. getNodeText k source) (child_of_type [''string_content''] arg))"

definition PHP_NON_CLASS_RETURN :: "string list" where
  "PHP_NON_CLASS_RETURN =
     [''array'', ''string'', ''int'', ''integer'', ''float'', ''double'', ''bool'', ''boolean'',
      ''void'', ''mixed'', ''never'', ''null'', ''false'', ''true'', ''object'', ''callable'',
      ''iterable'', ''resource'']"

definition php_short_name :: "string \<Rightarrow> string option" where
  "php_short_name text =
     (let t = (case text of x # r \<Rightarrow> if x = CHR 0x5C then r else text | [] \<Rightarrow> []);
          short = last (split_by (\<lambda>x. x = CHR 0x5C) t)
      in if t = [] then None
         else if to_lower short \<in> {''self'', ''static'', ''this'', ''$this''} then Some ''self''
         else if to_lower short \<in> set PHP_NON_CLASS_RETURN then None
         else if_identifier short)"

definition extractPhpReturnType :: "cursor \<Rightarrow> string \<Rightarrow> string option" where
  "extractPhpReturnType c source =
     (case getChildByField c ''return_type'' of
        None \<Rightarrow> None
      | Some declared \<Rightarrow>
          (let inner = (\<lambda>t k. if type_of k = t then (case namedChild k 0 of Some n \<Rightarrow> n | None \<Rightarrow> k) else k);
               rt = inner ''optional_type'' declared
           in if type_of rt = ''primitive_type'' then None
              else php_short_name (trim (getNodeText (inner ''named_type'' rt) source))))"

definition php_constant :: "extractor_context \<Rightarrow> cursor \<Rightarrow> ext_state \<Rightarrow> ext_state" where
  "php_constant ctx elem st =
     (case child_of_type [''name''] elem of
        None \<Rightarrow> st
      | Some n \<Rightarrow> snd (ctx_createNode ctx NK_constant (getNodeText n (ctx_source ctx)) elem no_extra st))"

definition php_visit :: "extractor_context \<Rightarrow> cursor \<Rightarrow> ext_state \<Rightarrow> bool \<times> ext_state" where
  "php_visit ctx c st =
     (if type_of c = ''const_declaration''
      then (True, fold (php_constant ctx) (filter (\<lambda>k. type_of k = ''const_element'') (namedChildren c)) st)
      else if type_of c = ''use_declaration''
      then (True, from_top (\<lambda>p. map (implements_here ctx c p)
                    (filter (\<lambda>k. type_of k = ''name'' \<or> type_of k = ''qualified_name'') (namedChildren c))) st)
      else (False, st))"

definition php_package :: "cursor \<Rightarrow> string \<Rightarrow> string option" where
  "php_package c source =
     (if child_of_type [''compound_statement'', ''declaration_list''] c \<noteq> None then None
      else map_option (\<lambda>k. getNodeText k source) (child_of_type [''namespace_name''] c))"

definition php_import_hook :: "cursor \<Rightarrow> string \<Rightarrow> import_info option" where
  "php_import_hook c source =
     (if type_of c \<in> set PHP_INCLUDE_TYPES
      then map_option (\<lambda>p. import_of p c source) (truthy (phpStaticIncludePath c source))
      else if child_of_type [''namespace_name''] c \<noteq> None \<and> child_of_type [''namespace_use_group''] c \<noteq> None then None
      else Option.bind (child_of_type [''namespace_use_clause''] c) (\<lambda>clause.
             map_option (\<lambda>k. import_of (getNodeText k source) c source)
               (given_or (child_of_type [''qualified_name''] clause) (child_of_type [''name''] clause))))"

definition or_public :: "visibility option \<Rightarrow> visibility option" where
  "or_public v = Some (case v of Some x \<Rightarrow> x | None \<Rightarrow> V_public)"

definition phpExtractor :: "string \<Rightarrow> lang_extractor" where
  "phpExtractor src = plain_extractor\<lparr>
     le_functionTypes := [''function_definition''],
     le_classTypes := [''class_declaration'', ''trait_declaration''],
     le_methodTypes := [''method_declaration''],
     le_interfaceTypes := [''interface_declaration''],
     le_enumTypes := [''enum_declaration''],
     le_enumMemberTypes := [''enum_case''],
     le_importTypes := ''namespace_use_declaration'' # PHP_INCLUDE_TYPES,
     le_callTypes := [''function_call_expression'', ''member_call_expression'', ''scoped_call_expression''],
     le_variableTypes := [''const_declaration''],
     le_fieldTypes := [''property_declaration''],
     le_returnField := Some ''return_type'',
     le_getReturnType := extractPhpReturnType,
     le_classifyClassNode := (\<lambda>c. if type_of c = ''trait_declaration'' then Ck_trait else Ck_class),
     le_getVisibility := (\<lambda>c. or_public (first_some (word_is access_words) (child_text src [''visibility_modifier''] c))),
     le_isStatic := (\<lambda>c. Some (has_child ''static_modifier'' c)),
     le_visitNode := php_visit,
     le_packageTypes := [''namespace_definition''],
     le_extractPackage := php_package,
     le_extractImport := Some php_import_hook\<rparr>"

section \<open>Swift\<close>

text \<open>The return type, found by its place: the first type after the name and before the body.\<close>

definition swift_return_name :: "cursor \<Rightarrow> string \<Rightarrow> string option" where
  "swift_return_name typeNode source =
     (let name = trim (last_dotted (strip_angles (trim (getNodeText typeNode source))))
      in if name = ''Void'' then None else if_identifier name)"

definition swift_type_node :: "cursor \<Rightarrow> cursor option" where
  "swift_type_node k =
     (if type_of k = ''user_type'' then Some k
      else if type_of k = ''optional_type'' then child_of_type [''user_type''] k else None)"

definition extractSwiftReturnType :: "cursor \<Rightarrow> string \<Rightarrow> string option" where
  "extractSwiftReturnType c source =
     (let after = drop 1 (dropWhile (\<lambda>k. type_of k \<noteq> ''simple_identifier'') (namedChildren c));
          before_body = takeWhile (\<lambda>k. type_of k \<noteq> ''function_body'') after
      in case first_some swift_type_node before_body of None \<Rightarrow> None | Some t \<Rightarrow> swift_return_name t source)"

definition swift_name :: "cursor \<Rightarrow> string \<Rightarrow> string option" where
  "swift_name c source =
     (case (if type_of c = ''class_declaration'' then getChildByField c ''name'' else None) of
        None \<Rightarrow> None
      | Some n \<Rightarrow>
          (let names = filter (\<lambda>k. type_of k = ''type_identifier'') (namedChildren n)
           in if type_of n = ''user_type'' \<and> 1 < length names then Some (getNodeText (last names) source) else None))"

definition swift_access :: "(string \<times> visibility) list" where
  "swift_access = [(''public'', V_public), (''private'', V_private), (''internal'', V_internal), (''fileprivate'', V_private)]"

definition swift_visibility :: "string \<Rightarrow> cursor \<Rightarrow> visibility option" where
  "swift_visibility src c =
     Some (case first_some (word_in swift_access) (child_text src [''modifiers''] c) of Some v \<Rightarrow> v | None \<Rightarrow> V_internal)"

definition swift_classify :: "cursor \<Rightarrow> class_kind" where
  "swift_classify c =
     (case find (\<lambda>k. type_of k = ''struct'' \<or> type_of k = ''enum'') (all_children c) of
        Some k \<Rightarrow> if type_of k = ''struct'' then Ck_struct else Ck_enum
      | None \<Rightarrow> Ck_class)"

definition modifiers_say :: "string \<Rightarrow> string list \<Rightarrow> cursor \<Rightarrow> bool" where
  "modifiers_say src words c \<longleftrightarrow> list_ex (\<lambda>t. list_ex (str_includes t) words) (child_text src [''modifiers''] c)"

definition identifier_import :: "string list \<Rightarrow> cursor \<Rightarrow> string \<Rightarrow> import_info option" where
  "identifier_import types c source =
     map_option (\<lambda>k. import_of (getNodeText k source) c source) (child_of_type types c)"

definition swiftExtractor :: "string \<Rightarrow> lang_extractor" where
  "swiftExtractor src = plain_extractor\<lparr>
     le_functionTypes := [''function_declaration''],
     le_classTypes := [''class_declaration''],
     le_methodTypes := [''function_declaration''],
     le_interfaceTypes := [''protocol_declaration''],
     le_structTypes := [''struct_declaration''],
     le_enumTypes := [''enum_declaration''],
     le_enumMemberTypes := [''enum_entry''],
     le_typeAliasTypes := [''typealias_declaration''],
     le_importTypes := [''import_declaration''],
     le_callTypes := [''call_expression''],
     le_variableTypes := [''property_declaration'', ''constant_declaration''],
     le_paramsField := ''parameter'',
     le_returnField := Some ''return_type'',
     le_getReturnType := extractSwiftReturnType,
     le_resolveName := swift_name,
     le_getSignature := arrow_signature ''parameter'' '' -> '' ''return_type'',
     le_getVisibility := swift_visibility src,
     le_isStatic := (\<lambda>c. Some (modifiers_say src [''static'', ''class''] c)),
     le_classifyClassNode := swift_classify,
     le_isAsync := (\<lambda>c. Some (modifiers_say src [''async''] c)),
     le_extractImport := Some (identifier_import [''identifier''])\<rparr>"

section \<open>Pascal\<close>

definition pascal_signature :: "cursor \<Rightarrow> string \<Rightarrow> string option" where
  "pascal_signature c source =
     truthy (Some ((case getChildByField c ''args'' of Some a \<Rightarrow> getNodeText a source | None \<Rightarrow> [])
       @ (case child_of_type [''typeref''] c of Some r \<Rightarrow> '': '' @ getNodeText r source | None \<Rightarrow> [])))"

definition pascal_access :: "(string \<times> visibility) list" where
  "pascal_access = [(''kPublic'', V_public), (''kPublished'', V_public), (''kPrivate'', V_private), (''kProtected'', V_protected)]"

definition pascal_visibility :: "cursor \<Rightarrow> visibility option" where
  "pascal_visibility c =
     first_some (\<lambda>p. if type_of p = ''declSection'' then first_some (\<lambda>k. map_of pascal_access (type_of k)) (all_children p) else None)
       (ancestors c)"

definition pascalExtractor :: "string \<Rightarrow> lang_extractor" where
  "pascalExtractor src = plain_extractor\<lparr>
     le_functionTypes := [''declProc''],
     le_classTypes := [''declClass''],
     le_methodTypes := [''declProc''],
     le_interfaceTypes := [''declIntf''],
     le_enumTypes := [''declEnum''],
     le_typeAliasTypes := [''declType''],
     le_importTypes := [''declUses''],
     le_callTypes := [''exprCall''],
     le_variableTypes := [''declField'', ''declConst''],
     le_paramsField := ''args'',
     le_returnField := Some ''type'',
     le_getSignature := pascal_signature,
     le_getVisibility := pascal_visibility,
     le_isExported := (\<lambda>_ _. Some False),
     le_isStatic := (\<lambda>c. Some (has_child ''kClass'' c)),
     le_isConst := (\<lambda>c. Some (type_of c = ''declConst''))\<rparr>"

end
