(* ===== verification/LangSystem.thy ===== *)
theory LangSystem
  imports LangDynamic
begin

text \<open>The configurations of Go, Rust, Java, C#, C, C++ and Objective-C (\<open>extraction/languages/\<close>).\<close>

section \<open>Go\<close>

definition go_result_type :: "cursor \<Rightarrow> cursor option" where
  "go_result_type c =
     (case getChildByField c ''result'' of
        None \<Rightarrow> None
      | Some result \<Rightarrow>
          map_option (\<lambda>r. if type_of r = ''pointer_type''
              then (case child_of_type [''type_identifier'', ''qualified_type'', ''generic_type''] r of Some t \<Rightarrow> t | None \<Rightarrow> r)
              else r)
            (if type_of result = ''parameter_list''
             then map_option (\<lambda>p. case getChildByField p ''type'' of Some t \<Rightarrow> t | None \<Rightarrow> p)
                    (child_of_type [''parameter_declaration''] result)
             else Some result))"

definition extractGoReturnType :: "cursor \<Rightarrow> string \<Rightarrow> string option" where
  "extractGoReturnType c source =
     Option.bind (go_result_type c) (\<lambda>r.
       let text = trim (getNodeText r source);
           plain = (case text of x # t \<Rightarrow> if x = CHR ''*'' then t else text | [] \<Rightarrow> [])
       in if_identifier (trim (last_dotted (strip_squares (strip_angles plain)))))"

definition go_alias_kind :: "cursor \<Rightarrow> node_kind option" where
  "go_alias_kind c =
     Option.bind (getChildByField c ''type'') (\<lambda>t.
       if type_of t = ''struct_type'' then Some NK_struct
       else if type_of t = ''interface_type'' then Some NK_interface else None)"

definition name_re :: re where
  "name_re = Seq (Cls (\<lambda>x. is_upper x \<or> is_lower x \<or> x = CHR ''_'')) (Star (Cls is_word))"

text \<open>The type in \<open>(sl *Type)\<close>, \<open>(Type)\<close>, \<open>(s *Stack[T])\<close>.\<close>

definition go_receiver :: "cursor \<Rightarrow> string \<Rightarrow> string option" where
  "go_receiver c source =
     Option.bind (getChildByField c ''receiver'') (\<lambda>r.
       re_group (re_seq [re_chr CHR ''('', Star space_re, re_opt (re_seq [name_re, re_plus space_re]),
                   re_opt (re_chr CHR ''*''), Star space_re]) name_re Eps (getNodeText r source))"

definition goExtractor :: "string \<Rightarrow> lang_extractor" where
  "goExtractor src = plain_extractor\<lparr>
     le_functionTypes := [''function_declaration''],
     le_methodTypes := [''method_declaration''],
     le_typeAliasTypes := [''type_spec''],
     le_importTypes := [''import_declaration''],
     le_callTypes := [''call_expression''],
     le_variableTypes := [''var_declaration'', ''short_var_declaration'', ''const_declaration''],
     le_methodsAreTopLevel := True,
     le_returnField := Some ''result'',
     le_getReturnType := extractGoReturnType,
     le_getSignature := arrow_signature ''parameters'' '' '' ''result'',
     le_resolveTypeAliasKind := (\<lambda>c _. go_alias_kind c),
     le_isExported := (\<lambda>c source. Some (case getChildByField c ''name'' of
         Some n \<Rightarrow> capital_start (getNodeText n source) | None \<Rightarrow> False)),
     le_getReceiverType := go_receiver\<rparr>"

section \<open>Rust\<close>

definition extractRustReturnType :: "cursor \<Rightarrow> string \<Rightarrow> string option" where
  "extractRustReturnType c source =
     Option.bind (getChildByField c ''return_type'') (\<lambda>declared.
       let rt = (if type_of declared = ''reference_type''
                 then (case child_of_type [''type_identifier'', ''scoped_type_identifier'', ''generic_type''] declared of
                         Some t \<Rightarrow> t | None \<Rightarrow> declared)
                 else declared);
           short = trim (last (split_str ''::'' (strip_angles (trim (getNodeText rt source)))))
       in if type_of rt \<in> {''primitive_type'', ''unit_type'', ''tuple_type''} then None
          else map_option (\<lambda>s. if s = ''Self'' then ''self'' else s) (if_identifier short))"

definition rust_impl_type :: "cursor \<Rightarrow> string \<Rightarrow> string option" where
  "rust_impl_type p source =
     (let idents = filter (\<lambda>k. type_of k = ''type_identifier'') (namedChildren p)
      in if idents \<noteq> [] then Some (getNodeText (last idents) source)
         else map_option (\<lambda>t. getNodeText t source)
                (Option.bind (child_of_type [''generic_type''] p) (child_of_type [''type_identifier''])))"

definition rust_receiver :: "cursor \<Rightarrow> string \<Rightarrow> string option" where
  "rust_receiver c source =
     Option.bind (find (\<lambda>p. type_of p = ''impl_item'') (ancestors c)) (\<lambda>p. rust_impl_type p source)"

function getRootModule :: "string \<Rightarrow> cursor \<Rightarrow> string" where
  "getRootModule source c =
     (case namedChild c 0 of
        None \<Rightarrow> getNodeText c source
      | Some k \<Rightarrow> if type_of k = ''scoped_identifier'' then getRootModule source k else getNodeText k source)"
  by pat_completeness auto
termination
  by (relation "measure (\<lambda>(s, c). size (here c))") auto

declare getRootModule.simps [simp del]

definition rust_import :: "cursor \<Rightarrow> string \<Rightarrow> import_info option" where
  "rust_import c source =
     map_option (\<lambda>u. import_of (getRootModule source u) c source)
       (child_of_type [''scoped_use_list'', ''scoped_identifier'', ''use_list'', ''identifier''] c)"

definition rust_visibility :: "string \<Rightarrow> cursor \<Rightarrow> visibility option" where
  "rust_visibility src c =
     Some (case child_text src [''visibility_modifier''] c of
             t # _ \<Rightarrow> if str_includes t ''pub'' then V_public else V_private | [] \<Rightarrow> V_private)"

definition rustExtractor :: "string \<Rightarrow> lang_extractor" where
  "rustExtractor src = plain_extractor\<lparr>
     le_functionTypes := [''function_item'', ''function_signature_item''],
     le_methodTypes := [''function_item'', ''function_signature_item''],
     le_interfaceTypes := [''trait_item''],
     le_structTypes := [''struct_item''],
     le_enumTypes := [''enum_item''],
     le_enumMemberTypes := [''enum_variant''],
     le_typeAliasTypes := [''type_item''],
     le_importTypes := [''use_declaration''],
     le_callTypes := [''call_expression''],
     le_variableTypes := [''let_declaration'', ''const_item'', ''static_item''],
     le_interfaceKind := Some NK_trait,
     le_returnField := Some ''return_type'',
     le_getReturnType := extractRustReturnType,
     le_getSignature := arrow_signature ''parameters'' '' -> '' ''return_type'',
     le_isAsync := (\<lambda>c. Some (has_child ''async'' c)),
     le_getVisibility := rust_visibility src,
     le_getReceiverType := rust_receiver,
     le_extractImport := Some rust_import\<rparr>"

section \<open>Java\<close>

definition JAVA_NON_CLASS_RETURN_NODES :: "string list" where
  "JAVA_NON_CLASS_RETURN_NODES = [''void_type'', ''integral_type'', ''floating_point_type'', ''boolean_type'']"

definition extractJavaReturnType :: "cursor \<Rightarrow> string \<Rightarrow> string option" where
  "extractJavaReturnType c source =
     Option.bind (getChildByField c ''type'') (\<lambda>t.
       if type_of t \<in> set JAVA_NON_CLASS_RETURN_NODES \<or> type_of t = ''array_type'' then None
       else if_identifier (trim (last_dotted (strip_angles (trim (getNodeText t source))))))"

definition java_signature :: "cursor \<Rightarrow> string \<Rightarrow> string option" where
  "java_signature c source =
     map_option (\<lambda>params.
         (case getChildByField c ''type'' of Some t \<Rightarrow> getNodeText t source @ '' '' | None \<Rightarrow> []) @ getNodeText params source)
       (getChildByField c ''parameters'')"

definition trimmed_package :: "string list \<Rightarrow> cursor \<Rightarrow> string \<Rightarrow> string option" where
  "trimmed_package types c source = map_option (\<lambda>k. trim (getNodeText k source)) (child_of_type types c)"

definition javaExtractor :: "string \<Rightarrow> lang_extractor" where
  "javaExtractor src = plain_extractor\<lparr>
     le_classTypes := [''class_declaration''],
     le_methodTypes := [''method_declaration'', ''constructor_declaration''],
     le_interfaceTypes := [''interface_declaration'', ''annotation_type_declaration''],
     le_enumTypes := [''enum_declaration''],
     le_enumMemberTypes := [''enum_constant''],
     le_importTypes := [''import_declaration''],
     le_callTypes := [''method_invocation''],
     le_variableTypes := [''local_variable_declaration''],
     le_fieldTypes := [''field_declaration''],
     le_returnField := Some ''type'',
     le_getReturnType := extractJavaReturnType,
     le_getSignature := java_signature,
     le_getVisibility := (\<lambda>c. first_some (word_in access_words) (child_text src [''modifiers''] c)),
     le_isStatic := (\<lambda>c. Some (modifiers_say src [''static''] c)),
     le_extractImport := Some (identifier_import [''scoped_identifier'']),
     le_packageTypes := [''package_declaration''],
     le_extractPackage := trimmed_package [''scoped_identifier'', ''identifier'']\<rparr>"

section \<open>C#\<close>

text \<open>The lines of conditional compilation become blanks; \<open>length m\<close> columns and every line end stay.\<close>

function replace_by :: "(string \<Rightarrow> string) \<Rightarrow> re \<Rightarrow> string \<Rightarrow> nat \<Rightarrow> string" where
  "replace_by f r s from =
     (case re_exec r s from of
        None \<Rightarrow> drop from s
      | Some (i, j) \<Rightarrow>
          if from < j \<and> from \<le> length s then slice from i s @ f (slice i j s) @ replace_by f r s j else drop from s)"
  by pat_completeness auto
termination
  by (relation "measure (\<lambda>(f, r, s, from). Suc (length s) - from)") auto

declare replace_by.simps [simp del]

definition is_blank :: "char \<Rightarrow> bool" where
  "is_blank x \<longleftrightarrow> x = CHR '' '' \<or> x = CHR 0x09"

definition directive_re :: re where
  "directive_re =
     re_seq [Mbol, Star (Cls is_blank), re_chr CHR ''#'', Star (Cls is_blank),
       re_alt [re_str ''if'', re_str ''elif'', re_str ''else'', re_str ''endif''], Wordb, Star (Cls (\<lambda>x. x \<noteq> newline))]"

definition blank_directive :: "string \<Rightarrow> string" where
  "blank_directive m = takeWhile is_blank m @ replicate (length m - length (takeWhile is_blank m)) CHR '' ''"

definition blankCsharpPreprocessorDirectives :: "string \<Rightarrow> string" where
  "blankCsharpPreprocessorDirectives source =
     (if CHR ''#'' \<notin> set source then source else replace_by blank_directive directive_re source 0)"

definition extractCsharpReturnType :: "cursor \<Rightarrow> string \<Rightarrow> string option" where
  "extractCsharpReturnType c source =
     Option.bind (getChildByField c ''returns'') (\<lambda>t.
       if type_of t = ''predefined_type'' \<or> type_of t = ''array_type'' then None
       else (let text = rev (dropWhile (\<lambda>x. x = CHR ''?'') (rev (trim (getNodeText t source))))
             in if_identifier (trim (last_dotted (strip_angles text)))))"

definition csharp_access :: "(string \<times> visibility) list" where
  "csharp_access = access_words @ [(''internal'', V_internal)]"

definition csharp_visibility :: "string \<Rightarrow> cursor \<Rightarrow> visibility option" where
  "csharp_visibility src c =
     Some (case first_some (word_is csharp_access) (child_text src [''modifier''] c) of Some v \<Rightarrow> v | None \<Rightarrow> V_private)"

definition csharp_package :: "cursor \<Rightarrow> string \<Rightarrow> string option" where
  "csharp_package c source =
     map_option (\<lambda>k. getNodeText k source)
       (given_or (getChildByField c ''name'') (child_of_type [''qualified_name'', ''identifier''] c))"

definition csharp_import :: "cursor \<Rightarrow> string \<Rightarrow> import_info option" where
  "csharp_import c source =
     map_option (\<lambda>k. import_of (getNodeText k source) c source)
       (given_or (child_of_type [''qualified_name''] c) (child_of_type [''identifier''] c))"

definition csharpExtractor :: "string \<Rightarrow> lang_extractor" where
  "csharpExtractor src = plain_extractor\<lparr>
     le_preParse := blankCsharpPreprocessorDirectives,
     le_classTypes := [''class_declaration'', ''record_declaration''],
     le_methodTypes := [''method_declaration'', ''constructor_declaration''],
     le_interfaceTypes := [''interface_declaration''],
     le_structTypes := [''struct_declaration'', ''record_struct_declaration''],
     le_enumTypes := [''enum_declaration''],
     le_enumMemberTypes := [''enum_member_declaration''],
     le_packageTypes := [''namespace_declaration'', ''file_scoped_namespace_declaration''],
     le_extractPackage := csharp_package,
     le_importTypes := [''using_directive''],
     le_callTypes := [''invocation_expression''],
     le_variableTypes := [''local_declaration_statement''],
     le_fieldTypes := [''field_declaration''],
     le_propertyTypes := [''property_declaration''],
     le_returnField := Some ''type'',
     le_getReturnType := extractCsharpReturnType,
     le_getVisibility := csharp_visibility src,
     le_isStatic := (\<lambda>c. Some (list_ex (\<lambda>t. t = ''static'') (child_text src [''modifier''] c))),
     le_isAsync := (\<lambda>c. Some (list_ex (\<lambda>t. t = ''async'') (child_text src [''modifier''] c))),
     le_extractImport := Some csharp_import\<rparr>"

section \<open>C and C++\<close>

definition findDeclaratorQualifiedId :: "cursor \<Rightarrow> cursor option" where
  "findDeclaratorQualifiedId declarator =
     breadth_first (\<lambda>k. type_of k = ''qualified_identifier'') [''parameter_list'', ''trailing_return_type''] [declarator]"

definition qualified_parts :: "cursor \<Rightarrow> string \<Rightarrow> string list" where
  "qualified_parts c source =
     (case Option.bind (getChildByField c ''declarator'') findDeclaratorQualifiedId of
        None \<Rightarrow> []
      | Some qid \<Rightarrow> filter (\<lambda>p. p \<noteq> []) (split_str ''::'' (trim (getNodeText qid source))))"

definition extractCppQualifiedMethodName :: "cursor \<Rightarrow> string \<Rightarrow> string option" where
  "extractCppQualifiedMethodName c source =
     (let parts = qualified_parts c source in if parts = [] then None else Some (last parts))"

definition extractCppReceiverType :: "cursor \<Rightarrow> string \<Rightarrow> string option" where
  "extractCppReceiverType c source =
     (let parts = qualified_parts c source
      in if 1 < length parts then Some (join_with ''::'' (butlast parts)) else None)"

definition CPP_NON_CLASS_RETURN :: "string list" where
  "CPP_NON_CLASS_RETURN =
     [''void'', ''bool'', ''char'', ''short'', ''int'', ''long'', ''float'', ''double'', ''unsigned'',
      ''signed'', ''size_t'', ''ssize_t'', ''auto'', ''wchar_t'', ''char8_t'', ''char16_t'',
      ''char32_t'', ''int8_t'', ''int16_t'', ''int32_t'', ''int64_t'', ''uint8_t'', ''uint16_t'',
      ''uint32_t'', ''uint64_t'', ''intptr_t'', ''uintptr_t'', ''nullptr_t'']"

text \<open>
  The group of \<open>\b(?:std\s*::\s*)?(?:unique_ptr|shared_ptr|weak_ptr|optional)\s*<\s*([^,>]+?)\s*>\<close>: its
  repetition is lazy, so the ends of the group are tried the other way round.
\<close>

definition wrapper_pre :: re where
  "wrapper_pre =
     re_seq [Wordb, re_opt (re_seq [re_str ''std'', Star space_re, re_str ''::'', Star space_re]),
       re_alt [re_str ''unique_ptr'', re_str ''shared_ptr'', re_str ''weak_ptr'', re_str ''optional''],
       Star space_re, re_chr CHR ''<'', Star space_re]"

definition wrapped_type :: "string \<Rightarrow> string option" where
  "wrapped_type s =
     first_some (\<lambda>i.
       map_option (\<lambda>(j, k). slice j k s)
         (find (\<lambda>(j, k). re_ends (re_seq [Star space_re, re_chr CHR ''>'']) s k \<noteq> [])
           (concat (map (\<lambda>j. map (\<lambda>k. (j, k)) (rev (re_ends (re_plus (Cls (\<lambda>x. x \<noteq> CHR '','' \<and> x \<noteq> CHR ''>''))) s j)))
              (re_ends wrapper_pre s i)))))
       [0..<Suc (length s)]"

definition cpp_qualifier_re :: re where
  "cpp_qualifier_re =
     re_seq [Wordb, re_alt [re_str ''const'', re_str ''volatile'', re_str ''typename'', re_str ''struct'', re_str ''class'',
       re_str ''enum''], Wordb]"

definition normalizeCppReturnType :: "string \<Rightarrow> string option" where
  "normalizeCppReturnType raw =
     (let t0 = trim raw;
          t1 = (case truthy (wrapped_type t0) of Some w \<Rightarrow> w | None \<Rightarrow> t0);
          t2 = re_replace cpp_qualifier_re '' '' t1 0;
          t3 = re_replace (re_seq [re_chr CHR ''<'', Star (Cls (\<lambda>x. x \<noteq> CHR ''>'')), re_chr CHR ''>'']) '' '' t2 0;
          t4 = re_replace (re_plus (Cls (\<lambda>x. x = CHR ''*'' \<or> x = CHR ''&''))) '' '' t3 0;
          t5 = trim (re_replace (re_plus space_re) '' '' t4 0);
          parts = filter (\<lambda>p. p \<noteq> []) (split_str ''::'' t5)
      in if t0 = [] \<or> t5 = [] \<or> parts = [] then None
         else if last parts \<in> set CPP_NON_CLASS_RETURN then None
         else if_identifier (last parts))"

definition extractCppReturnType :: "cursor \<Rightarrow> string \<Rightarrow> string option" where
  "extractCppReturnType c source =
     Option.bind (getChildByField c ''type'') (\<lambda>t. normalizeCppReturnType (getNodeText t source))"

definition c_alias_kind :: "cursor \<Rightarrow> node_kind option" where
  "c_alias_kind c =
     first_some (\<lambda>k. if getChildByField k ''body'' = None then None
         else if type_of k = ''enum_specifier'' then Some NK_enum
         else if type_of k = ''struct_specifier'' then Some NK_struct else None) (namedChildren c)"

definition strip_chevrons :: "string \<Rightarrow> string" where
  "strip_chevrons s =
     (let t = (case s of x # r \<Rightarrow> if x = CHR ''<'' then r else s | [] \<Rightarrow> [])
      in if t \<noteq> [] \<and> last t = CHR ''>'' then butlast t else t)"

definition c_import :: "cursor \<Rightarrow> string \<Rightarrow> import_info option" where
  "c_import c source =
     (case child_of_type [''system_lib_string''] c of
        Some k \<Rightarrow> Some (import_of (strip_chevrons (getNodeText k source)) c source)
      | None \<Rightarrow>
          map_option (\<lambda>k. import_of (getNodeText k source) c source)
            (Option.bind (child_of_type [''string_literal''] c) (child_of_type [''string_content''])))"

definition cExtractor :: "string \<Rightarrow> lang_extractor" where
  "cExtractor src = plain_extractor\<lparr>
     le_functionTypes := [''function_definition''],
     le_structTypes := [''struct_specifier''],
     le_enumTypes := [''enum_specifier''],
     le_enumMemberTypes := [''enumerator''],
     le_typeAliasTypes := [''type_definition''],
     le_importTypes := [''preproc_include''],
     le_callTypes := [''call_expression''],
     le_variableTypes := [''declaration''],
     le_nameField := ''declarator'',
     le_getReturnType := extractCppReturnType,
     le_resolveTypeAliasKind := (\<lambda>c _. c_alias_kind c),
     le_extractImport := Some c_import\<rparr>"

text \<open>The visibility is read from the access specifiers of the parent, the first of them that says something.\<close>

definition cpp_visibility :: "string \<Rightarrow> cursor \<Rightarrow> visibility option" where
  "cpp_visibility src c =
     Option.bind (parent_node c) (\<lambda>p. first_some (word_in access_words) (child_text src [''access_specifier''] p))"

definition cpp_misparsed :: "string \<Rightarrow> bool" where
  "cpp_misparsed name \<longleftrightarrow>
     starts_with name ''namespace'' \<or>
     name \<in> {''switch'', ''if'', ''for'', ''while'', ''do'', ''case'', ''return''}"

definition cppExtractor :: "string \<Rightarrow> lang_extractor" where
  "cppExtractor src = plain_extractor\<lparr>
     le_functionTypes := [''function_definition''],
     le_classTypes := [''class_specifier''],
     le_methodTypes := [''function_definition''],
     le_structTypes := [''struct_specifier''],
     le_enumTypes := [''enum_specifier''],
     le_enumMemberTypes := [''enumerator''],
     le_typeAliasTypes := [''type_definition'', ''alias_declaration''],
     le_importTypes := [''preproc_include''],
     le_callTypes := [''call_expression''],
     le_variableTypes := [''declaration''],
     le_nameField := ''declarator'',
     le_resolveName := extractCppQualifiedMethodName,
     le_getReceiverType := extractCppReceiverType,
     le_getReturnType := extractCppReturnType,
     le_getVisibility := cpp_visibility src,
     le_resolveTypeAliasKind := (\<lambda>c _. c_alias_kind c),
     le_isMisparsedFunction := (\<lambda>name _. cpp_misparsed name),
     le_extractImport := Some c_import\<rparr>"

section \<open>Objective-C\<close>

definition extractObjcMethodName :: "cursor \<Rightarrow> string \<Rightarrow> string option" where
  "extractObjcMethodName c source =
     (let identifiers = filter (\<lambda>k. type_of k = ''identifier'') (namedChildren c) in
      if type_of c \<notin> {''method_definition'', ''method_declaration''} \<or> identifiers = [] then None
      else if child_of_type [''method_parameter''] c = None then Some (getNodeText (hd identifiers) source)
      else Some (concat (map (\<lambda>i. getNodeText i source @ '':'') identifiers)))"

function declarator_name :: "string \<Rightarrow> cursor \<Rightarrow> string option" where
  "declarator_name source c =
     (case given_or (getChildByField c ''declarator'') (child_of_type [''identifier'', ''pointer_declarator''] c) of
        None \<Rightarrow> None
      | Some inner \<Rightarrow> if type_of inner = ''identifier'' then Some (getNodeText inner source) else declarator_name source inner)"
  by pat_completeness auto
termination
  by (relation "measure (\<lambda>(s, c). size (here c))") (auto simp: given_or_def dest: typed_child_in split: option.splits)

declare declarator_name.simps [simp del]

definition extractObjcPropertyName :: "cursor \<Rightarrow> string \<Rightarrow> string option" where
  "extractObjcPropertyName c source =
     (if type_of c \<noteq> ''property_declaration'' then None
      else Option.bind (Option.bind (child_of_type [''struct_declaration''] c) (child_of_type [''struct_declarator'']))
             (declarator_name source))"

text \<open>The class of an implementation: the one declared in this file, or a new one.\<close>

definition objc_class :: "extractor_context \<Rightarrow> cursor \<Rightarrow> string \<Rightarrow> ext_state \<Rightarrow> node option \<times> ext_state" where
  "objc_class ctx c className st =
     (case find (\<lambda>n. n_name n = className \<and> n_filePath n = ctx_filePath ctx \<and> n_kind n = NK_class) (xs_nodes st) of
        Some n \<Rightarrow> (Some n, st)
      | None \<Rightarrow> ctx_createNode ctx NK_class className c no_extra st)"

definition objc_visit :: "extractor_context \<Rightarrow> cursor \<Rightarrow> ext_state \<Rightarrow> bool \<times> ext_state" where
  "objc_visit ctx c st =
     (if type_of c \<noteq> ''class_implementation'' then (False, st)
      else (True,
        (case child_of_type [''identifier''] c of
           None \<Rightarrow> st
         | Some classNameNode \<Rightarrow>
             (case objc_class ctx c (getNodeText classNameNode (ctx_source ctx)) st of
                (None, st') \<Rightarrow> st'
              | (Some n, st') \<Rightarrow>
                  in_scope (n_id n)
                    (fold (visit_all (ctx_visitNode ctx))
                      (filter (\<lambda>k. type_of k = ''implementation_definition'') (namedChildren c))) st'))))"

definition objc_resolveBody :: "cursor \<Rightarrow> string \<Rightarrow> cursor option" where
  "objc_resolveBody c bodyField = given_or (getChildByField c bodyField) (child_of_type [''compound_statement''] c)"

definition objc_isStatic :: "string \<Rightarrow> cursor \<Rightarrow> bool option" where
  "objc_isStatic src c = Some (starts_with (trim_start (getNodeText c src)) ''+'')"

definition objcExtractor :: "string \<Rightarrow> lang_extractor" where
  "objcExtractor src = plain_extractor\<lparr>
     le_functionTypes := [''function_definition''],
     le_classTypes := [''class_interface''],
     le_methodTypes := [''method_definition''],
     le_interfaceTypes := [''protocol_declaration''],
     le_interfaceKind := Some NK_protocol,
     le_structTypes := [''struct_specifier''],
     le_enumTypes := [''enum_specifier''],
     le_enumMemberTypes := [''enumerator''],
     le_typeAliasTypes := [''type_definition''],
     le_importTypes := [''preproc_include''],
     le_callTypes := [''call_expression'', ''message_expression''],
     le_variableTypes := [''declaration''],
     le_propertyTypes := [''property_declaration''],
     le_nameField := ''declarator'',
     le_resolveName := extractObjcMethodName,
     le_extractPropertyName := extractObjcPropertyName,
     le_resolveBody := objc_resolveBody,
     le_resolveTypeAliasKind := (\<lambda>c _. c_alias_kind c),
     le_isStatic := objc_isStatic src,
     le_visitNode := objc_visit,
     le_extractImport := Some c_import\<rparr>"

end
