(* ===== verification/LangMobile.thy ===== *)
theory LangMobile
  imports LangSystem
begin

text \<open>The configurations of Kotlin, Dart and Scala, and the table of all languages (\<open>extraction/languages/\<close>).\<close>

section \<open>Kotlin\<close>

definition KOTLIN_NON_CLASS_RETURN :: "string list" where
  "KOTLIN_NON_CLASS_RETURN = [''Unit'', ''Nothing'']"

definition kotlin_return_name :: "cursor \<Rightarrow> string \<Rightarrow> string option" where
  "kotlin_return_name k source =
     (let ut = (if type_of k = ''nullable_type''
                then (case child_of_type [''user_type''] k of Some u \<Rightarrow> u | None \<Rightarrow> k) else k);
          name = trim (getNodeText (case child_of_type [''type_identifier''] ut of Some t \<Rightarrow> t | None \<Rightarrow> ut) source)
      in if name \<in> set KOTLIN_NON_CLASS_RETURN then None else if_identifier name)"

definition extractKotlinReturnType :: "cursor \<Rightarrow> string \<Rightarrow> string option" where
  "extractKotlinReturnType c source =
     (let after = drop 1 (dropWhile (\<lambda>k. type_of k \<noteq> ''function_value_parameters'') (namedChildren c));
          before_body = takeWhile (\<lambda>k. type_of k \<noteq> ''function_body'' \<and> type_of k \<noteq> ''type_constraints'') after
      in Option.bind (find (\<lambda>k. type_of k = ''user_type'' \<or> type_of k = ''nullable_type'') before_body)
           (\<lambda>k. kotlin_return_name k source))"

definition says_interface :: "string \<Rightarrow> cursor \<Rightarrow> bool" where
  "says_interface src k \<longleftrightarrow>
     type_of k = ''user_type'' \<and>
     (case child_of_type [''type_identifier''] k of Some t \<Rightarrow> getNodeText t src = ''interface'' | None \<Rightarrow> False)"

definition isFunInterfaceNode :: "string \<Rightarrow> cursor \<Rightarrow> bool" where
  "isFunInterfaceNode src c \<longleftrightarrow>
     list_ex (\<lambda>k. type_of k = ''fun'' \<and> \<not> sn_isNamed (here k)) (all_children c) \<and>
     list_ex (\<lambda>k. says_interface src k \<or> (type_of k = ''ERROR'' \<and> list_ex (says_interface src) (all_children k))) (all_children c)"

definition first_identifier :: "string \<Rightarrow> cursor \<Rightarrow> string option" where
  "first_identifier src c =
     truthy (map_option (\<lambda>k. getNodeText k src) (find (\<lambda>k. type_of k = ''simple_identifier'') (all_children c)))"

definition fun_interface_name :: "string \<Rightarrow> cursor \<Rightarrow> string option" where
  "fun_interface_name src c =
     given_or (if type_of c = ''function_declaration''
              then first_some (first_identifier src) (filter (\<lambda>k. type_of k = ''ERROR'') (all_children c)) else None)
       (first_identifier src c)"

definition opens_brace :: "cursor \<Rightarrow> bool" where
  "opens_brace c \<longleftrightarrow> (case all_children c of k # _ \<Rightarrow> type_of k = ''{'' | [] \<Rightarrow> False)"

definition fun_interface_body :: "cursor \<Rightarrow> cursor list" where
  "fun_interface_body c =
     (case (if type_of c = ''ERROR'' then nextSibling c else None) of
        None \<Rightarrow> []
      | Some k \<Rightarrow> if type_of k = ''lambda_literal''
                  then filter (\<lambda>s. type_of s = ''statements'') (namedChildren k) else [])"

definition kotlin_visit :: "string \<Rightarrow> extractor_context \<Rightarrow> cursor \<Rightarrow> ext_state \<Rightarrow> bool \<times> ext_state" where
  "kotlin_visit src ctx c st =
     (if type_of c = ''lambda_literal''
      then ((case previousSibling c of Some p \<Rightarrow> type_of p = ''ERROR'' \<and> isFunInterfaceNode src p | None \<Rightarrow> False), st)
      else if type_of c \<notin> {''ERROR'', ''function_declaration''} \<or> (type_of c = ''ERROR'' \<and> opens_brace c)
              \<or> \<not> isFunInterfaceNode src c
      then (False, st)
      else (case fun_interface_name src c of
              None \<Rightarrow> (False, st)
            | Some nameText \<Rightarrow>
                (case ctx_createNode ctx NK_interface nameText c no_extra st of
                   (None, st') \<Rightarrow> (False, st')
                 | (Some n, st') \<Rightarrow>
                     (True, in_scope (n_id n) (fold (visit_all (ctx_visitNode ctx)) (fun_interface_body c)) st'))))"

definition kotlin_resolveBody :: "cursor \<Rightarrow> string \<Rightarrow> cursor option" where
  "kotlin_resolveBody c bodyField =
     find (\<lambda>k. (type_of k = ''ERROR'' \<and> opens_brace k) \<or>
               type_of k \<in> {''function_body'', ''class_body'', ''enum_class_body''}) (namedChildren c)"

definition kotlin_classify :: "cursor \<Rightarrow> class_kind" where
  "kotlin_classify c =
     (case find (\<lambda>k. type_of k = ''interface'' \<or> type_of k = ''enum'') (all_children c) of
        Some k \<Rightarrow> if type_of k = ''interface'' then Ck_interface else Ck_enum
      | None \<Rightarrow> Ck_class)"

fun kotlin_receiver_in :: "string \<Rightarrow> cursor option \<Rightarrow> cursor list \<Rightarrow> string option" where
  "kotlin_receiver_in source found [] = None"
| "kotlin_receiver_in source found (k # ks) =
     (if type_of k = ''user_type'' then kotlin_receiver_in source (Some k) ks
      else case (type_of k = ''.'', found) of
             (True, Some u) \<Rightarrow>
               Some (getNodeText (case child_of_type [''type_identifier''] u of Some t \<Rightarrow> t | None \<Rightarrow> u) source)
           | _ \<Rightarrow> if type_of k \<in> {''simple_identifier'', ''function_value_parameters''} then None
                  else kotlin_receiver_in source found ks)"

definition kotlin_access :: "(string \<times> visibility) list" where
  "kotlin_access = access_words @ [(''internal'', V_internal)]"

definition platform_words :: "cursor \<Rightarrow> string list" where
  "platform_words c =
     concat (map (\<lambda>m. concat (map (\<lambda>p. map (\<lambda>w. type_of w) (filter (\<lambda>w. type_of w \<in> {''expect'', ''actual''}) (all_children p)))
               (filter (\<lambda>p. type_of p = ''platform_modifier'') (all_children m))))
       (filter (\<lambda>m. type_of m = ''modifiers'') (all_children c)))"

definition kotlinExtractor :: "string \<Rightarrow> lang_extractor" where
  "kotlinExtractor src = plain_extractor\<lparr>
     le_functionTypes := [''function_declaration''],
     le_classTypes := [''class_declaration''],
     le_methodTypes := [''function_declaration''],
     le_enumMemberTypes := [''enum_entry''],
     le_typeAliasTypes := [''type_alias''],
     le_importTypes := [''import_header''],
     le_callTypes := [''call_expression''],
     le_variableTypes := [''property_declaration''],
     le_fieldTypes := [''property_declaration''],
     le_extraClassNodeTypes := [''object_declaration''],
     le_nameField := ''simple_identifier'',
     le_bodyField := ''function_body'',
     le_visitNode := kotlin_visit src,
     le_paramsField := ''function_value_parameters'',
     le_returnField := Some ''type'',
     le_getReturnType := extractKotlinReturnType,
     le_resolveBody := kotlin_resolveBody,
     le_classifyClassNode := kotlin_classify,
     le_getReceiverType := (\<lambda>c source. kotlin_receiver_in source None (all_children c)),
     le_getSignature := arrow_signature ''function_value_parameters'' '': '' ''type'',
     le_getVisibility := (\<lambda>c. or_public (first_some (word_in kotlin_access) (child_text src [''modifiers''] c))),
     le_isStatic := (\<lambda>_. Some False),
     le_isAsync := (\<lambda>c. Some (modifiers_say src [''suspend''] c)),
     le_extractModifiers := platform_words,
     le_extractImport := Some (identifier_import [''identifier'']),
     le_packageTypes := [''package_header''],
     le_extractPackage := trimmed_package [''identifier'']\<rparr>"

section \<open>Dart\<close>

definition dart_inner_types :: "string list" where
  "dart_inner_types = [''function_signature'', ''getter_signature'', ''setter_signature'']"

definition dartInnerSignature :: "cursor \<Rightarrow> cursor" where
  "dartInnerSignature c =
     (case (if type_of c = ''method_signature'' then child_of_type dart_inner_types c else None) of Some k \<Rightarrow> k | None \<Rightarrow> c)"

definition dart_constructor_types :: "string list" where
  "dart_constructor_types = [''factory_constructor_signature'', ''constructor_signature'']"

definition dartConstructorSignature :: "cursor \<Rightarrow> cursor option" where
  "dartConstructorSignature c =
     (if type_of c \<in> set dart_constructor_types then Some c
      else if type_of c = ''method_signature'' then child_of_type dart_constructor_types c else None)"

definition dartEnclosingTypeName :: "string \<Rightarrow> cursor \<Rightarrow> string option" where
  "dartEnclosingTypeName src c =
     Option.bind (find (\<lambda>p. type_of p \<in> {''class_definition'', ''mixin_declaration'', ''extension_declaration'', ''enum_declaration''})
         (ancestors c))
       (\<lambda>p. map_option (\<lambda>k. getNodeText k src) (getChildByField p ''name''))"

text \<open>The class and the name of a constructor.\<close>

definition dartCtorInfo :: "string \<Rightarrow> cursor \<Rightarrow> (string \<times> string) option" where
  "dartCtorInfo src c =
     (case (dartConstructorSignature c, truthy (dartEnclosingTypeName src c)) of
        (Some ctor, Some className) \<Rightarrow>
          (case map (\<lambda>k. getNodeText k src) (filter (\<lambda>k. type_of k = ''identifier'') (namedChildren ctor)) of
             [] \<Rightarrow> None
           | i # is \<Rightarrow> if i \<noteq> className then None
                       else Some (className, case is of [] \<Rightarrow> className | j # _ \<Rightarrow> j))
      | _ \<Rightarrow> None)"

definition extractDartReturnType :: "string \<Rightarrow> cursor \<Rightarrow> string \<Rightarrow> string option" where
  "extractDartReturnType src c source =
     (case dartCtorInfo src c of
        Some (className, _) \<Rightarrow> Some className
      | None \<Rightarrow>
          Option.bind (child_of_type [''type_identifier''] (dartInnerSignature c))
            (\<lambda>t. if_identifier (last_dotted (trim (strip_angles (getNodeText t source))))))"

definition assignable_selectors :: "string list" where
  "assignable_selectors = [''unconditional_assignable_selector'', ''conditional_assignable_selector'']"

definition selector_method :: "cursor \<Rightarrow> cursor option" where
  "selector_method k = Option.bind (child_of_type assignable_selectors k) (child_of_type [''identifier''])"

definition dartCalleeOfArgPart :: "string \<Rightarrow> cursor \<Rightarrow> string option" where
  "dartCalleeOfArgPart src argPart =
     Option.bind (previousNamedSibling argPart) (\<lambda>prev.
       if type_of prev = ''identifier'' then Some (getNodeText prev src)
       else if type_of prev = ''selector''
       then map_option (\<lambda>m. case previousNamedSibling prev of
                Some r \<Rightarrow> if type_of r = ''identifier'' then getNodeText r src @ ''.'' @ getNodeText m src else getNodeText m src
              | None \<Rightarrow> getNodeText m src) (selector_method prev)
       else None)"

text \<open>The name of a method call whose accessor stands before the arguments.\<close>

definition dart_method_call :: "string \<Rightarrow> cursor \<Rightarrow> string \<Rightarrow> string" where
  "dart_method_call src prev name =
     (case previousNamedSibling prev of
        None \<Rightarrow> name
      | Some r \<Rightarrow>
          if type_of r = ''identifier'' then getNodeText r src @ ''.'' @ name
          else if type_of r = ''selector'' \<and> child_of_type [''argument_part''] r \<noteq> None
          then (case dartCalleeOfArgPart src r of
                  Some inner \<Rightarrow> if capital_start inner then chained inner name else name
                | None \<Rightarrow> name)
          else name)"

definition dart_selector_call :: "string \<Rightarrow> cursor \<Rightarrow> string option" where
  "dart_selector_call src c =
     (case (if child_of_type [''argument_part''] c = None then None else previousNamedSibling c) of
        None \<Rightarrow> None
      | Some prev \<Rightarrow>
          if type_of prev = ''identifier'' then Some (getNodeText prev src)
          else if type_of prev = ''selector''
          then map_option (\<lambda>m. dart_method_call src prev (getNodeText m src)) (selector_method prev)
          else if type_of prev \<in> set assignable_selectors
          then map_option (\<lambda>m. getNodeText m src) (child_of_type [''identifier''] prev)
          else None)"

definition dart_bare_call :: "string \<Rightarrow> cursor \<Rightarrow> string option" where
  "dart_bare_call src c =
     (let typeName = map_option (\<lambda>k. getNodeText k src) (child_of_type [''type_identifier''] c) in
      if type_of c = ''selector'' then dart_selector_call src c
      else if type_of c = ''new_expression'' then typeName
      else if type_of c = ''const_object_expression''
      then map_option (\<lambda>t. case child_of_type [''identifier''] c of
               Some n \<Rightarrow> t @ ''.'' @ getNodeText n src | None \<Rightarrow> t) typeName
      else None)"

definition dart_resolveBody :: "cursor \<Rightarrow> string \<Rightarrow> cursor option" where
  "dart_resolveBody c bodyField =
     (if type_of c = ''function_signature'' \<or> type_of c = ''method_signature''
      then (case nextNamedSibling c of
              Some n \<Rightarrow> if type_of n = ''function_body'' then Some n else None | None \<Rightarrow> None)
      else given_or (getChildByField c bodyField) (child_of_type [''class_body'', ''extension_body''] c))"

definition dart_signature_text :: "cursor \<Rightarrow> string \<Rightarrow> string option" where
  "dart_signature_text c source =
     (let sig = dartInnerSignature c;
          params = child_of_type [''formal_parameter_list''] sig;
          retType = child_of_type [''type_identifier'', ''void_type''] sig
      in truthy (Some (trim ((case retType of Some r \<Rightarrow> getNodeText r source @ '' '' | None \<Rightarrow> [])
           @ (case params of Some p \<Rightarrow> getNodeText p source | None \<Rightarrow> [])))))"

definition dart_visibility :: "string \<Rightarrow> cursor \<Rightarrow> visibility option" where
  "dart_visibility src c =
     (let nameNode = (if type_of c = ''method_signature''
                      then Option.bind (child_of_type dart_inner_types c) (child_of_type [''identifier''])
                      else getChildByField c ''name'')
      in Some (case nameNode of
                 Some n \<Rightarrow> if starts_with (getNodeText n src) ''_'' then V_private else V_public | None \<Rightarrow> V_public))"

definition dart_uri :: "string \<Rightarrow> cursor option \<Rightarrow> string" where
  "dart_uri source holder =
     (case Option.bind (Option.bind (Option.bind holder (child_of_type [''configurable_uri''])) (child_of_type [''uri'']))
             (child_of_type [''string_literal'']) of
        Some s \<Rightarrow> drop_quotes (getNodeText s source) | None \<Rightarrow> [])"

definition dart_import :: "cursor \<Rightarrow> string \<Rightarrow> import_info option" where
  "dart_import c source =
     (let imported = dart_uri source (Option.bind (child_of_type [''library_import''] c) (child_of_type [''import_specification'']));
          moduleName = nonempty_or imported (dart_uri source (child_of_type [''library_export''] c))
      in if moduleName = [] then None else Some (import_of moduleName c source))"

definition dart_ctor_is :: "string \<Rightarrow> (string \<Rightarrow> string \<Rightarrow> bool) \<Rightarrow> cursor \<Rightarrow> bool" where
  "dart_ctor_is src P c \<longleftrightarrow> (case dartCtorInfo src c of Some (className, ctorName) \<Rightarrow> P className ctorName | None \<Rightarrow> False)"

definition dart_name :: "string \<Rightarrow> cursor \<Rightarrow> string option" where
  "dart_name src c =
     (case dartCtorInfo src c of
        Some (className, ctorName) \<Rightarrow> if ctorName \<noteq> className then Some ctorName else None | None \<Rightarrow> None)"

definition dartExtractor :: "string \<Rightarrow> lang_extractor" where
  "dartExtractor src = plain_extractor\<lparr>
     le_functionTypes := [''function_signature''],
     le_classTypes := [''class_definition''],
     le_methodTypes := [''method_signature'', ''constructor_signature''],
     le_enumTypes := [''enum_declaration''],
     le_enumMemberTypes := [''enum_constant''],
     le_typeAliasTypes := [''type_alias''],
     le_importTypes := [''import_or_export''],
     le_extraClassNodeTypes := [''mixin_declaration'', ''extension_declaration''],
     le_resolveBody := dart_resolveBody,
     le_paramsField := ''formal_parameter_list'',
     le_returnField := Some ''type'',
     le_getReturnType := extractDartReturnType src,
     le_isMisparsedFunction := (\<lambda>_. dart_ctor_is src (\<lambda>className ctorName. ctorName = className)),
     le_getSignature := dart_signature_text,
     le_getVisibility := dart_visibility src,
     le_isAsync := (\<lambda>c. Some (case nextNamedSibling c of
         Some n \<Rightarrow> type_of n = ''function_body'' \<and> has_child ''async'' n | None \<Rightarrow> False)),
     le_isStatic := (\<lambda>c. Some (type_of c = ''method_signature'' \<and> has_child ''static'' c)),
     le_resolveName := (\<lambda>c _. dart_name src c),
     le_extractImport := Some dart_import,
     le_extractBareCall := (\<lambda>c _. dart_bare_call src c)\<rparr>"

section \<open>Scala\<close>

definition getValVarName :: "cursor \<Rightarrow> string \<Rightarrow> string option" where
  "getValVarName c source =
     (case getChildByField c ''pattern'' of
        None \<Rightarrow> None
      | Some p \<Rightarrow>
          if type_of p = ''identifier'' then Some (getNodeText p source)
          else map_option (\<lambda>k. getNodeText k source) (child_of_type [''identifier''] p))"

definition SCALA_BUILTIN_TYPES :: "string list" where
  "SCALA_BUILTIN_TYPES =
     [''Int'', ''Long'', ''Short'', ''Byte'', ''Float'', ''Double'', ''Boolean'', ''Char'', ''Unit'',
      ''String'', ''Any'', ''AnyRef'', ''AnyVal'', ''Nothing'', ''Null'']"

function emitScalaTypeRefs :: "string \<Rightarrow> string \<Rightarrow> cursor \<Rightarrow> unresolved_reference list" where
  "emitScalaTypeRefs source fromId c =
     (if type_of c = ''type_identifier'' then type_ref SCALA_BUILTIN_TYPES fromId (getNodeText c source) c
      else concat (map (emitScalaTypeRefs source fromId) (namedChildren c)))"
  by pat_completeness auto
termination
  by (relation "measure (\<lambda>(s, i, c). size (here c))") auto

declare emitScalaTypeRefs.simps [simp del]

definition extractScalaReturnType :: "cursor \<Rightarrow> string \<Rightarrow> string option" where
  "extractScalaReturnType c source =
     Option.bind (getChildByField c ''return_type'') (\<lambda>r.
       let raw = trim (getNodeText r source)
       in if starts_with raw ''this.'' then None
          else if_identifier (last_dotted (no_spaces (strip_squares raw))))"

definition scala_visibility :: "string \<Rightarrow> cursor \<Rightarrow> visibility" where
  "scala_visibility src c =
     (case first_some (\<lambda>k. word_in [(''private'', V_private), (''protected'', V_protected)] (getNodeText k src))
             (filter (\<lambda>k. type_of k \<in> {''modifiers'', ''access_modifier''}) (namedChildren c)) of
        Some v \<Rightarrow> v | None \<Rightarrow> V_public)"

definition scala_in_class :: "ext_state \<Rightarrow> bool" where
  "scala_in_class st =
     (case xs_stack st of
        [] \<Rightarrow> False
      | parentId # _ \<Rightarrow>
          (case node_with_id st parentId of
             None \<Rightarrow> False
           | Some n \<Rightarrow> n_kind n \<in> {NK_class, NK_trait, NK_interface, NK_struct, NK_enum, NK_module}))"

definition scala_value :: "string \<Rightarrow> extractor_context \<Rightarrow> cursor \<Rightarrow> string \<Rightarrow> ext_state \<Rightarrow> ext_state" where
  "scala_value src ctx c name st =
     (let val = (type_of c = ''val_definition''); source = ctx_source ctx;
          kind = (if scala_in_class st then NK_field else if val then NK_constant else NK_variable);
          typeNode = getChildByField c ''type'';
          sig = map_option (\<lambda>t. (if val then ''val'' else ''var'') @ '' '' @ name @ '': '' @ getNodeText t source) typeNode
      in case (ctx_createNode ctx kind name c
                 (no_extra\<lparr>ne_signature := sig, ne_visibility := Some (scala_visibility src c)\<rparr>) st, typeNode) of
           ((Some n, st'), Some t) \<Rightarrow> add_refs (emitScalaTypeRefs source (n_id n) t) st'
         | ((_, st'), _) \<Rightarrow> st')"

definition scala_enum_case :: "extractor_context \<Rightarrow> cursor \<Rightarrow> ext_state \<Rightarrow> ext_state" where
  "scala_enum_case ctx k st =
     (case (if type_of k \<in> {''simple_enum_case'', ''full_enum_case''} then getChildByField k ''name'' else None) of
        None \<Rightarrow> st
      | Some n \<Rightarrow> snd (ctx_createNode ctx NK_enum_member (getNodeText n (ctx_source ctx)) k no_extra st))"

definition scala_visit :: "string \<Rightarrow> extractor_context \<Rightarrow> cursor \<Rightarrow> ext_state \<Rightarrow> bool \<times> ext_state" where
  "scala_visit src ctx c st =
     (if type_of c \<in> {''val_definition'', ''var_definition''}
      then (case truthy (getValVarName c (ctx_source ctx)) of
              None \<Rightarrow> (False, st)
            | Some name \<Rightarrow> (True, scala_value src ctx c name st))
      else if type_of c = ''enum_case_definitions'' then (True, fold (scala_enum_case ctx) (namedChildren c) st)
      else if type_of c = ''extension_definition''
      then (True, (case getChildByField c ''body'' of None \<Rightarrow> st | Some b \<Rightarrow> visit_all (ctx_visitNode ctx) b st))
      else (False, st))"

definition scala_signature :: "cursor \<Rightarrow> string \<Rightarrow> string option" where
  "scala_signature c source =
     truthy (Some ((case getChildByField c ''parameters'' of Some p \<Rightarrow> getNodeText p source | None \<Rightarrow> [])
       @ (case getChildByField c ''return_type'' of Some r \<Rightarrow> '': '' @ getNodeText r source | None \<Rightarrow> [])))"

definition scala_import :: "cursor \<Rightarrow> string \<Rightarrow> import_info option" where
  "scala_import c source =
     map_option (\<lambda>k. import_of (getNodeText k source) c source)
       (given_or (getChildByField c ''path'') (child_of_type [''identifier'', ''stable_identifier''] c))"

definition scalaExtractor :: "string \<Rightarrow> lang_extractor" where
  "scalaExtractor src = plain_extractor\<lparr>
     le_classTypes := [''class_definition'', ''object_definition'', ''trait_definition''],
     le_methodTypes := [''function_definition'', ''function_declaration''],
     le_enumTypes := [''enum_definition''],
     le_typeAliasTypes := [''type_definition''],
     le_importTypes := [''import_declaration''],
     le_callTypes := [''call_expression''],
     le_returnField := Some ''return_type'',
     le_getReturnType := extractScalaReturnType,
     le_interfaceKind := Some NK_trait,
     le_classifyClassNode := (\<lambda>c. if type_of c = ''trait_definition'' then Ck_trait else Ck_class),
     le_getSignature := scala_signature,
     le_getVisibility := (\<lambda>c. Some (scala_visibility src c)),
     le_isAsync := (\<lambda>_. Some False),
     le_isStatic := (\<lambda>c. Some (list_ex (\<lambda>k. type_of k = ''modifiers'' \<and> str_includes (getNodeText k src) ''static'') (namedChildren c))),
     le_visitNode := scala_visit src,
     le_extractImport := Some scala_import\<rparr>"

section \<open>The table of languages\<close>

fun EXTRACTORS :: "language \<Rightarrow> (string \<Rightarrow> lang_extractor) option" where
  "EXTRACTORS L_typescript = Some typescriptExtractor"
| "EXTRACTORS L_tsx = Some typescriptExtractor"
| "EXTRACTORS L_javascript = Some javascriptExtractor"
| "EXTRACTORS L_jsx = Some javascriptExtractor"
| "EXTRACTORS L_python = Some pythonExtractor"
| "EXTRACTORS L_go = Some goExtractor"
| "EXTRACTORS L_rust = Some rustExtractor"
| "EXTRACTORS L_java = Some javaExtractor"
| "EXTRACTORS L_c = Some cExtractor"
| "EXTRACTORS L_cpp = Some cppExtractor"
| "EXTRACTORS L_csharp = Some csharpExtractor"
| "EXTRACTORS L_php = Some phpExtractor"
| "EXTRACTORS L_ruby = Some rubyExtractor"
| "EXTRACTORS L_swift = Some swiftExtractor"
| "EXTRACTORS L_kotlin = Some kotlinExtractor"
| "EXTRACTORS L_dart = Some dartExtractor"
| "EXTRACTORS L_pascal = Some pascalExtractor"
| "EXTRACTORS L_scala = Some scalaExtractor"
| "EXTRACTORS L_lua = Some luaExtractor"
| "EXTRACTORS L_luau = Some luauExtractor"
| "EXTRACTORS L_objc = Some objcExtractor"
| "EXTRACTORS _ = None"

end
