(* ===== verification/ExtractTermination.thy ===== *)
theory ExtractTermination
  imports LangMobile
begin

text \<open>
  The visitors end. Every call of a visitor within a step is on a cursor of lower rank: a descendant, or a
  plain sibling that is the body of a declaration. So the number of levels does not show, and the visitors
  satisfy the recursion of the code.
\<close>

section \<open>Cursors of a tree\<close>

fun on_path :: "snode \<Rightarrow> (nat \<times> snode) list \<Rightarrow> bool" where
  "on_path n [] \<longleftrightarrow> True"
| "on_path n ((i, p) # up) \<longleftrightarrow> i < length (sn_children p) \<and> snd (sn_children p ! i) = n \<and> on_path p up"

definition genuine :: "cursor \<Rightarrow> bool" where
  "genuine c \<longleftrightarrow> on_path (here c) (way_up c)"

definition lower :: "lang_extractor \<Rightarrow> cursor \<Rightarrow> cursor \<Rightarrow> bool" where
  "lower X c k \<longleftrightarrow> genuine k \<and> rank X k < rank X c"

lemma top_genuine [simp]: "genuine (top_cursor n)"
  by (simp add: genuine_def top_cursor_def)

lemma child_genuine: "genuine c \<Longrightarrow> k \<in> set (all_children c) \<Longrightarrow> genuine k"
  by (cases c) (auto simp: genuine_def all_children_def child_at_def)

lemma room_child: "k \<in> set (all_children c) \<Longrightarrow> room k = size (here c)"
  by (auto simp: all_children_def child_at_def room_def)

lemma room_here: "genuine c \<Longrightarrow> size (here c) < room c"
  by (cases c) (auto simp: genuine_def room_def size_child split: list.split)

lemma rank_less: "room k < room c \<Longrightarrow> rank X k < rank X c"
  by (simp add: rank_def)

lemma lower_child: "genuine c \<Longrightarrow> k \<in> set (all_children c) \<Longrightarrow> lower X c k"
  by (simp add: lower_def child_genuine rank_less room_child room_here)

lemma lower_genuine: "lower X c k \<Longrightarrow> genuine k"
  by (simp add: lower_def)

lemma lower_trans: "lower X a b \<Longrightarrow> lower X b c \<Longrightarrow> lower X a c"
  by (simp add: lower_def)

lemma lower_named: "genuine c \<Longrightarrow> k \<in> set (namedChildren c) \<Longrightarrow> lower X c k"
  by (simp add: lower_child named_in_all)

lemma lower_field: "genuine c \<Longrightarrow> getChildByField c f = Some k \<Longrightarrow> lower X c k"
  by (simp add: lower_child field_in_all)

lemma lower_typed: "genuine c \<Longrightarrow> child_of_type ts c = Some k \<Longrightarrow> lower X c k"
  using typed_child_in lower_named by blast

lemma lower_indexed: "genuine c \<Longrightarrow> namedChild c i = Some k \<Longrightarrow> lower X c k"
  using named_child_in lower_named by blast

lemmas lower_steps = lower_named lower_field lower_typed lower_indexed

lemma first_some_in: "first_some f xs = Some y \<Longrightarrow> \<exists>x\<in>set xs. f x = Some y"
  by (induction xs) (auto split: option.splits)

lemma as_object_lower: "genuine c \<Longrightarrow> as_object c = Some k \<Longrightarrow> k = c \<or> lower X c k"
proof (induction c arbitrary: k rule: as_object.induct)
  case (1 c)
  show ?case
  proof (cases "type_of c \<in> set object_types")
    case True
    then show ?thesis using 1 by (simp add: as_object.simps)
  next
    case False
    then obtain x where x: "x \<in> set (namedChildren c)" "as_object x = Some k" "type_of c = ''parenthesized_expression''"
      using 1(3) by (auto simp: as_object.simps [of c] dest: first_some_in split: if_splits)
    have "k = x \<or> lower X x k"
      using 1(1) [OF False x(3,1) lower_genuine [OF lower_named [OF 1(2) x(1)]] x(2)] .
    then show ?thesis
      using lower_named [OF 1(2) x(1)] lower_trans by blast
  qed
qed

lemma functionReturnedObject_lower:
  assumes "genuine c" "functionReturnedObject c = Some k"
  shows "lower X c k"
proof -
  obtain b where b: "getChildByField c ''body'' = Some b"
    using assms(2) by (auto simp: functionReturnedObject_def split: option.splits)
  note lb = lower_field [OF assms(1) b, of X]
  have "(\<exists>x. (x = b \<or> (\<exists>s. lower X b s \<and> lower X s x)) \<and> as_object x = Some k)"
  proof (cases "as_object b")
    case None
    then obtain s x where s: "s \<in> set (namedChildren b)" "x \<in> set (namedChildren s)" "as_object x = Some k"
      using assms(2) b by (auto simp: functionReturnedObject_def dest!: first_some_in split: if_splits)
    then show ?thesis
      using lower_named lower_genuine [OF lb] lower_genuine by meson
  qed (use assms(2) b in \<open>auto simp: functionReturnedObject_def\<close>)
  then obtain x where x: "x = b \<or> lower X b x" "as_object x = Some k"
    using lower_trans by blast
  then have "lower X c x"
    using lb lower_trans by blast
  then show ?thesis
    using as_object_lower [OF lower_genuine x(2)] lower_trans by blast
qed

lemma returned_object_lower: "genuine c \<Longrightarrow> returned_object d c = Some k \<Longrightarrow> lower X c k"
proof (induction d arbitrary: c)
  case (Suc d)
  then obtain args where args: "getChildByField c ''arguments'' = Some args"
    by (auto split: option.splits)
  then obtain x where x: "x \<in> set (namedChildren args)"
      "(if type_of x \<in> set function_values then functionReturnedObject x
        else if type_of x = ''call_expression'' then returned_object d x else None) = Some k"
    using Suc.prems(2) by (auto dest: first_some_in)
  have lx: "lower X c x"
    using lower_field [OF Suc.prems(1) args] lower_named x(1) lower_genuine lower_trans by meson
  have "lower X x k"
    using x(2) functionReturnedObject_lower Suc.IH lower_genuine [OF lx] by (auto split: if_splits)
  then show ?case
    using lx lower_trans by blast
qed simp

lemma object_of_functions_lower: "genuine v \<Longrightarrow> object_of_functions v = Some k \<Longrightarrow> k = v \<or> lower X v k"
  using returned_object_lower by (auto simp: object_of_functions_def findInitializerReturnedObject_def split: if_splits)

section \<open>Visitors that agree below a cursor\<close>

definition below :: "x_env \<Rightarrow> cursor \<Rightarrow> cursor \<Rightarrow> bool" where
  "below E = lower (x_extractor E)"

text \<open>Where a configuration finds bodies: below the declaration.\<close>

definition resolves_below :: "x_env \<Rightarrow> bool" where
  "resolves_below E \<longleftrightarrow> (\<forall>a f b. genuine a \<longrightarrow> le_resolveBody (x_extractor E) a f = Some b \<longrightarrow> below E a b)"

locale agreeing =
  fixes E :: x_env and c :: cursor and vn vb vn' vb' :: visitor
  assumes c: "genuine c"
    and vn: "below E c k \<Longrightarrow> vn k = vn' k"
    and vb: "below E c k \<Longrightarrow> vb k = vb' k"
    and resolve: "resolves_below E"
begin

definition near :: "cursor \<Rightarrow> bool" where
  "near k \<longleftrightarrow> k = c \<or> below E c k"

lemma near_here [simp]: "near c"
  by (simp add: near_def)

lemma near_genuine: "near k \<Longrightarrow> genuine k"
  using c by (auto simp: near_def below_def lower_def)

lemma near_lower: "near k \<Longrightarrow> lower (x_extractor E) k x \<Longrightarrow> below E c x"
  using lower_trans by (auto simp: near_def below_def)

lemma near_named: "near k \<Longrightarrow> x \<in> set (namedChildren k) \<Longrightarrow> below E c x"
  by (rule near_lower) (auto intro: lower_named near_genuine)

lemma near_field: "near k \<Longrightarrow> getChildByField k f = Some x \<Longrightarrow> below E c x"
  by (rule near_lower) (auto intro: lower_field near_genuine)

lemma near_typed: "near k \<Longrightarrow> child_of_type ts k = Some x \<Longrightarrow> below E c x"
  by (rule near_lower) (auto intro: lower_typed near_genuine)

lemma near_below: "below E c x \<Longrightarrow> near x"
  by (simp add: near_def)

lemma near_body: "near k \<Longrightarrow> body_of E k = Some b \<Longrightarrow> below E c b"
  using resolve near_field near_lower near_genuine
  by (auto simp: body_of_def given_or_def resolves_below_def below_def split: option.splits)

lemma child_same:
  assumes "x \<in> set (namedChildren k)" "near k"
  shows "vn x = vn' x" "vb x = vb' x"
  using vn vb near_named assms by blast+

lemma visit_all_same: "near k \<Longrightarrow> visit_all vn k = visit_all vn' k"
  unfolding visit_all_def by (intro ext fold_cong refl) (simp add: child_same)

lemma visit_all_body_same: "near k \<Longrightarrow> visit_all vb k = visit_all vb' k"
  unfolding visit_all_def by (intro ext fold_cong refl) (simp add: child_same)

lemma visit_body_same:
  assumes "near k"
  shows "visit_body E vb k = visit_body E vb' k"
proof -
  have "vb b = vb' b" if "body_of E k = Some b" for b
    using near_body [OF assms that] vb by blast
  then show ?thesis
    unfolding visit_body_def by (intro ext) (simp split: option.split)
qed

lemma callables_same:
  assumes "near k"
  shows "callable_body E vb k = callable_body E vb' k" "method_core E vb k = method_core E vb' k"
    "function_core E vb n k = function_core E vb' n k" "extractFunction E vb n k = extractFunction E vb' n k"
    "extractMethod E vb k = extractMethod E vb' k"
proof -
  show body: "callable_body E vb k = callable_body E vb' k"
    unfolding callable_body_def visit_body_same [OF assms] ..
  show m: "method_core E vb k = method_core E vb' k"
    unfolding method_core_def body visit_body_same [OF assms] ..
  show "function_core E vb n k = function_core E vb' n k" for n
    unfolding function_core_def body visit_body_same [OF assms] ..
  note f = this
  show "extractFunction E vb n k = extractFunction E vb' n k" for n
    unfolding extractFunction_def m f ..
  note g = this
  show "extractMethod E vb k = extractMethod E vb' k"
    unfolding extractMethod_def m g visit_body_same [OF assms] ..
qed

lemma body_or_self_near: "near k \<Longrightarrow> near (body_or_self E k)"
  by (auto simp: body_or_self_def intro: near_below near_body split: option.split)

lemma visit_members_same: "near k \<Longrightarrow> visit_members E vn k = visit_members E vn' k"
  unfolding visit_members_def by (intro ext fold_cong refl) (simp add: child_same)

lemma types_same:
  assumes "near k"
  shows "extractClass E vn kind k = extractClass E vn' kind k" "extractInterface E vn k = extractInterface E vn' k"
    "extractStruct E vn k = extractStruct E vn' k" "extractEnum E vn k = extractEnum E vn' k"
    "extractClassified E vn k = extractClassified E vn' k"
proof -
  show cl: "extractClass E vn kind k = extractClass E vn' kind k" for kind
    unfolding extractClass_def visit_all_same [OF body_or_self_near [OF assms]] ..
  show i: "extractInterface E vn k = extractInterface E vn' k"
    unfolding extractInterface_def visit_all_same [OF body_or_self_near [OF assms]] ..
  show s: "extractStruct E vn k = extractStruct E vn' k"
    unfolding extractStruct_def using visit_all_same near_below near_field [OF assms] by (auto split: option.split)
  show e: "extractEnum E vn k = extractEnum E vn' k"
    unfolding extractEnum_def using visit_members_same near_below near_body [OF assms] by (auto split: option.split)
  show "extractClassified E vn k = extractClassified E vn' k"
    unfolding extractClassified_def cl i s e ..
qed

lemma anonymous_same: "near b \<Longrightarrow> extractAnonymousClass E vn k b = extractAnonymousClass E vn' k b"
  unfolding extractAnonymousClass_def using visit_all_same by simp

lemma objects_same:
  assumes "near k"
  shows "extractObjectLiteralFunctions E vb k = extractObjectLiteralFunctions E vb' k"
proof -
  have "object_function E vb m = object_function E vb' m" if "m \<in> set (namedChildren k)" for m
  proof -
    have m: "near m"
      using near_below [OF near_named [OF assms that]] .
    have "extractFunction E vb n x = extractFunction E vb' n x" if "getChildByField m f = Some x" for n f x
      using callables_same(4) [OF near_below [OF near_field [OF m that]]] .
    then show ?thesis
      unfolding object_function_def using callables_same(4) [OF m] by (intro ext) (auto split: option.split)
  qed
  then show ?thesis
    unfolding extractObjectLiteralFunctions_def by (intro ext fold_cong) simp_all
qed

lemma walk_initializer_same:
  assumes "below E c v"
  shows "walk_initializer E vb x v = walk_initializer E vb' x v"
proof -
  have "extractObjectLiteralFunctions E vb k = extractObjectLiteralFunctions E vb' k" if "object_of_functions v = Some k" for k
    using object_of_functions_lower [OF near_genuine [OF near_below [OF assms]] that] near_lower [OF near_below [OF assms]]
      near_below assms objects_same by blast
  then show ?thesis
    unfolding walk_initializer_def Let_def vb [OF assms] by (intro ext) (auto split: option.split)
qed

lemma variables_same: "extractVariable E vb c = extractVariable E vb' c"
proof -
  have ts: "ts_declarator E vb kind c d = ts_declarator E vb' kind c d" if "d \<in> set (declarators_in c)" for kind d
  proof -
    have "below E c v" if "getChildByField d ''value'' = Some v" for v
      using near_field [OF near_below [OF near_named [OF near_here]] that] \<open>d \<in> set (declarators_in c)\<close>
      by (simp add: declarators_in_def)
    then show ?thesis
      unfolding ts_declarator_def using callables_same(4) near_below walk_initializer_same
      by (intro ext) (auto split: option.split)
  qed
  have go: "go_spec E vb c d = go_spec E vb' c d" if "d \<in> set (namedChildren c)" for d
  proof -
    have "vb v = vb' v" if "getChildByField d ''value'' = Some v" for v
      using vb [OF near_field [OF near_below [OF near_named [OF near_here \<open>d \<in> set (namedChildren c)\<close>]] that]] .
    then show ?thesis
      unfolding go_spec_def Let_def by (intro ext) (auto split: option.split prod.split)
  qed
  have folds: "fold (ts_declarator E vb kind c) (declarators_in c) = fold (ts_declarator E vb' kind c) (declarators_in c)" for kind
    using ts by (intro ext fold_cong) simp_all
  have specs: "fold (go_spec E vb c) (filter P (namedChildren c)) = fold (go_spec E vb' c) (filter P (namedChildren c))" for P
    using go by (intro ext fold_cong) simp_all
  show ?thesis
    unfolding extractVariable_def folds specs ..
qed

lemma alias_same: "extractTypeAlias E vn c = extractTypeAlias E vn' c"
proof -
  have below_type: "below E c t" if "given_or (getChildByField c ''type'') (child_of_type ts c) = Some t" for t ts
    using that near_field [of c] near_typed [of c] by (auto simp: given_or_def split: option.splits)
  have s: "alias_struct E vn c = alias_struct E vn' c"
  proof -
    have "visit_all vn (case getChildByField t f of Some b \<Rightarrow> b | None \<Rightarrow> t)
        = visit_all vn' (case getChildByField t f of Some b \<Rightarrow> b | None \<Rightarrow> t)"
      if "given_or (getChildByField c ''type'') (child_of_type ts c) = Some t" for t ts f
      using near_below [OF below_type [OF that]] near_field near_below
      by (intro visit_all_same) (auto split: option.split)
    then show ?thesis
      unfolding alias_struct_def by (intro ext) (auto split: option.split)
  qed
  have e: "alias_enum E vn c = alias_enum E vn' c"
  proof -
    have "visit_members E vn b = visit_members E vn' b" if "child_of_type ts c = Some t" "body_of E t = Some b" for ts t b
      using visit_members_same [OF near_below [OF near_body [OF near_below [OF near_typed [OF near_here that(1)]] that(2)]]] .
    then show ?thesis
      unfolding alias_enum_def Let_def by (intro ext) (auto split: option.split)
  qed
  show ?thesis
    unfolding extractTypeAlias_def s e ..
qed

section \<open>The steps agree\<close>

lemma pascal_same: "visitPascalNode E vn c = visitPascalNode E vn' c"
proof -
  have typed: "visit_all vn t = visit_all vn' t" if "child_of_type ts c = Some t" for ts t
    using visit_all_same [OF near_below [OF near_typed [OF near_here that]]] .
  have "extractPascalDeclType E vn c = extractPascalDeclType E vn' c"
    unfolding extractPascalDeclType_def Let_def by (intro ext) (auto simp: typed split: option.split)
  note decl = this
  show ?thesis
    unfolding visitPascalNode_def decl visit_all_same [OF near_here] ..
qed

lemma instantiation_same: "instantiation_step E vn c = instantiation_step E vn' c"
proof -
  have "extractAnonymousClass E vn c b = extractAnonymousClass E vn' c b" if "findAnonymousClassBody c = Some b" for b
    using anonymous_same [OF near_below [OF near_typed [OF near_here]]] that by (simp add: findAnonymousClassBody_def)
  then show ?thesis
    unfolding instantiation_step_def Let_def by (intro ext) (auto split: option.split)
qed

lemma dispatch_same: "dispatch_node E vn vb c = dispatch_node E vn' vb' c"
  unfolding dispatch_node_def dispatch_declaration_def dispatch_reference_def
    callables_same [OF near_here] types_same [OF near_here] alias_same variables_same instantiation_same ..

lemma visit_default_same: "visit_default E vn vb c = visit_default E vn' vb' c"
  unfolding visit_default_def dispatch_same visit_all_same [OF near_here] ..

lemma visit_step_same:
  assumes "\<And>st. le_visitNode (x_extractor E) (makeExtractorContext E vn vb) c st =
      le_visitNode (x_extractor E) (makeExtractorContext E vn' vb') c st"
  shows "visit_step E vn vb c = visit_step E vn' vb' c"
  unfolding visit_step_def pascal_same visit_default_same assms ..

lemma body_step_same: "body_step E vn vb c = body_step E vn' vb' c"
  unfolding body_step_def body_calls_def body_structure_def
    callables_same [OF near_here] types_same [OF near_here] instantiation_same visit_all_body_same [OF near_here] ..

end

section \<open>The visitors\<close>

text \<open>What a language promises: its hook calls the visitors only below its node, and bodies are found below.\<close>

locale local_hooks =
  fixes E :: x_env
  assumes hook_local: "agreeing E c vn vb vn' vb' \<Longrightarrow>
      le_visitNode (x_extractor E) (makeExtractorContext E vn vb) c st =
      le_visitNode (x_extractor E) (makeExtractorContext E vn' vb') c st"
    and resolve: "resolves_below E"
begin

lemma levels_stable:
  "genuine c \<Longrightarrow> rank (x_extractor E) c < n \<Longrightarrow> rank (x_extractor E) c < m \<Longrightarrow> visit_levels n E b c = visit_levels m E b c"
proof (induction n arbitrary: m b c)
  case (Suc n)
  then obtain m' where m: "m = Suc m'"
    by (cases m) simp_all
  have same: "visit_levels n E b' k = visit_levels m' E b' k" if "below E c k" for k b'
    using that Suc.IH [of k m' b'] Suc.prems m by (auto simp: below_def lower_def)
  have a: "agreeing E c (visit_levels n E True) (visit_levels n E False) (visit_levels m' E True) (visit_levels m' E False)"
    using Suc.prems(1) same resolve by unfold_locales
  show ?case
    unfolding m using agreeing.visit_step_same [OF a hook_local [OF a]] agreeing.body_step_same [OF a]
    by (intro ext) simp
qed simp

lemma visitors_below:
  assumes "genuine c"
  shows "agreeing E c (visit_levels (rank (x_extractor E) c) E True) (visit_levels (rank (x_extractor E) c) E False)
    (visitNode E) (visitFunctionBody E)"
proof -
  have "visit_levels (rank (x_extractor E) c) E b k = visit_levels (Suc (rank (x_extractor E) k)) E b k"
    if "below E c k" for b k
    using that by (intro levels_stable) (auto simp: below_def lower_def)
  then show ?thesis
    using assms resolve by unfold_locales (simp_all add: visitNode_def visitFunctionBody_def fun_eq_iff)
qed

text \<open>The recursion of the code.\<close>

lemma visitNode_step: "genuine c \<Longrightarrow> visitNode E c st = visit_step E (visitNode E) (visitFunctionBody E) c st"
  using agreeing.visit_step_same [OF visitors_below hook_local [OF visitors_below]]
  by (simp add: visitNode_def [of E c])

lemma visitFunctionBody_step:
  "genuine c \<Longrightarrow> visitFunctionBody E c st = body_step E (visitNode E) (visitFunctionBody E) c st"
  using agreeing.body_step_same [OF visitors_below] by (simp add: visitFunctionBody_def [of E c])

text \<open>More levels than the rank give the same.\<close>

lemma enough_levels:
  "genuine c \<Longrightarrow> rank (x_extractor E) c < n \<Longrightarrow> visit_levels n E b c st = (if b then visitNode E c st else visitFunctionBody E c st)"
  using levels_stable [of c n "Suc (rank (x_extractor E) c)" b] by (simp add: visitNode_def visitFunctionBody_def)

end

end
