(* ===== verification/ExtractFile.thy ===== *)
theory ExtractFile
  imports Indexer LangMobile
begin

text \<open>
  The extraction of a file: \<open>TreeSitterExtractor.extract\<close> and the function \<open>extractFromSource\<close>
  (\<open>extraction/tree-sitter.ts\<close>). The parsers (\<open>getParser\<close>, a module of WebAssembly) are a parameter, as are
  the extractors of component files and of frameworks. An exception is the left value of a sum.
\<close>

section \<open>A syntax tree\<close>

definition pre_parsed :: "language \<Rightarrow> string \<Rightarrow> string" where
  "pre_parsed lang source = (case EXTRACTORS lang of Some config \<Rightarrow> le_preParse (config source) source | None \<Rightarrow> source)"

definition language_env :: "string \<Rightarrow> language \<Rightarrow> string \<Rightarrow> (string \<Rightarrow> string) \<Rightarrow> nat \<Rightarrow> x_env" where
  "language_env filePath lang source digest now =
     \<lparr>x_filePath = filePath, x_language = lang, x_source = source,
      x_extractor = (case EXTRACTORS lang of Some config \<Rightarrow> config source | None \<Rightarrow> plain_extractor),
      x_digest = digest, x_now = now\<rparr>"

definition file_root_node :: "string \<Rightarrow> language \<Rightarrow> string \<Rightarrow> nat \<Rightarrow> node" where
  "file_root_node filePath lang source now =
     \<lparr>n_id = ''file:'' @ filePath, n_kind = NK_file, n_name = path_basename filePath, n_qualifiedName = filePath,
      n_filePath = filePath, n_language = lang, n_startLine = 1,
      n_endLine = length (split_by (\<lambda>c. c = CHR 0x0A) source), n_startColumn = 0, n_endColumn = 0,
      n_docstring = None, n_signature = None, n_visibility = None, n_isExported = Some False, n_isAsync = None,
      n_isStatic = None, n_isAbstract = None, n_decorators = None, n_typeParameters = None, n_returnType = None,
      n_updatedAt = now\<rparr>"

definition file_state :: "node \<Rightarrow> ext_state" where
  "file_state n = \<lparr>xs_nodes = [n], xs_edges = [], xs_refs = [], xs_stack = [n_id n], xs_methodIndex = None\<rparr>"

text \<open>The visit of the tree under the node of the file; without a configuration nothing is visited.\<close>

definition walk_file :: "x_env \<Rightarrow> node \<Rightarrow> snode \<Rightarrow> ext_state" where
  "walk_file E fileNode tree =
     (if EXTRACTORS (x_language E) = None then pop_scope (file_state fileNode)
      else (case extractFilePackage E (top_cursor tree) (file_state fileNode) of
          (None, st) \<Rightarrow> pop_scope (visitNode E (top_cursor tree) st)
        | (Some packageNodeId, st) \<Rightarrow> pop_scope (in_scope packageNodeId (visitNode E (top_cursor tree)) st)))"

section \<open>\<open>extract\<close>\<close>

text \<open>\<open>getParser\<close> and \<open>parse\<close>: a parser may be missing, throw, or give no tree.\<close>

type_synonym parsers = "language \<Rightarrow> (string \<Rightarrow> string + snode option) option"

definition fatal_messages :: "string list" where
  "fatal_messages = [''memory access out of bounds'', ''out of memory'']"

definition parse_failure :: "string \<Rightarrow> string \<Rightarrow> string + extraction_result" where
  "parse_failure filePath msg =
     (if list_ex (str_includes msg) fatal_messages then Inl msg
      else Inr (failed filePath (''Parse error: '' @ msg) True ''parse_error''))"

definition extract_file :: "parsers \<Rightarrow> (string \<Rightarrow> string) \<Rightarrow> nat \<Rightarrow> string \<Rightarrow> string \<Rightarrow> language \<Rightarrow> string + extraction_result" where
  "extract_file getParser digest now filePath source lang =
     (if \<not> isLanguageSupported lang
      then Inr (failed filePath (''Unsupported language: '' @ language_str lang) True ''unsupported_language'')
      else (case getParser lang of
          None \<Rightarrow> Inr (failed filePath (''Failed to get parser for language: '' @ language_str lang) True ''parser_error'')
        | Some parse \<Rightarrow>
            (let text = pre_parsed lang source in
             case parse text of
               Inl msg \<Rightarrow> parse_failure filePath msg
             | Inr None \<Rightarrow> parse_failure filePath ''Parser returned null tree''
             | Inr (Some tree) \<Rightarrow>
                 (let E = language_env filePath lang text digest now;
                      st = walk_file E (file_root_node filePath lang text now) tree
                  in Inr \<lparr>xr_nodes = xs_nodes st, xr_edges = xs_edges st, xr_unresolvedReferences = xs_refs st,
                          xr_errors = []\<rparr>))))"

section \<open>\<open>extractFromSource\<close>\<close>

text \<open>The extractors of component files, and those of frameworks (\<open>FrameworkResolver.extract\<close>).\<close>

datatype custom_extractor =
    SvelteExtractor | VueExtractor | LiquidExtractor | RazorExtractor | MyBatisExtractor | DfmExtractor

record framework_extractor =
  fx_name :: string
  fx_languages :: "language list option"
  fx_extract :: "(string \<Rightarrow> string \<Rightarrow> string + node list \<times> unresolved_reference list) option"

definition getApplicableFrameworks :: "framework_extractor list \<Rightarrow> language \<Rightarrow> framework_extractor list" where
  "getApplicableFrameworks detected lang =
     filter (\<lambda>fw. case fx_languages fw of None \<Rightarrow> True | Some ls \<Rightarrow> lang \<in> set ls) detected"

definition path_extname :: "string \<Rightarrow> string" where
  "path_extname p =
     (let base = path_basename p in
      if base = ''..'' then []
      else (case last_index_of base ''.'' of None \<Rightarrow> [] | Some k \<Rightarrow> if k = 0 then [] else drop k base))"

definition custom_extractor_of :: "language \<Rightarrow> string \<Rightarrow> custom_extractor option" where
  "custom_extractor_of lang filePath =
     (if lang = L_svelte then Some SvelteExtractor
      else if lang = L_vue then Some VueExtractor
      else if lang = L_liquid then Some LiquidExtractor
      else if lang = L_razor then Some RazorExtractor
      else if lang = L_xml then Some MyBatisExtractor
      else if lang = L_pascal \<and> to_lower (path_extname filePath) \<in> {''.dfm'', ''.fmx''} then Some DfmExtractor
      else None)"

definition run_framework :: "string \<Rightarrow> string \<Rightarrow> framework_extractor \<Rightarrow> extraction_result \<Rightarrow> extraction_result" where
  "run_framework filePath source fw result =
     (case fx_extract fw of
        None \<Rightarrow> result
      | Some f \<Rightarrow>
          (case f filePath source of
             Inr (nodes, refs) \<Rightarrow>
               result\<lparr>xr_nodes := xr_nodes result @ nodes,
                 xr_unresolvedReferences := xr_unresolvedReferences result @ refs\<rparr>
           | Inl msg \<Rightarrow>
               result\<lparr>xr_errors := xr_errors result @
                 [\<lparr>xe_message = ''Framework extractor '' @ [CHR 0x27] @ fx_name fw @ [CHR 0x27] @ '' failed: '' @ msg,
                   xe_filePath = Some filePath, xe_isError = False, xe_code = None\<rparr>]\<rparr>))"

definition extractFromSource ::
    "parsers \<Rightarrow> (custom_extractor \<Rightarrow> string \<Rightarrow> string \<Rightarrow> string + extraction_result) \<Rightarrow> framework_extractor list
     \<Rightarrow> (string \<Rightarrow> string) \<Rightarrow> nat \<Rightarrow> string \<Rightarrow> string \<Rightarrow> language option \<Rightarrow> string list \<Rightarrow> string + extraction_result" where
  "extractFromSource getParser custom resolvers digest now filePath source lang frameworkNames =
     (let detected = (case lang of Some l \<Rightarrow> l | None \<Rightarrow> detectLanguage filePath (Some source));
          result =
            (case custom_extractor_of detected filePath of
               Some x \<Rightarrow> custom x filePath source
             | None \<Rightarrow>
                 if isFileLevelOnlyLanguage detected then Inr no_result
                 else extract_file getParser digest now filePath source detected)
      in map_sum (\<lambda>msg. msg)
           (fold (run_framework filePath source)
              (getApplicableFrameworks (filter (\<lambda>r. fx_name r \<in> set frameworkNames) resolvers) detected)) result)"

end
