(* ===== verification/LanguageLaws.thy ===== *)
theory LanguageLaws
  imports ExtractLaws ExtractTermination ExtractFile
begin

text \<open>
  Every language keeps the two contracts of a configuration: its hook keeps the invariant of the extractor, and
  it calls the visitors only below the node that it is given.
\<close>

section \<open>The hooks keep the invariant\<close>

lemma context_simps [simp]:
  "ctx_createNode (makeExtractorContext E vn vb) = createNode E"
  "ctx_visitNode (makeExtractorContext E vn vb) = vn"
  "ctx_visitFunctionBody (makeExtractorContext E vn vb) = vb"
  "ctx_filePath (makeExtractorContext E vn vb) = x_env.x_filePath E"
  "ctx_source (makeExtractorContext E vn vb) = x_source E"
  by (simp_all add: makeExtractorContext_def)

context visitors
begin

abbreviation ctx :: extractor_context where
  "ctx \<equiv> makeExtractorContext E vn vb"

lemma created_grows:
  assumes "well_formed E st"
  shows "grows E st (snd (createNode E kind name c x st))"
  by (rule createNode_grows(1) [OF assms prod.collapse [symmetric]])

lemma created_scope_grows:
  assumes "well_formed E st" "createNode E kind name c x st = (Some n, st')" "keeps E f"
  shows "grows E st (in_scope (n_id n) f st')"
proof -
  note made = createNode_grows [OF assms(1,2)]
  show ?thesis
    using grows_trans [OF made(1) in_scope_grows [OF grows_wf [OF made(1)] _ assms(3)]] made(2) by simp
qed

lemma lua_emit_grows: "well_formed E st \<Longrightarrow> grows E st (lua_emit ctx c st)"
proof -
  assume wf: "well_formed E st"
  have "grows E st (case r of (None, st') \<Rightarrow> st' | (Some imp, st') \<Rightarrow> from_top (\<lambda>p. [ref_at p m EK_imports c]) st')"
    if "grows E st (snd r)" for r :: "node option \<times> ext_state" and m
    using that grows_then [OF that from_top_grows] by (auto simp: emitted split: prod.split option.split)
  then show ?thesis
    unfolding lua_emit_def using created_grows [OF wf] wf by (simp add: grows_refl split: option.split)
qed

lemma lua_visit_grows: "well_formed E st \<Longrightarrow> grows E st (snd (lua_visit ctx c st))"
  unfolding lua_visit_def by (auto intro!: fold_grows lua_emit_grows grows_refl split: option.split)

lemma implements_here_from [emitted]: "u_fromNodeId (implements_here x c p n) = p"
  by (simp add: implements_here_def emitted)

lemma ruby_module_grows:
  assumes wf: "well_formed E st"
  shows "grows E st (snd (ruby_module ctx c st))"
proof -
  have body: "keeps E (case b of None \<Rightarrow> (\<lambda>s. s) | Some b \<Rightarrow> visit_all vn b)" for b
    using visit_all_keeps by (simp add: keeps_def grows_refl split: option.split)
  show ?thesis
  proof (cases "if type_of c = ''module'' then getChildByField c ''name'' else None")
    case (Some n)
    obtain r st' where r: "createNode E NK_module (getNodeText n (x_source E)) c no_extra st = (r, st')"
      by fastforce
    show ?thesis
      using created_grows [OF wf] created_scope_grows [OF wf _ body] r Some
      unfolding ruby_module_def context_simps by (cases r) (auto, metis snd_conv)
  qed (simp add: ruby_module_def wf grows_refl)
qed

lemma ruby_visit_grows:
  assumes wf: "well_formed E st"
  shows "grows E st (snd (ruby_visit ctx c st))"
proof -
  have "grows E st (add_refs (map (implements_here ctx c p) xs) st)" if "top_scope st = Some p" for p xs
    using add_refs_grows [OF wf _ top_scope_in [OF wf that]] by (simp add: from_rules emitted)
  then show ?thesis
    unfolding ruby_visit_def using ruby_module_grows [OF wf] by (auto split: option.split)
qed

lemma php_visit_grows: "well_formed E st \<Longrightarrow> grows E st (snd (php_visit ctx c st))"
  unfolding php_visit_def php_constant_def
  by (auto intro!: fold_grows from_top_grows from_rules created_grows grows_refl simp: emitted split: option.split)

lemma objc_visit_grows:
  assumes wf: "well_formed E st"
  shows "grows E st (snd (objc_visit ctx c st))"
proof -
  have body: "keeps E (fold (visit_all vn) ks)" for ks
    by (rule keeps_fold) (rule visit_all_keeps)
  have cls: "grows E st st' \<and> (\<forall>n. r = Some n \<longrightarrow> n_id n \<in> ids st')" if "objc_class ctx c name st = (r, st')" for name r st'
    using that createNode_grows [OF wf] wf
    by (auto simp: objc_class_def ids_def grows_refl dest: find_in split: option.splits)
  have "grows E st (case r of (None, st') \<Rightarrow> st' | (Some n, st') \<Rightarrow> in_scope (n_id n) (fold (visit_all vn) ks) st')"
    if "objc_class ctx c name st = r" for name r ks
    using cls [of name "fst r" "snd r"] that in_scope_grows [OF _ _ body] grows_then
    by (cases r) (auto split: option.split)
  then show ?thesis
    unfolding objc_visit_def context_simps using wf by (simp add: grows_refl split: option.split)
qed

lemma kotlin_visit_grows:
  assumes wf: "well_formed E st"
  shows "grows E st (snd (kotlin_visit src ctx c st))"
proof -
  have body: "keeps E (fold (visit_all vn) ks)" for ks
    by (rule keeps_fold) (rule visit_all_keeps)
  have "grows E st (snd (case createNode E NK_interface name c no_extra st of
      (None, st') \<Rightarrow> (False, st') | (Some n, st') \<Rightarrow> (True, in_scope (n_id n) (fold (visit_all vn) ks) st')))" for name ks
    using created_grows [OF wf, of NK_interface name c no_extra] created_scope_grows [OF wf _ body]
    by (auto split: prod.split option.split)
  then show ?thesis
    unfolding kotlin_visit_def context_simps using wf by (simp add: grows_refl split: option.split)
qed

lemma emitScalaTypeRefs_from [emitted]: "refs_from i (emitScalaTypeRefs src i c)"
  by (induction src i c rule: emitScalaTypeRefs.induct)
    (subst emitScalaTypeRefs.simps, auto simp: emitted intro!: from_rules)

lemma scala_value_grows:
  assumes wf: "well_formed E st"
  shows "grows E st (scala_value src ctx c name st)"
proof -
  have "grows E st (case (createNode E kind name c x st, t) of
      ((Some n, st'), Some t) \<Rightarrow> add_refs (emitScalaTypeRefs s (n_id n) t) st' | ((_, st'), _) \<Rightarrow> st')" for kind x t s
  proof (cases "createNode E kind name c x st")
    case (Pair r st')
    note made = createNode_grows [OF wf Pair]
    have "grows E st (add_refs (emitScalaTypeRefs s (n_id n) y) st')" if "r = Some n" for n y
      using grows_trans [OF made(1) add_refs_grows [OF grows_wf [OF made(1)] _ conjunct1 [OF made(2) [OF that]]]]
      by (simp add: emitted)
    then show ?thesis
      using Pair made(1) by (auto split: option.split)
  qed
  then show ?thesis
    unfolding scala_value_def Let_def context_simps by simp
qed

lemma scala_visit_grows: "well_formed E st \<Longrightarrow> grows E st (snd (scala_visit src ctx c st))"
  unfolding scala_visit_def scala_enum_case_def
  by (auto intro!: fold_grows created_grows scala_value_grows visit_all_grows grows_refl split: option.split)

end

end
