(* ===== verification/Extractors.thy ===== *)
theory Extractors
  imports LanguageLaws
begin

text \<open>
  The languages meet the contracts of the extractor: the locales of hooks and visitors are interpreted on every
  configuration of \<open>EXTRACTORS\<close>.
\<close>

section \<open>The contracts hold\<close>

lemmas configurations = typescriptExtractor_def javascriptExtractor_def pythonExtractor_def goExtractor_def
  rustExtractor_def javaExtractor_def cExtractor_def cppExtractor_def csharpExtractor_def phpExtractor_def
  rubyExtractor_def swiftExtractor_def kotlinExtractor_def dartExtractor_def pascalExtractor_def scalaExtractor_def
  luaExtractor_def luauExtractor_def objcExtractor_def plain_extractor_def

lemma configured_hook:
  "le_visitNode (x_extractor (language_env f l s d n)) \<in>
     {(\<lambda>_ _ st. (False, st)), lua_visit, ruby_visit, php_visit, objc_visit, kotlin_visit s, scala_visit s}"
  by (cases l) (simp_all add: language_env_def configurations)

lemma configured_body:
  "le_resolveBody (x_extractor (language_env f l s d n)) \<in>
     {(\<lambda>_ _. None), script_resolveBody ''public_field_definition'', script_resolveBody ''field_definition'',
      objc_resolveBody, kotlin_resolveBody} \<or> l = L_dart"
  by (cases l) (simp_all add: language_env_def configurations)

lemma env_source [simp]: "x_source (language_env f l s d n) = s"
  by (simp add: language_env_def)

interpretation extractor: language_hook "language_env f l s d n" for f l s d n
proof
  fix vn vb st c
  assume v: "visitors (language_env f l s d n) vn vb" and wf: "well_formed (language_env f l s d n) st"
  show "grows (language_env f l s d n) st (snd (le_visitNode (x_extractor (language_env f l s d n))
      (makeExtractorContext (language_env f l s d n) vn vb) c st))"
    using configured_hook [of f l s d n] wf visitors.lua_visit_grows [OF v] visitors.ruby_visit_grows [OF v]
      visitors.php_visit_grows [OF v] visitors.objc_visit_grows [OF v] visitors.kotlin_visit_grows [OF v]
      visitors.scala_visit_grows [OF v]
    by (auto simp: grows_refl)
qed

interpretation walkers: visitors "language_env f l s d n" "visitNode (language_env f l s d n)"
    "visitFunctionBody (language_env f l s d n)" for f l s d n
  by unfold_locales (auto intro: keepsI extractor.visitNode_grows extractor.visitFunctionBody_grows)

subsection \<open>Bodies\<close>

lemma script_body_below:
  assumes "genuine a" "script_resolveBody t a f = Some b"
  shows "lower X a b"
proof -
  obtain g where g: "field_function a = Some g" "getChildByField g f = Some b"
    using assms(2) by (auto simp: script_resolveBody_def split: if_splits bind_splits)
  obtain k where k: "k \<in> set (namedChildren a)" "k = g \<or> (\<exists>args. getChildByField k ''arguments'' = Some args
      \<and> child_of_type function_values args = Some g)"
    using g(1) by (auto simp: field_function_def dest!: first_some_in split: if_splits bind_splits)
  note lk = lower_named [OF assms(1) k(1), of X]
  have "lower X a g"
    using k(2) lk lower_field [OF lower_genuine [OF lk]] lower_typed lower_genuine lower_trans by meson
  then show ?thesis
    using lower_field [OF lower_genuine g(2)] lower_trans by blast
qed

lemma next_named_in:
  assumes "nextNamedSibling a = Some b"
  obtains i p up where "way_up a = (i, p) # up" "b \<in> set (all_children (Cursor p up))"
proof -
  have "b \<in> set (next_siblings a)"
    using assms by (simp add: nextNamedSibling_def split: list.splits)
  then show thesis
    using that by (cases "way_up a") (auto simp: next_siblings_def dest: in_set_dropD split: prod.splits)
qed

lemma next_in:
  assumes "nextSibling a = Some b"
  obtains i p up where "way_up a = (i, p) # up" "b \<in> set (all_children (Cursor p up))"
  using assms that by (auto simp: nextSibling_def all_children_def split: list.splits prod.splits if_splits)

lemma dart_body_below:
  assumes "genuine a" "dart_resolveBody a f = Some b" "X = dartExtractor s"
  shows "lower X a b"
proof (cases "type_of a = ''function_signature'' \<or> type_of a = ''method_signature''")
  case False
  then show ?thesis
    using assms lower_field lower_typed by (auto simp: dart_resolveBody_def given_or_def split: option.splits)
next
  case True
  then have b: "nextNamedSibling a = Some b" "type_of b = ''function_body''"
    using assms(2) by (auto simp: dart_resolveBody_def split: option.splits if_splits)
  obtain i p up where a: "way_up a = (i, p) # up" "b \<in> set (all_children (Cursor p up))"
    by (rule next_named_in [OF b(1)])
  have "genuine (Cursor p up)"
    using assms(1) a(1) by (cases a) (simp add: genuine_def)
  then have "genuine b" "room b = size p"
    using child_genuine a(2) room_child by fastforce+
  moreover have "room a = size p"
    using a(1) by (simp add: room_def)
  moreover have "plain_node X b" "\<not> plain_node X a"
    using b(2) True by (auto simp: plain_node_def assms(3) dartExtractor_def plain_extractor_def)
  ultimately show ?thesis
    by (simp add: lower_def rank_def)
qed

lemma bodies_below: "resolves_below (language_env f l s d n)"
  unfolding resolves_below_def below_def
proof (intro allI impI)
  fix a g b
  let ?X = "x_extractor (language_env f l s d n)"
  assume a: "genuine a" and b: "le_resolveBody ?X a g = Some b"
  show "lower ?X a b"
  proof (cases "l = L_dart")
    case True
    then show ?thesis
      using dart_body_below [OF a] b by (simp add: language_env_def dartExtractor_def plain_extractor_def)
  next
    case False
    then show ?thesis
      using configured_body [of f l s d n] a b script_body_below lower_field lower_typed lower_named
      by (auto simp: objc_resolveBody_def kotlin_resolveBody_def given_or_def dest!: find_in split: option.splits)
  qed
qed

subsection \<open>Hooks\<close>

context agreeing
begin

lemma below_visited:
  assumes "near k"
  shows "visit_all (ctx_visitNode (makeExtractorContext E vn vb)) k = visit_all (ctx_visitNode (makeExtractorContext E vn' vb')) k"
  using visit_all_same [OF assms] by simp

lemma lua_same: "lua_visit (makeExtractorContext E vn vb) c st = lua_visit (makeExtractorContext E vn' vb') c st"
proof -
  have "lua_emit (makeExtractorContext E vn vb) = lua_emit (makeExtractorContext E vn' vb')"
    unfolding lua_emit_def context_simps by (rule refl)
  then show ?thesis
    unfolding lua_visit_def context_simps by (simp split: option.split)
qed

lemma php_same: "php_visit (makeExtractorContext E vn vb) c st = php_visit (makeExtractorContext E vn' vb') c st"
proof -
  have "php_constant (makeExtractorContext E vn vb) = php_constant (makeExtractorContext E vn' vb')"
    "implements_here (makeExtractorContext E vn vb) = implements_here (makeExtractorContext E vn' vb')"
    unfolding php_constant_def implements_here_def context_simps by (rule refl)+
  then show ?thesis
    by (simp add: php_visit_def)
qed

lemma ruby_same: "ruby_visit (makeExtractorContext E vn vb) c st = ruby_visit (makeExtractorContext E vn' vb') c st"
proof -
  have "visit_all vn b = visit_all vn' b" if "getChildByField c f = Some b" for b f
    by (rule visit_all_same [OF near_below [OF near_field [OF near_here that]]])
  then have "ruby_module (makeExtractorContext E vn vb) c st = ruby_module (makeExtractorContext E vn' vb') c st"
    unfolding ruby_module_def context_simps by (auto split: option.split prod.split)
  moreover have "implements_here (makeExtractorContext E vn vb) = implements_here (makeExtractorContext E vn' vb')"
    unfolding implements_here_def context_simps by (rule refl)
  ultimately show ?thesis
    unfolding ruby_visit_def context_simps by (simp split: option.split)
qed

lemma objc_same: "objc_visit (makeExtractorContext E vn vb) c st = objc_visit (makeExtractorContext E vn' vb') c st"
proof -
  have "fold (visit_all vn) (filter P (namedChildren c)) = fold (visit_all vn') (filter P (namedChildren c))" for P
    using visit_all_same near_below near_named [OF near_here] by (intro ext fold_cong refl) auto
  moreover have "objc_class (makeExtractorContext E vn vb) = objc_class (makeExtractorContext E vn' vb')"
    unfolding objc_class_def context_simps by (rule refl)
  ultimately show ?thesis
    unfolding objc_visit_def context_simps by (simp split: option.split prod.split)
qed

lemma scala_same: "scala_visit s (makeExtractorContext E vn vb) c st = scala_visit s (makeExtractorContext E vn' vb') c st"
proof -
  have "visit_all vn b = visit_all vn' b" if "getChildByField c f = Some b" for b f
    by (rule visit_all_same [OF near_below [OF near_field [OF near_here that]]])
  moreover have "scala_value s (makeExtractorContext E vn vb) = scala_value s (makeExtractorContext E vn' vb')"
    "scala_enum_case (makeExtractorContext E vn vb) = scala_enum_case (makeExtractorContext E vn' vb')"
    unfolding scala_value_def scala_enum_case_def context_simps by (rule refl)+
  ultimately show ?thesis
    unfolding scala_visit_def context_simps by (simp split: option.split)
qed

text \<open>The body of a functional interface of Kotlin is a child of the next sibling.\<close>

lemma kotlin_same: "kotlin_visit s (makeExtractorContext E vn vb) c st = kotlin_visit s (makeExtractorContext E vn' vb') c st"
proof -
  have "below E c k" if k: "k \<in> set (fun_interface_body c)" for k
  proof -
    obtain b where b: "nextSibling c = Some b" "k \<in> set (namedChildren b)"
      using k by (cases "nextSibling c") (auto simp: fun_interface_body_def split: if_splits)
    obtain i p up where a: "way_up c = (i, p) # up" "b \<in> set (all_children (Cursor p up))"
      by (rule next_in [OF b(1)])
    have p: "genuine (Cursor p up)"
      using c a(1) by (cases c) (simp add: genuine_def)
    have "room k = size (here b)"
      by (rule room_child [OF named_in_all [OF b(2)]])
    also have "\<dots> < room b"
      by (rule room_here [OF child_genuine [OF p a(2)]])
    also have "\<dots> = room c"
      using room_child [OF a(2)] a(1) by (simp add: room_def)
    finally show ?thesis
      using child_genuine [OF child_genuine [OF p a(2)] named_in_all [OF b(2)]]
      by (simp add: below_def lower_def rank_less)
  qed
  then have "fold (visit_all vn) (fun_interface_body c) = fold (visit_all vn') (fun_interface_body c)"
    using visit_all_same near_below by (intro ext fold_cong refl) auto
  then show ?thesis
    unfolding kotlin_visit_def context_simps by (simp split: option.split prod.split)
qed

end

interpretation bounded: local_hooks "language_env f l s d n" for f l s d n
proof
  fix c vn vb vn' vb' st
  assume a: "agreeing (language_env f l s d n) c vn vb vn' vb'"
  show "le_visitNode (x_extractor (language_env f l s d n)) (makeExtractorContext (language_env f l s d n) vn vb) c st =
      le_visitNode (x_extractor (language_env f l s d n)) (makeExtractorContext (language_env f l s d n) vn' vb') c st"
    using configured_hook [of f l s d n] agreeing.lua_same [OF a] agreeing.ruby_same [OF a] agreeing.php_same [OF a]
      agreeing.objc_same [OF a] agreeing.scala_same [OF a] agreeing.kotlin_same [OF a] by auto
qed (rule bodies_below)

text \<open>At the top of a tree the bounded visitors agree with the full ones.\<close>

interpretation agreement: agreeing "language_env f l s d n" "top_cursor t"
    "visit_levels (rank (x_extractor (language_env f l s d n)) (top_cursor t)) (language_env f l s d n) True"
    "visit_levels (rank (x_extractor (language_env f l s d n)) (top_cursor t)) (language_env f l s d n) False"
    "visitNode (language_env f l s d n)" "visitFunctionBody (language_env f l s d n)" for f l s d n t
  by (rule bounded.visitors_below) simp

end
