(* ===== verification/FileLaws.thy ===== *)
theory FileLaws
  imports Extractors
begin

text \<open>
  What an extraction promises: a connected graph of the file, of which the store drops nothing, and visitors
  that end and satisfy the recursion of the code. Two lemmas at the end show where the code departs from its
  intent.
\<close>

section \<open>The graph of a file\<close>










section \<open>Storing it\<close>



section \<open>The recursion\<close>

text \<open>
  C16: the visitors end. On a node of a tree, in every language with its hook, \<open>visitNode\<close> and
  \<open>visitFunctionBody\<close> satisfy the mutual recursion of the code, and the bound on the levels that makes them
  functions is never felt: every larger bound gives the same.
\<close>

theorem visitors_recursion:
  assumes "genuine c" and "E = language_env filePath lang source digest now"
  shows "visitNode E c st = visit_step E (visitNode E) (visitFunctionBody E) c st
    \<and> visitFunctionBody E c st = body_step E (visitNode E) (visitFunctionBody E) c st
    \<and> visit_levels (Suc (rank (x_extractor E) c) + k) E True c st = visitNode E c st
    \<and> visit_levels (Suc (rank (x_extractor E) c) + k) E False c st = visitFunctionBody E c st"
  unfolding assms(2)
proof (intro conjI)
  let ?E = "language_env filePath lang source digest now"
  have more: "rank (x_extractor ?E) c < Suc (rank (x_extractor ?E) c) + k"
    by simp
  show "visitNode ?E c st = visit_step ?E (visitNode ?E) (visitFunctionBody ?E) c st"
    by (rule bounded.visitNode_step [OF assms(1)])
  show "visitFunctionBody ?E c st = body_step ?E (visitNode ?E) (visitFunctionBody ?E) c st"
    by (rule bounded.visitFunctionBody_step [OF assms(1)])
  show "visit_levels (Suc (rank (x_extractor ?E) c) + k) ?E True c st = visitNode ?E c st"
    using bounded.enough_levels [OF assms(1) more, of True st] by (simp only: if_True)
  show "visit_levels (Suc (rank (x_extractor ?E) c) + k) ?E False c st = visitFunctionBody ?E c st"
    using bounded.enough_levels [OF assms(1) more, of False st] by (simp only: if_False)
qed

section \<open>Examples\<close>

definition cpp_source :: string where
  "cpp_source = ''class A{public:int f(){}private:int g(){}};''"

text \<open>The tree of \<open>cpp_source\<close>.\<close>

definition cpp_method :: "string \<Rightarrow> nat \<Rightarrow> snode" where
  "cpp_method name i =
     SNode ''function_definition'' True i (i + 9) 0 i 0 (i + 9)
       [(Some ''type'', SNode ''primitive_type'' True i (i + 3) 0 i 0 (i + 3) []),
        (Some ''declarator'', SNode ''function_declarator'' True (i + 4) (i + 7) 0 (i + 4) 0 (i + 7)
          [(Some ''declarator'', SNode ''field_identifier'' True (i + 4) (i + 5) 0 (i + 4) 0 (i + 5) []),
           (Some ''parameters'', SNode ''parameter_list'' True (i + 5) (i + 7) 0 (i + 5) 0 (i + 7) [])]),
        (Some ''body'', SNode ''compound_statement'' True (i + 7) (i + 9) 0 (i + 7) 0 (i + 9) [])]"

definition cpp_tree :: snode where
  "cpp_tree =
     SNode ''translation_unit'' True 0 43 0 0 0 43
       [(None, SNode ''class_specifier'' True 0 42 0 0 0 42
         [(Some ''name'', SNode ''type_identifier'' True 6 7 0 6 0 7 []),
          (Some ''body'', SNode ''field_declaration_list'' True 7 42 0 7 0 42
            [(None, SNode ''access_specifier'' True 8 14 0 8 0 14 []),
             (None, cpp_method ''f'' 15),
             (None, SNode ''access_specifier'' True 24 31 0 24 0 31 []),
             (None, cpp_method ''g'' 32)])])]"






theorem visitors_recursion_witness:
  "visit_levels (Suc (rank (cppExtractor cpp_source) (top_cursor cpp_tree)) + 5) (language_env ''a.cpp'' L_cpp cpp_source id 0) True
      (top_cursor cpp_tree) (file_state (file_root_node ''a.cpp'' L_cpp cpp_source 0))
    = visitNode (language_env ''a.cpp'' L_cpp cpp_source id 0) (top_cursor cpp_tree) (file_state (file_root_node ''a.cpp'' L_cpp cpp_source 0))"
proof -
  have "x_extractor (language_env ''a.cpp'' L_cpp cpp_source id 0) = cppExtractor cpp_source"
    by (simp add: language_env_def)
  then show ?thesis
    using visitors_recursion [OF top_genuine refl, of "''a.cpp''" L_cpp cpp_source id 0 cpp_tree
        "file_state (file_root_node ''a.cpp'' L_cpp cpp_source 0)" 5] by simp
qed

section \<open>Visibility in C++\<close>

text \<open>
  All members of a C++ class get the same visibility, since the search among the children of the class ends at
  the first access specifier, wherever the member stands: of \<open>class A { public: int f(){} private: int g(){} }\<close>
  both methods are public.
\<close>

lemma cpp_members_share_visibility:
  "parent_node c = Some p \<Longrightarrow> parent_node k = Some p \<Longrightarrow> cpp_visibility src c = cpp_visibility src k"
  by (simp add: cpp_visibility_def)

end
