(* ===== verification/Spec2Isabelle.thy ===== *)
theory Spec2Isabelle
  imports Prelude Types LruCache QueryParser CacheContract Rows NodeStore GraphStore LevelOrder Exploration
    Traversal TraversalLaws GraphQueries Regex QueryUtils StripComments Search
    Paths Captures ResolutionTypes NameMatcher ImportMappings ImportResolver BuiltIns Resolver
    Numerals Steps FileLock Mutex SourceFiles Watcher SafePaths FileScan Indexer IndexerLaws Directory Facade
    ContextSearch ContextBuilder ContextLaws FileLaws
begin

text \<open>
  A verification development of codegraph, the TypeScript program under \<open>src/codegraph/src\<close>: it scans a
  project, extracts a graph of symbols and their relations into SQLite, resolves references between files,
  keeps the index up to date with a file watcher, and answers questions on the graph.

  \<^bold>\<open>How the program is put together.\<close> The facade (class \<open>CodeGraph\<close>) owns a store (\<open>QueryBuilder\<close>),
  an extraction orchestrator, a reference resolver, a graph traverser, a context builder and a watcher. An
  index run scans the project, hands every file to an extractor, stores nodes, edges and unresolved
  references in one transaction per file, and then lets the resolver turn the references into edges batch by
  batch. A synchronisation compares the scan with the stored file records and does the same for what has
  changed. Searches, traversals and the context builder only read the store. A mutex keeps the tasks of one
  process apart, a lock file the processes.

  \<^bold>\<open>Theories and sources.\<close> Definitions keep the names of the code; a loop body or a step that has no name
  there is named after what it does.

  \<^item> Foundations: \<open>Prelude\<close> (strings, insertion-ordered maps and sets, stable sorting), \<open>Numerals\<close> (decimal
    text), \<open>Paths\<close> (POSIX \<open>path\<close>), \<open>Regex\<close> and \<open>Captures\<close> (regular expressions under backtracking
    semantics, without and with groups), \<open>Steps\<close> (reachable states and the locale \<open>invariant_of\<close>).
  \<^item> Data: \<open>Types\<close> (\<open>types.ts\<close>), \<open>Rows\<close> (row types and conversions of \<open>db/queries.ts\<close>),
    \<open>ResolutionTypes\<close> (\<open>resolution/types.ts\<close>).
  \<^item> Store: \<open>NodeStore\<close> and \<open>GraphStore\<close> (\<open>QueryBuilder\<close>: tables, node cache, transactions, foreign keys),
    \<open>Search\<close> (its searches), \<open>CacheContract\<close> and \<open>LruCache\<close> (\<open>resolution/lru-cache.ts\<close>).
  \<^item> Reading: \<open>Traversal\<close> with \<open>LevelOrder\<close>, \<open>Exploration\<close> and \<open>TraversalLaws\<close> (\<open>graph/traversal.ts\<close>),
    \<open>GraphQueries\<close> (\<open>graph/queries.ts\<close>), \<open>QueryParser\<close> and \<open>QueryUtils\<close> (\<open>search/\<close>), \<open>ContextSearch\<close>,
    \<open>ContextBuilder\<close> and \<open>ContextLaws\<close> (\<open>context/\<close>).
  \<^item> Resolution: \<open>StripComments\<close> (\<open>strip-comments.ts\<close>), \<open>NameMatcher\<close> (\<open>name-matcher.ts\<close>), \<open>ImportMappings\<close>
    and \<open>ImportResolver\<close> (\<open>import-resolver.ts\<close>), \<open>BuiltIns\<close> and \<open>Resolver\<close> (\<open>resolution/index.ts\<close>).
  \<^item> Extraction: \<open>SyntaxTree\<close> and \<open>ExtractorCore\<close> (syntax trees and cursors on them, \<open>tree-sitter-helpers.ts\<close>,
    \<open>tree-sitter-types.ts\<close>, the creation of nodes), \<open>ExtractTypes\<close>, \<open>ExtractCalls\<close>, \<open>ExtractImports\<close>,
    \<open>ExtractDecls\<close>, \<open>ExtractVariables\<close>, \<open>ExtractPascal\<close> and \<open>ExtractVisit\<close> (the class \<open>TreeSitterExtractor\<close> of
    \<open>extraction/tree-sitter.ts\<close> by the kind of construct, the last with the two visitors), \<open>LangScript\<close>,
    \<open>LangDynamic\<close>, \<open>LangSystem\<close> and \<open>LangMobile\<close> (the nineteen languages of \<open>extraction/languages\<close> with their
    hooks), \<open>ExtractFile\<close> (\<open>extract\<close> and \<open>extractFromSource\<close>); \<open>ExtractSources\<close>, \<open>ExtractLaws\<close>,
    \<open>ExtractTermination\<close>, \<open>LanguageLaws\<close>, \<open>Extractors\<close> and \<open>FileLaws\<close> hold their laws.
  \<^item> Indexing: \<open>SourceFiles\<close> (\<open>extraction/grammars.ts\<close>), \<open>SafePaths\<close> (path tests of \<open>utils.ts\<close>), \<open>FileScan\<close>
    (the scans of \<open>extraction/index.ts\<close>), \<open>Indexer\<close> and \<open>IndexerLaws\<close> (\<open>ExtractionOrchestrator\<close>).
  \<^item> Processes: \<open>FileLock\<close> and \<open>Mutex\<close> (\<open>utils.ts\<close>), \<open>Watcher\<close> (\<open>sync/\<close>), \<open>Directory\<close> (\<open>directory.ts\<close>),
    \<open>Facade\<close> (\<open>index.ts\<close>).

  \<^bold>\<open>State and interfaces.\<close> The store is the record \<open>query_builder\<close> (tables as lists of rows in rowid order,
  the transaction flag, the node cache); an operation maps it to a result or an error and a new store. The
  orchestrator, the resolver, the watcher and the facade have records of their own around it. What the
  program asks of the outside is a record of functions: \<open>scan_env\<close> (git, file system, the matcher of the
  package \<open>ignore\<close>), \<open>index_env\<close> (extractor, parse worker, content hash), the parsers of the extractor, \<open>watch_env\<close> (directories, timers,
  clock), the framework resolvers, and the full-text index \<open>fts\<close>; what is relied on is a hypothesis of the
  theorem that needs it (\<open>fts_ok\<close>: a search returns rows of the table).

  Interfaces between components are locales, each interpreted on the model: \<open>bounded_cache\<close> (what a cache
  owes its clients; the resolver's cache and the node cache provide it), \<open>tx_body\<close> (what a transaction body
  owes \<open>transaction\<close>), \<open>level_order\<close> and \<open>exploration\<close> (what a breadth-first and a recursive walk
  compute), \<open>c_like\<close> (what a comment scanner owes its automaton), \<open>invariant_of\<close> (an invariant of a step
  relation), \<open>visitors\<close> and \<open>language_hook\<close> (the operations of the extractor and the hook of a language keep the
  invariant when the visitors that they call do), \<open>agreeing\<close> and \<open>local_hooks\<close> (they call the visitors only
  below the node they are given). The last four are interpreted on every configured language in \<open>Extractors\<close>.

  \<^bold>\<open>What the lemmas show.\<close> The store keeps referential integrity, primary keys and a coherent cache under
  every operation, so that cached reads are reads of the table (the components that only read use \<open>node_at\<close>).
  The traversals are compared with the relations they compute. The parsers and scanners have specifications
  of their own (cheapest edit script, comment automaton, rendering of filters). The resolver resolves to
  stored nodes only, with bounded confidence, and its batched loop ends. The extraction of a file is a
  well-formed graph of which the store drops nothing, whatever the syntax tree. Scans yield source files only.
  A synchronisation makes the index agree with the files that can be indexed, and a second one does nothing for
  them; it fails only with an exception of the extractor, which throws the memory errors of the parser on. The
  counts of a full index are those of the outcomes of its files. Path checks confine what is read and written. The concurrent components are step relations with invariants of all reachable
  states; where the code does not keep what it promises, a theorem exhibits the run.

  \<^bold>\<open>Bounds.\<close> Every recursion either is structural, has a measure, or is bounded by the number that the code
  itself counts to: four levels of supertypes, nine of re-exports (eight forwarding steps), sixty-four of the
  crate walk, six nodes of a call path under a budget of two thousand visits, one level of a printed tree.
  Walks of the file system are bounded by what the environment says exists (the number of directories for
  a scan, the nesting of repositories, the cap on watched directories, the depth below the data directory);
  the bound is reached only when everything has been visited. The operations of the lock file need at most
  seven calls of the file system. The visitors of the extractor call each other on children, on the bodies that
  a hook resolves and, in Dart and Kotlin, on siblings; \<open>visit_levels\<close> bounds the depth of these calls by the
  \<open>rank\<close> of the node (twice the size of the tree that holds it and its siblings, and one for a node that may
  own a sibling), and \<open>visitors_recursion\<close> shows that the bound is never felt.

  \<^bold>\<open>Choices of the model.\<close> Text is a list of one-byte code units and letter case is ASCII; characters of the
  sources beyond it are their UTF-8 bytes. Scores and confidences are rationals. Times are whole
  milliseconds. A \<open>SELECT\<close> without order yields rows in rowid order. Paths are POSIX paths. Bounded caches
  of pure functions are left out where they are shown transparent. Logging and progress reports are left out.
  Whether the lock file was obtained, and how long a synchronisation took, are arguments of the facade.

  \<^bold>\<open>Not modelled.\<close> The framework resolvers, the synthesis of callback edges and the bridge between Swift and
  Objective-C are collections of heuristics behind interfaces that the resolver takes as values. The syntax
  trees come from tree-sitter grammars in WebAssembly, which are no source, so the parsers are a parameter, and
  so are the extractors of component files (Svelte, Vue, Liquid, Razor, MyBatis, DFM), of frameworks and the
  worker thread around them; the orchestrator takes the extractor as a function that may throw. The loaders of project configuration parse files whose results are fields of the resolver's
  project. SQLite itself is modelled only through the statements of \<open>QueryBuilder\<close>. The command line, the MCP
  server, the installer, the upgrade, the git hooks and the terminal output are input and output around the
  modelled operations. The Go part of the repository is in another language.
\<close>

end
